(* ===== verification/Prelude.thy ===== *)
theory Prelude
  imports Main "HOL-Library.Word"
begin

text \<open>
  Shared vocabulary of the development: bytes and machine words, the result of a fallible
  Rust function, stateful fallible operations, big-endian encodings, slices, and the generic
  lemmas the component theories rest on.

  Conventions. A Rust \<open>Result<T, E>\<close> is \<open>'e + 'a\<close> with the error on the left. A method
  \<open>Type::method\<close> is the constant \<open>Type_method\<close> and an enum variant \<open>Type::Variant\<close> the
  constructor \<open>Type_Variant\<close>. Byte widths are kept (\<open>u8\<close>, \<open>u16\<close>, \<dots>); \<open>usize\<close> values that
  count bytes of a live slice are \<open>nat\<close>, because a Rust slice holds at most \<open>isize::MAX\<close>
  bytes and the sums formed from such lengths in the modelled code stay far below
  \<open>usize::MAX\<close>.
\<close>

unbundle bit_operations_syntax

type_synonym u8 = "8 word"
type_synonym u16 = "16 word"
type_synonym u32 = "32 word"
type_synonym u64 = "64 word"
type_synonym bytes = "8 word list"

named_theorems wire_simps "byte-level encoders, unfolded for evaluation"
named_theorems result_simps "characteristic equations of fallible operations"


subsection \<open>Fallible operations\<close>

text \<open>The operator \<open>?\<close> of Rust on a \<open>Result\<close>, and \<open>map_err\<close>.\<close>

definition bindR :: "'e + 'a \<Rightarrow> ('a \<Rightarrow> 'e + 'b) \<Rightarrow> 'e + 'b" where
  "bindR r f = (case r of Inl e \<Rightarrow> Inl e | Inr x \<Rightarrow> f x)"

definition map_err :: "('e \<Rightarrow> 'f) \<Rightarrow> 'e + 'a \<Rightarrow> 'f + 'a" where
  "map_err g r = (case r of Inl e \<Rightarrow> Inl (g e) | Inr x \<Rightarrow> Inr x)"

definition ok_or :: "'e \<Rightarrow> 'a option \<Rightarrow> 'e + 'a" where
  "ok_or e x = (case x of None \<Rightarrow> Inl e | Some y \<Rightarrow> Inr y)"

text \<open>\<open>Result::ok\<close>.\<close>

definition result_ok :: "'e + 'a \<Rightarrow> 'a option" where
  "result_ok r = (case r of Inl _ \<Rightarrow> None | Inr x \<Rightarrow> Some x)"

lemma bindR_simps [simp, result_simps]:
  "bindR (Inl e) f = Inl e"
  "bindR (Inr x) f = f x"
  by (simp_all add: bindR_def)

lemma map_err_simps [simp, result_simps]:
  "map_err g (Inl e) = Inl (g e)"
  "map_err g (Inr x) = Inr x"
  by (simp_all add: map_err_def)

lemma ok_or_simps [simp, result_simps]:
  "ok_or e None = Inl e"
  "ok_or e (Some x) = Inr x"
  by (simp_all add: ok_or_def)

lemma result_ok_simps [simp, result_simps]:
  "result_ok (Inl e) = None"
  "result_ok (Inr x) = Some x"
  by (simp_all add: result_ok_def)

lemma bindR_eq_Inr: "bindR r f = Inr y \<longleftrightarrow> (\<exists>x. r = Inr x \<and> f x = Inr y)"
  by (cases r) auto

lemma bindR_eq_Inl: "bindR r f = Inl e \<longleftrightarrow> r = Inl e \<or> (\<exists>x. r = Inr x \<and> f x = Inl e)"
  by (cases r) auto

lemma ok_or_eq_Inr: "ok_or e x = Inr y \<longleftrightarrow> x = Some y"
  by (cases x) auto

lemma map_err_eq_Inr [simp]: "map_err g r = Inr y \<longleftrightarrow> r = Inr y"
  by (cases r) auto

lemma map_err_eq_Inl: "map_err g r = Inl e \<longleftrightarrow> (\<exists>e'. r = Inl e' \<and> e = g e')"
  by (cases r) auto


subsection \<open>Stateful fallible operations\<close>

text \<open>
  A Rust method on \<open>&mut self\<close> that returns a \<open>Result\<close>: the state is threaded, and on an
  error the state reached so far is kept, as a mutation before an early return is.
\<close>

type_synonym ('s, 'e, 'a) io = "'s \<Rightarrow> ('e + 'a) \<times> 's"

definition ret :: "'a \<Rightarrow> ('s, 'e, 'a) io" where
  "ret x = (\<lambda>s. (Inr x, s))"

definition fail :: "'e \<Rightarrow> ('s, 'e, 'a) io" where
  "fail e = (\<lambda>s. (Inl e, s))"

definition bindS :: "('s, 'e, 'a) io \<Rightarrow> ('a \<Rightarrow> ('s, 'e, 'b) io) \<Rightarrow> ('s, 'e, 'b) io" where
  "bindS m f = (\<lambda>s. case m s of (Inl e, s') \<Rightarrow> (Inl e, s') | (Inr x, s') \<Rightarrow> f x s')"

definition liftR :: "'e + 'a \<Rightarrow> ('s, 'e, 'a) io" where
  "liftR r = (\<lambda>s. (r, s))"

definition map_errS :: "('e \<Rightarrow> 'f) \<Rightarrow> ('s, 'e, 'a) io \<Rightarrow> ('s, 'f, 'a) io" where
  "map_errS g m = (\<lambda>s. case m s of (r, s') \<Rightarrow> (map_err g r, s'))"

text \<open>\<open>.ok()\<close> on a stateful call: the error is dropped, its effect is not.\<close>

definition okS :: "('s, 'e, 'a) io \<Rightarrow> ('s, 'f, 'a option) io" where
  "okS m = (\<lambda>s. case m s of (r, s') \<Rightarrow> (Inr (result_ok r), s'))"

lemma io_simps [simp]:
  "ret x s = (Inr x, s)"
  "fail e s = (Inl e, s)"
  "liftR r s = (r, s)"
  by (simp_all add: ret_def fail_def liftR_def)

lemma bindS_simps:
  "m s = (Inl e, s') \<Longrightarrow> bindS m f s = (Inl e, s')"
  "m s = (Inr x, s') \<Longrightarrow> bindS m f s = f x s'"
  by (simp_all add: bindS_def)

lemma bindS_ret [simp]: "bindS (ret x) f = f x"
  by (simp add: bindS_def fun_eq_iff)

lemma bindS_fail [simp]: "bindS (fail e) f = fail e"
  by (simp add: bindS_def fun_eq_iff)

lemma bindS_liftR [simp]:
  "bindS (liftR (Inr x)) f = f x"
  "bindS (liftR (Inl e)) f = fail e"
  by (simp_all add: bindS_def fun_eq_iff)

lemma bindS_ret_right: "bindS m ret = m"
  by (rule ext) (simp add: bindS_def split: prod.splits sum.splits)

lemma bindS_assoc: "bindS (bindS m f) g = bindS m (\<lambda>x. bindS (f x) g)"
  by (rule ext) (simp add: bindS_def split: prod.splits sum.splits)

lemma bindS_eq_Inr:
  "bindS m f s = (Inr y, t) \<longleftrightarrow> (\<exists>x s'. m s = (Inr x, s') \<and> f x s' = (Inr y, t))"
  by (cases "m s"; cases "fst (m s)") (auto simp: bindS_def)

lemma bindS_eq_Inl:
  "bindS m f s = (Inl e, t) \<longleftrightarrow>
     m s = (Inl e, t) \<or> (\<exists>x s'. m s = (Inr x, s') \<and> f x s' = (Inl e, t))"
  by (cases "m s"; cases "fst (m s)") (auto simp: bindS_def)

lemma map_errS_eq_Inr [simp]: "map_errS g m s = (Inr y, t) \<longleftrightarrow> m s = (Inr y, t)"
  by (cases "m s"; cases "fst (m s)") (auto simp: map_errS_def)

lemma map_errS_eq_Inl:
  "map_errS g m s = (Inl e, t) \<longleftrightarrow> (\<exists>e'. m s = (Inl e', t) \<and> e = g e')"
  by (cases "m s"; cases "fst (m s)") (auto simp: map_errS_def)

lemma okS_eq [simp]: "okS m s = (r, t) \<longleftrightarrow> (\<exists>q. m s = (q, t) \<and> r = Inr (result_ok q))"
  by (cases "m s") (auto simp: okS_def)


text \<open>A call log in front of the state: what was handed to \<open>f\<close>, in order.\<close>

definition logged :: "('c \<Rightarrow> ('s, 'e, 'a) io) \<Rightarrow> 'c \<Rightarrow> ('c list \<times> 's, 'e, 'a) io" where
  "logged f c = (\<lambda>(log, s). case f c s of (r, s') \<Rightarrow> (r, (log @ [c], s')))"

lemma logged_eq: "logged f c (log, s) = (fst (f c s), (log @ [c], snd (f c s)))"
  by (cases "f c s") (simp add: logged_def)

text \<open>An operation that leaves the log alone.\<close>

definition unlogged :: "('s, 'e, 'a) io \<Rightarrow> ('c list \<times> 's, 'e, 'a) io" where
  "unlogged m = (\<lambda>(log, s). case m s of (r, s') \<Rightarrow> (r, (log, s')))"

lemma unlogged_eq: "unlogged m (log, s) = (fst (m s), (log, snd (m s)))"
  by (cases "m s") (simp add: unlogged_def)

text \<open>A scripted responder: the replies are handed out in order, then \<open>exhausted\<close>.\<close>

fun scripted :: "'e \<Rightarrow> 'c \<Rightarrow> ('a list, 'e, 'a) io" where
  "scripted exhausted c (r # rs) = (Inr r, rs)"
| "scripted exhausted c [] = (Inl exhausted, [])"


subsection \<open>Slices\<close>

text \<open>\<open>bytes.get(i)\<close>, \<open>bytes.get(i..j)\<close> and \<open>bytes.get(i..)\<close>.\<close>

definition get_at :: "'a list \<Rightarrow> nat \<Rightarrow> 'a option" where
  "get_at xs i = (if i < length xs then Some (xs ! i) else None)"

definition get_range :: "'a list \<Rightarrow> nat \<Rightarrow> nat \<Rightarrow> 'a list option" where
  "get_range xs i j = (if i \<le> j \<and> j \<le> length xs then Some (take (j - i) (drop i xs)) else None)"

definition get_from :: "'a list \<Rightarrow> nat \<Rightarrow> 'a list option" where
  "get_from xs i = (if i \<le> length xs then Some (drop i xs) else None)"

lemma get_at_simps [simp]:
  "get_at [] i = None"
  "get_at (x # xs) 0 = Some x"
  "get_at (x # xs) (Suc i) = get_at xs i"
  by (simp_all add: get_at_def)

lemma get_at_append [simp]: "i < length xs \<Longrightarrow> get_at (xs @ ys) i = get_at xs i"
  by (simp add: get_at_def nth_append)

lemma get_at_eq_Some: "get_at xs i = Some x \<longleftrightarrow> i < length xs \<and> xs ! i = x"
  by (auto simp: get_at_def)

lemma get_at_eq_None [simp]: "get_at xs i = None \<longleftrightarrow> length xs \<le> i"
  by (auto simp: get_at_def)

lemma get_range_eq_Some:
  "get_range xs i j = Some ys \<longleftrightarrow> i \<le> j \<and> j \<le> length xs \<and> ys = take (j - i) (drop i xs)"
  by (auto simp: get_range_def)

lemma get_range_append [simp]: "j \<le> length xs \<Longrightarrow> get_range (xs @ ys) i j = get_range xs i j"
  by (auto simp: get_range_def)

lemma length_get_range: "get_range xs i j = Some ys \<Longrightarrow> length ys = j - i"
  by (auto simp: get_range_eq_Some)


subsection \<open>Positions, windows\<close>

text \<open>\<open>iter().position(p)\<close> and \<open>windows(n)\<close>.\<close>

fun position :: "('a \<Rightarrow> bool) \<Rightarrow> 'a list \<Rightarrow> nat option" where
  "position p [] = None"
| "position p (x # xs) = (if p x then Some 0 else map_option Suc (position p xs))"

lemma position_eq_None [simp]: "position p xs = None \<longleftrightarrow> (\<forall>x \<in> set xs. \<not> p x)"
  by (induction xs) auto

lemma position_eq_Some:
  "position p xs = Some i \<longleftrightarrow> i < length xs \<and> p (xs ! i) \<and> (\<forall>j < i. \<not> p (xs ! j))"
proof (induction xs arbitrary: i)
  case (Cons x xs)
  show ?case
  proof (cases i)
    case 0
    then show ?thesis using Cons by auto
  next
    case (Suc k)
    then show ?thesis using Cons by (auto simp: All_less_Suc2)
  qed
qed simp

fun windows :: "nat \<Rightarrow> 'a list \<Rightarrow> 'a list list" where
  "windows n xs = (if n = 0 \<or> length xs < n then [] else take n xs # windows n (tl xs))"

declare windows.simps [simp del]

lemma windows_length: "w \<in> set (windows n xs) \<Longrightarrow> length w = n"
  by (induction n xs rule: windows.induct)
    (subst (asm) windows.simps, auto split: if_splits)

text \<open>\<open>iter().find_map(f)\<close>.\<close>

fun find_map :: "('a \<Rightarrow> 'b option) \<Rightarrow> 'a list \<Rightarrow> 'b option" where
  "find_map f [] = None"
| "find_map f (x # xs) = (case f x of Some y \<Rightarrow> Some y | None \<Rightarrow> find_map f xs)"

lemma find_map_Some: "find_map f xs = Some y \<Longrightarrow> \<exists>x \<in> set xs. f x = Some y"
  by (induction xs) (auto split: option.splits)

lemma find_map_None [simp]: "find_map f xs = None \<longleftrightarrow> (\<forall>x \<in> set xs. f x = None)"
  by (induction xs) (auto split: option.splits)


subsection \<open>Big-endian encodings\<close>

definition u16_to_be_bytes :: "u16 \<Rightarrow> bytes" where
  "u16_to_be_bytes w = [ucast (drop_bit 8 w), ucast w]"

definition u32_to_be_bytes :: "u32 \<Rightarrow> bytes" where
  "u32_to_be_bytes w =
     [ucast (drop_bit 24 w), ucast (drop_bit 16 w), ucast (drop_bit 8 w), ucast w]"

definition u16_from_be_bytes :: "u8 \<Rightarrow> u8 \<Rightarrow> u16" where
  "u16_from_be_bytes hi lo = push_bit 8 (ucast hi) OR ucast lo"

text \<open>The fold \<open>(acc << 8) | b\<close> over a byte slice.\<close>

definition be_fold :: "bytes \<Rightarrow> nat" where
  "be_fold bs = foldl (\<lambda>acc b. push_bit 8 acc OR unat b) 0 bs"

lemma length_to_be_bytes [simp]:
  "length (u16_to_be_bytes w) = 2"
  "length (u32_to_be_bytes v) = 4"
  by (simp_all add: u16_to_be_bytes_def u32_to_be_bytes_def)

lemma push_or_nat:
  assumes "b < 256"
  shows "push_bit 8 a OR b = a * 256 + (b::nat)"
proof -
  have "take_bit 8 b = b" using assms by (simp add: take_bit_eq_mod)
  then have disj: "push_bit 8 a AND b = 0"
    by (metis (no_types) bit_and_iff bit_eqI bit_push_bit_iff bit_take_bit_iff bit_0_eq
        bot_apply bot_bool_def linorder_not_le)
  then have "push_bit 8 a OR b = push_bit 8 a + b"
    by (simp add: disjunctive_add_eq_or)
  then show ?thesis by (simp add: push_bit_eq_mult)
qed

lemma unat_u8_less [simp]: "unat (b::u8) < 256"
  using unsigned_less [of b] by simp

lemma be_fold_eq: "be_fold bs = foldl (\<lambda>acc b. acc * 256 + unat b) 0 bs"
  by (simp add: be_fold_def push_or_nat)

lemma foldl_base256:
  "foldl (\<lambda>acc b. acc * 256 + unat (b::u8)) a bs
     = a * 256 ^ length bs + foldl (\<lambda>acc b. acc * 256 + unat b) 0 bs"
proof (induction bs arbitrary: a)
  case (Cons b bs)
  show ?case
    using Cons [of "a * 256 + unat b"] Cons [of "unat b"] by (simp add: algebra_simps)
qed simp

lemma be_fold_Nil [simp]: "be_fold [] = 0"
  by (simp add: be_fold_def)

lemma be_fold_Cons [simp]: "be_fold (b # bs) = unat b * 256 ^ length bs + be_fold bs"
  using foldl_base256 [of "unat b" bs] by (simp add: be_fold_eq)

lemma be_fold_less: "be_fold bs < 256 ^ length bs"
proof (induction bs)
  case (Cons b bs)
  have "unat b * 256 ^ length bs + be_fold bs < (unat b + 1) * 256 ^ length bs"
    using Cons by (simp add: algebra_simps)
  also have "\<dots> \<le> 256 * 256 ^ length bs"
    using unat_u8_less [of b] by (intro mult_right_mono) linarith+
  finally show ?case by simp
qed simp

lemma be_fold_append: "be_fold (xs @ ys) = be_fold xs * 256 ^ length ys + be_fold ys"
  by (induction xs) (simp_all add: algebra_simps power_add)

lemma be_fold_zeros [simp]: "be_fold (replicate n 0) = 0"
  by (induction n) simp_all

lemma be_fold_take: "n \<le> length xs \<Longrightarrow> be_fold (take n xs) = be_fold xs div 256 ^ (length xs - n)"
  using be_fold_append [of "take n xs" "drop n xs"] be_fold_less [of "drop n xs"] by simp

lemma be_fold_inj: "length xs = length ys \<Longrightarrow> be_fold xs = be_fold ys \<Longrightarrow> xs = ys"
proof (induction xs ys rule: list_induct2)
  case (Cons x xs y ys)
  have "be_fold xs < 256 ^ length xs" "be_fold ys < 256 ^ length xs"
    using be_fold_less [of xs] be_fold_less [of ys] Cons.hyps by auto
  moreover have eq: "unat x * 256 ^ length xs + be_fold xs = unat y * 256 ^ length xs + be_fold ys"
    using Cons by simp
  moreover have "(unat z * 256 ^ length xs + r) div 256 ^ length xs = unat z"
    if "r < 256 ^ length xs" for z :: u8 and r :: nat using that by simp
  ultimately have "unat x = unat y" by metis
  then show ?case using Cons eq by (simp add: word_unat_eq_iff)
qed simp

lemma unat_ucast_byte: "unat (ucast w :: u8) = unat w mod 256"
  by (simp add: unsigned_ucast_eq take_bit_eq_mod)

lemma unat_drop_bit_div: "unat (drop_bit n w) = unat w div 2 ^ n"
  by (subst unat_drop_bit_eq) (simp add: drop_bit_eq_div)

lemma base256_2: "n < 65536 \<Longrightarrow> n div 256 mod 256 * 256 + n mod 256 = (n::nat)"
  using div_mult_mod_eq [of n 256] by (simp add: mod_less less_mult_imp_div_less)

lemma base256_4:
  assumes "n < 4294967296"
  shows "n div 16777216 mod 256 * 16777216 + (n div 65536 mod 256 * 65536
     + (n div 256 mod 256 * 256 + n mod 256)) = (n::nat)"
proof -
  have 1: "n div 256 div 256 = n div 65536" "n div 65536 div 256 = n div 16777216"
    by (simp_all add: div_mult2_eq [symmetric])
  have 2: "n div 16777216 mod 256 = n div 16777216"
    using assms by (simp add: less_mult_imp_div_less)
  show ?thesis
    using div_mult_mod_eq [of n 256] div_mult_mod_eq [of "n div 256" 256]
      div_mult_mod_eq [of "n div 65536" 256]
    unfolding 1 2 by linarith
qed

lemma be_fold_u16 [simp]: "be_fold (u16_to_be_bytes w) = unat w"
  using base256_2 [of "unat w"] unsigned_less [of w, where 'a = nat]
  by (simp add: u16_to_be_bytes_def unat_ucast_byte unat_drop_bit_div)

lemma be_fold_u32 [simp]: "be_fold (u32_to_be_bytes w) = unat w"
  using base256_4 [of "unat w"] unsigned_less [of w, where 'a = nat]
  by (simp add: u32_to_be_bytes_def unat_ucast_byte unat_drop_bit_div)

lemma unat_u16_from_be_bytes: "unat (u16_from_be_bytes hi lo) = unat hi * 256 + unat lo"
proof -
  have 1: "unat (ucast hi :: u16) = unat hi" "unat (ucast lo :: u16) = unat lo"
    using unat_u8_less [of hi] unat_u8_less [of lo]
    by (simp_all add: unsigned_ucast_eq take_bit_eq_mod mod_less del: unat_u8_less)
  have 2: "unat (push_bit 8 (ucast hi :: u16)) = push_bit 8 (unat hi)"
    using unat_u8_less [of hi]
    by (subst unsigned_push_bit_eq) (simp add: 1 take_bit_eq_mod push_bit_eq_mult)
  show ?thesis
    by (simp add: u16_from_be_bytes_def unsigned_or_eq 1 2 push_or_nat)
qed

lemma u16_be_bytes_inverse [simp]:
  "u16_from_be_bytes (ucast (drop_bit 8 w)) (ucast w) = w"
  using base256_2 [of "unat w"] unsigned_less [of w, where 'a = nat]
  by (intro unsigned_word_eqI [where 'a = nat])
    (simp add: unat_u16_from_be_bytes unat_ucast_byte unat_drop_bit_div)


lemma u16_to_from_be_bytes [simp]: "u16_to_be_bytes (u16_from_be_bytes hi lo) = [hi, lo]"
proof -
  have "unat (ucast (drop_bit 8 (u16_from_be_bytes hi lo)) :: u8) = unat hi"
    by (simp add: unat_ucast_byte unat_drop_bit_div unat_u16_from_be_bytes)
  moreover have "unat (ucast (u16_from_be_bytes hi lo) :: u8) = unat lo"
    by (simp add: unat_ucast_byte unat_u16_from_be_bytes)
  ultimately show ?thesis by (simp add: u16_to_be_bytes_def word_unat_eq_iff)
qed


subsection \<open>Validated newtypes\<close>

text \<open>
  The contract of a validating constructor: it accepts exactly the admissible raw values and
  keeps them unchanged. \<open>mk\<close> is the constructor with its error dropped, \<open>raw\<close> the accessor
  and \<open>valid\<close> the admissible raw values.
\<close>

locale validated =
  fixes mk :: "'a \<Rightarrow> 't option"
    and raw :: "'t \<Rightarrow> 'a"
    and valid :: "'a \<Rightarrow> bool"
  assumes mk_Some: "mk x = Some t \<Longrightarrow> valid x \<and> raw t = x"
    and mk_valid: "valid x \<Longrightarrow> mk x \<noteq> None"
begin

lemma accepts_iff: "(\<exists>t. mk x = Some t) \<longleftrightarrow> valid x"
  using mk_Some mk_valid by blast

lemma rejects_iff: "mk x = None \<longleftrightarrow> \<not> valid x"
  using mk_Some mk_valid by (metis option.exhaust)

lemma raw_valid: "mk x = Some t \<Longrightarrow> valid (raw t)"
  using mk_Some by blast

lemma mk_injective: "mk x = Some t \<Longrightarrow> mk y = Some t \<Longrightarrow> x = y"
  using mk_Some by metis

lemma mk_raw: "mk x = Some t \<Longrightarrow> mk (raw t) = Some t"
  using mk_Some by metis

end

end
