(* ===== verification/Ber.thy ===== *)
theory Ber
  imports Prelude
begin

text \<open>
  The BER-TLV encoder and decoder of \<open>crates/refineid-lib-core/src/ber.rs\<close>: \<open>BerEncoder\<close>
  with its length octets, the one-shot \<open>tlv\<close> and \<open>tlv2\<close>, the untyped parser
  \<open>BerTlvAny::parse\<close>, the typed promotion \<open>BerTlv<T>\<close> (the phantom tag is the argument
  \<open>tag\<close>), and the child iterator \<open>BerTlvIter\<close>.

  The lemmas show that what the encoder writes the parser reads back, whatever follows it in
  the buffer; that a parsed record never reaches outside its input; and that the iterator
  consumes its input exactly, ends, and is exhausted after an error.
\<close>


section \<open>Definitions\<close>

subsection \<open>Length-form markers\<close>

definition SHORT_FORM_CEILING :: nat where
  "SHORT_FORM_CEILING = 0x80"

definition LONG_FORM_1B :: u8 where
  "LONG_FORM_1B = 0x81"

definition LONG_FORM_2B :: u8 where
  "LONG_FORM_2B = 0x82"

definition LONG_FORM_3B :: u8 where
  "LONG_FORM_3B = 0x83"

definition LONG_FORM_4B :: u8 where
  "LONG_FORM_4B = 0x84"

lemmas form_defs = SHORT_FORM_CEILING_def LONG_FORM_1B_def LONG_FORM_2B_def LONG_FORM_3B_def
  LONG_FORM_4B_def


subsection \<open>The encoder\<close>

record BerEncoder =
  enc_out :: bytes

definition BerEncoder_with_capacity :: BerEncoder where
  "BerEncoder_with_capacity = \<lparr>enc_out = []\<rparr>"

definition BerEncoder_extend :: "BerEncoder \<Rightarrow> bytes \<Rightarrow> BerEncoder" where
  "BerEncoder_extend enc bs = enc\<lparr>enc_out := enc_out enc @ bs\<rparr>"

text \<open>\<open>None\<close> is the panic on a length above \<open>u32::MAX\<close>.\<close>

definition BerEncoder_push_length :: "BerEncoder \<Rightarrow> nat \<Rightarrow> BerEncoder option" where
  "BerEncoder_push_length enc len =
     (if len < SHORT_FORM_CEILING then
        Some (BerEncoder_extend enc [of_nat len])
      else if len \<le> 255 then
        Some (BerEncoder_extend (BerEncoder_extend enc [LONG_FORM_1B]) [of_nat len])
      else if len \<le> 65535 then
        Some (BerEncoder_extend (BerEncoder_extend enc [LONG_FORM_2B])
               (u16_to_be_bytes (of_nat len)))
      else if len \<le> 2 ^ 24 - 1 then
        Some (BerEncoder_extend (BerEncoder_extend enc [LONG_FORM_3B])
               (drop 1 (u32_to_be_bytes (of_nat len))))
      else if len \<le> 4294967295 then
        Some (BerEncoder_extend (BerEncoder_extend enc [LONG_FORM_4B])
               (u32_to_be_bytes (of_nat len)))
      else None)"

definition BerEncoder_push_tlv :: "BerEncoder \<Rightarrow> u8 \<Rightarrow> bytes \<Rightarrow> BerEncoder option" where
  "BerEncoder_push_tlv enc tag value_bytes =
     (case BerEncoder_push_length (BerEncoder_extend enc [tag]) (length value_bytes) of
        None \<Rightarrow> None
      | Some enc' \<Rightarrow> Some (BerEncoder_extend enc' value_bytes))"

definition BerEncoder_push_tlv_tag2 :: "BerEncoder \<Rightarrow> u16 \<Rightarrow> bytes \<Rightarrow> BerEncoder option" where
  "BerEncoder_push_tlv_tag2 enc tag2 value_bytes =
     (case BerEncoder_push_length (BerEncoder_extend enc (u16_to_be_bytes tag2))
             (length value_bytes) of
        None \<Rightarrow> None
      | Some enc' \<Rightarrow> Some (BerEncoder_extend enc' value_bytes))"

definition BerEncoder_finish :: "BerEncoder \<Rightarrow> bytes" where
  "BerEncoder_finish enc = enc_out enc"

definition tlv :: "u8 \<Rightarrow> bytes \<Rightarrow> bytes option" where
  "tlv tag value_bytes =
     map_option BerEncoder_finish (BerEncoder_push_tlv BerEncoder_with_capacity tag value_bytes)"

definition tlv2 :: "u16 \<Rightarrow> bytes \<Rightarrow> bytes option" where
  "tlv2 tag2 value_bytes =
     map_option BerEncoder_finish
       (BerEncoder_push_tlv_tag2 BerEncoder_with_capacity tag2 value_bytes)"


subsection \<open>The parser\<close>

datatype BerError =
    BerError_Empty
  | BerError_Truncated
  | BerError_UnsupportedLengthForm
  | BerError_UnexpectedTag u16 u16

record BerTlvAny =
  tlv_tag :: u16
  tlv_value :: bytes
  tlv_size :: nat

text \<open>The closure \<open>next\<close> of \<open>parse\<close>: one byte and the advanced cursor.\<close>

definition ber_next :: "bytes \<Rightarrow> bool \<Rightarrow> nat \<Rightarrow> BerError + (u8 \<times> nat)" where
  "ber_next bs label_first_byte idx =
     (case get_at bs idx of
        None \<Rightarrow> Inl (if label_first_byte \<and> idx = 0 then BerError_Empty else BerError_Truncated)
      | Some b \<Rightarrow> Inr (b, idx + 1))"

text \<open>The tag, one byte or two, and the cursor after it.\<close>

definition ber_parse_tag :: "bytes \<Rightarrow> BerError + (u16 \<times> nat)" where
  "ber_parse_tag bs =
     bindR (ber_next bs True 0) (\<lambda>(first, idx).
       if first AND 0x1F = 0x1F then
         bindR (ber_next bs False idx) (\<lambda>(second, idx').
           Inr (push_bit 8 (ucast first) OR ucast second, idx'))
       else Inr (ucast first, idx))"

definition ber_long_form_nbytes :: "u8 \<Rightarrow> BerError + nat" where
  "ber_long_form_nbytes len_first =
     (if len_first = LONG_FORM_1B then Inr 1
      else if len_first = LONG_FORM_2B then Inr 2
      else if len_first = LONG_FORM_3B then Inr 3
      else if len_first = LONG_FORM_4B then Inr 4
      else Inl BerError_UnsupportedLengthForm)"

text \<open>The length octets at the cursor: the length and the cursor after them.\<close>

definition ber_parse_length :: "bytes \<Rightarrow> nat \<Rightarrow> BerError + (nat \<times> nat)" where
  "ber_parse_length bs idx =
     bindR (ber_next bs False idx) (\<lambda>(len_first, idx').
       if len_first < LONG_FORM_1B then Inr (unat len_first, idx')
       else
         bindR (ber_long_form_nbytes len_first) (\<lambda>nbytes.
           bindR (ok_or BerError_Truncated (get_range bs idx' (idx' + nbytes))) (\<lambda>len_bytes.
             Inr (be_fold len_bytes, idx' + nbytes))))"

definition BerTlvAny_parse :: "bytes \<Rightarrow> BerError + BerTlvAny" where
  "BerTlvAny_parse bs =
     bindR (ber_parse_tag bs) (\<lambda>(tag, idx).
       bindR (ber_parse_length bs idx) (\<lambda>(len, idx').
         bindR (ok_or BerError_Truncated (get_range bs idx' (idx' + len))) (\<lambda>value.
           Inr \<lparr>tlv_tag = tag, tlv_value = value, tlv_size = idx' + len\<rparr>)))"

text \<open>
  The typed form. \<open>BerTlv<T>\<close> carries the value and the size; the marker \<open>T\<close> contributes its
  constant \<open>T::TAG\<close>.
\<close>

record BerTlv =
  typed_value :: bytes
  typed_size :: nat

definition BerTlvAny_expect :: "u16 \<Rightarrow> BerTlvAny \<Rightarrow> BerError + BerTlv" where
  "BerTlvAny_expect T t =
     (if tlv_tag t \<noteq> T then Inl (BerError_UnexpectedTag T (tlv_tag t))
      else Inr \<lparr>typed_value = tlv_value t, typed_size = tlv_size t\<rparr>)"

definition BerTlv_parse :: "u16 \<Rightarrow> bytes \<Rightarrow> BerError + BerTlv" where
  "BerTlv_parse T bs = bindR (BerTlvAny_parse bs) (BerTlvAny_expect T)"


subsection \<open>The iterator\<close>

record BerTlvIter =
  iter_remaining :: bytes

definition BerTlvIter_new :: "bytes \<Rightarrow> BerTlvIter" where
  "BerTlvIter_new v = \<lparr>iter_remaining = v\<rparr>"

definition BerTlv_iter_children :: "BerTlv \<Rightarrow> BerTlvIter" where
  "BerTlv_iter_children t = BerTlvIter_new (typed_value t)"

definition BerTlvIter_next ::
  "BerTlvIter \<Rightarrow> (BerError + BerTlvAny) option \<times> BerTlvIter" where
  "BerTlvIter_next it =
     (if iter_remaining it = [] then (None, it)
      else
        (case BerTlvAny_parse (iter_remaining it) of
           Inr t \<Rightarrow>
             (Some (Inr t),
              \<lparr>iter_remaining = (case get_from (iter_remaining it) (tlv_size t) of
                                   Some rest \<Rightarrow> rest | None \<Rightarrow> [])\<rparr>)
         | Inl e \<Rightarrow> (Some (Inl e), \<lparr>iter_remaining = []\<rparr>)))"


section \<open>The encoder writes a header and the value\<close>

text \<open>The length octets as a function of the length alone.\<close>

definition length_octets :: "nat \<Rightarrow> bytes option" where
  "length_octets n = map_option enc_out (BerEncoder_push_length BerEncoder_with_capacity n)"

lemma enc_out_extend [simp]: "enc_out (BerEncoder_extend enc bs) = enc_out enc @ bs"
  by (simp add: BerEncoder_extend_def)

lemma extend_extend [simp]:
  "BerEncoder_extend (BerEncoder_extend enc as) bs = BerEncoder_extend enc (as @ bs)"
  by (simp add: BerEncoder_extend_def)

lemma push_length_octets:
  "BerEncoder_push_length enc n = map_option (BerEncoder_extend enc) (length_octets n)"
  by (simp add: BerEncoder_push_length_def length_octets_def BerEncoder_with_capacity_def)

lemma length_octets_Some: "length_octets n \<noteq> None \<longleftrightarrow> n < 2 ^ 32"
  by (auto simp: length_octets_def BerEncoder_push_length_def form_defs)

lemma push_tlv_octets:
  "BerEncoder_push_tlv enc t v =
     map_option (\<lambda>l. BerEncoder_extend enc (t # l @ v)) (length_octets (length v))"
  by (cases "length_octets (length v)") (simp_all add: BerEncoder_push_tlv_def push_length_octets)

lemma tlv_octets: "tlv t v = map_option (\<lambda>l. t # l @ v) (length_octets (length v))"
  by (cases "length_octets (length v)")
    (simp_all add: tlv_def push_tlv_octets BerEncoder_finish_def BerEncoder_with_capacity_def)

lemma tlv2_octets:
  "tlv2 t v = map_option (\<lambda>l. u16_to_be_bytes t @ l @ v) (length_octets (length v))"
  by (cases "length_octets (length v)")
    (simp_all add: tlv2_def BerEncoder_push_tlv_tag2_def push_length_octets BerEncoder_finish_def
      BerEncoder_with_capacity_def)

lemma length_octets_short: "n < 128 \<Longrightarrow> length_octets n = Some [of_nat n]"
  by (simp add: length_octets_def BerEncoder_push_length_def SHORT_FORM_CEILING_def
      BerEncoder_with_capacity_def)

lemma length_octets_81: "128 \<le> n \<Longrightarrow> n \<le> 255 \<Longrightarrow> length_octets n = Some [0x81, of_nat n]"
  by (simp add: length_octets_def BerEncoder_push_length_def form_defs
      BerEncoder_with_capacity_def)


section \<open>The parser reads back what the encoder writes\<close>

lemma unat_of_nat_u8: "n \<le> 255 \<Longrightarrow> unat (of_nat n :: u8) = n"
  by (simp add: unat_of_nat)

lemma be_fold_u24:
  assumes "n < 16777216"
  shows "be_fold (drop (Suc 0) (u32_to_be_bytes (of_nat n))) = n"
proof -
  let ?w = "of_nat n :: u32"
  have n: "unat ?w = n" using assms by (simp add: unat_of_nat)
  have "be_fold (u32_to_be_bytes ?w)
      = unat (ucast (drop_bit 24 ?w) :: u8) * 256 ^ 3 + be_fold (drop (Suc 0) (u32_to_be_bytes ?w))"
    by (simp add: u32_to_be_bytes_def)
  moreover have "unat (ucast (drop_bit 24 ?w) :: u8) = 0"
    using assms by (simp only: unat_ucast_byte unat_drop_bit_div n) simp
  ultimately show ?thesis by (simp add: n)
qed

lemma ber_next_append [simp]: "ber_next (pre @ b # rest) f (length pre) = Inr (b, length pre + 1)"
  by (simp add: ber_next_def get_at_def nth_append)

lemma get_range_middle [simp]:
  "i = length pre \<Longrightarrow> j = length pre + length mid
     \<Longrightarrow> get_range (pre @ mid @ rest) i j = Some mid"
  by (simp add: get_range_def)

lemma ber_parse_length_long:
  assumes "ber_long_form_nbytes m = Inr (length lb)" and "\<not> m < LONG_FORM_1B"
  shows "ber_parse_length (pre @ (m # lb) @ rest) (length pre)
     = Inr (be_fold lb, length pre + length (m # lb))"
proof -
  have "get_range ((pre @ [m]) @ lb @ rest) (length pre + 1) (length pre + 1 + length lb)
      = Some lb"
    by (rule get_range_middle) simp_all
  then show ?thesis
    using assms by (simp add: ber_parse_length_def)
qed

lemma length_octets_cases:
  assumes "length_octets n = Some l"
  obtains (short) "n < 128" "l = [of_nat n]"
    | (long) m lb where "l = m # lb" "be_fold lb = n" "\<not> m < LONG_FORM_1B"
        "ber_long_form_nbytes m = Inr (length lb)"
proof -
  consider "n < 128" | "128 \<le> n" "n \<le> 255" | "255 < n" "n \<le> 65535"
    | "65535 < n" "n < 16777216" | "16777216 \<le> n" "n \<le> 4294967295"
    using length_octets_Some [of n] assms by fastforce
  then show thesis
  proof cases
    case 1
    with assms show thesis by (intro short) (simp_all add: length_octets_short)
  next
    case 2
    with assms have "l = [0x81, of_nat n]" by (simp add: length_octets_81)
    with 2 show thesis
      by (intro long [of "0x81" "[of_nat n]"])
        (simp_all add: form_defs ber_long_form_nbytes_def unat_of_nat_u8)
  next
    case 3
    with assms have "l = 0x82 # u16_to_be_bytes (of_nat n)"
      by (simp add: length_octets_def BerEncoder_push_length_def form_defs
          BerEncoder_with_capacity_def)
    with 3 show thesis
      by (intro long [of "0x82" "u16_to_be_bytes (of_nat n)"])
        (simp_all add: form_defs ber_long_form_nbytes_def unat_of_nat)
  next
    case 4
    with assms have "l = 0x83 # drop 1 (u32_to_be_bytes (of_nat n))"
      by (simp add: length_octets_def BerEncoder_push_length_def form_defs
          BerEncoder_with_capacity_def)
    with 4 show thesis
      by (intro long [of "0x83" "drop 1 (u32_to_be_bytes (of_nat n))"])
        (simp_all add: form_defs ber_long_form_nbytes_def be_fold_u24)
  next
    case 5
    with assms have "l = 0x84 # u32_to_be_bytes (of_nat n)"
      by (simp add: length_octets_def BerEncoder_push_length_def form_defs
          BerEncoder_with_capacity_def)
    with 5 show thesis
      by (intro long [of "0x84" "u32_to_be_bytes (of_nat n)"])
        (simp_all add: form_defs ber_long_form_nbytes_def unat_of_nat)
  qed
qed

lemma ber_parse_length_octets:
  assumes "length_octets n = Some l"
  shows "ber_parse_length (pre @ l @ rest) (length pre) = Inr (n, length pre + length l)"
  using assms
proof (cases rule: length_octets_cases)
  case short
  then show ?thesis
    by (simp add: ber_parse_length_def LONG_FORM_1B_def word_less_nat_alt unat_of_nat)
next
  case (long m lb)
  then show ?thesis using ber_parse_length_long [of m lb pre rest] by simp
qed

lemma BerTlvAny_parse_header:
  assumes tag: "ber_parse_tag (h @ l @ v @ rest) = Inr (t, length h)"
    and len: "length_octets (length v) = Some l"
  shows "BerTlvAny_parse (h @ l @ v @ rest)
     = Inr \<lparr>tlv_tag = t, tlv_value = v, tlv_size = length h + length l + length v\<rparr>"
proof -
  have "get_range ((h @ l) @ v @ rest) (length h + length l) (length h + length l + length v)
      = Some v"
    by (rule get_range_middle) simp_all
  then show ?thesis
    using tag ber_parse_length_octets [OF len, of h "v @ rest"]
    by (simp add: BerTlvAny_parse_def)
qed

lemma parse_tlv_append:
  assumes "tlv t v = Some enc" and "t AND 0x1F \<noteq> 0x1F"
  shows "BerTlvAny_parse (enc @ rest)
     = Inr \<lparr>tlv_tag = ucast t, tlv_value = v, tlv_size = length enc\<rparr>"
proof -
  from assms(1) obtain l where l: "length_octets (length v) = Some l" and enc: "enc = t # l @ v"
    by (auto simp: tlv_octets)
  have "ber_parse_tag ([t] @ l @ v @ rest) = Inr (ucast t, length [t])"
    using assms(2) by (simp add: ber_parse_tag_def ber_next_def)
  from BerTlvAny_parse_header [OF this l] show ?thesis by (simp add: enc)
qed

lemma parse_tlv2_append:
  assumes "tlv2 t v = Some enc" and "(ucast (drop_bit 8 t) :: u8) AND 0x1F = 0x1F"
  shows "BerTlvAny_parse (enc @ rest)
     = Inr \<lparr>tlv_tag = t, tlv_value = v, tlv_size = length enc\<rparr>"
proof -
  from assms(1) obtain l where l: "length_octets (length v) = Some l"
    and enc: "enc = u16_to_be_bytes t @ l @ v"
    by (auto simp: tlv2_octets)
  have "ber_parse_tag (u16_to_be_bytes t @ l @ v @ rest) = Inr (t, length (u16_to_be_bytes t))"
    using assms(2) u16_be_bytes_inverse [of t]
    by (simp add: ber_parse_tag_def ber_next_def u16_to_be_bytes_def u16_from_be_bytes_def)
  from BerTlvAny_parse_header [OF this l] show ?thesis by (simp add: enc)
qed


section \<open>A parsed record stays inside its input\<close>

lemma ber_next_Inr: "ber_next bs f i = Inr (b, j) \<longleftrightarrow> i < length bs \<and> b = bs ! i \<and> j = i + 1"
  by (auto simp: ber_next_def get_at_eq_Some split: option.splits)

lemma ber_parse_tag_Inr:
  "ber_parse_tag bs = Inr (t, i) \<Longrightarrow> 0 < i \<and> i \<le> length bs"
  by (auto simp: ber_parse_tag_def bindR_eq_Inr ber_next_Inr Suc_le_eq
      split: if_splits prod.splits)

lemma ber_parse_tag_append:
  "ber_parse_tag bs = Inr (t, i) \<Longrightarrow> ber_parse_tag (bs @ xs) = Inr (t, i)"
  by (auto simp: ber_parse_tag_def bindR_eq_Inr ber_next_Inr nth_append
      split: if_splits prod.splits)

lemma ber_parse_length_Inr:
  "ber_parse_length bs i = Inr (n, j) \<Longrightarrow> i < j \<and> j \<le> length bs"
  by (auto simp: ber_parse_length_def bindR_eq_Inr ber_next_Inr ok_or_eq_Inr get_range_eq_Some
      split: if_splits prod.splits)

lemma ber_parse_length_append:
  "ber_parse_length bs i = Inr (n, j) \<Longrightarrow> ber_parse_length (bs @ xs) i = Inr (n, j)"
  by (auto simp: ber_parse_length_def bindR_eq_Inr ber_next_Inr ok_or_eq_Inr get_range_eq_Some
      nth_append split: if_splits prod.splits)

lemma BerTlvAny_parse_Inr:
  assumes "BerTlvAny_parse bs = Inr t"
  obtains i j where "ber_parse_tag bs = Inr (tlv_tag t, i)"
    "ber_parse_length bs i = Inr (length (tlv_value t), j)"
    "tlv_size t = j + length (tlv_value t)" "0 < i" "i < j" "tlv_size t \<le> length bs"
    "tlv_value t = take (length (tlv_value t)) (drop j bs)"
  using assms
  by (fastforce simp: BerTlvAny_parse_def bindR_eq_Inr ok_or_eq_Inr get_range_eq_Some
      dest: ber_parse_tag_Inr ber_parse_length_Inr split: prod.splits)

lemma BerTlvAny_parse_size:
  assumes "BerTlvAny_parse bs = Inr t"
  shows "length (tlv_value t) + 2 \<le> tlv_size t" and "tlv_size t \<le> length bs"
proof -
  obtain i j where "tlv_size t = j + length (tlv_value t)" "0 < i" "i < j"
    "tlv_size t \<le> length bs"
    using assms by (rule BerTlvAny_parse_Inr)
  then show "length (tlv_value t) + 2 \<le> tlv_size t" and "tlv_size t \<le> length bs"
    by simp_all
qed

lemma BerTlvAny_parse_append:
  assumes "BerTlvAny_parse bs = Inr t"
  shows "BerTlvAny_parse (bs @ xs) = Inr t"
proof -
  obtain i j where *: "ber_parse_tag bs = Inr (tlv_tag t, i)"
    "ber_parse_length bs i = Inr (length (tlv_value t), j)"
    "tlv_size t = j + length (tlv_value t)" "tlv_size t \<le> length bs"
    "tlv_value t = take (length (tlv_value t)) (drop j bs)"
    using assms by (rule BerTlvAny_parse_Inr)
  from * have "get_range (bs @ xs) j (j + length (tlv_value t)) = Some (tlv_value t)"
    by (simp add: get_range_def)
  with * show ?thesis
    by (simp add: BerTlvAny_parse_def ber_parse_tag_append ber_parse_length_append)
qed

lemma BerTlvAny_parse_value:
  assumes "BerTlvAny_parse bs = Inr t"
  shows "take (tlv_size t) bs = take (tlv_size t - length (tlv_value t)) bs @ tlv_value t"
proof -
  obtain j where "tlv_size t = j + length (tlv_value t)"
    "tlv_value t = take (length (tlv_value t)) (drop j bs)"
    using assms by (rule BerTlvAny_parse_Inr)
  then show ?thesis by (simp add: take_add)
qed


section \<open>The iterator\<close>

lemma iter_next_rest:
  assumes "BerTlvIter_next it = (Some x, it')"
  shows "length (iter_remaining it') < length (iter_remaining it)"
proof (cases "BerTlvAny_parse (iter_remaining it)")
  case (Inr t)
  with assms BerTlvAny_parse_size [OF Inr] show ?thesis
    by (auto simp: BerTlvIter_next_def get_from_def split: if_splits)
qed (use assms in \<open>auto simp: BerTlvIter_next_def split: if_splits\<close>)

text \<open>The items a \<open>for\<close> loop over the iterator sees. The loop ends: every item shortens the rest.\<close>

function BerTlvIter_collect :: "BerTlvIter \<Rightarrow> (BerError + BerTlvAny) list" where
  "BerTlvIter_collect it =
     (case BerTlvIter_next it of
        (None, _) \<Rightarrow> []
      | (Some x, it') \<Rightarrow> x # BerTlvIter_collect it')"
  by pat_completeness auto
termination
  by (relation "measure (\<lambda>it. length (iter_remaining it))") (simp_all, metis iter_next_rest)

declare BerTlvIter_collect.simps [simp del]

definition ber_items :: "bytes \<Rightarrow> (BerError + BerTlvAny) list" where
  "ber_items bs = BerTlvIter_collect (BerTlvIter_new bs)"

lemma iter_remaining_new [simp]: "iter_remaining (BerTlvIter_new bs) = bs"
  by (simp add: BerTlvIter_new_def)

lemma ber_items_Nil [simp]: "ber_items [] = []"
  by (simp add: ber_items_def BerTlvIter_collect.simps [of "BerTlvIter_new []"]
      BerTlvIter_next_def)

lemma ber_items_parse:
  assumes "BerTlvAny_parse bs = Inr t"
  shows "ber_items bs = Inr t # ber_items (drop (tlv_size t) bs)"
proof -
  have "bs \<noteq> []" using BerTlvAny_parse_size [OF assms] by auto
  then show ?thesis
    using assms BerTlvAny_parse_size(2) [OF assms]
    by (simp add: ber_items_def BerTlvIter_collect.simps [of "BerTlvIter_new bs"]
        BerTlvIter_next_def get_from_def) (simp add: BerTlvIter_new_def)
qed

lemma ber_items_error:
  assumes "bs \<noteq> []" and "BerTlvAny_parse bs = Inl e"
  shows "ber_items bs = [Inl e]"
  using assms ber_items_Nil
  by (simp add: ber_items_def BerTlvIter_collect.simps [of "BerTlvIter_new bs"]
      BerTlvIter_next_def) (simp add: BerTlvIter_new_def)

lemma ber_items_induct [case_names Nil error parse]:
  assumes "P []"
    and "\<And>bs e. bs \<noteq> [] \<Longrightarrow> BerTlvAny_parse bs = Inl e \<Longrightarrow> P bs"
    and "\<And>bs t. BerTlvAny_parse bs = Inr t \<Longrightarrow> P (drop (tlv_size t) bs) \<Longrightarrow> P bs"
  shows "P bs"
proof (induction bs rule: length_induct)
  case (1 bs)
  show ?case
  proof (cases "BerTlvAny_parse bs")
    case (Inl e)
    then show ?thesis using assms(1,2) by (cases "bs = []") auto
  next
    case (Inr t)
    have "length (drop (tlv_size t) bs) < length bs"
      using BerTlvAny_parse_size [OF Inr] by auto
    with 1 have "P (drop (tlv_size t) bs)" by blast
    with Inr show ?thesis by (rule assms(3))
  qed
qed

text \<open>The records an item list holds, and the one error it may end in.\<close>

definition ber_item_size :: "BerError + BerTlvAny \<Rightarrow> nat" where
  "ber_item_size x = (case x of Inl _ \<Rightarrow> 0 | Inr t \<Rightarrow> tlv_size t)"

lemma ber_items_shape:
  "\<exists>ts es. ber_items bs = map Inr ts @ es \<and> length es \<le> 1 \<and> (\<forall>x \<in> set es. \<exists>e. x = Inl e)
     \<and> (es = [] \<longrightarrow> sum_list (map tlv_size ts) = length bs)
     \<and> sum_list (map tlv_size ts) \<le> length bs"
proof (induction bs rule: ber_items_induct)
  case Nil
  then show ?case by (intro exI [of _ "[]"]) simp
next
  case (error bs e)
  then show ?case by (intro exI [of _ "[]"] exI [of _ "[Inl e]"]) (simp add: ber_items_error)
next
  case (parse bs t)
  then obtain ts es where "ber_items (drop (tlv_size t) bs) = map Inr ts @ es" "length es \<le> 1"
    "\<forall>x \<in> set es. \<exists>e. x = Inl e"
    "es = [] \<longrightarrow> sum_list (map tlv_size ts) = length bs - tlv_size t"
    "sum_list (map tlv_size ts) \<le> length bs - tlv_size t"
    by auto
  with parse BerTlvAny_parse_size [OF parse(1)] show ?case
    by (intro exI [of _ "t # ts"] exI [of _ es]) (auto simp: ber_items_parse)
qed


section \<open>Properties\<close>

text \<open>An encoding of a record, with a one-byte tag or with a two-byte tag.\<close>

definition ber_encodes :: "BerTlvAny \<Rightarrow> bytes \<Rightarrow> bool" where
  "ber_encodes t enc \<longleftrightarrow>
     (if tlv_tag t < 256 then
        (ucast (tlv_tag t) :: u8) AND 0x1F \<noteq> 0x1F \<and> tlv (ucast (tlv_tag t)) (tlv_value t) = Some enc
      else
        (ucast (drop_bit 8 (tlv_tag t)) :: u8) AND 0x1F = 0x1F \<and>
        tlv2 (tlv_tag t) (tlv_value t) = Some enc) \<and>
     tlv_size t = length enc"

lemma ucast_ucast_small: "(w::u16) < 256 \<Longrightarrow> ucast (ucast w :: u8) = w"
  by (intro unsigned_word_eqI [where 'a = nat])
    (simp add: unsigned_ucast_eq take_bit_eq_mod word_less_nat_alt unat_mod)

lemma ber_encodes_parse:
  assumes "ber_encodes t enc"
  shows "BerTlvAny_parse (enc @ rest) = Inr t"
  using assms parse_tlv_append [of "ucast (tlv_tag t)" "tlv_value t" enc rest]
    parse_tlv2_append [of "tlv_tag t" "tlv_value t" enc rest]
  by (cases t) (auto simp: ber_encodes_def ucast_ucast_small split: if_splits)

text \<open>
  (C1) Whatever the encoder writes for a one-byte tag the parser reads back: same tag, same
  value, and as its size exactly the bytes written, whatever follows in the buffer. The
  encoder fails (panics) only on values of 4 GiB or more.
\<close>

theorem ber_tlv_roundtrip:
  assumes "length v < 2 ^ 32" and "t AND 0x1F \<noteq> 0x1F"
  shows "\<exists>enc. tlv t v = Some enc \<and>
     BerTlvAny_parse (enc @ rest)
       = Inr \<lparr>tlv_tag = ucast t, tlv_value = v, tlv_size = length enc\<rparr> \<and>
     BerTlv_parse (ucast t) (enc @ rest) = Inr \<lparr>typed_value = v, typed_size = length enc\<rparr>"
proof -
  from assms(1) obtain l where "length_octets (length v) = Some l"
    using length_octets_Some by blast
  then obtain enc where enc: "tlv t v = Some enc" by (simp add: tlv_octets)
  from parse_tlv_append [OF enc assms(2), of rest] enc show ?thesis
    by (auto simp: BerTlv_parse_def BerTlvAny_expect_def)
qed

theorem ber_tlv_roundtrip_witness:
  "\<exists>enc. tlv 0x80 [1, 2, 3] = Some enc \<and>
     BerTlvAny_parse (enc @ [7])
       = Inr \<lparr>tlv_tag = 0x80, tlv_value = [1, 2, 3], tlv_size = length enc\<rparr> \<and>
     BerTlv_parse 0x80 (enc @ [7]) = Inr \<lparr>typed_value = [1, 2, 3], typed_size = length enc\<rparr>"
  using ber_tlv_roundtrip [of "[1, 2, 3]" "0x80" "[7]"] by simp

text \<open>
  Iterating over the concatenation of encoded records, with one-byte and two-byte tags
  mixed, yields exactly those records in order and no error.
\<close>

theorem ber_sequence_roundtrip:
  assumes "list_all2 ber_encodes ts encs"
  shows "ber_items (concat encs) = map Inr ts"
  using assms
proof (induction rule: list_all2_induct)
  case (Cons t ts enc encs)
  have "BerTlvAny_parse (enc @ concat encs) = Inr t"
    using Cons(1) by (rule ber_encodes_parse)
  moreover have "tlv_size t = length enc" using Cons(1) by (simp add: ber_encodes_def)
  ultimately show ?case using Cons(3) by (simp add: ber_items_parse)
qed simp

theorem ber_sequence_roundtrip_witness:
  "ber_items (concat [[0x7F, 0x49, 1, 9], [0x87, 2, 1, 5]])
     = map Inr [\<lparr>tlv_tag = 0x7F49, tlv_value = [9], tlv_size = 4\<rparr>,
                \<lparr>tlv_tag = 0x87, tlv_value = [1, 5], tlv_size = 4\<rparr>]"
  by (rule ber_sequence_roundtrip)
    (simp add: ber_encodes_def tlv_octets tlv2_octets length_octets_short u16_to_be_bytes_def)

text \<open>
  A successful parse reads inside its input only: header and value fit, the value is the
  tail of the bytes the record reports as consumed, and bytes after the record do not change
  the result.
\<close>

theorem ber_parse_confined:
  assumes "BerTlvAny_parse bs = Inr t"
  shows "length (tlv_value t) + 2 \<le> tlv_size t \<and> tlv_size t \<le> length bs \<and>
     take (tlv_size t) bs = take (tlv_size t - length (tlv_value t)) bs @ tlv_value t \<and>
     BerTlvAny_parse (bs @ xs) = Inr t"
  using BerTlvAny_parse_size [OF assms] BerTlvAny_parse_value [OF assms]
    BerTlvAny_parse_append [OF assms] by simp

theorem ber_parse_confined_witness:
  "length (tlv_value \<lparr>tlv_tag = 0x99, tlv_value = [0x90, 0], tlv_size = 4\<rparr>) + 2 \<le> 4 \<and>
     BerTlvAny_parse ([0x99, 2, 0x90, 0] @ [1, 2])
       = Inr \<lparr>tlv_tag = 0x99, tlv_value = [0x90, 0], tlv_size = 4\<rparr>"
proof -
  have "BerTlvAny_parse [0x99, 2, 0x90, 0]
      = Inr \<lparr>tlv_tag = 0x99, tlv_value = [0x90, 0], tlv_size = 4\<rparr>"
    by code_simp
  from ber_parse_confined [OF this, of "[1, 2]"] show ?thesis by simp
qed

text \<open>
  (C2) A loop over the iterator ends on every input. It yields records and then at most one
  error, which is the last item; the records consume no more than the input, and all of it
  when there was no error.
\<close>

theorem ber_iteration_ends:
  "\<exists>ts es. ber_items bs = map Inr ts @ es \<and> length es \<le> 1 \<and> (\<forall>x \<in> set es. \<exists>e. x = Inl e)
     \<and> (es = [] \<longrightarrow> sum_list (map tlv_size ts) = length bs)
     \<and> sum_list (map tlv_size ts) \<le> length bs"
  by (rule ber_items_shape)

theorem ber_iteration_ends_witness:
  "\<exists>ts es. ber_items [0x80, 1, 5, 0x81] = map Inr ts @ es \<and> length es \<le> 1"
  using ber_iteration_ends [of "[0x80, 1, 5, 0x81]"] by blast

text \<open>
  The length octet \<open>0x80\<close>, the indefinite-length marker, is not rejected: the parser
  reads it as the short form of the length 128, although the encoder never writes it and the
  module documents it as unsupported.
\<close>

theorem ber_indefinite_marker_read_as_128:
  assumes "t AND 0x1F \<noteq> 0x1F" and "length v = 128"
  shows "BerTlvAny_parse (t # 0x80 # v)
     = Inr \<lparr>tlv_tag = ucast t, tlv_value = v, tlv_size = 130\<rparr>"
  using assms
  by (simp add: BerTlvAny_parse_def ber_parse_tag_def ber_parse_length_def ber_next_def
      LONG_FORM_1B_def get_range_def)

theorem ber_indefinite_marker_read_as_128_witness:
  "BerTlvAny_parse (0x30 # 0x80 # replicate 128 0)
     = Inr \<lparr>tlv_tag = 0x30, tlv_value = replicate 128 0, tlv_size = 130\<rparr>"
  using ber_indefinite_marker_read_as_128 [of "0x30" "replicate 128 0"] by simp

end
