(* ===== verification/Sm_Crypto.thy ===== *)
theory Sm_Crypto
  imports Prelude
begin

text \<open>
  The symmetric layer under secure messaging (\<open>crypto/symmetric.rs\<close>) and the send sequence
  counter (\<open>pace.rs\<close>). The block cipher, its CBC mode, CMAC and SHA-256 come from third-party
  crates and are the parameter \<open>prims\<close>; the wrappers, their alignment checks and truncation
  are modelled.
\<close>

subsection \<open>Primitives and wrappers\<close>

record aes_primitives =
  prim_cbc_encrypt :: "bytes \<Rightarrow> bytes \<Rightarrow> bytes \<Rightarrow> bytes"
  prim_cbc_decrypt :: "bytes \<Rightarrow> bytes \<Rightarrow> bytes \<Rightarrow> bytes"
  prim_block_encrypt :: "bytes \<Rightarrow> bytes \<Rightarrow> bytes"
  prim_cmac :: "bytes \<Rightarrow> bytes \<Rightarrow> bytes"
  prim_sha256 :: "bytes \<Rightarrow> bytes"

text \<open>What the crates document: CBC on whole blocks keeps the length and is inverted by
  decryption under the same key and IV, and a CMAC tag is one block.\<close>

definition AES_BLOCK :: nat where "AES_BLOCK = 16"

definition cbc_inverts :: "aes_primitives \<Rightarrow> bool" where
  "cbc_inverts prims \<longleftrightarrow>
     (\<forall>k iv p. length p mod AES_BLOCK = 0 \<longrightarrow>
        length (prim_cbc_encrypt prims k iv p) = length p \<and>
        prim_cbc_decrypt prims k iv (prim_cbc_encrypt prims k iv p) = p)"

definition cmac_is_block :: "aes_primitives \<Rightarrow> bool" where
  "cmac_is_block prims \<longleftrightarrow> (\<forall>k m. length (prim_cmac prims k m) = AES_BLOCK)"

lemma cbc_invertsD:
  assumes "cbc_inverts prims" "length p mod AES_BLOCK = 0"
  shows "length (prim_cbc_encrypt prims k iv p) = length p"
    and "prim_cbc_decrypt prims k iv (prim_cbc_encrypt prims k iv p) = p"
  using assms unfolding cbc_inverts_def by auto

datatype KdfParam = KdfParam_Encryption | KdfParam_Mac | KdfParam_Password

fun KdfParam_as_u8 :: "KdfParam \<Rightarrow> u8" where
  "KdfParam_as_u8 KdfParam_Encryption = 1"
| "KdfParam_as_u8 KdfParam_Mac = 2"
| "KdfParam_as_u8 KdfParam_Password = 3"

datatype Aes256Key = Aes256Key (Aes256Key_as_bytes: bytes)

definition kdf_aes256 :: "aes_primitives \<Rightarrow> bytes \<Rightarrow> KdfParam \<Rightarrow> Aes256Key" where
  "kdf_aes256 prims k c =
     (let counter = (ucast (KdfParam_as_u8 c) :: u32)
      in Aes256Key (prim_sha256 prims (k @ u32_to_be_bytes counter)))"

datatype UnalignedInput = UnalignedInput nat

definition aes256_cbc_encrypt_no_padding ::
  "aes_primitives \<Rightarrow> bytes \<Rightarrow> bytes \<Rightarrow> bytes \<Rightarrow> UnalignedInput + bytes" where
  "aes256_cbc_encrypt_no_padding prims key iv plaintext =
     (if length plaintext mod AES_BLOCK \<noteq> 0 then Inl (UnalignedInput (length plaintext))
      else Inr (prim_cbc_encrypt prims key iv plaintext))"

definition aes256_cbc_decrypt_no_padding ::
  "aes_primitives \<Rightarrow> bytes \<Rightarrow> bytes \<Rightarrow> bytes \<Rightarrow> UnalignedInput + bytes" where
  "aes256_cbc_decrypt_no_padding prims key iv ciphertext =
     (if length ciphertext mod AES_BLOCK \<noteq> 0 then Inl (UnalignedInput (length ciphertext))
      else Inr (prim_cbc_decrypt prims key iv ciphertext))"

definition aes256_ecb_encrypt_block :: "aes_primitives \<Rightarrow> bytes \<Rightarrow> bytes \<Rightarrow> bytes" where
  "aes256_ecb_encrypt_block prims key block = prim_block_encrypt prims key block"

definition aes256_cmac :: "aes_primitives \<Rightarrow> bytes \<Rightarrow> bytes \<Rightarrow> bytes" where
  "aes256_cmac prims key message = prim_cmac prims key message"

definition aes256_cmac_truncated :: "aes_primitives \<Rightarrow> bytes \<Rightarrow> bytes \<Rightarrow> bytes" where
  "aes256_cmac_truncated prims key message = take 8 (aes256_cmac prims key message)"

lemma length_cmac_truncated [simp]:
  "cmac_is_block prims \<Longrightarrow> length (aes256_cmac_truncated prims k m) = 8"
  by (simp add: aes256_cmac_truncated_def aes256_cmac_def cmac_is_block_def AES_BLOCK_def)


subsection \<open>The send sequence counter\<close>

datatype Ssc = Ssc (Ssc_as_bytes: bytes)

definition Ssc_INITIAL :: Ssc where
  "Ssc_INITIAL = Ssc (replicate 16 0)"

text \<open>The loop over \<open>iter_mut().rev()\<close>: on the reversed bytes, carry through \<open>0xFF\<close>.\<close>

fun ssc_carry :: "bytes \<Rightarrow> bytes" where
  "ssc_carry [] = []"
| "ssc_carry (b # bs) = (if b = 0xFF then 0 # ssc_carry bs else (b + 1) # bs)"

definition Ssc_increment :: "Ssc \<Rightarrow> Ssc" where
  "Ssc_increment ssc = Ssc (rev (ssc_carry (rev (Ssc_as_bytes ssc))))"

text \<open>The counter as a number.\<close>

definition Ssc_value :: "Ssc \<Rightarrow> nat" where
  "Ssc_value ssc = be_fold (Ssc_as_bytes ssc)"

definition Ssc_wf :: "Ssc \<Rightarrow> bool" where
  "Ssc_wf ssc \<longleftrightarrow> length (Ssc_as_bytes ssc) = 16"

lemma length_ssc_carry [simp]: "length (ssc_carry bs) = length bs"
  by (induction bs) auto

lemma unat_u8_max: "unat (0xFF::u8) = 255"
  by simp

lemma unat_u8_not_max: "(b::u8) \<noteq> 0xFF \<Longrightarrow> unat b < 255"
  using unat_u8_less [of b] word_unat_eq_iff [of b "0xFF"] unat_u8_max by linarith

lemma unat_succ_u8: "(b::u8) \<noteq> 0xFF \<Longrightarrow> unat (b + 1) = unat b + 1"
  using unat_u8_not_max [of b] by (simp add: unat_word_ariths)

lemma be_fold_carry:
  "be_fold (rev (ssc_carry bs)) = (be_fold (rev bs) + 1) mod 256 ^ length bs"
proof (induction bs)
  case (Cons b bs)
  show ?case
  proof (cases "b = 0xFF")
    case True
    have "be_fold (rev (ssc_carry (b # bs))) = ((be_fold (rev bs) + 1) mod 256 ^ length bs) * 256"
      using True Cons by (simp add: be_fold_append)
    also have "\<dots> = ((be_fold (rev bs) + 1) * 256) mod (256 ^ length bs * 256)"
      by (rule mult_mod_left)
    also have "(be_fold (rev bs) + 1) * 256 = be_fold (rev (b # bs)) + 1"
      by (simp only: True rev.simps be_fold_append be_fold_Cons be_fold_Nil unat_u8_max) simp
    finally show ?thesis by (simp add: mult.commute)
  next
    case False
    have "be_fold (rev bs) + 1 \<le> 256 ^ length bs" using be_fold_less [of "rev bs"] by simp
    then have "(be_fold (rev bs) + 1) * 256 \<le> 256 ^ length bs * 256" by (rule mult_right_mono) simp
    then have "be_fold (rev bs) * 256 + unat b + 1 < 256 ^ length (b # bs)"
      using unat_u8_not_max [OF False] by simp
    then show ?thesis using False by (simp add: be_fold_append unat_succ_u8)
  qed
qed simp

lemma Ssc_increment_value:
  "Ssc_wf ssc \<Longrightarrow> Ssc_value (Ssc_increment ssc) = (Ssc_value ssc + 1) mod 2 ^ 128"
  using be_fold_carry [of "rev (Ssc_as_bytes ssc)"]
  by (simp add: Ssc_value_def Ssc_increment_def Ssc_wf_def)

lemma Ssc_increment_wf [simp]: "Ssc_wf (Ssc_increment ssc) \<longleftrightarrow> Ssc_wf ssc"
  by (simp add: Ssc_wf_def Ssc_increment_def)

lemma Ssc_INITIAL_wf [simp]: "Ssc_wf Ssc_INITIAL"
  by (simp add: Ssc_wf_def Ssc_INITIAL_def)

lemma Ssc_increment_neq: "Ssc_wf ssc \<Longrightarrow> Ssc_increment ssc \<noteq> ssc"
proof
  assume wf: "Ssc_wf ssc" and eq: "Ssc_increment ssc = ssc"
  have "Ssc_value ssc < 2 ^ 128"
    using be_fold_less [of "Ssc_as_bytes ssc"] wf by (simp add: Ssc_value_def Ssc_wf_def)
  then show False using Ssc_increment_value [OF wf] unfolding eq
    by (cases "Ssc_value ssc + 1 = 2 ^ 128") auto
qed


subsection \<open>Properties\<close>

text \<open>
  The byte loop of the counter is addition: incrementing a sixteen-byte counter adds one to
  its big-endian value modulo \<open>2 ^ 128\<close>, keeps its width, and never leaves it unchanged.
\<close>

theorem ssc_increment_adds_one:
  assumes "length (Ssc_as_bytes ssc) = 16"
  shows "Ssc_value (Ssc_increment ssc) = (Ssc_value ssc + 1) mod 2 ^ 128 \<and>
    length (Ssc_as_bytes (Ssc_increment ssc)) = 16 \<and> Ssc_increment ssc \<noteq> ssc"
  using assms Ssc_increment_value [of ssc] Ssc_increment_neq [of ssc] Ssc_increment_wf [of ssc]
  unfolding Ssc_wf_def by blast

theorem ssc_increment_adds_one_witness:
  "Ssc_value (Ssc_increment (Ssc (replicate 15 0 @ [0xFF]))) = (Ssc_value (Ssc (replicate 15 0 @ [0xFF])) + 1) mod 2 ^ 128"
  using ssc_increment_adds_one [of "Ssc (replicate 15 0 @ [0xFF])"] by simp

end
