(* ===== verification/Status_Word.thy ===== *)
theory Status_Word
  imports Prelude
begin

text \<open>
  The status word of a response APDU (\<open>apdu/status_word.rs\<close>): the nibble-sized retry counter,
  the decoded enum, and the translation from and to the sixteen-bit wire value.
\<close>

subsection \<open>The retry counter\<close>

datatype PinRetries = PinRetries (PinRetries_get: u8)

definition PinRetries_from_nibble :: "u8 \<Rightarrow> PinRetries option" where
  "PinRetries_from_nibble n = (if n > 0x0F then None else Some (PinRetries n))"

definition PinRetries_is_exhausted :: "PinRetries \<Rightarrow> bool" where
  "PinRetries_is_exhausted r \<longleftrightarrow> PinRetries_get r = 0"

interpretation pin_retries: validated PinRetries_from_nibble PinRetries_get "\<lambda>n. n \<le> 0x0F"
  by unfold_locales (auto simp: PinRetries_from_nibble_def split: if_splits)


subsection \<open>The decoded status word\<close>

datatype StatusWord =
    StatusWord_AuthenticationBlocked
  | StatusWord_AuthenticationFailed
  | StatusWord_EndOfFile
  | StatusWord_FileNotFound
  | StatusWord_Other u16
  | StatusWord_PinIncorrect PinRetries
  | StatusWord_ReferenceDataInvalidated
  | StatusWord_ReferenceDataNotFound
  | StatusWord_SecurityNotSatisfied
  | StatusWord_SmDataObjectsIncorrect
  | StatusWord_Success
  | StatusWord_WrongLength

definition SW_SUCCESS :: u16 where "SW_SUCCESS = 0x9000"
definition SW_END_OF_FILE :: u16 where "SW_END_OF_FILE = 0x6282"
definition SW_AUTHENTICATION_FAILED :: u16 where "SW_AUTHENTICATION_FAILED = 0x6300"
definition SW_WRONG_LENGTH :: u16 where "SW_WRONG_LENGTH = 0x6700"
definition SW_SECURITY_NOT_SATISFIED :: u16 where "SW_SECURITY_NOT_SATISFIED = 0x6982"
definition SW_AUTHENTICATION_BLOCKED :: u16 where "SW_AUTHENTICATION_BLOCKED = 0x6983"
definition SW_REFERENCE_DATA_INVALIDATED :: u16 where "SW_REFERENCE_DATA_INVALIDATED = 0x6984"
definition SW_SM_DATA_OBJECTS_INCORRECT :: u16 where "SW_SM_DATA_OBJECTS_INCORRECT = 0x6988"
definition SW_FILE_NOT_FOUND :: u16 where "SW_FILE_NOT_FOUND = 0x6A82"
definition SW_REFERENCE_DATA_NOT_FOUND :: u16 where "SW_REFERENCE_DATA_NOT_FOUND = 0x6A88"
definition SW_PIN_COUNTER_PREFIX :: u16 where "SW_PIN_COUNTER_PREFIX = 0x63C0"
definition SW_PIN_COUNTER_MASK :: u16 where "SW_PIN_COUNTER_MASK = 0xFFF0"

lemmas sw_code_defs =
  SW_SUCCESS_def SW_END_OF_FILE_def SW_AUTHENTICATION_FAILED_def SW_WRONG_LENGTH_def
  SW_SECURITY_NOT_SATISFIED_def SW_AUTHENTICATION_BLOCKED_def SW_REFERENCE_DATA_INVALIDATED_def
  SW_SM_DATA_OBJECTS_INCORRECT_def SW_FILE_NOT_FOUND_def SW_REFERENCE_DATA_NOT_FOUND_def
  SW_PIN_COUNTER_PREFIX_def SW_PIN_COUNTER_MASK_def

fun StatusWord_as_u16 :: "StatusWord \<Rightarrow> u16" where
  "StatusWord_as_u16 StatusWord_AuthenticationBlocked = SW_AUTHENTICATION_BLOCKED"
| "StatusWord_as_u16 StatusWord_AuthenticationFailed = SW_AUTHENTICATION_FAILED"
| "StatusWord_as_u16 StatusWord_EndOfFile = SW_END_OF_FILE"
| "StatusWord_as_u16 StatusWord_FileNotFound = SW_FILE_NOT_FOUND"
| "StatusWord_as_u16 (StatusWord_Other sw) = sw"
| "StatusWord_as_u16 (StatusWord_PinIncorrect retries) =
     (let sw1 = u16_to_be_bytes SW_PIN_COUNTER_PREFIX ! 0;
          prefix_sw2 = u16_to_be_bytes SW_PIN_COUNTER_PREFIX ! 1;
          sw2 = prefix_sw2 OR (PinRetries_get retries AND 0x0F)
      in u16_from_be_bytes sw1 sw2)"
| "StatusWord_as_u16 StatusWord_ReferenceDataInvalidated = SW_REFERENCE_DATA_INVALIDATED"
| "StatusWord_as_u16 StatusWord_ReferenceDataNotFound = SW_REFERENCE_DATA_NOT_FOUND"
| "StatusWord_as_u16 StatusWord_SecurityNotSatisfied = SW_SECURITY_NOT_SATISFIED"
| "StatusWord_as_u16 StatusWord_SmDataObjectsIncorrect = SW_SM_DATA_OBJECTS_INCORRECT"
| "StatusWord_as_u16 StatusWord_Success = SW_SUCCESS"
| "StatusWord_as_u16 StatusWord_WrongLength = SW_WRONG_LENGTH"

definition StatusWord_from_u16 :: "u16 \<Rightarrow> StatusWord" where
  "StatusWord_from_u16 sw =
     (if sw = SW_SUCCESS then StatusWord_Success
      else if sw = SW_END_OF_FILE then StatusWord_EndOfFile
      else if sw = SW_AUTHENTICATION_FAILED then StatusWord_AuthenticationFailed
      else if sw = SW_WRONG_LENGTH then StatusWord_WrongLength
      else if sw = SW_SECURITY_NOT_SATISFIED then StatusWord_SecurityNotSatisfied
      else if sw = SW_AUTHENTICATION_BLOCKED then StatusWord_AuthenticationBlocked
      else if sw = SW_REFERENCE_DATA_INVALIDATED then StatusWord_ReferenceDataInvalidated
      else if sw = SW_SM_DATA_OBJECTS_INCORRECT then StatusWord_SmDataObjectsIncorrect
      else if sw = SW_FILE_NOT_FOUND then StatusWord_FileNotFound
      else if sw = SW_REFERENCE_DATA_NOT_FOUND then StatusWord_ReferenceDataNotFound
      else if sw AND SW_PIN_COUNTER_MASK = SW_PIN_COUNTER_PREFIX then
        (let sw2 = u16_to_be_bytes sw ! 1; nibble = sw2 AND 0x0F
         in StatusWord_PinIncorrect (PinRetries nibble))
      else StatusWord_Other sw)"

definition StatusWord_from_bytes :: "u8 \<Rightarrow> u8 \<Rightarrow> StatusWord" where
  "StatusWord_from_bytes sw1 sw2 = StatusWord_from_u16 (u16_from_be_bytes sw1 sw2)"

definition StatusWord_is_success :: "StatusWord \<Rightarrow> bool" where
  "StatusWord_is_success sw \<longleftrightarrow> (case sw of StatusWord_Success \<Rightarrow> True | _ \<Rightarrow> False)"

definition StatusWord_pin_retries :: "StatusWord \<Rightarrow> PinRetries option" where
  "StatusWord_pin_retries sw =
     (case sw of StatusWord_PinIncorrect retries \<Rightarrow> Some retries | _ \<Rightarrow> None)"


subsection \<open>The wire value is never lost\<close>

text \<open>A status word is canonical when \<open>Other\<close> does not carry a code that has a variant of its
  own and a counter fits its nibble.\<close>

definition StatusWord_canonical :: "StatusWord \<Rightarrow> bool" where
  "StatusWord_canonical s \<longleftrightarrow>
     (case s of
        StatusWord_Other sw \<Rightarrow>
          sw \<notin> {SW_SUCCESS, SW_END_OF_FILE, SW_AUTHENTICATION_FAILED, SW_WRONG_LENGTH,
             SW_SECURITY_NOT_SATISFIED, SW_AUTHENTICATION_BLOCKED, SW_REFERENCE_DATA_INVALIDATED,
             SW_SM_DATA_OBJECTS_INCORRECT, SW_FILE_NOT_FOUND, SW_REFERENCE_DATA_NOT_FOUND}
          \<and> sw AND SW_PIN_COUNTER_MASK \<noteq> SW_PIN_COUNTER_PREFIX
      | StatusWord_PinIncorrect r \<Rightarrow> PinRetries_get r \<le> 0x0F
      | _ \<Rightarrow> True)"

lemma nibble_and: "n \<le> 0x0F \<Longrightarrow> n AND 0x0F = (n::u8)"
proof -
  assume "n \<le> 0x0F"
  then have "n < 2 ^ 4" by (simp add: word_le_nat_alt word_less_nat_alt)
  then have "n AND mask 4 = n" by (rule less_mask_eq)
  then show ?thesis by (simp add: mask_eq_exp_minus_1)
qed

lemma pin_counter_wire:
  "StatusWord_as_u16 (StatusWord_PinIncorrect (PinRetries n)) = 0x63C0 OR ucast (n AND 0x0F)"
  by (simp add: sw_code_defs u16_to_be_bytes_def u16_from_be_bytes_def unsigned_or_eq
      or.assoc [symmetric])

lemma low_nibble_of_low_octet: "ucast (ucast w AND 0x0F :: u8) = (w AND 0x0F :: u16)"
  by (simp add: unsigned_and_eq unsigned_ucast_eq take_bit_eq_mask mask_eq_exp_minus_1 and.assoc)

lemma pin_counter_split:
  "sw AND 0xFFF0 = 0x63C0 \<Longrightarrow> 0x63C0 OR (sw AND 0x0F) = (sw::u16)"
proof -
  assume "sw AND 0xFFF0 = 0x63C0"
  moreover have "sw = (sw AND 0xFFF0) OR (sw AND 0x0F)"
  proof -
    have "(sw AND 0xFFF0) OR (sw AND 0x0F) = sw AND (0xFFF0 OR 0x0F)"
      by (rule bit.conj_disj_distrib [symmetric])
    also have "\<dots> = sw AND mask 16" by (simp add: mask_eq_exp_minus_1)
    also have "\<dots> = sw" by (simp add: take_bit_eq_mask [symmetric] take_bit_word_eq_self)
    finally show ?thesis ..
  qed
  ultimately show ?thesis by simp
qed

lemma pin_counter_masked: "(0x63C0 OR ucast (n AND 0x0F :: u8)) AND 0xFFF0 = (0x63C0 :: u16)"
  by (simp add: unsigned_and_eq bit.conj_disj_distrib2 and.assoc)

lemma pin_counter_low:
  "ucast (0x63C0 OR ucast (n AND 0x0F :: u8) :: u16) AND 0x0F = n AND (0x0F :: u8)"
  by (simp add: unsigned_and_eq unsigned_or_eq bit.conj_disj_distrib2 and.assoc unsigned_ucast_eq
      take_bit_word_eq_self)

lemma nibble_le: "n AND 0x0F \<le> (0x0F::u8)"
  by (rule word_and_le1)

lemmas pin_counter_simps =
  pin_counter_wire low_nibble_of_low_octet pin_counter_split nibble_and nibble_le

lemma as_from_u16: "StatusWord_as_u16 (StatusWord_from_u16 sw) = sw"
  by (auto simp: StatusWord_from_u16_def Let_def pin_counter_simps u16_to_be_bytes_def sw_code_defs
      simp del: StatusWord_as_u16.simps(6))

lemma from_u16_canonical: "StatusWord_canonical (StatusWord_from_u16 sw)"
  by (auto simp: StatusWord_from_u16_def StatusWord_canonical_def Let_def nibble_le)

lemma from_as_u16:
  assumes "StatusWord_canonical s"
  shows "StatusWord_from_u16 (StatusWord_as_u16 s) = s"
proof (cases s)
  case (StatusWord_PinIncorrect r)
  then show ?thesis
    using assms pin_counter_masked [of "PinRetries_get r"] pin_counter_low [of "PinRetries_get r"]
    by (cases r) (auto simp: pin_counter_simps StatusWord_from_u16_def Let_def sw_code_defs
        StatusWord_canonical_def u16_to_be_bytes_def simp del: StatusWord_as_u16.simps(6))
qed (use assms in \<open>auto simp: StatusWord_from_u16_def StatusWord_canonical_def sw_code_defs\<close>)

lemma from_u16_success: "StatusWord_from_u16 sw = StatusWord_Success \<longleftrightarrow> sw = SW_SUCCESS"
  by (metis as_from_u16 StatusWord_as_u16.simps(11) StatusWord_from_u16_def)

lemma from_bytes_success [simp]: "StatusWord_from_bytes 0x90 0 = StatusWord_Success"
  by (simp add: StatusWord_from_bytes_def StatusWord_from_u16_def u16_from_be_bytes_def sw_code_defs)

lemma from_u16_retries:
  "StatusWord_from_u16 sw = StatusWord_PinIncorrect r \<Longrightarrow> PinRetries_get r \<le> 0x0F"
  using from_u16_canonical [of sw] by (simp add: StatusWord_canonical_def)

lemma from_bytes_retries:
  "StatusWord_from_bytes a b = StatusWord_PinIncorrect r \<Longrightarrow> PinRetries_get r \<le> 0x0F"
  by (auto simp: StatusWord_from_bytes_def dest: from_u16_retries)


subsection \<open>Properties\<close>

text \<open>
  No status word is lost or confused by decoding: re-encoding a decoded status word gives
  the wire value back, a decoded word is canonical with its counter inside the nibble, and
  decoding the encoding of any canonical status word gives that status word.
\<close>

theorem status_word_roundtrip:
  "StatusWord_as_u16 (StatusWord_from_u16 sw) = sw \<and>
   StatusWord_canonical (StatusWord_from_u16 sw) \<and>
   (StatusWord_canonical s \<longrightarrow> StatusWord_from_u16 (StatusWord_as_u16 s) = s)"
  by (simp add: as_from_u16 from_u16_canonical from_as_u16)

theorem status_word_roundtrip_witness:
  "StatusWord_from_u16 (StatusWord_as_u16 (StatusWord_PinIncorrect (PinRetries 3)))
     = StatusWord_PinIncorrect (PinRetries 3)"
proof -
  have "StatusWord_canonical (StatusWord_PinIncorrect (PinRetries 3))"
    by (simp add: StatusWord_canonical_def)
  then show ?thesis
    using status_word_roundtrip [of 0 "StatusWord_PinIncorrect (PinRetries 3)"] by blast
qed

end
