(* ===== verification/Transport.thy ===== *)
theory Transport
  imports Status_Word
begin

text \<open>
  The card transport port (\<open>transport.rs\<close>): command and response APDUs, the transport outcomes
  that are not responses, and the derived operation \<open>transmit\<close>. A \<open>CardTransport\<close>
  implementation is a function \<open>tx\<close> that, given a command, moves the transport state and
  yields an outcome or an adapter error; its ATR accessor is not used here.
\<close>

subsection \<open>Commands\<close>

record CommandApdu =
  cmd_bytes :: bytes
  cmd_wrong_le_retry :: bool

definition CommandApdu_new :: "bytes \<Rightarrow> CommandApdu" where
  "CommandApdu_new bs = \<lparr>cmd_bytes = bs, cmd_wrong_le_retry = False\<rparr>"

definition SHORT_CASE_2_BYTES :: nat where
  "SHORT_CASE_2_BYTES = 5"

text \<open>The debug assertion of the source is absent from release builds, which are modelled.\<close>

definition CommandApdu_allow_wrong_le_retry :: "CommandApdu \<Rightarrow> CommandApdu" where
  "CommandApdu_allow_wrong_le_retry c =
     c\<lparr>cmd_wrong_le_retry := (length (cmd_bytes c) = SHORT_CASE_2_BYTES)\<rparr>"

definition CommandApdu_corrected_wrong_le :: "CommandApdu \<Rightarrow> u8 \<Rightarrow> CommandApdu option" where
  "CommandApdu_corrected_wrong_le c le =
     (if \<not> cmd_wrong_le_retry c then None
      else if cmd_bytes c = [] then None
      else Some (c\<lparr>cmd_bytes := butlast (cmd_bytes c) @ [le], cmd_wrong_le_retry := False\<rparr>))"

definition CommandApdu_as_bytes :: "CommandApdu \<Rightarrow> bytes" where
  "CommandApdu_as_bytes c = cmd_bytes c"

definition CommandApdu_into_bytes :: "CommandApdu \<Rightarrow> bytes" where
  "CommandApdu_into_bytes c = cmd_bytes c"

lemma CommandApdu_new_simps [simp]:
  "cmd_bytes (CommandApdu_new bs) = bs"
  "cmd_wrong_le_retry (CommandApdu_new bs) = False"
  "CommandApdu_as_bytes c = cmd_bytes c"
  "CommandApdu_into_bytes c = cmd_bytes c"
  by (simp_all add: CommandApdu_new_def CommandApdu_as_bytes_def CommandApdu_into_bytes_def)

lemma CommandApdu_allow_simps [simp]:
  "cmd_bytes (CommandApdu_allow_wrong_le_retry c) = cmd_bytes c"
  "cmd_wrong_le_retry (CommandApdu_allow_wrong_le_retry c) \<longleftrightarrow> length (cmd_bytes c) = 5"
  by (simp_all add: CommandApdu_allow_wrong_le_retry_def SHORT_CASE_2_BYTES_def)

text \<open>The corrected command differs in its last byte only and cannot be corrected again.\<close>

lemma corrected_wrong_le_Some:
  assumes "CommandApdu_corrected_wrong_le c le = Some d"
  shows "cmd_wrong_le_retry c" "\<not> cmd_wrong_le_retry d"
    "butlast (cmd_bytes d) = butlast (cmd_bytes c)" "last (cmd_bytes d) = le"
    "length (cmd_bytes d) = length (cmd_bytes c)"
  using assms by (auto simp: CommandApdu_corrected_wrong_le_def split: if_splits)

lemma corrected_wrong_le_once:
  "CommandApdu_corrected_wrong_le c le = Some d \<Longrightarrow> CommandApdu_corrected_wrong_le d le' = None"
  by (auto simp: CommandApdu_corrected_wrong_le_def split: if_splits)

lemma corrected_wrong_le_unmarked [simp]:
  "\<not> cmd_wrong_le_retry c \<Longrightarrow> CommandApdu_corrected_wrong_le c le = None"
  by (simp add: CommandApdu_corrected_wrong_le_def)


subsection \<open>Responses and outcomes\<close>

record ResponseApdu =
  resp_body :: bytes
  resp_sw1 :: u8
  resp_sw2 :: u8

definition ResponseApdu_sw :: "ResponseApdu \<Rightarrow> u16" where
  "ResponseApdu_sw r = push_bit 8 (ucast (resp_sw1 r)) OR ucast (resp_sw2 r)"

definition ResponseApdu_status_word :: "ResponseApdu \<Rightarrow> StatusWord" where
  "ResponseApdu_status_word r = StatusWord_from_bytes (resp_sw1 r) (resp_sw2 r)"

definition ResponseApdu_is_ok :: "ResponseApdu \<Rightarrow> bool" where
  "ResponseApdu_is_ok r \<longleftrightarrow>
     (case ResponseApdu_status_word r of StatusWord_Success \<Rightarrow> True | _ \<Rightarrow> False)"

datatype TransportErrorKind =
    TransportErrorKind_Backend
  | TransportErrorKind_NoCard
  | TransportErrorKind_TimeoutUnknownState
  | TransportErrorKind_CardReset
  | TransportErrorKind_ProtocolDesync
  | TransportErrorKind_ReaderRemoved

datatype TransportOutcome =
    TransportOutcome_Response ResponseApdu
  | TransportOutcome_NoCard
  | TransportOutcome_TimeoutUnknownState
  | TransportOutcome_CardReset
  | TransportOutcome_ProtocolDesync
  | TransportOutcome_ReaderRemoved

definition TransportOutcome_into_response ::
  "TransportOutcome \<Rightarrow> TransportOutcome + ResponseApdu" where
  "TransportOutcome_into_response out =
     (case out of TransportOutcome_Response r \<Rightarrow> Inr r | other \<Rightarrow> Inl other)"

fun TransportOutcome_kind :: "TransportOutcome \<Rightarrow> TransportErrorKind option" where
  "TransportOutcome_kind (TransportOutcome_Response _) = None"
| "TransportOutcome_kind TransportOutcome_NoCard = Some TransportErrorKind_NoCard"
| "TransportOutcome_kind TransportOutcome_TimeoutUnknownState =
     Some TransportErrorKind_TimeoutUnknownState"
| "TransportOutcome_kind TransportOutcome_CardReset = Some TransportErrorKind_CardReset"
| "TransportOutcome_kind TransportOutcome_ProtocolDesync = Some TransportErrorKind_ProtocolDesync"
| "TransportOutcome_kind TransportOutcome_ReaderRemoved = Some TransportErrorKind_ReaderRemoved"

datatype 'e TransportDispatchError =
    TransportDispatchError_Error 'e
  | TransportDispatchError_Outcome TransportOutcome

definition TransportDispatchError_kind ::
  "('e \<Rightarrow> TransportErrorKind) \<Rightarrow> 'e TransportDispatchError \<Rightarrow> TransportErrorKind" where
  "TransportDispatchError_kind error_kind d =
     (case d of
        TransportDispatchError_Error e \<Rightarrow> error_kind e
      | TransportDispatchError_Outcome out \<Rightarrow>
          (case TransportOutcome_kind out of Some k \<Rightarrow> k | None \<Rightarrow> TransportErrorKind_Backend))"


subsection \<open>The transport port\<close>

type_synonym ('t, 'e) transport = "CommandApdu \<Rightarrow> ('t, 'e, TransportOutcome) io"

text \<open>\<open>CardTransport::transmit\<close>: the bytes are wrapped afresh, so the corrected-\<open>Le\<close> mark of a
  typed builder is not carried through this path.\<close>

definition transmit ::
  "('t, 'e) transport \<Rightarrow> bytes \<Rightarrow> ('t, 'e TransportDispatchError, ResponseApdu) io" where
  "transmit tx apdu =
     (let command = CommandApdu_new apdu
      in bindS (map_errS TransportDispatchError_Error (tx command))
           (\<lambda>outcome. case outcome of
               TransportOutcome_Response response \<Rightarrow> ret response
             | other \<Rightarrow> fail (TransportDispatchError_Outcome other)))"

lemma into_response_Inr:
  "TransportOutcome_into_response out = Inr r \<longleftrightarrow> out = TransportOutcome_Response r"
  by (cases out) (auto simp: TransportOutcome_into_response_def)

lemma outcome_kind_None: "TransportOutcome_kind out = None \<longleftrightarrow> (\<exists>r. out = TransportOutcome_Response r)"
  by (cases out) auto

lemma ResponseApdu_sw_status: "ResponseApdu_status_word r = StatusWord_from_u16 (ResponseApdu_sw r)"
  by (simp add: ResponseApdu_status_word_def ResponseApdu_sw_def StatusWord_from_bytes_def
      u16_from_be_bytes_def)

lemma ResponseApdu_is_ok_iff: "ResponseApdu_is_ok r \<longleftrightarrow> ResponseApdu_sw r = 0x9000"
  using from_u16_success [of "ResponseApdu_sw r"]
  by (auto simp: ResponseApdu_is_ok_def ResponseApdu_sw_status SW_SUCCESS_def
      split: StatusWord.splits)

lemma transmit_Inr:
  "transmit tx apdu s = (Inr r, t) \<longleftrightarrow>
     tx (CommandApdu_new apdu) s = (Inr (TransportOutcome_Response r), t)"
  by (auto simp: transmit_def bindS_eq_Inr split: TransportOutcome.split_asm)

text \<open>Every call of \<open>transmit\<close> makes exactly one call of the adapter.\<close>

lemma transmit_state: "snd (transmit tx apdu s) = snd (tx (CommandApdu_new apdu) s)"
  by (cases "tx (CommandApdu_new apdu) s"; cases "fst (tx (CommandApdu_new apdu) s)")
    (auto simp: transmit_def bindS_def map_errS_def split: TransportOutcome.splits)

lemma transmit_cases:
  obtains (response) r where
      "tx (CommandApdu_new apdu) s = (Inr (TransportOutcome_Response r), snd (transmit tx apdu s))"
      "fst (transmit tx apdu s) = Inr r"
  | (failure) e where "fst (transmit tx apdu s) = Inl e"
proof -
  show thesis
  proof (cases "fst (transmit tx apdu s)")
    case (Inl e)
    then show thesis by (rule failure)
  next
    case (Inr r)
    then have "transmit tx apdu s = (Inr r, snd (transmit tx apdu s))" by (metis prod.collapse)
    then show thesis using transmit_Inr Inr response by metis
  qed
qed


subsection \<open>The presentation contract\<close>

text \<open>
  What the protocol layer relies on when a command must not be replayed: for a command that is
  not marked for a corrected resend, the adapter hands the reader at most one physical command
  that is not mere response fetching. \<open>log\<close> reads the physical commands sent so far off the
  transport state and \<open>payload\<close> tells commands from response fetches.
\<close>

locale sends_once =
  fixes tx :: "('t, 'e) transport"
    and log :: "'t \<Rightarrow> bytes list"
    and payload :: "bytes \<Rightarrow> bool"
  assumes once: "\<not> cmd_wrong_le_retry c \<Longrightarrow>
    \<exists>sent. log (snd (tx c s)) = log s @ sent \<and> length (filter payload sent) \<le> 1"
begin

text \<open>The number of payload commands so far.\<close>

definition presented :: "'t \<Rightarrow> nat" where
  "presented s = length (filter payload (log s))"

lemma tx_presented: "\<not> cmd_wrong_le_retry c \<Longrightarrow> presented (snd (tx c s)) \<le> presented s + 1"
  using once [of c s] by (auto simp: presented_def)

lemma transmit_presented: "presented (snd (transmit tx apdu s)) \<le> presented s + 1"
  using tx_presented [of "CommandApdu_new apdu" s] by (simp add: transmit_state)

lemma transmit_log:
  "\<exists>sent. log (snd (transmit tx apdu s)) = log s @ sent \<and> length (filter payload sent) \<le> 1"
  using once [of "CommandApdu_new apdu" s] by (simp add: transmit_state)

end

end
