(* ===== verification/Apdu.thy ===== *)
theory Apdu
  imports Transport
begin

text \<open>
  The role types and the generic command builders of the APDU layer
  (\<open>apdu/primitives.rs\<close>, \<open>apdu/iso7816.rs\<close>). Each builder's \<open>into_apdu\<close> is shown, through
  the interface \<open>apdu_builder\<close>, to emit a well-formed ISO 7816-4 short command.
\<close>

subsection \<open>Application and short file identifiers\<close>

datatype Aid = Aid (Aid_as_bytes: bytes)

datatype AidError = AidError_LengthOutOfRange nat

definition Aid_new :: "bytes \<Rightarrow> AidError + Aid" where
  "Aid_new owned =
     (if \<not> (5 \<le> length owned \<and> length owned \<le> 16)
      then Inl (AidError_LengthOutOfRange (length owned))
      else Inr (Aid owned))"

definition Aid_from_slice :: "bytes \<Rightarrow> AidError + Aid" where
  "Aid_from_slice bs = Aid_new bs"

definition Aid_len :: "Aid \<Rightarrow> nat" where
  "Aid_len aid = length (Aid_as_bytes aid)"

definition Aid_is_empty :: "Aid \<Rightarrow> bool" where
  "Aid_is_empty aid \<longleftrightarrow> Aid_as_bytes aid = []"

definition Aid_valid :: "bytes \<Rightarrow> bool" where
  "Aid_valid bs \<longleftrightarrow> 5 \<le> length bs \<and> length bs \<le> 16"

interpretation aid: validated "\<lambda>bs. result_ok (Aid_new bs)" Aid_as_bytes Aid_valid
  by unfold_locales (auto simp: Aid_new_def Aid_valid_def split: if_splits)

datatype Sfi = Sfi (Sfi_value: u8)

datatype SfiError = SfiError_OutOfRange u8

definition Sfi_as_p1_short_form :: "Sfi \<Rightarrow> u8" where
  "Sfi_as_p1_short_form sfi = 0x80 OR Sfi_value sfi"

definition Sfi_new :: "u8 \<Rightarrow> SfiError + Sfi" where
  "Sfi_new v = (if v = 0 \<or> v > 30 then Inl (SfiError_OutOfRange v) else Inr (Sfi v))"

definition Sfi_valid :: "u8 \<Rightarrow> bool" where
  "Sfi_valid v \<longleftrightarrow> v \<noteq> 0 \<and> v \<le> 30"

interpretation sfi: validated "\<lambda>v. result_ok (Sfi_new v)" Sfi_value Sfi_valid
  by unfold_locales (auto simp: Sfi_new_def Sfi_valid_def split: if_splits)

text \<open>\<open>u8::try_from(n)\<close>, and the \<open>Lc\<close> octet the builders derive from a data length.\<close>

definition u8_try_from :: "nat \<Rightarrow> u8 option" where
  "u8_try_from n = (if n \<le> 255 then Some (of_nat n) else None)"

definition u8_saturating :: "nat \<Rightarrow> u8" where
  "u8_saturating n = (case u8_try_from n of Some b \<Rightarrow> b | None \<Rightarrow> 0xFF)"

lemma u8_saturating_short [simp]: "n \<le> 255 \<Longrightarrow> u8_saturating n = of_nat n"
  by (simp add: u8_saturating_def u8_try_from_def)


subsection \<open>Short commands\<close>

text \<open>
  The four ISO 7816-4 short cases: a header, optionally \<open>Lc\<close> and data, optionally \<open>Le\<close>.
\<close>

definition short_apdu :: "bytes \<Rightarrow> bytes \<Rightarrow> u8 option \<Rightarrow> bytes" where
  "short_apdu header data le =
     header @ (if data = [] then [] else of_nat (length data) # data)
            @ (case le of None \<Rightarrow> [] | Some b \<Rightarrow> [b])"

text \<open>
  What a command builder promises: on well-formed fields the serialised command is the short
  command with the builder's header, data and \<open>Le\<close>, and only a command that carries no data
  and expects a response is marked for a corrected resend.
\<close>

locale apdu_builder =
  fixes into_apdu :: "'c \<Rightarrow> CommandApdu"
    and wf :: "'c \<Rightarrow> bool"
    and header :: "'c \<Rightarrow> bytes"
    and data :: "'c \<Rightarrow> bytes"
    and le :: "'c \<Rightarrow> u8 option"
  assumes serialises: "wf c \<Longrightarrow> cmd_bytes (into_apdu c) = short_apdu (header c) (data c) (le c)"
    and header_length: "wf c \<Longrightarrow> length (header c) = 4"
    and data_length: "wf c \<Longrightarrow> length (data c) \<le> 255"
    and marked: "wf c \<Longrightarrow> cmd_wrong_le_retry (into_apdu c) \<Longrightarrow> data c = [] \<and> le c \<noteq> None"
begin

lemma short_form: "wf c \<Longrightarrow> length (cmd_bytes (into_apdu c)) \<le> 261"
  using serialises [of c] header_length [of c] data_length [of c]
  by (auto simp: short_apdu_def split: option.splits)

lemma with_data_unmarked: "wf c \<Longrightarrow> data c \<noteq> [] \<Longrightarrow> \<not> cmd_wrong_le_retry (into_apdu c)"
  using marked by blast

lemma lc_octet:
  "wf c \<Longrightarrow> data c \<noteq> [] \<Longrightarrow> cmd_bytes (into_apdu c) ! 4 = of_nat (length (data c))"
  using serialises [of c] header_length [of c] by (simp add: short_apdu_def nth_append)

end


subsection \<open>Class bytes, occurrences, file identifiers\<close>

datatype ApduClass = ApduClass_Plain | ApduClass_SecureMessaging | ApduClass_ChainedFirst

fun ApduClass_as_byte :: "ApduClass \<Rightarrow> u8" where
  "ApduClass_as_byte ApduClass_Plain = 0x00"
| "ApduClass_as_byte ApduClass_SecureMessaging = 0x0C"
| "ApduClass_as_byte ApduClass_ChainedFirst = 0x10"

datatype SelectOccurrence = SelectOccurrence_First | SelectOccurrence_Next

fun SelectOccurrence_as_p2 :: "SelectOccurrence \<Rightarrow> u8" where
  "SelectOccurrence_as_p2 SelectOccurrence_First = 0x00"
| "SelectOccurrence_as_p2 SelectOccurrence_Next = 0x02"

datatype FileId = FileId u8 u8

fun FileId_as_bytes :: "FileId \<Rightarrow> bytes" where
  "FileId_as_bytes (FileId a b) = [a, b]"

definition FileId_MF :: FileId where "FileId_MF = FileId 0x3F 0x00"
definition FileId_PKCS15_DF :: FileId where "FileId_PKCS15_DF = FileId 0x50 0x15"
definition FileId_EF_ODF :: FileId where "FileId_EF_ODF = FileId 0x50 0x31"
definition FileId_EF_TOKEN_INFO :: FileId where "FileId_EF_TOKEN_INFO = FileId 0x50 0x32"

lemma length_FileId_as_bytes [simp]: "length (FileId_as_bytes f) = 2"
  by (cases f) simp

datatype AbsolutePath = AbsolutePath (AbsolutePath_as_fids: "FileId list")

datatype AbsolutePathError = AbsolutePathError_Empty | AbsolutePathError_StartsWithMf

definition AbsolutePath_new :: "FileId list \<Rightarrow> AbsolutePathError + AbsolutePath" where
  "AbsolutePath_new fids =
     (if fids = [] then Inl AbsolutePathError_Empty
      else if hd fids = FileId_MF then Inl AbsolutePathError_StartsWithMf
      else Inr (AbsolutePath fids))"

interpretation absolute_path: validated "\<lambda>fids. result_ok (AbsolutePath_new fids)"
  AbsolutePath_as_fids "\<lambda>fids. fids \<noteq> [] \<and> hd fids \<noteq> FileId_MF"
  by unfold_locales (auto simp: AbsolutePath_new_def split: if_splits)


subsection \<open>SELECT\<close>

record SelectByAidNoFci =
  selnofci_aid :: Aid

definition SelectByAidNoFci_into_apdu :: "SelectByAidNoFci \<Rightarrow> CommandApdu" where
  "SelectByAidNoFci_into_apdu c =
     (let bytes = Aid_as_bytes (selnofci_aid c);
          lc = u8_saturating (length bytes)
      in CommandApdu_new ([0x00, 0xA4, 0x04, 0x0C] @ [lc] @ bytes))"

record SelectByAidWithFci =
  selfci_class :: ApduClass
  selfci_occurrence :: SelectOccurrence
  selfci_aid :: Aid

definition SelectByAidWithFci_into_apdu :: "SelectByAidWithFci \<Rightarrow> CommandApdu" where
  "SelectByAidWithFci_into_apdu c =
     (let aid_bytes = Aid_as_bytes (selfci_aid c);
          lc = u8_saturating (length aid_bytes)
      in CommandApdu_new
           ([ApduClass_as_byte (selfci_class c), 0xA4, 0x04,
             SelectOccurrence_as_p2 (selfci_occurrence c)] @ [lc] @ aid_bytes @ [0x00]))"

datatype SelectFileTarget =
    SelectFileTarget_AnyByFileId "FileId option"
  | SelectFileTarget_EfUnderCurrentDf FileId
  | SelectFileTarget_ByName Aid
  | SelectFileTarget_AbsolutePath AbsolutePath

fun SelectFileTarget_as_p1 :: "SelectFileTarget \<Rightarrow> u8" where
  "SelectFileTarget_as_p1 (SelectFileTarget_AnyByFileId _) = 0x00"
| "SelectFileTarget_as_p1 (SelectFileTarget_EfUnderCurrentDf _) = 0x02"
| "SelectFileTarget_as_p1 (SelectFileTarget_ByName _) = 0x04"
| "SelectFileTarget_as_p1 (SelectFileTarget_AbsolutePath _) = 0x08"

fun SelectFileTarget_data_len :: "SelectFileTarget \<Rightarrow> nat" where
  "SelectFileTarget_data_len (SelectFileTarget_AnyByFileId None) = 0"
| "SelectFileTarget_data_len (SelectFileTarget_AnyByFileId (Some _)) = 2"
| "SelectFileTarget_data_len (SelectFileTarget_EfUnderCurrentDf _) = 2"
| "SelectFileTarget_data_len (SelectFileTarget_ByName aid) = length (Aid_as_bytes aid)"
| "SelectFileTarget_data_len (SelectFileTarget_AbsolutePath path) =
     length (AbsolutePath_as_fids path) * 2"

fun SelectFileTarget_append_data :: "SelectFileTarget \<Rightarrow> bytes \<Rightarrow> bytes" where
  "SelectFileTarget_append_data (SelectFileTarget_AnyByFileId None) out = out"
| "SelectFileTarget_append_data (SelectFileTarget_AnyByFileId (Some fid)) out =
     out @ FileId_as_bytes fid"
| "SelectFileTarget_append_data (SelectFileTarget_EfUnderCurrentDf fid) out =
     out @ FileId_as_bytes fid"
| "SelectFileTarget_append_data (SelectFileTarget_ByName aid) out = out @ Aid_as_bytes aid"
| "SelectFileTarget_append_data (SelectFileTarget_AbsolutePath path) out =
     foldl (\<lambda>acc fid. acc @ FileId_as_bytes fid) out (AbsolutePath_as_fids path)"

datatype SelectFileResponseMode =
    SelectFileResponseMode_Fci
  | SelectFileResponseMode_Fcp
  | SelectFileResponseMode_None

fun SelectFileResponseMode_as_p2 :: "SelectFileResponseMode \<Rightarrow> u8" where
  "SelectFileResponseMode_as_p2 SelectFileResponseMode_Fci = 0x00"
| "SelectFileResponseMode_as_p2 SelectFileResponseMode_Fcp = 0x04"
| "SelectFileResponseMode_as_p2 SelectFileResponseMode_None = 0x0C"

record SelectFile =
  selfile_class :: ApduClass
  selfile_target :: SelectFileTarget
  selfile_response_mode :: SelectFileResponseMode

definition SelectFile_into_apdu :: "SelectFile \<Rightarrow> CommandApdu" where
  "SelectFile_into_apdu c =
     (let data_len = SelectFileTarget_data_len (selfile_target c);
          out = [ApduClass_as_byte (selfile_class c), 0xA4,
                 SelectFileTarget_as_p1 (selfile_target c),
                 SelectFileResponseMode_as_p2 (selfile_response_mode c)];
          out = (if data_len > 0
                 then SelectFileTarget_append_data (selfile_target c) (out @ [u8_saturating data_len])
                 else out);
          out = (if selfile_response_mode c = SelectFileResponseMode_Fci
                    \<or> selfile_response_mode c = SelectFileResponseMode_Fcp
                 then out @ [0x00] else out)
      in CommandApdu_new out)"

record SelectEfNoFci =
  selef_fid0 :: u8
  selef_fid1 :: u8

definition SelectEfNoFci_into_apdu :: "SelectEfNoFci \<Rightarrow> CommandApdu" where
  "SelectEfNoFci_into_apdu c =
     CommandApdu_new [0x00, 0xA4, 0x02, 0x0C, 0x02, selef_fid0 c, selef_fid1 c]"

text \<open>The data field a target stands for, written once and for all.\<close>

fun target_data :: "SelectFileTarget \<Rightarrow> bytes" where
  "target_data (SelectFileTarget_AnyByFileId f) =
     (case f of None \<Rightarrow> [] | Some fid \<Rightarrow> FileId_as_bytes fid)"
| "target_data (SelectFileTarget_EfUnderCurrentDf fid) = FileId_as_bytes fid"
| "target_data (SelectFileTarget_ByName aid) = Aid_as_bytes aid"
| "target_data (SelectFileTarget_AbsolutePath path) =
     concat (map FileId_as_bytes (AbsolutePath_as_fids path))"

lemma foldl_append_concat: "foldl (\<lambda>acc x. acc @ f x) out xs = out @ concat (map f xs)"
  by (induction xs arbitrary: out) auto

lemma length_concat_pairs: "(\<And>x. length (f x) = k) \<Longrightarrow> length (concat (map f xs)) = length xs * k"
  by (induction xs) auto

lemma append_data_target: "SelectFileTarget_append_data t out = out @ target_data t"
  by (cases "(t, out)" rule: SelectFileTarget_append_data.cases)
    (auto simp: foldl_append_concat split: option.splits)

lemma data_len_target: "SelectFileTarget_data_len t = length (target_data t)"
  by (cases t rule: SelectFileTarget_data_len.cases) (auto simp: length_concat_pairs)

interpretation select_by_aid: apdu_builder SelectByAidNoFci_into_apdu
  "\<lambda>c. Aid_valid (Aid_as_bytes (selnofci_aid c))" "\<lambda>_. [0x00, 0xA4, 0x04, 0x0C]"
  "\<lambda>c. Aid_as_bytes (selnofci_aid c)" "\<lambda>_. None"
  by unfold_locales
    (auto simp: SelectByAidNoFci_into_apdu_def short_apdu_def Aid_valid_def Let_def)

interpretation select_by_aid_fci: apdu_builder SelectByAidWithFci_into_apdu
  "\<lambda>c. Aid_valid (Aid_as_bytes (selfci_aid c))"
  "\<lambda>c. [ApduClass_as_byte (selfci_class c), 0xA4, 0x04, SelectOccurrence_as_p2 (selfci_occurrence c)]"
  "\<lambda>c. Aid_as_bytes (selfci_aid c)" "\<lambda>_. Some 0x00"
  by unfold_locales
    (auto simp: SelectByAidWithFci_into_apdu_def short_apdu_def Aid_valid_def Let_def)

text \<open>A SELECT FILE is well formed as long as its path fits a short \<open>Lc\<close>.\<close>

interpretation select_file: apdu_builder SelectFile_into_apdu
  "\<lambda>c. length (target_data (selfile_target c)) \<le> 255"
  "\<lambda>c. [ApduClass_as_byte (selfile_class c), 0xA4, SelectFileTarget_as_p1 (selfile_target c),
        SelectFileResponseMode_as_p2 (selfile_response_mode c)]"
  "\<lambda>c. target_data (selfile_target c)"
  "\<lambda>c. if selfile_response_mode c = SelectFileResponseMode_None then None else Some 0x00"
  by unfold_locales
    (auto simp: SelectFile_into_apdu_def short_apdu_def Let_def append_data_target data_len_target
      intro: SelectFileResponseMode.exhaust)

interpretation select_ef: apdu_builder SelectEfNoFci_into_apdu "\<lambda>_. True"
  "\<lambda>_. [0x00, 0xA4, 0x02, 0x0C]" "\<lambda>c. [selef_fid0 c, selef_fid1 c]" "\<lambda>_. None"
  by unfold_locales (auto simp: SelectEfNoFci_into_apdu_def short_apdu_def)


subsection \<open>GET RESPONSE, READ BINARY, INTERNAL AUTHENTICATE\<close>

record GetResponse =
  getresp_class :: ApduClass
  getresp_le :: u8

definition GetResponse_new :: "ApduClass \<Rightarrow> u8 \<Rightarrow> GetResponse" where
  "GetResponse_new class le = \<lparr>getresp_class = class, getresp_le = le\<rparr>"

definition GetResponse_into_apdu :: "GetResponse \<Rightarrow> CommandApdu" where
  "GetResponse_into_apdu c =
     CommandApdu_allow_wrong_le_retry (CommandApdu_new
       [ApduClass_as_byte (getresp_class c), 0xC0, 0x00, 0x00, getresp_le c])"

datatype DirectOffset15 = DirectOffset15 (DirectOffset15_as_u16: u16)

datatype DirectOffset15Error = DirectOffset15Error_OutOfRange u16 u16

definition DirectOffset15_MAX :: u16 where
  "DirectOffset15_MAX = 0x7FFF"

definition DirectOffset15_try_new :: "u16 \<Rightarrow> DirectOffset15Error + DirectOffset15" where
  "DirectOffset15_try_new offset =
     (if offset > DirectOffset15_MAX
      then Inl (DirectOffset15Error_OutOfRange offset DirectOffset15_MAX)
      else Inr (DirectOffset15 offset))"

definition DirectOffset15_as_p1 :: "DirectOffset15 \<Rightarrow> u8" where
  "DirectOffset15_as_p1 off = u16_to_be_bytes (DirectOffset15_as_u16 off) ! 0"

definition DirectOffset15_as_p2 :: "DirectOffset15 \<Rightarrow> u8" where
  "DirectOffset15_as_p2 off = u16_to_be_bytes (DirectOffset15_as_u16 off) ! 1"

interpretation direct_offset: validated "\<lambda>v. result_ok (DirectOffset15_try_new v)"
  DirectOffset15_as_u16 "\<lambda>v. v \<le> DirectOffset15_MAX"
  by unfold_locales (auto simp: DirectOffset15_try_new_def split: if_splits)

datatype ReadBinaryOffset =
    ReadBinaryOffset_Direct DirectOffset15
  | ReadBinaryOffset_BySfi Sfi u8

fun ReadBinaryOffset_as_p1 :: "ReadBinaryOffset \<Rightarrow> u8" where
  "ReadBinaryOffset_as_p1 (ReadBinaryOffset_Direct off) = DirectOffset15_as_p1 off"
| "ReadBinaryOffset_as_p1 (ReadBinaryOffset_BySfi sfi offset) = Sfi_as_p1_short_form sfi"

fun ReadBinaryOffset_as_p2 :: "ReadBinaryOffset \<Rightarrow> u8" where
  "ReadBinaryOffset_as_p2 (ReadBinaryOffset_Direct off) = DirectOffset15_as_p2 off"
| "ReadBinaryOffset_as_p2 (ReadBinaryOffset_BySfi sfi offset) = offset"

record ReadBinary =
  rb_class :: ApduClass
  rb_offset :: ReadBinaryOffset
  rb_le :: u8

definition ReadBinary_into_apdu :: "ReadBinary \<Rightarrow> CommandApdu" where
  "ReadBinary_into_apdu c =
     CommandApdu_allow_wrong_le_retry (CommandApdu_new
       [ApduClass_as_byte (rb_class c), 0xB0, ReadBinaryOffset_as_p1 (rb_offset c),
        ReadBinaryOffset_as_p2 (rb_offset c), rb_le c])"

record ReadBinaryBySfi =
  rbsfi_sfi :: Sfi
  rbsfi_offset :: u8
  rbsfi_le :: u8

definition ReadBinaryBySfi_into_apdu :: "ReadBinaryBySfi \<Rightarrow> CommandApdu" where
  "ReadBinaryBySfi_into_apdu c =
     CommandApdu_allow_wrong_le_retry (CommandApdu_new
       [0x00, 0xB0, Sfi_as_p1_short_form (rbsfi_sfi c), rbsfi_offset c, rbsfi_le c])"

record InternalAuthenticate =
  intauth_challenge :: bytes

definition InternalAuthenticate_into_apdu :: "InternalAuthenticate \<Rightarrow> CommandApdu" where
  "InternalAuthenticate_into_apdu c =
     CommandApdu_new ([0x00, 0x88, 0x00, 0x00, 0x08] @ intauth_challenge c @ [0x00])"

record ReadBinaryByOffset =
  rboff_offset :: u16
  rboff_le :: u8

definition ReadBinaryByOffset_into_apdu :: "ReadBinaryByOffset \<Rightarrow> CommandApdu" where
  "ReadBinaryByOffset_into_apdu c =
     (let hi = u16_to_be_bytes (rboff_offset c) ! 0; lo = u16_to_be_bytes (rboff_offset c) ! 1;
          p1 = hi AND 0x7F; p2 = lo
      in CommandApdu_allow_wrong_le_retry (CommandApdu_new [0x00, 0xB0, p1, p2, rboff_le c]))"

lemmas case2_builder_defs =
  GetResponse_into_apdu_def ReadBinary_into_apdu_def ReadBinaryBySfi_into_apdu_def
  ReadBinaryByOffset_into_apdu_def

interpretation get_response: apdu_builder GetResponse_into_apdu "\<lambda>_. True"
  "\<lambda>c. [ApduClass_as_byte (getresp_class c), 0xC0, 0x00, 0x00]" "\<lambda>_. []" "\<lambda>c. Some (getresp_le c)"
  by unfold_locales (auto simp: case2_builder_defs short_apdu_def)

interpretation read_binary: apdu_builder ReadBinary_into_apdu "\<lambda>_. True"
  "\<lambda>c. [ApduClass_as_byte (rb_class c), 0xB0, ReadBinaryOffset_as_p1 (rb_offset c),
        ReadBinaryOffset_as_p2 (rb_offset c)]" "\<lambda>_. []" "\<lambda>c. Some (rb_le c)"
  by unfold_locales (auto simp: case2_builder_defs short_apdu_def)

interpretation read_binary_by_sfi: apdu_builder ReadBinaryBySfi_into_apdu "\<lambda>_. True"
  "\<lambda>c. [0x00, 0xB0, Sfi_as_p1_short_form (rbsfi_sfi c), rbsfi_offset c]" "\<lambda>_. []"
  "\<lambda>c. Some (rbsfi_le c)"
  by unfold_locales (auto simp: case2_builder_defs short_apdu_def)

interpretation read_binary_by_offset: apdu_builder ReadBinaryByOffset_into_apdu "\<lambda>_. True"
  "\<lambda>c. [0x00, 0xB0, u16_to_be_bytes (rboff_offset c) ! 0 AND 0x7F,
        u16_to_be_bytes (rboff_offset c) ! 1]" "\<lambda>_. []" "\<lambda>c. Some (rboff_le c)"
  by unfold_locales (auto simp: case2_builder_defs short_apdu_def Let_def)

interpretation internal_authenticate: apdu_builder InternalAuthenticate_into_apdu
  "\<lambda>c. length (intauth_challenge c) = 8" "\<lambda>_. [0x00, 0x88, 0x00, 0x00]" intauth_challenge
  "\<lambda>_. Some 0x00"
  by unfold_locales (auto simp: InternalAuthenticate_into_apdu_def short_apdu_def)


subsection \<open>The two READ BINARY forms never overlap\<close>

text \<open>Bit 8 of P1 tells an offset from a short file identifier.\<close>

definition p1_is_sfi :: "u8 \<Rightarrow> bool" where
  "p1_is_sfi p1 \<longleftrightarrow> bit p1 7"

lemma direct_p1_bit:
  assumes "v \<le> 0x7FFF"
  shows "\<not> bit (v::u16) 15"
proof -
  have "v AND mask 15 = v" using assms
    by (intro less_mask_eq) (simp add: word_le_nat_alt word_less_nat_alt)
  then show ?thesis by (metis bit_and_iff bit_mask_iff less_irrefl)
qed

lemma sfi_p1_value:
  assumes "Sfi_valid v"
  shows "(0x80 OR v) AND 0x7F = v"
proof -
  have "v < 2 ^ 7" using assms by (simp add: Sfi_valid_def word_le_nat_alt word_less_nat_alt)
  then have "v AND mask 7 = v" by (rule less_mask_eq)
  then show ?thesis by (simp add: bit.conj_disj_distrib2 mask_eq_exp_minus_1)
qed

definition ReadBinaryOffset_valid :: "ReadBinaryOffset \<Rightarrow> bool" where
  "ReadBinaryOffset_valid off \<longleftrightarrow>
     (case off of
        ReadBinaryOffset_Direct d \<Rightarrow> DirectOffset15_as_u16 d \<le> DirectOffset15_MAX
      | ReadBinaryOffset_BySfi sfi _ \<Rightarrow> Sfi_valid (Sfi_value sfi))"

lemma read_binary_form:
  "ReadBinaryOffset_valid off \<Longrightarrow>
     p1_is_sfi (ReadBinaryOffset_as_p1 off) \<longleftrightarrow> (\<exists>sfi o8. off = ReadBinaryOffset_BySfi sfi o8)"
  by (cases off)
    (auto simp: ReadBinaryOffset_valid_def p1_is_sfi_def DirectOffset15_as_p1_def
      u16_to_be_bytes_def DirectOffset15_MAX_def Sfi_as_p1_short_form_def bit_simps
      dest: direct_p1_bit)

text \<open>The source of a READ BINARY, read back from P1 and P2.\<close>

definition read_binary_source :: "u8 \<Rightarrow> u8 \<Rightarrow> ReadBinaryOffset" where
  "read_binary_source p1 p2 =
     (if p1_is_sfi p1 then ReadBinaryOffset_BySfi (Sfi (p1 AND 0x7F)) p2
      else ReadBinaryOffset_Direct (DirectOffset15 (u16_from_be_bytes p1 p2)))"

lemma read_binary_source_inverse:
  assumes "ReadBinaryOffset_valid off"
  shows "read_binary_source (ReadBinaryOffset_as_p1 off) (ReadBinaryOffset_as_p2 off) = off"
  using assms read_binary_form [OF assms]
  by (cases off; cases "\<exists>sfi o8. off = ReadBinaryOffset_BySfi sfi o8")
    (auto simp: read_binary_source_def ReadBinaryOffset_valid_def sfi_p1_value
      Sfi_as_p1_short_form_def DirectOffset15_as_p1_def DirectOffset15_as_p2_def
      u16_to_be_bytes_def)


subsection \<open>Properties\<close>

text \<open>
  The identifiers and offsets that reach a command are in range: \<open>Aid::new\<close> accepts exactly
  the 5 to 16 byte identifiers, \<open>Sfi::new\<close> exactly 1 to 30, \<open>DirectOffset15::try_new\<close> exactly
  the 15-bit offsets, and each keeps the value it was given.
\<close>

theorem apdu_role_types_validate:
  "((\<exists>a. Aid_new bs = Inr a \<and> Aid_as_bytes a = bs) \<longleftrightarrow> 5 \<le> length bs \<and> length bs \<le> 16) \<and>
   ((\<exists>s. Sfi_new v = Inr s \<and> Sfi_value s = v) \<longleftrightarrow> v \<noteq> 0 \<and> v \<le> 30) \<and>
   ((\<exists>d. DirectOffset15_try_new w = Inr d \<and> DirectOffset15_as_u16 d = w) \<longleftrightarrow> unat w < 2 ^ 15)"
proof (intro conjI)
  have *: "result_ok r = Some x \<longleftrightarrow> r = Inr x" for r :: "'e + 'b" and x by (cases r) auto
  show "(\<exists>a. Aid_new bs = Inr a \<and> Aid_as_bytes a = bs) \<longleftrightarrow> 5 \<le> length bs \<and> length bs \<le> 16"
    using aid.accepts_iff [of bs] aid.mk_Some [of bs] by (auto simp: * Aid_valid_def)
  show "(\<exists>s. Sfi_new v = Inr s \<and> Sfi_value s = v) \<longleftrightarrow> v \<noteq> 0 \<and> v \<le> 30"
    using sfi.accepts_iff [of v] sfi.mk_Some [of v] by (auto simp: * Sfi_valid_def)
  have "w \<le> DirectOffset15_MAX \<longleftrightarrow> unat w < 2 ^ 15"
    by (simp add: DirectOffset15_MAX_def word_le_nat_alt less_Suc_eq_le [symmetric])
  then show "(\<exists>d. DirectOffset15_try_new w = Inr d \<and> DirectOffset15_as_u16 d = w) \<longleftrightarrow> unat w < 2 ^ 15"
    using direct_offset.accepts_iff [of w] direct_offset.mk_Some [of w] by (auto simp: *)
qed

text \<open>
  A READ BINARY addresses one place only: from P1 and P2 of the serialised command the
  offset or the short file identifier it was built from is read back, so a 15-bit offset can
  never be taken for a short file identifier.
\<close>

theorem read_binary_addresses_one_place:
  assumes "ReadBinaryOffset_valid (rb_offset c)"
  shows "read_binary_source (cmd_bytes (ReadBinary_into_apdu c) ! 2)
           (cmd_bytes (ReadBinary_into_apdu c) ! 3) = rb_offset c"
  using read_binary_source_inverse [OF assms] by (simp add: ReadBinary_into_apdu_def)

theorem read_binary_addresses_one_place_witness:
  "read_binary_source
     (cmd_bytes (ReadBinary_into_apdu \<lparr>rb_class = ApduClass_Plain,
        rb_offset = ReadBinaryOffset_BySfi (Sfi 29) 7, rb_le = 0\<rparr>) ! 2)
     (cmd_bytes (ReadBinary_into_apdu \<lparr>rb_class = ApduClass_Plain,
        rb_offset = ReadBinaryOffset_BySfi (Sfi 29) 7, rb_le = 0\<rparr>) ! 3)
   = ReadBinaryOffset_BySfi (Sfi 29) 7"
proof -
  have "ReadBinaryOffset_valid (rb_offset \<lparr>rb_class = ApduClass_Plain,
      rb_offset = ReadBinaryOffset_BySfi (Sfi 29) 7, rb_le = 0\<rparr>)"
    by (simp add: ReadBinaryOffset_valid_def Sfi_valid_def)
  then show ?thesis using read_binary_addresses_one_place by fastforce
qed

end
