(* ===== verification/T0_Exchange.thy ===== *)
theory T0_Exchange
  imports Apdu
begin

text \<open>
  The T=0 exchange of the PC/SC adapter (\<open>refineid-lib-pcsc/src/lib.rs\<close>): conversion of case-4
  commands, the single corrected resend after \<open>6Cxx\<close>, and the \<open>61xx\<close> GET RESPONSE chain. The
  \<open>pcsc\<close> crate is a parameter: \<open>begin_tx\<close> opens the per-command transaction and
  \<open>pcsc_transmit\<close> sends one physical command and returns the raw response. The two loops are
  total functions: the resend mark is spent on the first correction, and every continued link
  of the chain makes the assembled body longer and keeps it under the 64 KiB ceiling.
\<close>

subsection \<open>Errors and breaks\<close>

text \<open>The card-state errors the adapter tells apart, and any other error of the \<open>pcsc\<close> crate.\<close>

datatype 'x pcsc_Error = pcsc_NoSmartcard | pcsc_RemovedCard | pcsc_ResetCard | pcsc_Other 'x

datatype 'x PcscError = PcscError_Pcsc "'x pcsc_Error" | PcscError_Transport string

fun PcscError_kind :: "'x PcscError \<Rightarrow> TransportErrorKind" where
  "PcscError_kind (PcscError_Pcsc pcsc_NoSmartcard) = TransportErrorKind_NoCard"
| "PcscError_kind (PcscError_Pcsc pcsc_RemovedCard) = TransportErrorKind_ReaderRemoved"
| "PcscError_kind (PcscError_Pcsc pcsc_ResetCard) = TransportErrorKind_CardReset"
| "PcscError_kind (PcscError_Pcsc (pcsc_Other _)) = TransportErrorKind_Backend"
| "PcscError_kind (PcscError_Transport _) = TransportErrorKind_Backend"

datatype 'x TransmitBreak =
    TransmitBreak_Outcome TransportOutcome
  | TransmitBreak_Error "'x PcscError"

type_synonym ('t, 'x) t0_transmitter = "bytes \<Rightarrow> ('t, 'x TransmitBreak, bytes) io"

fun pcsc_break :: "'x pcsc_Error \<Rightarrow> 'x TransmitBreak" where
  "pcsc_break pcsc_NoSmartcard = TransmitBreak_Outcome TransportOutcome_NoCard"
| "pcsc_break pcsc_RemovedCard = TransmitBreak_Outcome TransportOutcome_ReaderRemoved"
| "pcsc_break pcsc_ResetCard = TransmitBreak_Outcome TransportOutcome_CardReset"
| "pcsc_break e = TransmitBreak_Error (PcscError_Pcsc e)"

definition PcscTransmitter_transmit ::
  "(bytes \<Rightarrow> ('t, 'x pcsc_Error, bytes) io) \<Rightarrow> ('t, 'x) t0_transmitter" where
  "PcscTransmitter_transmit pcsc_transmit apdu = map_errS pcsc_break (pcsc_transmit apdu)"


subsection \<open>Case-4 conversion\<close>

definition EXTENDED_RESPONSE_DATA_MAX_BYTES :: nat where
  "EXTENDED_RESPONSE_DATA_MAX_BYTES = 65536"

definition SW1_BYTES_AVAILABLE :: u8 where "SW1_BYTES_AVAILABLE = 0x61"
definition SW1_WRONG_LE :: u8 where "SW1_WRONG_LE = 0x6C"

definition t0_case3_from_short_case4 :: "CommandApdu \<Rightarrow> CommandApdu option" where
  "t0_case3_from_short_case4 apdu =
     (let bytes = CommandApdu_as_bytes apdu
      in case get_at bytes 4 of
           None \<Rightarrow> None
         | Some lc_byte \<Rightarrow>
             (let lc = unat lc_byte
              in if lc = 0 then None
                 else if length bytes \<noteq> 5 + lc + 1 then None
                 else Some (CommandApdu_new (take (length bytes - 1) bytes))))"


subsection \<open>The exchange\<close>

text \<open>\<open>split_last_chunk::<2>\<close>: the body and the two status bytes.\<close>

definition split_last_chunk2 :: "bytes \<Rightarrow> (bytes \<times> u8 \<times> u8) option" where
  "split_last_chunk2 r =
     (if length r < 2 then None
      else Some (take (length r - 2) r, r ! (length r - 2), r ! (length r - 1)))"

definition CHAIN_TOO_LONG :: string where
  "CHAIN_TOO_LONG = ''61xx GET RESPONSE chain exceeded 64 KiB''"

definition CHAIN_STALLED :: string where
  "CHAIN_STALLED = ''card signalled 61xx but returned no bytes (stalled chain)''"

text \<open>The inner loop: GET RESPONSE until the card stops announcing more bytes.\<close>

function t0_chain ::
  "('t, 'x) t0_transmitter \<Rightarrow> bytes \<Rightarrow> u8 \<Rightarrow> ('t, 'x PcscError, TransportOutcome) io" where
  "t0_chain tr combined next_le s =
     (let get_resp = GetResponse_into_apdu (GetResponse_new ApduClass_Plain next_le)
      in case tr (CommandApdu_as_bytes get_resp) s of
           (Inl (TransmitBreak_Outcome outcome), s') \<Rightarrow> (Inr outcome, s')
         | (Inl (TransmitBreak_Error e), s') \<Rightarrow> (Inl e, s')
         | (Inr chain_resp, s') \<Rightarrow>
             (case split_last_chunk2 chain_resp of
                None \<Rightarrow> (Inr TransportOutcome_ProtocolDesync, s')
              | Some (chain_body, chained_sw1, chained_sw2) \<Rightarrow>
                  if length combined + length chain_body > EXTENDED_RESPONSE_DATA_MAX_BYTES
                  then (Inl (PcscError_Transport CHAIN_TOO_LONG), s')
                  else if chained_sw1 = SW1_BYTES_AVAILABLE then
                    if chain_body = [] then (Inl (PcscError_Transport CHAIN_STALLED), s')
                    else t0_chain tr (combined @ chain_body) chained_sw2 s'
                  else (Inr (TransportOutcome_Response \<lparr>resp_body = combined @ chain_body,
                          resp_sw1 = chained_sw1, resp_sw2 = chained_sw2\<rparr>), s')))"
  by pat_completeness auto
termination
  by (relation "measure (\<lambda>(tr, combined, next_le, s).
        EXTENDED_RESPONSE_DATA_MAX_BYTES + 1 - length combined)") (auto intro!: diff_less_mono2)

text \<open>The outer loop: send, correct \<open>Le\<close> at most once, follow a chain, or return.\<close>

function run_t0_exchange ::
  "('t, 'x) t0_transmitter \<Rightarrow> CommandApdu \<Rightarrow> ('t, 'x PcscError, TransportOutcome) io" where
  "run_t0_exchange tr sent s =
     (case tr (CommandApdu_as_bytes sent) s of
        (Inl (TransmitBreak_Outcome outcome), s') \<Rightarrow> (Inr outcome, s')
      | (Inl (TransmitBreak_Error e), s') \<Rightarrow> (Inl e, s')
      | (Inr response, s') \<Rightarrow>
          (case split_last_chunk2 response of
             None \<Rightarrow> (Inr TransportOutcome_ProtocolDesync, s')
           | Some (body, sw1, sw2) \<Rightarrow>
               (case (if sw1 = SW1_WRONG_LE then CommandApdu_corrected_wrong_le sent sw2 else None) of
                  Some corrected \<Rightarrow> run_t0_exchange tr corrected s'
                | None \<Rightarrow>
                    if sw1 = SW1_BYTES_AVAILABLE then t0_chain tr body sw2 s'
                    else (Inr (TransportOutcome_Response
                            \<lparr>resp_body = body, resp_sw1 = sw1, resp_sw2 = sw2\<rparr>), s'))))"
  by pat_completeness auto
termination
  by (relation "measure (\<lambda>(tr, sent, s). if cmd_wrong_le_retry sent then 1 else 0)")
    (auto dest: corrected_wrong_le_Some split: if_splits)

declare t0_chain.simps [simp del] run_t0_exchange.simps [simp del]

datatype Protocol = Protocol_T0 | Protocol_T1 | Protocol_RAW

definition PcscCard_transmit_outcome ::
  "('t, 'x pcsc_Error, unit) io \<Rightarrow> (bytes \<Rightarrow> ('t, 'x pcsc_Error, bytes) io) \<Rightarrow> Protocol \<Rightarrow>
     ('t, 'x PcscError) transport" where
  "PcscCard_transmit_outcome begin_tx pcsc_transmit protocol apdu s =
     (case begin_tx s of
        (Inl pcsc_NoSmartcard, s') \<Rightarrow> (Inr TransportOutcome_NoCard, s')
      | (Inl pcsc_RemovedCard, s') \<Rightarrow> (Inr TransportOutcome_ReaderRemoved, s')
      | (Inl pcsc_ResetCard, s') \<Rightarrow> (Inr TransportOutcome_CardReset, s')
      | (Inl (pcsc_Other x), s') \<Rightarrow> (Inl (PcscError_Pcsc (pcsc_Other x)), s')
      | (Inr _, s') \<Rightarrow>
          (let t0_command = (if protocol = Protocol_T0 then t0_case3_from_short_case4 apdu else None);
               physical_command = (case t0_command of Some c \<Rightarrow> c | None \<Rightarrow> apdu)
           in run_t0_exchange (PcscTransmitter_transmit pcsc_transmit) physical_command s'))"


subsection \<open>What is sent\<close>

definition is_get_response :: "bytes \<Rightarrow> bool" where
  "is_get_response c \<longleftrightarrow> length c = 5 \<and> take 4 c = [0x00, 0xC0, 0x00, 0x00]"

lemma get_response_is_get_response [simp]:
  "is_get_response (cmd_bytes (GetResponse_into_apdu (GetResponse_new ApduClass_Plain le)))"
  by (simp add: is_get_response_def GetResponse_into_apdu_def GetResponse_new_def)

abbreviation chain_get_response :: "u8 \<Rightarrow> bytes" where
  "chain_get_response le \<equiv> cmd_bytes (GetResponse_into_apdu (GetResponse_new ApduClass_Plain le))"

text \<open>One turn of each loop either ends the exchange after this transmission, or goes on.\<close>

lemma t0_chain_turn:
  "snd (t0_chain tr combined le s) = snd (tr (chain_get_response le) s) \<or>
   (\<exists>resp s1 body sw2. tr (chain_get_response le) s = (Inr resp, s1) \<and>
      split_last_chunk2 resp = Some (body, SW1_BYTES_AVAILABLE, sw2) \<and> body \<noteq> [] \<and>
      length combined + length body \<le> EXTENDED_RESPONSE_DATA_MAX_BYTES \<and>
      t0_chain tr combined le s = t0_chain tr (combined @ body) sw2 s1)"
  using t0_chain.simps [of tr combined le s]
  by (auto simp: Let_def not_less split: prod.splits sum.splits TransmitBreak.splits option.splits)

lemma run_t0_exchange_turn:
  "snd (run_t0_exchange tr sent s) = snd (tr (cmd_bytes sent) s) \<or>
   (\<exists>s1 sw2 corrected. snd (tr (cmd_bytes sent) s) = s1 \<and>
      CommandApdu_corrected_wrong_le sent sw2 = Some corrected \<and>
      run_t0_exchange tr sent s = run_t0_exchange tr corrected s1) \<or>
   (\<exists>s1 body sw2. snd (tr (cmd_bytes sent) s) = s1 \<and>
      run_t0_exchange tr sent s = t0_chain tr body sw2 s1)"
  using run_t0_exchange.simps [of tr sent s]
  by (auto split: prod.splits sum.splits TransmitBreak.splits option.splits if_splits)

lemma t0_chain_sends:
  "\<exists>chain. fst (snd (t0_chain (logged tr) combined le (log, s))) = log @ chain \<and>
     (\<forall>c \<in> set chain. is_get_response c) \<and>
     length chain \<le> 1 + (EXTENDED_RESPONSE_DATA_MAX_BYTES - length combined)"
proof (induction "EXTENDED_RESPONSE_DATA_MAX_BYTES - length combined"
    arbitrary: combined le log s rule: less_induct)
  case less
  consider "snd (t0_chain (logged tr) combined le (log, s)) = snd (logged tr (chain_get_response le) (log, s))"
    | resp s1 body sw2 where "logged tr (chain_get_response le) (log, s) = (Inr resp, s1)"
      "body \<noteq> []" "length combined + length body \<le> EXTENDED_RESPONSE_DATA_MAX_BYTES"
      "t0_chain (logged tr) combined le (log, s) = t0_chain (logged tr) (combined @ body) sw2 s1"
    using t0_chain_turn [of "logged tr" combined le "(log, s)"] by blast
  then show ?case
  proof cases
    case 1
    then show ?thesis by (auto simp: logged_eq)
  next
    case 2
    from 2(1) obtain s2 where s1: "s1 = (log @ [chain_get_response le], s2)"
      by (auto simp: logged_eq)
    have "0 < length body" using 2(2) by simp
    with 2(3) have "EXTENDED_RESPONSE_DATA_MAX_BYTES - length (combined @ body)
        < EXTENDED_RESPONSE_DATA_MAX_BYTES - length combined"
      unfolding length_append by linarith
    from less [OF this, of sw2 "log @ [chain_get_response le]" s2] 2(3,4) s1 \<open>0 < length body\<close>
    obtain chain where
      "fst (snd (t0_chain (logged tr) combined le (log, s))) = log @ (chain_get_response le # chain)"
      "\<forall>c \<in> set chain. is_get_response c"
      "length chain \<le> 1 + (EXTENDED_RESPONSE_DATA_MAX_BYTES - length (combined @ body))"
      by auto
    moreover from this(3) have "1 + length chain \<le> 1 + (EXTENDED_RESPONSE_DATA_MAX_BYTES - length combined)"
      using 2(3) \<open>0 < length body\<close> unfolding length_append by linarith
    ultimately show ?thesis
      by (intro exI [of _ "chain_get_response le # chain"]) auto
  qed
qed

text \<open>A chain of GET RESPONSE commands of bounded length.\<close>

definition get_chain :: "bytes list \<Rightarrow> bool" where
  "get_chain chain \<longleftrightarrow> (\<forall>c \<in> set chain. is_get_response c) \<and>
     length chain \<le> 1 + EXTENDED_RESPONSE_DATA_MAX_BYTES"

lemma get_chain_Nil [simp]: "get_chain []"
  by (simp add: get_chain_def)

lemma t0_chain_log:
  obtains chain where "fst (snd (t0_chain (logged tr) combined le (log, s))) = log @ chain"
    "get_chain chain"
  using t0_chain_sends [of tr combined le log s] unfolding get_chain_def
  by (metis (no_types, lifting) add_left_mono diff_le_self order_trans)

lemma run_t0_exchange_log_unmarked:
  assumes "\<not> cmd_wrong_le_retry sent"
  obtains chain where
    "fst (snd (run_t0_exchange (logged tr) sent (log, s))) = log @ cmd_bytes sent # chain"
    "get_chain chain"
  using run_t0_exchange_turn [of "logged tr" sent "(log, s)"]
proof (elim disjE exE conjE)
  fix s1 body sw2
  assume "snd (logged tr (cmd_bytes sent) (log, s)) = s1"
    and run: "run_t0_exchange (logged tr) sent (log, s) = t0_chain (logged tr) body sw2 s1"
  then obtain s2 where s1: "s1 = (log @ [cmd_bytes sent], s2)" by (auto simp: logged_eq)
  show thesis
    using t0_chain_log [of tr body sw2 "log @ [cmd_bytes sent]" s2] that unfolding run s1 by auto
qed (use assms that [of "[]"] in \<open>auto simp: logged_eq\<close>)

lemma run_t0_exchange_log:
  obtains resend chain where
    "fst (snd (run_t0_exchange (logged tr) sent (log, s))) = log @ cmd_bytes sent # resend @ chain"
    "resend = [] \<or> cmd_wrong_le_retry sent \<and> (\<exists>le. resend = [butlast (cmd_bytes sent) @ [le]])"
    "get_chain chain"
  using run_t0_exchange_turn [of "logged tr" sent "(log, s)"]
proof (elim disjE exE conjE)
  fix s1 sw2 corrected
  assume "snd (logged tr (cmd_bytes sent) (log, s)) = s1"
    and c: "CommandApdu_corrected_wrong_le sent sw2 = Some corrected"
    and run: "run_t0_exchange (logged tr) sent (log, s) = run_t0_exchange (logged tr) corrected s1"
  then obtain s2 where s1: "s1 = (log @ [cmd_bytes sent], s2)" by (auto simp: logged_eq)
  have b: "cmd_bytes corrected = butlast (cmd_bytes sent) @ [sw2]" "cmd_wrong_le_retry sent"
    using c by (auto simp: CommandApdu_corrected_wrong_le_def split: if_splits)
  obtain chain where
    "fst (snd (run_t0_exchange (logged tr) sent (log, s)))
       = log @ cmd_bytes sent # [butlast (cmd_bytes sent) @ [sw2]] @ chain" "get_chain chain"
    using run_t0_exchange_log_unmarked
      [OF corrected_wrong_le_Some(2) [OF c], of tr "log @ [cmd_bytes sent]" s2] b(1)
    unfolding run s1 by auto
  then show thesis using that b(2) by blast
next
  fix s1 body sw2
  assume "snd (logged tr (cmd_bytes sent) (log, s)) = s1"
    and run: "run_t0_exchange (logged tr) sent (log, s) = t0_chain (logged tr) body sw2 s1"
  then obtain s2 where s1: "s1 = (log @ [cmd_bytes sent], s2)" by (auto simp: logged_eq)
  show thesis
    using t0_chain_log [of tr body sw2 "log @ [cmd_bytes sent]" s2] that [of "[]"]
    unfolding run s1 by auto
qed (use that [of "[]" "[]"] in \<open>auto simp: logged_eq\<close>)


subsection \<open>What is assembled\<close>

text \<open>A card's answer in links \<open>(body, announced)\<close> ended by a last body and status word.\<close>

definition linked_replies :: "(bytes \<times> u8) list \<Rightarrow> bytes \<Rightarrow> u8 \<Rightarrow> u8 \<Rightarrow> bytes list" where
  "linked_replies links b sw1 sw2 = map (\<lambda>(c, l). c @ [0x61, l]) links @ [b @ [sw1, sw2]]"

lemma split_last_chunk2_append [simp]:
  "split_last_chunk2 (b @ [x, y]) = Some (b, x, y)"
  by (simp add: split_last_chunk2_def nth_append)

lemma t0_chain_assembles:
  assumes "\<forall>(c, l) \<in> set links. c \<noteq> []" and "sw1 \<noteq> 0x61"
    and "length combined + length (concat (map fst links)) + length b \<le> 65536"
  shows "t0_chain (scripted e) combined le (linked_replies links b sw1 sw2 @ rest) =
    (Inr (TransportOutcome_Response \<lparr>resp_body = combined @ concat (map fst links) @ b,
       resp_sw1 = sw1, resp_sw2 = sw2\<rparr>), rest)"
  using assms
proof (induction links arbitrary: combined le)
  case Nil
  then show ?case
    by (simp add: t0_chain.simps [of _ combined] linked_replies_def SW1_BYTES_AVAILABLE_def
        EXTENDED_RESPONSE_DATA_MAX_BYTES_def)
next
  case (Cons x links)
  obtain c l where x: "x = (c, l)" by force
  have "t0_chain (scripted e) combined le (linked_replies (x # links) b sw1 sw2 @ rest) =
      t0_chain (scripted e) (combined @ c) l (linked_replies links b sw1 sw2 @ rest)"
    using Cons.prems
    by (subst t0_chain.simps)
      (simp add: x linked_replies_def SW1_BYTES_AVAILABLE_def EXTENDED_RESPONSE_DATA_MAX_BYTES_def)
  also have "\<dots> = (Inr (TransportOutcome_Response
      \<lparr>resp_body = (combined @ c) @ concat (map fst links) @ b, resp_sw1 = sw1, resp_sw2 = sw2\<rparr>), rest)"
    using Cons.prems by (intro Cons.IH) (auto simp: x)
  finally show ?case by (simp add: x)
qed

subsection \<open>Case 4 becomes case 3\<close>

lemma case4_becomes_case3:
  assumes "length header = 4" "data \<noteq> []" "length data \<le> 255"
  shows "t0_case3_from_short_case4 \<lparr>cmd_bytes = short_apdu header data (Some le), cmd_wrong_le_retry = m\<rparr>
    = Some (CommandApdu_new (short_apdu header data None))"
proof -
  have "unat (of_nat (length data) :: u8) = length data"
    using assms(3) by (simp add: unsigned_of_nat take_bit_eq_mod)
  then show ?thesis using assms
    by (auto simp: t0_case3_from_short_case4_def short_apdu_def Let_def get_at_def nth_append)
qed

lemma other_cases_unchanged:
  assumes "length header = 4" "length data \<le> 255" "data = [] \<or> le = None"
  shows "t0_case3_from_short_case4 \<lparr>cmd_bytes = short_apdu header data le, cmd_wrong_le_retry = m\<rparr> = None"
proof -
  have "unat (of_nat (length data) :: u8) = length data"
    using assms(2) by (simp add: unsigned_of_nat take_bit_eq_mod)
  then show ?thesis using assms
    by (auto simp: t0_case3_from_short_case4_def short_apdu_def Let_def get_at_def nth_append
        split: option.splits)
qed


subsection \<open>The adapter keeps the presentation contract\<close>

lemma PcscTransmitter_logged:
  "PcscTransmitter_transmit (logged pt) = logged (PcscTransmitter_transmit pt)"
  by (auto simp: PcscTransmitter_transmit_def map_errS_def logged_def fun_eq_iff split: prod.splits)

definition physical_command :: "Protocol \<Rightarrow> CommandApdu \<Rightarrow> CommandApdu" where
  "physical_command protocol apdu =
     (case (if protocol = Protocol_T0 then t0_case3_from_short_case4 apdu else None) of
        Some c \<Rightarrow> c | None \<Rightarrow> apdu)"

lemma PcscCard_transmit_outcome_cases:
  "(\<exists>s'. snd (PcscCard_transmit_outcome (unlogged begin_tx) (logged pt) protocol apdu (log, s)) = (log, s')) \<or>
   (\<exists>s'. PcscCard_transmit_outcome (unlogged begin_tx) (logged pt) protocol apdu (log, s) =
      run_t0_exchange (logged (PcscTransmitter_transmit pt)) (physical_command protocol apdu) (log, s'))"
  by (cases "begin_tx s"; cases "fst (begin_tx s)")
    (auto simp: PcscCard_transmit_outcome_def unlogged_eq PcscTransmitter_logged physical_command_def
      Let_def split: pcsc_Error.splits option.splits)

lemma physical_command_unmarked:
  "\<not> cmd_wrong_le_retry apdu \<Longrightarrow> \<not> cmd_wrong_le_retry (physical_command protocol apdu)"
  by (auto simp: physical_command_def t0_case3_from_short_case4_def Let_def
      split: option.splits if_splits)

lemma physical_command_bytes:
  "cmd_bytes (physical_command protocol apdu) \<in> {cmd_bytes apdu, butlast (cmd_bytes apdu)}"
  by (auto simp: physical_command_def t0_case3_from_short_case4_def Let_def butlast_conv_take
      split: option.splits if_splits)

lemma PcscCard_log_unmarked:
  assumes "\<not> cmd_wrong_le_retry apdu"
  obtains
    "fst (snd (PcscCard_transmit_outcome (unlogged begin_tx) (logged pt) protocol apdu (log, s))) = log"
  | chain where
    "fst (snd (PcscCard_transmit_outcome (unlogged begin_tx) (logged pt) protocol apdu (log, s)))
       = log @ cmd_bytes (physical_command protocol apdu) # chain" "get_chain chain"
  using PcscCard_transmit_outcome_cases [of begin_tx pt protocol apdu log s]
proof (elim disjE exE)
  fix s'
  assume run: "PcscCard_transmit_outcome (unlogged begin_tx) (logged pt) protocol apdu (log, s) =
      run_t0_exchange (logged (PcscTransmitter_transmit pt)) (physical_command protocol apdu) (log, s')"
  obtain chain where
    "fst (snd (run_t0_exchange (logged (PcscTransmitter_transmit pt))
       (physical_command protocol apdu) (log, s'))) = log @ cmd_bytes (physical_command protocol apdu) # chain"
    "get_chain chain"
    by (rule run_t0_exchange_log_unmarked [OF physical_command_unmarked [OF assms, of protocol]])
  then show thesis unfolding run [symmetric] by (rule that(2))
next
  fix s'
  assume "snd (PcscCard_transmit_outcome (unlogged begin_tx) (logged pt) protocol apdu (log, s)) = (log, s')"
  then have "fst (snd (PcscCard_transmit_outcome (unlogged begin_tx) (logged pt) protocol apdu (log, s))) = log"
    by simp
  then show thesis by (rule that(1))
qed

lemma get_chain_filter: "get_chain chain \<Longrightarrow> filter (\<lambda>c. \<not> is_get_response c) chain = []"
  by (auto simp: get_chain_def filter_empty_conv)

interpretation pcsc: sends_once
  "PcscCard_transmit_outcome (unlogged begin_tx) (logged pt) protocol" fst "\<lambda>c. \<not> is_get_response c"
  for begin_tx :: "('s, 'x pcsc_Error, unit) io" and pt protocol
proof unfold_locales
  fix c :: CommandApdu and s :: "bytes list \<times> 's"
  assume c: "\<not> cmd_wrong_le_retry c"
  show "\<exists>sent. fst (snd (PcscCard_transmit_outcome (unlogged begin_tx) (logged pt) protocol c s))
      = fst s @ sent \<and> length (filter (\<lambda>c. \<not> is_get_response c) sent) \<le> 1"
    by (rule PcscCard_log_unmarked [OF c, of begin_tx pt protocol "fst s" "snd s"])
      (auto simp: get_chain_filter)
qed


subsection \<open>Properties\<close>

text \<open>
  (C3) A command without the resend mark, such as every command built from raw bytes and every
  one that carries a credential, reaches the card at most once per exchange: the physical
  commands of the exchange are none, or the command itself (or, on T=0, the command less its
  trailing \<open>Le\<close>) followed by a bounded number of GET RESPONSE commands, whatever the card
  answers.
\<close>

theorem unmarked_command_sent_once:
  assumes "\<not> cmd_wrong_le_retry apdu"
  shows "fst (snd (PcscCard_transmit_outcome (unlogged begin_tx) (logged pt) protocol apdu ([], s))) = [] \<or>
    (\<exists>first chain.
       fst (snd (PcscCard_transmit_outcome (unlogged begin_tx) (logged pt) protocol apdu ([], s)))
         = first # chain \<and>
       (first = cmd_bytes apdu \<or> protocol = Protocol_T0 \<and> first = butlast (cmd_bytes apdu)) \<and>
       (\<forall>c \<in> set chain. length c = 5 \<and> take 4 c = [0x00, 0xC0, 0x00, 0x00]) \<and>
       length chain \<le> 65537)"
proof -
  have "cmd_bytes (physical_command protocol apdu) = cmd_bytes apdu \<or>
      protocol = Protocol_T0 \<and> cmd_bytes (physical_command protocol apdu) = butlast (cmd_bytes apdu)"
    using physical_command_bytes [of protocol apdu] by (cases "protocol = Protocol_T0") (auto simp: physical_command_def)
  then show ?thesis
    by (rule_tac PcscCard_log_unmarked [OF assms, of begin_tx pt protocol "[]" s])
      (auto simp: get_chain_def is_get_response_def EXTENDED_RESPONSE_DATA_MAX_BYTES_def)
qed


theorem unmarked_command_sent_once_witness:
  "fst (snd (PcscCard_transmit_outcome (unlogged (ret ()))
      (logged (scripted (pcsc_NoSmartcard :: unit pcsc_Error))) Protocol_T0
      (CommandApdu_new [0x00, 0x20, 0x00, 0x81, 0x02, 0x31, 0x32])
      ([], [[0x61, 0x01], [0x07, 0x90, 0x00]])))
   = [[0x00, 0x20, 0x00, 0x81, 0x02, 0x31, 0x32], [0x00, 0xC0, 0x00, 0x00, 0x01]] \<and>
   (\<exists>first chain.
      fst (snd (PcscCard_transmit_outcome (unlogged (ret ()))
         (logged (scripted (pcsc_NoSmartcard :: unit pcsc_Error))) Protocol_T0
         (CommandApdu_new [0x00, 0x20, 0x00, 0x81, 0x02, 0x31, 0x32])
         ([], [[0x61, 0x01], [0x07, 0x90, 0x00]]))) = first # chain \<and> length chain \<le> 65537)"
  (is "?log = ?sent \<and> _")
proof -
  have log: "?log = ?sent"
    by (simp add: PcscCard_transmit_outcome_def unlogged_eq t0_case3_from_short_case4_def Let_def
        get_at_def PcscTransmitter_logged run_t0_exchange.simps logged_eq
        PcscTransmitter_transmit_def map_errS_def split_last_chunk2_def SW1_WRONG_LE_def
        SW1_BYTES_AVAILABLE_def t0_chain.simps GetResponse_into_apdu_def GetResponse_new_def
        EXTENDED_RESPONSE_DATA_MAX_BYTES_def)
  moreover have "\<exists>first chain. ?log = first # chain \<and> length chain \<le> 65537"
    using unmarked_command_sent_once [of "CommandApdu_new [0x00, 0x20, 0x00, 0x81, 0x02, 0x31, 0x32]"
      "ret ()" "scripted (pcsc_NoSmartcard :: unit pcsc_Error)" Protocol_T0
      "[[0x61, 0x01], [0x07, 0x90, 0x00]]"] log by auto
  ultimately show ?thesis by blast
qed

text \<open>
  A response the card delivers in links is handed up whole: whatever the first body and the
  announced lengths, as long as every later link makes progress and the total stays within
  64 KiB, the exchange returns the concatenation of all bodies in order with the status word of
  the last one, and consumes exactly the card's replies.
\<close>

theorem get_response_chain_assembles:
  assumes "\<forall>(c, l) \<in> set links. c \<noteq> []" and "sw1 \<noteq> 0x61"
    and "length first + length (concat (map fst links)) + length b \<le> 65536"
  shows "run_t0_exchange (scripted e) apdu
      ((first @ [0x61, l0]) # linked_replies links b sw1 sw2 @ rest) =
    (Inr (TransportOutcome_Response
       \<lparr>resp_body = first @ concat (map fst links) @ b, resp_sw1 = sw1, resp_sw2 = sw2\<rparr>), rest)"
  using t0_chain_assembles [OF assms, of e l0 sw2 rest]
  by (simp add: run_t0_exchange.simps [of _ apdu] SW1_WRONG_LE_def SW1_BYTES_AVAILABLE_def)

theorem get_response_chain_assembles_witness:
  "run_t0_exchange (scripted (TransmitBreak_Outcome TransportOutcome_NoCard :: unit TransmitBreak))
     (CommandApdu_new [0x00, 0xC0, 0x00, 0x00, 0x00])
     (([] @ [0x61, 0x02]) # linked_replies [([0x0A, 0x0B], 0x01)] [0x0C] 0x90 0x00 @ []) =
   (Inr (TransportOutcome_Response
       \<lparr>resp_body = [0x0A, 0x0B, 0x0C], resp_sw1 = 0x90, resp_sw2 = 0x00\<rparr>), [])"
  using get_response_chain_assembles [of "[([0x0A, 0x0B], 0x01)]" "0x90" "[]" "[0x0C]"
      "TransmitBreak_Outcome TransportOutcome_NoCard :: unit TransmitBreak"
      "CommandApdu_new [0x00, 0xC0, 0x00, 0x00, 0x00]" "0x02" "0x00" "[]"] by simp

text \<open>
  On T=0 exactly the short case-4 commands lose their trailing \<open>Le\<close>: a command with data
  and \<open>Le\<close> is sent as the case-3 command with the same header and data, and commands of the
  other three cases are sent unchanged.
\<close>

theorem t0_case4_sent_as_case3:
  assumes "length header = 4" "length data \<le> 255"
  shows "cmd_bytes (physical_command Protocol_T0 (CommandApdu_new (short_apdu header data le))) =
    short_apdu header data (if data = [] then le else None)"
  using case4_becomes_case3 [OF assms(1) _ assms(2)] other_cases_unchanged [OF assms]
  by (cases le; cases "data = []") (auto simp: physical_command_def CommandApdu_new_def)

theorem t0_case4_sent_as_case3_witness:
  "cmd_bytes (physical_command Protocol_T0
     (CommandApdu_new (short_apdu [0x00, 0xA4, 0x04, 0x00] [0xA0, 0x01] (Some 0x00))))
   = [0x00, 0xA4, 0x04, 0x00, 0x02, 0xA0, 0x01]"
  using t0_case4_sent_as_case3 [of "[0x00, 0xA4, 0x04, 0x00]" "[0xA0, 0x01]" "Some 0x00"]
  by (simp add: short_apdu_def)

end
