(* ===== verification/Secure_Messaging.thy ===== *)
theory Secure_Messaging
  imports Ber Sm_Crypto T0_Exchange
begin

text \<open>
  The PACE-protected channel (\<open>secure_messaging.rs\<close>): padding, short-form decoding, wrapping of
  commands, verification and decryption of responses, and the transport that composes them.
  The cryptographic crates are the parameter \<open>prims\<close>, the inner transport the parameter \<open>tx\<close>.
\<close>

subsection \<open>Constants and helpers\<close>

definition TAG_DO87 :: u8 where "TAG_DO87 = 0x87"
definition TAG_DO97 :: u8 where "TAG_DO97 = 0x97"
definition TAG_DO99 :: u8 where "TAG_DO99 = 0x99"
definition TAG_DO8E :: u8 where "TAG_DO8E = 0x8E"
definition LE_AS_MUCH_AS_CARD_HAS :: u8 where "LE_AS_MUCH_AS_CARD_HAS = 0x00"
definition DO87_PADDING_INDICATOR :: u8 where "DO87_PADDING_INDICATOR = 0x01"
definition ISO7816_PAD_MARKER :: u8 where "ISO7816_PAD_MARKER = 0x80"
definition ISO7816_PAD_FILLER :: u8 where "ISO7816_PAD_FILLER = 0x00"

lemmas sm_consts = TAG_DO87_def TAG_DO97_def TAG_DO99_def TAG_DO8E_def LE_AS_MUCH_AS_CARD_HAS_def
  DO87_PADDING_INDICATOR_def ISO7816_PAD_MARKER_def ISO7816_PAD_FILLER_def AES_BLOCK_def

text \<open>\<open>while !out.len().is_multiple_of(AES_BLOCK) { out.push(FILLER) }\<close>.\<close>

function pad_fill :: "bytes \<Rightarrow> bytes" where
  "pad_fill out =
     (if length out mod AES_BLOCK = 0 then out else pad_fill (out @ [ISO7816_PAD_FILLER]))"
  by pat_completeness auto
termination
proof (relation "measure (\<lambda>out. (16 - length out mod 16) mod 16)")
  fix out :: bytes
  assume "length out mod AES_BLOCK \<noteq> 0"
  then show "(out @ [ISO7816_PAD_FILLER], out) \<in> measure (\<lambda>out. (16 - length out mod 16) mod 16)"
    using mod_less_divisor [of 16 "length out"] by (simp add: AES_BLOCK_def mod_Suc) linarith
qed simp

declare pad_fill.simps [simp del]

definition iso7816_4_pad :: "bytes \<Rightarrow> bytes" where
  "iso7816_4_pad data = pad_fill (data @ [ISO7816_PAD_MARKER])"

definition iso7816_4_unpad :: "bytes \<Rightarrow> bytes" where
  "iso7816_4_unpad data =
     (let trailing_zeros = length (takeWhile (\<lambda>b. b = ISO7816_PAD_FILLER) (rev data));
          marker_index_from_end = trailing_zeros + 1
      in if length data < marker_index_from_end then data
         else let marker_pos = length data - marker_index_from_end
              in case get_at data marker_pos of
                   Some b \<Rightarrow> if b = ISO7816_PAD_MARKER then take marker_pos data else data
                 | None \<Rightarrow> data)"

definition decode_short_apdu :: "bytes \<Rightarrow> (bytes \<times> u8 option) option" where
  "decode_short_apdu apdu =
     (if length apdu = 4 then Some ([], None)
      else if length apdu = 5 then map_option (\<lambda>le. ([], Some le)) (get_at apdu 4)
      else case get_at apdu 4 of
             None \<Rightarrow> None
           | Some lc_byte \<Rightarrow>
               (let lc = unat lc_byte; body_start = 5; body_end = body_start + lc
                in case get_range apdu body_start body_end of
                     None \<Rightarrow> None
                   | Some data \<Rightarrow>
                       if length apdu = body_end then Some (data, None)
                       else if length apdu = body_end + 1
                       then map_option (\<lambda>le. (data, Some le)) (get_at apdu body_end)
                       else None))"

text \<open>
  \<open>ber::tlv\<close> as its callers here see it. The encoder panics on values of 4 GiB and more; every
  value encoded here comes from a short command or from one response, both far smaller.
\<close>

definition tlv_bytes :: "u8 \<Rightarrow> bytes \<Rightarrow> bytes" where
  "tlv_bytes tag v = (case tlv tag v of Some enc \<Rightarrow> enc | None \<Rightarrow> [])"


subsection \<open>The channel\<close>

record PaceSession =
  pace_k_enc :: Aes256Key
  pace_k_mac :: Aes256Key
  pace_ssc :: Ssc

record 't SmTransport =
  sm_inner :: 't
  sm_k_enc :: Aes256Key
  sm_k_mac :: Aes256Key
  sm_ssc :: Ssc

datatype 'e SmError =
    SmError_Transport 'e
  | SmError_Malformed string
  | SmError_MacMismatch
  | SmError_CommandTooLong

definition SmError_kind :: "('e \<Rightarrow> TransportErrorKind) \<Rightarrow> 'e SmError \<Rightarrow> TransportErrorKind" where
  "SmError_kind error_kind e =
     (case e of
        SmError_Transport err \<Rightarrow> error_kind err
      | SmError_Malformed _ \<Rightarrow> TransportErrorKind_ProtocolDesync
      | SmError_MacMismatch \<Rightarrow> TransportErrorKind_ProtocolDesync
      | SmError_CommandTooLong \<Rightarrow> TransportErrorKind_Backend)"

definition SmTransport_new :: "'t \<Rightarrow> PaceSession \<Rightarrow> 't SmTransport" where
  "SmTransport_new inner session =
     \<lparr>sm_inner = inner, sm_k_enc = pace_k_enc session, sm_k_mac = pace_k_mac session,
      sm_ssc = pace_ssc session\<rparr>"

definition SmTransport_into_inner :: "'t SmTransport \<Rightarrow> 't" where
  "SmTransport_into_inner sm = sm_inner sm"

definition SmTransport_replace_session :: "PaceSession \<Rightarrow> 't SmTransport \<Rightarrow> 't SmTransport" where
  "SmTransport_replace_session session sm =
     sm\<lparr>sm_k_enc := pace_k_enc session, sm_k_mac := pace_k_mac session, sm_ssc := pace_ssc session\<rparr>"

definition SmTransport_rekey :: "Aes256Key \<Rightarrow> Aes256Key \<Rightarrow> 't SmTransport \<Rightarrow> 't SmTransport" where
  "SmTransport_rekey k_enc k_mac sm =
     sm\<lparr>sm_k_enc := k_enc, sm_k_mac := k_mac, sm_ssc := Ssc_INITIAL\<rparr>"

definition increment_ssc :: "'t SmTransport \<Rightarrow> 't SmTransport" where
  "increment_ssc sm = sm\<lparr>sm_ssc := Ssc_increment (sm_ssc sm)\<rparr>"


subsection \<open>Wrapping a command\<close>

definition sm_iv :: "aes_primitives \<Rightarrow> 't SmTransport \<Rightarrow> bytes" where
  "sm_iv prims sm =
     aes256_ecb_encrypt_block prims (Aes256Key_as_bytes (sm_k_enc sm)) (Ssc_as_bytes (sm_ssc sm))"

definition sm_do87 :: "aes_primitives \<Rightarrow> 't SmTransport \<Rightarrow> bytes \<Rightarrow> 'e SmError + bytes" where
  "sm_do87 prims sm data =
     (if data = [] then Inr []
      else let padded = iso7816_4_pad data; iv = sm_iv prims sm
           in case aes256_cbc_encrypt_no_padding prims (Aes256Key_as_bytes (sm_k_enc sm)) iv padded of
                Inl _ \<Rightarrow> Inl (SmError_Malformed ''SM wrap: padded plaintext not block-aligned'')
              | Inr cipher \<Rightarrow> Inr (tlv_bytes TAG_DO87 (0x01 # cipher)))"

definition sm_do97 :: "u8 option \<Rightarrow> bytes" where
  "sm_do97 le = (case le of None \<Rightarrow> [] | Some le_byte \<Rightarrow> tlv_bytes TAG_DO97 [le_byte])"

definition SmTransport_wrap ::
  "aes_primitives \<Rightarrow> bytes \<Rightarrow> ('t SmTransport, 'e SmError, bytes) io" where
  "SmTransport_wrap prims plain sm =
     (case get_range plain 0 4 of
        None \<Rightarrow> (Inl (SmError_Malformed ''APDU shorter than 4-byte header''), sm)
      | Some header \<Rightarrow>
          (let cla = header ! 0 OR 0x0C; ins = header ! 1; p1 = header ! 2; p2 = header ! 3
           in case decode_short_apdu plain of
                None \<Rightarrow> (Inl (SmError_Malformed ''APDU does not match a short-form case''), sm)
              | Some (data, le) \<Rightarrow>
                  (let sm = increment_ssc sm
                   in case sm_do87 prims sm data of
                        Inl e \<Rightarrow> (Inl e, sm)
                      | Inr do87 \<Rightarrow>
                          (let do97 = sm_do97 le;
                               mac_input = Ssc_as_bytes (sm_ssc sm) @ iso7816_4_pad [cla, ins, p1, p2]
                                             @ do87 @ do97;
                               tag = aes256_cmac_truncated prims (Aes256Key_as_bytes (sm_k_mac sm))
                                       (iso7816_4_pad mac_input);
                               do_mac = tlv_bytes TAG_DO8E tag;
                               body_len = length do87 + length do97 + length do_mac
                           in if body_len > 255 then (Inl SmError_CommandTooLong, sm)
                              else (Inr ([cla, ins, p1, p2, u8_saturating body_len]
                                      @ do87 @ do97 @ do_mac @ [LE_AS_MUCH_AS_CARD_HAS]), sm)))))"


subsection \<open>Unwrapping a response\<close>

record sm_objects =
  do87_value :: "bytes option"
  do99_value :: "bytes option"
  do_mac_value :: "bytes option"

definition sm_capture :: "BerTlvAny \<Rightarrow> sm_objects \<Rightarrow> sm_objects" where
  "sm_capture t objs =
     (if tlv_tag t = ucast TAG_DO87 then objs\<lparr>do87_value := Some (tlv_value t)\<rparr>
      else if tlv_tag t = ucast TAG_DO99 then objs\<lparr>do99_value := Some (tlv_value t)\<rparr>
      else if tlv_tag t = ucast TAG_DO8E then objs\<lparr>do_mac_value := Some (tlv_value t)\<rparr>
      else objs)"

fun sm_collect :: "(BerError + BerTlvAny) list \<Rightarrow> sm_objects \<Rightarrow> 'e SmError + sm_objects" where
  "sm_collect [] objs = Inr objs"
| "sm_collect (Inl _ # _) objs = Inl (SmError_Malformed ''BER parse failed'')"
| "sm_collect (Inr t # items) objs = sm_collect items (sm_capture t objs)"

definition sm_response_mac :: "aes_primitives \<Rightarrow> 't SmTransport \<Rightarrow> bytes option \<Rightarrow> bytes \<Rightarrow> bytes" where
  "sm_response_mac prims sm do87 do99 =
     (let mac_input = Ssc_as_bytes (sm_ssc sm)
            @ (case do87 of Some v \<Rightarrow> tlv_bytes TAG_DO87 v | None \<Rightarrow> [])
            @ tlv_bytes TAG_DO99 do99
      in aes256_cmac_truncated prims (Aes256Key_as_bytes (sm_k_mac sm)) (iso7816_4_pad mac_input))"

definition sm_decrypt_do87 :: "aes_primitives \<Rightarrow> 't SmTransport \<Rightarrow> bytes \<Rightarrow> 'e SmError + bytes" where
  "sm_decrypt_do87 prims sm v =
     (case v of
        [] \<Rightarrow> Inl (SmError_Malformed ''DO87 empty'')
      | indicator # cipher_bytes \<Rightarrow>
          if indicator \<noteq> DO87_PADDING_INDICATOR
          then Inl (SmError_Malformed ''DO87 missing 0x01 indicator'')
          else if length cipher_bytes mod AES_BLOCK \<noteq> 0
          then Inl (SmError_Malformed ''DO87 cipher not whole blocks'')
          else case aes256_cbc_decrypt_no_padding prims (Aes256Key_as_bytes (sm_k_enc sm))
                      (sm_iv prims sm) cipher_bytes of
                 Inl _ \<Rightarrow> Inl (SmError_Malformed ''DO87 cipher not whole blocks'')
               | Inr plain \<Rightarrow> Inr (iso7816_4_unpad plain))"

definition sm_open :: "aes_primitives \<Rightarrow> 't SmTransport \<Rightarrow> sm_objects \<Rightarrow> 'e SmError + (bytes \<times> u16)" where
  "sm_open prims sm objs =
     bindR (ok_or (SmError_Malformed ''no DO99'') (do99_value objs)) (\<lambda>do99.
     bindR (ok_or (SmError_Malformed ''no DO8E'') (do_mac_value objs)) (\<lambda>do_mac.
       if length do99 \<noteq> 2 then Inl (SmError_Malformed ''DO99 not 2 bytes'')
       else if length do_mac \<noteq> 8 then Inl (SmError_Malformed ''DO8E not 8 bytes'')
       else if sm_response_mac prims sm (do87_value objs) do99 \<noteq> do_mac then Inl SmError_MacMismatch
       else bindR (case do87_value objs of Some v \<Rightarrow> sm_decrypt_do87 prims sm v | None \<Rightarrow> Inr [])
              (\<lambda>body. Inr (body, u16_from_be_bytes (do99 ! 0) (do99 ! 1)))))"

definition SmTransport_unwrap ::
  "aes_primitives \<Rightarrow> bytes \<Rightarrow> ('t SmTransport, 'e SmError, bytes \<times> u16) io" where
  "SmTransport_unwrap prims response sm =
     (let sm = increment_ssc sm
      in (bindR (sm_collect (ber_items response)
                  \<lparr>do87_value = None, do99_value = None, do_mac_value = None\<rparr>)
            (sm_open prims sm), sm))"


subsection \<open>The transport\<close>

definition sm_inner_transmit ::
  "('t, 'e) transport \<Rightarrow> CommandApdu \<Rightarrow> ('t SmTransport, 'e SmError, TransportOutcome) io" where
  "sm_inner_transmit tx wrapped sm =
     (case tx wrapped (sm_inner sm) of
        (Inl e, t) \<Rightarrow> (Inl (SmError_Transport e), sm\<lparr>sm_inner := t\<rparr>)
      | (Inr out, t) \<Rightarrow> (Inr out, sm\<lparr>sm_inner := t\<rparr>))"

definition SmTransport_transmit_outcome ::
  "aes_primitives \<Rightarrow> ('t, 'e) transport \<Rightarrow> ('t SmTransport, 'e SmError) transport" where
  "SmTransport_transmit_outcome prims tx apdu =
     bindS (SmTransport_wrap prims (CommandApdu_as_bytes apdu)) (\<lambda>wrapped.
     bindS (sm_inner_transmit tx (CommandApdu_new wrapped)) (\<lambda>outcome.
       case outcome of
         TransportOutcome_Response raw \<Rightarrow>
           if resp_body raw = [] then ret (TransportOutcome_Response raw)
           else bindS (SmTransport_unwrap prims (resp_body raw)) (\<lambda>(body, sw).
             ret (TransportOutcome_Response
               \<lparr>resp_body = body, resp_sw1 = u16_to_be_bytes sw ! 0,
                resp_sw2 = u16_to_be_bytes sw ! 1\<rparr>))
       | other \<Rightarrow> ret other))"


section \<open>Padding and short forms\<close>

lemma pad_fill_aligned: "length out mod 16 = 0 \<Longrightarrow> pad_fill out = out"
  by (simp add: pad_fill.simps AES_BLOCK_def)

lemma pad_fill_shape:
  "\<exists>k < 16. pad_fill out = out @ replicate k 0 \<and> length (pad_fill out) mod 16 = 0"
proof (induction out rule: pad_fill.induct)
  case (1 out)
  show ?case
  proof (cases "length out mod 16 = 0")
    case True
    then show ?thesis by (intro exI [of _ 0]) (simp add: pad_fill_aligned)
  next
    case False
    then have unf: "pad_fill out = pad_fill (out @ [0])"
      by (subst pad_fill.simps) (simp add: sm_consts)
    obtain k where k: "k < 16" "pad_fill (out @ [0]) = (out @ [0]) @ replicate k 0"
      "length (pad_fill (out @ [0])) mod 16 = 0"
      using 1 False by (auto simp: sm_consts)
    have "Suc k < 16"
    proof (rule ccontr)
      assume "\<not> Suc k < 16"
      then have "k = 15" using k(1) by simp
      then have "(length out + 16) mod 16 = 0" using k(2,3) by simp
      then show False using False by simp
    qed
    then show ?thesis using k unf by (intro exI [of _ "Suc k"]) simp
  qed
qed

lemma iso7816_4_pad_shape:
  obtains k where "k < 16" "iso7816_4_pad data = data @ 0x80 # replicate k 0"
    "length (iso7816_4_pad data) mod 16 = 0"
  using pad_fill_shape [of "data @ [ISO7816_PAD_MARKER]"]
  by (auto simp: iso7816_4_pad_def sm_consts)

lemma length_iso7816_4_pad: "length (iso7816_4_pad data) = 16 * (length data div 16 + 1)"
proof -
  obtain k where k: "k < 16" "length (iso7816_4_pad data) = length data + 1 + k"
    "length (iso7816_4_pad data) mod 16 = 0"
    by (rule iso7816_4_pad_shape [of data]) simp
  then obtain m where m: "length data + 1 + k = 16 * m" by (metis mod_0_imp_dvd dvdE)
  then have "length data div 16 = m - 1" using k(1) by (intro div_nat_eqI) simp_all
  moreover have "0 < m" using m by (cases m) simp_all
  ultimately show ?thesis using k(2) m by simp
qed

lemma pad_aligned [simp]: "length (iso7816_4_pad data) mod AES_BLOCK = 0"
  by (simp add: length_iso7816_4_pad AES_BLOCK_def)

lemma takeWhile_replicate_stop:
  "\<not> P y \<Longrightarrow> P x \<Longrightarrow> takeWhile P (replicate k x @ y # zs) = replicate k x"
  by (induction k) auto

lemma unpad_pad [simp]: "iso7816_4_unpad (iso7816_4_pad data) = data"
proof (rule iso7816_4_pad_shape [of data])
  fix k assume p: "iso7816_4_pad data = data @ 0x80 # replicate k 0"
  have "takeWhile (\<lambda>b. b = 0) (rev (data @ 0x80 # replicate k (0::u8))) = replicate k 0"
    by (simp add: takeWhile_replicate_stop)
  then show ?thesis unfolding p
    by (simp add: iso7816_4_unpad_def sm_consts get_at_def nth_append)
qed

lemma pad_injective: "iso7816_4_pad a = iso7816_4_pad b \<longleftrightarrow> a = b"
  by (metis unpad_pad)

lemma decode_short_apdu_short:
  assumes "length header = 4" "length data \<le> 255"
  shows "decode_short_apdu (short_apdu header data le) = Some (data, le)"
proof -
  have "unat (of_nat (length data) :: u8) = length data"
    using assms(2) by (rule unat_of_nat_u8)
  then show ?thesis using assms
    by (cases le) (auto simp: decode_short_apdu_def short_apdu_def get_at_def nth_append get_range_def
        Let_def)
qed

text \<open>Secure messaging can therefore carry every command a builder emits.\<close>

context apdu_builder
begin

lemma decodes: "wf c \<Longrightarrow> decode_short_apdu (cmd_bytes (into_apdu c)) = Some (data c, le c)"
  by (simp add: serialises header_length data_length decode_short_apdu_short)

end


section \<open>Protected commands\<close>

lemma tlv_bytes_Some: "length v < 2 ^ 32 \<Longrightarrow> tlv t v = Some (tlv_bytes t v)"
  using length_octets_Some [of "length v"] by (auto simp: tlv_bytes_def tlv_octets)

lemma length_tlv_bytes_short: "length v < 128 \<Longrightarrow> length (tlv_bytes t v) = 2 + length v"
  by (simp add: tlv_bytes_def tlv_octets length_octets_short)

lemma length_tlv_bytes_81:
  "128 \<le> length v \<Longrightarrow> length v \<le> 255 \<Longrightarrow> length (tlv_bytes t v) = 3 + length v"
  by (simp add: tlv_bytes_def tlv_octets length_octets_81)

lemma length_tlv_bytes_ge: "length v < 2 ^ 32 \<Longrightarrow> length v \<le> length (tlv_bytes t v)"
  using length_octets_Some [of "length v"] by (auto simp: tlv_bytes_def tlv_octets)

lemma ber_items_tlv_bytes:
  assumes "length v < 2 ^ 32" "t AND 0x1F \<noteq> 0x1F"
  shows "ber_items (tlv_bytes t v @ rest)
    = Inr \<lparr>tlv_tag = ucast t, tlv_value = v, tlv_size = length (tlv_bytes t v)\<rparr> # ber_items rest"
  using ber_items_parse [OF parse_tlv_append [OF tlv_bytes_Some [OF assms(1), of t] assms(2), of rest]]
  by simp

lemma sm_tags [simp]:
  "TAG_DO87 AND 0x1F \<noteq> 0x1F" "TAG_DO97 AND 0x1F \<noteq> 0x1F"
  "TAG_DO99 AND 0x1F \<noteq> 0x1F" "TAG_DO8E AND 0x1F \<noteq> 0x1F"
  by (simp_all add: sm_consts)

text \<open>The size of the encrypted data object, and the largest data field that still fits.\<close>

definition do87_size :: "nat \<Rightarrow> nat" where
  "do87_size n = (if n = 0 then 0
     else let m = 1 + 16 * (n div 16 + 1) in if m < 128 then m + 2 else m + 3)"

definition sm_capacity :: "u8 option \<Rightarrow> nat" where
  "sm_capacity le = (case le of None \<Rightarrow> 239 | Some _ \<Rightarrow> 223)"

lemma do87_fits_iff:
  "n \<le> 239 \<Longrightarrow> do87_size n + (if le = None then 0 else 3) + 10 \<le> 255 \<longleftrightarrow> n \<le> sm_capacity le"
proof -
  assume "n \<le> 239"
  then have "n div 16 \<le> 14" by simp
  moreover have "n div 16 \<le> 13 \<longleftrightarrow> n \<le> 223" by auto
  ultimately show ?thesis using \<open>n \<le> 239\<close>
    by (auto simp: do87_size_def sm_capacity_def Let_def split: option.splits)
qed

lemma sm_do87_cipher:
  assumes "data \<noteq> []"
  shows "sm_do87 prims sm data = Inr (tlv_bytes TAG_DO87
    (0x01 # prim_cbc_encrypt prims (Aes256Key_as_bytes (sm_k_enc sm)) (sm_iv prims sm) (iso7816_4_pad data)))"
  using assms by (simp add: sm_do87_def aes256_cbc_encrypt_no_padding_def)

lemma length_sm_cipher:
  assumes "cbc_inverts prims"
  shows "length (prim_cbc_encrypt prims k iv (iso7816_4_pad data)) = 16 * (length data div 16 + 1)"
  using cbc_invertsD(1) [OF assms pad_aligned] by (simp add: length_iso7816_4_pad)

lemma sm_do87_total: "\<exists>do87. sm_do87 prims sm data = Inr do87"
  by (cases "data = []") (auto simp: sm_do87_cipher, simp add: sm_do87_def)

lemma sm_do87_length:
  assumes "cbc_inverts prims" "sm_do87 prims sm data = Inr do87"
  shows "length data \<le> 239 \<Longrightarrow> length do87 = do87_size (length data)"
    and "239 < length data \<Longrightarrow> length data \<le> 255 \<Longrightarrow> 255 < length do87"
proof -
  let ?c = "prim_cbc_encrypt prims (Aes256Key_as_bytes (sm_k_enc sm)) (sm_iv prims sm) (iso7816_4_pad data)"
  have len: "length (0x01 # ?c) = 1 + 16 * (length data div 16 + 1)"
    by (simp add: length_sm_cipher [OF assms(1)])
  show "length do87 = do87_size (length data)" if "length data \<le> 239"
  proof (cases "data = []")
    case True
    then show ?thesis using assms(2) by (simp add: sm_do87_def do87_size_def)
  next
    case False
    have "length data div 16 \<le> 14" using that by simp
    then have "length (0x01 # ?c) \<le> 255" unfolding len by simp
    then show ?thesis
      using False assms(2) len length_tlv_bytes_short [of "0x01 # ?c"] length_tlv_bytes_81 [of "0x01 # ?c"]
      by (auto simp: sm_do87_cipher do87_size_def Let_def not_less)
  qed
  show "255 < length do87" if "239 < length data" "length data \<le> 255"
  proof -
    have "length data div 16 = 15" using that by (intro div_nat_eqI) simp_all
    then have "length (0x01 # ?c) = 257" unfolding len by simp
    moreover have "data \<noteq> []" using that by auto
    ultimately show ?thesis
      using assms(2) length_tlv_bytes_ge [of "0x01 # ?c" TAG_DO87] by (auto simp: sm_do87_cipher)
  qed
qed

text \<open>The body of a protected command.\<close>

definition sm_command_mac :: "aes_primitives \<Rightarrow> bytes \<Rightarrow> Ssc \<Rightarrow> bytes \<Rightarrow> bytes \<Rightarrow> bytes" where
  "sm_command_mac prims k_mac ssc header objects =
     aes256_cmac_truncated prims k_mac
       (iso7816_4_pad (Ssc_as_bytes ssc @ iso7816_4_pad header @ objects))"

definition sm_header :: "bytes \<Rightarrow> bytes" where
  "sm_header header = [header ! 0 OR 0x0C, header ! 1, header ! 2, header ! 3]"

lemma length_sm_header [simp]: "length (sm_header h) = 4"
  by (simp add: sm_header_def)

lemma get_range_header:
  "length header = 4 \<Longrightarrow> get_range (short_apdu header data le) 0 4 = Some header"
  by (simp add: get_range_def short_apdu_def)

lemma length_sm_do97: "length (sm_do97 le) = (if le = None then 0 else 3)"
  by (cases le) (simp_all add: sm_do97_def length_tlv_bytes_short)

lemma wrap_eq:
  assumes "length header = 4" "length data \<le> 255" "cmac_is_block prims"
    and "sm_do87 prims (increment_ssc sm) data = (Inr do87 :: 'e SmError + bytes)"
  shows "(SmTransport_wrap prims (short_apdu header data le) sm :: ('e SmError + bytes) \<times> 't SmTransport) =
    (let objects = do87 @ sm_do97 le;
         do_mac = tlv_bytes TAG_DO8E (sm_command_mac prims (Aes256Key_as_bytes (sm_k_mac sm))
                    (Ssc_increment (sm_ssc sm)) (sm_header header) objects)
     in if length do87 + length (sm_do97 le) + 10 > 255
        then (Inl SmError_CommandTooLong, increment_ssc sm)
        else (Inr (short_apdu (sm_header header) (objects @ do_mac) (Some 0x00)), increment_ssc sm))"
proof -
  have ten: "length (tlv_bytes TAG_DO8E (sm_command_mac prims k ssc h obs)) = 10" for k ssc h obs
    using assms(3) by (simp add: sm_command_mac_def length_tlv_bytes_short)
  have out: "short_apdu (sm_header header) (objects @ m) (Some 0x00) =
      sm_header header @ u8_saturating (length objects + length m) # objects @ m @ [0x00]"
    if "length m = 10" "length objects + length m \<le> 255" for objects m
    using that by (auto simp: short_apdu_def)
  have "(SmTransport_wrap prims (short_apdu header data le) sm :: ('e SmError + bytes) \<times> 't SmTransport) =
    (let do_mac = tlv_bytes TAG_DO8E (sm_command_mac prims (Aes256Key_as_bytes (sm_k_mac sm))
           (Ssc_increment (sm_ssc sm)) (sm_header header) (do87 @ sm_do97 le));
         body_len = length do87 + length (sm_do97 le) + length do_mac
     in if body_len > 255 then (Inl SmError_CommandTooLong, increment_ssc sm)
        else (Inr (sm_header header @ u8_saturating body_len # (do87 @ sm_do97 le) @ do_mac @ [0x00]),
              increment_ssc sm))"
    using assms(4)
    by (simp add: SmTransport_wrap_def get_range_header [OF assms(1)]
        decode_short_apdu_short [OF assms(1,2)] Let_def sm_header_def sm_command_mac_def
        LE_AS_MUCH_AS_CARD_HAS_def) (simp add: increment_ssc_def sm_header_def)
  then show ?thesis by (simp add: Let_def ten out del: append_assoc)
qed


section \<open>The other end of the channel\<close>

text \<open>
  A conforming card, as the protocol describes it: it checks the command MAC under its own
  counter, decrypts the data field, runs the plain command, and protects the answer under the
  next counter value. A command that fails the check is refused with a bare \<open>6988\<close>.
\<close>

record 'c sm_card =
  card_app :: 'c
  card_k_enc :: bytes
  card_k_mac :: bytes
  card_ssc :: Ssc

definition lookup_do :: "u8 \<Rightarrow> (BerError + BerTlvAny) list \<Rightarrow> bytes option" where
  "lookup_do t items =
     find_map (\<lambda>i. case i of Inl _ \<Rightarrow> None
                | Inr x \<Rightarrow> if tlv_tag x = ucast t then Some (tlv_value x) else None) items"

definition sm_card_open :: "aes_primitives \<Rightarrow> 'c sm_card \<Rightarrow> bytes \<Rightarrow> (bytes \<times> bytes \<times> u8 option) option" where
  "sm_card_open prims c apdu =
     (case decode_short_apdu apdu of
        None \<Rightarrow> None
      | Some (body, _) \<Rightarrow>
          (let header = take 4 apdu; items = ber_items body;
               objects = take (length body - 10) body;
               iv = prim_block_encrypt prims (card_k_enc c) (Ssc_as_bytes (card_ssc c))
           in if lookup_do TAG_DO8E items \<noteq>
                   Some (sm_command_mac prims (card_k_mac c) (card_ssc c) header objects)
              then None
              else Some (header,
                     (case lookup_do TAG_DO87 items of
                        None \<Rightarrow> []
                      | Some v \<Rightarrow> iso7816_4_unpad (prim_cbc_decrypt prims (card_k_enc c) iv (tl v))),
                     map_option hd (lookup_do TAG_DO97 items))))"

definition sm_card_protect :: "aes_primitives \<Rightarrow> 'c sm_card \<Rightarrow> bytes \<Rightarrow> u8 \<Rightarrow> u8 \<Rightarrow> bytes" where
  "sm_card_protect prims c body sw1 sw2 =
     (let iv = prim_block_encrypt prims (card_k_enc c) (Ssc_as_bytes (card_ssc c));
          do87 = (if body = [] then []
                  else tlv_bytes TAG_DO87 (0x01 # prim_cbc_encrypt prims (card_k_enc c) iv (iso7816_4_pad body)));
          do99 = tlv_bytes TAG_DO99 [sw1, sw2];
          tag = aes256_cmac_truncated prims (card_k_mac c)
                  (iso7816_4_pad (Ssc_as_bytes (card_ssc c) @ do87 @ do99))
      in do87 @ do99 @ tlv_bytes TAG_DO8E tag)"

definition sm_card_bump :: "'c sm_card \<Rightarrow> 'c sm_card" where
  "sm_card_bump c = c\<lparr>card_ssc := Ssc_increment (card_ssc c)\<rparr>"

type_synonym 'c plain_card = "bytes \<Rightarrow> bytes \<Rightarrow> u8 option \<Rightarrow> 'c \<Rightarrow> (bytes \<times> u8 \<times> u8) \<times> 'c"

definition sm_card_transport ::
  "aes_primitives \<Rightarrow> 'c plain_card \<Rightarrow> ('c sm_card, 'e) transport" where
  "sm_card_transport prims app cmd c =
     (let c1 = sm_card_bump c
      in case sm_card_open prims c1 (cmd_bytes cmd) of
           None \<Rightarrow> (Inr (TransportOutcome_Response \<lparr>resp_body = [], resp_sw1 = 0x69, resp_sw2 = 0x88\<rparr>), c1)
         | Some (header, data, le) \<Rightarrow>
             (case app header data le (card_app c1) of
                ((body, sw1, sw2), a) \<Rightarrow>
                  (let c2 = (sm_card_bump c1)\<lparr>card_app := a\<rparr>
                   in (Inr (TransportOutcome_Response
                         \<lparr>resp_body = sm_card_protect prims c2 body sw1 sw2,
                          resp_sw1 = 0x90, resp_sw2 = 0x00\<rparr>), c2))))"

definition sm_lockstep :: "'c sm_card SmTransport \<Rightarrow> bool" where
  "sm_lockstep sm \<longleftrightarrow>
     card_k_enc (sm_inner sm) = Aes256Key_as_bytes (sm_k_enc sm) \<and>
     card_k_mac (sm_inner sm) = Aes256Key_as_bytes (sm_k_mac sm) \<and>
     card_ssc (sm_inner sm) = sm_ssc sm"


subsection \<open>The card understands wrapped commands\<close>

lemma length_pad_small: "length body < 2 ^ 31 \<Longrightarrow> length (iso7816_4_pad body) < 2 ^ 32 - 1"
  by (simp add: length_iso7816_4_pad)

lemma sm_cipher_small:
  assumes "cbc_inverts prims" "length body < 2 ^ 31"
  shows "length (0x01 # prim_cbc_encrypt prims k iv (iso7816_4_pad body)) < 2 ^ 32"
  using cbc_invertsD(1) [OF assms(1) pad_aligned, of k iv body] length_pad_small [OF assms(2)] by simp

lemma ucast_tags [simp]:
  "(ucast TAG_DO87 :: u16) = 0x87" "(ucast TAG_DO97 :: u16) = 0x97"
  "(ucast TAG_DO99 :: u16) = 0x99" "(ucast TAG_DO8E :: u16) = 0x8E"
  by (simp_all add: sm_consts)

lemmas lookup_simps = lookup_do_def ber_items_tlv_bytes ber_items_tlv_bytes [of _ _ "[]", simplified]

lemma sm_card_open_wrapped:
  fixes do87 :: bytes
  assumes crypto: "cbc_inverts prims" "cmac_is_block prims"
    and keys: "card_k_enc c = Aes256Key_as_bytes (sm_k_enc sm)" "card_k_mac c = Aes256Key_as_bytes (sm_k_mac sm)"
      "card_ssc c = sm_ssc sm"
    and small: "length data \<le> 255" "length (do87 @ sm_do97 le) + 10 \<le> 255"
    and do87: "sm_do87 prims sm data = (Inr do87 :: 'e SmError + bytes)"
    and header: "length header = 4"
  shows "sm_card_open prims c (short_apdu header ((do87 @ sm_do97 le)
      @ tlv_bytes TAG_DO8E (sm_command_mac prims (card_k_mac c) (card_ssc c) header (do87 @ sm_do97 le)))
      (Some 0x00)) = Some (header, data, le)"
proof -
  let ?obs = "do87 @ sm_do97 le"
  let ?mac = "sm_command_mac prims (card_k_mac c) (card_ssc c) header ?obs"
  have mac8: "length ?mac = 8" using crypto(2) by (simp add: sm_command_mac_def)
  then have mac10: "length (tlv_bytes TAG_DO8E ?mac) = 10" by (simp add: length_tlv_bytes_short)
  have dec: "decode_short_apdu (short_apdu header (?obs @ tlv_bytes TAG_DO8E ?mac) (Some 0x00))
      = Some (?obs @ tlv_bytes TAG_DO8E ?mac, Some 0x00)"
    using small(2) mac10 by (intro decode_short_apdu_short header) simp
  have hdr: "take 4 (short_apdu header d l) = header" for d l
    using header by (simp add: short_apdu_def)
  let ?iv = "sm_iv prims sm"
  let ?cipher = "prim_cbc_encrypt prims (Aes256Key_as_bytes (sm_k_enc sm)) ?iv (iso7816_4_pad data)"
  have c32: "length (0x01 # ?cipher) < 2 ^ 32" using small(1) by (intro sm_cipher_small crypto) simp
  have iv: "prim_block_encrypt prims (Aes256Key_as_bytes (sm_k_enc sm)) (Ssc_as_bytes (card_ssc c)) = ?iv"
    using keys by (simp add: sm_iv_def aes256_ecb_encrypt_block_def)
  have inv: "prim_cbc_decrypt prims (Aes256Key_as_bytes (sm_k_enc sm)) ?iv ?cipher = iso7816_4_pad data"
    using cbc_invertsD(2) [OF crypto(1) pad_aligned] .
  show ?thesis
  proof (cases "data = []")
    case True
    then have "do87 = []" using do87 by (simp add: sm_do87_def)
    then show ?thesis using True mac8 mac10
      unfolding sm_card_open_def dec
      by (cases le) (simp_all add: hdr Let_def sm_do97_def lookup_simps)
  next
    case False
    then have "do87 = tlv_bytes TAG_DO87 (0x01 # ?cipher)"
      using do87 by (simp add: sm_do87_cipher)
    then show ?thesis using mac8 mac10 c32 keys(1) inv
      unfolding sm_card_open_def dec
      by (cases le) (simp_all add: hdr Let_def sm_do97_def lookup_simps iv)
  qed
qed


subsection \<open>The channel understands protected answers\<close>

lemma unwrap_protected:
  assumes crypto: "cbc_inverts prims" "cmac_is_block prims"
    and keys: "card_k_enc c = Aes256Key_as_bytes (sm_k_enc sm)" "card_k_mac c = Aes256Key_as_bytes (sm_k_mac sm)"
      "card_ssc c = Ssc_increment (sm_ssc sm)"
    and small: "length body < 2 ^ 31"
  shows "SmTransport_unwrap prims (sm_card_protect prims c body sw1 sw2) sm
    = (Inr (body, u16_from_be_bytes sw1 sw2), increment_ssc sm)"
proof -
  let ?sm = "increment_ssc sm"
  have fields: "sm_k_enc ?sm = sm_k_enc sm" "sm_k_mac ?sm = sm_k_mac sm"
    "sm_ssc ?sm = Ssc_increment (sm_ssc sm)" by (simp_all add: increment_ssc_def)
  let ?cipher = "prim_cbc_encrypt prims (Aes256Key_as_bytes (sm_k_enc sm)) (sm_iv prims ?sm) (iso7816_4_pad body)"
  have c32: "length (0x01 # ?cipher) < 2 ^ 32" using small by (intro sm_cipher_small crypto)
  have iv: "prim_block_encrypt prims (Aes256Key_as_bytes (sm_k_enc sm))
      (Ssc_as_bytes (Ssc_increment (sm_ssc sm))) = sm_iv prims ?sm"
    by (simp add: sm_iv_def aes256_ecb_encrypt_block_def fields)
  have inv: "prim_cbc_decrypt prims (Aes256Key_as_bytes (sm_k_enc sm)) (sm_iv prims ?sm) ?cipher
      = iso7816_4_pad body"
    using cbc_invertsD(2) [OF crypto(1) pad_aligned] .
  have clen: "length ?cipher mod AES_BLOCK = 0"
    using cbc_invertsD(1) [OF crypto(1) pad_aligned] pad_aligned by metis
  have mac8: "length (aes256_cmac_truncated prims k m) = 8" for k m using crypto(2) by simp
  show ?thesis
  proof (cases "body = []")
    case True
    then show ?thesis
      by (simp add: SmTransport_unwrap_def Let_def sm_card_protect_def lookup_simps sm_capture_def
          sm_open_def mac8 sm_response_mac_def keys fields del: lookup_do_def)
  next
    case False
    then show ?thesis using c32 inv clen
      by (simp add: SmTransport_unwrap_def Let_def sm_card_protect_def lookup_simps sm_capture_def
          sm_open_def mac8 sm_response_mac_def keys fields iv sm_decrypt_do87_def
          aes256_cbc_decrypt_no_padding_def DO87_PADDING_INDICATOR_def)
  qed
qed


section \<open>The composed transport\<close>

lemma sm_transmit_lockstep:
  assumes crypto: "cbc_inverts prims" "cmac_is_block prims" and lock: "sm_lockstep sm"
    and header: "length header = 4" and fits: "length data \<le> sm_capacity le"
    and app: "app (sm_header header) data le (card_app (sm_inner sm)) = ((body, sw1, sw2), a)"
    and small: "length body < 2 ^ 31"
  shows "(SmTransport_transmit_outcome prims (sm_card_transport prims app)
      (CommandApdu_new (short_apdu header data le)) sm :: ('e SmError + TransportOutcome) \<times> _) =
    (Inr (TransportOutcome_Response \<lparr>resp_body = body, resp_sw1 = sw1, resp_sw2 = sw2\<rparr>),
     sm\<lparr>sm_ssc := Ssc_increment (Ssc_increment (sm_ssc sm)),
        sm_inner := (sm_inner sm)\<lparr>card_ssc := Ssc_increment (Ssc_increment (sm_ssc sm)), card_app := a\<rparr>\<rparr>)"
proof -
  have d239: "length data \<le> 239" using fits by (auto simp: sm_capacity_def split: option.splits)
  let ?sm1 = "increment_ssc sm"
  obtain do87 where do87: "sm_do87 prims ?sm1 data = (Inr do87 :: 'e SmError + bytes)"
    using sm_do87_total by blast
  let ?obs = "do87 @ sm_do97 le"
  have fit: "length ?obs + 10 \<le> 255"
    using sm_do87_length(1) [OF crypto(1) do87 d239] do87_fits_iff [OF d239, of le] fits
    by (simp add: length_sm_do97)
  let ?mac = "sm_command_mac prims (Aes256Key_as_bytes (sm_k_mac sm)) (Ssc_increment (sm_ssc sm))
      (sm_header header) ?obs"
  have wrap: "(SmTransport_wrap prims (short_apdu header data le) sm :: ('e SmError + bytes) \<times> _)
      = (Inr (short_apdu (sm_header header) (?obs @ tlv_bytes TAG_DO8E ?mac) (Some 0x00)), ?sm1)"
    using d239 fit by (subst wrap_eq [OF header _ crypto(2) do87]) (auto simp: Let_def)
  let ?c1 = "sm_card_bump (sm_inner sm)"
  have c1: "card_k_enc ?c1 = Aes256Key_as_bytes (sm_k_enc ?sm1)" "card_k_mac ?c1 = Aes256Key_as_bytes (sm_k_mac ?sm1)"
    "card_ssc ?c1 = sm_ssc ?sm1" "card_app ?c1 = card_app (sm_inner sm)"
    "sm_k_mac ?sm1 = sm_k_mac sm" "sm_ssc ?sm1 = Ssc_increment (sm_ssc sm)"
    using lock by (simp_all add: sm_lockstep_def sm_card_bump_def increment_ssc_def)
  have opened: "sm_card_open prims ?c1
      (short_apdu (sm_header header) (?obs @ tlv_bytes TAG_DO8E ?mac) (Some 0x00)) = Some (sm_header header, data, le)"
    using sm_card_open_wrapped [OF crypto c1(1,2,3) _ fit do87 length_sm_header] d239 c1(2,3,5,6) by simp
  let ?c2 = "(sm_card_bump ?c1)\<lparr>card_app := a\<rparr>"
  have inner: "sm_inner ?sm1 = sm_inner sm" by (simp add: increment_ssc_def)
  have tx: "(sm_inner_transmit (sm_card_transport prims app)
        (CommandApdu_new (short_apdu (sm_header header) (?obs @ tlv_bytes TAG_DO8E ?mac) (Some 0x00))) ?sm1
        :: ('e SmError + TransportOutcome) \<times> _) =
      (Inr (TransportOutcome_Response \<lparr>resp_body = sm_card_protect prims ?c2 body sw1 sw2,
         resp_sw1 = 0x90, resp_sw2 = 0x00\<rparr>), ?sm1\<lparr>sm_inner := ?c2\<rparr>)"
    using app opened c1(4) by (simp add: sm_inner_transmit_def inner sm_card_transport_def Let_def)
  have nonempty: "sm_card_protect prims ?c2 body sw1 sw2 \<noteq> []"
    using length_tlv_bytes_short [of "[sw1, sw2]" TAG_DO99] by (auto simp: sm_card_protect_def Let_def)
  have unwrap: "(SmTransport_unwrap prims (sm_card_protect prims ?c2 body sw1 sw2) (?sm1\<lparr>sm_inner := ?c2\<rparr>)
      :: ('e SmError + bytes \<times> u16) \<times> _)
      = (Inr (body, u16_from_be_bytes sw1 sw2), increment_ssc (?sm1\<lparr>sm_inner := ?c2\<rparr>))"
    using c1 by (intro unwrap_protected crypto small) (simp_all add: sm_card_bump_def)
  show ?thesis
    unfolding SmTransport_transmit_outcome_def
    using wrap tx nonempty unwrap lock
    by (simp add: bindS_def increment_ssc_def sm_card_bump_def sm_lockstep_def)
qed


subsection \<open>What the composed transport sends\<close>

lemma wrap_inner: "sm_inner (snd (SmTransport_wrap prims plain sm)) = sm_inner sm"
  by (auto simp: SmTransport_wrap_def Let_def increment_ssc_def split: option.splits sum.splits)

lemma unwrap_state: "snd (SmTransport_unwrap prims response sm) = increment_ssc sm"
  by (simp add: SmTransport_unwrap_def Let_def)

lemma sm_inner_transmit_eq:
  "sm_inner_transmit tx w sm =
     (map_err SmError_Transport (fst (tx w (sm_inner sm))), sm\<lparr>sm_inner := snd (tx w (sm_inner sm))\<rparr>)"
  by (simp add: sm_inner_transmit_def split: prod.splits sum.splits)

text \<open>The inner transport is called at most once, with a command that is not marked.\<close>

lemma sm_transmit_inner:
  "sm_inner (snd (SmTransport_transmit_outcome prims tx apdu sm)) = sm_inner sm \<or>
   (\<exists>wrapped. sm_inner (snd (SmTransport_transmit_outcome prims tx apdu sm))
      = snd (tx (CommandApdu_new wrapped) (sm_inner sm)))"
proof -
  obtain r sm1 where w: "SmTransport_wrap prims (cmd_bytes apdu) sm = (r :: 'b SmError + bytes, sm1)" by fastforce
  have sm1: "sm_inner sm1 = sm_inner sm" using wrap_inner [of prims "cmd_bytes apdu" sm] w by (metis snd_conv)
  show ?thesis
  proof (cases r)
    case (Inl e)
    then show ?thesis using w sm1 by (simp add: SmTransport_transmit_outcome_def bindS_def)
  next
    case (Inr wrapped)
    have "sm_inner (snd (SmTransport_transmit_outcome prims tx apdu sm))
        = snd (tx (CommandApdu_new wrapped) (sm_inner sm))"
      using w Inr sm1 unwrap_state
      by (auto simp: SmTransport_transmit_outcome_def bindS_def sm_inner_transmit_eq increment_ssc_def
          SmTransport_unwrap_def Let_def split: sum.splits TransportOutcome.splits prod.splits)
    then show ?thesis by blast
  qed
qed

text \<open>Secure messaging over a transport that keeps the presentation contract keeps it too.\<close>

context sends_once
begin

lemma sm_sends_once:
  "sends_once (SmTransport_transmit_outcome prims tx) (\<lambda>sm. log (sm_inner sm)) payload"
proof unfold_locales
  fix c sm
  show "\<exists>sent. log (sm_inner (snd (SmTransport_transmit_outcome prims tx c sm))) = log (sm_inner sm) @ sent
      \<and> length (filter payload sent) \<le> 1"
    using sm_transmit_inner [of prims tx c sm] once [of "CommandApdu_new _" "sm_inner sm"] by fastforce
qed

end

interpretation sm_pcsc: sends_once
  "SmTransport_transmit_outcome prims (PcscCard_transmit_outcome (unlogged begin_tx) (logged pt) protocol)"
  "\<lambda>sm. fst (sm_inner sm)" "\<lambda>c. \<not> is_get_response c"
  for prims begin_tx pt protocol
  by (rule pcsc.sm_sends_once)


subsection \<open>Capacity\<close>

lemma wrap_if_fits:
  assumes "cbc_inverts prims" "cmac_is_block prims" "length header = 4" "length data \<le> 255"
  shows "if length data \<le> sm_capacity le
    then \<exists>body. length body \<le> 255 \<and>
      (SmTransport_wrap prims (short_apdu header data le) sm :: ('e SmError + bytes) \<times> 't SmTransport)
        = (Inr (short_apdu (sm_header header) body (Some 0x00)), increment_ssc sm)
    else (SmTransport_wrap prims (short_apdu header data le) sm :: ('e SmError + bytes) \<times> 't SmTransport)
        = (Inl SmError_CommandTooLong, increment_ssc sm)"
proof -
  obtain do87 where do87: "sm_do87 prims (increment_ssc sm) data = (Inr do87 :: 'e SmError + bytes)"
    using sm_do87_total by blast
  have "length do87 + length (sm_do97 le) + 10 \<le> 255 \<longleftrightarrow> length data \<le> sm_capacity le"
  proof (cases "length data \<le> 239")
    case True
    then show ?thesis
      using sm_do87_length(1) [OF assms(1) do87 True] do87_fits_iff [OF True, of le]
      by (simp add: length_sm_do97)
  next
    case False
    then show ?thesis using sm_do87_length(2) [OF assms(1) do87] assms(4)
      by (auto simp: sm_capacity_def split: option.splits)
  qed
  moreover have "length (tlv_bytes TAG_DO8E (sm_command_mac prims k ssc h obs)) = 10" for k ssc h obs
    using assms(2) by (simp add: sm_command_mac_def length_tlv_bytes_short)
  ultimately show ?thesis
    using wrap_eq [OF assms(3,4,2) do87, of le]
    by (auto simp: Let_def simp del: append_assoc intro!: exI [of _ "(do87 @ sm_do97 le) @ _"])
qed


section \<open>Properties\<close>

text \<open>Concrete primitives for the witnesses.\<close>

definition xor_prims :: aes_primitives where
  "xor_prims = \<lparr>prim_cbc_encrypt = (\<lambda>k iv p. map (\<lambda>b. b XOR 0x5A) p),
     prim_cbc_decrypt = (\<lambda>k iv c. map (\<lambda>b. b XOR 0x5A) c),
     prim_block_encrypt = (\<lambda>k b. b),
     prim_cmac = (\<lambda>k m. replicate 16 (foldl (\<lambda>a b. a XOR b) 0 m)),
     prim_sha256 = (\<lambda>m. replicate 32 (foldl (\<lambda>a b. a XOR b) 0 m))\<rparr>"

lemma xor_prims_ok: "cbc_inverts xor_prims" "cmac_is_block xor_prims"
  by (simp_all add: cbc_inverts_def cmac_is_block_def xor_prims_def AES_BLOCK_def comp_def xor.assoc)

text \<open>
  (C4) Secure messaging is transparent: over a conforming card that shares the keys and the
  counter, sending any plain short command whose data field fits gives exactly the answer the
  card's application gives to that command (with the secure-messaging class bits), body and
  status word, and leaves both ends in lockstep again with the counter advanced by two.
\<close>

theorem sm_channel_transparent:
  assumes "cbc_inverts prims" "cmac_is_block prims" "sm_lockstep sm"
    and "length header = 4" "length data \<le> sm_capacity le"
    and "app (sm_header header) data le (card_app (sm_inner sm)) = ((body, sw1, sw2), a)"
    and "length body < 2 ^ 31"
  shows "\<exists>sm'. SmTransport_transmit_outcome prims (sm_card_transport prims app)
      (CommandApdu_new (short_apdu header data le)) sm =
    (Inr (TransportOutcome_Response \<lparr>resp_body = body, resp_sw1 = sw1, resp_sw2 = sw2\<rparr>), sm') \<and>
    sm_lockstep sm' \<and> card_app (sm_inner sm') = a \<and>
    sm_ssc sm' = Ssc_increment (Ssc_increment (sm_ssc sm))"
  using sm_transmit_lockstep [OF assms(1-5), where app = app, OF assms(6,7)] assms(3)
  by (auto simp: sm_lockstep_def)


text \<open>An echoing application for the witness.\<close>

definition echo_sm :: "unit sm_card SmTransport" where
  "echo_sm = SmTransport_new
     \<lparr>card_app = (), card_k_enc = [1], card_k_mac = [2], card_ssc = Ssc_INITIAL\<rparr>
     \<lparr>pace_k_enc = Aes256Key [1], pace_k_mac = Aes256Key [2], pace_ssc = Ssc_INITIAL\<rparr>"

theorem sm_channel_transparent_witness:
  "\<exists>sm'. (SmTransport_transmit_outcome xor_prims
      (sm_card_transport xor_prims (\<lambda>h d le c. ((d @ h, 0x90, 0x00), c)))
      (CommandApdu_new (short_apdu [0x00, 0xA4, 0x02, 0x0C] [0x43, 0x31] (Some 0))) echo_sm
      :: (unit SmError + TransportOutcome) \<times> _) =
    (Inr (TransportOutcome_Response
       \<lparr>resp_body = [0x43, 0x31, 0x0C, 0xA4, 0x02, 0x0C], resp_sw1 = 0x90, resp_sw2 = 0x00\<rparr>), sm') \<and>
    sm_lockstep sm'"
proof -
  have lock: "sm_lockstep echo_sm"
    by (simp add: sm_lockstep_def echo_sm_def SmTransport_new_def)
  have h: "sm_header [0x00, 0xA4, 0x02, 0x0C] = [0x0C, 0xA4, 0x02, 0x0C]" by (simp add: sm_header_def)
  show ?thesis
    using sm_channel_transparent [OF xor_prims_ok lock, of "[0x00, 0xA4, 0x02, 0x0C]" "[0x43, 0x31]"
      "Some 0" "\<lambda>h d le c. ((d @ h, 0x90, 0x00), c)" "[0x43, 0x31, 0x0C, 0xA4, 0x02, 0x0C]" "0x90" "0x00" "()"]
    by (auto simp: h sm_capacity_def)
qed

text \<open>
  Padding is faithful: unpadding a padded message gives the message back, and the padded
  message has the message as a prefix, ends on a block boundary and is at least one and at most
  sixteen bytes longer.
\<close>

theorem sm_padding_roundtrip:
  "iso7816_4_unpad (iso7816_4_pad data) = data \<and>
   take (length data) (iso7816_4_pad data) = data \<and>
   length (iso7816_4_pad data) mod 16 = 0 \<and>
   length data < length (iso7816_4_pad data) \<and> length (iso7816_4_pad data) \<le> length data + 16"
proof -
  obtain k where k: "k < 16" "iso7816_4_pad data = data @ 0x80 # replicate k 0"
    "length (iso7816_4_pad data) mod 16 = 0" by (rule iso7816_4_pad_shape)
  then show ?thesis using unpad_pad [of data] by simp
qed

text \<open>
  (C5) A response is accepted only when it is authentic: if unwrapping returns a body and a
  status word, the response carried a DO99 of exactly that status word and an eight-byte DO8E
  equal to the truncated CMAC, under the session's MAC key and the counter advanced by one, of
  the DO87 and DO99 it carried; and without a DO87 the body is empty.
\<close>

theorem sm_unwrap_authentic:
  assumes "SmTransport_unwrap prims response sm = (Inr (body, sw) :: 'e SmError + _, sm')"
  shows "sm' = sm\<lparr>sm_ssc := Ssc_increment (sm_ssc sm)\<rparr> \<and>
    (\<exists>objs a b mac.
       sm_collect (ber_items response) \<lparr>do87_value = None, do99_value = None, do_mac_value = None\<rparr>
         = (Inr objs :: 'e SmError + sm_objects) \<and>
       do99_value objs = Some [a, b] \<and> sw = u16_from_be_bytes a b \<and>
       do_mac_value objs = Some mac \<and> length mac = 8 \<and>
       mac = take 8 (prim_cmac prims (Aes256Key_as_bytes (sm_k_mac sm))
         (iso7816_4_pad (Ssc_as_bytes (Ssc_increment (sm_ssc sm)) @
            (case do87_value objs of Some v \<Rightarrow> tlv_bytes TAG_DO87 v | None \<Rightarrow> []) @
            tlv_bytes TAG_DO99 [a, b]))) \<and>
       (do87_value objs = None \<longrightarrow> body = []))"
proof -
  have st: "sm' = increment_ssc sm"
    using assms unwrap_state [of prims response sm] by (metis snd_conv)
  from assms obtain objs where objs:
    "sm_collect (ber_items response) \<lparr>do87_value = None, do99_value = None, do_mac_value = None\<rparr>
       = (Inr objs :: 'e SmError + sm_objects)"
    and opened: "sm_open prims (increment_ssc sm) objs = (Inr (body, sw) :: 'e SmError + _)"
    by (auto simp: SmTransport_unwrap_def Let_def bindR_eq_Inr)
  from opened obtain do99 mac where parts: "do99_value objs = Some do99" "do_mac_value objs = Some mac"
    "length do99 = 2" "length mac = 8" "sm_response_mac prims (increment_ssc sm) (do87_value objs) do99 = mac"
    "sw = u16_from_be_bytes (do99 ! 0) (do99 ! 1)" "do87_value objs = None \<longrightarrow> body = []"
    by (auto simp: sm_open_def bindR_eq_Inr ok_or_eq_Inr split: if_splits option.splits)
  obtain a b where ab: "do99 = [a, b]"
    using parts(3) by (metis (no_types, lifting) One_nat_def Suc_1 length_0_conv length_Suc_conv)
  then show ?thesis using st objs parts
    by (auto simp: sm_response_mac_def Let_def aes256_cmac_truncated_def aes256_cmac_def
        increment_ssc_def)
qed


theorem sm_unwrap_authentic_witness:
  "\<exists>objs a b mac.
     sm_collect (ber_items (sm_card_protect xor_prims (sm_card_bump (sm_inner echo_sm)) [0x07] 0x63 0xC2))
       \<lparr>do87_value = None, do99_value = None, do_mac_value = None\<rparr> = (Inr objs :: unit SmError + sm_objects) \<and>
     do99_value objs = Some [a, b] \<and> u16_from_be_bytes 0x63 0xC2 = u16_from_be_bytes a b \<and>
     do_mac_value objs = Some mac \<and> length mac = 8"
proof -
  have "SmTransport_unwrap xor_prims
      (sm_card_protect xor_prims (sm_card_bump (sm_inner echo_sm)) [0x07] 0x63 0xC2) echo_sm
    = (Inr ([0x07], u16_from_be_bytes 0x63 0xC2) :: unit SmError + _, increment_ssc echo_sm)"
    by (intro unwrap_protected xor_prims_ok)
      (simp_all add: echo_sm_def SmTransport_new_def sm_card_bump_def)
  from sm_unwrap_authentic [OF this] show ?thesis by blast
qed

text \<open>
  The channel's capacity is exact: wrapping a short command succeeds if and only if its
  data field has at most 239 bytes, or 223 when the command also expects a response; then the
  protected command is itself a short command of at most 255 data bytes.
\<close>

theorem sm_wrap_capacity:
  assumes "cbc_inverts prims" "cmac_is_block prims" "length header = 4" "length data \<le> 255"
  shows "if length data \<le> sm_capacity le
    then \<exists>body. length body \<le> 255 \<and>
      (SmTransport_wrap prims (short_apdu header data le) sm :: ('e SmError + bytes) \<times> 't SmTransport)
        = (Inr (short_apdu (sm_header header) body (Some 0x00)), increment_ssc sm)
    else (SmTransport_wrap prims (short_apdu header data le) sm :: ('e SmError + bytes) \<times> 't SmTransport)
        = (Inl SmError_CommandTooLong, increment_ssc sm)"
  using wrap_if_fits [OF assms] .

theorem sm_wrap_capacity_witness:
  "(\<exists>body. length body \<le> 255 \<and>
     (SmTransport_wrap xor_prims (short_apdu [0x00, 0x2A, 0x9E, 0x9A] (replicate 223 0x11) (Some 0)) echo_sm
       :: (unit SmError + bytes) \<times> _)
     = (Inr (short_apdu (sm_header [0x00, 0x2A, 0x9E, 0x9A]) body (Some 0x00)), increment_ssc echo_sm)) \<and>
   (SmTransport_wrap xor_prims (short_apdu [0x00, 0x2A, 0x9E, 0x9A] (replicate 224 0x11) (Some 0)) echo_sm
       :: (unit SmError + bytes) \<times> _) = (Inl SmError_CommandTooLong, increment_ssc echo_sm)"
  using sm_wrap_capacity [OF xor_prims_ok, of "[0x00, 0x2A, 0x9E, 0x9A]" "replicate 223 0x11" "Some 0" echo_sm]
    sm_wrap_capacity [OF xor_prims_ok, of "[0x00, 0x2A, 0x9E, 0x9A]" "replicate 224 0x11" "Some 0" echo_sm]
  by (simp add: sm_capacity_def)

text \<open>
  A command refused for its length leaves the channel out of step: the refusal comes after
  the counter was advanced, and nothing was sent, so a channel that was in lockstep with its
  card no longer is.
\<close>

theorem sm_refused_command_desynchronises:
  assumes "cbc_inverts prims" "cmac_is_block prims" "length header = 4" "length data \<le> 255"
    and "sm_capacity le < length data" and "sm_lockstep sm" "Ssc_wf (sm_ssc sm)"
  shows "\<exists>sm'. SmTransport_transmit_outcome prims (sm_card_transport prims app)
      (CommandApdu_new (short_apdu header data le)) sm = (Inl SmError_CommandTooLong :: 'e SmError + _, sm') \<and>
    sm_inner sm' = sm_inner sm \<and> \<not> sm_lockstep sm'"
proof -
  have "(SmTransport_wrap prims (short_apdu header data le) sm :: ('e SmError + bytes) \<times> _)
      = (Inl SmError_CommandTooLong, increment_ssc sm)"
    using wrap_if_fits [OF assms(1-4), of le sm] assms(5) by (simp add: not_le)
  moreover have "Ssc_increment (sm_ssc sm) \<noteq> sm_ssc sm" by (rule Ssc_increment_neq) (rule assms(7))
  ultimately show ?thesis using assms(6)
    by (auto simp: SmTransport_transmit_outcome_def bindS_def increment_ssc_def sm_lockstep_def)
qed

theorem sm_refused_command_desynchronises_witness:
  "\<exists>sm'. SmTransport_transmit_outcome xor_prims
      (sm_card_transport xor_prims (\<lambda>h d le c. ((d, 0x90, 0x00), c)))
      (CommandApdu_new (short_apdu [0x00, 0x2A, 0x9E, 0x9A] (replicate 240 0x11) None)) echo_sm
      = (Inl SmError_CommandTooLong :: unit SmError + _, sm') \<and>
    sm_inner sm' = sm_inner echo_sm \<and> \<not> sm_lockstep sm'"
  by (rule sm_refused_command_desynchronises [OF xor_prims_ok])
    (simp_all add: sm_capacity_def sm_lockstep_def echo_sm_def SmTransport_new_def)

text \<open>
  (C6) A response without a body is believed without a MAC: whatever keys the channel has, if
  the inner transport answers a wrapped command with bare status bytes, the channel returns
  those status bytes as the command's response, the success code included.
\<close>

theorem sm_bare_status_unauthenticated:
  assumes "SmTransport_wrap prims (cmd_bytes apdu) sm = (Inr wrapped :: 'e SmError + _, sm1)"
  shows "\<exists>sm'. SmTransport_transmit_outcome prims
      (\<lambda>_ t. (Inr (TransportOutcome_Response \<lparr>resp_body = [], resp_sw1 = sw1, resp_sw2 = sw2\<rparr>), t)) apdu sm
    = (Inr (TransportOutcome_Response \<lparr>resp_body = [], resp_sw1 = sw1, resp_sw2 = sw2\<rparr>) :: 'e SmError + _, sm')"
  using assms by (simp add: SmTransport_transmit_outcome_def bindS_def sm_inner_transmit_def)

theorem sm_bare_status_unauthenticated_witness:
  "\<exists>sm' r. SmTransport_transmit_outcome xor_prims
      (\<lambda>_ t. (Inr (TransportOutcome_Response \<lparr>resp_body = [], resp_sw1 = 0x90, resp_sw2 = 0x00\<rparr>), t))
      (CommandApdu_new (short_apdu [0x00, 0x20, 0x00, 0x81] [0x31, 0x32, 0x33, 0x34] None)) echo_sm
    = (Inr (TransportOutcome_Response r) :: unit SmError + _, sm') \<and> ResponseApdu_is_ok r"
proof -
  obtain body where "(SmTransport_wrap xor_prims
      (cmd_bytes (CommandApdu_new (short_apdu [0x00, 0x20, 0x00, 0x81] [0x31, 0x32, 0x33, 0x34] None))) echo_sm
        :: (unit SmError + bytes) \<times> _)
      = (Inr (short_apdu (sm_header [0x00, 0x20, 0x00, 0x81]) body (Some 0x00)), increment_ssc echo_sm)"
    using wrap_if_fits [OF xor_prims_ok, of "[0x00, 0x20, 0x00, 0x81]" "[0x31, 0x32, 0x33, 0x34]" None echo_sm]
    by (auto simp: sm_capacity_def)
  from sm_bare_status_unauthenticated [OF this, of "0x90" "0x00"] show ?thesis
    by (fastforce simp: ResponseApdu_is_ok_def ResponseApdu_status_word_def)
qed

end
