(* ===== verification/Pkcs15.thy ===== *)
theory Pkcs15
  imports Ber T0_Exchange
begin

text \<open>
  PKCS#15 file access (\<open>pkcs15.rs\<close>): the SELECT walks, the two READ BINARY loops and the
  certificate slots. The transport is the parameter \<open>tx\<close>. Both read loops are total: each
  continued turn moves the read offset forward, and the offset is bounded. Parsing of EF.AOD is
  of the \<open>refineid_pkcs15\<close> crate and a parameter where it is used.
\<close>

subsection \<open>Identifiers and slots\<close>

definition PKCS15_AID :: bytes where
  "PKCS15_AID = [0xA0, 0x00, 0x00, 0x00, 0x63, 0x50, 0x4B, 0x43, 0x53, 0x2D, 0x31, 0x35]"

definition ESIGN_AID :: bytes where
  "ESIGN_AID = [0x45, 0x2E, 0x53, 0x49, 0x47, 0x4E]"

type_synonym fid = "u8 \<times> u8"

definition EF_AUTH_CERT_FID :: fid where "EF_AUTH_CERT_FID = (0x43, 0x31)"
definition EF_SIGN_CERT_FID :: fid where "EF_SIGN_CERT_FID = (0x43, 0x32)"
definition EF_AUTH_CERT_ALT_FID :: fid where "EF_AUTH_CERT_ALT_FID = (0x43, 0x33)"
definition EF_ROOT_CA_FID :: fid where "EF_ROOT_CA_FID = (0x43, 0x34)"
definition EF_SIGN_CERT_ALT_FID :: fid where "EF_SIGN_CERT_ALT_FID = (0x43, 0x35)"
definition EF_ISSUING_CA_ECC_FID :: fid where "EF_ISSUING_CA_ECC_FID = (0x43, 0x36)"
definition EF_TOKEN_INFO_FID :: fid where "EF_TOKEN_INFO_FID = (0x50, 0x32)"
definition DF_ESIGN_FID :: fid where "DF_ESIGN_FID = (0x50, 0x16)"

datatype SlotPath = SlotPath_UnderPkcs15App | SlotPath_UnderDf5016 | SlotPath_UnderMf

datatype CertSlot =
    CertSlot_Authentication
  | CertSlot_Signature
  | CertSlot_AuthenticationAlt
  | CertSlot_RootCa
  | CertSlot_SignatureAlt
  | CertSlot_IssuingCaEcc

fun CertSlot_fid :: "CertSlot \<Rightarrow> fid" where
  "CertSlot_fid CertSlot_Authentication = EF_AUTH_CERT_FID"
| "CertSlot_fid CertSlot_Signature = EF_SIGN_CERT_FID"
| "CertSlot_fid CertSlot_AuthenticationAlt = EF_AUTH_CERT_ALT_FID"
| "CertSlot_fid CertSlot_RootCa = EF_ROOT_CA_FID"
| "CertSlot_fid CertSlot_SignatureAlt = EF_SIGN_CERT_ALT_FID"
| "CertSlot_fid CertSlot_IssuingCaEcc = EF_ISSUING_CA_ECC_FID"

fun CertSlot_label :: "CertSlot \<Rightarrow> string" where
  "CertSlot_label CertSlot_Authentication = ''authentication (EF.4331)''"
| "CertSlot_label CertSlot_Signature = ''qualified signature (EF.4332)''"
| "CertSlot_label CertSlot_AuthenticationAlt = ''authentication, alt slot (EF.4333)''"
| "CertSlot_label CertSlot_RootCa = ''on-card issuing root CA (EF.4334)''"
| "CertSlot_label CertSlot_SignatureAlt = ''qualified signature, alt slot (EF.4335)''"
| "CertSlot_label CertSlot_IssuingCaEcc = ''issuing intermediate CA, G4E ECC (EF.4336)''"

fun CertSlot_path :: "CertSlot \<Rightarrow> SlotPath" where
  "CertSlot_path CertSlot_Authentication = SlotPath_UnderPkcs15App"
| "CertSlot_path CertSlot_Signature = SlotPath_UnderDf5016"
| "CertSlot_path CertSlot_AuthenticationAlt = SlotPath_UnderDf5016"
| "CertSlot_path CertSlot_SignatureAlt = SlotPath_UnderDf5016"
| "CertSlot_path CertSlot_RootCa = SlotPath_UnderMf"
| "CertSlot_path CertSlot_IssuingCaEcc = SlotPath_UnderMf"

definition requires_mf_traversal :: "CertSlot \<Rightarrow> bool" where
  "requires_mf_traversal slot \<longleftrightarrow> CertSlot_path slot \<noteq> SlotPath_UnderPkcs15App"

definition CertSlot_all :: "CertSlot list" where
  "CertSlot_all = [CertSlot_Authentication, CertSlot_Signature, CertSlot_AuthenticationAlt,
     CertSlot_RootCa, CertSlot_SignatureAlt]"


subsection \<open>Errors and the DER header\<close>

datatype 'e Pkcs15Error =
    Pkcs15Error_Transport 'e
  | Pkcs15Error_Sw u16
  | Pkcs15Error_Aid AidError
  | Pkcs15Error_Empty
  | Pkcs15Error_TooLarge
  | Pkcs15Error_InvalidData string

definition READ_CHUNK :: nat where "READ_CHUNK = 0x80"
definition MAX_CERT_BYTES :: nat where "MAX_CERT_BYTES = 0x4000"

text \<open>\<open>Err(())\<close> is \<open>Inl ()\<close>. The checked additions cannot overflow: the sums are below 65540.\<close>

definition der_object_total_length :: "bytes \<Rightarrow> unit + nat option" where
  "der_object_total_length prefix =
     (if length prefix < 2 then Inr None
      else let first = prefix ! 1
           in if first AND 0x80 = 0 then Inr (Some (2 + unat first))
              else let octet_count = unat (first AND 0x7F)
                   in if octet_count = 0 \<or> octet_count > 2 then Inl ()
                      else let header_len = 2 + octet_count
                           in if length prefix < header_len then Inr None
                              else let content_len = foldl (\<lambda>acc b. acc * 256 + unat b) 0
                                         (take octet_count (drop 2 prefix))
                                   in Inr (Some (header_len + content_len)))"


subsection \<open>SELECT walks\<close>

type_synonym ('t, 'e, 'a) pkcs15_io = "('t, 'e TransportDispatchError Pkcs15Error, 'a) io"

definition select_pkcs15_application :: "('t, 'e) transport \<Rightarrow> ('t, 'e, unit) pkcs15_io" where
  "select_pkcs15_application tx =
     bindS (liftR (map_err Pkcs15Error_Aid (Aid_from_slice PKCS15_AID))) (\<lambda>aid.
     let apdu = SelectByAidNoFci_into_apdu \<lparr>selnofci_aid = aid\<rparr>
     in bindS (map_errS Pkcs15Error_Transport (transmit tx (CommandApdu_as_bytes apdu))) (\<lambda>r.
          if \<not> ResponseApdu_is_ok r then fail (Pkcs15Error_Sw (ResponseApdu_sw r)) else ret ()))"

text \<open>The loop over the two SELECT forms of \<open>select_ef\<close>.\<close>

fun select_first_ok :: "('t, 'e) transport \<Rightarrow> CommandApdu list \<Rightarrow> u16 \<Rightarrow> ('t, 'e, unit) pkcs15_io" where
  "select_first_ok tx [] last_sw = fail (Pkcs15Error_Sw last_sw)"
| "select_first_ok tx (apdu # rest) last_sw =
     bindS (map_errS Pkcs15Error_Transport (transmit tx (CommandApdu_as_bytes apdu))) (\<lambda>response.
       if ResponseApdu_is_ok response then ret ()
       else select_first_ok tx rest (ResponseApdu_sw response))"

definition select_ef :: "('t, 'e) transport \<Rightarrow> fid \<Rightarrow> ('t, 'e, unit) pkcs15_io" where
  "select_ef tx fid =
     (let file_id = FileId (fst fid) (snd fid);
          attempts =
            [SelectEfNoFci_into_apdu \<lparr>selef_fid0 = fst fid, selef_fid1 = snd fid\<rparr>,
             SelectFile_into_apdu \<lparr>selfile_class = ApduClass_Plain,
               selfile_target = SelectFileTarget_AnyByFileId (Some file_id),
               selfile_response_mode = SelectFileResponseMode_None\<rparr>]
      in select_first_ok tx attempts 0)"

definition SELECT_P1_ANY_BY_FID :: u8 where "SELECT_P1_ANY_BY_FID = 0x00"
definition SELECT_P1_CHILD_DF :: u8 where "SELECT_P1_CHILD_DF = 0x01"
definition SELECT_P1_BY_NAME :: u8 where "SELECT_P1_BY_NAME = 0x04"
definition SELECT_FID_LC :: u8 where "SELECT_FID_LC = 2"

definition select_no_fci :: "u8 \<Rightarrow> fid \<Rightarrow> CommandApdu" where
  "select_no_fci p1 fid = CommandApdu_new [0x00, 0xA4, p1, 0x0C, SELECT_FID_LC, fst fid, snd fid]"

definition mf_select_attempts :: "CommandApdu \<times> CommandApdu" where
  "mf_select_attempts =
     (select_no_fci SELECT_P1_ANY_BY_FID (0x3F, 0x00), select_no_fci SELECT_P1_BY_NAME (0x3F, 0x00))"

definition child_df_select_attempts :: "fid \<Rightarrow> CommandApdu \<times> CommandApdu" where
  "child_df_select_attempts fid =
     (select_no_fci SELECT_P1_CHILD_DF fid, select_no_fci SELECT_P1_ANY_BY_FID fid)"

definition first_accepted ::
  "('t, 'e) transport \<Rightarrow> CommandApdu \<times> CommandApdu \<Rightarrow> ('t, 'e TransportDispatchError, StatusWord) io" where
  "first_accepted tx attempts =
     bindS (transmit tx (CommandApdu_as_bytes (fst attempts))) (\<lambda>r.
       if ResponseApdu_is_ok r then ret StatusWord_Success
       else bindS (transmit tx (CommandApdu_as_bytes (snd attempts))) (\<lambda>fallback.
         ret (if ResponseApdu_is_ok fallback then StatusWord_Success
              else ResponseApdu_status_word fallback)))"

definition accepted_or_refusal :: "StatusWord \<Rightarrow> 'e Pkcs15Error + unit" where
  "accepted_or_refusal status =
     (if StatusWord_is_success status then Inr () else Inl (Pkcs15Error_Sw (StatusWord_as_u16 status)))"

definition select_mf :: "('t, 'e) transport \<Rightarrow> ('t, 'e, unit) pkcs15_io" where
  "select_mf tx =
     bindS (map_errS Pkcs15Error_Transport (first_accepted tx mf_select_attempts))
       (\<lambda>status. liftR (accepted_or_refusal status))"

definition select_child_df :: "('t, 'e) transport \<Rightarrow> fid \<Rightarrow> ('t, 'e, unit) pkcs15_io" where
  "select_child_df tx fid =
     bindS (map_errS Pkcs15Error_Transport (first_accepted tx (child_df_select_attempts fid)))
       (\<lambda>status. liftR (accepted_or_refusal status))"

definition select_esign_directory ::
  "('t, 'e) transport \<Rightarrow> ('t, 'e TransportDispatchError, StatusWord) io" where
  "select_esign_directory tx =
     bindS (first_accepted tx mf_select_attempts) (\<lambda>mf.
       if \<not> StatusWord_is_success mf then ret mf
       else case Aid_from_slice ESIGN_AID of
              Inr aid \<Rightarrow>
                bindS (transmit tx (CommandApdu_as_bytes
                        (SelectByAidNoFci_into_apdu \<lparr>selnofci_aid = aid\<rparr>))) (\<lambda>by_name.
                  if ResponseApdu_is_ok by_name then ret StatusWord_Success
                  else first_accepted tx (child_df_select_attempts DF_ESIGN_FID))
            | Inl _ \<Rightarrow> first_accepted tx (child_df_select_attempts DF_ESIGN_FID))"


subsection \<open>READ BINARY loops\<close>

definition is_end_of_file :: "ResponseApdu \<Rightarrow> bool" where
  "is_end_of_file r \<longleftrightarrow>
     (case ResponseApdu_status_word r of StatusWord_EndOfFile \<Rightarrow> True | _ \<Rightarrow> False)"

definition read_at :: "('t, 'e) transport \<Rightarrow> nat \<Rightarrow> nat \<Rightarrow> ('t, 'e, ResponseApdu) pkcs15_io" where
  "read_at tx offset want =
     map_errS Pkcs15Error_Transport (transmit tx (CommandApdu_as_bytes
       (ReadBinaryByOffset_into_apdu \<lparr>rboff_offset = of_nat offset, rboff_le = of_nat want\<rparr>)))"

function read_to_cap ::
  "('t, 'e) transport \<Rightarrow> nat \<Rightarrow> nat \<Rightarrow> bytes \<Rightarrow> ('t, 'e, bytes) pkcs15_io" where
  "read_to_cap tx cap offset collected s =
     (if offset < cap then
        let remaining = cap - offset; want = min remaining READ_CHUNK
        in if want > 255 then (Inl Pkcs15Error_TooLarge, s)
           else if offset > 65535 then (Inl Pkcs15Error_TooLarge, s)
           else case read_at tx offset want s of
                  (Inl e, s') \<Rightarrow> (Inl e, s')
                | (Inr r, s') \<Rightarrow>
                    let eof = is_end_of_file r
                    in if \<not> ResponseApdu_is_ok r \<and> \<not> eof then (Inl (Pkcs15Error_Sw (ResponseApdu_sw r)), s')
                       else let body_len = length (resp_body r); collected = collected @ resp_body r
                            in if body_len = 0 \<or> body_len < want \<or> eof then (Inr collected, s')
                               else read_to_cap tx cap (offset + body_len) collected s'
      else (Inr collected, s))"
  by pat_completeness auto
termination
  by (relation "measure (\<lambda>(tx, cap, offset, collected, s). cap - offset)")
    (auto intro!: diff_less_mono2)

definition read_binary_to_end :: "('t, 'e) transport \<Rightarrow> nat option \<Rightarrow> ('t, 'e, bytes) pkcs15_io" where
  "read_binary_to_end tx expected_size =
     (let cap = min (case expected_size of Some n \<Rightarrow> n | None \<Rightarrow> MAX_CERT_BYTES) MAX_CERT_BYTES
      in bindS (read_to_cap tx cap 0 []) (\<lambda>collected.
           if collected = [] then fail Pkcs15Error_Empty
           else if length collected > MAX_CERT_BYTES then fail Pkcs15Error_TooLarge
           else ret collected))"

text \<open>One turn of \<open>read_binary_der_object\<close> after a good response: the total length once known.\<close>

definition der_total :: "string \<Rightarrow> nat option \<Rightarrow> bytes \<Rightarrow> 'e Pkcs15Error + nat option" where
  "der_total what total_length collected =
     (case total_length of
        Some t \<Rightarrow> Inr (Some t)
      | None \<Rightarrow>
          (case der_object_total_length collected of
             Inl _ \<Rightarrow> Inl (Pkcs15Error_InvalidData what)
           | Inr None \<Rightarrow> Inr None
           | Inr (Some n) \<Rightarrow>
               if n > MAX_CERT_BYTES then Inl Pkcs15Error_TooLarge else Inr (Some n)))"

function read_der_loop ::
  "('t, 'e) transport \<Rightarrow> string \<Rightarrow> bytes \<Rightarrow> nat option \<Rightarrow> ('t, 'e, bytes) pkcs15_io" where
  "read_der_loop tx what collected total_length s =
     (let cap = (case total_length of Some t \<Rightarrow> t | None \<Rightarrow> MAX_CERT_BYTES)
      in if length collected \<ge> cap then (Inr (take cap collected), s)
         else let remaining = cap - length collected; want = min remaining READ_CHUNK
              in if want > 255 then (Inl Pkcs15Error_TooLarge, s)
                 else if length collected > 65535 then (Inl Pkcs15Error_TooLarge, s)
                 else case read_at tx (length collected) want s of
                        (Inl e, s') \<Rightarrow> (Inl e, s')
                      | (Inr response, s') \<Rightarrow>
                          let eof = is_end_of_file response
                          in if \<not> ResponseApdu_is_ok response \<and> \<not> eof
                             then (Inl (Pkcs15Error_Sw (ResponseApdu_sw response)), s')
                             else if length (resp_body response) > want
                             then (Inl (Pkcs15Error_InvalidData what), s')
                             else if resp_body response = [] then
                               (if collected = [] then (Inl Pkcs15Error_Empty, s')
                                else (Inl (Pkcs15Error_InvalidData what), s'))
                             else let body_len = length (resp_body response);
                                      collected = collected @ resp_body response
                                  in case der_total what total_length collected of
                                       Inl e \<Rightarrow> (Inl e, s')
                                     | Inr total_length \<Rightarrow>
                                         if (case total_length of Some t \<Rightarrow> t \<le> length collected | None \<Rightarrow> False)
                                         then (Inr (take (the total_length) collected), s')
                                         else if body_len < want \<or> eof
                                         then (Inl (Pkcs15Error_InvalidData what), s')
                                         else read_der_loop tx what collected total_length s')"
  by pat_completeness auto
termination
  by (relation "measure (\<lambda>(tx, what, collected, total_length, s). 65536 - length collected)")
    (auto intro!: diff_less_mono2)

declare read_to_cap.simps [simp del] read_der_loop.simps [simp del]

definition read_binary_der_object :: "('t, 'e) transport \<Rightarrow> string \<Rightarrow> ('t, 'e, bytes) pkcs15_io" where
  "read_binary_der_object tx what = read_der_loop tx what [] None"

definition read_certificate :: "('t, 'e) transport \<Rightarrow> CertSlot \<Rightarrow> ('t, 'e, bytes) pkcs15_io" where
  "read_certificate tx slot =
     (case CertSlot_path slot of
        SlotPath_UnderPkcs15App \<Rightarrow>
          bindS (select_pkcs15_application tx) (\<lambda>_.
          bindS (select_ef tx (CertSlot_fid slot)) (\<lambda>_.
          read_binary_der_object tx (CertSlot_label slot)))
      | SlotPath_UnderDf5016 \<Rightarrow>
          bindS (select_mf tx) (\<lambda>_.
          bindS (select_child_df tx DF_ESIGN_FID) (\<lambda>_.
          bindS (select_ef tx (CertSlot_fid slot)) (\<lambda>_.
          read_binary_der_object tx (CertSlot_label slot))))
      | SlotPath_UnderMf \<Rightarrow>
          bindS (select_mf tx) (\<lambda>_.
          bindS (select_ef tx (CertSlot_fid slot)) (\<lambda>_.
          read_binary_der_object tx (CertSlot_label slot))))"

text \<open>\<open>parse_aod\<close> is \<open>AuthenticationObjects::parse\<close> and \<open>ef_aod\<close> the file identifier, both of the
  \<open>refineid_pkcs15\<close> crate.\<close>

definition read_authentication_objects ::
  "fid \<Rightarrow> (bytes \<Rightarrow> 'p + 'aod) \<Rightarrow> ('t, 'e) transport \<Rightarrow> ('t, 'e, 'aod) pkcs15_io" where
  "read_authentication_objects ef_aod parse_aod tx =
     bindS (select_pkcs15_application tx) (\<lambda>_.
     bindS (select_ef tx ef_aod) (\<lambda>_.
     bindS (read_binary_to_end tx None) (\<lambda>bs.
     liftR (map_err (\<lambda>_. Pkcs15Error_InvalidData ''EF.AOD'') (parse_aod bs)))))"


section \<open>Reading a file\<close>

text \<open>A card that holds the currently selected file: READ BINARY returns the bytes at the offset,
  with the end-of-file warning when fewer than asked for are left.\<close>

definition file_card :: "bytes \<Rightarrow> ('t, 'e) transport" where
  "file_card file cmd s =
     (let b = cmd_bytes cmd; offset = unat (b ! 2) * 256 + unat (b ! 3); le = unat (b ! 4);
          chunk = take le (drop offset file)
      in (Inr (TransportOutcome_Response
            \<lparr>resp_body = chunk, resp_sw1 = (if length chunk < le then 0x62 else 0x90),
             resp_sw2 = (if length chunk < le then 0x82 else 0x00)\<rparr>), s))"

lemma high_octet_15bit:
  assumes "offset < 32768"
  shows "unat (u16_to_be_bytes (of_nat offset) ! 0 AND 0x7F) * 256
    + unat (u16_to_be_bytes (of_nat offset) ! 1) = offset"
proof -
  let ?hi = "ucast (drop_bit 8 (of_nat offset :: u16)) :: u8"
  have v: "unat (of_nat offset :: u16) = offset" using assms by (simp add: unsigned_of_nat take_bit_eq_mod)
  have hi: "unat ?hi = offset div 256"
    using assms by (simp add: unat_ucast_byte unat_drop_bit_div v less_mult_imp_div_less)
  then have "?hi < 2 ^ 7" using assms by (simp add: word_less_nat_alt less_mult_imp_div_less)
  then have "?hi AND mask 7 = ?hi" by (rule less_mask_eq)
  then have "?hi AND 0x7F = ?hi" by (simp add: mask_eq_exp_minus_1)
  moreover have "unat (ucast (of_nat offset :: u16) :: u8) = offset mod 256" by (simp add: unat_ucast_byte v)
  ultimately show ?thesis using hi by (simp add: u16_to_be_bytes_def)
qed

lemma end_of_file_status [simp]:
  "is_end_of_file \<lparr>resp_body = b, resp_sw1 = 0x62, resp_sw2 = 0x82\<rparr>"
  "\<not> is_end_of_file \<lparr>resp_body = b, resp_sw1 = 0x90, resp_sw2 = 0x00\<rparr>"
  "ResponseApdu_is_ok \<lparr>resp_body = b, resp_sw1 = 0x90, resp_sw2 = 0x00\<rparr>"
  by (simp_all add: is_end_of_file_def ResponseApdu_is_ok_def ResponseApdu_status_word_def
      StatusWord_from_bytes_def u16_from_be_bytes_def StatusWord_from_u16_def sw_code_defs)

lemma read_at_file_card:
  assumes "offset < 32768" "want \<le> 255"
  shows "read_at (file_card file) offset want s =
    (Inr \<lparr>resp_body = take want (drop offset file),
       resp_sw1 = (if length (take want (drop offset file)) < want then 0x62 else 0x90),
       resp_sw2 = (if length (take want (drop offset file)) < want then 0x82 else 0x00)\<rparr>, s)"
proof -
  have "unat (of_nat want :: u8) = want" using assms(2) by (rule unat_of_nat_u8)
  then show ?thesis
    using high_octet_15bit [OF assms(1)]
    by (simp add: read_at_def transmit_def file_card_def Let_def map_errS_def bindS_def
        ReadBinaryByOffset_into_apdu_def)
qed

lemma read_at_full:
  assumes "offset < 32768" "want \<le> 255" "offset + want \<le> length file"
  shows "read_at (file_card file) offset want s =
    (Inr \<lparr>resp_body = take want (drop offset file), resp_sw1 = 0x90, resp_sw2 = 0x00\<rparr>, s)"
proof -
  have "\<not> length (take want (drop offset file)) < want" using assms(3) by simp
  then show ?thesis by (simp only: read_at_file_card [OF assms(1,2)] if_False)
qed

lemma read_at_short:
  assumes "offset < 32768" "want \<le> 255" "length file < offset + want" "0 < want"
  shows "read_at (file_card file) offset want s =
    (Inr \<lparr>resp_body = take want (drop offset file), resp_sw1 = 0x62, resp_sw2 = 0x82\<rparr>, s)"
proof -
  have "length (take want (drop offset file)) < want" using assms(3,4) by auto
  then show ?thesis by (simp only: read_at_file_card [OF assms(1,2)] if_True)
qed

lemma der_total_length_take:
  assumes "4 \<le> k"
  shows "der_object_total_length (take k file) = der_object_total_length file"
proof (cases "length file \<le> k")
  case False
  have "unat (file ! 1 AND 0x7F) > 2 \<or> take (unat (file ! 1 AND 0x7F)) (drop 2 (take k file))
      = take (unat (file ! 1 AND 0x7F)) (drop 2 file)"
    using assms by (auto simp: drop_take min_def)
  then show ?thesis using False assms by (auto simp: der_object_total_length_def Let_def)
qed simp

lemma read_der_loop_total:
  assumes "n \<le> length file" "n \<le> MAX_CERT_BYTES" "c \<le> n"
  shows "read_der_loop (file_card file :: ('t, 'e) transport) what (take c file) (Some n) s = (Inr (take n file), s)"
  using assms(3)
proof (induction "n - c" arbitrary: c rule: less_induct)
  case less
  have len: "length (take c file) = c" using less.prems assms(1) by simp
  show ?case
  proof (cases "c = n")
    case True
    then show ?thesis using len by (subst read_der_loop.simps) simp
  next
    case False
    then have c: "c < n" using less.prems by simp
    define want where "want = min (n - c) 128"
    have want: "0 < want" "want \<le> 128" "c + want \<le> n" using c by (auto simp: want_def)
    have chunk: "length (take want (drop c file)) = want" "take want (drop c file) \<noteq> []"
      using want assms(1) by auto
    have app: "take c file @ take want (drop c file) = take (c + want) file" by (simp add: take_add)
    have small: "c < 32768" using c assms(2) by (simp add: MAX_CERT_BYTES_def)
    have step: "read_der_loop (file_card file :: ('t, 'e) transport) what (take c file) (Some n) s =
        (if n \<le> c + want then (Inr (take n (take (c + want) file)), s)
         else read_der_loop (file_card file) what (take (c + want) file) (Some n) s)"
      using c want chunk len small assms(1)
      by (subst read_der_loop.simps)
        (auto simp: Let_def READ_CHUNK_def want_def [symmetric] app der_total_def read_at_full)
    show ?thesis
    proof (cases "n \<le> c + want")
      case True
      then show ?thesis using step want by (simp add: min_absorb1)
    next
      case False
      then show ?thesis using step want less.hyps [of "c + want"] by simp
    qed
  qed
qed


lemma read_der_first_chunk:
  assumes "der_object_total_length file = Inr (Some n)" "n \<le> length file" "n \<le> MAX_CERT_BYTES"
  shows "read_der_loop (file_card file :: ('t, 'e) transport) what [] None s = (Inr (take n file), s)"
proof -
  have n2: "2 \<le> n"
    using assms(1) by (auto simp: der_object_total_length_def Let_def split: if_splits)
  then have ne: "take 128 file \<noteq> []" using assms(2) by auto
  have der: "der_total what None (take 128 file) = (Inr (Some n) :: 'e TransportDispatchError Pkcs15Error + _)"
    using assms(1,3) by (simp add: der_total_def der_total_length_take)
  show ?thesis
  proof (cases "n \<le> length (take 128 file)")
    case True
    then show ?thesis using ne der
      by (subst read_der_loop.simps)
        (auto simp: Let_def READ_CHUNK_def MAX_CERT_BYTES_def read_at_file_card min_def)
  next
    case False
    then have "length (take 128 file) = 128" "128 < n" using assms(2) by auto
    then have "read_der_loop (file_card file :: ('t, 'e) transport) what [] None s =
        read_der_loop (file_card file) what (take 128 file) (Some n) s"
      using ne der False
      by (subst read_der_loop.simps)
        (auto simp: Let_def READ_CHUNK_def MAX_CERT_BYTES_def read_at_file_card)
    then show ?thesis using read_der_loop_total [OF assms(2,3), of 128] \<open>128 < n\<close> by simp
  qed
qed

lemma read_to_cap_file:
  assumes "c \<le> cap" "cap \<le> MAX_CERT_BYTES" "c \<le> length file"
  shows "read_to_cap (file_card file :: ('t, 'e) transport) cap c (take c file) s = (Inr (take cap file), s)"
  using assms(1,3)
proof (induction "cap - c" arbitrary: c rule: less_induct)
  case less
  show ?case
  proof (cases "c = cap")
    case True
    then show ?thesis by (subst read_to_cap.simps) simp
  next
    case False
    then have c: "c < cap" using less.prems by simp
    define want where "want = min (cap - c) 128"
    have want: "0 < want" "want \<le> 128" "c + want \<le> cap" using c by (auto simp: want_def)
    have small: "c < 32768" using c assms(2) by (simp add: MAX_CERT_BYTES_def)
    have app: "take c file @ take want (drop c file) = take (c + want) file" by (simp add: take_add)
    show ?thesis
    proof (cases "length file < c + want")
      case True
      then have "take (c + want) file = take cap file" using want by simp
      moreover have "length (take want (drop c file)) < want" using True want(1) by auto
      ultimately show ?thesis using c want small True
        by (subst read_to_cap.simps)
          (simp add: Let_def READ_CHUNK_def want_def [symmetric] app read_at_short)
    next
      case False
      then have "length (take want (drop c file)) = want" by simp
      then have "read_to_cap (file_card file :: ('t, 'e) transport) cap c (take c file) s =
          read_to_cap (file_card file) cap (c + want) (take (c + want) file) s"
        using c want small False
        by (subst read_to_cap.simps)
          (simp add: Let_def READ_CHUNK_def want_def [symmetric] app read_at_full)
      then show ?thesis using less.hyps [of "c + want"] want False by simp
    qed
  qed
qed


subsection \<open>Properties\<close>

text \<open>
  A certificate is read exactly: from a card whose selected file starts with a DER object
  of at most 16 KiB, \<open>read_binary_der_object\<close> returns that object, no byte more and none less,
  whatever padding follows it in the file.
\<close>

theorem der_object_read_exactly:
  assumes "der_object_total_length file = Inr (Some n)" "n \<le> length file" "n \<le> 16384"
  shows "read_binary_der_object (file_card file) what s = (Inr (take n file), s)"
  using read_der_first_chunk [OF assms(1,2)] assms(3)
  by (simp add: read_binary_der_object_def MAX_CERT_BYTES_def)

theorem der_object_read_exactly_witness:
  "read_binary_der_object (file_card ([0x30, 0x03, 0x02, 0x01, 0x07] @ replicate 40 0xFF))
     ''x'' () = (Inr [0x30, 0x03, 0x02, 0x01, 0x07] :: unit TransportDispatchError Pkcs15Error + bytes, ())"
proof -
  have "der_object_total_length ([0x30, 0x03, 0x02, 0x01, 0x07] @ replicate 40 0xFF) = Inr (Some 5)"
    by (simp add: der_object_total_length_def)
  from der_object_read_exactly [OF this] show ?thesis by simp
qed

text \<open>
  A whole file is read exactly: for a non-empty selected file, \<open>read_binary_to_end\<close> returns
  the file up to the expected size or 16 KiB, whichever is less, in one pass.
\<close>

theorem file_read_to_end:
  assumes "file \<noteq> []" "expected \<noteq> Some 0"
  shows "read_binary_to_end (file_card file :: ('t, 'e) transport) expected s =
    (Inr (take (min (case expected of Some n \<Rightarrow> n | None \<Rightarrow> 16384) 16384) file), s)"
proof -
  let ?cap = "min (case expected of Some n \<Rightarrow> n | None \<Rightarrow> MAX_CERT_BYTES) MAX_CERT_BYTES"
  have "0 < ?cap" using assms(2) by (auto simp: MAX_CERT_BYTES_def split: option.splits)
  have "read_to_cap (file_card file :: ('t, 'e) transport) ?cap 0 [] s = (Inr (take ?cap file), s)"
    using read_to_cap_file [where c = 0 and cap = ?cap] by simp
  then show ?thesis using assms(1) \<open>0 < ?cap\<close>
    by (cases expected) (simp_all add: read_binary_to_end_def bindS_def MAX_CERT_BYTES_def)
qed

theorem file_read_to_end_witness:
  "read_binary_to_end (file_card [0x30, 0x00, 0xAA]) None () =
     (Inr [0x30, 0x00, 0xAA] :: unit TransportDispatchError Pkcs15Error + bytes, ())"
  using file_read_to_end [of "[0x30, 0x00, 0xAA]" None "()"] by simp

text \<open>
  The corrected resend never happens through the protocol layer: \<open>transmit\<close> re-wraps the
  bytes of a typed read command and so drops its mark; when the card answers a READ BINARY with
  \<open>6Cxx\<close>, that status comes back to the caller after one physical command.
\<close>

theorem typed_read_never_corrected:
  assumes "begin_tx s = (Inr (), s')"
    and "pt (cmd_bytes (ReadBinaryByOffset_into_apdu c)) s' = (Inr [0x6C, le], s'')"
  shows "cmd_wrong_le_retry (ReadBinaryByOffset_into_apdu c) \<and>
    transmit (PcscCard_transmit_outcome (unlogged begin_tx) (logged pt) protocol)
        (cmd_bytes (ReadBinaryByOffset_into_apdu c)) ([], s) =
      (Inr \<lparr>resp_body = [], resp_sw1 = 0x6C, resp_sw2 = le\<rparr>,
       ([cmd_bytes (ReadBinaryByOffset_into_apdu c)], s''))"
proof -
  define apdu where "apdu = cmd_bytes (ReadBinaryByOffset_into_apdu c)"
  have "length apdu = 5" by (simp add: apdu_def ReadBinaryByOffset_into_apdu_def Let_def)
  then have none: "t0_case3_from_short_case4 (CommandApdu_new apdu) = None"
    by (auto simp: t0_case3_from_short_case4_def Let_def split: option.splits)
  have start: "PcscCard_transmit_outcome (unlogged begin_tx) (logged pt) protocol (CommandApdu_new apdu) ([], s) =
      run_t0_exchange (logged (PcscTransmitter_transmit pt)) (CommandApdu_new apdu) ([], s')"
    using assms(1) none by (simp add: PcscCard_transmit_outcome_def unlogged_eq PcscTransmitter_logged)
  have reply: "PcscTransmitter_transmit pt apdu s' = (Inr [0x6C, le], s'')"
    using assms(2) by (simp add: PcscTransmitter_transmit_def map_errS_def apdu_def)
  have "run_t0_exchange (logged (PcscTransmitter_transmit pt)) (CommandApdu_new apdu) ([], s') =
      (Inr (TransportOutcome_Response \<lparr>resp_body = [], resp_sw1 = 0x6C, resp_sw2 = le\<rparr>), ([apdu], s''))"
    by (subst run_t0_exchange.simps)
      (simp add: logged_eq reply split_last_chunk2_def SW1_WRONG_LE_def SW1_BYTES_AVAILABLE_def
        CommandApdu_corrected_wrong_le_def)
  then have "transmit (PcscCard_transmit_outcome (unlogged begin_tx) (logged pt) protocol) apdu ([], s) =
      (Inr \<lparr>resp_body = [], resp_sw1 = 0x6C, resp_sw2 = le\<rparr>, ([apdu], s''))"
    using start by (subst transmit_Inr) simp
  moreover have "cmd_wrong_le_retry (ReadBinaryByOffset_into_apdu c)"
    by (simp add: ReadBinaryByOffset_into_apdu_def Let_def)
  ultimately show ?thesis by (simp add: apdu_def)
qed

theorem typed_read_never_corrected_witness:
  "transmit (PcscCard_transmit_outcome (unlogged (ret ()))
       (logged (scripted (pcsc_NoSmartcard :: unit pcsc_Error))) Protocol_T0)
     (cmd_bytes (ReadBinaryByOffset_into_apdu \<lparr>rboff_offset = 0, rboff_le = 0x80\<rparr>)) ([], [[0x6C, 0x20]]) =
   (Inr \<lparr>resp_body = [], resp_sw1 = 0x6C, resp_sw2 = 0x20\<rparr>,
    ([cmd_bytes (ReadBinaryByOffset_into_apdu \<lparr>rboff_offset = 0, rboff_le = 0x80\<rparr>)], []))"
  using typed_read_never_corrected [of "ret ()" "[[0x6C, 0x20]]" "[[0x6C, 0x20]]"
      "scripted (pcsc_NoSmartcard :: unit pcsc_Error)" "\<lparr>rboff_offset = 0, rboff_le = 0x80\<rparr>" "0x20" "[]"
      Protocol_T0] by simp

end
