(* ===== verification/Pin.thy ===== *)
theory Pin
  imports Prelude
begin

text \<open>
  Secret codes (\<open>pin.rs\<close>): the fixed-capacity PIN carrier and the role types built on it, with
  the activation scheme (\<open>activation.rs\<close>) that decides which activation entry a card takes.
  Zeroisation on drop and the redacted \<open>Debug\<close> forms are not modelled.
\<close>

subsection \<open>Digit validation\<close>

definition is_ascii_digit :: "u8 \<Rightarrow> bool" where
  "is_ascii_digit b \<longleftrightarrow> 0x30 \<le> b \<and> b \<le> 0x39"

datatype PinRoleError =
    PinRoleError_Empty
  | PinRoleError_WrongLength nat nat nat
  | PinRoleError_NonDigit nat

definition validate_digits :: "bytes \<Rightarrow> nat \<Rightarrow> nat \<Rightarrow> PinRoleError + unit" where
  "validate_digits bs mn mx =
     (if bs = [] then Inl PinRoleError_Empty
      else if length bs < mn \<or> length bs > mx
      then Inl (PinRoleError_WrongLength mn mx (length bs))
      else case position (\<lambda>b. \<not> is_ascii_digit b) bs of
             Some at \<Rightarrow> Inl (PinRoleError_NonDigit at)
           | None \<Rightarrow> Inr ())"

definition digits_within :: "nat \<Rightarrow> nat \<Rightarrow> bytes \<Rightarrow> bool" where
  "digits_within mn mx bs \<longleftrightarrow>
     bs \<noteq> [] \<and> mn \<le> length bs \<and> length bs \<le> mx \<and> (\<forall>b \<in> set bs. is_ascii_digit b)"

lemma validate_digits_Inr [simp]: "validate_digits bs mn mx = Inr u \<longleftrightarrow> digits_within mn mx bs"
  by (auto simp: validate_digits_def digits_within_def position_eq_Some split: option.splits)


subsection \<open>PIN bytes\<close>

record PinBytes =
  pin_storage :: bytes
  pin_length :: u8

definition PinBytes_MIN_LENGTH :: nat where "PinBytes_MIN_LENGTH = 4"
definition PinBytes_MAX_LENGTH :: nat where "PinBytes_MAX_LENGTH = 12"

definition PinBytes_digit_count :: "PinBytes \<Rightarrow> nat" where
  "PinBytes_digit_count p = unat (pin_length p)"

definition PinBytes_as_bytes :: "PinBytes \<Rightarrow> bytes" where
  "PinBytes_as_bytes p = take (PinBytes_digit_count p) (pin_storage p)"

definition PinBytes_new :: "bytes \<Rightarrow> PinRoleError + PinBytes" where
  "PinBytes_new bs =
     (case validate_digits bs PinBytes_MIN_LENGTH PinBytes_MAX_LENGTH of
        Inl e \<Rightarrow> Inl e
      | Inr _ \<Rightarrow>
          if length bs > 255
          then Inl (PinRoleError_WrongLength PinBytes_MIN_LENGTH PinBytes_MAX_LENGTH (length bs))
          else let storage = bs @ replicate (PinBytes_MAX_LENGTH - length bs) 0
               in Inr \<lparr>pin_storage = storage, pin_length = of_nat (length bs)\<rparr>)"

definition PinBytes_validate_digits :: "PinBytes \<Rightarrow> nat \<Rightarrow> nat \<Rightarrow> PinRoleError + unit" where
  "PinBytes_validate_digits p mn mx = validate_digits (PinBytes_as_bytes p) mn mx"

lemma PinBytes_new_Inr:
  "PinBytes_new bs = Inr p \<Longrightarrow> digits_within 4 12 bs \<and> PinBytes_as_bytes p = bs"
  by (auto simp: PinBytes_new_def PinBytes_MIN_LENGTH_def PinBytes_MAX_LENGTH_def
      PinBytes_as_bytes_def PinBytes_digit_count_def unsigned_of_nat take_bit_eq_mod digits_within_def
      split: sum.splits if_splits)

interpretation pin_bytes: validated "\<lambda>bs. result_ok (PinBytes_new bs)" PinBytes_as_bytes
  "digits_within 4 12"
proof unfold_locales
  fix bs p
  show "result_ok (PinBytes_new bs) = Some p \<Longrightarrow> digits_within 4 12 bs \<and> PinBytes_as_bytes p = bs"
    by (cases "PinBytes_new bs") (auto dest: PinBytes_new_Inr)
  assume d: "digits_within 4 12 bs"
  then have v: "validate_digits bs PinBytes_MIN_LENGTH PinBytes_MAX_LENGTH = Inr ()"
    by (simp add: PinBytes_MIN_LENGTH_def PinBytes_MAX_LENGTH_def)
  show "result_ok (PinBytes_new bs) \<noteq> None"
    using d unfolding PinBytes_new_def v by (auto simp: digits_within_def Let_def)
qed

text \<open>The well-formed carriers: what \<open>PinBytes::new\<close> returns.\<close>

definition PinBytes_wf :: "PinBytes \<Rightarrow> bool" where
  "PinBytes_wf p \<longleftrightarrow> digits_within 4 12 (PinBytes_as_bytes p)"

lemma PinBytes_new_wf: "PinBytes_new bs = Inr p \<Longrightarrow> PinBytes_wf p"
  using PinBytes_new_Inr by (auto simp: PinBytes_wf_def)


subsection \<open>Roles\<close>

datatype Puk = Puk (Puk_to_pin_bytes: PinBytes)

definition Puk_new :: "PinBytes \<Rightarrow> PinRoleError + Puk" where
  "Puk_new p = bindR (PinBytes_validate_digits p 8 12) (\<lambda>_. Inr (Puk p))"

definition Puk_as_bytes :: "Puk \<Rightarrow> bytes" where
  "Puk_as_bytes k = PinBytes_as_bytes (Puk_to_pin_bytes k)"

definition Puk_digit_count :: "Puk \<Rightarrow> nat" where
  "Puk_digit_count k = PinBytes_digit_count (Puk_to_pin_bytes k)"

datatype ActivationPinSeven = ActivationPinSeven (seven_pin: PinBytes)
datatype ActivationPinEight = ActivationPinEight (eight_pin: PinBytes)

definition ActivationPinSeven_LENGTH :: nat where "ActivationPinSeven_LENGTH = 7"
definition ActivationPinEight_LENGTH :: nat where "ActivationPinEight_LENGTH = 8"

definition ActivationPinSeven_new :: "PinBytes \<Rightarrow> PinRoleError + ActivationPinSeven" where
  "ActivationPinSeven_new p =
     bindR (PinBytes_validate_digits p ActivationPinSeven_LENGTH ActivationPinSeven_LENGTH)
       (\<lambda>_. Inr (ActivationPinSeven p))"

definition ActivationPinEight_new :: "PinBytes \<Rightarrow> PinRoleError + ActivationPinEight" where
  "ActivationPinEight_new p =
     bindR (PinBytes_validate_digits p ActivationPinEight_LENGTH ActivationPinEight_LENGTH)
       (\<lambda>_. Inr (ActivationPinEight p))"

lemma role_new_Inr:
  "bindR (PinBytes_validate_digits p mn mx) (\<lambda>_. Inr (f p)) = Inr t \<longleftrightarrow>
     digits_within mn mx (PinBytes_as_bytes p) \<and> t = f p"
  by (auto simp: bindR_eq_Inr PinBytes_validate_digits_def)

lemma role_new_None:
  "result_ok (bindR (PinBytes_validate_digits p mn mx) (\<lambda>_. Inr (f p))) = None \<longleftrightarrow>
     \<not> digits_within mn mx (PinBytes_as_bytes p)"
  using role_new_Inr [of p mn mx f]
  by (cases "bindR (PinBytes_validate_digits p mn mx) (\<lambda>_. Inr (f p))") auto

lemma result_ok_Some [simp]: "result_ok r = Some x \<longleftrightarrow> r = Inr x"
  by (cases r) auto

interpretation puk: validated "\<lambda>p. result_ok (Puk_new p)" Puk_to_pin_bytes
  "\<lambda>p. digits_within 8 12 (PinBytes_as_bytes p)"
  by unfold_locales (auto simp: Puk_new_def role_new_Inr role_new_None)

interpretation activation_seven: validated "\<lambda>p. result_ok (ActivationPinSeven_new p)" seven_pin
  "\<lambda>p. digits_within 7 7 (PinBytes_as_bytes p)"
  by unfold_locales
    (auto simp: ActivationPinSeven_new_def ActivationPinSeven_LENGTH_def role_new_Inr role_new_None)

interpretation activation_eight: validated "\<lambda>p. result_ok (ActivationPinEight_new p)" eight_pin
  "\<lambda>p. digits_within 8 8 (PinBytes_as_bytes p)"
  by unfold_locales
    (auto simp: ActivationPinEight_new_def ActivationPinEight_LENGTH_def role_new_Inr role_new_None)


subsection \<open>Activation entries\<close>

datatype ActivationScheme =
    ActivationScheme_ActivationCodeIsPuk
  | ActivationScheme_PresetActivationPin

fun ActivationScheme_activation_entry_digit_count :: "ActivationScheme \<Rightarrow> nat" where
  "ActivationScheme_activation_entry_digit_count ActivationScheme_ActivationCodeIsPuk =
     ActivationPinEight_LENGTH"
| "ActivationScheme_activation_entry_digit_count ActivationScheme_PresetActivationPin =
     ActivationPinSeven_LENGTH"

datatype ActivationCode =
    ActivationCode_Seven ActivationPinSeven
  | ActivationCode_Eight ActivationPinEight

definition ActivationCode_for_scheme :: "ActivationScheme \<Rightarrow> PinBytes \<Rightarrow> PinRoleError + ActivationCode" where
  "ActivationCode_for_scheme scheme p =
     (case scheme of
        ActivationScheme_PresetActivationPin \<Rightarrow>
          bindR (ActivationPinSeven_new p) (\<lambda>c. Inr (ActivationCode_Seven c))
      | ActivationScheme_ActivationCodeIsPuk \<Rightarrow>
          bindR (ActivationPinEight_new p) (\<lambda>c. Inr (ActivationCode_Eight c)))"

fun ActivationCode_to_pin_bytes :: "ActivationCode \<Rightarrow> PinBytes" where
  "ActivationCode_to_pin_bytes (ActivationCode_Seven c) = seven_pin c"
| "ActivationCode_to_pin_bytes (ActivationCode_Eight c) = eight_pin c"

definition ActivationCode_as_bytes :: "ActivationCode \<Rightarrow> bytes" where
  "ActivationCode_as_bytes c =
     (case c of ActivationCode_Seven p \<Rightarrow> PinBytes_as_bytes (seven_pin p)
              | ActivationCode_Eight p \<Rightarrow> PinBytes_as_bytes (eight_pin p))"

fun ActivationCode_variant_label :: "ActivationCode \<Rightarrow> string" where
  "ActivationCode_variant_label (ActivationCode_Seven _) = ''ActivationPinSeven''"
| "ActivationCode_variant_label (ActivationCode_Eight _) = ''ActivationPinEight''"

lemma activation_code_for_scheme_iff:
  "(\<exists>c. ActivationCode_for_scheme scheme p = Inr c \<and> ActivationCode_to_pin_bytes c = p) \<longleftrightarrow>
     digits_within (ActivationScheme_activation_entry_digit_count scheme)
       (ActivationScheme_activation_entry_digit_count scheme) (PinBytes_as_bytes p)"
  by (cases scheme)
    (auto simp: ActivationCode_for_scheme_def bindR_eq_Inr ActivationPinSeven_new_def
      ActivationPinEight_new_def role_new_Inr PinBytes_validate_digits_def)


subsection \<open>Properties\<close>

text \<open>
  The secret-code types admit exactly the codes of their role and keep them unchanged:
  \<open>PinBytes::new\<close> the codes of 4 to 12 ASCII digits, \<open>Puk::new\<close> those of 8 to 12, and
  \<open>ActivationCode::for_scheme\<close> exactly the digit count the card's scheme takes, 7 for a preset
  activation PIN and 8 where the activation code is the PUK.
\<close>

theorem secret_codes_validate:
  "((\<exists>p. PinBytes_new bs = Inr p \<and> PinBytes_as_bytes p = bs) \<longleftrightarrow>
      4 \<le> length bs \<and> length bs \<le> 12 \<and> list_all is_ascii_digit bs) \<and>
   ((\<exists>k. Puk_new p = Inr k \<and> Puk_to_pin_bytes k = p) \<longleftrightarrow>
      8 \<le> length (PinBytes_as_bytes p) \<and> length (PinBytes_as_bytes p) \<le> 12 \<and>
      list_all is_ascii_digit (PinBytes_as_bytes p)) \<and>
   ((\<exists>c. ActivationCode_for_scheme scheme p = Inr c \<and> ActivationCode_to_pin_bytes c = p) \<longleftrightarrow>
      length (PinBytes_as_bytes p) = (case scheme of ActivationScheme_ActivationCodeIsPuk \<Rightarrow> 8
                                        | ActivationScheme_PresetActivationPin \<Rightarrow> 7) \<and>
      list_all is_ascii_digit (PinBytes_as_bytes p))"
proof (intro conjI)
  show "(\<exists>p. PinBytes_new bs = Inr p \<and> PinBytes_as_bytes p = bs) \<longleftrightarrow>
      4 \<le> length bs \<and> length bs \<le> 12 \<and> list_all is_ascii_digit bs"
    using pin_bytes.accepts_iff [of bs] pin_bytes.mk_Some [of bs] by (auto simp: digits_within_def list_all_iff)
  show "(\<exists>k. Puk_new p = Inr k \<and> Puk_to_pin_bytes k = p) \<longleftrightarrow>
      8 \<le> length (PinBytes_as_bytes p) \<and> length (PinBytes_as_bytes p) \<le> 12 \<and>
      list_all is_ascii_digit (PinBytes_as_bytes p)"
    using puk.accepts_iff [of p] puk.mk_Some [of p] by (auto simp: digits_within_def list_all_iff)
  show "(\<exists>c. ActivationCode_for_scheme scheme p = Inr c \<and> ActivationCode_to_pin_bytes c = p) \<longleftrightarrow>
      length (PinBytes_as_bytes p) = (case scheme of ActivationScheme_ActivationCodeIsPuk \<Rightarrow> 8
                                        | ActivationScheme_PresetActivationPin \<Rightarrow> 7) \<and>
      list_all is_ascii_digit (PinBytes_as_bytes p)"
    unfolding activation_code_for_scheme_iff
    by (cases scheme) (auto simp: digits_within_def list_all_iff ActivationPinSeven_LENGTH_def ActivationPinEight_LENGTH_def)
qed

end
