(* ===== verification/Pin_Commands.thy ===== *)
theory Pin_Commands
  imports Apdu Pin
begin

text \<open>
  Credential references and the PIN-management commands (\<open>auth.rs\<close>, \<open>auth/commands.rs\<close>): which
  reference byte names which credential under each card numbering, the serialisers, and the
  scanners of the PIN-container response.
\<close>

subsection \<open>Credential references\<close>

definition PIN1_REFERENCE_PKCS15 :: u8 where "PIN1_REFERENCE_PKCS15 = 0x11"
definition PIN2_REFERENCE_PKCS15 :: u8 where "PIN2_REFERENCE_PKCS15 = 0x82"
definition PUK_REFERENCE_PKCS15 :: u8 where "PUK_REFERENCE_PKCS15 = 0x83"
definition PIN1_REFERENCE_ORGANIZATIONAL :: u8 where "PIN1_REFERENCE_ORGANIZATIONAL = 0x03"
definition PIN2_REFERENCE_ORGANIZATIONAL :: u8 where "PIN2_REFERENCE_ORGANIZATIONAL = 0x04"
definition PUK_REFERENCE_ORGANIZATIONAL :: u8 where "PUK_REFERENCE_ORGANIZATIONAL = 0x12"
definition PIN1_STORED_LENGTH :: nat where "PIN1_STORED_LENGTH = 12"
definition PIN2_STORED_LENGTH :: nat where "PIN2_STORED_LENGTH = 12"
definition PUK_STORED_LENGTH :: nat where "PUK_STORED_LENGTH = 12"
definition PIN_PAD_BYTE :: u8 where "PIN_PAD_BYTE = 0x00"
definition PIN_MIN_LENGTH :: nat where "PIN_MIN_LENGTH = 4"
definition PIN_MAX_LENGTH :: nat where "PIN_MAX_LENGTH = PIN1_STORED_LENGTH"
definition FINEID_PIN1_MIN_LENGTH :: nat where "FINEID_PIN1_MIN_LENGTH = 4"
definition FINEID_PIN2_MIN_LENGTH :: nat where "FINEID_PIN2_MIN_LENGTH = 6"
definition PUK_MIN_LENGTH :: nat where "PUK_MIN_LENGTH = 8"
definition PUK_MAX_LENGTH :: nat where "PUK_MAX_LENGTH = PUK_STORED_LENGTH"

lemmas reference_defs =
  PIN1_REFERENCE_PKCS15_def PIN2_REFERENCE_PKCS15_def PUK_REFERENCE_PKCS15_def
  PIN1_REFERENCE_ORGANIZATIONAL_def PIN2_REFERENCE_ORGANIZATIONAL_def PUK_REFERENCE_ORGANIZATIONAL_def

lemmas length_defs =
  PIN1_STORED_LENGTH_def PIN2_STORED_LENGTH_def PUK_STORED_LENGTH_def PIN_MIN_LENGTH_def
  PIN_MAX_LENGTH_def FINEID_PIN1_MIN_LENGTH_def FINEID_PIN2_MIN_LENGTH_def PUK_MIN_LENGTH_def
  PUK_MAX_LENGTH_def

datatype PinSlot = PinSlot_Pin1 | PinSlot_Pin2

datatype PinReferenceScheme = PinReferenceScheme_Citizen | PinReferenceScheme_Organizational

fun PinReferenceScheme_reference :: "PinReferenceScheme \<Rightarrow> PinSlot \<Rightarrow> u8" where
  "PinReferenceScheme_reference PinReferenceScheme_Citizen PinSlot_Pin1 = PIN1_REFERENCE_PKCS15"
| "PinReferenceScheme_reference PinReferenceScheme_Citizen PinSlot_Pin2 = PIN2_REFERENCE_PKCS15"
| "PinReferenceScheme_reference PinReferenceScheme_Organizational PinSlot_Pin1 =
     PIN1_REFERENCE_ORGANIZATIONAL"
| "PinReferenceScheme_reference PinReferenceScheme_Organizational PinSlot_Pin2 =
     PIN2_REFERENCE_ORGANIZATIONAL"

definition gates_esign_directory :: "PinReferenceScheme \<Rightarrow> PinSlot \<Rightarrow> bool" where
  "gates_esign_directory scheme slot \<longleftrightarrow>
     scheme = PinReferenceScheme_Organizational \<and> slot = PinSlot_Pin2"

fun puk_reference :: "PinReferenceScheme \<Rightarrow> u8" where
  "puk_reference PinReferenceScheme_Citizen = PUK_REFERENCE_PKCS15"
| "puk_reference PinReferenceScheme_Organizational = PUK_REFERENCE_ORGANIZATIONAL"

datatype CredentialReference =
    CredentialReference_Pin PinReferenceScheme PinSlot
  | CredentialReference_Puk PinReferenceScheme

fun CredentialReference_as_byte :: "CredentialReference \<Rightarrow> u8" where
  "CredentialReference_as_byte (CredentialReference_Pin scheme slot) =
     PinReferenceScheme_reference scheme slot"
| "CredentialReference_as_byte (CredentialReference_Puk scheme) = puk_reference scheme"

fun PinSlot_stored_length :: "PinSlot \<Rightarrow> nat" where
  "PinSlot_stored_length PinSlot_Pin1 = PIN1_STORED_LENGTH"
| "PinSlot_stored_length PinSlot_Pin2 = PIN2_STORED_LENGTH"

lemma stored_length_12 [simp]: "PinSlot_stored_length slot = 12"
  by (cases slot) (simp_all add: length_defs)

text \<open>No two credentials share a reference byte, over both numberings.\<close>

lemma credential_reference_injective:
  "CredentialReference_as_byte r = CredentialReference_as_byte r' \<longleftrightarrow> r = r'"
  by (cases r rule: CredentialReference_as_byte.cases; cases r' rule: CredentialReference_as_byte.cases)
    (auto simp: reference_defs elim!: PinReferenceScheme_reference.elims puk_reference.elims)


subsection \<open>Commands\<close>

datatype VerifyMode = VerifyMode_Verify | VerifyMode_Unverify

fun VerifyMode_as_p1 :: "VerifyMode \<Rightarrow> u8" where
  "VerifyMode_as_p1 VerifyMode_Verify = 0x00"
| "VerifyMode_as_p1 VerifyMode_Unverify = 0xFF"

datatype VerifyData = VerifyData_Probe | VerifyData_PinBlock bytes

record Verify =
  verify_class :: ApduClass
  verify_mode :: VerifyMode
  verify_reference :: CredentialReference
  verify_data :: VerifyData

fun verify_pin_bytes :: "VerifyData \<Rightarrow> bytes" where
  "verify_pin_bytes VerifyData_Probe = []"
| "verify_pin_bytes (VerifyData_PinBlock bs) = bs"

text \<open>A data field beyond 255 bytes is unreachable in the source and panics there: \<open>None\<close>.\<close>

definition Verify_into_apdu :: "Verify \<Rightarrow> CommandApdu option" where
  "Verify_into_apdu c =
     (let pin_bytes = verify_pin_bytes (verify_data c)
      in case u8_try_from (length pin_bytes) of
           None \<Rightarrow> None
         | Some lc \<Rightarrow> Some (CommandApdu_new
             ([ApduClass_as_byte (verify_class c), 0x20, VerifyMode_as_p1 (verify_mode c),
               CredentialReference_as_byte (verify_reference c), lc] @ pin_bytes)))"

record ChangeReferenceData =
  crd_reference :: CredentialReference
  crd_padded_pair :: bytes

definition ChangeReferenceData_into_apdu :: "ChangeReferenceData \<Rightarrow> CommandApdu option" where
  "ChangeReferenceData_into_apdu c =
     (case u8_try_from (length (crd_padded_pair c)) of
        None \<Rightarrow> None
      | Some lc \<Rightarrow> Some (CommandApdu_new
          ([0x00, 0x24, 0x00, CredentialReference_as_byte (crd_reference c), lc] @ crd_padded_pair c)))"

datatype ResetRetryCounterMode = ResetRetryCounterMode_CodeThenNew | ResetRetryCounterMode_NewOnly

fun ResetRetryCounterMode_as_p1 :: "ResetRetryCounterMode \<Rightarrow> u8" where
  "ResetRetryCounterMode_as_p1 ResetRetryCounterMode_CodeThenNew = 0x00"
| "ResetRetryCounterMode_as_p1 ResetRetryCounterMode_NewOnly = 0x02"

record ResetRetryCounter =
  rrc_target :: CredentialReference
  rrc_mode :: ResetRetryCounterMode
  rrc_padded_pair :: bytes

definition ResetRetryCounter_into_apdu :: "ResetRetryCounter \<Rightarrow> CommandApdu option" where
  "ResetRetryCounter_into_apdu c =
     (case u8_try_from (length (rrc_padded_pair c)) of
        None \<Rightarrow> None
      | Some lc \<Rightarrow> Some (CommandApdu_new
          ([0x00, 0x2C, ResetRetryCounterMode_as_p1 (rrc_mode c),
            CredentialReference_as_byte (rrc_target c), lc] @ rrc_padded_pair c)))"

datatype PinInfoReference =
    PinInfoReference_User PinReferenceScheme PinSlot
  | PinInfoReference_Puk

fun PinInfoReference_as_byte :: "PinInfoReference \<Rightarrow> u8" where
  "PinInfoReference_as_byte (PinInfoReference_User scheme slot) =
     CredentialReference_as_byte (CredentialReference_Pin scheme slot)"
| "PinInfoReference_as_byte PinInfoReference_Puk = PUK_REFERENCE_PKCS15"

record GetPinInfo =
  gpi_scheme :: PinReferenceScheme
  gpi_slot :: PinSlot

definition GetPinInfo_for_reference :: "PinInfoReference \<Rightarrow> CommandApdu" where
  "GetPinInfo_for_reference r =
     CommandApdu_new [0x00, 0xCB, 0x00, 0xFF, 0x05, 0xA0, 0x03, 0x83, 0x01, PinInfoReference_as_byte r, 0x00]"

definition GetPinInfo_into_apdu :: "GetPinInfo \<Rightarrow> CommandApdu" where
  "GetPinInfo_into_apdu c = GetPinInfo_for_reference (PinInfoReference_User (gpi_scheme c) (gpi_slot c))"

definition GetPukInfo_into_apdu :: CommandApdu where
  "GetPukInfo_into_apdu = GetPinInfo_for_reference PinInfoReference_Puk"


subsection \<open>PIN-container responses\<close>

definition changed_flag_from_response_body :: "bytes \<Rightarrow> bool option" where
  "changed_flag_from_response_body body =
     find_map (\<lambda>w. if w ! 0 = 0xDF \<and> w ! 1 = 0x2F \<and> w ! 2 = 1 then Some (w ! 3 = 1) else None)
       (windows 4 body)"

definition try_counter_from_response_body :: "bytes \<Rightarrow> PinRetries option" where
  "try_counter_from_response_body body =
     find_map (\<lambda>w. if w ! 0 = 0xDF \<and> w ! 1 = 0x21 \<and> w ! 2 = 0x04
                   then PinRetries_from_nibble (w ! 3) else None)
       (windows 7 body)"

text \<open>The length range type is of the \<open>refineid_pkcs15\<close> crate; \<open>new_range\<close> is its constructor.\<close>

definition policy_lengths_from_response_body :: "(u8 \<Rightarrow> u8 \<Rightarrow> 'r option) \<Rightarrow> bytes \<Rightarrow> 'r option" where
  "policy_lengths_from_response_body new_range body =
     find_map (\<lambda>w. if w ! 0 = 0xDF \<and> w ! 1 = 0x3F \<and> w ! 2 = 20 then
                     let in_range = (\<lambda>len. (4::u8) \<le> len \<and> len \<le> 64)
                     in if \<not> in_range (w ! 4) \<or> \<not> in_range (w ! 5) then None
                        else new_range (w ! 4) (w ! 5)
                   else None)
       (windows 23 body)"

datatype UsageCounter = UsageCounter_Exhausted | UsageCounter_Limited u8 | UsageCounter_NoLimit
datatype UnblockingCounter =
    UnblockingCounter_Exhausted | UnblockingCounter_Limited u8 | UnblockingCounter_NoLimit

record CredentialPolicyCounters =
  cpc_usage :: UsageCounter
  cpc_unblocking :: UnblockingCounter

definition policy_counters_of_window :: "bytes \<Rightarrow> CredentialPolicyCounters option" where
  "policy_counters_of_window w =
     (if w ! 0 = 0xDF \<and> w ! 1 = 0x21 \<and> w ! 2 = 0x04 then
        let usage = (if w ! 4 = 0 then UsageCounter_Exhausted
                     else if w ! 4 = 0xFF then UsageCounter_NoLimit
                     else UsageCounter_Limited (w ! 4))
        in if w ! 5 = 0 then Some \<lparr>cpc_usage = usage, cpc_unblocking = UnblockingCounter_Exhausted\<rparr>
           else if w ! 5 = 0xA5 then Some \<lparr>cpc_usage = usage, cpc_unblocking = UnblockingCounter_NoLimit\<rparr>
           else if w ! 5 \<le> 0x0F
           then Some \<lparr>cpc_usage = usage, cpc_unblocking = UnblockingCounter_Limited (w ! 5)\<rparr>
           else None
      else None)"

definition policy_counters_from_response_body :: "bytes \<Rightarrow> CredentialPolicyCounters option" where
  "policy_counters_from_response_body body = find_map policy_counters_of_window (windows 7 body)"


subsection \<open>The builders emit short commands\<close>

lemma of_nat_u8_try_from [simp]: "n \<le> 255 \<Longrightarrow> u8_try_from n = Some (of_nat n)"
  by (simp add: u8_try_from_def)

interpretation verify: apdu_builder "\<lambda>c. the (Verify_into_apdu c)"
  "\<lambda>c. length (verify_pin_bytes (verify_data c)) \<le> 255"
  "\<lambda>c. [ApduClass_as_byte (verify_class c), 0x20, VerifyMode_as_p1 (verify_mode c),
        CredentialReference_as_byte (verify_reference c)]"
  "\<lambda>c. verify_pin_bytes (verify_data c)"
  "\<lambda>c. if verify_pin_bytes (verify_data c) = [] then Some 0 else None"
  by unfold_locales (auto simp: Verify_into_apdu_def short_apdu_def Let_def)

interpretation change_reference_data: apdu_builder "\<lambda>c. the (ChangeReferenceData_into_apdu c)"
  "\<lambda>c. crd_padded_pair c \<noteq> [] \<and> length (crd_padded_pair c) \<le> 255"
  "\<lambda>c. [0x00, 0x24, 0x00, CredentialReference_as_byte (crd_reference c)]" crd_padded_pair "\<lambda>_. None"
  by unfold_locales (auto simp: ChangeReferenceData_into_apdu_def short_apdu_def)

interpretation reset_retry_counter_cmd: apdu_builder "\<lambda>c. the (ResetRetryCounter_into_apdu c)"
  "\<lambda>c. rrc_padded_pair c \<noteq> [] \<and> length (rrc_padded_pair c) \<le> 255"
  "\<lambda>c. [0x00, 0x2C, ResetRetryCounterMode_as_p1 (rrc_mode c), CredentialReference_as_byte (rrc_target c)]"
  rrc_padded_pair "\<lambda>_. None"
  by unfold_locales (auto simp: ResetRetryCounter_into_apdu_def short_apdu_def)

interpretation get_pin_info: apdu_builder GetPinInfo_into_apdu "\<lambda>_. True" "\<lambda>_. [0x00, 0xCB, 0x00, 0xFF]"
  "\<lambda>c. [0xA0, 0x03, 0x83, 0x01, PinReferenceScheme_reference (gpi_scheme c) (gpi_slot c)]" "\<lambda>_. Some 0x00"
  by unfold_locales (auto simp: GetPinInfo_into_apdu_def GetPinInfo_for_reference_def short_apdu_def)


subsection \<open>The scanners\<close>

text \<open>The scanners find an object wherever it stands, unless an earlier window matches.\<close>

lemma windows_Cons:
  "windows n (x # xs) = (if n = 0 \<or> length (x # xs) < n then [] else take n (x # xs) # windows n xs)"
  by (subst windows.simps) simp

lemma windows_short: "length xs < n \<Longrightarrow> windows n xs = []"
  by (subst windows.simps) simp

lemma find_map_windows_append:
  assumes "0 < n" "n \<le> length obj"
    and "\<forall>i < length pre. f (take n (drop i (pre @ obj @ post))) = None"
  shows "find_map f (windows n (pre @ obj @ post)) = find_map f (windows n (obj @ post))"
  using assms(3)
proof (induction pre)
  case (Cons x pre)
  have "f (take n (x # pre @ obj @ post)) = None" using Cons.prems by force
  moreover have "\<forall>i < length pre. f (take n (drop i (pre @ obj @ post))) = None"
    using Cons.prems by force
  moreover have "\<not> length (x # pre @ obj @ post) < n" using assms by simp
  ultimately show ?case using Cons.IH assms(1) by (simp add: windows_Cons)
qed simp

lemma take3_iff: "3 \<le> length w \<Longrightarrow> take 3 w = [a, b, c] \<longleftrightarrow> w ! 0 = a \<and> w ! 1 = b \<and> w ! 2 = c"
  by (cases w; cases "tl w"; cases "tl (tl w)") (auto simp: numeral_3_eq_3)

lemma try_counter_bound: "try_counter_from_response_body body = Some r \<Longrightarrow> PinRetries_get r \<le> 0x0F"
  unfolding try_counter_from_response_body_def
  by (drule find_map_Some) (auto split: if_splits dest: pin_retries.raw_valid)


subsection \<open>Properties\<close>

text \<open>
  No two credentials can be confused on the wire: over both card numberings, distinct
  credentials (PIN 1, PIN 2, PUK of a citizen card, PIN 1, PIN 2, PUK of an organization card)
  have distinct reference bytes.
\<close>

theorem credential_references_distinct:
  "CredentialReference_as_byte r = CredentialReference_as_byte r' \<longleftrightarrow> r = r'"
  by (rule credential_reference_injective)

text \<open>
  The PUK try counter is read out of the PIN container: when the attributes object
  \<open>DF 21 04\<close> stands in the body and no earlier window looks like one, the counter returned is
  its first value byte if that fits a nibble.
\<close>

theorem try_counter_found:
  assumes "t \<le> 0x0F"
    and "\<forall>i < length pre. \<not> (take 3 (drop i (pre @ [0xDF, 0x21, 0x04, t, u, v, w] @ post)) = [0xDF, 0x21, 0x04])"
  shows "try_counter_from_response_body (pre @ [0xDF, 0x21, 0x04, t, u, v, w] @ post) = Some (PinRetries t)"
proof -
  let ?obj = "[0xDF, 0x21, 0x04, t, u, v, w]"
  let ?f = "\<lambda>w. if w ! 0 = 0xDF \<and> w ! 1 = 0x21 \<and> w ! 2 = 0x04 then PinRetries_from_nibble (w ! 3) else None"
  have "?f (take 7 (drop i (pre @ ?obj @ post))) = None" if "i < length pre" for i
  proof -
    let ?w = "take 7 (drop i (pre @ ?obj @ post))"
    have "take 3 ?w = take 3 (drop i (pre @ ?obj @ post))" by (subst take_take) simp
    moreover have "3 \<le> length ?w" using that by simp
    ultimately show ?thesis using assms(2) that take3_iff [of ?w "0xDF" "0x21" "0x04"] by auto
  qed
  then have "try_counter_from_response_body (pre @ ?obj @ post) = find_map ?f (windows 7 (?obj @ post))"
    unfolding try_counter_from_response_body_def by (intro find_map_windows_append) auto
  also have "\<dots> = Some (PinRetries t)"
    using assms(1) by (simp add: windows_Cons PinRetries_from_nibble_def not_less [symmetric])
  finally show ?thesis .
qed

theorem try_counter_found_witness:
  "try_counter_from_response_body
     ([0xA0] @ [0xDF, 0x21, 0x04, 0x05, 0xFF, 0x00, 0x00] @ [0xDF, 0x2F]) = Some (PinRetries 5)"
  by (rule try_counter_found) simp_all

end
