(* ===== verification/Pin_Lengths.thy ===== *)
theory Pin_Lengths
  imports Pin_Commands
begin

text \<open>
  The PIN and PUK lengths of the card in session (\<open>auth/pin_lengths.rs\<close>). The length range type
  and the decoded EF.AOD are of the \<open>refineid_pkcs15\<close> crate: their operations are the record
  \<open>range_ops\<close>, an argument of the definitions, and \<open>range_laws\<close> states what that crate documents.
\<close>

section \<open>The code\<close>

datatype PinPolicyReason =
    PinPolicyReason_WrongLength (reason_got: nat) (reason_min: nat) (reason_max: nat)
  | PinPolicyReason_NonDigit (reason_byte_offset: nat)
  | PinPolicyReason_NoAcceptedLength

record ('aod, 'r) range_ops =
  range_new :: "u8 \<Rightarrow> u8 \<Rightarrow> 'r option"
  range_min :: "'r \<Rightarrow> nat"
  range_max :: "'r \<Rightarrow> nat"
  range_contains :: "'r \<Rightarrow> nat \<Rightarrow> bool"
  range_intersection :: "'r \<Rightarrow> 'r \<Rightarrow> 'r option"
  aod_passwords :: "'aod \<Rightarrow> (u8 \<times> 'r) list"

definition SPECIFIC_REFERENCE_BIT :: u8 where "SPECIFIC_REFERENCE_BIT = 0x80"

text \<open>\<open>length_range\<close> is evaluated at compile time; where it is \<open>None\<close> there is no program.\<close>

definition length_range :: "('aod, 'r) range_ops \<Rightarrow> nat \<Rightarrow> nat \<Rightarrow> 'r option" where
  "length_range ops mn mx =
     (if mn \<le> 255 \<and> mx \<le> 255 then range_new ops (of_nat mn) (of_nat mx) else None)"

definition PIN_CAPACITY :: "('aod, 'r) range_ops \<Rightarrow> 'r" where
  "PIN_CAPACITY ops = the (length_range ops PIN_MIN_LENGTH PIN_MAX_LENGTH)"
definition PUK_CAPACITY :: "('aod, 'r) range_ops \<Rightarrow> 'r" where
  "PUK_CAPACITY ops = the (length_range ops PUK_MIN_LENGTH PUK_MAX_LENGTH)"
definition FINEID_PIN1_BOUNDS :: "('aod, 'r) range_ops \<Rightarrow> 'r" where
  "FINEID_PIN1_BOUNDS ops = the (length_range ops FINEID_PIN1_MIN_LENGTH PIN_MAX_LENGTH)"
definition FINEID_PIN2_BOUNDS :: "('aod, 'r) range_ops \<Rightarrow> 'r" where
  "FINEID_PIN2_BOUNDS ops = the (length_range ops FINEID_PIN2_MIN_LENGTH PIN_MAX_LENGTH)"
definition FINEID_PUK_BOUNDS :: "('aod, 'r) range_ops \<Rightarrow> 'r" where
  "FINEID_PUK_BOUNDS ops = PUK_CAPACITY ops"

definition names :: "u8 \<Rightarrow> u8 \<Rightarrow> bool" where
  "names listed expected \<longleftrightarrow> (listed OR SPECIFIC_REFERENCE_BIT) = (expected OR SPECIFIC_REFERENCE_BIT)"

definition directory_range :: "('aod, 'r) range_ops \<Rightarrow> 'aod \<Rightarrow> u8 \<Rightarrow> 'r option" where
  "directory_range ops objects expected =
     (case filter (\<lambda>object. names (fst object) expected) (aod_passwords ops objects) of
        [] \<Rightarrow> None
      | [first] \<Rightarrow> Some (snd first)
      | _ \<Rightarrow> None)"

definition accepted :: "('aod, 'r) range_ops \<Rightarrow> 'r option \<Rightarrow> 'r \<Rightarrow> 'r \<Rightarrow> 'r option" where
  "accepted ops listed capacity fallback =
     (case listed of Some rng \<Rightarrow> range_intersection ops rng capacity | None \<Rightarrow> Some fallback)"

record 'r CardPinLengths =
  cpl_numbering :: PinReferenceScheme
  cpl_pin1 :: "'r option"
  cpl_pin2 :: "'r option"
  cpl_puk :: "'r option"

definition CardPinLengths_from_listed ::
  "('aod, 'r) range_ops \<Rightarrow> PinReferenceScheme \<Rightarrow> 'r option \<Rightarrow> 'r option \<Rightarrow> 'r option \<Rightarrow> 'r CardPinLengths" where
  "CardPinLengths_from_listed ops numbering pin1 pin2 puk =
     \<lparr>cpl_numbering = numbering,
      cpl_pin1 = accepted ops pin1 (PIN_CAPACITY ops) (FINEID_PIN1_BOUNDS ops),
      cpl_pin2 = accepted ops pin2 (PIN_CAPACITY ops) (FINEID_PIN2_BOUNDS ops),
      cpl_puk = accepted ops puk (PUK_CAPACITY ops) (FINEID_PUK_BOUNDS ops)\<rparr>"

definition CardPinLengths_not_listed ::
  "('aod, 'r) range_ops \<Rightarrow> PinReferenceScheme \<Rightarrow> 'r CardPinLengths" where
  "CardPinLengths_not_listed ops numbering = CardPinLengths_from_listed ops numbering None None None"

text \<open>The closure \<open>policy\<close> is \<open>FnMut\<close>: it threads a state of its own.\<close>

definition listed_range ::
  "('aod, 'r) range_ops \<Rightarrow> 'aod option \<Rightarrow> (CredentialReference \<Rightarrow> 's \<Rightarrow> 'r option \<times> 's) \<Rightarrow>
     CredentialReference \<Rightarrow> 's \<Rightarrow> 'r option \<times> 's" where
  "listed_range ops objects policy credential s =
     (case Option.bind objects (\<lambda>o'. directory_range ops o' (CredentialReference_as_byte credential)) of
        Some rng \<Rightarrow> (Some rng, s)
      | None \<Rightarrow> policy credential s)"

definition CardPinLengths_from_card ::
  "('aod, 'r) range_ops \<Rightarrow> PinReferenceScheme \<Rightarrow> 'aod option \<Rightarrow>
     (CredentialReference \<Rightarrow> 's \<Rightarrow> 'r option \<times> 's) \<Rightarrow> 's \<Rightarrow> 'r CardPinLengths \<times> 's" where
  "CardPinLengths_from_card ops numbering objects policy s =
     (let (pin1, s) = listed_range ops objects policy (CredentialReference_Pin numbering PinSlot_Pin1) s;
          (pin2, s) = listed_range ops objects policy (CredentialReference_Pin numbering PinSlot_Pin2) s;
          (puk, s) = listed_range ops objects policy (CredentialReference_Puk numbering) s
      in (CardPinLengths_from_listed ops numbering pin1 pin2 puk, s))"

fun CardPinLengths_slot :: "'r CardPinLengths \<Rightarrow> PinSlot \<Rightarrow> 'r option" where
  "CardPinLengths_slot lengths PinSlot_Pin1 = cpl_pin1 lengths"
| "CardPinLengths_slot lengths PinSlot_Pin2 = cpl_pin2 lengths"

definition check_length :: "('aod, 'r) range_ops \<Rightarrow> 'r option \<Rightarrow> nat \<Rightarrow> PinPolicyReason + unit" where
  "check_length ops acc digit_count =
     (case acc of
        Some rng \<Rightarrow>
          if range_contains ops rng digit_count then Inr ()
          else Inl (PinPolicyReason_WrongLength digit_count (range_min ops rng) (range_max ops rng))
      | None \<Rightarrow> Inl PinPolicyReason_NoAcceptedLength)"

definition check_pin :: "('aod, 'r) range_ops \<Rightarrow> 'r CardPinLengths \<Rightarrow> PinSlot \<Rightarrow> nat \<Rightarrow> PinPolicyReason + unit" where
  "check_pin ops lengths slot digit_count = check_length ops (CardPinLengths_slot lengths slot) digit_count"

definition check_puk :: "('aod, 'r) range_ops \<Rightarrow> 'r CardPinLengths \<Rightarrow> nat \<Rightarrow> PinPolicyReason + unit" where
  "check_puk ops lengths digit_count = check_length ops (cpl_puk lengths) digit_count"


section \<open>Laws of the length range type\<close>

definition range_laws :: "('aod, 'r) range_ops \<Rightarrow> bool" where
  "range_laws ops \<longleftrightarrow>
     (\<forall>a b. range_new ops a b = None \<longleftrightarrow> b < a) \<and>
     (\<forall>a b r. range_new ops a b = Some r \<longrightarrow> range_min ops r = unat a \<and> range_max ops r = unat b) \<and>
     (\<forall>r n. range_contains ops r n \<longleftrightarrow> range_min ops r \<le> n \<and> n \<le> range_max ops r) \<and>
     (\<forall>r q. case range_intersection ops r q of
              Some i \<Rightarrow> \<forall>n. range_contains ops i n \<longleftrightarrow> range_contains ops r n \<and> range_contains ops q n
            | None \<Rightarrow> \<forall>n. \<not> (range_contains ops r n \<and> range_contains ops q n))"

text \<open>A range as a pair of octets, and EF.AOD as the list of its entries.\<close>

definition pair_ranges :: "((u8 \<times> u8 \<times> u8) list, u8 \<times> u8) range_ops" where
  "pair_ranges =
     \<lparr>range_new = (\<lambda>a b. if b < a then None else Some (a, b)),
      range_min = (\<lambda>(a, b). unat a),
      range_max = (\<lambda>(a, b). unat b),
      range_contains = (\<lambda>(a, b) n. unat a \<le> n \<and> n \<le> unat b),
      range_intersection = (\<lambda>(a, b) (c, d). if min b d < max a c then None else Some (max a c, min b d)),
      aod_passwords = (\<lambda>o'. map (\<lambda>(ref, a, b). (ref, (a, b))) o')\<rparr>"

lemma pair_ranges_laws: "range_laws pair_ranges"
  by (auto simp: range_laws_def pair_ranges_def max_def min_def word_less_nat_alt word_le_nat_alt
      split: if_splits prod.splits)

lemma range_new_contains:
  assumes "range_laws ops" "a \<le> b" "b \<le> 255"
  shows "range_contains ops (the (length_range ops a b)) n \<longleftrightarrow> a \<le> n \<and> n \<le> b"
proof -
  have "\<not> (of_nat b :: u8) < of_nat a"
    using assms(2,3) by (simp add: word_less_nat_alt unsigned_of_nat take_bit_eq_mod)
  then have "range_new ops (of_nat a) (of_nat b) \<noteq> None"
    using assms(1) by (auto simp: range_laws_def)
  then obtain r where "range_new ops (of_nat a) (of_nat b) = Some r" by blast
  then show ?thesis using assms
    by (auto simp: length_range_def range_laws_def unsigned_of_nat take_bit_eq_mod)
qed

lemma capacity_contains:
  assumes "range_laws ops"
  shows "range_contains ops (PIN_CAPACITY ops) n \<longleftrightarrow> 4 \<le> n \<and> n \<le> 12"
    and "range_contains ops (PUK_CAPACITY ops) n \<longleftrightarrow> 8 \<le> n \<and> n \<le> 12"
    and "range_contains ops (FINEID_PIN1_BOUNDS ops) n \<longleftrightarrow> 4 \<le> n \<and> n \<le> 12"
    and "range_contains ops (FINEID_PIN2_BOUNDS ops) n \<longleftrightarrow> 6 \<le> n \<and> n \<le> 12"
    and "range_contains ops (FINEID_PUK_BOUNDS ops) n \<longleftrightarrow> 8 \<le> n \<and> n \<le> 12"
  using assms
  by (simp_all add: PIN_CAPACITY_def PUK_CAPACITY_def FINEID_PIN1_BOUNDS_def FINEID_PIN2_BOUNDS_def
      FINEID_PUK_BOUNDS_def range_new_contains PIN_MIN_LENGTH_def PIN_MAX_LENGTH_def
      PUK_MIN_LENGTH_def PUK_MAX_LENGTH_def FINEID_PIN1_MIN_LENGTH_def FINEID_PIN2_MIN_LENGTH_def
      PIN1_STORED_LENGTH_def PUK_STORED_LENGTH_def)

lemma check_accepted:
  assumes "range_laws ops"
  shows "check_length ops (accepted ops listed capacity fallback) n = Inr () \<longleftrightarrow>
    (case listed of
       Some r \<Rightarrow> range_contains ops r n \<and> range_contains ops capacity n
     | None \<Rightarrow> range_contains ops fallback n)"
proof (cases listed)
  case (Some r)
  have "case range_intersection ops r capacity of
      Some i \<Rightarrow> \<forall>n. range_contains ops i n \<longleftrightarrow> range_contains ops r n \<and> range_contains ops capacity n
    | None \<Rightarrow> \<forall>n. \<not> (range_contains ops r n \<and> range_contains ops capacity n)"
    using assms by (simp add: range_laws_def)
  then show ?thesis
    using Some by (auto simp: check_length_def accepted_def split: option.splits if_splits)
qed (simp add: check_length_def accepted_def)

text \<open>Every length the checks admit is one the commands carry.\<close>

definition lengths_within_capacity :: "('aod, 'r) range_ops \<Rightarrow> 'r CardPinLengths \<Rightarrow> bool" where
  "lengths_within_capacity ops lengths \<longleftrightarrow>
     (\<forall>slot n. check_pin ops lengths slot n = Inr () \<longrightarrow> 4 \<le> n \<and> n \<le> 12) \<and>
     (\<forall>n. check_puk ops lengths n = Inr () \<longrightarrow> 8 \<le> n \<and> n \<le> 12)"

lemma from_listed_within_capacity:
  assumes "range_laws ops"
  shows "lengths_within_capacity ops (CardPinLengths_from_listed ops numbering pin1 pin2 puk)"
proof -
  have "4 \<le> n \<and> n \<le> 12"
    if "check_pin ops (CardPinLengths_from_listed ops numbering pin1 pin2 puk) slot n = Inr ()" for slot n
    using that assms
    by (cases slot) (auto simp: check_pin_def CardPinLengths_from_listed_def check_accepted
        capacity_contains split: option.splits)
  moreover have "8 \<le> n \<and> n \<le> 12"
    if "check_puk ops (CardPinLengths_from_listed ops numbering pin1 pin2 puk) n = Inr ()" for n
    using that assms
    by (auto simp: check_puk_def CardPinLengths_from_listed_def check_accepted capacity_contains
        split: option.splits)
  ultimately show ?thesis unfolding lengths_within_capacity_def by blast
qed

text \<open>An EF.AOD entry names at most one credential of a numbering.\<close>

fun reference_numbering :: "CredentialReference \<Rightarrow> PinReferenceScheme" where
  "reference_numbering (CredentialReference_Pin scheme _) = scheme"
| "reference_numbering (CredentialReference_Puk scheme) = scheme"

lemma names_one_credential:
  assumes "names listed (CredentialReference_as_byte c)" "names listed (CredentialReference_as_byte c')"
    and "reference_numbering c = reference_numbering c'"
  shows "c = c'"
proof -
  have "CredentialReference_as_byte c OR 0x80 = CredentialReference_as_byte c' OR 0x80"
    using assms(1,2) by (simp add: names_def SPECIFIC_REFERENCE_BIT_def)
  then show ?thesis
    using assms(3)
    by (cases c; cases c'; cases "reference_numbering c"; cases "case c of CredentialReference_Pin _ slot \<Rightarrow> slot";
        cases "case c' of CredentialReference_Pin _ slot \<Rightarrow> slot")
      (auto simp: PIN1_REFERENCE_PKCS15_def PIN2_REFERENCE_PKCS15_def PUK_REFERENCE_PKCS15_def
        PIN1_REFERENCE_ORGANIZATIONAL_def PIN2_REFERENCE_ORGANIZATIONAL_def
        PUK_REFERENCE_ORGANIZATIONAL_def)
qed


section \<open>Properties\<close>

text \<open>
  The accepted lengths are the card's own, within what the commands carry: a PIN or PUK
  length passes exactly when the directory's one entry for the credential (or, failing that, the
  PIN policy) admits it and the command can carry it, and when the card lists none, exactly within
  the FINEID bounds.
\<close>

theorem accepted_lengths_follow_card:
  assumes "range_laws ops"
    and "listed_range ops objects policy (CredentialReference_Pin numbering PinSlot_Pin1) s = (pin1, s1)"
    and "listed_range ops objects policy (CredentialReference_Pin numbering PinSlot_Pin2) s1 = (pin2, s2)"
    and "listed_range ops objects policy (CredentialReference_Puk numbering) s2 = (puk, s3)"
  shows "\<exists>lengths. CardPinLengths_from_card ops numbering objects policy s = (lengths, s3) \<and>
    cpl_numbering lengths = numbering \<and>
    (\<forall>n. check_pin ops lengths PinSlot_Pin1 n = Inr () \<longleftrightarrow>
       4 \<le> n \<and> n \<le> 12 \<and> (case pin1 of Some r \<Rightarrow> range_contains ops r n | None \<Rightarrow> True)) \<and>
    (\<forall>n. check_pin ops lengths PinSlot_Pin2 n = Inr () \<longleftrightarrow>
       (case pin2 of Some r \<Rightarrow> 4 \<le> n \<and> n \<le> 12 \<and> range_contains ops r n | None \<Rightarrow> 6 \<le> n \<and> n \<le> 12)) \<and>
    (\<forall>n. check_puk ops lengths n = Inr () \<longleftrightarrow>
       8 \<le> n \<and> n \<le> 12 \<and> (case puk of Some r \<Rightarrow> range_contains ops r n | None \<Rightarrow> True))"
  using assms
  by (auto simp: CardPinLengths_from_card_def CardPinLengths_from_listed_def check_pin_def
      check_puk_def check_accepted capacity_contains split: option.splits)

text \<open>A card that lists PIN 1 with 4 to 8 digits, its reference marked specific, and nothing else.\<close>

theorem accepted_lengths_follow_card_witness:
  "\<exists>lengths. CardPinLengths_from_card pair_ranges PinReferenceScheme_Citizen (Some [(0x91, 4, 8)])
      (\<lambda>_ s. (None, s)) () = (lengths, ()) \<and>
    check_pin pair_ranges lengths PinSlot_Pin1 8 = Inr () \<and>
    check_pin pair_ranges lengths PinSlot_Pin1 9 \<noteq> Inr () \<and>
    check_pin pair_ranges lengths PinSlot_Pin2 5 \<noteq> Inr ()"
proof -
  have listed: "listed_range pair_ranges (Some [(0x91, 4, 8)]) (\<lambda>_ s. (None, s))
      (CredentialReference_Pin PinReferenceScheme_Citizen PinSlot_Pin1) () = (Some (4, 8), ())"
    "listed_range pair_ranges (Some [(0x91, 4, 8)]) (\<lambda>_ s. (None, s))
      (CredentialReference_Pin PinReferenceScheme_Citizen PinSlot_Pin2) () = (None, ())"
    "listed_range pair_ranges (Some [(0x91, 4, 8)]) (\<lambda>_ s. (None, s))
      (CredentialReference_Puk PinReferenceScheme_Citizen) () = (None, ())"
    by (simp_all add: listed_range_def directory_range_def pair_ranges_def names_def
        SPECIFIC_REFERENCE_BIT_def PIN1_REFERENCE_PKCS15_def PIN2_REFERENCE_PKCS15_def
        PUK_REFERENCE_PKCS15_def)
  show ?thesis
    using accepted_lengths_follow_card [OF pair_ranges_laws listed] by (auto simp: pair_ranges_def)
qed

end
