(* ===== verification/Retry_Floor.thy ===== *)
theory Retry_Floor
  imports Pin_Commands
begin

text \<open>
  The retry floor (\<open>pin_retry_risk.rs\<close>) with the two status types of \<open>auth.rs\<close> it judges: the
  risk classification of a retry counter, the three gates that decide whether a command that
  presents a credential may go to the card, and the stricter gate of the reusable cache.

  The contract of a gate is the locale \<open>retry_gate\<close>: what it serves, at an honest report of the
  counter, leaves at least two tries. Its client lemmas run any sequence of gated presentations
  against a card counter.
\<close>

section \<open>The code\<close>

subsection \<open>Statuses\<close>

datatype PinStatus =
    PinStatus_Verified
  | PinStatus_Remaining PinRetries
  | PinStatus_NoInfo
  | PinStatus_Locked
  | PinStatus_Other u16

datatype PukStatus =
    PukStatus_Remaining PinRetries
  | PukStatus_NoInfo
  | PukStatus_Locked
  | PukStatus_Invalidated
  | PukStatus_Other u16


subsection \<open>Credentials and risk\<close>

datatype FlooredCredential = FlooredCredential_Pin1 | FlooredCredential_Pin2 | FlooredCredential_Puk

fun FlooredCredential_name :: "FlooredCredential \<Rightarrow> string" where
  "FlooredCredential_name FlooredCredential_Pin1 = ''PIN 1''"
| "FlooredCredential_name FlooredCredential_Pin2 = ''PIN 2''"
| "FlooredCredential_name FlooredCredential_Puk = ''the PUK''"

definition is_served_when_exhausted :: "FlooredCredential \<Rightarrow> bool" where
  "is_served_when_exhausted c \<longleftrightarrow> (case c of FlooredCredential_Puk \<Rightarrow> True | _ \<Rightarrow> False)"

fun FlooredCredential_from_slot :: "PinSlot \<Rightarrow> FlooredCredential" where
  "FlooredCredential_from_slot PinSlot_Pin1 = FlooredCredential_Pin1"
| "FlooredCredential_from_slot PinSlot_Pin2 = FlooredCredential_Pin2"

definition RETRIES_PRISTINE :: u8 where "RETRIES_PRISTINE = 5"
definition RETRIES_ONE_SPENT :: u8 where "RETRIES_ONE_SPENT = 4"
definition RETRIES_FLOOR :: u8 where "RETRIES_FLOOR = 3"
definition RETRIES_BELOW_FLOOR :: u8 where "RETRIES_BELOW_FLOOR = 2"
definition RETRIES_LOCKDOWN_IMMINENT :: u8 where "RETRIES_LOCKDOWN_IMMINENT = 1"
definition RETRIES_EXHAUSTED :: u8 where "RETRIES_EXHAUSTED = 0"

lemmas retries_defs =
  RETRIES_PRISTINE_def RETRIES_ONE_SPENT_def RETRIES_FLOOR_def RETRIES_BELOW_FLOOR_def
  RETRIES_LOCKDOWN_IMMINENT_def RETRIES_EXHAUSTED_def

datatype PinRetryRisk =
    NormalOperatingConditions
  | DisturbanceDetected
  | SecurityIncidentDeclared
  | CriticalThreatLevel
  | LockdownImminent
  | DefencesFallen

definition PinRetryRisk_from_retries :: "PinRetries \<Rightarrow> PinRetryRisk option" where
  "PinRetryRisk_from_retries retries =
     (let n = PinRetries_get retries
      in if n = RETRIES_PRISTINE then Some NormalOperatingConditions
         else if n = RETRIES_ONE_SPENT then Some DisturbanceDetected
         else if n = RETRIES_FLOOR then Some SecurityIncidentDeclared
         else if n = RETRIES_BELOW_FLOOR then Some CriticalThreatLevel
         else if n = RETRIES_LOCKDOWN_IMMINENT then Some LockdownImminent
         else if n = RETRIES_EXHAUSTED then Some DefencesFallen
         else None)"

definition spends_a_last_try :: "PinRetryRisk \<Rightarrow> bool" where
  "spends_a_last_try r \<longleftrightarrow> (case r of CriticalThreatLevel \<Rightarrow> True | LockdownImminent \<Rightarrow> True | _ \<Rightarrow> False)"

definition is_above_floor :: "PinRetryRisk \<Rightarrow> bool" where
  "is_above_floor r \<longleftrightarrow>
     (case r of NormalOperatingConditions \<Rightarrow> True | DisturbanceDetected \<Rightarrow> True
      | SecurityIncidentDeclared \<Rightarrow> True | _ \<Rightarrow> False)"

definition permits_reusable_cache :: "PinRetryRisk \<Rightarrow> bool" where
  "permits_reusable_cache r \<longleftrightarrow> (case r of NormalOperatingConditions \<Rightarrow> True | _ \<Rightarrow> False)"


subsection \<open>The gates\<close>

datatype RetryFloorRefusal =
    TriesBelowFloor FlooredCredential PinRetries
  | Blocked FlooredCredential
  | CounterUnreadable FlooredCredential

fun RetryFloorRefusal_credential :: "RetryFloorRefusal \<Rightarrow> FlooredCredential" where
  "RetryFloorRefusal_credential (TriesBelowFloor c _) = c"
| "RetryFloorRefusal_credential (Blocked c) = c"
| "RetryFloorRefusal_credential (CounterUnreadable c) = c"

definition check_retry_floor :: "FlooredCredential \<Rightarrow> PinStatus \<Rightarrow> RetryFloorRefusal + unit" where
  "check_retry_floor credential status =
     (case status of
        PinStatus_Verified \<Rightarrow>
          (case credential of
             FlooredCredential_Pin1 \<Rightarrow> Inr ()
           | FlooredCredential_Pin2 \<Rightarrow> Inr ()
           | FlooredCredential_Puk \<Rightarrow> Inl (CounterUnreadable credential))
      | PinStatus_Remaining remaining \<Rightarrow>
          (case PinRetryRisk_from_retries remaining of
             Some risk \<Rightarrow>
               if is_above_floor risk then Inr ()
               else if risk = DefencesFallen \<and> is_served_when_exhausted credential then Inr ()
               else Inl (TriesBelowFloor credential remaining)
           | None \<Rightarrow> Inl (CounterUnreadable credential))
      | PinStatus_Locked \<Rightarrow>
          if is_served_when_exhausted credential then Inr () else Inl (Blocked credential)
      | PinStatus_NoInfo \<Rightarrow> Inl (CounterUnreadable credential)
      | PinStatus_Other _ \<Rightarrow> Inl (CounterUnreadable credential))"

fun puk_status_as_pin_status :: "PukStatus \<Rightarrow> PinStatus" where
  "puk_status_as_pin_status (PukStatus_Remaining retries) = PinStatus_Remaining retries"
| "puk_status_as_pin_status PukStatus_NoInfo = PinStatus_NoInfo"
| "puk_status_as_pin_status PukStatus_Locked = PinStatus_Locked"
| "puk_status_as_pin_status PukStatus_Invalidated = PinStatus_Locked"
| "puk_status_as_pin_status (PukStatus_Other word) = PinStatus_Other word"

definition check_puk_retry_floor :: "PukStatus \<Rightarrow> RetryFloorRefusal + unit" where
  "check_puk_retry_floor status =
     check_retry_floor FlooredCredential_Puk (puk_status_as_pin_status status)"

definition check_activation_last_tries ::
  "FlooredCredential \<Rightarrow> PinStatus \<Rightarrow> RetryFloorRefusal + unit" where
  "check_activation_last_tries credential status =
     (case status of
        PinStatus_Remaining remaining \<Rightarrow>
          (case PinRetryRisk_from_retries remaining of
             Some risk \<Rightarrow>
               if spends_a_last_try risk then Inl (TriesBelowFloor credential remaining) else Inr ()
           | None \<Rightarrow> Inl (CounterUnreadable credential))
      | PinStatus_Verified \<Rightarrow> Inr ()
      | PinStatus_Locked \<Rightarrow> Inr ()
      | PinStatus_NoInfo \<Rightarrow> Inl (CounterUnreadable credential)
      | PinStatus_Other _ \<Rightarrow> Inl (CounterUnreadable credential))"

definition pin1_status_permits_reusable_cache :: "PinStatus \<Rightarrow> bool" where
  "pin1_status_permits_reusable_cache pin1 \<longleftrightarrow>
     (case pin1 of
        PinStatus_Remaining retries \<Rightarrow>
          (case PinRetryRisk_from_retries retries of
             Some risk \<Rightarrow> permits_reusable_cache risk
           | None \<Rightarrow> False)
      | _ \<Rightarrow> False)"


section \<open>The contract of a gate\<close>

text \<open>
  The counter a card keeps for one credential: a presentation of a wrong code spends a try and
  drops the verified state, a right one restores the limit, a new security context forgets the
  verification. With no try left the card refuses by itself.
\<close>

record counter =
  limit :: nat
  tries :: nat
  verified :: bool

definition counter_wf :: "counter \<Rightarrow> bool" where
  "counter_wf c \<longleftrightarrow> 3 \<le> limit c \<and> tries c \<le> limit c \<and> (verified c \<longrightarrow> tries c = limit c)"

fun pin_reports :: "PinStatus \<Rightarrow> counter \<Rightarrow> bool" where
  "pin_reports PinStatus_Verified c \<longleftrightarrow> verified c"
| "pin_reports (PinStatus_Remaining r) c \<longleftrightarrow> unat (PinRetries_get r) = tries c"
| "pin_reports PinStatus_Locked c \<longleftrightarrow> tries c = 0"
| "pin_reports _ c \<longleftrightarrow> True"

definition puk_reports :: "PukStatus \<Rightarrow> counter \<Rightarrow> bool" where
  "puk_reports s c \<longleftrightarrow> pin_reports (puk_status_as_pin_status s) c"

inductive gated :: "('s \<Rightarrow> RetryFloorRefusal + unit) \<Rightarrow> ('s \<Rightarrow> counter \<Rightarrow> bool) \<Rightarrow> counter \<Rightarrow> counter \<Rightarrow> bool"
  for gate reports where
  refused: "reports s c \<Longrightarrow> gate s = Inl e \<Longrightarrow> gated gate reports c c"
| wrong_code: "reports s c \<Longrightarrow> gate s = Inr () \<Longrightarrow>
    gated gate reports c (c\<lparr>tries := tries c - 1, verified := False\<rparr>)"
| right_code: "reports s c \<Longrightarrow> gate s = Inr () \<Longrightarrow> 0 < tries c \<Longrightarrow>
    gated gate reports c (c\<lparr>tries := limit c, verified := True\<rparr>)"
| new_context: "gated gate reports c (c\<lparr>verified := False\<rparr>)"

inductive_cases gatedE: "gated gate reports c c'"

locale retry_gate =
  fixes gate :: "'s \<Rightarrow> RetryFloorRefusal + unit" and reports :: "'s \<Rightarrow> counter \<Rightarrow> bool"
  assumes spares: "\<And>s c. gate s = Inr () \<Longrightarrow> reports s c \<Longrightarrow> counter_wf c \<Longrightarrow> tries c = 0 \<or> 3 \<le> tries c"
begin

lemma gated_wf: "gated gate reports c c' \<Longrightarrow> counter_wf c \<Longrightarrow> counter_wf c'"
  by (erule gatedE) (auto simp: counter_wf_def)

lemma spends_only_spare_tries:
  "gated gate reports c c' \<Longrightarrow> counter_wf c \<Longrightarrow> tries c' < tries c \<Longrightarrow> 3 \<le> tries c"
  using spares [of _ c] by (auto elim!: gatedE simp: counter_wf_def)

lemma keeps_two: "gated gate reports c c' \<Longrightarrow> counter_wf c \<Longrightarrow> 2 \<le> tries c \<Longrightarrow> 2 \<le> tries c'"
  using spares [of _ c] by (fastforce elim!: gatedE simp: counter_wf_def)

lemma run_keeps_two:
  assumes "(gated gate reports)\<^sup>*\<^sup>* c c'" "counter_wf c" "2 \<le> tries c"
  shows "2 \<le> tries c' \<and> counter_wf c'"
  using assms by (induction rule: rtranclp_induct) (auto dest: keeps_two gated_wf)

lemma run_spares:
  assumes "(gated gate reports)\<^sup>*\<^sup>* c c'" "counter_wf c"
  shows "min 2 (tries c) \<le> tries c' \<and> counter_wf c'"
  using assms
proof (induction rule: rtranclp_induct)
  case base
  then show ?case by simp
next
  case (step y z)
  show ?case
  proof (cases "tries z < tries y")
    case True
    then have "3 \<le> tries y" using step by (blast intro: spends_only_spare_tries)
    then show ?thesis using step keeps_two [of y z] gated_wf by auto
  next
    case False
    then show ?thesis using step gated_wf by auto
  qed
qed

end


subsection \<open>The gates keep the contract\<close>

lemma retries_cases:
  "PinRetryRisk_from_retries r = None \<longleftrightarrow> 5 < unat (PinRetries_get r)"
  "PinRetryRisk_from_retries r = Some DefencesFallen \<longleftrightarrow> unat (PinRetries_get r) = 0"
  "PinRetryRisk_from_retries r = Some LockdownImminent \<longleftrightarrow> unat (PinRetries_get r) = 1"
  "PinRetryRisk_from_retries r = Some CriticalThreatLevel \<longleftrightarrow> unat (PinRetries_get r) = 2"
  "PinRetryRisk_from_retries r = Some SecurityIncidentDeclared \<longleftrightarrow> unat (PinRetries_get r) = 3"
  "PinRetryRisk_from_retries r = Some DisturbanceDetected \<longleftrightarrow> unat (PinRetries_get r) = 4"
  "PinRetryRisk_from_retries r = Some NormalOperatingConditions \<longleftrightarrow> unat (PinRetries_get r) = 5"
  by (auto simp: PinRetryRisk_from_retries_def Let_def retries_defs word_unat_eq_iff)

lemma risk_above_floor:
  "PinRetryRisk_from_retries r = Some risk \<Longrightarrow>
     is_above_floor risk \<longleftrightarrow> unat (PinRetries_get r) \<in> {3, 4, 5}"
  by (cases risk) (auto simp: retries_cases is_above_floor_def)

lemma risk_spends_last:
  "PinRetryRisk_from_retries r = Some risk \<Longrightarrow>
     spends_a_last_try risk \<longleftrightarrow> unat (PinRetries_get r) \<in> {1, 2}"
  by (cases risk) (auto simp: retries_cases spends_a_last_try_def)

lemma risk_range: "PinRetryRisk_from_retries r = Some risk \<Longrightarrow> unat (PinRetries_get r) \<le> 5"
  using retries_cases(1) [of r] by auto

lemma floor_served_iff:
  "check_retry_floor credential status = Inr () \<longleftrightarrow>
     (case status of
        PinStatus_Verified \<Rightarrow> credential \<noteq> FlooredCredential_Puk
      | PinStatus_Remaining r \<Rightarrow> unat (PinRetries_get r) \<in> {3, 4, 5} \<or>
          unat (PinRetries_get r) = 0 \<and> credential = FlooredCredential_Puk
      | PinStatus_Locked \<Rightarrow> credential = FlooredCredential_Puk
      | _ \<Rightarrow> False)"
  using retries_cases [of "case status of PinStatus_Remaining r \<Rightarrow> r"]
  by (auto simp: check_retry_floor_def is_served_when_exhausted_def risk_above_floor
      split: PinStatus.splits option.splits FlooredCredential.splits)

lemma activation_served_iff:
  "check_activation_last_tries credential status = Inr () \<longleftrightarrow>
     (case status of
        PinStatus_Remaining r \<Rightarrow> unat (PinRetries_get r) \<in> {0, 3, 4, 5}
      | PinStatus_Verified \<Rightarrow> True
      | PinStatus_Locked \<Rightarrow> True
      | _ \<Rightarrow> False)"
  using retries_cases(1) [of "case status of PinStatus_Remaining r \<Rightarrow> r"]
  by (auto simp: check_activation_last_tries_def risk_spends_last dest: risk_range
      split: PinStatus.splits option.splits)

lemma cache_status_pristine: "pin1_status_permits_reusable_cache s \<longleftrightarrow> s = PinStatus_Remaining (PinRetries 5)"
  by (auto simp: pin1_status_permits_reusable_cache_def PinRetryRisk_from_retries_def
      permits_reusable_cache_def retries_defs Let_def PinRetries.expand
      split: PinStatus.splits option.splits PinRetryRisk.splits if_splits)

interpretation pin_floor: retry_gate "check_retry_floor credential" pin_reports for credential
  by unfold_locales (auto simp: floor_served_iff counter_wf_def split: PinStatus.splits)

interpretation puk_floor: retry_gate check_puk_retry_floor puk_reports
  using pin_floor.spares [of FlooredCredential_Puk]
  by unfold_locales (auto simp: check_puk_retry_floor_def puk_reports_def)

interpretation activation_floor: retry_gate "check_activation_last_tries credential" pin_reports for credential
  by unfold_locales (auto simp: activation_served_iff counter_wf_def split: PinStatus.splits)


section \<open>Properties\<close>

text \<open>
  (C7) The last two tries are never spent: whatever sequence of right and wrong codes is
  presented under one of the three gates, each judged on an honest report of the counter, a
  counter that has two or more tries never falls below two, and one that has fewer is not lowered.
\<close>

theorem last_two_tries_spared:
  assumes "counter_wf c"
    and "(gated (check_retry_floor credential) pin_reports)\<^sup>*\<^sup>* c c' \<or>
         (gated check_puk_retry_floor puk_reports)\<^sup>*\<^sup>* c c' \<or>
         (gated (check_activation_last_tries credential) pin_reports)\<^sup>*\<^sup>* c c'"
  shows "min 2 (tries c) \<le> tries c'"
  using assms pin_floor.run_spares puk_floor.run_spares activation_floor.run_spares by blast

text \<open>Three wrong PIN 1 codes at a pristine counter, and then a refusal.\<close>

theorem last_two_tries_spared_witness:
  "\<exists>c'. (gated (check_retry_floor FlooredCredential_Pin1) pin_reports)\<^sup>*\<^sup>*
      \<lparr>limit = 5, tries = 5, verified = False\<rparr> c' \<and> tries c' = 2 \<and>
    min 2 (tries \<lparr>limit = 5, tries = 5, verified = False\<rparr>) \<le> tries c'"
proof -
  let ?c = "\<lambda>n. \<lparr>limit = 5, tries = n, verified = False\<rparr>"
  have step: "gated (check_retry_floor FlooredCredential_Pin1) pin_reports (?c n) (?c (n - 1))"
    if "n \<in> {3, 4, 5}" for n
    using wrong_code [of pin_reports "PinStatus_Remaining (PinRetries (of_nat n))" "?c n"
        "check_retry_floor FlooredCredential_Pin1"] that
    by (auto simp: floor_served_iff)
  have "(gated (check_retry_floor FlooredCredential_Pin1) pin_reports)\<^sup>*\<^sup>* (?c 5) (?c 2)"
    using step [of 5] step [of 4] step [of 3]
    by (auto intro: converse_rtranclp_into_rtranclp)
  then show ?thesis
    using last_two_tries_spared [of "?c 5" FlooredCredential_Pin1 "?c 2"]
    by (intro exI [of _ "?c 2"]) (auto simp: counter_wf_def)
qed

text \<open>
  The retry floor, exactly: a PIN is served when verified or at three to five tries; the PUK
  at three to five tries and, since the card then refuses by itself, at none left or blocked;
  every refusal names the credential and the state that refused it.
\<close>

theorem retry_floor_decides:
  "check_retry_floor credential status =
     (case status of
        PinStatus_Verified \<Rightarrow>
          if credential = FlooredCredential_Puk then Inl (CounterUnreadable credential) else Inr ()
      | PinStatus_Remaining r \<Rightarrow>
          if 5 < PinRetries_get r then Inl (CounterUnreadable credential)
          else if 3 \<le> PinRetries_get r \<or> PinRetries_get r = 0 \<and> credential = FlooredCredential_Puk
          then Inr ()
          else Inl (TriesBelowFloor credential r)
      | PinStatus_Locked \<Rightarrow>
          if credential = FlooredCredential_Puk then Inr () else Inl (Blocked credential)
      | _ \<Rightarrow> Inl (CounterUnreadable credential))"
proof (cases status)
  case (PinStatus_Remaining r)
  then show ?thesis
    using retries_cases [of r]
    by (auto simp: check_retry_floor_def is_served_when_exhausted_def risk_above_floor
        word_less_nat_alt word_le_nat_alt word_unat_eq_iff dest: risk_range
        split: option.splits FlooredCredential.splits)
qed (auto simp: check_retry_floor_def is_served_when_exhausted_def split: FlooredCredential.splits)

text \<open>
  The cache gate is stricter than the floor: PIN 1 may be kept for reuse exactly when the
  card reports five tries left, and then the floor serves it too.
\<close>

theorem reusable_cache_needs_pristine_counter:
  "pin1_status_permits_reusable_cache s = (s = PinStatus_Remaining (PinRetries 5)) \<and>
   (pin1_status_permits_reusable_cache s \<longrightarrow> check_retry_floor FlooredCredential_Pin1 s = Inr ())"
  by (auto simp: cache_status_pristine floor_served_iff)

theorem reusable_cache_needs_pristine_counter_witness:
  "pin1_status_permits_reusable_cache (PinStatus_Remaining (PinRetries 5)) \<and>
   check_retry_floor FlooredCredential_Pin1 (PinStatus_Remaining (PinRetries 5)) = Inr ()"
  using reusable_cache_needs_pristine_counter [of "PinStatus_Remaining (PinRetries 5)"] by simp

end
