(* ===== verification/Command_Journal.thy ===== *)
theory Command_Journal
  imports Transport
begin

text \<open>
  A journal of the exchanges an operation makes with its transport: each command handed to the
  adapter with the outcome it got. \<open>emits m R\<close> says that whatever the card answers, the result
  and the exchanges of \<open>m\<close> are related by \<open>R\<close>; its rules follow the operations of the I/O monad, so
  an operation of the protocol layer is judged by the exchanges of its steps. The adapter itself
  is arbitrary.
\<close>

type_synonym 'e exchange = "CommandApdu \<times> ('e + TransportOutcome)"
type_synonym ('t, 'e) journal = "'e exchange list \<times> 't"

definition journaled :: "('t, 'e) transport \<Rightarrow> (('t, 'e) journal, 'e) transport" where
  "journaled tx c = (\<lambda>(log, s). case tx c s of (r, s') \<Rightarrow> (r, (log @ [(c, r)], s')))"

definition emits :: "(('t, 'e) journal, 'f, 'a) io \<Rightarrow> ('f + 'a \<Rightarrow> 'e exchange list \<Rightarrow> bool) \<Rightarrow> bool" where
  "emits m R \<longleftrightarrow>
     (\<forall>log s. \<exists>sent. fst (snd (m (log, s))) = log @ sent \<and> R (fst (m (log, s))) sent)"

lemma emitsI:
  "(\<And>log s. \<exists>sent. fst (snd (m (log, s))) = log @ sent \<and> R (fst (m (log, s))) sent) \<Longrightarrow> emits m R"
  by (simp add: emits_def)

lemma emitsD:
  assumes "emits m R"
  obtains sent where "fst (snd (m (log, s))) = log @ sent" "R (fst (m (log, s))) sent"
  using assms unfolding emits_def by blast

text \<open>From an empty journal, the journal is the list of exchanges.\<close>

lemma emits_from_empty: "emits m R \<Longrightarrow> R (fst (m ([], s))) (fst (snd (m ([], s))))"
  by (erule emitsD [of m R "[]" s]) simp

lemma emits_weaken: "emits m R \<Longrightarrow> (\<And>r sent. R r sent \<Longrightarrow> Q r sent) \<Longrightarrow> emits m Q"
  unfolding emits_def by blast

named_theorems emits_intros \<open>exchanges of the protocol operations\<close>

lemma emits_ret [emits_intros]: "emits (ret x) (\<lambda>r sent. r = Inr x \<and> sent = [])"
  by (simp add: emits_def)

lemma emits_fail [emits_intros]: "emits (fail e) (\<lambda>r sent. r = Inl e \<and> sent = [])"
  by (simp add: emits_def)

lemma emits_liftR [emits_intros]: "emits (liftR x) (\<lambda>r sent. r = x \<and> sent = [])"
  by (simp add: emits_def)

lemma emits_map_errS [emits_intros]:
  assumes "emits m R"
  shows "emits (map_errS g m) (\<lambda>r sent. \<exists>q. R q sent \<and> r = map_err g q)"
proof (rule emitsI)
  fix log s
  obtain sent where "fst (snd (m (log, s))) = log @ sent" "R (fst (m (log, s))) sent"
    using assms by (rule emitsD)
  then show "\<exists>sent. fst (snd (map_errS g m (log, s))) = log @ sent \<and>
      (\<exists>q. R q sent \<and> fst (map_errS g m (log, s)) = map_err g q)"
    by (cases "m (log, s)") (auto simp: map_errS_def)
qed

lemma emits_bindS:
  assumes m: "emits m Ra" and f: "\<And>x. emits (f x) (Rb x)"
    and err: "\<And>e sent. Ra (Inl e) sent \<Longrightarrow> R (Inl e) sent"
    and ok: "\<And>x r sent sent'. Ra (Inr x) sent \<Longrightarrow> Rb x r sent' \<Longrightarrow> R r (sent @ sent')"
  shows "emits (bindS m f) R"
proof (rule emitsI)
  fix log s
  obtain sent where sent: "fst (snd (m (log, s))) = log @ sent" "Ra (fst (m (log, s))) sent"
    using m by (rule emitsD)
  show "\<exists>sent. fst (snd (bindS m f (log, s))) = log @ sent \<and> R (fst (bindS m f (log, s))) sent"
  proof (cases "fst (m (log, s))")
    case (Inl e)
    then have "m (log, s) = (Inl e, snd (m (log, s)))" by (metis prod.collapse)
    from bindS_simps(1) [of m "(log, s)" e _ f, OF this] show ?thesis using sent err Inl by auto
  next
    case (Inr x)
    then have "m (log, s) = (Inr x, (log @ sent, snd (snd (m (log, s)))))"
      using sent(1) by (metis prod.collapse)
    from bindS_simps(2) [of m "(log, s)" x _ f, OF this]
    have run: "bindS m f (log, s) = f x (log @ sent, snd (snd (m (log, s))))" .
    obtain sent' where "fst (snd (f x (log @ sent, snd (snd (m (log, s)))))) = (log @ sent) @ sent'"
        "Rb x (fst (f x (log @ sent, snd (snd (m (log, s)))))) sent'"
      using f by (rule emitsD)
    then show ?thesis using run ok sent(2) Inr by auto
  qed
qed

lemma emits_transmit [emits_intros]:
  "emits (transmit (journaled tx) apdu)
     (\<lambda>r sent. \<exists>reply. sent = [(CommandApdu_new apdu, reply)] \<and>
        (\<forall>x. r = Inr x \<longleftrightarrow> reply = Inr (TransportOutcome_Response x)))"
proof (rule emitsI)
  fix log s
  obtain reply s' where tx: "tx (CommandApdu_new apdu) s = (reply, s')" by (cases "tx (CommandApdu_new apdu) s")
  then have call: "journaled tx (CommandApdu_new apdu) (log, s) =
      (reply, (log @ [(CommandApdu_new apdu, reply)], s'))"
    by (simp add: journaled_def)
  then have "fst (snd (transmit (journaled tx) apdu (log, s))) = log @ [(CommandApdu_new apdu, reply)]"
    by (simp add: transmit_state)
  moreover have "\<forall>x. fst (transmit (journaled tx) apdu (log, s)) = Inr x \<longleftrightarrow>
      reply = Inr (TransportOutcome_Response x)"
    using call transmit_Inr [of "journaled tx" apdu "(log, s)"]
    by (metis fst_conv prod.collapse snd_conv)
  ultimately show "\<exists>sent. fst (snd (transmit (journaled tx) apdu (log, s))) = log @ sent \<and>
      (\<exists>reply. sent = [(CommandApdu_new apdu, reply)] \<and>
        (\<forall>x. fst (transmit (journaled tx) apdu (log, s)) = Inr x \<longleftrightarrow>
           reply = Inr (TransportOutcome_Response x)))"
    by blast
qed


subsection \<open>Operations that send only commands of one kind\<close>

definition only_sends :: "(CommandApdu \<Rightarrow> bool) \<Rightarrow> (('t, 'e) journal, 'f, 'a) io \<Rightarrow> bool" where
  "only_sends P m \<longleftrightarrow> emits m (\<lambda>_ sent. list_all (\<lambda>x. P (fst x)) sent)"

named_theorems only_sends_intros \<open>operations that send only commands of one kind\<close>

lemma only_sends_ret [only_sends_intros]: "only_sends P (ret x)"
  unfolding only_sends_def by (rule emits_weaken [OF emits_ret]) simp

lemma only_sends_fail [only_sends_intros]: "only_sends P (fail x)"
  unfolding only_sends_def by (rule emits_weaken [OF emits_fail]) simp

lemma only_sends_liftR [only_sends_intros]: "only_sends P (liftR x)"
  unfolding only_sends_def by (rule emits_weaken [OF emits_liftR]) simp

lemma only_sends_map_errS [only_sends_intros]: "only_sends P m \<Longrightarrow> only_sends P (map_errS g m)"
  unfolding only_sends_def by (rule emits_weaken [OF emits_map_errS]) auto

lemma only_sends_bindS [only_sends_intros]:
  "only_sends P m \<Longrightarrow> (\<And>x. only_sends P (f x)) \<Longrightarrow> only_sends P (bindS m f)"
  unfolding only_sends_def
  by (rule emits_bindS [where Ra = "\<lambda>_. list_all (\<lambda>x. P (fst x))" and Rb = "\<lambda>_ _. list_all (\<lambda>x. P (fst x))"]) auto

lemma only_sends_transmit [only_sends_intros]:
  "P (CommandApdu_new apdu) \<Longrightarrow> only_sends P (transmit (journaled tx) apdu)"
  unfolding only_sends_def by (rule emits_weaken [OF emits_transmit]) auto

lemma only_sends_if [only_sends_intros]:
  "(b \<Longrightarrow> only_sends P m) \<Longrightarrow> (\<not> b \<Longrightarrow> only_sends P n) \<Longrightarrow> only_sends P (if b then m else n)"
  by simp

lemma only_sends_from_empty:
  "only_sends P m \<Longrightarrow> list_all (\<lambda>x. P (fst x)) (fst (snd (m ([], s))))"
  unfolding only_sends_def by (rule emits_from_empty)

text \<open>The journal only grows, and by such commands; for loops that thread the state by hand.\<close>

lemma only_sends_step:
  assumes "only_sends P m" "m (log, s) = (r, (log', s'))"
  obtains sent where "log' = log @ sent" "list_all (\<lambda>x. P (fst x)) sent"
  using assms(1) unfolding only_sends_def by (rule emitsD [of _ _ log s]) (auto simp: assms(2))

lemma emits_okS:
  assumes "emits m R"
  shows "emits (okS m) (\<lambda>r sent. \<exists>q. R q sent \<and> r = Inr (result_ok q))"
proof (rule emitsI)
  fix log s
  obtain sent where "fst (snd (m (log, s))) = log @ sent" "R (fst (m (log, s))) sent"
    using assms by (rule emitsD)
  then show "\<exists>sent. fst (snd (okS m (log, s))) = log @ sent \<and> (\<exists>q. R q sent \<and> fst (okS m (log, s)) = Inr (result_ok q))"
    by (cases "m (log, s)") (auto simp: okS_def)
qed

lemma only_sends_okS [only_sends_intros]: "only_sends P m \<Longrightarrow> only_sends P (okS m)"
  unfolding only_sends_def by (rule emits_weaken [OF emits_okS]) auto

lemma only_sends_unlogged [only_sends_intros]: "only_sends P (unlogged m)"
  unfolding only_sends_def emits_def by (simp add: unlogged_eq)

lemma emits_with_result: "emits m R \<Longrightarrow> emits m (\<lambda>r sent. R r sent \<and> (\<exists>st. r = fst (m st)))"
  unfolding emits_def by blast

lemma emits_run: "emits m R \<Longrightarrow> m ([], s) = (r, (log, s')) \<Longrightarrow> R r log"
  using emits_from_empty [of m R s] by simp

lemma emits_transmit_err:
  "emits (map_errS g (transmit (journaled tx) apdu))
     (\<lambda>r sent. \<exists>reply. sent = [(CommandApdu_new apdu, reply)] \<and>
        (\<forall>x. r = Inr x \<longleftrightarrow> reply = Inr (TransportOutcome_Response x)))"
  by (rule emits_weaken [OF emits_map_errS [OF emits_transmit]]) auto

end
