(* ===== verification/Pin_Ops.thy ===== *)
theory Pin_Ops
  imports Pkcs15 Pin_Lengths Retry_Floor Command_Journal
begin

text \<open>
  The PIN operations of the protocol layer (\<open>auth.rs\<close>): local policy, credential blocks, VERIFY,
  CHANGE REFERENCE DATA, RESET RETRY COUNTER, the counter-safe probes and the decoding of the
  card's answers. Every operation takes the transport; \<open>ef_aod\<close>, \<open>parse_aod\<close> and \<open>ops\<close> are of the
  \<open>refineid_pkcs15\<close> crate.
\<close>

section \<open>The code\<close>

subsection \<open>Outcomes and errors\<close>

datatype VerifyOutcome =
    VerifyOutcome_Ok
  | VerifyOutcome_WrongPin PinRetries
  | VerifyOutcome_Locked
  | VerifyOutcome_Other u16

datatype ChangePinOutcome =
    ChangePinOutcome_Ok
  | ChangePinOutcome_WrongCurrentPin PinRetries
  | ChangePinOutcome_Locked
  | ChangePinOutcome_LengthError
  | ChangePinOutcome_Other u16

datatype UnblockOutcome =
    UnblockOutcome_Ok
  | UnblockOutcome_WrongPuk PinRetries
  | UnblockOutcome_PukLocked
  | UnblockOutcome_Invalidated
  | UnblockOutcome_LengthError
  | UnblockOutcome_Other u16

datatype 'e AuthError =
    AuthError_Transport 'e
  | AuthError_PinPolicy PinPolicyReason

fun classify_verify_sw :: "StatusWord \<Rightarrow> VerifyOutcome" where
  "classify_verify_sw StatusWord_Success = VerifyOutcome_Ok"
| "classify_verify_sw (StatusWord_PinIncorrect retries) = VerifyOutcome_WrongPin retries"
| "classify_verify_sw StatusWord_AuthenticationBlocked = VerifyOutcome_Locked"
| "classify_verify_sw StatusWord_ReferenceDataInvalidated = VerifyOutcome_Locked"
| "classify_verify_sw other = VerifyOutcome_Other (StatusWord_as_u16 other)"

fun classify_pin_status_sw :: "StatusWord \<Rightarrow> PinStatus" where
  "classify_pin_status_sw StatusWord_Success = PinStatus_Verified"
| "classify_pin_status_sw (StatusWord_PinIncorrect retries) = PinStatus_Remaining retries"
| "classify_pin_status_sw StatusWord_AuthenticationFailed = PinStatus_NoInfo"
| "classify_pin_status_sw StatusWord_AuthenticationBlocked = PinStatus_Locked"
| "classify_pin_status_sw StatusWord_ReferenceDataInvalidated = PinStatus_Locked"
| "classify_pin_status_sw other = PinStatus_Other (StatusWord_as_u16 other)"

fun classify_change_pin_sw :: "StatusWord \<Rightarrow> ChangePinOutcome" where
  "classify_change_pin_sw StatusWord_Success = ChangePinOutcome_Ok"
| "classify_change_pin_sw (StatusWord_PinIncorrect retries) = ChangePinOutcome_WrongCurrentPin retries"
| "classify_change_pin_sw StatusWord_AuthenticationBlocked = ChangePinOutcome_Locked"
| "classify_change_pin_sw StatusWord_ReferenceDataInvalidated = ChangePinOutcome_Locked"
| "classify_change_pin_sw StatusWord_WrongLength = ChangePinOutcome_LengthError"
| "classify_change_pin_sw other = ChangePinOutcome_Other (StatusWord_as_u16 other)"

fun classify_reset_retry_sw :: "StatusWord \<Rightarrow> UnblockOutcome" where
  "classify_reset_retry_sw StatusWord_Success = UnblockOutcome_Ok"
| "classify_reset_retry_sw (StatusWord_PinIncorrect retries) = UnblockOutcome_WrongPuk retries"
| "classify_reset_retry_sw StatusWord_AuthenticationBlocked = UnblockOutcome_PukLocked"
| "classify_reset_retry_sw StatusWord_ReferenceDataInvalidated = UnblockOutcome_Invalidated"
| "classify_reset_retry_sw StatusWord_WrongLength = UnblockOutcome_LengthError"
| "classify_reset_retry_sw other = UnblockOutcome_Other (StatusWord_as_u16 other)"

fun classify_puk_status_sw :: "StatusWord \<Rightarrow> PukStatus" where
  "classify_puk_status_sw (StatusWord_PinIncorrect retries) = PukStatus_Remaining retries"
| "classify_puk_status_sw StatusWord_AuthenticationFailed = PukStatus_NoInfo"
| "classify_puk_status_sw StatusWord_AuthenticationBlocked = PukStatus_Locked"
| "classify_puk_status_sw StatusWord_ReferenceDataInvalidated = PukStatus_Invalidated"
| "classify_puk_status_sw other = PukStatus_Other (StatusWord_as_u16 other)"


subsection \<open>Local policy and credential blocks\<close>

definition policy_validate_digits :: "bytes \<Rightarrow> 'e AuthError + unit" where
  "policy_validate_digits ascii =
     (case position (\<lambda>b. \<not> is_ascii_digit b) ascii of
        Some off \<Rightarrow> Inl (AuthError_PinPolicy (PinPolicyReason_NonDigit off))
      | None \<Rightarrow> Inr ())"

definition policy_validate_ascii :: "bytes \<Rightarrow> nat \<Rightarrow> nat \<Rightarrow> 'e AuthError + unit" where
  "policy_validate_ascii ascii mn stored =
     (if length ascii < mn \<or> length ascii > stored
      then Inl (AuthError_PinPolicy (PinPolicyReason_WrongLength (length ascii) mn stored))
      else policy_validate_digits ascii)"

definition policy_validate_for_card ::
  "bytes \<Rightarrow> (nat \<Rightarrow> PinPolicyReason + unit) \<Rightarrow> 'e AuthError + unit" where
  "policy_validate_for_card ascii check =
     bindR (policy_validate_digits ascii) (\<lambda>_. map_err AuthError_PinPolicy (check (length ascii)))"

definition CredentialBlock_push :: "bytes \<Rightarrow> PinReferenceScheme \<Rightarrow> bytes \<Rightarrow> nat \<Rightarrow> bytes" where
  "CredentialBlock_push out scheme digits stored =
     (let out = out @ digits
      in if scheme = PinReferenceScheme_Citizen
         then out @ replicate (stored - length digits) PIN_PAD_BYTE
         else out)"


subsection \<open>Commands that present a credential\<close>

type_synonym ('t, 'e, 'a) auth_io = "('t, 'e TransportDispatchError AuthError, 'a) io"

text \<open>The blocks have at most 24 bytes, so the builders do not panic: see \<open>short_blocks\<close> below.\<close>

definition auth_transmit :: "('t, 'e) transport \<Rightarrow> CommandApdu \<Rightarrow> ('t, 'e, ResponseApdu) auth_io" where
  "auth_transmit tx apdu = map_errS AuthError_Transport (transmit tx (CommandApdu_as_bytes apdu))"

definition verify_command :: "CredentialReference \<Rightarrow> bytes \<Rightarrow> CommandApdu" where
  "verify_command reference block =
     the (Verify_into_apdu \<lparr>verify_class = ApduClass_Plain, verify_mode = VerifyMode_Verify,
       verify_reference = reference, verify_data = VerifyData_PinBlock block\<rparr>)"

definition verify_present ::
  "('t, 'e) transport \<Rightarrow> PinReferenceScheme \<Rightarrow> PinSlot \<Rightarrow> PinBytes \<Rightarrow> ('t, 'e, VerifyOutcome) auth_io" where
  "verify_present tx scheme slot pin =
     (let pin_ascii = PinBytes_as_bytes pin;
          stored = PinSlot_stored_length slot
      in bindS (liftR (policy_validate_ascii pin_ascii PIN_MIN_LENGTH stored)) (\<lambda>_.
         let block = CredentialBlock_push [] scheme pin_ascii stored;
             apdu = verify_command (CredentialReference_Pin scheme slot) block
         in bindS (auth_transmit tx apdu) (\<lambda>r. ret (classify_verify_sw (ResponseApdu_status_word r)))))"

definition verify_pin_with_scheme ::
  "('t, 'e) transport \<Rightarrow> PinReferenceScheme \<Rightarrow> PinSlot \<Rightarrow> PinBytes \<Rightarrow> ('t, 'e, VerifyOutcome) auth_io" where
  "verify_pin_with_scheme tx scheme slot pin =
     (if gates_esign_directory scheme slot then
        bindS (map_errS AuthError_Transport (select_esign_directory tx)) (\<lambda>entered.
          if \<not> StatusWord_is_success entered then ret (VerifyOutcome_Other (StatusWord_as_u16 entered))
          else verify_present tx scheme slot pin)
      else verify_present tx scheme slot pin)"

definition verify_pin :: "('t, 'e) transport \<Rightarrow> PinSlot \<Rightarrow> PinBytes \<Rightarrow> ('t, 'e, VerifyOutcome) auth_io" where
  "verify_pin tx slot pin = verify_pin_with_scheme tx PinReferenceScheme_Citizen slot pin"

definition verify_pin1 :: "('t, 'e) transport \<Rightarrow> PinBytes \<Rightarrow> ('t, 'e, VerifyOutcome) auth_io" where
  "verify_pin1 tx pin = verify_pin tx PinSlot_Pin1 pin"

definition change_pin ::
  "('aod, 'r) range_ops \<Rightarrow> ('t, 'e) transport \<Rightarrow> 'r CardPinLengths \<Rightarrow> PinSlot \<Rightarrow> PinBytes \<Rightarrow> PinBytes \<Rightarrow>
     ('t, 'e, ChangePinOutcome) auth_io" where
  "change_pin ops tx lengths slot current_pin new_pin =
     (let current = PinBytes_as_bytes current_pin; new = PinBytes_as_bytes new_pin;
          stored = PinSlot_stored_length slot; scheme = cpl_numbering lengths
      in bindS (liftR (policy_validate_for_card current (check_pin ops lengths slot))) (\<lambda>_.
         bindS (liftR (policy_validate_for_card new (check_pin ops lengths slot))) (\<lambda>_.
         let block = CredentialBlock_push (CredentialBlock_push [] scheme current stored) scheme new stored;
             apdu = the (ChangeReferenceData_into_apdu
               \<lparr>crd_reference = CredentialReference_Pin scheme slot, crd_padded_pair = block\<rparr>)
         in bindS (auth_transmit tx apdu) (\<lambda>r. ret (classify_change_pin_sw (ResponseApdu_status_word r))))))"

definition reset_command ::
  "PinReferenceScheme \<Rightarrow> PinSlot \<Rightarrow> ResetRetryCounterMode \<Rightarrow> bytes \<Rightarrow> bytes \<Rightarrow> CommandApdu" where
  "reset_command scheme target mode puk_ascii new_ascii =
     (let block = (if mode = ResetRetryCounterMode_CodeThenNew
                   then CredentialBlock_push [] scheme puk_ascii PUK_STORED_LENGTH else []);
          block = CredentialBlock_push block scheme new_ascii (PinSlot_stored_length target)
      in the (ResetRetryCounter_into_apdu \<lparr>rrc_target = CredentialReference_Pin scheme target,
           rrc_mode = mode, rrc_padded_pair = block\<rparr>))"

definition reset_send ::
  "('t, 'e) transport \<Rightarrow> PinReferenceScheme \<Rightarrow> PinSlot \<Rightarrow> ResetRetryCounterMode \<Rightarrow> bytes \<Rightarrow> bytes \<Rightarrow>
     ('t, 'e, UnblockOutcome) auth_io" where
  "reset_send tx scheme target mode puk_ascii new_ascii =
     bindS (auth_transmit tx (reset_command scheme target mode puk_ascii new_ascii))
       (\<lambda>r. ret (classify_reset_retry_sw (ResponseApdu_status_word r)))"

definition reset_retry_counter ::
  "('aod, 'r) range_ops \<Rightarrow> ('t, 'e) transport \<Rightarrow> 'r CardPinLengths \<Rightarrow> PinSlot \<Rightarrow> PinBytes \<Rightarrow> PinBytes \<Rightarrow>
     ('t, 'e, UnblockOutcome) auth_io" where
  "reset_retry_counter ops tx lengths target puk new_pin =
     (let puk_ascii = PinBytes_as_bytes puk; new_ascii = PinBytes_as_bytes new_pin;
          scheme = cpl_numbering lengths
      in bindS (liftR (policy_validate_for_card puk_ascii (check_puk ops lengths))) (\<lambda>_.
         bindS (liftR (policy_validate_for_card new_ascii (check_pin ops lengths target))) (\<lambda>_.
         case scheme of
           PinReferenceScheme_Citizen \<Rightarrow>
             reset_send tx scheme target ResetRetryCounterMode_CodeThenNew puk_ascii new_ascii
         | PinReferenceScheme_Organizational \<Rightarrow>
             (let puk_block = CredentialBlock_push [] scheme puk_ascii PUK_STORED_LENGTH
              in bindS (auth_transmit tx (verify_command (CredentialReference_Puk scheme) puk_block))
                   (\<lambda>r. let verified = classify_reset_retry_sw (ResponseApdu_status_word r)
                        in if verified \<noteq> UnblockOutcome_Ok then ret verified
                           else reset_send tx scheme target ResetRetryCounterMode_NewOnly puk_ascii new_ascii)))))"


subsection \<open>Counter-safe reads\<close>

definition probe_command :: "CredentialReference \<Rightarrow> CommandApdu" where
  "probe_command reference =
     the (Verify_into_apdu \<lparr>verify_class = ApduClass_Plain, verify_mode = VerifyMode_Verify,
       verify_reference = reference, verify_data = VerifyData_Probe\<rparr>)"

definition probe_status_word :: "('t, 'e) transport \<Rightarrow> CredentialReference \<Rightarrow> ('t, 'e, StatusWord) auth_io" where
  "probe_status_word tx reference =
     bindS (auth_transmit tx (probe_command reference)) (\<lambda>r. ret (ResponseApdu_status_word r))"

definition resolve_pin_reference_scheme :: "('t, 'e) transport \<Rightarrow> ('t, 'e, PinReferenceScheme) auth_io" where
  "resolve_pin_reference_scheme tx =
     bindS (probe_status_word tx (CredentialReference_Pin PinReferenceScheme_Citizen PinSlot_Pin1)) (\<lambda>citizen.
       if citizen \<noteq> StatusWord_ReferenceDataNotFound then ret PinReferenceScheme_Citizen
       else bindS (probe_status_word tx (CredentialReference_Pin PinReferenceScheme_Organizational PinSlot_Pin1))
         (\<lambda>organizational. ret (case classify_pin_status_sw organizational of
              PinStatus_Other _ \<Rightarrow> PinReferenceScheme_Citizen
            | _ \<Rightarrow> PinReferenceScheme_Organizational)))"

definition pin_status_with_scheme ::
  "('t, 'e) transport \<Rightarrow> PinReferenceScheme \<Rightarrow> PinSlot \<Rightarrow> ('t, 'e, PinStatus) auth_io" where
  "pin_status_with_scheme tx scheme slot =
     bindS (probe_status_word tx (CredentialReference_Pin scheme slot)) (\<lambda>sw. ret (classify_pin_status_sw sw))"

definition pin_status :: "('t, 'e) transport \<Rightarrow> PinSlot \<Rightarrow> ('t, 'e, PinStatus) auth_io" where
  "pin_status tx slot = pin_status_with_scheme tx PinReferenceScheme_Citizen slot"

definition puk_status_with_scheme ::
  "('t, 'e) transport \<Rightarrow> PinReferenceScheme \<Rightarrow> ('t, 'e, PukStatus) auth_io" where
  "puk_status_with_scheme tx scheme =
     (if scheme = PinReferenceScheme_Organizational then
        bindS (probe_status_word tx (CredentialReference_Puk scheme)) (\<lambda>sw. ret (classify_puk_status_sw sw))
      else bindS (auth_transmit tx GetPukInfo_into_apdu) (\<lambda>r.
        if ResponseApdu_is_ok r then
          ret (case try_counter_from_response_body (resp_body r) of
                 None \<Rightarrow> PukStatus_NoInfo | Some retries \<Rightarrow> PukStatus_Remaining retries)
        else ret (classify_puk_status_sw (ResponseApdu_status_word r))))"

definition puk_status :: "('t, 'e) transport \<Rightarrow> ('t, 'e, PukStatus) auth_io" where
  "puk_status tx = puk_status_with_scheme tx PinReferenceScheme_Citizen"

text \<open>GET DATA on a PIN container: a refusal is the absence of the value.\<close>

definition read_pin_info ::
  "('t, 'e) transport \<Rightarrow> CommandApdu \<Rightarrow> (bytes \<Rightarrow> 'v option) \<Rightarrow> ('t, 'e, 'v option) auth_io" where
  "read_pin_info tx apdu scan =
     bindS (auth_transmit tx apdu) (\<lambda>r.
       if \<not> ResponseApdu_is_ok r then ret None else ret (scan (resp_body r)))"

definition pin_policy_counters ::
  "('t, 'e) transport \<Rightarrow> PinSlot \<Rightarrow> ('t, 'e, CredentialPolicyCounters option) auth_io" where
  "pin_policy_counters tx slot =
     read_pin_info tx (GetPinInfo_into_apdu \<lparr>gpi_scheme = PinReferenceScheme_Citizen, gpi_slot = slot\<rparr>)
       policy_counters_from_response_body"

definition puk_policy_counters ::
  "('t, 'e) transport \<Rightarrow> ('t, 'e, CredentialPolicyCounters option) auth_io" where
  "puk_policy_counters tx = read_pin_info tx GetPukInfo_into_apdu policy_counters_from_response_body"

definition pin_changed_flag_with_scheme ::
  "('t, 'e) transport \<Rightarrow> PinReferenceScheme \<Rightarrow> PinSlot \<Rightarrow> ('t, 'e, bool option) auth_io" where
  "pin_changed_flag_with_scheme tx scheme slot =
     read_pin_info tx (GetPinInfo_into_apdu \<lparr>gpi_scheme = scheme, gpi_slot = slot\<rparr>)
       changed_flag_from_response_body"

definition pin_changed_flag :: "('t, 'e) transport \<Rightarrow> PinSlot \<Rightarrow> ('t, 'e, bool option) auth_io" where
  "pin_changed_flag tx slot = pin_changed_flag_with_scheme tx PinReferenceScheme_Citizen slot"

definition pin_policy_lengths ::
  "('aod, 'r) range_ops \<Rightarrow> ('t, 'e) transport \<Rightarrow> CredentialReference \<Rightarrow> ('t, 'e, 'r option) auth_io" where
  "pin_policy_lengths ops tx credential =
     (let apdu = (case credential of
          CredentialReference_Pin scheme slot \<Rightarrow> GetPinInfo_into_apdu \<lparr>gpi_scheme = scheme, gpi_slot = slot\<rparr>
        | CredentialReference_Puk _ \<Rightarrow> GetPukInfo_into_apdu)
      in read_pin_info tx apdu (policy_lengths_from_response_body (range_new ops)))"

text \<open>The closure of \<open>read_card_pin_lengths\<close>: its state is the captured failure and the transport.\<close>

definition policy_closure ::
  "('aod, 'r) range_ops \<Rightarrow> ('t, 'e) transport \<Rightarrow> PinReferenceScheme \<Rightarrow> CredentialReference \<Rightarrow>
     'e TransportDispatchError AuthError option \<times> 't \<Rightarrow>
     'r option \<times> ('e TransportDispatchError AuthError option \<times> 't)" where
  "policy_closure ops tx numbering credential st =
     (if \<not> Option.is_none (fst st) \<or> numbering \<noteq> PinReferenceScheme_Citizen then (None, st)
      else case pin_policy_lengths ops tx credential (snd st) of
             (Inr r, s') \<Rightarrow> (r, (fst st, s'))
           | (Inl error, s') \<Rightarrow> (None, (Some error, s')))"

definition lengths_from_objects ::
  "('aod, 'r) range_ops \<Rightarrow> ('t, 'e) transport \<Rightarrow> PinReferenceScheme \<Rightarrow> 'aod option \<Rightarrow>
     ('t, 'e, 'r CardPinLengths) auth_io" where
  "lengths_from_objects ops tx numbering objects s =
     (case CardPinLengths_from_card ops numbering objects (policy_closure ops tx numbering) (None, s) of
        (lengths, (None, s')) \<Rightarrow> (Inr lengths, s')
      | (lengths, (Some error, s')) \<Rightarrow> (Inl error, s'))"

definition read_objects ::
  "fid \<Rightarrow> (bytes \<Rightarrow> 'p + 'aod) \<Rightarrow> ('t, 'e) transport \<Rightarrow> ('t, 'e, 'aod option) auth_io" where
  "read_objects ef_aod parse_aod tx s =
     (case read_authentication_objects ef_aod parse_aod tx s of
        (Inr objects, s') \<Rightarrow> (Inr (Some objects), s')
      | (Inl (Pkcs15Error_Transport error), s') \<Rightarrow> (Inl (AuthError_Transport error), s')
      | (Inl _, s') \<Rightarrow> (Inr None, s'))"

definition read_card_pin_lengths ::
  "fid \<Rightarrow> (bytes \<Rightarrow> 'p + 'aod) \<Rightarrow> ('aod, 'r) range_ops \<Rightarrow> ('t, 'e) transport \<Rightarrow>
     ('t, 'e, 'r CardPinLengths) auth_io" where
  "read_card_pin_lengths ef_aod parse_aod ops tx =
     bindS (resolve_pin_reference_scheme tx) (\<lambda>numbering.
     bindS (read_objects ef_aod parse_aod tx) (\<lambda>objects.
     lengths_from_objects ops tx numbering objects))"


section \<open>Exchanges of the operations\<close>

subsection \<open>Blocks and commands\<close>

lemma length_CredentialBlock_push:
  "length (CredentialBlock_push out scheme digits stored) \<le> length out + max stored (length digits)"
  by (simp add: CredentialBlock_push_def Let_def max_def)

lemma command_new_as_bytes [simp]: "cmd_bytes (CommandApdu_new bs) = bs"
  by simp

lemma verify_command_eq:
  "length block \<le> 255 \<Longrightarrow> verify_command reference block =
     CommandApdu_new ([0x00, 0x20, 0x00, CredentialReference_as_byte reference, of_nat (length block)] @ block)"
  by (simp add: verify_command_def Verify_into_apdu_def u8_try_from_def)

lemma probe_command_eq:
  "probe_command reference = CommandApdu_new [0x00, 0x20, 0x00, CredentialReference_as_byte reference, 0]"
  by (simp add: probe_command_def Verify_into_apdu_def u8_try_from_def)

definition presents_credential :: "CommandApdu \<Rightarrow> bool" where
  "presents_credential c \<longleftrightarrow>
     (case cmd_bytes c of
        cla # ins # rest \<Rightarrow> ins = 0x24 \<or> ins = 0x2C \<or> ins = 0x20 \<and> length (cmd_bytes c) > 5
      | _ \<Rightarrow> False)"

abbreviation silent :: "CommandApdu \<Rightarrow> bool" where
  "silent c \<equiv> \<not> presents_credential c"

lemma presents_new:
  "presents_credential (CommandApdu_new (cla # ins # rest)) \<longleftrightarrow>
     ins = 0x24 \<or> ins = 0x2C \<or> ins = 0x20 \<and> 3 < length rest"
  by (auto simp: presents_credential_def)


lemma emits_auth_transmit:
  "emits (auth_transmit (journaled tx) apdu)
     (\<lambda>r sent. \<exists>reply. sent = [(CommandApdu_new (cmd_bytes apdu), reply)] \<and>
        (case r of Inl e \<Rightarrow> (\<exists>t. e = AuthError_Transport t)
         | Inr x \<Rightarrow> reply = Inr (TransportOutcome_Response x)))"
  unfolding auth_transmit_def
proof (rule emits_weaken [OF emits_map_errS [OF emits_transmit]], elim exE conjE)
  fix r sent q reply
  assume "r = map_err AuthError_Transport q" "sent = [(CommandApdu_new (CommandApdu_as_bytes apdu), reply)]"
    "\<forall>x. q = Inr x \<longleftrightarrow> reply = Inr (TransportOutcome_Response x)"
  then show "\<exists>reply. sent = [(CommandApdu_new (cmd_bytes apdu), reply)] \<and>
      (case r of Inl e \<Rightarrow> \<exists>t. e = AuthError_Transport t | Inr x \<Rightarrow> reply = Inr (TransportOutcome_Response x))"
    by (cases q) auto
qed

lemma only_sends_auth_transmit [only_sends_intros]:
  "P (CommandApdu_new (cmd_bytes apdu)) \<Longrightarrow> only_sends P (auth_transmit (journaled tx) apdu)"
  by (simp add: auth_transmit_def only_sends_intros)


subsection \<open>The SELECT walks and reads present nothing\<close>

lemma select_commands_silent [simp]:
  "silent (CommandApdu_new (cmd_bytes (SelectByAidNoFci_into_apdu a)))"
  "silent (CommandApdu_new (cmd_bytes (SelectEfNoFci_into_apdu b)))"
  "silent (CommandApdu_new (cmd_bytes (SelectFile_into_apdu c)))"
  "silent (CommandApdu_new (cmd_bytes (select_no_fci p1 fid)))"
  "silent (CommandApdu_new (cmd_bytes (ReadBinaryByOffset_into_apdu d)))"
  "silent (CommandApdu_new (cmd_bytes (GetPinInfo_into_apdu e)))"
  "silent (CommandApdu_new (cmd_bytes GetPukInfo_into_apdu))"
  "silent (CommandApdu_new (cmd_bytes (probe_command f)))"
  by (simp_all add: presents_new SelectByAidNoFci_into_apdu_def SelectEfNoFci_into_apdu_def
      SelectFile_into_apdu_def select_no_fci_def ReadBinaryByOffset_into_apdu_def
      GetPinInfo_into_apdu_def GetPukInfo_into_apdu_def GetPinInfo_for_reference_def
      probe_command_eq append_data_target Let_def)

lemma first_accepted_silent [only_sends_intros]:
  "only_sends silent (first_accepted (journaled tx) mf_select_attempts)"
  "only_sends silent (first_accepted (journaled tx) (child_df_select_attempts fid))"
  by (auto simp: first_accepted_def mf_select_attempts_def child_df_select_attempts_def
      intro!: only_sends_intros)

lemma select_first_ok_silent:
  "list_all (\<lambda>c. silent (CommandApdu_new (cmd_bytes c))) cs \<Longrightarrow>
     only_sends silent (select_first_ok (journaled tx) cs sw)"
  by (induction cs arbitrary: sw) (auto intro!: only_sends_intros)

lemma select_walks_silent [only_sends_intros]:
  "only_sends silent (select_pkcs15_application (journaled tx))"
  "only_sends silent (select_ef (journaled tx) fid)"
  "only_sends silent (select_esign_directory (journaled tx))"
  by (auto simp: select_pkcs15_application_def select_ef_def select_esign_directory_def Let_def
      intro!: only_sends_intros select_first_ok_silent split: sum.splits)

lemma read_at_silent: "only_sends silent (read_at (journaled tx) offset want)"
  by (auto simp: read_at_def intro!: only_sends_intros)


lemma read_to_cap_monadic:
  "read_to_cap tx cap offset collected =
     (if offset < cap then
        let want = min (cap - offset) READ_CHUNK
        in if want > 255 \<or> offset > 65535 then fail Pkcs15Error_TooLarge
           else bindS (read_at tx offset want) (\<lambda>r.
             if \<not> ResponseApdu_is_ok r \<and> \<not> is_end_of_file r then fail (Pkcs15Error_Sw (ResponseApdu_sw r))
             else if resp_body r = [] \<or> length (resp_body r) < want \<or> is_end_of_file r
             then ret (collected @ resp_body r)
             else read_to_cap tx cap (offset + length (resp_body r)) (collected @ resp_body r))
      else ret collected)"
  by (rule ext, subst read_to_cap.simps) (auto simp: bindS_def Let_def split: prod.splits sum.splits)

lemma read_to_cap_silent: "only_sends silent (read_to_cap (journaled tx) cap offset collected)"
proof (induction "cap - offset" arbitrary: offset collected rule: less_induct)
  case less
  show ?case
  proof (subst read_to_cap_monadic, unfold Let_def, intro only_sends_intros read_at_silent)
    fix r :: ResponseApdu
    assume "offset < cap" "\<not> (resp_body r = [] \<or> length (resp_body r) < min (cap - offset) READ_CHUNK \<or> is_end_of_file r)"
    then show "only_sends silent (read_to_cap (journaled tx) cap (offset + length (resp_body r)) (collected @ resp_body r))"
      by (intro less diff_less_mono2) auto
  qed
qed

lemma reads_silent [only_sends_intros]:
  "only_sends silent (read_binary_to_end (journaled tx) expected)"
  "only_sends silent (read_authentication_objects ef_aod parse_aod (journaled tx))"
  "only_sends silent (probe_status_word (journaled tx) reference)"
  by (auto simp: read_binary_to_end_def read_authentication_objects_def probe_status_word_def Let_def
      intro!: only_sends_intros read_to_cap_silent)

lemma read_pin_info_silent:
  "silent (CommandApdu_new (cmd_bytes c)) \<Longrightarrow> only_sends silent (read_pin_info (journaled tx) c scan)"
  by (auto simp: read_pin_info_def intro!: only_sends_intros)

lemma probes_silent [only_sends_intros]:
  "only_sends silent (resolve_pin_reference_scheme (journaled tx))"
  "only_sends silent (pin_status_with_scheme (journaled tx) scheme slot)"
  "only_sends silent (puk_status_with_scheme (journaled tx) scheme)"
  "only_sends silent (pin_changed_flag_with_scheme (journaled tx) scheme slot)"
  "only_sends silent (pin_policy_counters (journaled tx) slot)"
  "only_sends silent (puk_policy_counters (journaled tx))"
  "only_sends silent (pin_policy_lengths ops (journaled tx) credential)"
  by (auto simp: resolve_pin_reference_scheme_def pin_status_with_scheme_def puk_status_with_scheme_def
      pin_changed_flag_with_scheme_def pin_policy_counters_def puk_policy_counters_def
      pin_policy_lengths_def Let_def intro!: only_sends_intros read_pin_info_silent
      split: CredentialReference.splits)

lemma read_objects_silent [only_sends_intros]:
  "only_sends silent (read_objects ef_aod parse_aod (journaled tx))"
proof -
  have "emits (read_objects ef_aod parse_aod (journaled tx)) (\<lambda>_ sent. list_all (\<lambda>x. silent (fst x)) sent)"
  proof (rule emitsI)
    fix log s
    obtain sent where "fst (snd (read_authentication_objects ef_aod parse_aod (journaled tx) (log, s))) = log @ sent"
        "list_all (\<lambda>x. silent (fst x)) sent"
      using reads_silent(2) unfolding only_sends_def by (rule emitsD)
    then show "\<exists>sent. fst (snd (read_objects ef_aod parse_aod (journaled tx) (log, s))) = log @ sent \<and>
        list_all (\<lambda>x. silent (fst x)) sent"
      by (auto simp: read_objects_def split: prod.splits sum.splits Pkcs15Error.splits)
  qed
  then show ?thesis by (simp add: only_sends_def)
qed


text \<open>The closure of \<open>read_card_pin_lengths\<close> threads the transport state by hand.\<close>

definition grows_silently :: "'e exchange list \<Rightarrow> 'e exchange list \<Rightarrow> bool" where
  "grows_silently log log' \<longleftrightarrow> (\<exists>sent. log' = log @ sent \<and> list_all (\<lambda>x. silent (fst x)) sent)"

lemma grows_silently_trans [trans]:
  "grows_silently a b \<Longrightarrow> grows_silently b c \<Longrightarrow> grows_silently a c"
  by (auto simp: grows_silently_def)

lemma only_sends_grows:
  "only_sends silent m \<longleftrightarrow> (\<forall>log s. grows_silently log (fst (snd (m (log, s)))))"
  by (simp add: only_sends_def emits_def grows_silently_def)

lemma policy_closure_grows:
  "grows_silently (fst (snd st)) (fst (snd (snd (policy_closure ops (journaled tx) numbering credential st))))"
proof -
  have "grows_silently (fst (snd st))
      (fst (snd (pin_policy_lengths ops (journaled tx) credential (fst (snd st), snd (snd st)))))"
    using probes_silent(7) [of ops tx credential] unfolding only_sends_grows by (simp only:)
  then show ?thesis
    by (auto simp: policy_closure_def grows_silently_def split: prod.splits sum.splits)
qed

lemma listed_range_grows:
  "grows_silently (fst (snd st))
     (fst (snd (snd (listed_range ops objects (policy_closure ops (journaled tx) numbering) credential st))))"
  using policy_closure_grows [of st ops tx numbering credential]
  by (auto simp: listed_range_def grows_silently_def split: option.splits)

lemma lengths_from_objects_silent [only_sends_intros]:
  "only_sends silent (lengths_from_objects ops (journaled tx) numbering objects)"
  unfolding only_sends_grows
proof (intro allI)
  fix log s
  let ?l = "listed_range ops objects (policy_closure ops (journaled tx) numbering)"
  define st1 where "st1 = snd (?l (CredentialReference_Pin numbering PinSlot_Pin1) (None, (log, s)))"
  define st2 where "st2 = snd (?l (CredentialReference_Pin numbering PinSlot_Pin2) st1)"
  define st3 where "st3 = snd (?l (CredentialReference_Puk numbering) st2)"
  have "grows_silently log (fst (snd st1))"
    using listed_range_grows [of "(None, (log, s))"] by (simp add: st1_def)
  also have "grows_silently (fst (snd st1)) (fst (snd st2))"
    unfolding st2_def by (rule listed_range_grows)
  also have "grows_silently (fst (snd st2)) (fst (snd st3))"
    unfolding st3_def by (rule listed_range_grows)
  finally have "grows_silently log (fst (snd st3))" .
  moreover have "snd (CardPinLengths_from_card ops numbering objects (policy_closure ops (journaled tx) numbering)
      (None, (log, s))) = st3"
    by (simp add: CardPinLengths_from_card_def st1_def st2_def st3_def split: prod.splits)
  ultimately show "grows_silently log (fst (snd (lengths_from_objects ops (journaled tx) numbering objects (log, s))))"
    by (auto simp: lengths_from_objects_def split: prod.splits option.splits)
qed

lemma read_card_pin_lengths_silent:
  "only_sends silent (read_card_pin_lengths ef_aod parse_aod ops (journaled tx))"
  unfolding read_card_pin_lengths_def by (intro only_sends_intros)


subsection \<open>The operations that present a credential\<close>

lemma policy_validate_digits_Inr:
  "policy_validate_digits ascii = Inr () \<longleftrightarrow> list_all is_ascii_digit ascii"
  by (auto simp: policy_validate_digits_def list_all_iff position_eq_Some split: option.splits)

lemma policy_validate_ascii_Inr:
  "policy_validate_ascii ascii mn stored = Inr () \<longleftrightarrow>
     mn \<le> length ascii \<and> length ascii \<le> stored \<and> list_all is_ascii_digit ascii"
  by (auto simp: policy_validate_ascii_def policy_validate_digits_Inr)

lemma policy_validate_for_card_Inr:
  "policy_validate_for_card ascii check = Inr () \<longleftrightarrow>
     check (length ascii) = Inr () \<and> list_all is_ascii_digit ascii"
  by (auto simp: policy_validate_for_card_def policy_validate_digits_Inr bindR_eq_Inr)

lemma policy_error:
  "policy_validate_ascii ascii mn stored = Inl e \<Longrightarrow> \<exists>reason. e = AuthError_PinPolicy reason"
  "policy_validate_for_card ascii check = Inl e \<Longrightarrow> \<exists>reason. e = AuthError_PinPolicy reason"
  by (auto simp: policy_validate_ascii_def policy_validate_for_card_def policy_validate_digits_def
      bindR_eq_Inl map_err_eq_Inl split: if_splits option.splits)

text \<open>What a single presentation relates: refused locally with nothing sent, or the one command
  sent, and then the outcome is the decoded answer.\<close>

definition presented_once ::
  "CommandApdu \<Rightarrow> (StatusWord \<Rightarrow> 'o) \<Rightarrow> 'e TransportDispatchError AuthError + 'o \<Rightarrow> 'e exchange list \<Rightarrow> bool" where
  "presented_once cmd classify r sent \<longleftrightarrow>
     (\<exists>reply. sent = [(cmd, reply)] \<and>
        (case r of
           Inl e \<Rightarrow> \<exists>t. e = AuthError_Transport t
         | Inr out \<Rightarrow> \<exists>x. reply = Inr (TransportOutcome_Response x) \<and> out = classify (ResponseApdu_status_word x)))"

lemma emits_present:
  assumes "CommandApdu_new (cmd_bytes apdu) = cmd"
  shows "emits (bindS (auth_transmit (journaled tx) apdu) (\<lambda>r. ret (classify (ResponseApdu_status_word r))))
    (presented_once cmd classify)"
  by (rule emits_bindS [OF emits_auth_transmit emits_ret])
    (auto simp: presented_once_def assms)


definition verify_apdu :: "CredentialReference \<Rightarrow> PinReferenceScheme \<Rightarrow> bytes \<Rightarrow> CommandApdu" where
  "verify_apdu reference scheme digits =
     (let block = CredentialBlock_push [] scheme digits 12
      in CommandApdu_new ([0x00, 0x20, 0x00, CredentialReference_as_byte reference, of_nat (length block)] @ block))"

definition change_apdu :: "PinReferenceScheme \<Rightarrow> PinSlot \<Rightarrow> bytes \<Rightarrow> bytes \<Rightarrow> CommandApdu" where
  "change_apdu scheme slot current new =
     (let block = CredentialBlock_push (CredentialBlock_push [] scheme current 12) scheme new 12
      in CommandApdu_new ([0x00, 0x24, 0x00, PinReferenceScheme_reference scheme slot, of_nat (length block)] @ block))"

definition reset_apdu :: "PinReferenceScheme \<Rightarrow> PinSlot \<Rightarrow> bytes \<Rightarrow> bytes \<Rightarrow> CommandApdu" where
  "reset_apdu scheme target puk new =
     (let citizen = (scheme = PinReferenceScheme_Citizen);
          block = CredentialBlock_push (if citizen then CredentialBlock_push [] scheme puk 12 else []) scheme new 12
      in CommandApdu_new ([0x00, 0x2C, if citizen then 0x00 else 0x02,
           PinReferenceScheme_reference scheme target, of_nat (length block)] @ block))"

lemma short_blocks:
  "length a \<le> 12 \<Longrightarrow> length (CredentialBlock_push [] scheme a 12) \<le> 12"
  "length a \<le> 12 \<Longrightarrow> length b \<le> 12 \<Longrightarrow>
     length (CredentialBlock_push (CredentialBlock_push [] scheme a 12) scheme b 12) \<le> 24"
  by (simp_all add: CredentialBlock_push_def Let_def)

lemma PUK_STORED_12 [simp]: "PUK_STORED_LENGTH = 12"
  by (simp add: PUK_STORED_LENGTH_def)

lemma verify_command_apdu:
  "length digits \<le> 12 \<Longrightarrow>
     verify_command reference (CredentialBlock_push [] scheme digits 12) = verify_apdu reference scheme digits"
  using short_blocks(1) [of digits scheme] by (simp add: verify_command_eq verify_apdu_def Let_def)

lemma change_command_apdu:
  "length current \<le> 12 \<Longrightarrow> length new \<le> 12 \<Longrightarrow>
     the (ChangeReferenceData_into_apdu \<lparr>crd_reference = CredentialReference_Pin scheme slot,
       crd_padded_pair = CredentialBlock_push (CredentialBlock_push [] scheme current 12) scheme new 12\<rparr>)
     = change_apdu scheme slot current new"
  using short_blocks(2) [of current new scheme]
  by (simp add: ChangeReferenceData_into_apdu_def u8_try_from_def change_apdu_def Let_def)

lemma reset_command_apdu:
  assumes "length puk \<le> 12" "length new \<le> 12"
  shows "reset_command PinReferenceScheme_Citizen target ResetRetryCounterMode_CodeThenNew puk new =
      reset_apdu PinReferenceScheme_Citizen target puk new"
    and "reset_command PinReferenceScheme_Organizational target ResetRetryCounterMode_NewOnly puk new =
      reset_apdu PinReferenceScheme_Organizational target puk new"
  using short_blocks(2) [OF assms, of PinReferenceScheme_Citizen]
    short_blocks(1) [OF assms(2), of PinReferenceScheme_Organizational]
  by (simp_all add: reset_command_def ResetRetryCounter_into_apdu_def u8_try_from_def reset_apdu_def Let_def)

lemma apdus_unmarked [simp]:
  "CommandApdu_new (cmd_bytes (verify_apdu reference scheme digits)) = verify_apdu reference scheme digits"
  "CommandApdu_new (cmd_bytes (change_apdu scheme slot current new)) = change_apdu scheme slot current new"
  "CommandApdu_new (cmd_bytes (reset_apdu scheme slot puk new)) = reset_apdu scheme slot puk new"
  by (simp_all add: verify_apdu_def change_apdu_def reset_apdu_def Let_def)

lemma apdus_present [simp]:
  "digits \<noteq> [] \<Longrightarrow> presents_credential (verify_apdu reference scheme digits)"
  "presents_credential (change_apdu scheme slot current new)"
  "presents_credential (reset_apdu scheme slot puk new)"
  by (simp_all add: verify_apdu_def change_apdu_def reset_apdu_def Let_def presents_new CredentialBlock_push_def)

lemma PinBytes_wf_policy:
  assumes "PinBytes_wf pin"
  shows "policy_validate_ascii (PinBytes_as_bytes pin) PIN_MIN_LENGTH (PinSlot_stored_length slot) = Inr ()"
    and "length (PinBytes_as_bytes pin) \<le> 12" "PinBytes_as_bytes pin \<noteq> []"
  using assms
  by (auto simp: PinBytes_wf_def digits_within_def policy_validate_ascii_Inr PIN_MIN_LENGTH_def list_all_iff)

lemma emits_verify_present:
  assumes "PinBytes_wf pin"
  shows "emits (verify_present (journaled tx) scheme slot pin)
    (presented_once (verify_apdu (CredentialReference_Pin scheme slot) scheme (PinBytes_as_bytes pin)) classify_verify_sw)"
  by (simp add: verify_present_def Let_def verify_command_apdu emits_present
      PinBytes_wf_policy [OF assms] PinBytes_wf_policy(1) [OF assms, of slot, simplified])


text \<open>The two results of a gated presentation: the walk before it ended it, or it was made once.\<close>

definition presented_after_walk ::
  "CommandApdu \<Rightarrow> 'e TransportDispatchError AuthError + VerifyOutcome \<Rightarrow> 'e exchange list \<Rightarrow> bool" where
  "presented_after_walk cmd r log \<longleftrightarrow>
     (\<exists>walk. list_all (\<lambda>x. silent (fst x)) walk \<and>
        (log = walk \<and> (case r of Inl e \<Rightarrow> \<exists>t. e = AuthError_Transport t | Inr out \<Rightarrow> \<exists>sw. out = VerifyOutcome_Other sw) \<or>
         (\<exists>sent. log = walk @ sent \<and> presented_once cmd classify_verify_sw r sent)))"

lemma transport_err:
  assumes "only_sends silent m"
  shows "emits (map_errS AuthError_Transport m)
    (\<lambda>r sent. list_all (\<lambda>x. silent (fst x)) sent \<and> (\<forall>e. r = Inl e \<longrightarrow> (\<exists>t. e = AuthError_Transport t)))"
  by (rule emits_weaken [OF emits_map_errS [OF assms [unfolded only_sends_def]]])
    (auto simp: map_err_eq_Inl)

lemma after_walk_once: "presented_once cmd classify_verify_sw r sent \<Longrightarrow> presented_after_walk cmd r sent"
  unfolding presented_after_walk_def by (rule exI [of _ "[]"]) simp

lemma after_walk_ended:
  "list_all (\<lambda>x. silent (fst x)) log \<Longrightarrow>
     (case r of Inl e \<Rightarrow> \<exists>t. e = AuthError_Transport t | Inr out \<Rightarrow> \<exists>sw. out = VerifyOutcome_Other sw) \<Longrightarrow>
     presented_after_walk cmd r log"
  unfolding presented_after_walk_def by blast

lemma after_walk_prepend:
  assumes walk: "list_all (\<lambda>x. silent (fst x)) walk" and rest: "presented_after_walk cmd r log"
  shows "presented_after_walk cmd r (walk @ log)"
proof -
  obtain w where "list_all (\<lambda>x. silent (fst x)) (walk @ w)"
    "walk @ log = walk @ w \<and> (case r of Inl e \<Rightarrow> \<exists>t. e = AuthError_Transport t | Inr out \<Rightarrow> \<exists>sw. out = VerifyOutcome_Other sw) \<or>
     (\<exists>sent. walk @ log = (walk @ w) @ sent \<and> presented_once cmd classify_verify_sw r sent)"
    using walk rest unfolding presented_after_walk_def by auto
  then show ?thesis unfolding presented_after_walk_def by blast
qed

lemma emits_verify:
  assumes wf: "PinBytes_wf pin" and gated: "gates_esign_directory scheme slot"
  shows "emits (verify_pin_with_scheme (journaled tx) scheme slot pin)
    (presented_after_walk (verify_apdu (CredentialReference_Pin scheme slot) scheme (PinBytes_as_bytes pin)))"
    (is "emits _ (presented_after_walk ?cmd)")
  unfolding verify_pin_with_scheme_def if_P [OF gated]
proof (rule emits_bindS [OF transport_err [OF select_walks_silent(3)]])
  fix entered
  show "emits (if \<not> StatusWord_is_success entered then ret (VerifyOutcome_Other (StatusWord_as_u16 entered))
      else verify_present (journaled tx) scheme slot pin) (presented_after_walk ?cmd)"
  proof (cases "StatusWord_is_success entered")
    case True
    then show ?thesis
      by simp (rule emits_weaken [OF emits_verify_present [OF wf] after_walk_once])
  next
    case False
    then show ?thesis
      by simp (rule emits_weaken [OF emits_ret], auto intro: after_walk_ended)
  qed
qed (auto intro: after_walk_ended after_walk_prepend)

lemma emits_verify_direct:
  assumes "PinBytes_wf pin" "\<not> gates_esign_directory scheme slot"
  shows "emits (verify_pin_with_scheme (journaled tx) scheme slot pin)
    (presented_once (verify_apdu (CredentialReference_Pin scheme slot) scheme (PinBytes_as_bytes pin)) classify_verify_sw)"
  using assms by (simp add: verify_pin_with_scheme_def emits_verify_present)

text \<open>A local rejection sends nothing.\<close>

definition or_rejected ::
  "bool \<Rightarrow> ('e TransportDispatchError AuthError + 'o \<Rightarrow> 'e exchange list \<Rightarrow> bool) \<Rightarrow>
     'e TransportDispatchError AuthError + 'o \<Rightarrow> 'e exchange list \<Rightarrow> bool" where
  "or_rejected admitted Q r sent \<longleftrightarrow>
     (if admitted then Q r sent else (\<exists>reason. r = Inl (AuthError_PinPolicy reason)) \<and> sent = [])"

lemma emits_policy:
  fixes m :: "(('t, 'e) journal, 'e TransportDispatchError AuthError, 'o) io"
  assumes digits: "list_all is_ascii_digit ascii"
    and m: "check (length ascii) = Inr () \<Longrightarrow> emits m (or_rejected admitted Q)"
  shows "emits (bindS (liftR (policy_validate_for_card ascii check)) (\<lambda>_. m))
    (or_rejected (check (length ascii) = Inr () \<and> admitted) Q)"
proof (cases "policy_validate_for_card ascii check :: 'e TransportDispatchError AuthError + unit")
  case (Inl e)
  then have "check (length ascii) \<noteq> Inr ()"
    using digits policy_validate_for_card_Inr [of ascii check, where 'a = "'e TransportDispatchError"] by auto
  moreover obtain reason where "e = AuthError_PinPolicy reason" using Inl policy_error(2) by blast
  ultimately show ?thesis
    by (simp add: Inl) (rule emits_weaken [OF emits_fail], simp add: or_rejected_def)
next
  case (Inr u)
  then have "check (length ascii) = Inr ()"
    using policy_validate_for_card_Inr [of ascii check, where 'a = "'e TransportDispatchError"] by simp
  then show ?thesis using m by (simp add: Inr)
qed

lemma PinBytes_wf_digits: "PinBytes_wf pin \<Longrightarrow> list_all is_ascii_digit (PinBytes_as_bytes pin)"
  by (auto simp: PinBytes_wf_def digits_within_def list_all_iff)

lemma emits_admitted: "emits m Q \<Longrightarrow> emits m (or_rejected True Q)"
  by (erule emits_weaken) (simp add: or_rejected_def)

lemma presented_onceD:
  "presented_once cmd classify r sent \<Longrightarrow>
     \<exists>reply. sent = [(cmd, reply)] \<and> (\<forall>out. r = Inr out \<longrightarrow> (\<exists>x. reply = Inr (TransportOutcome_Response x) \<and>
       out = classify (ResponseApdu_status_word x)))"
  by (cases r) (auto simp: presented_once_def)

lemma emits_change:
  assumes "PinBytes_wf current" "PinBytes_wf new"
  shows "emits (change_pin ops (journaled tx) lengths slot current new)
    (or_rejected (check_pin ops lengths slot (length (PinBytes_as_bytes current)) = Inr () \<and>
        check_pin ops lengths slot (length (PinBytes_as_bytes new)) = Inr () \<and> True)
      (presented_once
         (change_apdu (cpl_numbering lengths) slot (PinBytes_as_bytes current) (PinBytes_as_bytes new))
         classify_change_pin_sw))"
  unfolding change_pin_def Let_def stored_length_12
    change_command_apdu [OF PinBytes_wf_policy(2) [OF assms(1)] PinBytes_wf_policy(2) [OF assms(2)]]
  by (intro emits_policy PinBytes_wf_digits assms emits_admitted emits_present apdus_unmarked)

text \<open>Unblocking: one command on a citizen card; on an organization card the PUK first, and the
  reset only after the card accepted it.\<close>

definition unblock_exchanges ::
  "PinReferenceScheme \<Rightarrow> PinSlot \<Rightarrow> bytes \<Rightarrow> bytes \<Rightarrow>
     'e TransportDispatchError AuthError + UnblockOutcome \<Rightarrow> 'e exchange list \<Rightarrow> bool" where
  "unblock_exchanges scheme target puk new r log \<longleftrightarrow>
     (case scheme of
        PinReferenceScheme_Citizen \<Rightarrow>
          presented_once (reset_apdu scheme target puk new) classify_reset_retry_sw r log
      | PinReferenceScheme_Organizational \<Rightarrow>
          presented_once (verify_apdu (CredentialReference_Puk scheme) scheme puk) classify_reset_retry_sw r log \<and>
            r \<noteq> Inr UnblockOutcome_Ok \<or>
          (\<exists>x rest. log = (verify_apdu (CredentialReference_Puk scheme) scheme puk,
                Inr (TransportOutcome_Response x)) # rest \<and> ResponseApdu_is_ok x \<and>
              presented_once (reset_apdu scheme target puk new) classify_reset_retry_sw r rest))"

lemma classify_reset_Ok: "classify_reset_retry_sw sw = UnblockOutcome_Ok \<longleftrightarrow> sw = StatusWord_Success"
  by (cases sw) simp_all

lemma status_success_ok: "ResponseApdu_status_word r = StatusWord_Success \<longleftrightarrow> ResponseApdu_is_ok r"
  by (auto simp: ResponseApdu_is_ok_def split: StatusWord.splits)

lemma emits_reset_send:
  assumes "length puk \<le> 12" "length new \<le> 12"
  shows "emits (reset_send (journaled tx) PinReferenceScheme_Citizen target ResetRetryCounterMode_CodeThenNew puk new)
      (presented_once (reset_apdu PinReferenceScheme_Citizen target puk new) classify_reset_retry_sw)"
    and "emits (reset_send (journaled tx) PinReferenceScheme_Organizational target ResetRetryCounterMode_NewOnly puk new)
      (presented_once (reset_apdu PinReferenceScheme_Organizational target puk new) classify_reset_retry_sw)"
  by (simp_all add: reset_send_def reset_command_apdu [OF assms] emits_present)


lemma emits_unblock_organizational:
  fixes tx :: "('t, 'e) transport"
  assumes len: "length puk \<le> 12" "length new \<le> 12"
  shows "emits (bindS (auth_transmit (journaled tx)
        (verify_apdu (CredentialReference_Puk PinReferenceScheme_Organizational) PinReferenceScheme_Organizational puk))
      (\<lambda>r. if classify_reset_retry_sw (ResponseApdu_status_word r) \<noteq> UnblockOutcome_Ok
           then ret (classify_reset_retry_sw (ResponseApdu_status_word r))
           else reset_send (journaled tx) PinReferenceScheme_Organizational target ResetRetryCounterMode_NewOnly puk new))
    (unblock_exchanges PinReferenceScheme_Organizational target puk new)"
proof (rule emits_bindS [OF emits_auth_transmit])
  fix x
  show "emits (if classify_reset_retry_sw (ResponseApdu_status_word x) \<noteq> UnblockOutcome_Ok
       then ret (classify_reset_retry_sw (ResponseApdu_status_word x))
       else reset_send (journaled tx) PinReferenceScheme_Organizational target ResetRetryCounterMode_NewOnly puk new)
     (\<lambda>r sent. if ResponseApdu_is_ok x
        then presented_once (reset_apdu PinReferenceScheme_Organizational target puk new) classify_reset_retry_sw r sent
        else r = Inr (classify_reset_retry_sw (ResponseApdu_status_word x)) \<and> sent = [])"
    using emits_reset_send(2) [OF len] emits_ret
    by (auto simp: classify_reset_Ok status_success_ok)
qed (auto simp: unblock_exchanges_def presented_once_def classify_reset_Ok status_success_ok split: if_splits)

lemma emits_reset:
  assumes "PinBytes_wf puk" "PinBytes_wf new"
  shows "emits (reset_retry_counter ops (journaled tx) lengths target puk new)
    (or_rejected (check_puk ops lengths (length (PinBytes_as_bytes puk)) = Inr () \<and>
        check_pin ops lengths target (length (PinBytes_as_bytes new)) = Inr () \<and> True)
      (unblock_exchanges (cpl_numbering lengths) target (PinBytes_as_bytes puk) (PinBytes_as_bytes new)))"
proof -
  have len: "length (PinBytes_as_bytes puk) \<le> 12" "length (PinBytes_as_bytes new) \<le> 12"
    using assms PinBytes_wf_policy(2) by blast+
  show ?thesis
  proof (cases "cpl_numbering lengths")
    case PinReferenceScheme_Citizen
    have "emits (reset_send (journaled tx) PinReferenceScheme_Citizen target ResetRetryCounterMode_CodeThenNew
        (PinBytes_as_bytes puk) (PinBytes_as_bytes new))
      (unblock_exchanges PinReferenceScheme_Citizen target (PinBytes_as_bytes puk) (PinBytes_as_bytes new))"
      by (rule emits_weaken [OF emits_reset_send(1) [OF len]]) (simp add: unblock_exchanges_def)
    then show ?thesis
      unfolding reset_retry_counter_def Let_def PinReferenceScheme_Citizen PinReferenceScheme.case
      by (intro emits_policy PinBytes_wf_digits assms emits_admitted)
  next
    case PinReferenceScheme_Organizational
    show ?thesis
      unfolding reset_retry_counter_def Let_def PinReferenceScheme_Organizational PinReferenceScheme.case
        PUK_STORED_12 verify_command_apdu [OF len(1)]
      by (intro emits_policy PinBytes_wf_digits assms emits_admitted emits_unblock_organizational len)
  qed
qed

text \<open>The digits \<open>1234\<close> and \<open>12345678\<close>, and a card that gives one answer to every command.\<close>

definition example_pin :: PinBytes where
  "example_pin = \<lparr>pin_storage = [0x31, 0x32, 0x33, 0x34, 0, 0, 0, 0, 0, 0, 0, 0], pin_length = 4\<rparr>"

definition example_puk :: PinBytes where
  "example_puk = \<lparr>pin_storage = [0x31, 0x32, 0x33, 0x34, 0x35, 0x36, 0x37, 0x38, 0, 0, 0, 0], pin_length = 8\<rparr>"

definition answers :: "u8 \<Rightarrow> u8 \<Rightarrow> (unit, unit) transport" where
  "answers sw1 sw2 c s = (Inr (TransportOutcome_Response \<lparr>resp_body = [], resp_sw1 = sw1, resp_sw2 = sw2\<rparr>), s)"

lemma example_digits [simp]:
  "PinBytes_as_bytes example_pin = [0x31, 0x32, 0x33, 0x34]"
  "PinBytes_as_bytes example_puk = [0x31, 0x32, 0x33, 0x34, 0x35, 0x36, 0x37, 0x38]"
  by (simp_all add: PinBytes_as_bytes_def PinBytes_digit_count_def example_pin_def example_puk_def)

lemma example_wf [simp]: "PinBytes_wf example_pin" "PinBytes_wf example_puk"
  by (simp_all add: PinBytes_wf_def digits_within_def is_ascii_digit_def)


lemma from_u16_eq_iff:
  "StatusWord_canonical w \<Longrightarrow> StatusWord_from_u16 sw = w \<longleftrightarrow> sw = StatusWord_as_u16 w"
  using as_from_u16 from_as_u16 by metis

lemma retries_eq_iff: "r = PinRetries n \<longleftrightarrow> unat (PinRetries_get r) = unat n"
  by (cases r) (simp add: word_unat_eq_iff)


section \<open>Properties\<close>

text \<open>
  (C8) A PIN is presented at most once: whatever the card answers, a verification sends one
  VERIFY with the PIN's credential block, as its last command, and its outcome is the decoded
  answer of the card; the only other possibility is that the organization card refused the walk to
  its signature directory (or the transport failed there), and then the PIN was not presented and
  the outcome is not success.
\<close>

theorem verify_presents_once:
  assumes "PinBytes_wf pin"
    and "verify_pin_with_scheme (journaled tx) scheme slot pin ([], s) = (r, (log, s'))"
  shows "gates_esign_directory scheme slot \<and> r \<noteq> Inr VerifyOutcome_Ok \<and>
      list_all (\<lambda>x. \<not> presents_credential (fst x)) log \<or>
    (\<exists>walk reply. log = walk @ [(verify_apdu (CredentialReference_Pin scheme slot) scheme (PinBytes_as_bytes pin), reply)] \<and>
      list_all (\<lambda>x. \<not> presents_credential (fst x)) walk \<and>
      (\<not> gates_esign_directory scheme slot \<longrightarrow> walk = []) \<and>
      (\<forall>out. r = Inr out \<longrightarrow> (\<exists>x. reply = Inr (TransportOutcome_Response x) \<and>
         out = classify_verify_sw (ResponseApdu_status_word x))))"
proof (cases "gates_esign_directory scheme slot")
  case True
  then show ?thesis
    using emits_from_empty [OF emits_verify [OF assms(1) True], of tx s] assms(2)
    by (auto simp: presented_after_walk_def dest: presented_onceD)
next
  case False
  then show ?thesis
    using emits_from_empty [OF emits_verify_direct [OF assms(1) False], of tx s] assms(2)
    by (auto dest: presented_onceD)
qed

text \<open>PIN 1 \<open>1234\<close> at a citizen card that answers \<open>63C4\<close>.\<close>

theorem verify_presents_once_witness:
  "\<exists>reply. fst (snd (verify_pin_with_scheme (journaled (answers 0x63 0xC4))
       PinReferenceScheme_Citizen PinSlot_Pin1 example_pin ([], ())))
     = [(CommandApdu_new [0x00, 0x20, 0x00, 0x11, 12, 0x31, 0x32, 0x33, 0x34, 0, 0, 0, 0, 0, 0, 0, 0], reply)]"
proof -
  let ?run = "verify_pin_with_scheme (journaled (answers 0x63 0xC4)) PinReferenceScheme_Citizen PinSlot_Pin1
      example_pin ([], ())"
  have "?run = (fst ?run, (fst (snd ?run), snd (snd ?run)))" by (simp only: prod.collapse)
  from verify_presents_once [OF example_wf(1) this] show ?thesis
    by (auto simp: gates_esign_directory_def verify_apdu_def CredentialBlock_push_def numeral_eq_Suc
        PIN_PAD_BYTE_def PIN1_REFERENCE_PKCS15_def)
qed

text \<open>
  The counter-safe reads present nothing: resolving the numbering, the PIN and PUK status
  probes, the changed flag, the policy counters and the length read, whatever the card answers,
  never send a VERIFY with data, a CHANGE REFERENCE DATA or a RESET RETRY COUNTER.
\<close>

theorem status_reads_spend_nothing:
  "list_all (\<lambda>x. \<not> presents_credential (fst x)) (fst (snd (resolve_pin_reference_scheme (journaled tx) ([], s)))) \<and>
   list_all (\<lambda>x. \<not> presents_credential (fst x)) (fst (snd (pin_status_with_scheme (journaled tx) scheme slot ([], s)))) \<and>
   list_all (\<lambda>x. \<not> presents_credential (fst x)) (fst (snd (puk_status_with_scheme (journaled tx) scheme ([], s)))) \<and>
   list_all (\<lambda>x. \<not> presents_credential (fst x)) (fst (snd (pin_changed_flag_with_scheme (journaled tx) scheme slot ([], s)))) \<and>
   list_all (\<lambda>x. \<not> presents_credential (fst x)) (fst (snd (pin_policy_counters (journaled tx) slot ([], s)))) \<and>
   list_all (\<lambda>x. \<not> presents_credential (fst x)) (fst (snd (puk_policy_counters (journaled tx) ([], s)))) \<and>
   list_all (\<lambda>x. \<not> presents_credential (fst x))
     (fst (snd (read_card_pin_lengths ef_aod parse_aod ops (journaled tx) ([], s))))"
  by (intro conjI only_sends_from_empty probes_silent read_card_pin_lengths_silent)

text \<open>
  Changing a PIN sends one CHANGE REFERENCE DATA with both blocks, or, when the local policy
  rejects an entry, nothing at all.
\<close>

theorem change_presents_once:
  assumes "PinBytes_wf current" "PinBytes_wf new"
    and "change_pin ops (journaled tx) lengths slot current new ([], s) = (r, (log, s'))"
  shows "if check_pin ops lengths slot (length (PinBytes_as_bytes current)) = Inr () \<and>
        check_pin ops lengths slot (length (PinBytes_as_bytes new)) = Inr ()
    then (\<exists>reply. log = [(change_apdu (cpl_numbering lengths) slot (PinBytes_as_bytes current) (PinBytes_as_bytes new), reply)] \<and>
      (\<forall>out. r = Inr out \<longrightarrow> (\<exists>x. reply = Inr (TransportOutcome_Response x) \<and>
         out = classify_change_pin_sw (ResponseApdu_status_word x))))
    else (\<exists>reason. r = Inl (AuthError_PinPolicy reason)) \<and> log = []"
  using emits_from_empty [OF emits_change [OF assms(1,2)], of ops lengths slot tx s] assms(3)
  by (auto simp: or_rejected_def dest: presented_onceD)

text \<open>A PIN 1 change within the FINEID bounds, and one with a PIN 1 that is too short for PIN 2.\<close>

theorem change_presents_once_witness:
  "(\<exists>reply. fst (snd (change_pin pair_ranges (journaled (answers 0x90 0x00))
       (CardPinLengths_not_listed pair_ranges PinReferenceScheme_Citizen) PinSlot_Pin1 example_pin example_puk ([], ())))
     = [(change_apdu PinReferenceScheme_Citizen PinSlot_Pin1 [0x31, 0x32, 0x33, 0x34]
          [0x31, 0x32, 0x33, 0x34, 0x35, 0x36, 0x37, 0x38], reply)]) \<and>
   fst (snd (change_pin pair_ranges (journaled (answers 0x90 0x00))
       (CardPinLengths_not_listed pair_ranges PinReferenceScheme_Citizen) PinSlot_Pin2 example_pin example_puk ([], ())))
     = []"
proof -
  let ?lengths = "CardPinLengths_not_listed pair_ranges PinReferenceScheme_Citizen"
  let ?run = "\<lambda>slot. change_pin pair_ranges (journaled (answers 0x90 0x00)) ?lengths slot example_pin example_puk ([], ())"
  have checks: "check_pin pair_ranges ?lengths slot n = Inr () \<longleftrightarrow>
      (case slot of PinSlot_Pin1 \<Rightarrow> 4 | PinSlot_Pin2 \<Rightarrow> 6) \<le> n \<and> n \<le> 12" for slot n
    by (cases slot) (simp_all add: check_pin_def CardPinLengths_not_listed_def CardPinLengths_from_listed_def
        check_accepted pair_ranges_laws capacity_contains)
  have "cpl_numbering ?lengths = PinReferenceScheme_Citizen"
    by (simp add: CardPinLengths_not_listed_def CardPinLengths_from_listed_def)
  moreover have "?run slot = (fst (?run slot), (fst (snd (?run slot)), snd (snd (?run slot))))" for slot
    by (simp only: prod.collapse)
  ultimately show ?thesis
    using change_presents_once [OF example_wf, of pair_ranges "answers 0x90 0x00" ?lengths PinSlot_Pin1 "()"]
      change_presents_once [OF example_wf, of pair_ranges "answers 0x90 0x00" ?lengths PinSlot_Pin2 "()"]
    by (auto simp: prod_eq_iff checks)
qed


text \<open>
  (C9) Unblocking keeps its order: with lengths the card accepts, a citizen card gets one RESET
  RETRY COUNTER with the PUK and the new PIN; an organization card gets the PUK in a VERIFY, and the
  reset with the new PIN alone only after the card answered that VERIFY with success, a refused
  PUK ending the flow without success. An entry outside the lengths sends nothing.
\<close>

theorem unblock_verifies_puk_first:
  assumes "PinBytes_wf puk" "PinBytes_wf new"
    and "reset_retry_counter ops (journaled tx) lengths target puk new ([], s) = (r, (log, s'))"
    and "verify_cmd = verify_apdu (CredentialReference_Puk (cpl_numbering lengths)) (cpl_numbering lengths) (PinBytes_as_bytes puk)"
    and "reset_cmd = reset_apdu (cpl_numbering lengths) target (PinBytes_as_bytes puk) (PinBytes_as_bytes new)"
  shows "if check_puk ops lengths (length (PinBytes_as_bytes puk)) = Inr () \<and>
        check_pin ops lengths target (length (PinBytes_as_bytes new)) = Inr ()
    then (case cpl_numbering lengths of
        PinReferenceScheme_Citizen \<Rightarrow>
          \<exists>reply. log = [(reset_cmd, reply)] \<and>
            (r = Inr UnblockOutcome_Ok \<longrightarrow> (\<exists>x. reply = Inr (TransportOutcome_Response x) \<and> ResponseApdu_is_ok x))
      | PinReferenceScheme_Organizational \<Rightarrow>
          (\<exists>reply. log = [(verify_cmd, reply)] \<and> r \<noteq> Inr UnblockOutcome_Ok) \<or>
          (\<exists>x reply. log = [(verify_cmd, Inr (TransportOutcome_Response x)), (reset_cmd, reply)] \<and>
            ResponseApdu_is_ok x \<and>
            (r = Inr UnblockOutcome_Ok \<longrightarrow> (\<exists>y. reply = Inr (TransportOutcome_Response y) \<and> ResponseApdu_is_ok y))))
    else (\<exists>reason. r = Inl (AuthError_PinPolicy reason)) \<and> log = []"
proof -
  have ok: "UnblockOutcome_Ok = classify_reset_retry_sw sw \<longleftrightarrow> sw = StatusWord_Success" for sw
    using classify_reset_Ok [of sw] by metis
  show ?thesis
    using emits_from_empty [OF emits_reset [OF assms(1,2)], of ops lengths target tx s] assms(3-5)
    by (auto simp: or_rejected_def unblock_exchanges_def ok status_success_ok
        dest!: presented_onceD split: PinReferenceScheme.splits if_splits)
qed

text \<open>An organization card that accepts both commands.\<close>

theorem unblock_verifies_puk_first_witness:
  "\<exists>x reply. fst (snd (reset_retry_counter pair_ranges (journaled (answers 0x90 0x00))
        (CardPinLengths_not_listed pair_ranges PinReferenceScheme_Organizational) PinSlot_Pin1 example_puk example_pin ([], ()))) =
     [(verify_apdu (CredentialReference_Puk PinReferenceScheme_Organizational) PinReferenceScheme_Organizational
         [0x31, 0x32, 0x33, 0x34, 0x35, 0x36, 0x37, 0x38], Inr (TransportOutcome_Response x)),
      (CommandApdu_new [0x00, 0x2C, 0x02, 0x03, 4, 0x31, 0x32, 0x33, 0x34], reply)]"
proof -
  let ?lengths = "CardPinLengths_not_listed pair_ranges PinReferenceScheme_Organizational"
  let ?run = "reset_retry_counter pair_ranges (journaled (answers 0x90 0x00)) ?lengths PinSlot_Pin1
      example_puk example_pin ([], ())"
  have checks: "check_pin pair_ranges ?lengths PinSlot_Pin1 n = Inr () \<longleftrightarrow> 4 \<le> n \<and> n \<le> 12"
    "check_puk pair_ranges ?lengths n = Inr () \<longleftrightarrow> 8 \<le> n \<and> n \<le> 12" for n
    by (simp_all add: check_pin_def check_puk_def CardPinLengths_not_listed_def CardPinLengths_from_listed_def
        check_accepted pair_ranges_laws capacity_contains)
  have numbering: "cpl_numbering ?lengths = PinReferenceScheme_Organizational"
    by (simp add: CardPinLengths_not_listed_def CardPinLengths_from_listed_def)
  have "fst ?run = Inr UnblockOutcome_Ok"
    by (simp add: reset_retry_counter_def Let_def numbering bindS_def policy_validate_for_card_Inr checks
        policy_validate_for_card_Inr [THEN iffD2] is_ascii_digit_def reset_send_def auth_transmit_def map_errS_def
        transmit_def journaled_def answers_def ResponseApdu_status_word_def)
  then have "?run = (Inr UnblockOutcome_Ok, (fst (snd ?run), snd (snd ?run)))" by (metis prod.collapse)
  from unblock_verifies_puk_first [OF example_wf(2,1) this refl refl] show ?thesis
    by (auto simp: checks numbering reset_apdu_def CredentialBlock_push_def PIN1_REFERENCE_ORGANIZATIONAL_def)
qed

text \<open>
  The retry floor on the wire: PIN 1 and PIN 2 are served exactly when the card answers the
  status probe with \<open>9000\<close> or \<open>63C3\<close> to \<open>63C5\<close>, and the PUK of an organization card exactly at \<open>63C3\<close>
  to \<open>63C5\<close> or when nothing is left to spend, \<open>63C0\<close>, \<open>6983\<close> or \<open>6984\<close>.
\<close>

theorem retry_floor_on_the_wire:
  "(check_retry_floor (FlooredCredential_from_slot slot) (classify_pin_status_sw (StatusWord_from_u16 sw)) = Inr ())
     = (sw \<in> {0x9000, 0x63C3, 0x63C4, 0x63C5}) \<and>
   (check_puk_retry_floor (classify_puk_status_sw (StatusWord_from_u16 sw)) = Inr ())
     = (sw \<in> {0x63C0, 0x63C3, 0x63C4, 0x63C5, 0x6983, 0x6984})"
proof -
  have "FlooredCredential_from_slot slot \<noteq> FlooredCredential_Puk" by (cases slot) simp_all
  then have "(check_retry_floor (FlooredCredential_from_slot slot) (classify_pin_status_sw (StatusWord_from_u16 sw)) = Inr ())
      = (StatusWord_from_u16 sw = StatusWord_Success \<or> (\<exists>n \<in> {3, 4, 5}. StatusWord_from_u16 sw = StatusWord_PinIncorrect (PinRetries n)))"
    by (cases "StatusWord_from_u16 sw") (auto simp: floor_served_iff retries_eq_iff)
  moreover have "(check_puk_retry_floor (classify_puk_status_sw (StatusWord_from_u16 sw)) = Inr ())
      = (StatusWord_from_u16 sw \<in> {StatusWord_AuthenticationBlocked, StatusWord_ReferenceDataInvalidated} \<or>
         (\<exists>n \<in> {0, 3, 4, 5}. StatusWord_from_u16 sw = StatusWord_PinIncorrect (PinRetries n)))"
    by (cases "StatusWord_from_u16 sw") (auto simp: check_puk_retry_floor_def floor_served_iff retries_eq_iff)
  ultimately show ?thesis
    by (auto simp: from_u16_eq_iff StatusWord_canonical_def sw_code_defs pin_counter_wire
        simp del: StatusWord_as_u16.simps(6))
qed


text \<open>
  The credential blocks of a PIN change decode: on a citizen card the field is two blocks of
  twelve bytes whose digits up to the padding are the current and the new PIN; on an organization
  card the field is the digits back to back, so a card that knows the length of the current PIN
  recovers both.
\<close>

theorem credential_blocks_decode:
  assumes "digits_within 4 12 a" "digits_within 4 12 b"
  shows "let block = CredentialBlock_push (CredentialBlock_push [] PinReferenceScheme_Citizen a 12)
           PinReferenceScheme_Citizen b 12
     in length block = 24 \<and> takeWhile is_ascii_digit (take 12 block) = a \<and>
        takeWhile is_ascii_digit (drop 12 block) = b \<and>
    CredentialBlock_push (CredentialBlock_push [] PinReferenceScheme_Organizational a 12)
      PinReferenceScheme_Organizational b 12 = a @ b"
proof -
  have pad: "takeWhile is_ascii_digit (xs @ replicate n PIN_PAD_BYTE) = xs"
    if "\<forall>x \<in> set xs. is_ascii_digit x" for xs n
    using that by (induction xs) (cases n; auto simp: is_ascii_digit_def PIN_PAD_BYTE_def)+
  have "\<forall>x \<in> set a. is_ascii_digit x" "\<forall>x \<in> set b. is_ascii_digit x" "length a \<le> 12" "length b \<le> 12"
    using assms by (auto simp: digits_within_def list_all_iff)
  moreover have "\<not> is_ascii_digit PIN_PAD_BYTE" by (simp add: is_ascii_digit_def PIN_PAD_BYTE_def)
  ultimately show ?thesis by (simp add: CredentialBlock_push_def Let_def pad)
qed

theorem credential_blocks_decode_witness:
  "takeWhile is_ascii_digit (take 12 (CredentialBlock_push (CredentialBlock_push [] PinReferenceScheme_Citizen
     [0x31, 0x32, 0x33, 0x34] 12) PinReferenceScheme_Citizen [0x35, 0x36, 0x37, 0x38, 0x39] 12)) = [0x31, 0x32, 0x33, 0x34]"
  using credential_blocks_decode [of "[0x31, 0x32, 0x33, 0x34]" "[0x35, 0x36, 0x37, 0x38, 0x39]"]
  by (simp add: digits_within_def is_ascii_digit_def Let_def)

end
