(* ===== verification/Token_Info.thy ===== *)
theory Token_Info
  imports Pkcs15
begin

text \<open>
  EF.TokenInfo and the card's serial (\<open>pkcs15.rs\<close>, \<open>hex.rs\<close>, \<open>identity.rs\<close>): the file-size
  object of an FCI, the best-effort TokenInfo parser, the lossy UTF-8 decoding it uses, lower-case
  hex, and the rendering of the serial that a card session is bound to. A Rust string is the list
  of its UTF-8 bytes.
\<close>

section \<open>The code\<close>

subsection \<open>Strings\<close>

type_synonym utf8 = bytes

definition is_continuation :: "u8 \<Rightarrow> bool" where
  "is_continuation b \<longleftrightarrow> 0x80 \<le> b \<and> b \<le> 0xBF"

text \<open>The second byte that may follow a three- or four-byte leader.\<close>

definition second_ok :: "u8 \<Rightarrow> u8 \<Rightarrow> bool" where
  "second_ok lead b \<longleftrightarrow>
     (if lead = 0xE0 then 0xA0 \<le> b \<and> b \<le> 0xBF
      else if lead = 0xED then 0x80 \<le> b \<and> b \<le> 0x9F
      else if lead = 0xF0 then 0x90 \<le> b \<and> b \<le> 0xBF
      else if lead = 0xF4 then 0x80 \<le> b \<and> b \<le> 0x8F
      else is_continuation b)"

definition leader_width :: "u8 \<Rightarrow> nat" where
  "leader_width b =
     (if b < 0x80 then 1
      else if 0xC2 \<le> b \<and> b \<le> 0xDF then 2
      else if 0xE0 \<le> b \<and> b \<le> 0xEF then 3
      else if 0xF0 \<le> b \<and> b \<le> 0xF4 then 4
      else 0)"

text \<open>How many bytes the next character or the next maximal ill-formed part takes, and whether it
  is a character.\<close>

fun utf8_chunk :: "bytes \<Rightarrow> nat \<times> bool" where
  "utf8_chunk [] = (0, True)"
| "utf8_chunk (b # rest) =
     (let w = leader_width b
      in if w = 1 then (1, True)
         else if w = 0 then (1, False)
         else case rest of
                [] \<Rightarrow> (1, False)
              | b2 # rest2 \<Rightarrow>
                  if \<not> second_ok b b2 then (1, False)
                  else if w = 2 then (2, True)
                  else case rest2 of
                         [] \<Rightarrow> (2, False)
                       | b3 # rest3 \<Rightarrow>
                           if \<not> is_continuation b3 then (2, False)
                           else if w = 3 then (3, True)
                           else case rest3 of
                                  [] \<Rightarrow> (3, False)
                                | b4 # _ \<Rightarrow> if is_continuation b4 then (4, True) else (3, False))"

lemma utf8_chunk_pos: "bs \<noteq> [] \<Longrightarrow> 0 < fst (utf8_chunk bs)"
  by (cases bs) (auto simp: Let_def split: list.splits)

function from_utf8_lossy :: "bytes \<Rightarrow> utf8" where
  "from_utf8_lossy bs =
     (if bs = [] then []
      else let n = fst (utf8_chunk bs)
           in (if snd (utf8_chunk bs) then take n bs else [0xEF, 0xBF, 0xBD]) @ from_utf8_lossy (drop n bs))"
  by pat_completeness auto
termination
  by (relation "measure length") (auto simp: utf8_chunk_pos)

declare from_utf8_lossy.simps [simp del]

definition hex_digit :: "u8 \<Rightarrow> u8" where
  "hex_digit n = (if n < 10 then n + 0x30 else n + 0x57)"

definition Hex_encode :: "bytes \<Rightarrow> utf8" where
  "Hex_encode bs = concat (map (\<lambda>b. [hex_digit (drop_bit 4 b), hex_digit (b AND 0x0F)]) bs)"


subsection \<open>The token serial\<close>

datatype TokenSerial = TokenSerial (TokenSerial_as_str: utf8)

definition nybble :: "u8 \<Rightarrow> u8 option" where
  "nybble b =
     (if 0x30 \<le> b \<and> b \<le> 0x39 then Some (b - 0x30)
      else if 0x61 \<le> b \<and> b \<le> 0x66 then Some (b - 0x61 + 10)
      else if 0x41 \<le> b \<and> b \<le> 0x46 then Some (b - 0x41 + 10)
      else None)"

fun decode_hex_pairs :: "bytes \<Rightarrow> bytes option" where
  "decode_hex_pairs (hi_byte # lo_byte # rest) =
     (case nybble hi_byte of
        None \<Rightarrow> None
      | Some h \<Rightarrow>
          (case nybble lo_byte of
             None \<Rightarrow> None
           | Some l \<Rightarrow> map_option ((#) (push_bit 4 h OR l)) (decode_hex_pairs rest)))"
| "decode_hex_pairs _ = Some []"

definition decoded_hex_bytes :: "TokenSerial \<Rightarrow> bytes option" where
  "decoded_hex_bytes serial =
     (let s = TokenSerial_as_str serial
      in if odd (length s) then None else decode_hex_pairs s)"

text \<open>Printable bytes are ASCII, so \<open>from_utf8\<close> accepts them.\<close>

definition render_token_serial :: "TokenSerial \<Rightarrow> TokenSerial" where
  "render_token_serial hex_token =
     (case decoded_hex_bytes hex_token of
        Some bs \<Rightarrow>
          if bs \<noteq> [] \<and> list_all (\<lambda>b. 0x20 \<le> b \<and> b \<le> 0x7E) bs then TokenSerial bs else hex_token
      | None \<Rightarrow> hex_token)"


subsection \<open>FCI and EF.TokenInfo\<close>

datatype Fci = Fci (Fci_as_bytes: bytes)

fun fci_size_in :: "(BerError + BerTlvAny) list \<Rightarrow> u64 option" where
  "fci_size_in [] = None"
| "fci_size_in (Inl _ # _) = None"
| "fci_size_in (Inr c # rest) =
     (if tlv_tag c = 0x80 \<or> tlv_tag c = 0x81
      then Some (foldl (\<lambda>v b. push_bit 8 v OR ucast b) 0 (tlv_value c))
      else fci_size_in rest)"

definition Fci_parse_file_size :: "Fci \<Rightarrow> u64 option" where
  "Fci_parse_file_size fci =
     (case BerTlvAny_parse (Fci_as_bytes fci) of
        Inl _ \<Rightarrow> None
      | Inr outer \<Rightarrow>
          if tlv_tag outer \<noteq> 0x62 \<and> tlv_tag outer \<noteq> 0x6F then None
          else fci_size_in (ber_items (tlv_value outer)))"

record TokenInfo =
  ti_version :: "u32 option"
  ti_serial_number_hex :: "TokenSerial option"
  ti_manufacturer_id :: "utf8 option"
  ti_label :: "utf8 option"

definition TokenInfo_default :: TokenInfo where
  "TokenInfo_default = \<lparr>ti_version = None, ti_serial_number_hex = None, ti_manufacturer_id = None, ti_label = None\<rparr>"

definition TAG_TOKEN_INFO_LABEL_IMPLICIT :: u16 where "TAG_TOKEN_INFO_LABEL_IMPLICIT = 0x80"

definition token_info_version :: "(BerError + BerTlvAny) option \<Rightarrow> TokenInfo \<Rightarrow> TokenInfo" where
  "token_info_version item info =
     (case item of
        Some (Inr version_any) \<Rightarrow>
          (case BerTlvAny_expect 0x02 version_any of
             Inr version_tlv \<Rightarrow>
               info\<lparr>ti_version := Some (foldl (\<lambda>v b. push_bit 8 v OR ucast b) 0 (typed_value version_tlv))\<rparr>
           | Inl _ \<Rightarrow> info)
      | _ \<Rightarrow> info)"

definition token_info_serial :: "(BerError + BerTlvAny) option \<Rightarrow> TokenInfo \<Rightarrow> TokenInfo" where
  "token_info_serial item info =
     (case item of
        Some (Inr serial_any) \<Rightarrow>
          (case BerTlvAny_expect 0x04 serial_any of
             Inr serial_tlv \<Rightarrow>
               info\<lparr>ti_serial_number_hex := Some (TokenSerial (Hex_encode (typed_value serial_tlv)))\<rparr>
           | Inl _ \<Rightarrow> info)
      | _ \<Rightarrow> info)"

definition token_info_entry :: "TokenInfo \<Rightarrow> BerError + BerTlvAny \<Rightarrow> TokenInfo" where
  "token_info_entry info entry =
     (case entry of
        Inl _ \<Rightarrow> info
      | Inr entry \<Rightarrow>
          if tlv_tag entry = 0x0C \<or> tlv_tag entry = 0x13 then
            let s = from_utf8_lossy (tlv_value entry)
            in if ti_manufacturer_id info = None then info\<lparr>ti_manufacturer_id := Some s\<rparr>
               else if ti_label info = None then info\<lparr>ti_label := Some s\<rparr>
               else info
          else if tlv_tag entry = TAG_TOKEN_INFO_LABEL_IMPLICIT then
            info\<lparr>ti_label := Some (from_utf8_lossy (tlv_value entry))\<rparr>
          else info)"

definition TokenInfo_parse :: "bytes \<Rightarrow> BerError + TokenInfo" where
  "TokenInfo_parse der =
     bindR (BerTlv_parse 0x30 der) (\<lambda>outer.
       let it = BerTlvIter_new (typed_value outer);
           (version_any, it) = BerTlvIter_next it;
           info = token_info_version version_any TokenInfo_default;
           (serial_any, it) = BerTlvIter_next it;
           info = token_info_serial serial_any info
       in Inr (foldl token_info_entry info (BerTlvIter_collect it)))"

definition read_token_info :: "('t, 'e) transport \<Rightarrow> ('t, 'e, TokenInfo) pkcs15_io" where
  "read_token_info tx =
     bindS (select_pkcs15_application tx) (\<lambda>_.
     bindS (select_ef tx EF_TOKEN_INFO_FID) (\<lambda>_.
     bindS (read_binary_der_object tx ''EF.TokenInfo'') (\<lambda>bs.
     liftR (map_err (\<lambda>_. Pkcs15Error_InvalidData ''EF.TokenInfo'') (TokenInfo_parse bs)))))"



section \<open>Hex and rendering\<close>

lemma small_nibble_cases:
  assumes "(n::u8) < 16"
  obtains "n = 0" | "n = 1" | "n = 2" | "n = 3" | "n = 4" | "n = 5" | "n = 6" | "n = 7" | "n = 8" | "n = 9"
    | "n = 10" | "n = 11" | "n = 12" | "n = 13" | "n = 14" | "n = 15"
proof -
  have "unat n < 16" using assms by (simp add: word_less_nat_alt)
  then have "unat n = 0 \<or> unat n = 1 \<or> unat n = 2 \<or> unat n = 3 \<or> unat n = 4 \<or> unat n = 5 \<or> unat n = 6 \<or> unat n = 7 \<or>
      unat n = 8 \<or> unat n = 9 \<or> unat n = 10 \<or> unat n = 11 \<or> unat n = 12 \<or> unat n = 13 \<or> unat n = 14 \<or> unat n = 15"
    by presburger
  then show thesis using that by (elim disjE) (simp_all add: word_unat_eq_iff)
qed

lemma nybble_hex_digit: "n < 16 \<Longrightarrow> nybble (hex_digit n) = Some n"
  by (erule small_nibble_cases) (simp_all add: hex_digit_def nybble_def)

lemma hex_digit_printable: "n < 16 \<Longrightarrow> 0x20 \<le> hex_digit n \<and> hex_digit n \<le> 0x7E"
  by (erule small_nibble_cases) (simp_all add: hex_digit_def)

lemma byte_nibbles:
  "drop_bit 4 (b::u8) < 16" "b AND 0x0F < 16" "push_bit 4 (drop_bit 4 b) OR (b AND 0x0F) = b"
proof -
  have "unat b < 256" by simp
  then show "drop_bit 4 b < 16"
    by (simp add: word_less_nat_alt unat_drop_bit_div less_mult_imp_div_less del: unat_u8_less)
  have "b AND 0x0F \<le> 0x0F" by (rule word_and_le1)
  then show "b AND 0x0F < 16" by (simp add: word_le_nat_alt word_less_nat_alt)
  have "b AND 0x0F = take_bit 4 b" by (simp add: take_bit_eq_mask mask_eq_exp_minus_1)
  then show "push_bit 4 (drop_bit 4 b) OR (b AND 0x0F) = b"
    by (simp only:) (rule bit_word_eqI, auto simp: bit_simps not_le)
qed

lemma decode_hex_encode: "decode_hex_pairs (Hex_encode bs) = Some bs"
  by (induction bs) (simp_all add: Hex_encode_def nybble_hex_digit byte_nibbles)

lemma length_Hex_encode [simp]: "length (Hex_encode bs) = 2 * length bs"
  by (induction bs) (simp_all add: Hex_encode_def)

lemma Hex_encode_printable: "list_all (\<lambda>b. 0x20 \<le> b \<and> b \<le> 0x7E) (Hex_encode bs)"
  by (induction bs) (simp_all add: Hex_encode_def hex_digit_printable byte_nibbles)

lemma Hex_encode_Nil [simp]: "Hex_encode bs = [] \<longleftrightarrow> bs = []"
  by (metis length_0_conv length_Hex_encode mult_eq_0_iff zero_neq_numeral)

lemma decoded_hex_encode: "decoded_hex_bytes (TokenSerial (Hex_encode bs)) = Some bs"
  by (simp add: decoded_hex_bytes_def decode_hex_encode)

lemma render_hex:
  "render_token_serial (TokenSerial (Hex_encode bs)) =
     TokenSerial (if bs \<noteq> [] \<and> list_all (\<lambda>b. 0x20 \<le> b \<and> b \<le> 0x7E) bs then bs else Hex_encode bs)"
  by (simp add: render_token_serial_def decoded_hex_encode)


section \<open>Properties\<close>

text \<open>
  Two cards can share a rendered serial: a chip whose serial has a byte outside printable
  ASCII is rendered in hex, and a chip that publishes those very hex digits as its printable serial
  is rendered the same, although the two published serials differ.
\<close>

theorem rendered_serials_collide:
  assumes "\<not> list_all (\<lambda>b. 0x20 \<le> b \<and> b \<le> 0x7E) bs"
  shows "render_token_serial (TokenSerial (Hex_encode bs)) =
      render_token_serial (TokenSerial (Hex_encode (Hex_encode bs))) \<and>
    bs \<noteq> Hex_encode bs"
proof -
  have "bs \<noteq> []" using assms by auto
  then show ?thesis using assms Hex_encode_printable [of bs] by (auto simp: render_hex)
qed

text \<open>The serial \<open>01 23\<close> in BCD and the printable serial \<open>0123\<close>.\<close>

theorem rendered_serials_collide_witness:
  "render_token_serial (TokenSerial (Hex_encode [0x01, 0x23])) =
     render_token_serial (TokenSerial (Hex_encode [0x30, 0x31, 0x32, 0x33]))"
proof -
  have "Hex_encode [0x01, 0x23] = [0x30, 0x31, 0x32, 0x33]"
    by (simp add: Hex_encode_def hex_digit_def)
  moreover have "\<not> (0x20 :: u8) \<le> 1" by (simp add: word_le_nat_alt)
  ultimately show ?thesis using rendered_serials_collide [of "[0x01, 0x23]"] by simp
qed

end
