(* ===== verification/Activation.thy ===== *)
theory Activation
  imports Retry_Floor Pin "HOL-Library.Product_Lexorder"
begin

text \<open>
  Card activation (\<open>activation.rs\<close>): which procedure a card takes and whether a PIN still awaits
  it. Of a certificate's validity start, a \<open>DateTime\<close> of the \<open>der\<close> crate, the code reads the year,
  the month and the day.
\<close>

section \<open>The code\<close>

record DateTime =
  dt_year :: u16
  dt_month :: u8
  dt_day :: u8

definition PRESET_PIN_CUTOVER_YEAR :: u16 where "PRESET_PIN_CUTOVER_YEAR = 2026"
definition PRESET_PIN_CUTOVER_MONTH :: u8 where "PRESET_PIN_CUTOVER_MONTH = 1"
definition PRESET_PIN_CUTOVER_DAY :: u8 where "PRESET_PIN_CUTOVER_DAY = 13"

definition ActivationScheme_from_validity_start :: "DateTime \<Rightarrow> ActivationScheme" where
  "ActivationScheme_from_validity_start not_before =
     (let issued = (dt_year not_before, dt_month not_before, dt_day not_before);
          cutover = (PRESET_PIN_CUTOVER_YEAR, PRESET_PIN_CUTOVER_MONTH, PRESET_PIN_CUTOVER_DAY)
      in if cutover \<le> issued then ActivationScheme_PresetActivationPin
         else ActivationScheme_ActivationCodeIsPuk)"

fun ActivationScheme_for_card :: "PinReferenceScheme \<Rightarrow> DateTime option \<Rightarrow> ActivationScheme option" where
  "ActivationScheme_for_card PinReferenceScheme_Organizational _ = Some ActivationScheme_ActivationCodeIsPuk"
| "ActivationScheme_for_card PinReferenceScheme_Citizen validity_start =
     map_option ActivationScheme_from_validity_start validity_start"

datatype PinActivation = PinActivation_AwaitsActivation | PinActivation_Activated

definition PinActivation_judge :: "ActivationScheme \<Rightarrow> bool option \<Rightarrow> PinStatus option \<Rightarrow> PinActivation" where
  "PinActivation_judge scheme changed status =
     (case changed of
        Some False \<Rightarrow> PinActivation_AwaitsActivation
      | Some True \<Rightarrow> PinActivation_Activated
      | None \<Rightarrow>
          (case scheme of
             ActivationScheme_ActivationCodeIsPuk \<Rightarrow>
               (case status of
                  Some PinStatus_Locked \<Rightarrow> PinActivation_AwaitsActivation
                | Some (PinStatus_Remaining retries) \<Rightarrow>
                    if PinRetries_is_exhausted retries then PinActivation_AwaitsActivation
                    else PinActivation_Activated
                | _ \<Rightarrow> PinActivation_Activated)
           | ActivationScheme_PresetActivationPin \<Rightarrow> PinActivation_Activated))"


section \<open>Properties\<close>

text \<open>The calendar date as one number.\<close>

definition date_number :: "DateTime \<Rightarrow> nat" where
  "date_number d = 10000 * unat (dt_year d) + 100 * unat (dt_month d) + unat (dt_day d)"

text \<open>
  The activation procedure follows the card: an organization card takes its activation code
  as the PUK whatever its date; a citizen card takes the preset activation PIN exactly when its
  certificate starts on or after 13 January 2026, and with no certificate date there is no decision.
\<close>

theorem activation_scheme_by_date:
  assumes "dt_month d < 100" "dt_day d < 100"
  shows "ActivationScheme_for_card PinReferenceScheme_Organizational start = Some ActivationScheme_ActivationCodeIsPuk \<and>
    ActivationScheme_for_card PinReferenceScheme_Citizen None = None \<and>
    ActivationScheme_for_card PinReferenceScheme_Citizen (Some d) =
      Some (if 20260113 \<le> date_number d then ActivationScheme_PresetActivationPin
            else ActivationScheme_ActivationCodeIsPuk)"
proof -
  have "unat (dt_month d) < 100" "unat (dt_day d) < 100"
    using assms by (simp_all add: word_less_nat_alt)
  then have "(2026, 1, 13) \<le> (dt_year d, dt_month d, dt_day d) \<longleftrightarrow> 20260113 \<le> date_number d"
    by (auto simp: less_eq_prod_def date_number_def word_less_nat_alt word_le_nat_alt)
  then show ?thesis
    by (simp add: ActivationScheme_from_validity_start_def PRESET_PIN_CUTOVER_YEAR_def
        PRESET_PIN_CUTOVER_MONTH_def PRESET_PIN_CUTOVER_DAY_def Let_def)
qed

theorem activation_scheme_by_date_witness:
  "ActivationScheme_for_card PinReferenceScheme_Citizen (Some \<lparr>dt_year = 2026, dt_month = 1, dt_day = 12\<rparr>) =
     Some ActivationScheme_ActivationCodeIsPuk"
  using activation_scheme_by_date [of "\<lparr>dt_year = 2026, dt_month = 1, dt_day = 12\<rparr>" None]
  by (simp add: date_number_def)

text \<open>
  When a PIN awaits activation: its changed flag decides where the card gives one; without
  it, only a PIN of the code-is-PUK procedure that reports itself blocked or out of tries awaits
  activation.
\<close>

theorem pin_awaits_activation:
  "PinActivation_judge scheme changed status = PinActivation_AwaitsActivation \<longleftrightarrow>
     (case changed of
        Some c \<Rightarrow> \<not> c
      | None \<Rightarrow> scheme = ActivationScheme_ActivationCodeIsPuk \<and>
          status \<in> {Some PinStatus_Locked, Some (PinStatus_Remaining (PinRetries 0))})"
  by (auto simp: PinActivation_judge_def PinRetries_is_exhausted_def PinRetries.expand
      split: option.splits bool.splits PinStatus.splits ActivationScheme.splits)

end
