(* ===== verification/Card_Pin.thy ===== *)
theory Card_Pin
  imports Pin_Ops Token_Info Activation
begin

text \<open>
  The PIN management flows of the card manager (\<open>refineid-card-manager-core\<close>, \<open>card_pin.rs\<close>):
  changing a PIN, unblocking it and activating a card, each on a card session bound to a serial that
  is read again before a command that modifies the card. Texts of errors are kept as the error
  they render. \<open>open_exclusive\<close> is the PC/SC backend, \<open>'o\<close> the errors of components outside this
  theory, \<open>'i\<close> the identifier of a reader and \<open>'m\<close> the card model; \<open>ef_aod\<close>, \<open>parse_aod\<close> and \<open>ops\<close>
  are of the \<open>refineid_pkcs15\<close> crate.
\<close>

section \<open>The code\<close>

subsection \<open>Slots, errors, contexts\<close>

datatype PinManageSlot = PinManageSlot_Pin1 | PinManageSlot_Pin2

fun as_pin_slot :: "PinManageSlot \<Rightarrow> PinSlot" where
  "as_pin_slot PinManageSlot_Pin1 = PinSlot_Pin1"
| "as_pin_slot PinManageSlot_Pin2 = PinSlot_Pin2"

fun PinManageSlot_label :: "PinManageSlot \<Rightarrow> string" where
  "PinManageSlot_label PinManageSlot_Pin1 = ''PIN1''"
| "PinManageSlot_label PinManageSlot_Pin2 = ''PIN2''"

datatype 'e CardPinText =
    Text_Plain string
  | Text_Dispatch "'e TransportDispatchError"
  | Text_Pkcs15 string "'e TransportDispatchError Pkcs15Error"
  | Text_SerialChanged TokenSerial TokenSerial

datatype ('o, 'e) CardPinError =
    CardPinError_ReaderPick 'o
  | CardPinError_Pcsc 'o
  | CardPinError_PinPolicy PinPolicyReason
  | CardPinError_Pkcs15Select "'e CardPinText"
  | CardPinError_Transport "'e CardPinText"
  | CardPinError_AccessNumberRejected "'e CardPinText"
  | CardPinError_ActivationLengthMismatch ActivationScheme nat
  | CardPinError_CardSerialUnavailable "'e CardPinText"
  | CardPinError_CardSessionRevoked "'e CardPinText"
  | CardPinError_CardModelNotSupported 'o
  | CardPinError_CardLooksUnactivated PinManageSlot "PinStatus option"
  | CardPinError_RetryFloor RetryFloorRefusal
  | CardPinError_ActivationEntriesMismatch bool bool

type_synonym ('t, 'o, 'e, 'a) card_pin_io = "('t, ('o, 'e) CardPinError, 'a) io"

fun auth_to_card_pin :: "'e TransportDispatchError AuthError \<Rightarrow> ('o, 'e) CardPinError" where
  "auth_to_card_pin (AuthError_Transport t) = CardPinError_Transport (Text_Dispatch t)"
| "auth_to_card_pin (AuthError_PinPolicy r) = CardPinError_PinPolicy r"

text \<open>Of the identity the flows print its person string and its best serial.\<close>

record CredentialIdentity =
  person_string :: utf8
  best_serial :: "utf8 option"

record ('i, 'm) BoundCardSession =
  session_reader_id :: 'i
  session_identity :: CredentialIdentity
  session_bound_serial :: TokenSerial
  session_model :: 'm
  session_numbering :: PinReferenceScheme
  session_scheme :: ActivationScheme

datatype ('i, 'm) PinManagementCardContext =
  PinManagementCardContext (pm_session: "('i, 'm) BoundCardSession")

definition into_pin_management_context :: "('i, 'm) BoundCardSession \<Rightarrow> ('i, 'm) PinManagementCardContext" where
  "into_pin_management_context session = PinManagementCardContext session"

record ChangePinOptions =
  chg_slot :: PinManageSlot
  chg_current :: PinBytes
  chg_new :: PinBytes
  chg_reader_filter :: "string option"

record 'i ChangePinReport =
  chr_reader :: 'i
  chr_card_serial :: utf8
  chr_person :: utf8
  chr_slot :: PinManageSlot
  chr_outcome :: ChangePinOutcome

record UnblockPinOptions =
  unb_slot :: PinManageSlot
  unb_puk :: Puk
  unb_new_pin :: PinBytes
  unb_reader_filter :: "string option"

record 'i UnblockPinReport =
  unr_reader :: 'i
  unr_card_serial :: utf8
  unr_person :: utf8
  unr_slot :: PinManageSlot
  unr_outcome :: UnblockOutcome


subsection \<open>Session binding and probes\<close>

definition re_verify_session :: "('t, 'e) transport \<Rightarrow> TokenSerial \<Rightarrow> ('t, 'o, 'e, unit) card_pin_io" where
  "re_verify_session tx bound_serial =
     bindS (map_errS (\<lambda>e. CardPinError_CardSessionRevoked (Text_Pkcs15 ''re-read EF.TokenInfo failed: '' e))
        (read_token_info tx)) (\<lambda>token.
       case ti_serial_number_hex token of
         None \<Rightarrow> fail (CardPinError_CardSessionRevoked (Text_Plain ''card no longer publishes EF.TokenInfo serial''))
       | Some now_serial \<Rightarrow>
           let current_full = render_token_serial now_serial
           in if current_full \<noteq> bound_serial
              then fail (CardPinError_CardSessionRevoked (Text_SerialChanged bound_serial current_full))
              else ret ())"

definition probe_pin_activation ::
  "('t, 'e) transport \<Rightarrow> PinReferenceScheme \<Rightarrow> ActivationScheme \<Rightarrow> PinSlot \<Rightarrow>
     ('t, 'o, 'e, PinStatus option \<times> PinActivation) card_pin_io" where
  "probe_pin_activation tx numbering scheme slot =
     bindS (okS (pin_status_with_scheme tx numbering slot)) (\<lambda>status.
     bindS (okS (pin_changed_flag_with_scheme tx numbering slot)) (\<lambda>changed.
     ret (status, PinActivation_judge scheme (Option.bind changed id) status)))"

definition require_activated ::
  "('t, 'e) transport \<Rightarrow> ('i, 'm) PinManagementCardContext \<Rightarrow> PinManageSlot \<Rightarrow> ('t, 'o, 'e, PinStatus) card_pin_io" where
  "require_activated tx ctx slot =
     bindS (probe_pin_activation tx (session_numbering (pm_session ctx)) (session_scheme (pm_session ctx)) (as_pin_slot slot))
       (\<lambda>(probe, verdict).
          case (verdict, probe) of
            (PinActivation_Activated, Some status) \<Rightarrow> ret status
          | _ \<Rightarrow> fail (CardPinError_CardLooksUnactivated slot probe))"

definition puk_retry_floor :: "('t, 'e) transport \<Rightarrow> PinReferenceScheme \<Rightarrow> ('t, 'o, 'e, unit) card_pin_io" where
  "puk_retry_floor tx numbering =
     bindS (map_errS auth_to_card_pin (puk_status_with_scheme tx numbering)) (\<lambda>status.
       liftR (map_err CardPinError_RetryFloor (check_puk_retry_floor status)))"

text \<open>The common opening of the three flows.\<close>

definition open_bound_card ::
  "fid \<Rightarrow> (bytes \<Rightarrow> 'p + 'aod) \<Rightarrow> ('aod, 'r) range_ops \<Rightarrow> ('i \<Rightarrow> ('t, 'o, unit) io) \<Rightarrow> ('t, 'e) transport \<Rightarrow>
     'i \<Rightarrow> TokenSerial \<Rightarrow> ('t, 'o, 'e, 'r CardPinLengths) card_pin_io" where
  "open_bound_card ef_aod parse_aod ops open_exclusive tx reader_id bound_serial =
     bindS (map_errS CardPinError_Pcsc (open_exclusive reader_id)) (\<lambda>_.
     bindS (map_errS (\<lambda>e. CardPinError_Pkcs15Select (Text_Pkcs15 [] e)) (select_pkcs15_application tx)) (\<lambda>_.
     bindS (re_verify_session tx bound_serial) (\<lambda>_.
     map_errS auth_to_card_pin (read_card_pin_lengths ef_aod parse_aod ops tx))))"


subsection \<open>Changing and unblocking\<close>

definition change_pin_first ::
  "fid \<Rightarrow> (bytes \<Rightarrow> 'p + 'aod) \<Rightarrow> ('aod, 'r) range_ops \<Rightarrow> ('i \<Rightarrow> ('t, 'o, unit) io) \<Rightarrow> ('t, 'e) transport \<Rightarrow>
     ('i, 'm) PinManagementCardContext \<Rightarrow> ChangePinOptions \<Rightarrow> ('t, 'o, 'e, 'i ChangePinReport) card_pin_io" where
  "change_pin_first ef_aod parse_aod ops open_exclusive tx ctx options =
     (let session = pm_session ctx;
          person = person_string (session_identity session);
          card_serial = (case best_serial (session_identity session) of Some s \<Rightarrow> s | None \<Rightarrow> []);
          slot = as_pin_slot (chg_slot options)
      in bindS (open_bound_card ef_aod parse_aod ops open_exclusive tx (session_reader_id session)
                  (session_bound_serial session)) (\<lambda>lengths.
         bindS (require_activated tx ctx (chg_slot options)) (\<lambda>status.
         bindS (liftR (map_err CardPinError_RetryFloor (check_retry_floor (FlooredCredential_from_slot slot) status))) (\<lambda>_.
         bindS (re_verify_session tx (session_bound_serial session)) (\<lambda>_.
         bindS (map_errS auth_to_card_pin (change_pin ops tx lengths slot (chg_current options) (chg_new options))) (\<lambda>outcome.
         ret \<lparr>chr_reader = session_reader_id session, chr_card_serial = card_serial, chr_person = person,
              chr_slot = chg_slot options, chr_outcome = outcome\<rparr>))))))"

definition unblock_pin_first ::
  "fid \<Rightarrow> (bytes \<Rightarrow> 'p + 'aod) \<Rightarrow> ('aod, 'r) range_ops \<Rightarrow> ('i \<Rightarrow> ('t, 'o, unit) io) \<Rightarrow> ('t, 'e) transport \<Rightarrow>
     ('i, 'm) PinManagementCardContext \<Rightarrow> UnblockPinOptions \<Rightarrow> ('t, 'o, 'e, 'i UnblockPinReport) card_pin_io" where
  "unblock_pin_first ef_aod parse_aod ops open_exclusive tx ctx options =
     (let session = pm_session ctx;
          person = person_string (session_identity session);
          card_serial = (case best_serial (session_identity session) of Some s \<Rightarrow> s | None \<Rightarrow> []);
          slot = as_pin_slot (unb_slot options)
      in bindS (open_bound_card ef_aod parse_aod ops open_exclusive tx (session_reader_id session)
                  (session_bound_serial session)) (\<lambda>lengths.
         bindS (require_activated tx ctx (unb_slot options)) (\<lambda>_.
         bindS (re_verify_session tx (session_bound_serial session)) (\<lambda>_.
         bindS (puk_retry_floor tx (session_numbering session)) (\<lambda>_.
         bindS (map_errS auth_to_card_pin (reset_retry_counter ops tx lengths slot
                  (Puk_to_pin_bytes (unb_puk options)) (unb_new_pin options))) (\<lambda>outcome.
         ret \<lparr>unr_reader = session_reader_id session, unr_card_serial = card_serial, unr_person = person,
              unr_slot = unb_slot options, unr_outcome = outcome\<rparr>))))))"


subsection \<open>Activation\<close>

record ('i, 'm) ActivationCardContext =
  act_reader_id :: 'i
  act_identity :: CredentialIdentity
  act_numbering :: PinReferenceScheme
  act_scheme :: ActivationScheme
  act_bound_serial :: TokenSerial
  act_model :: 'm

definition expected_activation_pin_length :: "('i, 'm) ActivationCardContext \<Rightarrow> nat" where
  "expected_activation_pin_length ctx = ActivationScheme_activation_entry_digit_count (act_scheme ctx)"

record ActivateOptions =
  opt_activation_code :: PinBytes
  opt_new_pin1 :: "PinBytes option"
  opt_new_pin2 :: "PinBytes option"
  opt_allow_reactivate :: bool

datatype ActivatePreflightOutcome =
    Preflight_AwaitsActivation PinActivation PinActivation
  | Preflight_NothingAwaits PinActivation PinActivation

record 'i ActivateReport =
  rep_reader :: 'i
  rep_preflight :: ActivatePreflightOutcome
  rep_pin1_outcome :: "UnblockOutcome option"
  rep_pin2_outcome :: "UnblockOutcome option"

definition looks_activated :: "ActivatePreflightOutcome \<Rightarrow> bool" where
  "looks_activated p \<longleftrightarrow> (case p of Preflight_NothingAwaits _ _ \<Rightarrow> True | _ \<Rightarrow> False)"

definition classify_preflight :: "PinActivation \<Rightarrow> PinActivation \<Rightarrow> ActivatePreflightOutcome" where
  "classify_preflight pin1 pin2 =
     (if pin1 = PinActivation_AwaitsActivation \<or> pin2 = PinActivation_AwaitsActivation
      then Preflight_AwaitsActivation pin1 pin2 else Preflight_NothingAwaits pin1 pin2)"

datatype ActivationEvidence = ActivationEvidence_Unactivated | ActivationEvidence_Activated

fun judge_activation :: "PinActivation \<Rightarrow> PinActivation \<Rightarrow> ActivationEvidence" where
  "judge_activation PinActivation_AwaitsActivation _ = ActivationEvidence_Unactivated"
| "judge_activation _ PinActivation_AwaitsActivation = ActivationEvidence_Unactivated"
| "judge_activation PinActivation_Activated PinActivation_Activated = ActivationEvidence_Activated"

definition activation_targets ::
  "PinActivation \<Rightarrow> PinActivation \<Rightarrow> bool \<Rightarrow> bool \<Rightarrow> bool \<Rightarrow> ('o, 'e) CardPinError + bool \<times> bool" where
  "activation_targets pin1 pin2 pin1_entered pin2_entered allow_reactivate =
     (let pin1_awaits = (pin1 = PinActivation_AwaitsActivation);
          pin2_awaits = (pin2 = PinActivation_AwaitsActivation);
          matches_card = (pin1_entered = pin1_awaits \<and> pin2_entered = pin2_awaits)
      in if (pin1_entered \<or> pin2_entered) \<and> (allow_reactivate \<or> matches_card)
         then Inr (pin1_entered, pin2_entered)
         else Inl (CardPinError_ActivationEntriesMismatch pin1_awaits pin2_awaits))"

fun change_to_unblock :: "ChangePinOutcome \<Rightarrow> UnblockOutcome" where
  "change_to_unblock ChangePinOutcome_Ok = UnblockOutcome_Ok"
| "change_to_unblock (ChangePinOutcome_WrongCurrentPin retries_left) = UnblockOutcome_WrongPuk retries_left"
| "change_to_unblock ChangePinOutcome_Locked = UnblockOutcome_PukLocked"
| "change_to_unblock ChangePinOutcome_LengthError = UnblockOutcome_LengthError"
| "change_to_unblock (ChangePinOutcome_Other sw) = UnblockOutcome_Other sw"

definition activate_slot_setup ::
  "('aod, 'r) range_ops \<Rightarrow> ('t, 'e) transport \<Rightarrow> 'r CardPinLengths \<Rightarrow> PinSlot \<Rightarrow> ActivationCode \<Rightarrow> PinBytes \<Rightarrow>
     ('t, 'o, 'e, UnblockOutcome) card_pin_io" where
  "activate_slot_setup ops tx lengths slot activation_code new_pin =
     (case activation_code of
        ActivationCode_Seven _ \<Rightarrow>
          bindS (map_errS auth_to_card_pin (pin_status_with_scheme tx (cpl_numbering lengths) slot)) (\<lambda>status.
          bindS (liftR (map_err CardPinError_RetryFloor (check_activation_last_tries (FlooredCredential_from_slot slot) status))) (\<lambda>_.
          bindS (map_errS auth_to_card_pin (change_pin ops tx lengths slot (ActivationCode_to_pin_bytes activation_code) new_pin))
            (\<lambda>outcome. ret (change_to_unblock outcome))))
      | ActivationCode_Eight _ \<Rightarrow>
          bindS (puk_retry_floor tx (cpl_numbering lengths)) (\<lambda>_.
          map_errS auth_to_card_pin
            (reset_retry_counter ops tx lengths slot (ActivationCode_to_pin_bytes activation_code) new_pin)))"

fun check_entries ::
  "('aod, 'r) range_ops \<Rightarrow> 'r CardPinLengths \<Rightarrow> ActivationCode \<Rightarrow> (PinSlot \<times> PinBytes option) list \<Rightarrow>
     ('o, 'e) CardPinError + unit" where
  "check_entries ops lengths code [] = Inr ()"
| "check_entries ops lengths code ((slot, None) # rest) = check_entries ops lengths code rest"
| "check_entries ops lengths code ((slot, Some pin) # rest) =
     (let code_length = PinBytes_digit_count (ActivationCode_to_pin_bytes code)
      in bindR (map_err CardPinError_PinPolicy
                 (case code of
                    ActivationCode_Seven _ \<Rightarrow> check_pin ops lengths slot code_length
                  | ActivationCode_Eight _ \<Rightarrow> check_puk ops lengths code_length)) (\<lambda>_.
         bindR (map_err CardPinError_PinPolicy (check_pin ops lengths slot (PinBytes_digit_count pin))) (\<lambda>_.
         check_entries ops lengths code rest)))"

definition check_activation_entries ::
  "('aod, 'r) range_ops \<Rightarrow> 'r CardPinLengths \<Rightarrow> ActivationCode \<Rightarrow> PinBytes option \<Rightarrow> PinBytes option \<Rightarrow>
     ('o, 'e) CardPinError + unit" where
  "check_activation_entries ops lengths activation_code new_pin1 new_pin2 =
     check_entries ops lengths activation_code [(PinSlot_Pin1, new_pin1), (PinSlot_Pin2, new_pin2)]"

definition activation_continues_after_pin1 :: "UnblockOutcome \<Rightarrow> bool" where
  "activation_continues_after_pin1 outcome \<longleftrightarrow> (case outcome of UnblockOutcome_Ok \<Rightarrow> True | _ \<Rightarrow> False)"

definition activation_code_for :: "ActivationScheme \<Rightarrow> PinBytes \<Rightarrow> ('o, 'e) CardPinError + ActivationCode" where
  "activation_code_for scheme code =
     map_err (\<lambda>error. case error of
         PinRoleError_NonDigit at \<Rightarrow> CardPinError_PinPolicy (PinPolicyReason_NonDigit at)
       | _ \<Rightarrow> CardPinError_ActivationLengthMismatch scheme (ActivationScheme_activation_entry_digit_count scheme))
       (ActivationCode_for_scheme scheme code)"

definition activate_pin2 ::
  "('aod, 'r) range_ops \<Rightarrow> ('t, 'e) transport \<Rightarrow> TokenSerial \<Rightarrow> 'r CardPinLengths \<Rightarrow> ActivationCode \<Rightarrow>
     PinBytes option \<Rightarrow> ('t, 'o, 'e, UnblockOutcome option) card_pin_io" where
  "activate_pin2 ops tx bound_serial lengths code new_pin2 =
     (case new_pin2 of
        Some new_pin2 \<Rightarrow>
          bindS (re_verify_session tx bound_serial) (\<lambda>_.
          bindS (activate_slot_setup ops tx lengths PinSlot_Pin2 code new_pin2) (\<lambda>outcome. ret (Some outcome)))
      | None \<Rightarrow> ret None)"

definition activate_pins ::
  "('aod, 'r) range_ops \<Rightarrow> ('t, 'e) transport \<Rightarrow> TokenSerial \<Rightarrow> 'r CardPinLengths \<Rightarrow> ActivationCode \<Rightarrow>
     PinBytes option \<Rightarrow> PinBytes option \<Rightarrow> ('t, 'o, 'e, UnblockOutcome option \<times> UnblockOutcome option) card_pin_io" where
  "activate_pins ops tx bound_serial lengths code new_pin1 new_pin2 =
     (case new_pin1 of
        Some new_pin1 \<Rightarrow>
          bindS (re_verify_session tx bound_serial) (\<lambda>_.
          bindS (activate_slot_setup ops tx lengths PinSlot_Pin1 code new_pin1) (\<lambda>outcome.
          if \<not> activation_continues_after_pin1 outcome then ret (Some outcome, None)
          else bindS (activate_pin2 ops tx bound_serial lengths code new_pin2) (\<lambda>pin2_outcome.
               ret (Some outcome, pin2_outcome))))
      | None \<Rightarrow> bindS (activate_pin2 ops tx bound_serial lengths code new_pin2) (\<lambda>pin2_outcome. ret (None, pin2_outcome)))"

definition activate_first ::
  "fid \<Rightarrow> (bytes \<Rightarrow> 'p + 'aod) \<Rightarrow> ('aod, 'r) range_ops \<Rightarrow> ('i \<Rightarrow> ('t, 'o, unit) io) \<Rightarrow> ('t, 'e) transport \<Rightarrow>
     ('i, 'm) ActivationCardContext \<Rightarrow> ActivateOptions \<Rightarrow> ('t, 'o, 'e, 'i ActivateReport) card_pin_io" where
  "activate_first ef_aod parse_aod ops open_exclusive tx ctx options =
     bindS (liftR (activation_code_for (act_scheme ctx) (opt_activation_code options))) (\<lambda>activation_code.
     bindS (open_bound_card ef_aod parse_aod ops open_exclusive tx (act_reader_id ctx) (act_bound_serial ctx)) (\<lambda>lengths.
     bindS (probe_pin_activation tx (act_numbering ctx) (act_scheme ctx) PinSlot_Pin1) (\<lambda>(_, pin1).
     bindS (probe_pin_activation tx (act_numbering ctx) (act_scheme ctx) PinSlot_Pin2) (\<lambda>(_, pin2).
     let preflight = classify_preflight pin1 pin2
     in if \<not> opt_allow_reactivate options \<and> looks_activated preflight
        then ret \<lparr>rep_reader = act_reader_id ctx, rep_preflight = preflight, rep_pin1_outcome = None, rep_pin2_outcome = None\<rparr>
        else
          bindS (liftR (activation_targets pin1 pin2 (opt_new_pin1 options \<noteq> None) (opt_new_pin2 options \<noteq> None)
                          (opt_allow_reactivate options))) (\<lambda>_.
          bindS (liftR (check_activation_entries ops lengths activation_code (opt_new_pin1 options) (opt_new_pin2 options))) (\<lambda>_.
          bindS (activate_pins ops tx (act_bound_serial ctx) lengths activation_code
                   (opt_new_pin1 options) (opt_new_pin2 options)) (\<lambda>(pin1_outcome, pin2_outcome).
          ret \<lparr>rep_reader = act_reader_id ctx, rep_preflight = preflight,
               rep_pin1_outcome = pin1_outcome, rep_pin2_outcome = pin2_outcome\<rparr>)))))))"

end
