(* ===== verification/Pin_Flows.thy ===== *)
theory Pin_Flows
  imports Card_Pin
begin

text \<open>
  What the flows of \<open>Card_Pin\<close> send to the card. A command is silent unless it presents a credential
  or sets one; \<open>sees\<close> collects what the silent probes have shown, and \<open>after_evidence\<close> puts a
  modification after the answers that justify it. The flows are then judged step by step, whatever
  the card answers, and an example card shows that they get through.
\<close>

section \<open>Exchanges of the flows\<close>

subsection \<open>Steps that present nothing\<close>

lemma read_der_loop_grows:
  fixes tx :: "('t, 'e) transport"
  shows "grows_silently (fst st) (fst (snd (read_der_loop (journaled tx) what collected tot st)))"
proof (induction "65536 - length collected" arbitrary: collected tot st rule: less_induct)
  case less
  obtain r st' where read: "read_at (journaled tx) (length collected)
      (min ((case tot of Some t \<Rightarrow> t | None \<Rightarrow> MAX_CERT_BYTES) - length collected) READ_CHUNK) st = (r, st')"
    by (rule prod.exhaust)
  have to: "grows_silently (fst st) (fst st')"
    using read_at_silent [unfolded only_sends_grows, rule_format, where log = "fst st" and s = "snd st"] read
    by (metis fst_conv prod.collapse snd_conv)
  have more: "grows_silently (fst st) (fst (snd (read_der_loop (journaled tx) what (collected @ resp_body x) t st')))"
    if "length collected \<le> 65535" "resp_body x \<noteq> []" for x :: ResponseApdu and t
    using that by (intro grows_silently_trans [OF to] less diff_less_mono2) auto
  have stay: "grows_silently (fst st) (fst st)" by (simp add: grows_silently_def)
  show ?case
  proof (cases r)
    case (Inl e)
    then show ?thesis by (subst read_der_loop.simps) (simp add: read Let_def to stay)
  next
    case (Inr x)
    show ?thesis
    proof (cases "der_total what tot (collected @ resp_body x) :: 'e TransportDispatchError Pkcs15Error + nat option")
      case (Inl e)
      then show ?thesis using \<open>r = Inr x\<close> by (subst read_der_loop.simps) (auto simp: read Let_def to stay)
    next
      case (Inr t)
      then show ?thesis using \<open>r = Inr x\<close> more [of x t]
        by (subst read_der_loop.simps) (auto simp: read Let_def to stay)
    qed
  qed
qed

lemma read_der_loop_silent: "only_sends silent (read_der_loop (journaled tx) what collected tot)"
  unfolding only_sends_grows using read_der_loop_grows [where st = "(log, s)" for log s] by auto

lemma re_verify_silent [only_sends_intros]: "only_sends silent (re_verify_session (journaled tx) serial)"
proof -
  have "only_sends silent (read_token_info (journaled tx))"
    by (auto simp: read_token_info_def read_binary_der_object_def intro!: only_sends_intros read_der_loop_silent)
  then show ?thesis
    by (auto simp: re_verify_session_def Let_def intro!: only_sends_intros split: option.splits)
qed

lemma open_bound_card_silent [only_sends_intros]:
  "only_sends silent (open_bound_card ef_aod parse_aod ops (\<lambda>i. unlogged (open_exclusive i)) (journaled tx) i serial)"
  by (auto simp: open_bound_card_def intro!: only_sends_intros read_card_pin_lengths_silent)



subsection \<open>What the probes have seen\<close>

text \<open>\<open>sees m P\<close>: \<open>m\<close> presents nothing, and when it returns \<open>x\<close> its exchanges support \<open>P x\<close>.\<close>

definition sees :: "(('t, 'e) journal, 'f, 'a) io \<Rightarrow> ('a \<Rightarrow> 'e exchange set \<Rightarrow> bool) \<Rightarrow> bool" where
  "sees m P \<longleftrightarrow> emits m (\<lambda>r sent. list_all (\<lambda>x. silent (fst x)) sent \<and> (\<forall>x. r = Inr x \<longrightarrow> P x (set sent)))"

lemma sees_silent: "only_sends silent m \<Longrightarrow> sees m (\<lambda>_ _. True)"
  unfolding sees_def only_sends_def by (erule emits_weaken) simp

lemma sees_only: "sees m P \<Longrightarrow> only_sends silent m"
  unfolding sees_def only_sends_def by (erule emits_weaken) simp

lemma sees_bindS:
  assumes "sees m P" "\<And>x. sees (f x) (Q x)" "\<And>x y A B. P x A \<Longrightarrow> Q x y B \<Longrightarrow> R y (A \<union> B)"
  shows "sees (bindS m f) R"
  unfolding sees_def
  by (rule emits_bindS [OF assms(1,2) [unfolded sees_def]]) (use assms(3) in auto)

lemma sees_map_errS: "sees m P \<Longrightarrow> sees (map_errS g m) P"
  unfolding sees_def by (rule emits_weaken [OF emits_map_errS], assumption) auto

lemma sees_okS: "sees m P \<Longrightarrow> sees (okS m) (\<lambda>x S. \<forall>y. x = Some y \<longrightarrow> P y S)"
  unfolding sees_def by (rule emits_weaken [OF emits_okS], assumption) (auto simp: result_ok_Some)

lemma sees_ret: "P x {} \<Longrightarrow> sees (ret x) P"
  unfolding sees_def by (rule emits_weaken [OF emits_ret]) simp

lemma sees_liftR: "(\<And>x. v = Inr x \<Longrightarrow> P x {}) \<Longrightarrow> sees (liftR v) P"
  unfolding sees_def by (rule emits_weaken [OF emits_liftR]) simp

lemma sees_fail: "sees (fail e) P"
  unfolding sees_def by (rule emits_weaken [OF emits_fail]) simp

lemma sees_bind_ret:
  assumes "sees m P" "\<And>x S. P x S \<Longrightarrow> Q (g x) S"
  shows "sees (bindS m (\<lambda>x. ret (g x))) Q"
  by (rule sees_bindS [OF assms(1), where Q = "\<lambda>x y S. y = g x \<and> S = {}"]) (auto intro: sees_ret assms(2))

lemma sees_transmit:
  assumes "silent (CommandApdu_new (cmd_bytes c))"
  shows "sees (auth_transmit (journaled tx) c)
    (\<lambda>x S. (CommandApdu_new (cmd_bytes c), Inr (TransportOutcome_Response x)) \<in> S)"
  unfolding sees_def by (rule emits_weaken [OF emits_auth_transmit]) (use assms in auto)

text \<open>The card's answers to the status probes.\<close>

definition pin_status_seen :: "PinReferenceScheme \<Rightarrow> PinSlot \<Rightarrow> PinStatus \<Rightarrow> 'e exchange set \<Rightarrow> bool" where
  "pin_status_seen numbering slot status S \<longleftrightarrow>
     (\<exists>x. (probe_command (CredentialReference_Pin numbering slot), Inr (TransportOutcome_Response x)) \<in> S \<and>
        status = classify_pin_status_sw (ResponseApdu_status_word x))"

definition puk_probe :: "PinReferenceScheme \<Rightarrow> CommandApdu" where
  "puk_probe numbering =
     (case numbering of
        PinReferenceScheme_Organizational \<Rightarrow> probe_command (CredentialReference_Puk numbering)
      | PinReferenceScheme_Citizen \<Rightarrow> GetPukInfo_into_apdu)"

definition puk_status_of :: "PinReferenceScheme \<Rightarrow> ResponseApdu \<Rightarrow> PukStatus" where
  "puk_status_of numbering x =
     (if numbering = PinReferenceScheme_Citizen \<and> ResponseApdu_is_ok x
      then (case try_counter_from_response_body (resp_body x) of
              None \<Rightarrow> PukStatus_NoInfo | Some retries \<Rightarrow> PukStatus_Remaining retries)
      else classify_puk_status_sw (ResponseApdu_status_word x))"

definition puk_status_seen :: "PinReferenceScheme \<Rightarrow> PukStatus \<Rightarrow> 'e exchange set \<Rightarrow> bool" where
  "puk_status_seen numbering status S \<longleftrightarrow>
     (\<exists>x. (puk_probe numbering, Inr (TransportOutcome_Response x)) \<in> S \<and> status = puk_status_of numbering x)"

lemma sees_probe:
  "sees (probe_status_word (journaled tx) reference)
     (\<lambda>sw S. \<exists>x. (probe_command reference, Inr (TransportOutcome_Response x)) \<in> S \<and> sw = ResponseApdu_status_word x)"
  unfolding probe_status_word_def
  by (rule sees_bind_ret [OF sees_transmit]) (auto simp: probe_command_eq presents_new)

lemma sees_pin_status: "sees (pin_status_with_scheme (journaled tx) numbering slot) (pin_status_seen numbering slot)"
  unfolding pin_status_with_scheme_def by (rule sees_bind_ret [OF sees_probe]) (auto simp: pin_status_seen_def)

lemma sees_puk_status: "sees (puk_status_with_scheme (journaled tx) numbering) (puk_status_seen numbering)"
proof (cases numbering)
  case PinReferenceScheme_Organizational
  have "sees (bindS (probe_status_word (journaled tx) (CredentialReference_Puk numbering))
      (\<lambda>sw. ret (classify_puk_status_sw sw))) (puk_status_seen numbering)"
    by (rule sees_bind_ret [OF sees_probe])
      (auto simp: puk_status_seen_def puk_probe_def puk_status_of_def PinReferenceScheme_Organizational)
  then show ?thesis unfolding puk_status_with_scheme_def PinReferenceScheme_Organizational by simp
next
  case PinReferenceScheme_Citizen
  have "puk_status_with_scheme (journaled tx) numbering =
      bindS (auth_transmit (journaled tx) GetPukInfo_into_apdu) (\<lambda>r. ret (puk_status_of numbering r))"
    unfolding puk_status_with_scheme_def puk_status_of_def PinReferenceScheme_Citizen
    by (simp add: if_distrib [of ret])
  moreover have "CommandApdu_new (cmd_bytes GetPukInfo_into_apdu) = puk_probe numbering" "silent (puk_probe numbering)"
    using select_commands_silent
    by (simp_all add: puk_probe_def PinReferenceScheme_Citizen GetPukInfo_into_apdu_def GetPinInfo_for_reference_def)
  ultimately show ?thesis
    using sees_bind_ret [OF sees_transmit [of GetPukInfo_into_apdu tx], of "puk_status_seen numbering" "puk_status_of numbering"]
    by (auto simp: puk_status_seen_def)
qed

lemma pin_status_seen_mono: "pin_status_seen numbering slot status A \<Longrightarrow> A \<subseteq> B \<Longrightarrow> pin_status_seen numbering slot status B"
  unfolding pin_status_seen_def by blast

lemma sees_probe_pin_activation:
  "sees (probe_pin_activation (journaled tx) numbering scheme slot)
     (\<lambda>(status, _) S. \<forall>st. status = Some st \<longrightarrow> pin_status_seen numbering slot st S)"
  unfolding probe_pin_activation_def
proof (rule sees_bindS [OF sees_okS [OF sees_pin_status]])
  show "sees (bindS (okS (pin_changed_flag_with_scheme (journaled tx) numbering slot))
      (\<lambda>changed. ret (status, PinActivation_judge scheme (Option.bind changed id) status)))
    (\<lambda>y _. fst y = status)" for status
    by (rule sees_bind_ret [OF sees_silent]) (auto intro: only_sends_intros)
qed (auto intro: pin_status_seen_mono)

text \<open>The gates: the floor of a PIN, the last tries of a preset activation PIN, the floor of the PUK.\<close>

definition pin_floor_seen :: "PinReferenceScheme \<Rightarrow> PinSlot \<Rightarrow> 'e exchange set \<Rightarrow> bool" where
  "pin_floor_seen numbering slot S \<longleftrightarrow>
     (\<exists>status. pin_status_seen numbering slot status S \<and>
        check_retry_floor (FlooredCredential_from_slot slot) status = Inr ())"

definition last_tries_seen :: "PinReferenceScheme \<Rightarrow> PinSlot \<Rightarrow> 'e exchange set \<Rightarrow> bool" where
  "last_tries_seen numbering slot S \<longleftrightarrow>
     (\<exists>status. pin_status_seen numbering slot status S \<and>
        check_activation_last_tries (FlooredCredential_from_slot slot) status = Inr ())"

definition puk_floor_seen :: "PinReferenceScheme \<Rightarrow> 'e exchange set \<Rightarrow> bool" where
  "puk_floor_seen numbering S \<longleftrightarrow>
     (\<exists>status. puk_status_seen numbering status S \<and> check_puk_retry_floor status = Inr ())"

lemma gates_mono:
  "pin_floor_seen numbering slot A \<Longrightarrow> A \<subseteq> B \<Longrightarrow> pin_floor_seen numbering slot B"
  "last_tries_seen numbering slot A \<Longrightarrow> A \<subseteq> B \<Longrightarrow> last_tries_seen numbering slot B"
  "puk_floor_seen numbering A \<Longrightarrow> A \<subseteq> B \<Longrightarrow> puk_floor_seen numbering B"
  unfolding pin_floor_seen_def last_tries_seen_def puk_floor_seen_def pin_status_seen_def puk_status_seen_def
  by blast+

lemma sees_require_activated:
  "sees (require_activated (journaled tx) ctx slot)
     (pin_status_seen (session_numbering (pm_session ctx)) (as_pin_slot slot))"
  unfolding require_activated_def
proof (rule sees_bindS [OF sees_probe_pin_activation])
  show "sees (case v of (probe, verdict) \<Rightarrow>
      case (verdict, probe) of (PinActivation_Activated, Some status) \<Rightarrow> ret status
        | _ \<Rightarrow> fail (CardPinError_CardLooksUnactivated slot probe))
    (\<lambda>st _. fst v = Some st)" for v :: "PinStatus option \<times> PinActivation"
    by (auto intro: sees_fail sees_ret split: prod.splits option.splits PinActivation.splits)
qed (auto intro: pin_status_seen_mono)

lemma sees_puk_retry_floor:
  "sees (puk_retry_floor (journaled tx) numbering) (\<lambda>_. puk_floor_seen numbering)"
  unfolding puk_retry_floor_def
  by (rule sees_bindS [OF sees_map_errS [OF sees_puk_status],
        where Q = "\<lambda>status _ _. check_puk_retry_floor status = Inr ()"])
    (auto simp: puk_floor_seen_def puk_status_seen_def intro!: sees_liftR)


subsection \<open>Evidence before a modification\<close>

text \<open>The exchanges of a flow: silent commands up to an error, or the modification \<open>M\<close> after silent
  commands that gave the evidence \<open>E\<close> for it.\<close>

definition after_evidence ::
  "('f + 'a \<Rightarrow> 'e exchange list \<Rightarrow> bool) \<Rightarrow> ('e exchange set \<Rightarrow> bool) \<Rightarrow> 'f + 'a \<Rightarrow> 'e exchange list \<Rightarrow> bool" where
  "after_evidence M E r log \<longleftrightarrow>
     (\<exists>e. r = Inl e) \<and> list_all (\<lambda>x. silent (fst x)) log \<or>
     (\<exists>pre mods. log = pre @ mods \<and> list_all (\<lambda>x. silent (fst x)) pre \<and> E (set pre) \<and> M r mods)"

lemma after_evidence_error: "list_all (\<lambda>x. silent (fst x)) log \<Longrightarrow> after_evidence M E (Inl e) log"
  by (simp add: after_evidence_def)

lemma after_evidence_made: "M r log \<Longrightarrow> after_evidence M (\<lambda>_. True) r log"
  unfolding after_evidence_def by (rule disjI2, rule exI [of _ "[]"]) simp

lemma after_evidence_gain:
  assumes w: "list_all (\<lambda>x. silent (fst x)) w" and log: "after_evidence M E r log"
    and gain: "\<And>A. E A \<Longrightarrow> F (set w \<union> A)"
  shows "after_evidence M F r (w @ log)"
proof -
  consider e where "r = Inl e" "list_all (\<lambda>x. silent (fst x)) (w @ log)"
    | pre mods where "w @ log = (w @ pre) @ mods" "list_all (\<lambda>x. silent (fst x)) (w @ pre)" "F (set (w @ pre))" "M r mods"
    using log w gain unfolding after_evidence_def by auto
  then show ?thesis unfolding after_evidence_def by cases blast+
qed

lemma emits_sees_then:
  assumes m: "sees m P" and f: "\<And>x. emits (f x) (after_evidence M (E x))"
    and gain: "\<And>x A B. P x A \<Longrightarrow> E x B \<Longrightarrow> F (A \<union> B)"
  shows "emits (bindS m f) (after_evidence M F)"
  by (rule emits_bindS [OF m [unfolded sees_def] f]) (auto intro: after_evidence_error after_evidence_gain gain)

lemma emits_silent_then:
  assumes "only_sends silent m" "\<And>x. emits (f x) (after_evidence M E)" "\<And>A B. E A \<Longrightarrow> A \<subseteq> B \<Longrightarrow> E B"
  shows "emits (bindS m f) (after_evidence M E)"
  by (rule emits_sees_then [OF sees_silent [OF assms(1)] assms(2)]) (auto intro: assms(3))

lemma emits_check_then:
  assumes "v = Inr () \<Longrightarrow> emits m (after_evidence M E)"
  shows "emits (bindS (liftR v) (\<lambda>_. m)) (after_evidence M (\<lambda>S. v = Inr () \<and> E S))"
proof (cases v)
  case (Inl e)
  then show ?thesis by simp (rule emits_weaken [OF emits_fail], simp add: after_evidence_error)
qed (use assms in simp)

lemma emits_rejectable:
  fixes m :: "(('t, 'e) journal, 'e TransportDispatchError AuthError, 'o) io"
    and g :: "'e TransportDispatchError AuthError \<Rightarrow> 'f" and h :: "'o \<Rightarrow> 'a"
  assumes m: "emits m (or_rejected admitted Q)" and M: "\<And>q sent. Q q sent \<Longrightarrow> M (map_sum g h q) sent"
  shows "emits (bindS (map_errS g m) (\<lambda>out. ret (h out))) (after_evidence M (\<lambda>_. True))"
proof (rule emits_bindS [OF emits_map_errS [OF m] emits_ret])
  fix e and sent :: "'e exchange list"
  assume "\<exists>q. or_rejected admitted Q q sent \<and> Inl e = map_err g q"
  then obtain q where q: "or_rejected admitted Q (Inl q) sent" "e = g q" by (metis map_err_eq_Inl)
  show "after_evidence M (\<lambda>_. True) (Inl e) sent"
  proof (cases admitted)
    case True
    then show ?thesis using q M [of "Inl q" sent] by (intro after_evidence_made) (simp add: or_rejected_def)
  qed (use q in \<open>simp add: or_rejected_def after_evidence_error\<close>)
next
  fix x and r :: "'f + 'a" and sent sent' :: "'e exchange list"
  assume "\<exists>q. or_rejected admitted Q q sent \<and> Inr x = map_err g q" "r = Inr (h x) \<and> sent' = []"
  then show "after_evidence M (\<lambda>_. True) r (sent @ sent')"
    using M [of "Inr x" sent] by (intro after_evidence_made) (auto simp: or_rejected_def split: if_splits dest: sym)
qed


subsection \<open>The three flows\<close>

lemma map_sum_eq_Inr: "map_sum g h q = Inr y \<longleftrightarrow> (\<exists>x. q = Inr x \<and> y = h x)"
  by (cases q) auto

definition change_made ::
  "PinSlot \<Rightarrow> bytes \<Rightarrow> bytes \<Rightarrow> 'f + 'i ChangePinReport \<Rightarrow> 'e exchange list \<Rightarrow> bool" where
  "change_made slot current new r mods \<longleftrightarrow>
     (\<exists>numbering reply. mods = [(change_apdu numbering slot current new, reply)] \<and>
        (\<forall>report. r = Inr report \<longrightarrow> (\<exists>x. reply = Inr (TransportOutcome_Response x) \<and>
           chr_outcome report = classify_change_pin_sw (ResponseApdu_status_word x))))"

definition unblock_made ::
  "PinSlot \<Rightarrow> bytes \<Rightarrow> bytes \<Rightarrow> 'f + UnblockOutcome \<Rightarrow> 'e exchange list \<Rightarrow> bool" where
  "unblock_made slot puk new r mods \<longleftrightarrow>
     (\<exists>numbering q. unblock_exchanges numbering slot puk new q mods \<and> (\<forall>out. r = Inr out \<longrightarrow> q = Inr out))"

lemma emits_change_first:
  assumes "PinBytes_wf (chg_current options)" "PinBytes_wf (chg_new options)"
  shows "emits (change_pin_first ef_aod parse_aod ops (\<lambda>i. unlogged (open_exclusive i)) (journaled tx) ctx options)
    (after_evidence
       (change_made (as_pin_slot (chg_slot options)) (PinBytes_as_bytes (chg_current options)) (PinBytes_as_bytes (chg_new options)))
       (pin_floor_seen (session_numbering (pm_session ctx)) (as_pin_slot (chg_slot options))))"
proof -
  have tail: "emits (bindS (re_verify_session (journaled tx) serial) (\<lambda>_.
      bindS (map_errS auth_to_card_pin (change_pin ops (journaled tx) lengths slot (chg_current options) (chg_new options)))
        (\<lambda>outcome. ret (report outcome))))
    (after_evidence (change_made slot (PinBytes_as_bytes (chg_current options)) (PinBytes_as_bytes (chg_new options))) (\<lambda>_. True))"
    if "\<And>outcome. chr_outcome (report outcome) = outcome" for serial lengths slot report
    by (intro emits_silent_then [OF re_verify_silent] emits_rejectable [OF emits_change [OF assms]])
      (use that in \<open>auto simp: change_made_def map_sum_eq_Inr dest!: presented_onceD\<close>)
  show ?thesis
    unfolding change_pin_first_def Let_def
    by (intro emits_silent_then [OF open_bound_card_silent _ gates_mono(1)]
        emits_sees_then [OF sees_require_activated emits_check_then [OF tail]])
      (auto simp: pin_floor_seen_def intro: pin_status_seen_mono)
qed

lemma emits_reset_made:
  fixes report :: "UnblockOutcome \<Rightarrow> 'a"
  assumes "PinBytes_wf puk" "PinBytes_wf new"
    and report: "\<And>q sent. unblock_made slot (PinBytes_as_bytes puk) (PinBytes_as_bytes new) q sent \<Longrightarrow> M (map_sum id report q) sent"
  shows "emits (bindS (map_errS auth_to_card_pin (reset_retry_counter ops (journaled tx) lengths slot puk new))
      (\<lambda>outcome. ret (report outcome)))
    (after_evidence M (\<lambda>_. True))"
proof (rule emits_rejectable [OF emits_reset [OF assms(1,2)]])
  fix q and sent :: "'c exchange list"
  assume "unblock_exchanges (cpl_numbering lengths) slot (PinBytes_as_bytes puk) (PinBytes_as_bytes new) q sent"
  then have "M (map_sum id report (map_sum auth_to_card_pin id q)) sent"
    by (intro report) (auto simp: unblock_made_def map_sum_eq_Inr)
  then show "M (map_sum auth_to_card_pin report q) sent" by (simp add: sum.map_comp)
qed

lemma emits_unblock_first:
  assumes "PinBytes_wf (Puk_to_pin_bytes (unb_puk options))" "PinBytes_wf (unb_new_pin options)"
  shows "emits (unblock_pin_first ef_aod parse_aod ops (\<lambda>i. unlogged (open_exclusive i)) (journaled tx) ctx options)
    (after_evidence (\<lambda>r. unblock_made (as_pin_slot (unb_slot options)) (PinBytes_as_bytes (Puk_to_pin_bytes (unb_puk options)))
         (PinBytes_as_bytes (unb_new_pin options)) (map_sum id unr_outcome r))
       (puk_floor_seen (session_numbering (pm_session ctx))))"
  unfolding unblock_pin_first_def Let_def
  by (intro emits_silent_then [OF open_bound_card_silent _ gates_mono(3)]
      emits_silent_then [OF sees_only [OF sees_require_activated] _ gates_mono(3)]
      emits_silent_then [OF re_verify_silent _ gates_mono(3)]
      emits_sees_then [OF sees_puk_retry_floor emits_reset_made [OF assms]])
    (auto simp: sum.map_comp comp_def id_def sum.map_ident intro: gates_mono(3))


























text \<open>A card of the examples: it selects every file, reads one file, reports \<open>sw\<close> to a status probe,
  has a container for the PUK alone, with five tries left, and accepts what it is given.\<close>

definition example_card :: "bytes \<Rightarrow> u8 \<Rightarrow> u8 \<Rightarrow> (unit, unit) transport" where
  "example_card file sw1 sw2 c s =
     (let answer = (\<lambda>body a b. (Inr (TransportOutcome_Response \<lparr>resp_body = body, resp_sw1 = a, resp_sw2 = b\<rparr>), s))
      in case cmd_bytes c of
           cla # ins # rest \<Rightarrow>
             if ins = 0xB0 then answer file 0x90 0x00
             else if ins = 0xCB \<and> rest ! 7 = 0x83 then answer [0xDF, 0x21, 0x04, 0x05, 0xFF, 0x00, 0x00] 0x90 0x00
             else if ins = 0xCB then answer [] 0x6A 0x88
             else if ins = 0x20 \<and> length rest = 3 then answer [] sw1 sw2
             else if ins = 0x2A \<and> rest ! 0 = 0x9E then answer (replicate 96 1) 0x90 0x00
             else answer [] 0x90 0x00
         | _ \<Rightarrow> answer [] 0x67 0x00)"

definition example_token_info :: bytes where
  "example_token_info = [0x30, 0x07, 0x02, 0x01, 0x01, 0x04, 0x02, 0x41, 0x42]"

definition example_context :: "(unit, unit) PinManagementCardContext" where
  "example_context = PinManagementCardContext
     \<lparr>session_reader_id = (), session_identity = \<lparr>person_string = [], best_serial = None\<rparr>,
      session_bound_serial = TokenSerial [0x41, 0x42], session_model = (),
      session_numbering = PinReferenceScheme_Citizen, session_scheme = ActivationScheme_PresetActivationPin\<rparr>"

definition example_change :: ChangePinOptions where
  "example_change = \<lparr>chg_slot = PinManageSlot_Pin1, chg_current = example_pin, chg_new = example_puk, chg_reader_filter = None\<rparr>"

text \<open>\<open>gives m x\<close>: \<open>m\<close> returns \<open>x\<close> from every state.\<close>

definition gives :: "('s, 'e, 'a) io \<Rightarrow> 'a \<Rightarrow> bool" where
  "gives m x \<longleftrightarrow> (\<forall>s. fst (m s) = Inr x)"

lemma gives_bindS: "gives m x \<Longrightarrow> gives (f x) y \<Longrightarrow> gives (bindS m f) y"
  unfolding gives_def bindS_def by (auto simp: split_beta)

lemma gives_ret: "gives (ret x) x"
  by (simp add: gives_def)

lemma gives_liftR: "v = Inr x \<Longrightarrow> gives (liftR v) x"
  by (simp add: gives_def)

lemma gives_map_errS: "gives m x \<Longrightarrow> gives (map_errS g m) x"
  unfolding gives_def map_errS_def by (auto simp: split_beta)

lemma gives_okS: "gives m x \<Longrightarrow> gives (okS m) (Some x)"
  unfolding gives_def okS_def by (auto simp: split_beta)

lemmas gives_intros = gives_bindS gives_ret gives_liftR gives_map_errS gives_okS

lemma gives_transmit:
  "fst (example_card file a b (CommandApdu_new bs) ()) = Inr (TransportOutcome_Response x) \<Longrightarrow>
     gives (transmit (journaled (example_card file a b)) bs) x"
  by (auto simp: gives_def transmit_def journaled_def split_beta bindS_def map_errS_def split: prod.splits)

lemma gives_auth_transmit:
  "fst (example_card file a b (CommandApdu_new (cmd_bytes c)) ()) = Inr (TransportOutcome_Response x) \<Longrightarrow>
     gives (auth_transmit (journaled (example_card file a b)) c) x"
  by (simp add: auth_transmit_def gives_map_errS gives_transmit)

abbreviation example_tx :: "((unit, unit) journal, unit) transport" where
  "example_tx \<equiv> journaled (example_card example_token_info 0x63 0xC5)"

lemma example_status [simp]:
  "ResponseApdu_status_word \<lparr>resp_body = body, resp_sw1 = 0x90, resp_sw2 = 0x00\<rparr> = StatusWord_Success"
  "ResponseApdu_status_word \<lparr>resp_body = body, resp_sw1 = 0x63, resp_sw2 = 0xC5\<rparr> = StatusWord_PinIncorrect (PinRetries 5)"
  "ResponseApdu_is_ok \<lparr>resp_body = body, resp_sw1 = 0x90, resp_sw2 = 0x00\<rparr>"
  "\<not> ResponseApdu_is_ok \<lparr>resp_body = body, resp_sw1 = 0x6A, resp_sw2 = 0x88\<rparr>"
  by code_simp+

lemma example_select: "gives (select_pkcs15_application example_tx) ()" "gives (select_ef example_tx fid) ()"
proof -
  obtain aid where "Aid_from_slice PKCS15_AID = Inr aid" by (simp add: Aid_from_slice_def Aid_new_def PKCS15_AID_def)
  then show "gives (select_pkcs15_application example_tx) ()"
    by (auto simp: select_pkcs15_application_def Let_def SelectByAidNoFci_into_apdu_def example_card_def
        intro!: gives_intros gives_transmit)
  show "gives (select_ef example_tx fid) ()"
    by (auto simp: select_ef_def Let_def SelectEfNoFci_into_apdu_def example_card_def intro!: gives_intros gives_transmit)
qed

lemma example_read: "gives (read_at example_tx offset n) \<lparr>resp_body = example_token_info, resp_sw1 = 0x90, resp_sw2 = 0x00\<rparr>"
  by (auto simp: read_at_def ReadBinaryByOffset_into_apdu_def example_card_def Let_def
      intro!: gives_intros gives_transmit split: list.splits)

lemma gives_apply: "gives m x \<Longrightarrow> \<exists>s'. m s = (Inr x, s')"
  unfolding gives_def by (metis prod.collapse)

lemma example_der: "der_total what None example_token_info = (Inr (Some 9) :: unit TransportDispatchError Pkcs15Error + _)" "length example_token_info = 9" "example_token_info \<noteq> []"
  "TokenInfo_parse example_token_info = Inr \<lparr>ti_version = Some 1, ti_serial_number_hex = Some (TokenSerial [0x34, 0x31, 0x34, 0x32]),
        ti_manufacturer_id = None, ti_label = None\<rparr>"
  "render_token_serial (TokenSerial [0x34, 0x31, 0x34, 0x32]) = TokenSerial [0x41, 0x42]"
  by code_simp+

lemma example_files:
  "gives (read_binary_der_object example_tx what) example_token_info"
  "gives (read_to_cap example_tx MAX_CERT_BYTES 0 []) example_token_info"
proof -
  have "fst (read_binary_der_object example_tx what s) = Inr example_token_info" for s
    using gives_apply [OF example_read, of 0 128 s]
    by (auto simp: read_binary_der_object_def read_der_loop.simps MAX_CERT_BYTES_def READ_CHUNK_def Let_def example_der)
  then show "gives (read_binary_der_object example_tx what) example_token_info" by (simp add: gives_def)
  have "fst (read_to_cap example_tx MAX_CERT_BYTES 0 [] s) = Inr example_token_info" for s
    using gives_apply [OF example_read, of 0 128 s]
    by (auto simp: read_to_cap.simps MAX_CERT_BYTES_def READ_CHUNK_def Let_def example_der)
  then show "gives (read_to_cap example_tx MAX_CERT_BYTES 0 []) example_token_info" by (simp add: gives_def)
qed

lemma example_re_verify: "gives (re_verify_session example_tx (TokenSerial [0x41, 0x42])) ()"
  by (auto simp: re_verify_session_def read_token_info_def Let_def example_der
      intro!: gives_intros example_select example_files)

lemma example_probe:
  "gives (probe_status_word example_tx reference) (StatusWord_PinIncorrect (PinRetries 5))"
  "gives (read_pin_info example_tx (GetPinInfo_into_apdu \<lparr>gpi_scheme = scheme, gpi_slot = slot\<rparr>) scan) None"
  "gives (auth_transmit example_tx GetPukInfo_into_apdu)
     \<lparr>resp_body = [0xDF, 0x21, 0x04, 0x05, 0xFF, 0x00, 0x00], resp_sw1 = 0x90, resp_sw2 = 0x00\<rparr>"
  by (cases scheme; cases slot; auto simp: probe_status_word_def read_pin_info_def probe_command_eq example_card_def GetPinInfo_into_apdu_def
      GetPukInfo_into_apdu_def GetPinInfo_for_reference_def Let_def PIN1_REFERENCE_PKCS15_def
      PIN2_REFERENCE_PKCS15_def PIN1_REFERENCE_ORGANIZATIONAL_def PIN2_REFERENCE_ORGANIZATIONAL_def PUK_REFERENCE_PKCS15_def
      intro!: gives_intros gives_auth_transmit)+

abbreviation example_lengths :: "(u8 \<times> u8) CardPinLengths" where
  "example_lengths \<equiv> CardPinLengths_not_listed pair_ranges PinReferenceScheme_Citizen"

lemma example_policy:
  "\<exists>s'. policy_closure pair_ranges example_tx PinReferenceScheme_Citizen credential (None, s) = (None, (None, s'))"
proof -
  have "policy_lengths_from_response_body (range_new pair_ranges) [0xDF, 0x21, 0x04, 0x05, 0xFF, 0x00, 0x00] = None"
    by code_simp
  then have "gives (pin_policy_lengths pair_ranges example_tx credential) None"
    by (cases credential) (auto simp: pin_policy_lengths_def Let_def example_probe(2) read_pin_info_def [of _ GetPukInfo_into_apdu]
        intro!: gives_bindS [OF example_probe(3)] gives_ret)
  from gives_apply [OF this, of s] show ?thesis by (auto simp: policy_closure_def)
qed

lemma example_objects: "gives (read_objects fid (\<lambda>_. Inl () :: unit + (u8 \<times> u8 \<times> u8) list) example_tx) None"
proof -
  have read: "gives (read_binary_to_end example_tx None) example_token_info"
    by (auto simp: read_binary_to_end_def Let_def example_der MAX_CERT_BYTES_def
        intro!: gives_intros example_files(2) [unfolded MAX_CERT_BYTES_def])
  have "fst (read_objects fid (\<lambda>_. Inl () :: unit + (u8 \<times> u8 \<times> u8) list) example_tx s) = Inr None" for s
  proof -
    obtain s1 where 1: "select_pkcs15_application example_tx s = (Inr (), s1)" using gives_apply [OF example_select(1)] by blast
    obtain s2 where 2: "select_ef example_tx fid s1 = (Inr (), s2)" using gives_apply [OF example_select(2)] by blast
    obtain s3 where 3: "read_binary_to_end example_tx None s2 = (Inr example_token_info, s3)" using gives_apply [OF read] by blast
    show ?thesis by (simp add: read_objects_def read_authentication_objects_def bindS_def 1 2 3)
  qed
  then show ?thesis by (simp add: gives_def)
qed

lemma example_from_objects:
  "gives (lengths_from_objects pair_ranges example_tx PinReferenceScheme_Citizen None) example_lengths"
proof -
  let ?policy = "policy_closure pair_ranges example_tx PinReferenceScheme_Citizen"
  have "fst (lengths_from_objects pair_ranges example_tx PinReferenceScheme_Citizen None s) = Inr example_lengths" for s
  proof -
    obtain s1 where 1: "?policy (CredentialReference_Pin PinReferenceScheme_Citizen PinSlot_Pin1) (None, s) = (None, (None, s1))"
      using example_policy by blast
    obtain s2 where 2: "?policy (CredentialReference_Pin PinReferenceScheme_Citizen PinSlot_Pin2) (None, s1) = (None, (None, s2))"
      using example_policy by blast
    obtain s3 where 3: "?policy (CredentialReference_Puk PinReferenceScheme_Citizen) (None, s2) = (None, (None, s3))"
      using example_policy by blast
    show ?thesis
      by (simp add: lengths_from_objects_def CardPinLengths_from_card_def listed_range_def CardPinLengths_not_listed_def 1 2 3)
  qed
  then show ?thesis by (simp add: gives_def)
qed

lemma example_open:
  "gives (open_bound_card fid (\<lambda>_. Inl () :: unit + (u8 \<times> u8 \<times> u8) list) pair_ranges (\<lambda>_. unlogged (ret ()))
     example_tx i (TokenSerial [0x41, 0x42])) example_lengths"
proof -
  have "gives (resolve_pin_reference_scheme example_tx) PinReferenceScheme_Citizen"
    by (auto simp: resolve_pin_reference_scheme_def intro!: gives_bindS [OF example_probe(1)] gives_ret)
  then have "gives (read_card_pin_lengths fid (\<lambda>_. Inl () :: unit + (u8 \<times> u8 \<times> u8) list) pair_ranges example_tx) example_lengths"
    unfolding read_card_pin_lengths_def 
    by (rule gives_bindS) (rule gives_bindS, rule example_objects, rule example_from_objects)
  moreover have "gives (unlogged (ret ())) ()" by (simp add: gives_def unlogged_def split: prod.splits)
  ultimately show ?thesis
    unfolding open_bound_card_def by (auto intro!: gives_bindS gives_map_errS example_select example_re_verify)
qed

lemma example_lengths_accept:
  "check_pin pair_ranges example_lengths slot n = Inr () \<longleftrightarrow> (case slot of PinSlot_Pin1 \<Rightarrow> 4 | PinSlot_Pin2 \<Rightarrow> 6) \<le> n \<and> n \<le> 12"
  "check_puk pair_ranges example_lengths n = Inr () \<longleftrightarrow> 8 \<le> n \<and> n \<le> 12"
  "cpl_numbering example_lengths = PinReferenceScheme_Citizen"
  by (cases slot; simp add: check_pin_def check_puk_def CardPinLengths_not_listed_def CardPinLengths_from_listed_def
      check_accepted pair_ranges_laws capacity_contains)+

lemma example_change_pin:
  assumes "PinBytes_wf current" "PinBytes_wf new"
    "check_pin pair_ranges example_lengths slot (length (PinBytes_as_bytes current)) = Inr ()"
    "check_pin pair_ranges example_lengths slot (length (PinBytes_as_bytes new)) = Inr ()"
  shows "gives (change_pin pair_ranges example_tx example_lengths slot current new) ChangePinOutcome_Ok"
  unfolding change_pin_def Let_def stored_length_12
    change_command_apdu [OF PinBytes_wf_policy(2) [OF assms(1)] PinBytes_wf_policy(2) [OF assms(2)]]
  using assms
  by (auto simp: policy_validate_for_card_Inr PinBytes_wf_digits example_card_def change_apdu_def Let_def
     intro!: gives_intros gives_auth_transmit)

lemma example_activated:
  "gives (require_activated example_tx example_context slot) (PinStatus_Remaining (PinRetries 5))"
  by (auto simp: require_activated_def probe_pin_activation_def pin_status_with_scheme_def pin_changed_flag_with_scheme_def
     PinActivation_judge_def example_context_def
     intro!: gives_intros example_probe)

definition example_unblock :: UnblockPinOptions where
  "example_unblock = \<lparr>unb_slot = PinManageSlot_Pin1, unb_puk = Puk example_puk, unb_new_pin = example_pin, unb_reader_filter = None\<rparr>"

abbreviation example_flow where
  "example_flow flow \<equiv>
     flow EF_TOKEN_INFO_FID (\<lambda>_. Inl () :: unit + (u8 \<times> u8 \<times> u8) list) pair_ranges
       (\<lambda>_. unlogged (ret () :: (unit, unit, unit) io)) example_tx"

lemma example_floor: "check_retry_floor FlooredCredential_Pin1 (PinStatus_Remaining (PinRetries 5)) = Inr ()"
  "check_puk_retry_floor (PukStatus_Remaining (PinRetries 5)) = Inr ()"
  by code_simp+

lemma example_session:
  "session_bound_serial (pm_session example_context) = TokenSerial [0x41, 0x42]"
  "session_numbering (pm_session example_context) = PinReferenceScheme_Citizen"
  by (simp_all add: example_context_def)

lemma example_change_gives:
  "\<exists>report. gives (example_flow change_pin_first example_context example_change) report"
proof -
  have "gives (change_pin pair_ranges example_tx example_lengths PinSlot_Pin1 example_pin example_puk) ChangePinOutcome_Ok"
    by (rule example_change_pin) (simp_all add: example_lengths_accept)
  then show ?thesis
    unfolding change_pin_first_def Let_def example_session
    by (auto simp: example_change_def example_floor
        intro!: gives_bindS [OF example_open] gives_bindS [OF example_activated] gives_bindS [OF example_re_verify]
          gives_bindS [OF gives_map_errS] exI gives_ret)
qed

lemma example_puk_floor: "gives (puk_retry_floor example_tx PinReferenceScheme_Citizen) ()"
proof -
  have "try_counter_from_response_body [0xDF, 0x21, 0x04, 0x05, 0xFF, 0x00, 0x00] = Some (PinRetries 5)" by code_simp
  then have "gives (puk_status_with_scheme example_tx PinReferenceScheme_Citizen) (PukStatus_Remaining (PinRetries 5))"
    by (auto simp: puk_status_with_scheme_def intro!: gives_bindS [OF example_probe(3)] gives_ret)
  then show ?thesis
    unfolding puk_retry_floor_def
    by (auto simp: example_floor intro!: gives_bindS [OF gives_map_errS] gives_liftR)
qed

lemma example_reset:
  "gives (reset_retry_counter pair_ranges example_tx example_lengths PinSlot_Pin1 example_puk example_pin) UnblockOutcome_Ok"
  unfolding reset_retry_counter_def Let_def example_lengths_accept(3) PinReferenceScheme.case reset_send_def
  by (auto simp: policy_validate_for_card_Inr example_lengths_accept is_ascii_digit_def reset_command_apdu reset_apdu_def
      example_card_def Let_def intro!: gives_intros gives_auth_transmit)

lemma example_unblock_gives:
  "\<exists>report. gives (example_flow unblock_pin_first example_context example_unblock) report"
  unfolding unblock_pin_first_def Let_def example_session
  by (auto simp: example_unblock_def
      intro!: gives_bindS [OF example_open] gives_bindS [OF example_activated] gives_bindS [OF example_re_verify]
        gives_bindS [OF example_puk_floor] gives_bindS [OF gives_map_errS [OF example_reset]] exI gives_ret)

definition example_code :: PinBytes where
  "example_code = \<lparr>pin_storage = [0x31, 0x32, 0x33, 0x34, 0x35, 0x36, 0x37, 0, 0, 0, 0, 0], pin_length = 7\<rparr>"

definition example_activation_context :: "(unit, unit) ActivationCardContext" where
  "example_activation_context =
     \<lparr>act_reader_id = (), act_identity = \<lparr>person_string = [], best_serial = None\<rparr>,
      act_numbering = PinReferenceScheme_Citizen, act_scheme = ActivationScheme_PresetActivationPin,
      act_bound_serial = TokenSerial [0x41, 0x42], act_model = ()\<rparr>"


lemma example_code_facts [simp]:
  "PinBytes_as_bytes example_code = [0x31, 0x32, 0x33, 0x34, 0x35, 0x36, 0x37]" "PinBytes_wf example_code"
  by (simp_all add: PinBytes_as_bytes_def PinBytes_digit_count_def example_code_def PinBytes_wf_def digits_within_def is_ascii_digit_def)



text \<open>\<open>stops m\<close>: \<open>m\<close> presents nothing and never gets through.\<close>

definition stops :: "(('t, 'e) journal, 'f, 'a) io \<Rightarrow> bool" where
  "stops m \<longleftrightarrow> emits m (\<lambda>r sent. list_all (\<lambda>x. silent (fst x)) sent \<and> (\<exists>e. r = Inl e))"

lemma stops_bindS: "stops m \<Longrightarrow> stops (bindS m f)"
  unfolding stops_def emits_def bindS_def by (fastforce simp: split_beta split: sum.splits)

lemma stops_map_errS: "stops m \<Longrightarrow> stops (map_errS g m)"
  unfolding stops_def emits_def map_errS_def by (fastforce simp: split_beta)

lemma stops_then:
  assumes "only_sends silent m" "\<And>x. stops (f x)"
  shows "stops (bindS m f)"
  unfolding stops_def
  by (rule emits_bindS [OF assms(1) [unfolded only_sends_def] assms(2) [unfolded stops_def]]) auto

lemma stops_run:
  assumes "stops m"
  shows "\<exists>e log s'. m ([], s) = (Inl e, (log, s')) \<and> list_all (\<lambda>x. \<not> presents_credential (fst x)) log"
  using emits_from_empty [OF assms [unfolded stops_def], of s] by (metis prod.collapse)

lemma stops_open:
  fixes tx :: "('t, 'e) transport" and open_exclusive :: "'i \<Rightarrow> ('t, 'o, unit) io"
  assumes "\<And>st. fst (re_verify_session (journaled tx) serial st :: (('o, 'e) CardPinError + _) \<times> _) \<noteq> Inr ()"
  shows "stops (open_bound_card ef_aod parse_aod ops (\<lambda>i. unlogged (open_exclusive i)) (journaled tx) i serial)"
proof -
  have "\<exists>e. fst (re_verify_session (journaled tx) serial st :: (('o, 'e) CardPinError + _) \<times> _) = Inl e" for st
    using assms [of st] by (metis (full_types) old.unit.exhaust sum.exhaust)
  then have "stops (re_verify_session (journaled tx) serial :: (_, ('o, 'e) CardPinError, _) io)"
    unfolding stops_def
    by (intro emits_weaken [OF emits_with_result [OF re_verify_silent [unfolded only_sends_def]]]) auto
  then show ?thesis
    unfolding open_bound_card_def by (intro stops_then stops_bindS only_sends_intros)
qed

section \<open>Properties\<close>

text \<open>
  (C11) Changing a PIN presents the PIN at most once, as the last command of the flow, and only after
  the card itself reported, in the same session, a retry counter the floor admits; whatever fails
  before that leaves every counter alone. A reported outcome is the card's answer to that command.
\<close>

theorem change_flow_guarded:
  assumes "PinBytes_wf (chg_current options)" "PinBytes_wf (chg_new options)"
    and "change_pin_first ef_aod parse_aod ops (\<lambda>i. unlogged (open_exclusive i)) (journaled tx) ctx options ([], s) = (r, (log, s'))"
    and "slot = as_pin_slot (chg_slot options)"
  shows "(\<exists>e. r = Inl e) \<and> list_all (\<lambda>x. \<not> presents_credential (fst x)) log \<or>
    (\<exists>pre numbering reply status.
       log = pre @ [(change_apdu numbering slot (PinBytes_as_bytes (chg_current options)) (PinBytes_as_bytes (chg_new options)), reply)] \<and>
       list_all (\<lambda>x. \<not> presents_credential (fst x)) pre \<and>
       pin_status_seen (session_numbering (pm_session ctx)) slot status (set pre) \<and>
       check_retry_floor (FlooredCredential_from_slot slot) status = Inr () \<and>
       (\<forall>report. r = Inr report \<longrightarrow> (\<exists>x. reply = Inr (TransportOutcome_Response x) \<and>
          chr_outcome report = classify_change_pin_sw (ResponseApdu_status_word x))))"
  using emits_run [OF emits_change_first [OF assms(1,2)] assms(3)]
  unfolding assms(4) after_evidence_def change_made_def pin_floor_seen_def by blast

text \<open>The example card, from the first command to its \<open>9000\<close> for the change.\<close>

theorem change_flow_guarded_witness:
  "\<exists>pre numbering reply. fst (snd (example_flow change_pin_first example_context example_change ([], ()))) =
     pre @ [(change_apdu numbering PinSlot_Pin1 [0x31, 0x32, 0x33, 0x34] [0x31, 0x32, 0x33, 0x34, 0x35, 0x36, 0x37, 0x38], reply)] \<and>
     list_all (\<lambda>x. \<not> presents_credential (fst x)) pre"
proof -
  obtain report where report: "gives (example_flow change_pin_first example_context example_change) report" using example_change_gives by blast
  obtain st where "example_flow change_pin_first example_context example_change ([], ()) = (Inr report, st)" using gives_apply [OF report] by blast
  then have run: "example_flow change_pin_first example_context example_change ([], ()) = (Inr report, (fst st, snd st))" by (simp only: prod.collapse)
  have entered: "chg_current example_change = example_pin" "chg_new example_change = example_puk"
      "as_pin_slot (chg_slot example_change) = PinSlot_Pin1"
    by (simp_all add: example_change_def)
  have "PinBytes_wf (chg_current example_change)" "PinBytes_wf (chg_new example_change)" by (simp_all add: entered)
  from change_flow_guarded [OF this run refl] show ?thesis
    unfolding run entered example_digits fst_conv snd_conv
    by (elim disjE exE conjE) (simp, intro exI conjI, assumption+)
qed

text \<open>
  Unblocking a PIN presents the PUK only after the card reported, in the same session, a PUK
  counter the floor admits, and then makes only the exchanges of one unblock: on a citizen card the
  one RESET RETRY COUNTER, on an organization card the VERIFY of the PUK and the reset after its
  success. Whatever fails before leaves every counter alone.
\<close>

theorem unblock_flow_guarded:
  assumes "PinBytes_wf (Puk_to_pin_bytes (unb_puk options))" "PinBytes_wf (unb_new_pin options)"
    and "unblock_pin_first ef_aod parse_aod ops (\<lambda>i. unlogged (open_exclusive i)) (journaled tx) ctx options ([], s) = (r, (log, s'))"
    and "slot = as_pin_slot (unb_slot options)"
  shows "(\<exists>e. r = Inl e) \<and> list_all (\<lambda>x. \<not> presents_credential (fst x)) log \<or>
    (\<exists>pre mods numbering q status.
       log = pre @ mods \<and> list_all (\<lambda>x. \<not> presents_credential (fst x)) pre \<and>
       puk_status_seen (session_numbering (pm_session ctx)) status (set pre) \<and> check_puk_retry_floor status = Inr () \<and>
       unblock_exchanges numbering slot (PinBytes_as_bytes (Puk_to_pin_bytes (unb_puk options)))
         (PinBytes_as_bytes (unb_new_pin options)) q mods \<and>
       (\<forall>report. r = Inr report \<longrightarrow> q = Inr (unr_outcome report)))"
  using emits_run [OF emits_unblock_first [OF assms(1,2)] assms(3)]
  unfolding assms(4) after_evidence_def unblock_made_def puk_floor_seen_def map_sum_eq_Inr by blast

text \<open>The example card: one RESET RETRY COUNTER, the last command.\<close>

theorem unblock_flow_guarded_witness:
  "\<exists>pre numbering q mods. fst (snd (example_flow unblock_pin_first example_context example_unblock ([], ()))) = pre @ mods \<and>
     list_all (\<lambda>x. \<not> presents_credential (fst x)) pre \<and>
     unblock_exchanges numbering PinSlot_Pin1 [0x31, 0x32, 0x33, 0x34, 0x35, 0x36, 0x37, 0x38] [0x31, 0x32, 0x33, 0x34] q mods"
proof -
  obtain report where report: "gives (example_flow unblock_pin_first example_context example_unblock) report" using example_unblock_gives by blast
  obtain st where "example_flow unblock_pin_first example_context example_unblock ([], ()) = (Inr report, st)" using gives_apply [OF report] by blast
  then have run: "example_flow unblock_pin_first example_context example_unblock ([], ()) = (Inr report, (fst st, snd st))" by (simp only: prod.collapse)
  have entered: "Puk_to_pin_bytes (unb_puk example_unblock) = example_puk" "unb_new_pin example_unblock = example_pin"
      "as_pin_slot (unb_slot example_unblock) = PinSlot_Pin1"
    by (simp_all add: example_unblock_def)
  have "PinBytes_wf (Puk_to_pin_bytes (unb_puk example_unblock))" "PinBytes_wf (unb_new_pin example_unblock)" by (simp_all add: entered)
  from unblock_flow_guarded [OF this run refl] show ?thesis
    unfolding run entered example_digits fst_conv snd_conv by blast
qed




text \<open>
  A card that does not show the serial the session was bound to is never presented a
  credential: where the re-verification fails, each of the three flows ends with an error and
  every command it sent is silent.
\<close>

theorem foreign_card_untouched:
  fixes tx :: "('t, 'e) transport" and open_exclusive :: "'i \<Rightarrow> ('t, 'o, unit) io"
  assumes "\<forall>st. fst (re_verify_session (journaled tx) serial st :: (('o, 'e) CardPinError + _) \<times> _) \<noteq> Inr ()"
    and "session_bound_serial (pm_session ctx) = serial" "act_bound_serial actx = serial"
  shows "(\<exists>e log s'. change_pin_first ef_aod parse_aod ops (\<lambda>i. unlogged (open_exclusive i)) (journaled tx) ctx change ([], s) =
      (Inl e, (log, s')) \<and> list_all (\<lambda>x. \<not> presents_credential (fst x)) log) \<and>
    (\<exists>e log s'. unblock_pin_first ef_aod parse_aod ops (\<lambda>i. unlogged (open_exclusive i)) (journaled tx) ctx unblock ([], s) =
      (Inl e, (log, s')) \<and> list_all (\<lambda>x. \<not> presents_credential (fst x)) log) \<and>
    (\<exists>e log s'. activate_first ef_aod parse_aod ops (\<lambda>i. unlogged (open_exclusive i)) (journaled tx) actx activate ([], s) =
      (Inl e, (log, s')) \<and> list_all (\<lambda>x. \<not> presents_credential (fst x)) log)"
proof -
  have opened: "stops (open_bound_card ef_aod parse_aod ops (\<lambda>i. unlogged (open_exclusive i)) (journaled tx) i serial)" for i
    by (rule stops_open) (use assms(1) in blast)
  show ?thesis
    unfolding change_pin_first_def unblock_pin_first_def activate_first_def Let_def assms(2,3)
    by (intro conjI stops_run; intro stops_bindS [OF opened] stops_then only_sends_liftR)
qed

text \<open>A card without the application, for any serial.\<close>

theorem foreign_card_untouched_witness:
  "\<exists>e log s'. change_pin_first EF_TOKEN_INFO_FID (\<lambda>_. Inl () :: unit + (u8 \<times> u8 \<times> u8) list) pair_ranges
      (\<lambda>i. unlogged (ret () :: (unit, unit, unit) io)) (journaled (answers 0x6A 0x82)) example_context example_change ([], ()) =
    (Inl e, (log, s')) \<and> list_all (\<lambda>x. \<not> presents_credential (fst x)) log"
proof -
  have "\<not> ResponseApdu_is_ok \<lparr>resp_body = [], resp_sw1 = 0x6A, resp_sw2 = 0x82\<rparr>" by code_simp
  moreover obtain aid where "Aid_from_slice PKCS15_AID = Inr aid" by (simp add: Aid_from_slice_def Aid_new_def PKCS15_AID_def)
  ultimately have select: "\<exists>e st'. select_pkcs15_application (journaled (answers 0x6A 0x82)) st = (Inl e, st')" for st
    by (simp add: select_pkcs15_application_def bindS_def map_errS_def transmit_def journaled_def answers_def Let_def split_beta)
  have foreign: "\<forall>st. fst (re_verify_session (journaled (answers 0x6A 0x82)) (TokenSerial [0x41, 0x42]) st
      :: ((unit, unit) CardPinError + _) \<times> _) \<noteq> Inr ()"
  proof
    fix st :: "(unit, unit) journal"
    obtain e st' where "select_pkcs15_application (journaled (answers 0x6A 0x82)) st = (Inl e, st')" using select by blast
    then show "fst (re_verify_session (journaled (answers 0x6A 0x82)) (TokenSerial [0x41, 0x42]) st
        :: ((unit, unit) CardPinError + _) \<times> _) \<noteq> Inr ()"
      by (simp add: re_verify_session_def read_token_info_def bindS_def map_errS_def)
  qed
  have "act_bound_serial example_activation_context = TokenSerial [0x41, 0x42]" by (simp add: example_activation_context_def)
  from foreign_card_untouched [OF foreign example_session(1) this] show ?thesis by (rule conjunct1)
qed

end
