(* ===== verification/Pin_Cache.thy ===== *)
theory Pin_Cache
  imports Retry_Floor Pin Token_Info
begin

text \<open>
  The process-local PIN safety cache (\<open>pin_cache.rs\<close>): the held PIN 1 with its destructive
  checkout, and the memory of PIN values a card rejected. HMAC-SHA-256 is a parameter: a key and a
  message to a tag, or \<open>None\<close> where the crate refuses the key.

  The life of one cache is the step relation \<open>cache_step\<close> on the cache and the checkouts in
  flight; the generation counter keeps its 64 bits.
\<close>

section \<open>The code\<close>

datatype Pin1Retention = Pin1Retention_Reusable | Pin1Retention_OneShot

datatype PreviouslyRejectedPin = PreviouslyRejectedPin (prp_slot: PinSlot)

record HeldPin1 =
  held_serial :: TokenSerial
  held_pin :: PinBytes
  held_generation :: "64 word"
  held_retention :: Pin1Retention

datatype CheckedOutPin1 = CheckedOutPin1 (checked_entry: HeldPin1)

record PinSafetyCache =
  held_pin1 :: "HeldPin1 option"
  generation :: "64 word"
  fingerprint_key :: bytes
  rejected_pin1 :: "bytes list"
  rejected_pin2 :: "bytes list"

type_synonym hmac = "bytes \<Rightarrow> bytes \<Rightarrow> bytes option"

definition CheckedOutPin1_pin :: "CheckedOutPin1 \<Rightarrow> PinBytes" where
  "CheckedOutPin1_pin c = held_pin (checked_entry c)"

definition CheckedOutPin1_restore :: "CheckedOutPin1 \<Rightarrow> PinSafetyCache \<Rightarrow> PinSafetyCache" where
  "CheckedOutPin1_restore self cache =
     (if generation cache \<noteq> held_generation (checked_entry self) \<or> held_pin1 cache \<noteq> None then cache
      else cache\<lparr>held_pin1 := Some (checked_entry self)\<rparr>)"

definition restore_after_success :: "CheckedOutPin1 \<Rightarrow> PinSafetyCache \<Rightarrow> PinSafetyCache" where
  "restore_after_success self cache =
     (if held_retention (checked_entry self) = Pin1Retention_OneShot then cache
      else CheckedOutPin1_restore self cache)"

definition restore_after_unanswered :: "CheckedOutPin1 \<Rightarrow> PinSafetyCache \<Rightarrow> PinSafetyCache" where
  "restore_after_unanswered self cache = CheckedOutPin1_restore self cache"

text \<open>\<open>random\<close> is the result of the operating system's random source.\<close>

definition PinSafetyCache_new :: "'f + bytes \<Rightarrow> 'f + PinSafetyCache" where
  "PinSafetyCache_new random =
     bindR random (\<lambda>key. Inr \<lparr>held_pin1 = None, generation = 0, fingerprint_key = key,
       rejected_pin1 = [], rejected_pin2 = []\<rparr>)"

definition clear_positive :: "PinSafetyCache \<Rightarrow> PinSafetyCache" where
  "clear_positive cache = cache\<lparr>held_pin1 := None, generation := generation cache + 1\<rparr>"

definition has_positive_pin1 :: "PinSafetyCache \<Rightarrow> bool" where
  "has_positive_pin1 cache \<longleftrightarrow> held_pin1 cache \<noteq> None"

fun slot_tag :: "PinSlot \<Rightarrow> u8" where
  "slot_tag PinSlot_Pin1 = 1"
| "slot_tag PinSlot_Pin2 = 2"

definition fingerprint_message :: "TokenSerial \<Rightarrow> PinSlot \<Rightarrow> PinBytes \<Rightarrow> bytes" where
  "fingerprint_message serial slot pin =
     u32_to_be_bytes (of_nat (length (TokenSerial_as_str serial))) @ TokenSerial_as_str serial @
     [slot_tag slot] @ [of_nat (PinBytes_digit_count pin)] @ PinBytes_as_bytes pin"

definition fingerprint :: "hmac \<Rightarrow> PinSafetyCache \<Rightarrow> TokenSerial \<Rightarrow> PinSlot \<Rightarrow> PinBytes \<Rightarrow> bytes" where
  "fingerprint hmac cache serial slot pin =
     (if PinBytes_digit_count pin > 255 then replicate 32 0
      else if length (TokenSerial_as_str serial) \<ge> 2 ^ 32 then replicate 32 0
      else case hmac (fingerprint_key cache) (fingerprint_message serial slot pin) of
             None \<Rightarrow> replicate 32 0
           | Some tag \<Rightarrow> tag)"

fun rejected :: "PinSafetyCache \<Rightarrow> PinSlot \<Rightarrow> bytes list" where
  "rejected cache PinSlot_Pin1 = rejected_pin1 cache"
| "rejected cache PinSlot_Pin2 = rejected_pin2 cache"

fun set_rejected :: "PinSafetyCache \<Rightarrow> PinSlot \<Rightarrow> bytes list \<Rightarrow> PinSafetyCache" where
  "set_rejected cache PinSlot_Pin1 l = cache\<lparr>rejected_pin1 := l\<rparr>"
| "set_rejected cache PinSlot_Pin2 l = cache\<lparr>rejected_pin2 := l\<rparr>"

definition is_rejected :: "hmac \<Rightarrow> PinSafetyCache \<Rightarrow> TokenSerial \<Rightarrow> PinSlot \<Rightarrow> PinBytes \<Rightarrow> bool" where
  "is_rejected hmac cache serial slot pin \<longleftrightarrow>
     list_ex (\<lambda>known. known = fingerprint hmac cache serial slot pin) (rejected cache slot)"

definition record_rejected :: "hmac \<Rightarrow> PinSafetyCache \<Rightarrow> TokenSerial \<Rightarrow> PinSlot \<Rightarrow> PinBytes \<Rightarrow> PinSafetyCache" where
  "record_rejected hmac cache serial slot pin =
     (let cache = clear_positive cache;
          mark = fingerprint hmac cache serial slot pin
      in if \<not> list_ex (\<lambda>known. known = mark) (rejected cache slot)
         then set_rejected cache slot (rejected cache slot @ [mark])
         else cache)"

definition hold_pin1 ::
  "hmac \<Rightarrow> PinSafetyCache \<Rightarrow> TokenSerial \<Rightarrow> PinBytes \<Rightarrow> Pin1Retention \<Rightarrow>
     (PreviouslyRejectedPin + unit) \<times> PinSafetyCache" where
  "hold_pin1 hmac cache serial pin retention =
     (if is_rejected hmac cache serial PinSlot_Pin1 pin
      then (Inl (PreviouslyRejectedPin PinSlot_Pin1), cache)
      else let cache = clear_positive cache
           in (Inr (), cache\<lparr>held_pin1 := Some \<lparr>held_serial = serial, held_pin = pin,
                 held_generation = generation cache, held_retention = retention\<rparr>\<rparr>))"

definition store_pin1 ::
  "hmac \<Rightarrow> PinSafetyCache \<Rightarrow> TokenSerial \<Rightarrow> PinBytes \<Rightarrow> (PreviouslyRejectedPin + unit) \<times> PinSafetyCache" where
  "store_pin1 hmac cache serial pin = hold_pin1 hmac cache serial pin Pin1Retention_Reusable"

definition stage_pin1_once ::
  "hmac \<Rightarrow> PinSafetyCache \<Rightarrow> TokenSerial \<Rightarrow> PinBytes \<Rightarrow> (PreviouslyRejectedPin + unit) \<times> PinSafetyCache" where
  "stage_pin1_once hmac cache serial pin = hold_pin1 hmac cache serial pin Pin1Retention_OneShot"

definition permits_held_pin1 :: "PinStatus \<Rightarrow> bool" where
  "permits_held_pin1 live \<longleftrightarrow>
     (case live of PinStatus_Verified \<Rightarrow> True | _ \<Rightarrow> False) \<or> pin1_status_permits_reusable_cache live"

definition checkout_pin1 ::
  "PinSafetyCache \<Rightarrow> TokenSerial \<Rightarrow> PinStatus \<Rightarrow> CheckedOutPin1 option \<times> PinSafetyCache" where
  "checkout_pin1 cache live_serial live_status =
     (case held_pin1 cache of
        None \<Rightarrow> (None, cache)
      | Some entry \<Rightarrow>
          let cache = cache\<lparr>held_pin1 := None\<rparr>
          in if held_serial entry = live_serial \<and> permits_held_pin1 live_status
             then (Some (CheckedOutPin1 entry), cache)
             else (None, clear_positive cache))"


section \<open>The life of a cache\<close>

record cache_state =
  st_cache :: PinSafetyCache
  in_flight :: "CheckedOutPin1 list"

inductive cache_step :: "hmac \<Rightarrow> cache_state \<Rightarrow> cache_state \<Rightarrow> bool" for hmac where
  store: "cache_step hmac st (st\<lparr>st_cache := snd (store_pin1 hmac (st_cache st) serial pin)\<rparr>)"
| stage: "cache_step hmac st (st\<lparr>st_cache := snd (stage_pin1_once hmac (st_cache st) serial pin)\<rparr>)"
| checkout: "checkout_pin1 (st_cache st) serial status = (got, cache) \<Longrightarrow>
    cache_step hmac st (st\<lparr>st_cache := cache,
      in_flight := (case got of Some c \<Rightarrow> c # in_flight st | None \<Rightarrow> in_flight st)\<rparr>)"
| restored_success: "in_flight st = before @ c # after \<Longrightarrow>
    cache_step hmac st (st\<lparr>st_cache := restore_after_success c (st_cache st), in_flight := before @ after\<rparr>)"
| restored_unanswered: "in_flight st = before @ c # after \<Longrightarrow>
    cache_step hmac st (st\<lparr>st_cache := restore_after_unanswered c (st_cache st), in_flight := before @ after\<rparr>)"
| dropped: "in_flight st = before @ c # after \<Longrightarrow>
    cache_step hmac st (st\<lparr>in_flight := before @ after\<rparr>)"
| cleared: "cache_step hmac st (st\<lparr>st_cache := clear_positive (st_cache st)\<rparr>)"
| recorded: "cache_step hmac st (st\<lparr>st_cache := record_rejected hmac (st_cache st) serial slot pin\<rparr>)"

inductive_cases cache_stepE: "cache_step hmac st st'"

text \<open>A run of a given number of steps from a fresh cache.\<close>

inductive cache_run :: "hmac \<Rightarrow> bytes \<Rightarrow> nat \<Rightarrow> cache_state \<Rightarrow> bool" for hmac key where
  fresh: "PinSafetyCache_new (Inr key :: unit + bytes) = Inr cache \<Longrightarrow>
    cache_run hmac key 0 \<lparr>st_cache = cache, in_flight = []\<rparr>"
| step: "cache_run hmac key n st \<Longrightarrow> cache_step hmac st st' \<Longrightarrow> cache_run hmac key (Suc n) st'"

text \<open>Every entry that may still come back is of a generation not after the cache's; the ones of
  the cache's own generation were never rejected.\<close>

definition cache_inv :: "hmac \<Rightarrow> nat \<Rightarrow> cache_state \<Rightarrow> bool" where
  "cache_inv hmac n st \<longleftrightarrow>
     unat (generation (st_cache st)) \<le> n \<and>
     (\<forall>e. held_pin1 (st_cache st) = Some e \<or> CheckedOutPin1 e \<in> set (in_flight st) \<longrightarrow>
        held_generation e \<le> generation (st_cache st) \<and>
        (held_generation e = generation (st_cache st) \<longrightarrow>
           \<not> is_rejected hmac (st_cache st) (held_serial e) PinSlot_Pin1 (held_pin e))) \<and>
     (\<forall>e. held_pin1 (st_cache st) = Some e \<longrightarrow> held_generation e = generation (st_cache st))"

lemma fingerprint_cong: "fingerprint_key c = fingerprint_key d \<Longrightarrow> fingerprint hmac c s sl p = fingerprint hmac d s sl p"
  by (simp add: fingerprint_def)

lemma set_rejected_simps [simp]:
  "fingerprint_key (set_rejected c slot l) = fingerprint_key c"
  "generation (set_rejected c slot l) = generation c"
  "held_pin1 (set_rejected c slot l) = held_pin1 c"
  "rejected (set_rejected c slot l) slot' = (if slot' = slot then l else rejected c slot')"
  by (cases slot; cases slot'; simp)+

lemma clear_positive_simps [simp]:
  "held_pin1 (clear_positive c) = None"
  "generation (clear_positive c) = generation c + 1"
  "fingerprint_key (clear_positive c) = fingerprint_key c"
  "rejected (clear_positive c) slot = rejected c slot"
  by (cases slot; simp add: clear_positive_def)+

lemma is_rejected_cong:
  "fingerprint_key c = fingerprint_key d \<Longrightarrow> rejected c slot = rejected d slot \<Longrightarrow>
     is_rejected hmac c s slot p \<longleftrightarrow> is_rejected hmac d s slot p"
  using fingerprint_cong [of c d] by (simp add: is_rejected_def)


lemma generation_Suc:
  assumes "unat (g :: 64 word) \<le> n" "n < 2 ^ 64 - 1"
  shows "unat (g + 1) = unat g + 1" "h \<le> g \<Longrightarrow> h < g + 1"
proof -
  have "unat g + 1 < 2 ^ LENGTH(64)" using assms by simp
  then show u: "unat (g + 1) = unat g + 1" using unat_add_lem [of g 1] by simp
  show "h \<le> g \<Longrightarrow> h < g + 1" using u by (simp add: word_le_nat_alt word_less_nat_alt)
qed

text \<open>After an invalidation no entry of the state is of the cache's generation.\<close>

lemma inv_cleared:
  assumes "cache_inv hmac n st" "n < 2 ^ 64 - 1"
    and "generation cache = generation (st_cache st) + 1" "held_pin1 cache = None"
  shows "cache_inv hmac (Suc n) (st\<lparr>st_cache := cache\<rparr>)"
  using assms generation_Suc [of "generation (st_cache st)" n]
  by (auto simp: cache_inv_def less_imp_le dest: order.strict_implies_not_eq)


lemma inv_weaken:
  "cache_inv hmac n st \<Longrightarrow> set (in_flight st') \<subseteq> set (in_flight st) \<Longrightarrow> st_cache st' = st_cache st \<Longrightarrow>
     cache_inv hmac (Suc n) st'"
  by (auto simp: cache_inv_def)

lemma inv_hold:
  assumes inv: "cache_inv hmac n st" and n: "n < 2 ^ 64 - 1"
  shows "cache_inv hmac (Suc n) (st\<lparr>st_cache := snd (hold_pin1 hmac (st_cache st) serial pin retention)\<rparr>)"
proof (cases "is_rejected hmac (st_cache st) serial PinSlot_Pin1 pin")
  case True
  then show ?thesis using inv by (simp add: hold_pin1_def inv_weaken)
next
  case False
  define cache where "cache = clear_positive (st_cache st)"
  define entry where "entry = \<lparr>held_serial = serial, held_pin = pin, held_generation = generation cache, held_retention = retention\<rparr>"
  have "cache_inv hmac (Suc n) (st\<lparr>st_cache := cache\<rparr>)"
    unfolding cache_def by (rule inv_cleared [OF inv n]) simp_all
  moreover have "\<not> is_rejected hmac (cache\<lparr>held_pin1 := Some entry\<rparr>) serial PinSlot_Pin1 pin"
    using False is_rejected_cong [of "cache\<lparr>held_pin1 := Some entry\<rparr>" "st_cache st" PinSlot_Pin1 hmac serial pin]
    by (simp add: cache_def clear_positive_def)
  moreover have "is_rejected hmac (cache\<lparr>held_pin1 := Some entry\<rparr>) s PinSlot_Pin1 p =
      is_rejected hmac cache s PinSlot_Pin1 p" for s p
    by (rule is_rejected_cong) simp_all
  moreover have "snd (hold_pin1 hmac (st_cache st) serial pin retention) = cache\<lparr>held_pin1 := Some entry\<rparr>"
    using False by (simp add: hold_pin1_def Let_def cache_def entry_def)
  ultimately show ?thesis by (auto simp: cache_inv_def entry_def)
qed

lemma inv_checkout:
  assumes inv: "cache_inv hmac n st" and n: "n < 2 ^ 64 - 1"
    and co: "checkout_pin1 (st_cache st) serial status = (got, cache)"
  shows "cache_inv hmac (Suc n) (st\<lparr>st_cache := cache,
    in_flight := (case got of Some c \<Rightarrow> c # in_flight st | None \<Rightarrow> in_flight st)\<rparr>)"
proof (cases "held_pin1 (st_cache st)")
  case None
  then show ?thesis using inv co by (auto simp: checkout_pin1_def intro: inv_weaken)
next
  case (Some entry)
  let ?open = "st_cache st\<lparr>held_pin1 := None\<rparr>"
  have rej: "is_rejected hmac ?open s PinSlot_Pin1 p = is_rejected hmac (st_cache st) s PinSlot_Pin1 p" for s p
    by (rule is_rejected_cong) simp_all
  show ?thesis
  proof (cases "held_serial entry = serial \<and> permits_held_pin1 status")
    case True
    then have "got = Some (CheckedOutPin1 entry)" "cache = ?open"
      using Some co by (auto simp: checkout_pin1_def Let_def)
    then show ?thesis using inv Some by (auto simp: cache_inv_def rej)
  next
    case False
    then have "got = None" "cache = clear_positive ?open"
      using Some co by (auto simp: checkout_pin1_def Let_def)
    then show ?thesis using inv_cleared [OF inv n, of cache] by simp
  qed
qed

lemma inv_drop:
  "cache_inv hmac n st \<Longrightarrow> in_flight st = before @ c # after \<Longrightarrow>
     cache_inv hmac (Suc n) (st\<lparr>in_flight := before @ after\<rparr>)"
  by (rule inv_weaken) auto

lemma inv_restore:
  assumes inv: "cache_inv hmac n st" and fl: "in_flight st = before @ c # after"
  shows "cache_inv hmac (Suc n) (st\<lparr>st_cache := CheckedOutPin1_restore c (st_cache st), in_flight := before @ after\<rparr>)"
proof (cases "generation (st_cache st) = held_generation (checked_entry c) \<and> held_pin1 (st_cache st) = None")
  case True
  let ?held = "st_cache st\<lparr>held_pin1 := Some (checked_entry c)\<rparr>"
  have "is_rejected hmac ?held s PinSlot_Pin1 p = is_rejected hmac (st_cache st) s PinSlot_Pin1 p" for s p
    by (rule is_rejected_cong) simp_all
  moreover have "CheckedOutPin1 (checked_entry c) \<in> set (in_flight st)" using fl by simp
  ultimately show ?thesis using inv True fl
    by (auto simp: cache_inv_def CheckedOutPin1_restore_def)
next
  case False
  then show ?thesis using inv_drop [OF inv fl] by (auto simp: CheckedOutPin1_restore_def)
qed

lemma cache_step_inv:
  assumes "cache_step hmac st st'" "cache_inv hmac n st" "n < 2 ^ 64 - 1"
  shows "cache_inv hmac (Suc n) st'"
  using assms
proof (induction rule: cache_step.induct)
  case (restored_success st before c after)
  then show ?case
    using inv_drop [OF restored_success(2,1)] inv_restore [OF restored_success(2,1)]
    by (cases "held_retention (checked_entry c)") (simp_all add: restore_after_success_def)
next
  case (recorded st serial slot pin)
  show ?case by (rule inv_cleared [OF recorded]) (simp_all add: record_rejected_def Let_def)
qed (auto simp: store_pin1_def stage_pin1_once_def restore_after_unanswered_def
    intro: inv_hold inv_checkout inv_restore inv_cleared inv_drop)

lemma cache_run_inv:
  "cache_run hmac key n st \<Longrightarrow> n < 2 ^ 64 \<Longrightarrow> cache_inv hmac n st"
proof (induction rule: cache_run.induct)
  case (fresh cache)
  then show ?case by (auto simp: cache_inv_def PinSafetyCache_new_def)
qed (auto intro: cache_step_inv)



subsection \<open>The memory of rejections only grows\<close>

definition remembers :: "PinSafetyCache \<Rightarrow> PinSafetyCache \<Rightarrow> bool" where
  "remembers c d \<longleftrightarrow> fingerprint_key d = fingerprint_key c \<and> (\<forall>slot. set (rejected c slot) \<subseteq> set (rejected d slot))"

lemma remembers_rejected: "remembers c d \<Longrightarrow> is_rejected hmac c s slot p \<Longrightarrow> is_rejected hmac d s slot p"
  using fingerprint_cong [of d c hmac s slot p] by (auto simp: remembers_def is_rejected_def list_ex_iff)

lemma remembers_same:
  "fingerprint_key d = fingerprint_key c \<Longrightarrow> rejected_pin1 d = rejected_pin1 c \<Longrightarrow> rejected_pin2 d = rejected_pin2 c \<Longrightarrow>
     remembers c d"
proof -
  assume "fingerprint_key d = fingerprint_key c" "rejected_pin1 d = rejected_pin1 c" "rejected_pin2 d = rejected_pin2 c"
  then have "rejected d slot = rejected c slot" for slot by (cases slot) simp_all
  then show ?thesis using \<open>fingerprint_key d = fingerprint_key c\<close> by (simp add: remembers_def)
qed

lemma remembers_trans: "remembers a b \<Longrightarrow> remembers b c \<Longrightarrow> remembers a c"
  unfolding remembers_def by auto

lemma cache_step_remembers: "cache_step hmac st st' \<Longrightarrow> remembers (st_cache st) (st_cache st')"
proof (induction rule: cache_step.induct)
  case (checkout st serial status got cache)
  then show ?case
    by (auto simp: checkout_pin1_def clear_positive_def Let_def split: option.splits if_splits intro!: remembers_same)
next
  case (recorded st serial slot pin)
  show ?case by (auto simp: record_rejected_def Let_def remembers_def)
qed (auto simp: store_pin1_def stage_pin1_once_def hold_pin1_def clear_positive_def restore_after_success_def
    restore_after_unanswered_def CheckedOutPin1_restore_def Let_def intro!: remembers_same)

lemma record_rejected_iff:
  "is_rejected hmac (record_rejected hmac c s slot p) s' slot' p' \<longleftrightarrow>
     is_rejected hmac c s' slot' p' \<or> slot' = slot \<and> fingerprint hmac c s' slot' p' = fingerprint hmac c s slot p"
proof -
  have key: "fingerprint hmac (record_rejected hmac c s slot p) s' slot' p' = fingerprint hmac c s' slot' p'"
    "fingerprint hmac (clear_positive c) s slot p = fingerprint hmac c s slot p"
    by (rule fingerprint_cong, simp add: record_rejected_def Let_def)+
  show ?thesis
    unfolding is_rejected_def key by (auto simp: record_rejected_def Let_def key list_ex_iff)
qed

lemma record_rejected_is_rejected: "is_rejected hmac (record_rejected hmac c s slot p) s slot p"
  by (simp add: record_rejected_iff)


subsection \<open>Framing of the fingerprint\<close>

lemma fingerprint_message_injective:
  assumes eq: "fingerprint_message s slot p = fingerprint_message s' slot' p'"
    and len: "length (TokenSerial_as_str s) < 2 ^ 32" "length (TokenSerial_as_str s') < 2 ^ 32"
  shows "s = s' \<and> slot = slot' \<and> PinBytes_as_bytes p = PinBytes_as_bytes p'"
proof -
  let ?l = "\<lambda>s. of_nat (length (TokenSerial_as_str s)) :: u32"
  have l: "length (u32_to_be_bytes (?l s)) = length (u32_to_be_bytes (?l s'))" by simp
  have head: "u32_to_be_bytes (?l s) = u32_to_be_bytes (?l s')"
    using eq l unfolding fingerprint_message_def append_eq_append_conv [OF disjI1 [OF l]] by (simp only:)
  then have "be_fold (u32_to_be_bytes (?l s)) = be_fold (u32_to_be_bytes (?l s'))" by simp
  then have "unat (?l s) = unat (?l s')" by (simp add: be_fold_u32)
  then have same: "length (TokenSerial_as_str s) = length (TokenSerial_as_str s')"
    using len by (simp add: unsigned_of_nat take_bit_eq_mod)
  then have "TokenSerial_as_str s = TokenSerial_as_str s' \<and> slot_tag slot = slot_tag slot' \<and>
      PinBytes_as_bytes p = PinBytes_as_bytes p'"
    using eq head by (simp add: fingerprint_message_def)
  then show ?thesis by (cases s; cases s'; cases slot; cases slot') auto
qed


section \<open>Properties\<close>

text \<open>
  (C10) A rejected PIN is never handed out: in a life of fewer than \<open>2\<^sup>6\<^sup>4\<close> operations, with any
  interleaving of stores, checkouts in flight, restores and invalidations, a checkout delivers PIN 1
  only for the live card's own serial, only when the card holds PIN 1 verified or at five tries, and
  never a value recorded as rejected for that card, however late a checkout comes back.
\<close>

theorem rejected_pin_never_checked_out:
  assumes "cache_run hmac key n st" "n < 2 ^ 64"
    and "checkout_pin1 (st_cache st) serial status = (Some c, cache')"
  shows "\<not> is_rejected hmac (st_cache st) serial PinSlot_Pin1 (CheckedOutPin1_pin c) \<and>
    held_serial (checked_entry c) = serial \<and>
    status \<in> {PinStatus_Verified, PinStatus_Remaining (PinRetries 5)}"
proof -
  have inv: "cache_inv hmac n st" using assms(1,2) by (rule cache_run_inv)
  obtain e where e: "held_pin1 (st_cache st) = Some e" "c = CheckedOutPin1 e" "held_serial e = serial" "permits_held_pin1 status"
    using assms(3) by (auto simp: checkout_pin1_def Let_def split: option.splits if_splits)
  then have "\<not> is_rejected hmac (st_cache st) serial PinSlot_Pin1 (held_pin e)"
    using inv by (auto simp: cache_inv_def)
  moreover have "status \<in> {PinStatus_Verified, PinStatus_Remaining (PinRetries 5)}"
    using e(4) cache_status_pristine by (auto simp: permits_held_pin1_def split: PinStatus.splits)
  ultimately show ?thesis using e by (simp add: CheckedOutPin1_pin_def)
qed

text \<open>A PIN is stored and checked out again at a pristine counter.\<close>

theorem rejected_pin_never_checked_out_witness:
  "\<not> is_rejected (\<lambda>k m. Some m) (snd (store_pin1 (\<lambda>k m. Some m)
       \<lparr>held_pin1 = None, generation = 0, fingerprint_key = [7], rejected_pin1 = [], rejected_pin2 = []\<rparr>
       (TokenSerial [0x41]) \<lparr>pin_storage = [0x31, 0x32, 0x33, 0x34], pin_length = 4\<rparr>))
     (TokenSerial [0x41]) PinSlot_Pin1 \<lparr>pin_storage = [0x31, 0x32, 0x33, 0x34], pin_length = 4\<rparr>"
proof -
  let ?h = "\<lambda>(k :: bytes) m. Some m"
  let ?c0 = "\<lparr>held_pin1 = None, generation = 0, fingerprint_key = [7], rejected_pin1 = [], rejected_pin2 = []\<rparr> :: PinSafetyCache"
  let ?pin = "\<lparr>pin_storage = [0x31, 0x32, 0x33, 0x34], pin_length = 4\<rparr> :: PinBytes"
  let ?c1 = "snd (store_pin1 ?h ?c0 (TokenSerial [0x41]) ?pin)"
  have "cache_run ?h [7] 0 \<lparr>st_cache = ?c0, in_flight = []\<rparr>"
    by (rule fresh) (simp add: PinSafetyCache_new_def)
  then have run: "cache_run ?h [7] (Suc 0) \<lparr>st_cache = ?c1, in_flight = []\<rparr>"
    using step [OF _ store [of ?h "\<lparr>st_cache = ?c0, in_flight = []\<rparr>" "TokenSerial [0x41]" ?pin]] by simp
  have "checkout_pin1 ?c1 (TokenSerial [0x41]) (PinStatus_Remaining (PinRetries 5)) =
      (Some (CheckedOutPin1 \<lparr>held_serial = TokenSerial [0x41], held_pin = ?pin, held_generation = 1,
         held_retention = Pin1Retention_Reusable\<rparr>), ?c1\<lparr>held_pin1 := None\<rparr>)"
    by (simp add: checkout_pin1_def store_pin1_def hold_pin1_def is_rejected_def clear_positive_def
        permits_held_pin1_def pin1_status_permits_reusable_cache_def PinRetryRisk_from_retries_def
        retries_defs permits_reusable_cache_def Let_def)
  then show ?thesis
    using rejected_pin_never_checked_out [OF run, of "TokenSerial [0x41]" "PinStatus_Remaining (PinRetries 5)"]
    by (simp add: CheckedOutPin1_pin_def)
qed

text \<open>
  A rejection is remembered for the rest of the process: once recorded, a value is rejected
  after any further operations on the cache, and storing it again as PIN 1 is refused.
\<close>

theorem rejection_is_remembered:
  assumes "(cache_step hmac)\<^sup>*\<^sup>* (st\<lparr>st_cache := record_rejected hmac (st_cache st) serial slot pin\<rparr>) st'"
  shows "is_rejected hmac (st_cache st') serial slot pin \<and>
    (slot = PinSlot_Pin1 \<longrightarrow> store_pin1 hmac (st_cache st') serial pin = (Inl (PreviouslyRejectedPin PinSlot_Pin1), st_cache st'))"
proof -
  have "is_rejected hmac (st_cache st') serial slot pin"
    using assms
    by (induction rule: rtranclp_induct)
      (auto simp: record_rejected_is_rejected dest: cache_step_remembers remembers_rejected)
  then show ?thesis by (auto simp: store_pin1_def hold_pin1_def)
qed

theorem rejection_is_remembered_witness:
  "is_rejected (\<lambda>k m. Some m) (clear_positive (record_rejected (\<lambda>k m. Some m)
       \<lparr>held_pin1 = None, generation = 0, fingerprint_key = [7], rejected_pin1 = [], rejected_pin2 = []\<rparr>
       (TokenSerial [0x41]) PinSlot_Pin1 \<lparr>pin_storage = [0x31, 0x32, 0x33, 0x34], pin_length = 4\<rparr>))
     (TokenSerial [0x41]) PinSlot_Pin1 \<lparr>pin_storage = [0x31, 0x32, 0x33, 0x34], pin_length = 4\<rparr>"
proof -
  let ?st = "\<lparr>st_cache = \<lparr>held_pin1 = None, generation = 0, fingerprint_key = [7], rejected_pin1 = [], rejected_pin2 = []\<rparr>,
      in_flight = []\<rparr> :: cache_state"
  let ?pin = "\<lparr>pin_storage = [0x31, 0x32, 0x33, 0x34], pin_length = 4\<rparr> :: PinBytes"
  let ?after = "?st\<lparr>st_cache := record_rejected (\<lambda>k m. Some m) (st_cache ?st) (TokenSerial [0x41]) PinSlot_Pin1 ?pin\<rparr>"
  have "(cache_step (\<lambda>k m. Some m))\<^sup>*\<^sup>* ?after (?after\<lparr>st_cache := clear_positive (st_cache ?after)\<rparr>)"
    by (rule r_into_rtranclp, rule cleared)
  from rejection_is_remembered [OF this] show ?thesis by simp
qed

text \<open>
  The rejection memory is exact: with tags that tell messages apart, recording one rejection
  makes exactly that card, slot and value rejected, and no other.
\<close>

theorem rejection_memory_exact:
  assumes "\<And>m. hmac (fingerprint_key cache) m \<noteq> None"
    and "\<And>m m'. hmac (fingerprint_key cache) m = hmac (fingerprint_key cache) m' \<Longrightarrow> m = m'"
    and "length (TokenSerial_as_str serial) < 2 ^ 32" "length (TokenSerial_as_str serial') < 2 ^ 32"
    and "PinBytes_new ds = Inr pin" "PinBytes_new ds' = Inr pin'"
  shows "is_rejected hmac (record_rejected hmac cache serial slot pin) serial' slot' pin' \<longleftrightarrow>
    is_rejected hmac cache serial' slot' pin' \<or> (serial', slot', ds') = (serial, slot, ds)"
proof -
  have small: "PinBytes_digit_count p \<le> 255" for p
    using unat_u8_less [of "pin_length p"] unfolding PinBytes_digit_count_def by linarith
  have tag: "hmac (fingerprint_key cache) (fingerprint_message s sl p) = Some (fingerprint hmac cache s sl p)"
    if "length (TokenSerial_as_str s) < 2 ^ 32" for s sl p
    using that small [of p] assms(1) [of "fingerprint_message s sl p"]
    by (cases "hmac (fingerprint_key cache) (fingerprint_message s sl p)") (simp_all add: fingerprint_def)
  have "fingerprint hmac cache serial' slot' pin' = fingerprint hmac cache serial slot pin \<longleftrightarrow>
      fingerprint_message serial' slot' pin' = fingerprint_message serial slot pin"
    using tag [OF assms(3), of slot pin] tag [OF assms(4), of slot' pin'] assms(2) by (metis option.inject)
  moreover have "fingerprint_message serial' slot' pin' = fingerprint_message serial slot pin \<Longrightarrow>
      serial' = serial \<and> slot' = slot \<and> ds' = ds"
    using fingerprint_message_injective [OF _ assms(4,3), of slot' pin' slot pin]
      PinBytes_new_Inr [OF assms(5)] PinBytes_new_Inr [OF assms(6)] by simp
  moreover have "ds' = ds \<Longrightarrow> pin' = pin" using assms(5,6) by simp
  ultimately show ?thesis unfolding record_rejected_iff by blast
qed

text \<open>PIN 1 \<open>1234\<close> rejected on one card leaves \<open>1235\<close> there.\<close>

theorem rejection_memory_exact_witness:
  "\<exists>pin pin'. PinBytes_new [0x31, 0x32, 0x33, 0x34] = Inr pin \<and> PinBytes_new [0x31, 0x32, 0x33, 0x35] = Inr pin' \<and>
     \<not> is_rejected (\<lambda>k m. Some m) (record_rejected (\<lambda>k m. Some m)
       \<lparr>held_pin1 = None, generation = 0, fingerprint_key = [7], rejected_pin1 = [], rejected_pin2 = []\<rparr>
       (TokenSerial [0x41]) PinSlot_Pin1 pin) (TokenSerial [0x41]) PinSlot_Pin1 pin'"
proof -
  have "digits_within 4 12 [0x31, 0x32, 0x33, 0x34]" "digits_within 4 12 [0x31, 0x32, 0x33, 0x35]"
    by (simp_all add: digits_within_def is_ascii_digit_def)
  then obtain pin pin' where "PinBytes_new [0x31, 0x32, 0x33, 0x34] = Inr pin" "PinBytes_new [0x31, 0x32, 0x33, 0x35] = Inr pin'"
    using pin_bytes.accepts_iff [of "[0x31, 0x32, 0x33, 0x34]"] pin_bytes.accepts_iff [of "[0x31, 0x32, 0x33, 0x35]"]
    by (auto simp: result_ok_Some)
  then show ?thesis
    using rejection_memory_exact [of "\<lambda>k m. Some m"
        "\<lparr>held_pin1 = None, generation = 0, fingerprint_key = [7], rejected_pin1 = [], rejected_pin2 = []\<rparr>"
        "TokenSerial [0x41]" "TokenSerial [0x41]" "[0x31, 0x32, 0x33, 0x34]" pin "[0x31, 0x32, 0x33, 0x35]" pin'
        PinSlot_Pin1 PinSlot_Pin1]
    by (auto simp: is_rejected_def)
qed

end
