(* ===== verification/Sign_Commands.thy ===== *)
theory Sign_Commands
  imports Apdu Pin_Commands
begin

text \<open>
  The command builders of the signing module (\<open>refineid-lib-core\<close>, \<open>sign/commands.rs\<close>, and the key
  references of \<open>sign.rs\<close>): algorithm references, MANAGE SECURITY ENVIRONMENT, and PERFORM SECURITY
  OPERATION for hashing, deciphering and signing. A builder whose length conversion ends in
  \<open>unreachable!\<close> returns \<open>None\<close> there.
\<close>

section \<open>The code\<close>

subsection \<open>Key references\<close>

definition KEY_REF_AUTH :: u8 where "KEY_REF_AUTH = 0x01"
definition KEY_REF_SIGN :: u8 where "KEY_REF_SIGN = 0x02"
definition ORG_QUALIFIED_KEY_REF :: u8 where "ORG_QUALIFIED_KEY_REF = 0x82"

datatype KeyRef = KeyRef_Auth | KeyRef_Sign PinReferenceScheme

fun KeyRef_as_u8 :: "KeyRef \<Rightarrow> u8" where
  "KeyRef_as_u8 KeyRef_Auth = KEY_REF_AUTH"
| "KeyRef_as_u8 (KeyRef_Sign PinReferenceScheme_Citizen) = KEY_REF_SIGN"
| "KeyRef_as_u8 (KeyRef_Sign PinReferenceScheme_Organizational) = ORG_QUALIFIED_KEY_REF"

definition signs_digest_inline :: "KeyRef \<Rightarrow> bool" where
  "signs_digest_inline k \<longleftrightarrow> (case k of KeyRef_Sign PinReferenceScheme_Organizational \<Rightarrow> True | _ \<Rightarrow> False)"


subsection \<open>Algorithm references\<close>

definition CRDO_TAG_ALG_REF :: u8 where "CRDO_TAG_ALG_REF = 0x80"
definition CRDO_TAG_KEY_REF :: u8 where "CRDO_TAG_KEY_REF = 0x84"
definition CRDO_VALUE_LEN_BYTE :: u8 where "CRDO_VALUE_LEN_BYTE = 0x01"

datatype HashAlgorithm =
    HashAlgorithm_None | HashAlgorithm_Sha1 | HashAlgorithm_Sha224 | HashAlgorithm_Sha256
  | HashAlgorithm_Sha384 | HashAlgorithm_Sha512

fun HashAlgorithm_high_nibble :: "HashAlgorithm \<Rightarrow> u8" where
  "HashAlgorithm_high_nibble HashAlgorithm_None = 0x0"
| "HashAlgorithm_high_nibble HashAlgorithm_Sha1 = 0x1"
| "HashAlgorithm_high_nibble HashAlgorithm_Sha224 = 0x3"
| "HashAlgorithm_high_nibble HashAlgorithm_Sha256 = 0x4"
| "HashAlgorithm_high_nibble HashAlgorithm_Sha384 = 0x5"
| "HashAlgorithm_high_nibble HashAlgorithm_Sha512 = 0x6"

datatype SignatureAlgorithm =
    SignatureAlgorithm_RsaIso9796V2 | SignatureAlgorithm_RsaPkcs1V1_5 | SignatureAlgorithm_RsaRfc2409
  | SignatureAlgorithm_Ecdsa | SignatureAlgorithm_RsaPss

fun SignatureAlgorithm_low_nibble :: "SignatureAlgorithm \<Rightarrow> u8" where
  "SignatureAlgorithm_low_nibble SignatureAlgorithm_RsaIso9796V2 = 0x1"
| "SignatureAlgorithm_low_nibble SignatureAlgorithm_RsaPkcs1V1_5 = 0x2"
| "SignatureAlgorithm_low_nibble SignatureAlgorithm_RsaRfc2409 = 0x3"
| "SignatureAlgorithm_low_nibble SignatureAlgorithm_Ecdsa = 0x4"
| "SignatureAlgorithm_low_nibble SignatureAlgorithm_RsaPss = 0x5"

datatype SignatureAlgRef = SignatureAlgRef (SignatureAlgRef_as_byte: u8)

definition SignatureAlgRef_from_parts :: "HashAlgorithm \<Rightarrow> SignatureAlgorithm \<Rightarrow> SignatureAlgRef" where
  "SignatureAlgRef_from_parts hash signature =
     SignatureAlgRef (push_bit 4 (HashAlgorithm_high_nibble hash) OR SignatureAlgorithm_low_nibble signature)"

definition SHA256_RSA_PKCS1_V1_5 :: SignatureAlgRef where
  "SHA256_RSA_PKCS1_V1_5 = SignatureAlgRef_from_parts HashAlgorithm_Sha256 SignatureAlgorithm_RsaPkcs1V1_5"
definition SHA384_ECDSA :: SignatureAlgRef where
  "SHA384_ECDSA = SignatureAlgRef_from_parts HashAlgorithm_Sha384 SignatureAlgorithm_Ecdsa"
definition SHA224_ECDSA :: SignatureAlgRef where
  "SHA224_ECDSA = SignatureAlgRef_from_parts HashAlgorithm_Sha224 SignatureAlgorithm_Ecdsa"
definition SHA256_ECDSA :: SignatureAlgRef where
  "SHA256_ECDSA = SignatureAlgRef_from_parts HashAlgorithm_Sha256 SignatureAlgorithm_Ecdsa"
definition RSA_PKCS1_RAW :: SignatureAlgRef where
  "RSA_PKCS1_RAW = SignatureAlgRef 0x40"

datatype DecipherAlgRef =
    DecipherAlgRef_RsassaPkcs1V1_5 | DecipherAlgRef_RsaesOaepSha1 | DecipherAlgRef_RsaesOaepSha224
  | DecipherAlgRef_RsaesOaepSha256 | DecipherAlgRef_RsaesOaepSha384 | DecipherAlgRef_RsaesOaepSha512

fun DecipherAlgRef_as_byte :: "DecipherAlgRef \<Rightarrow> u8" where
  "DecipherAlgRef_as_byte DecipherAlgRef_RsassaPkcs1V1_5 = 0x1A"
| "DecipherAlgRef_as_byte DecipherAlgRef_RsaesOaepSha1 = 0x1D"
| "DecipherAlgRef_as_byte DecipherAlgRef_RsaesOaepSha224 = 0x3D"
| "DecipherAlgRef_as_byte DecipherAlgRef_RsaesOaepSha256 = 0x4D"
| "DecipherAlgRef_as_byte DecipherAlgRef_RsaesOaepSha384 = 0x5D"
| "DecipherAlgRef_as_byte DecipherAlgRef_RsaesOaepSha512 = 0x6D"


subsection \<open>MANAGE SECURITY ENVIRONMENT\<close>

datatype MseSetTemplate =
    MseSetTemplate_Hashing SignatureAlgRef
  | MseSetTemplate_DigitalSignature SignatureAlgRef KeyRef
  | MseSetTemplate_Authentication SignatureAlgRef KeyRef
  | MseSetTemplate_DeciphermentRsa DecipherAlgRef KeyRef
  | MseSetTemplate_DeciphermentElc KeyRef

fun MseSetTemplate_p2 :: "MseSetTemplate \<Rightarrow> u8" where
  "MseSetTemplate_p2 (MseSetTemplate_Hashing _) = 0xAA"
| "MseSetTemplate_p2 (MseSetTemplate_DigitalSignature _ _) = 0xB6"
| "MseSetTemplate_p2 (MseSetTemplate_Authentication _ _) = 0xA4"
| "MseSetTemplate_p2 (MseSetTemplate_DeciphermentRsa _ _) = 0xB8"
| "MseSetTemplate_p2 (MseSetTemplate_DeciphermentElc _) = 0xB8"

record MseSet =
  mse_class :: ApduClass
  mse_template :: MseSetTemplate

definition MseSet_INS :: u8 where "MseSet_INS = 0x22"
definition MseSet_P1_SET :: u8 where "MseSet_P1_SET = 0x41"

fun mse_body :: "MseSetTemplate \<Rightarrow> u8 \<times> bytes" where
  "mse_body (MseSetTemplate_Hashing alg_ref) =
     (3, [CRDO_TAG_ALG_REF, CRDO_VALUE_LEN_BYTE, SignatureAlgRef_as_byte alg_ref])"
| "mse_body (MseSetTemplate_DigitalSignature alg_ref key_ref) =
     (6, [CRDO_TAG_ALG_REF, CRDO_VALUE_LEN_BYTE, SignatureAlgRef_as_byte alg_ref,
          CRDO_TAG_KEY_REF, CRDO_VALUE_LEN_BYTE, KeyRef_as_u8 key_ref])"
| "mse_body (MseSetTemplate_Authentication alg_ref key_ref) =
     (6, [CRDO_TAG_ALG_REF, CRDO_VALUE_LEN_BYTE, SignatureAlgRef_as_byte alg_ref,
          CRDO_TAG_KEY_REF, CRDO_VALUE_LEN_BYTE, KeyRef_as_u8 key_ref])"
| "mse_body (MseSetTemplate_DeciphermentRsa alg_ref key_ref) =
     (6, [CRDO_TAG_ALG_REF, CRDO_VALUE_LEN_BYTE, DecipherAlgRef_as_byte alg_ref,
          CRDO_TAG_KEY_REF, CRDO_VALUE_LEN_BYTE, KeyRef_as_u8 key_ref])"
| "mse_body (MseSetTemplate_DeciphermentElc key_ref) =
     (3, [CRDO_TAG_KEY_REF, CRDO_VALUE_LEN_BYTE, KeyRef_as_u8 key_ref])"

definition MseSet_into_apdu :: "MseSet \<Rightarrow> CommandApdu" where
  "MseSet_into_apdu c =
     (let (lc, body) = mse_body (mse_template c)
      in CommandApdu_new ([ApduClass_as_byte (mse_class c), MseSet_INS, MseSet_P1_SET,
           MseSetTemplate_p2 (mse_template c), lc] @ body))"


subsection \<open>PERFORM SECURITY OPERATION: HASH\<close>

definition PSO_HASH_TAG_HASH_VALUE :: u8 where "PSO_HASH_TAG_HASH_VALUE = 0x90"
definition PSO_HASH_TAG_FINAL_BLOCK :: u8 where "PSO_HASH_TAG_FINAL_BLOCK = 0x80"

text \<open>The fixed arrays of the source are lists; \<open>ExternalHashValue_wf\<close> and \<open>IntermediateHashState_wf\<close>
  state their lengths.\<close>

datatype ExternalHashValue =
    ExternalHashValue_Sha1 bytes | ExternalHashValue_Sha224 bytes | ExternalHashValue_Sha256 bytes
  | ExternalHashValue_Sha384 bytes | ExternalHashValue_Sha512 bytes

fun ExternalHashValue_as_bytes :: "ExternalHashValue \<Rightarrow> bytes" where
  "ExternalHashValue_as_bytes (ExternalHashValue_Sha1 b) = b"
| "ExternalHashValue_as_bytes (ExternalHashValue_Sha224 b) = b"
| "ExternalHashValue_as_bytes (ExternalHashValue_Sha256 b) = b"
| "ExternalHashValue_as_bytes (ExternalHashValue_Sha384 b) = b"
| "ExternalHashValue_as_bytes (ExternalHashValue_Sha512 b) = b"

fun ExternalHashValue_len_byte :: "ExternalHashValue \<Rightarrow> u8" where
  "ExternalHashValue_len_byte (ExternalHashValue_Sha1 _) = 20"
| "ExternalHashValue_len_byte (ExternalHashValue_Sha224 _) = 28"
| "ExternalHashValue_len_byte (ExternalHashValue_Sha256 _) = 32"
| "ExternalHashValue_len_byte (ExternalHashValue_Sha384 _) = 48"
| "ExternalHashValue_len_byte (ExternalHashValue_Sha512 _) = 64"

fun ExternalHashValue_hash_algorithm :: "ExternalHashValue \<Rightarrow> HashAlgorithm" where
  "ExternalHashValue_hash_algorithm (ExternalHashValue_Sha1 _) = HashAlgorithm_Sha1"
| "ExternalHashValue_hash_algorithm (ExternalHashValue_Sha224 _) = HashAlgorithm_Sha224"
| "ExternalHashValue_hash_algorithm (ExternalHashValue_Sha256 _) = HashAlgorithm_Sha256"
| "ExternalHashValue_hash_algorithm (ExternalHashValue_Sha384 _) = HashAlgorithm_Sha384"
| "ExternalHashValue_hash_algorithm (ExternalHashValue_Sha512 _) = HashAlgorithm_Sha512"

definition ExternalHashValue_wf :: "ExternalHashValue \<Rightarrow> bool" where
  "ExternalHashValue_wf h \<longleftrightarrow> length (ExternalHashValue_as_bytes h) =
     (case h of ExternalHashValue_Sha1 _ \<Rightarrow> 20 | ExternalHashValue_Sha224 _ \<Rightarrow> 28
      | ExternalHashValue_Sha256 _ \<Rightarrow> 32 | ExternalHashValue_Sha384 _ \<Rightarrow> 48 | ExternalHashValue_Sha512 _ \<Rightarrow> 64)"

datatype IntermediateHashState =
    IntermediateHashState_Sha1 (ihs_intermediate: bytes) (ihs_counter: bytes)
  | IntermediateHashState_Sha224 (ihs_intermediate: bytes) (ihs_counter: bytes)
  | IntermediateHashState_Sha256 (ihs_intermediate: bytes) (ihs_counter: bytes)
  | IntermediateHashState_Sha384Counter8 (ihs_intermediate: bytes) (ihs_counter: bytes)
  | IntermediateHashState_Sha384Counter16 (ihs_intermediate: bytes) (ihs_counter: bytes)
  | IntermediateHashState_Sha512Counter8 (ihs_intermediate: bytes) (ihs_counter: bytes)
  | IntermediateHashState_Sha512Counter16 (ihs_intermediate: bytes) (ihs_counter: bytes)

fun IntermediateHashState_xx_byte :: "IntermediateHashState \<Rightarrow> u8" where
  "IntermediateHashState_xx_byte (IntermediateHashState_Sha1 _ _) = 0x1C"
| "IntermediateHashState_xx_byte (IntermediateHashState_Sha224 _ _) = 0x28"
| "IntermediateHashState_xx_byte (IntermediateHashState_Sha256 _ _) = 0x28"
| "IntermediateHashState_xx_byte (IntermediateHashState_Sha384Counter8 _ _) = 0x48"
| "IntermediateHashState_xx_byte (IntermediateHashState_Sha512Counter8 _ _) = 0x48"
| "IntermediateHashState_xx_byte (IntermediateHashState_Sha384Counter16 _ _) = 0x50"
| "IntermediateHashState_xx_byte (IntermediateHashState_Sha512Counter16 _ _) = 0x50"

definition IntermediateHashState_extend_into :: "IntermediateHashState \<Rightarrow> bytes \<Rightarrow> bytes" where
  "IntermediateHashState_extend_into st out = out @ ihs_intermediate st @ ihs_counter st"

definition IntermediateHashState_wf :: "IntermediateHashState \<Rightarrow> bool" where
  "IntermediateHashState_wf st \<longleftrightarrow> (length (ihs_intermediate st), length (ihs_counter st)) =
     (case st of IntermediateHashState_Sha1 _ _ \<Rightarrow> (20, 8)
      | IntermediateHashState_Sha224 _ _ \<Rightarrow> (32, 8) | IntermediateHashState_Sha256 _ _ \<Rightarrow> (32, 8)
      | IntermediateHashState_Sha384Counter8 _ _ \<Rightarrow> (64, 8) | IntermediateHashState_Sha384Counter16 _ _ \<Rightarrow> (64, 16)
      | IntermediateHashState_Sha512Counter8 _ _ \<Rightarrow> (64, 8) | IntermediateHashState_Sha512Counter16 _ _ \<Rightarrow> (64, 16))"

datatype HashBlock = HashBlock (HashBlock_as_bytes: bytes)
datatype HashBlockError = HashBlockError_Overlength nat

definition HASH_BLOCK_MAX_LEN :: nat where "HASH_BLOCK_MAX_LEN = 128"
definition HASH_BLOCK_MAX_LEN_U8 :: u8 where "HASH_BLOCK_MAX_LEN_U8 = 128"

definition HashBlock_new :: "bytes \<Rightarrow> HashBlockError + HashBlock" where
  "HashBlock_new bs =
     (if length bs > HASH_BLOCK_MAX_LEN then Inl (HashBlockError_Overlength (length bs)) else Inr (HashBlock bs))"

definition HashBlock_len_byte :: "HashBlock \<Rightarrow> u8" where
  "HashBlock_len_byte b =
     (case u8_try_from (length (HashBlock_as_bytes b)) of Some n \<Rightarrow> n | None \<Rightarrow> HASH_BLOCK_MAX_LEN_U8)"

datatype PsoHashMode =
    PsoHashMode_EntirelyByCardBlock HashBlock
  | PsoHashMode_EntirelyByCardFinal HashBlock
  | PsoHashMode_PartiallyByCard IntermediateHashState HashBlock
  | PsoHashMode_External ExternalHashValue

fun PsoHashMode_p2 :: "PsoHashMode \<Rightarrow> u8" where
  "PsoHashMode_p2 (PsoHashMode_EntirelyByCardBlock _) = 0x80"
| "PsoHashMode_p2 (PsoHashMode_EntirelyByCardFinal _) = 0xA0"
| "PsoHashMode_p2 (PsoHashMode_PartiallyByCard _ _) = 0xA0"
| "PsoHashMode_p2 (PsoHashMode_External _) = 0xA0"

record PsoHash =
  psoh_class :: ApduClass
  psoh_mode :: PsoHashMode

definition PsoHash_INS :: u8 where "PsoHash_INS = 0x2A"
definition PsoHash_P1 :: u8 where "PsoHash_P1 = 0x90"

fun pso_hash_body :: "PsoHashMode \<Rightarrow> bytes" where
  "pso_hash_body (PsoHashMode_EntirelyByCardBlock block) = HashBlock_as_bytes block"
| "pso_hash_body (PsoHashMode_EntirelyByCardFinal final_block) =
     [PSO_HASH_TAG_FINAL_BLOCK, HashBlock_len_byte final_block] @ HashBlock_as_bytes final_block"
| "pso_hash_body (PsoHashMode_PartiallyByCard st final_block) =
     IntermediateHashState_extend_into st [PSO_HASH_TAG_HASH_VALUE, IntermediateHashState_xx_byte st] @
     [PSO_HASH_TAG_FINAL_BLOCK, HashBlock_len_byte final_block] @ HashBlock_as_bytes final_block"
| "pso_hash_body (PsoHashMode_External hash) =
     [PSO_HASH_TAG_HASH_VALUE, ExternalHashValue_len_byte hash] @ ExternalHashValue_as_bytes hash"

definition PsoHash_into_apdu :: "PsoHash \<Rightarrow> CommandApdu option" where
  "PsoHash_into_apdu c =
     (let body = pso_hash_body (psoh_mode c)
      in case u8_try_from (length body) of
           None \<Rightarrow> None
         | Some lc \<Rightarrow> Some (CommandApdu_new ([ApduClass_as_byte (psoh_class c), PsoHash_INS, PsoHash_P1,
             PsoHashMode_p2 (psoh_mode c), lc] @ body)))"


subsection \<open>PERFORM SECURITY OPERATION: DECIPHER and COMPUTE DIGITAL SIGNATURE\<close>

record PsoDecipher =
  psod_body :: bytes
  psod_chain :: bool

definition PsoDecipher_INS :: u8 where "PsoDecipher_INS = 0x2A"
definition PsoDecipher_P1 :: u8 where "PsoDecipher_P1 = 0x80"
definition PsoDecipher_P2 :: u8 where "PsoDecipher_P2 = 0x86"

definition PsoDecipher_into_apdu :: "PsoDecipher \<Rightarrow> CommandApdu option" where
  "PsoDecipher_into_apdu c =
     (case u8_try_from (length (psod_body c)) of
        None \<Rightarrow> None
      | Some lc \<Rightarrow>
          let cla = (if psod_chain c then 0x10 else 0x00)
          in Some (CommandApdu_new ([cla, PsoDecipher_INS, PsoDecipher_P1, PsoDecipher_P2, lc] @ psod_body c @
               (if \<not> psod_chain c then [0x00] else []))))"

datatype PsoComputeDigitalSignature = PsoComputeDigitalSignature (cds_class: ApduClass)

definition PsoCds_INS :: u8 where "PsoCds_INS = 0x2A"
definition PsoCds_P1 :: u8 where "PsoCds_P1 = 0x9E"
definition PsoCds_P2 :: u8 where "PsoCds_P2 = 0x9A"
definition LE_MAX_SHORT :: u8 where "LE_MAX_SHORT = 0x00"
definition LE_ECDSA_P384 :: u8 where "LE_ECDSA_P384 = 96"
definition LE_ECDSA_P256 :: u8 where "LE_ECDSA_P256 = 64"

definition PsoCds_into_apdu_with_le :: "PsoComputeDigitalSignature \<Rightarrow> u8 \<Rightarrow> CommandApdu" where
  "PsoCds_into_apdu_with_le c le =
     CommandApdu_allow_wrong_le_retry (CommandApdu_new
       [ApduClass_as_byte (cds_class c), PsoCds_INS, PsoCds_P1, PsoCds_P2, le])"

definition PsoCds_into_apdu :: "PsoComputeDigitalSignature \<Rightarrow> CommandApdu" where
  "PsoCds_into_apdu c = PsoCds_into_apdu_with_le c LE_MAX_SHORT"

definition PsoCds_into_apdu_with_hash :: "PsoComputeDigitalSignature \<Rightarrow> ExternalHashValue \<Rightarrow> u8 \<Rightarrow> CommandApdu" where
  "PsoCds_into_apdu_with_hash c hash le =
     CommandApdu_new ([ApduClass_as_byte (cds_class c), PsoCds_INS, PsoCds_P1, PsoCds_P2,
       ExternalHashValue_len_byte hash] @ ExternalHashValue_as_bytes hash @ [le])"


section \<open>Properties\<close>

lemmas sign_tag_defs = CRDO_TAG_ALG_REF_def CRDO_TAG_KEY_REF_def CRDO_VALUE_LEN_BYTE_def
  KEY_REF_AUTH_def KEY_REF_SIGN_def ORG_QUALIFIED_KEY_REF_def

lemma nibbles_inject:
  "HashAlgorithm_high_nibble h = HashAlgorithm_high_nibble h' \<longleftrightarrow> h = h'"
  "SignatureAlgorithm_low_nibble s = SignatureAlgorithm_low_nibble s' \<longleftrightarrow> s = s'"
  by (cases h; cases h'; simp) (cases s; cases s'; simp)

lemma alg_ref_nibbles:
  "drop_bit 4 (SignatureAlgRef_as_byte (SignatureAlgRef_from_parts h s)) = HashAlgorithm_high_nibble h"
  "SignatureAlgRef_as_byte (SignatureAlgRef_from_parts h s) AND 0x0F = SignatureAlgorithm_low_nibble s"
  by (cases h; cases s; simp add: SignatureAlgRef_from_parts_def)+

lemma KeyRef_as_u8_inject: "KeyRef_as_u8 k = KeyRef_as_u8 k' \<longleftrightarrow> k = k'"
  by (cases k rule: KeyRef_as_u8.cases; cases k' rule: KeyRef_as_u8.cases) (simp_all add: sign_tag_defs)

lemma DecipherAlgRef_as_byte_inject: "DecipherAlgRef_as_byte a = DecipherAlgRef_as_byte a' \<longleftrightarrow> a = a'"
  by (cases a; cases a'; simp)

lemma ApduClass_as_byte_inject: "ApduClass_as_byte a = ApduClass_as_byte a' \<longleftrightarrow> a = a'"
  by (cases a; cases a'; simp)

lemma mse_body_inject:
  "MseSetTemplate_p2 t = MseSetTemplate_p2 t' \<and> mse_body t = mse_body t' \<longleftrightarrow> t = t'"
  by (cases t; cases t') (auto simp: SignatureAlgRef.expand KeyRef_as_u8_inject DecipherAlgRef_as_byte_inject)

text \<open>
  The security environment the card is told is the one that was meant: an algorithm reference
  byte determines its hash and its signature scheme and never is the raw RSA reference, and a
  MANAGE SECURITY ENVIRONMENT command determines its class, its template, its algorithm and its key.
\<close>

theorem security_environment_unambiguous:
  "(SignatureAlgRef_from_parts h s = SignatureAlgRef_from_parts h' s') = (h = h' \<and> s = s') \<and>
   SignatureAlgRef_from_parts h s \<noteq> RSA_PKCS1_RAW \<and>
   (MseSet_into_apdu c = MseSet_into_apdu c') = (c = c')"
proof (intro conjI)
  show "(SignatureAlgRef_from_parts h s = SignatureAlgRef_from_parts h' s') = (h = h' \<and> s = s')"
    using alg_ref_nibbles nibbles_inject by metis
  show "SignatureAlgRef_from_parts h s \<noteq> RSA_PKCS1_RAW"
    using alg_ref_nibbles(2) [of h s] by (cases s) (auto simp: RSA_PKCS1_RAW_def)
  have "MseSet_into_apdu c = MseSet_into_apdu c' \<longleftrightarrow> mse_class c = mse_class c' \<and>
      MseSetTemplate_p2 (mse_template c) = MseSetTemplate_p2 (mse_template c') \<and> mse_body (mse_template c) = mse_body (mse_template c')"
    by (auto simp: MseSet_into_apdu_def CommandApdu_new_def Let_def split_beta prod_eq_iff ApduClass_as_byte_inject)
  then show "(MseSet_into_apdu c = MseSet_into_apdu c') = (c = c')" 
    by (simp add: mse_body_inject) (cases c; cases c'; simp)
qed

text \<open>A hash mode built from the fixed arrays and the validated blocks.\<close>

fun PsoHashMode_wf :: "PsoHashMode \<Rightarrow> bool" where
  "PsoHashMode_wf (PsoHashMode_EntirelyByCardBlock b) \<longleftrightarrow> HashBlock_new (HashBlock_as_bytes b) = Inr b"
| "PsoHashMode_wf (PsoHashMode_EntirelyByCardFinal b) \<longleftrightarrow> HashBlock_new (HashBlock_as_bytes b) = Inr b"
| "PsoHashMode_wf (PsoHashMode_PartiallyByCard st b) \<longleftrightarrow> IntermediateHashState_wf st \<and> HashBlock_new (HashBlock_as_bytes b) = Inr b"
| "PsoHashMode_wf (PsoHashMode_External h) \<longleftrightarrow> ExternalHashValue_wf h"

lemma HashBlock_new_Inr: "HashBlock_new bs = Inr b \<longleftrightarrow> length bs \<le> 128 \<and> b = HashBlock bs"
  by (auto simp: HashBlock_new_def HASH_BLOCK_MAX_LEN_def)

lemma pso_hash_body_length:
  assumes "PsoHashMode_wf m"
  shows "length (pso_hash_body m) \<le> 212"
  using assms by (cases m)
    (auto simp: HashBlock_new_Inr ExternalHashValue_wf_def IntermediateHashState_wf_def IntermediateHashState_extend_into_def
      split: ExternalHashValue.splits IntermediateHashState.splits)

lemma pso_hash_inner_lengths:
  "ExternalHashValue_wf h \<Longrightarrow> unat (ExternalHashValue_len_byte h) = length (ExternalHashValue_as_bytes h)"
  "IntermediateHashState_wf st \<Longrightarrow> unat (IntermediateHashState_xx_byte st) = length (ihs_intermediate st) + length (ihs_counter st)"
  "HashBlock_new (HashBlock_as_bytes b) = Inr b \<Longrightarrow> unat (HashBlock_len_byte b) = length (HashBlock_as_bytes b)"
    apply (cases h; simp add: ExternalHashValue_wf_def)
   apply (cases st; simp add: IntermediateHashState_wf_def)
  apply (simp add: HashBlock_new_Inr HashBlock_len_byte_def u8_try_from_def unat_of_nat)
  done

text \<open>
  (C13) Every PSO:HASH command the types admit is well formed: the length conversion that ends in
  \<open>unreachable!\<close> never fails, the length byte is the length of the body, and the inner length bytes are
  those of the hash value, the intermediate state and the final block.
\<close>

theorem pso_hash_never_overflows:
  assumes "PsoHashMode_wf (psoh_mode c)"
  shows "\<exists>lc. unat lc = length (pso_hash_body (psoh_mode c)) \<and>
      PsoHash_into_apdu c = Some (CommandApdu_new ([ApduClass_as_byte (psoh_class c), 0x2A, 0x90,
        PsoHashMode_p2 (psoh_mode c), lc] @ pso_hash_body (psoh_mode c))) \<and>
    (case psoh_mode c of
       PsoHashMode_EntirelyByCardBlock _ \<Rightarrow> True
     | PsoHashMode_EntirelyByCardFinal b \<Rightarrow> unat (HashBlock_len_byte b) = length (HashBlock_as_bytes b)
     | PsoHashMode_PartiallyByCard st b \<Rightarrow> unat (HashBlock_len_byte b) = length (HashBlock_as_bytes b) \<and>
         unat (IntermediateHashState_xx_byte st) = length (ihs_intermediate st @ ihs_counter st)
     | PsoHashMode_External h \<Rightarrow> unat (ExternalHashValue_len_byte h) = length (ExternalHashValue_as_bytes h))"
proof -
  let ?n = "length (pso_hash_body (psoh_mode c))"
  have "?n \<le> 212" by (rule pso_hash_body_length [OF assms])
  then have "unat (of_nat ?n :: u8) = ?n" "u8_try_from ?n = Some (of_nat ?n)"
    by (simp_all add: unat_of_nat u8_try_from_def del: of_nat_add of_nat_Suc)
  moreover have "case psoh_mode c of
       PsoHashMode_EntirelyByCardBlock _ \<Rightarrow> True
     | PsoHashMode_EntirelyByCardFinal b \<Rightarrow> unat (HashBlock_len_byte b) = length (HashBlock_as_bytes b)
     | PsoHashMode_PartiallyByCard st b \<Rightarrow> unat (HashBlock_len_byte b) = length (HashBlock_as_bytes b) \<and>
         unat (IntermediateHashState_xx_byte st) = length (ihs_intermediate st @ ihs_counter st)
     | PsoHashMode_External h \<Rightarrow> unat (ExternalHashValue_len_byte h) = length (ExternalHashValue_as_bytes h)"
    using assms by (cases "psoh_mode c") (simp_all add: pso_hash_inner_lengths)
  ultimately show ?thesis
    by (intro exI [of _ "of_nat ?n"]) (simp add: PsoHash_into_apdu_def PsoHash_INS_def PsoHash_P1_def Let_def)
qed

text \<open>A SHA-384 digest computed off the card.\<close>

theorem pso_hash_never_overflows_witness:
  "PsoHash_into_apdu \<lparr>psoh_class = ApduClass_Plain, psoh_mode = PsoHashMode_External (ExternalHashValue_Sha384 (replicate 48 7))\<rparr> \<noteq> None"
proof -
  have "PsoHashMode_wf (PsoHashMode_External (ExternalHashValue_Sha384 (replicate 48 7)))"
    by (simp add: ExternalHashValue_wf_def)
  then show ?thesis
    using pso_hash_never_overflows [of "\<lparr>psoh_class = ApduClass_Plain, psoh_mode = PsoHashMode_External (ExternalHashValue_Sha384 (replicate 48 7))\<rparr>"]
    by auto
qed

end
