(* ===== verification/Sign_Ops.thy ===== *)
theory Sign_Ops
  imports Sign_Commands Pin_Ops
begin

text \<open>
  Signing and deciphering on the card (\<open>refineid-lib-core\<close>, \<open>sign.rs\<close>, trait \<open>SignOps\<close>, and the value
  types of \<open>signing_session.rs\<close>). Signatures, plaintexts and ciphertexts are their bytes; the phantom
  algorithm of \<open>Signature<Alg>\<close> is left out. \<open>SignFault_Panic\<close> is the \<open>unreachable!\<close> of a command builder.
\<close>

section \<open>The code\<close>

definition RSA_3072_SIG_BYTES :: nat where "RSA_3072_SIG_BYTES = 384"
definition ECDSA_P384_SIG_BYTES :: nat where "ECDSA_P384_SIG_BYTES = 96"
definition ECDSA_P256_SIG_BYTES :: nat where "ECDSA_P256_SIG_BYTES = 64"
definition SHA256_DIGEST_LEN :: nat where "SHA256_DIGEST_LEN = 32"
definition SHA384_DIGEST_LEN :: nat where "SHA384_DIGEST_LEN = 48"

datatype 'te SignError =
    SignError_Transport 'te
  | SignError_Sw string u16
  | SignError_UnexpectedSignatureLength nat
  | SignError_InputTooLong nat

datatype 'te SignFault = SignFault_Err "'te SignError" | SignFault_Panic

type_synonym ('t, 'e, 'a) sign_io = "('t, 'e TransportDispatchError SignError, 'a) io"
type_synonym ('t, 'e, 'a) sign_panic_io = "('t, 'e TransportDispatchError SignFault, 'a) io"


subsection \<open>Selecting the security environment\<close>

text \<open>Each step sends one command and asks for \<open>9000\<close>.\<close>

definition sign_step :: "('t, 'e) transport \<Rightarrow> string \<Rightarrow> bytes \<Rightarrow> ('t, 'e, bytes) sign_io" where
  "sign_step tx stage apdu =
     bindS (map_errS SignError_Transport (transmit tx apdu)) (\<lambda>r.
       if \<not> ResponseApdu_is_ok r then fail (SignError_Sw stage (ResponseApdu_sw r)) else ret (resp_body r))"

definition mse_set_dst :: "('t, 'e) transport \<Rightarrow> SignatureAlgRef \<Rightarrow> KeyRef \<Rightarrow> ('t, 'e, unit) sign_io" where
  "mse_set_dst tx alg_ref key_ref =
     (let apdu = MseSet_into_apdu \<lparr>mse_class = ApduClass_Plain, mse_template = MseSetTemplate_DigitalSignature alg_ref key_ref\<rparr>
      in bindS (sign_step tx ''MSE:Set DST'' (CommandApdu_as_bytes apdu)) (\<lambda>_. ret ()))"

definition mse_set_ct :: "('t, 'e) transport \<Rightarrow> DecipherAlgRef \<Rightarrow> KeyRef \<Rightarrow> ('t, 'e, unit) sign_io" where
  "mse_set_ct tx alg_ref key_ref =
     (let apdu = MseSet_into_apdu \<lparr>mse_class = ApduClass_Plain, mse_template = MseSetTemplate_DeciphermentRsa alg_ref key_ref\<rparr>
      in bindS (sign_step tx ''MSE:Set CT'' (CommandApdu_as_bytes apdu)) (\<lambda>_. ret ()))"

definition mse_set_at :: "('t, 'e) transport \<Rightarrow> SignatureAlgRef \<Rightarrow> KeyRef \<Rightarrow> ('t, 'e, unit) sign_io" where
  "mse_set_at tx alg_ref key_ref =
     (let apdu = MseSet_into_apdu \<lparr>mse_class = ApduClass_Plain, mse_template = MseSetTemplate_Authentication alg_ref key_ref\<rparr>
      in bindS (sign_step tx ''MSE:Set AT'' (CommandApdu_as_bytes apdu)) (\<lambda>_. ret ()))"


subsection \<open>Signing a data field\<close>

definition PSO_CDS_HEADER :: bytes where "PSO_CDS_HEADER = [0x00, PsoCds_INS, PsoCds_P1, PsoCds_P2]"
definition PSO_CDS_CHAINED_HEADER :: bytes where "PSO_CDS_CHAINED_HEADER = [0x10, PsoCds_INS, PsoCds_P1, PsoCds_P2]"

definition cds_short :: "bytes \<Rightarrow> bytes" where
  "cds_short data = PSO_CDS_HEADER @ [of_nat (length data)] @ data @ [0x00]"

definition cds_extended :: "bytes \<Rightarrow> bytes" where
  "cds_extended data = PSO_CDS_HEADER @ [0x00] @ u16_to_be_bytes (of_nat (length data)) @ data @ u16_to_be_bytes 0"

definition cds_chained :: "bytes \<Rightarrow> bytes" where
  "cds_chained data = PSO_CDS_CHAINED_HEADER @ [of_nat (length data)] @ data"

text \<open>The chained fallback of \<open>pso_cds_with_data\<close>; \<open>ext_sw\<close> is the status word of the extended attempt.\<close>

definition cds_fallback :: "('t, 'e) transport \<Rightarrow> bytes \<Rightarrow> u16 \<Rightarrow> ('t, 'e, bytes) sign_io" where
  "cds_fallback tx data ext_sw =
     (let half = length data div 2; first = take half data; second = drop half data
      in if length first > 255 \<or> length second > 255 then fail (SignError_InputTooLong (length data))
         else bindS (map_errS SignError_Transport (transmit tx (cds_chained first))) (\<lambda>r1.
           if \<not> ResponseApdu_is_ok r1 then
             (if ext_sw \<noteq> 0 then fail (SignError_Sw ''PSO:CDS extended'' ext_sw)
              else fail (SignError_Sw ''PSO:CDS chunk 1/2'' (ResponseApdu_sw r1)))
           else sign_step tx ''PSO:CDS chunk 2/2'' (cds_short second)))"

definition pso_cds_with_data :: "('t, 'e) transport \<Rightarrow> bytes \<Rightarrow> ('t, 'e, bytes) sign_io" where
  "pso_cds_with_data tx data =
     (if length data \<le> 255 then sign_step tx ''PSO:CDS data'' (cds_short data)
      else if length data > 65535 then fail (SignError_InputTooLong (length data))
      else bindS (okS (transmit tx (cds_extended data))) (\<lambda>attempt.
        case attempt of
          Some r \<Rightarrow> if ResponseApdu_is_ok r then ret (resp_body r) else cds_fallback tx data (ResponseApdu_sw r)
        | None \<Rightarrow> cds_fallback tx data 0))"

definition sign_rsa_raw :: "('t, 'e) transport \<Rightarrow> KeyRef \<Rightarrow> bytes \<Rightarrow> ('t, 'e, bytes) sign_io" where
  "sign_rsa_raw tx key_ref encoded =
     bindS (case key_ref of
              KeyRef_Auth \<Rightarrow> mse_set_at tx RSA_PKCS1_RAW key_ref
            | KeyRef_Sign _ \<Rightarrow> mse_set_dst tx RSA_PKCS1_RAW key_ref) (\<lambda>_.
     pso_cds_with_data tx encoded)"


subsection \<open>Signing a digest\<close>

text \<open>The PSO:HASH builder never takes its \<open>unreachable!\<close> branch on a digest (\<open>pso_hash_never_overflows\<close>).\<close>

definition pso_hash_external :: "('t, 'e) transport \<Rightarrow> ExternalHashValue \<Rightarrow> ('t, 'e, unit) sign_io" where
  "pso_hash_external tx hash =
     (let apdu = the (PsoHash_into_apdu \<lparr>psoh_class = ApduClass_Plain, psoh_mode = PsoHashMode_External hash\<rparr>)
      in bindS (sign_step tx ''PSO:HASH'' (CommandApdu_as_bytes apdu)) (\<lambda>_. ret ()))"

definition pso_hash_external_sha1 :: "('t, 'e) transport \<Rightarrow> bytes \<Rightarrow> ('t, 'e, unit) sign_io" where
  "pso_hash_external_sha1 tx hash = pso_hash_external tx (ExternalHashValue_Sha1 hash)"
definition pso_hash_external_sha224 :: "('t, 'e) transport \<Rightarrow> bytes \<Rightarrow> ('t, 'e, unit) sign_io" where
  "pso_hash_external_sha224 tx hash = pso_hash_external tx (ExternalHashValue_Sha224 hash)"
definition pso_hash_external_sha256 :: "('t, 'e) transport \<Rightarrow> bytes \<Rightarrow> ('t, 'e, unit) sign_io" where
  "pso_hash_external_sha256 tx hash = pso_hash_external tx (ExternalHashValue_Sha256 hash)"
definition pso_hash_external_sha384 :: "('t, 'e) transport \<Rightarrow> bytes \<Rightarrow> ('t, 'e, unit) sign_io" where
  "pso_hash_external_sha384 tx hash = pso_hash_external tx (ExternalHashValue_Sha384 hash)"
definition pso_hash_external_sha512 :: "('t, 'e) transport \<Rightarrow> bytes \<Rightarrow> ('t, 'e, unit) sign_io" where
  "pso_hash_external_sha512 tx hash = pso_hash_external tx (ExternalHashValue_Sha512 hash)"

definition pso_cds_empty :: "('t, 'e) transport \<Rightarrow> u8 \<Rightarrow> ('t, 'e, bytes) sign_io" where
  "pso_cds_empty tx le =
     sign_step tx ''PSO:CDS'' (CommandApdu_as_bytes (PsoCds_into_apdu_with_le (PsoComputeDigitalSignature ApduClass_Plain) le))"

definition pso_cds_over_digest :: "('t, 'e) transport \<Rightarrow> ExternalHashValue \<Rightarrow> u8 \<Rightarrow> ('t, 'e, bytes) sign_io" where
  "pso_cds_over_digest tx digest le =
     sign_step tx ''PSO:CDS'' (CommandApdu_as_bytes (PsoCds_into_apdu_with_hash (PsoComputeDigitalSignature ApduClass_Plain) digest le))"

definition hash_then_sign ::
  "('t, 'e) transport \<Rightarrow> SignatureAlgRef \<Rightarrow> KeyRef \<Rightarrow> ExternalHashValue \<Rightarrow> u8 \<Rightarrow> ('t, 'e, bytes) sign_io" where
  "hash_then_sign tx alg_ref key_ref hash le =
     bindS (mse_set_dst tx alg_ref key_ref) (\<lambda>_.
       if signs_digest_inline key_ref then pso_cds_over_digest tx hash le
       else bindS (pso_hash_external tx hash) (\<lambda>_. pso_cds_empty tx le))"

definition checked_length :: "nat \<Rightarrow> ('t, 'e, bytes) sign_io \<Rightarrow> ('t, 'e, bytes) sign_io" where
  "checked_length n m =
     bindS m (\<lambda>sig. if length sig \<noteq> n then fail (SignError_UnexpectedSignatureLength (length sig)) else ret sig)"

definition sign_pre_hashed_sha256_rsa :: "('t, 'e) transport \<Rightarrow> KeyRef \<Rightarrow> bytes \<Rightarrow> ('t, 'e, bytes) sign_io" where
  "sign_pre_hashed_sha256_rsa tx key_ref hash =
     checked_length RSA_3072_SIG_BYTES
       (hash_then_sign tx SHA256_RSA_PKCS1_V1_5 key_ref (ExternalHashValue_Sha256 hash) LE_MAX_SHORT)"

definition sign_pre_hashed_sha384_ecdsa_p384 :: "('t, 'e) transport \<Rightarrow> KeyRef \<Rightarrow> bytes \<Rightarrow> ('t, 'e, bytes) sign_io" where
  "sign_pre_hashed_sha384_ecdsa_p384 tx key_ref hash =
     checked_length ECDSA_P384_SIG_BYTES
       (hash_then_sign tx SHA384_ECDSA key_ref (ExternalHashValue_Sha384 hash) LE_ECDSA_P384)"

definition sign_pre_hashed_sha1_ecdsa_p384 :: "('t, 'e) transport \<Rightarrow> KeyRef \<Rightarrow> bytes \<Rightarrow> ('t, 'e, bytes) sign_io" where
  "sign_pre_hashed_sha1_ecdsa_p384 tx key_ref hash =
     checked_length ECDSA_P384_SIG_BYTES
       (hash_then_sign tx (SignatureAlgRef_from_parts HashAlgorithm_Sha1 SignatureAlgorithm_Ecdsa) key_ref
          (ExternalHashValue_Sha1 hash) LE_ECDSA_P384)"

definition sign_pre_hashed_sha224_ecdsa_p384 :: "('t, 'e) transport \<Rightarrow> KeyRef \<Rightarrow> bytes \<Rightarrow> ('t, 'e, bytes) sign_io" where
  "sign_pre_hashed_sha224_ecdsa_p384 tx key_ref hash =
     checked_length ECDSA_P384_SIG_BYTES
       (hash_then_sign tx SHA224_ECDSA key_ref (ExternalHashValue_Sha224 hash) LE_ECDSA_P384)"

definition sign_pre_hashed_sha512_ecdsa_p384 :: "('t, 'e) transport \<Rightarrow> KeyRef \<Rightarrow> bytes \<Rightarrow> ('t, 'e, bytes) sign_io" where
  "sign_pre_hashed_sha512_ecdsa_p384 tx key_ref hash =
     checked_length ECDSA_P384_SIG_BYTES
       (hash_then_sign tx (SignatureAlgRef_from_parts HashAlgorithm_Sha512 SignatureAlgorithm_Ecdsa) key_ref
          (ExternalHashValue_Sha512 hash) LE_ECDSA_P384)"

definition sign_pre_hashed_sha256_ecdsa_p384 :: "('t, 'e) transport \<Rightarrow> KeyRef \<Rightarrow> bytes \<Rightarrow> ('t, 'e, bytes) sign_io" where
  "sign_pre_hashed_sha256_ecdsa_p384 tx key_ref hash =
     checked_length ECDSA_P384_SIG_BYTES
       (hash_then_sign tx SHA256_ECDSA key_ref (ExternalHashValue_Sha256 hash) LE_ECDSA_P384)"

definition sign_pre_hashed_sha256_ecdsa_p256 :: "('t, 'e) transport \<Rightarrow> KeyRef \<Rightarrow> bytes \<Rightarrow> ('t, 'e, bytes) sign_io" where
  "sign_pre_hashed_sha256_ecdsa_p256 tx key_ref hash =
     checked_length ECDSA_P256_SIG_BYTES
       (hash_then_sign tx SHA256_ECDSA key_ref (ExternalHashValue_Sha256 hash) LE_ECDSA_P256)"

definition sign_pre_hashed_sha256_rsa_auth :: "('t, 'e) transport \<Rightarrow> bytes \<Rightarrow> ('t, 'e, bytes) sign_io" where
  "sign_pre_hashed_sha256_rsa_auth tx hash = sign_pre_hashed_sha256_rsa tx KeyRef_Auth hash"

definition sign_pre_hashed_sha256_rsa_qualified ::
  "('t, 'e) transport \<Rightarrow> PinReferenceScheme \<Rightarrow> bytes \<Rightarrow> ('t, 'e, bytes) sign_io" where
  "sign_pre_hashed_sha256_rsa_qualified tx scheme hash = sign_pre_hashed_sha256_rsa tx (KeyRef_Sign scheme) hash"

definition sign_pre_hashed_rsa_pkcs1 :: "('t, 'e) transport \<Rightarrow> KeyRef \<Rightarrow> ExternalHashValue \<Rightarrow> ('t, 'e, bytes) sign_io" where
  "sign_pre_hashed_rsa_pkcs1 tx key_ref hash =
     hash_then_sign tx (SignatureAlgRef_from_parts (ExternalHashValue_hash_algorithm hash) SignatureAlgorithm_RsaPkcs1V1_5)
       key_ref hash LE_MAX_SHORT"

definition sign_pre_hashed_rsa_pss :: "('t, 'e) transport \<Rightarrow> KeyRef \<Rightarrow> ExternalHashValue \<Rightarrow> ('t, 'e, bytes) sign_io" where
  "sign_pre_hashed_rsa_pss tx key_ref hash =
     checked_length RSA_3072_SIG_BYTES
       (hash_then_sign tx (SignatureAlgRef_from_parts (ExternalHashValue_hash_algorithm hash) SignatureAlgorithm_RsaPss)
          key_ref hash LE_MAX_SHORT)"


subsection \<open>Deciphering\<close>

definition decipher_step :: "('t, 'e) transport \<Rightarrow> string \<Rightarrow> PsoDecipher \<Rightarrow> ('t, 'e, bytes) sign_panic_io" where
  "decipher_step tx stage c =
     (case PsoDecipher_into_apdu c of
        None \<Rightarrow> fail SignFault_Panic
      | Some apdu \<Rightarrow> map_errS SignFault_Err (sign_step tx stage (CommandApdu_as_bytes apdu)))"

definition pso_decipher :: "('t, 'e) transport \<Rightarrow> bytes \<Rightarrow> ('t, 'e, bytes) sign_panic_io" where
  "pso_decipher tx ciphertext =
     (let body = 0x81 # ciphertext
      in if length body \<le> 255 then decipher_step tx ''PSO:DECIPHER'' \<lparr>psod_body = body, psod_chain = False\<rparr>
         else let half = length body div 2
              in bindS (decipher_step tx ''PSO:DECIPHER chunk 1/2'' \<lparr>psod_body = take half body, psod_chain = True\<rparr>) (\<lambda>_.
                 decipher_step tx ''PSO:DECIPHER chunk 2/2'' \<lparr>psod_body = drop half body, psod_chain = False\<rparr>))"

definition decrypt_rsa_pkcs1 :: "('t, 'e) transport \<Rightarrow> KeyRef \<Rightarrow> bytes \<Rightarrow> ('t, 'e, bytes) sign_panic_io" where
  "decrypt_rsa_pkcs1 tx key_ref ciphertext =
     (if length ciphertext \<noteq> RSA_3072_SIG_BYTES
      then fail (SignFault_Err (SignError_UnexpectedSignatureLength (length ciphertext)))
      else bindS (map_errS SignFault_Err (mse_set_ct tx DecipherAlgRef_RsassaPkcs1V1_5 key_ref)) (\<lambda>_.
           pso_decipher tx ciphertext))"

definition decrypt_rsa_pkcs1_auth :: "('t, 'e) transport \<Rightarrow> bytes \<Rightarrow> ('t, 'e, bytes) sign_panic_io" where
  "decrypt_rsa_pkcs1_auth tx ciphertext = decrypt_rsa_pkcs1 tx KeyRef_Auth ciphertext"


subsection \<open>Batch progress\<close>

record BatchProgress =
  bp_signed :: nat
  bp_total :: nat

definition BatchProgress_remaining :: "BatchProgress \<Rightarrow> nat" where
  "BatchProgress_remaining p = bp_total p - bp_signed p"

definition BatchProgress_is_complete :: "BatchProgress \<Rightarrow> bool" where
  "BatchProgress_is_complete p \<longleftrightarrow> bp_signed p \<ge> bp_total p"

datatype PinPromptReason =
    PinPromptReason_NotCached | PinPromptReason_PreviousAttemptRejectedByCard
  | PinPromptReason_PreviousAttemptRefusedLocally

datatype SigningStep =
    SigningStep_Signed BatchProgress
  | SigningStep_Finished BatchProgress
  | SigningStep_NeedsPin PinSlot BatchProgress PinRetries PinPromptReason
  | SigningStep_RefusedLowRetries PinSlot BatchProgress PinRetries
  | SigningStep_Locked PinSlot BatchProgress

fun SigningStep_progress :: "SigningStep \<Rightarrow> BatchProgress" where
  "SigningStep_progress (SigningStep_Signed progress) = progress"
| "SigningStep_progress (SigningStep_Finished progress) = progress"
| "SigningStep_progress (SigningStep_NeedsPin _ progress _ _) = progress"
| "SigningStep_progress (SigningStep_RefusedLowRetries _ progress _) = progress"
| "SigningStep_progress (SigningStep_Locked _ progress) = progress"

fun SigningStep_pin_slot :: "SigningStep \<Rightarrow> PinSlot option" where
  "SigningStep_pin_slot (SigningStep_NeedsPin slot _ _ _) = Some slot"
| "SigningStep_pin_slot (SigningStep_RefusedLowRetries slot _ _) = Some slot"
| "SigningStep_pin_slot (SigningStep_Locked slot _) = Some slot"
| "SigningStep_pin_slot (SigningStep_Signed _) = None"
| "SigningStep_pin_slot (SigningStep_Finished _) = None"


section \<open>Exchanges\<close>

definition accepted_exchange :: "'e exchange \<Rightarrow> bool" where
  "accepted_exchange x \<longleftrightarrow> (\<exists>y. snd x = Inr (TransportOutcome_Response y) \<and> ResponseApdu_is_ok y)"

text \<open>\<open>steps_done cmds r log\<close>: the commands were sent in order up to the first that the card did not accept,
  and a result is the body of the answer to the last.\<close>

definition steps_done :: "CommandApdu list \<Rightarrow> 'f + bytes \<Rightarrow> 'e exchange list \<Rightarrow> bool" where
  "steps_done cmds r log \<longleftrightarrow>
     (\<exists>rest. cmds = map fst log @ rest \<and> log \<noteq> [] \<and> list_all accepted_exchange (butlast log) \<and>
       (\<forall>out. r = Inr out \<longrightarrow> rest = [] \<and>
          (\<exists>x. snd (last log) = Inr (TransportOutcome_Response x) \<and> ResponseApdu_is_ok x \<and> out = resp_body x)))"

lemma steps_done_all_accepted: "steps_done cmds (Inr out) log \<Longrightarrow> map fst log = cmds \<and> log \<noteq> [] \<and> list_all accepted_exchange log"
  by (cases log rule: rev_cases) (auto simp: steps_done_def accepted_exchange_def)

lemma steps_done_append:
  assumes "steps_done as (Inr out) la" "steps_done bs r lb"
  shows "steps_done (as @ bs) r (la @ lb)"
proof -
  from assms(2) obtain rest where "bs = map fst lb @ rest" "lb \<noteq> []" "list_all accepted_exchange (butlast lb)"
    "\<forall>out. r = Inr out \<longrightarrow> rest = [] \<and>
       (\<exists>x. snd (last lb) = Inr (TransportOutcome_Response x) \<and> ResponseApdu_is_ok x \<and> out = resp_body x)"
    unfolding steps_done_def by blast
  with steps_done_all_accepted [OF assms(1)] show ?thesis
    unfolding steps_done_def by (intro exI [of _ rest]) (auto simp: butlast_append)
qed

lemma steps_done_stop:
  assumes "steps_done as (Inl e) la"
  shows "steps_done (as @ bs) (Inl e') la"
  using assms unfolding steps_done_def by auto

lemma emits_sign_step:
  "emits (sign_step (journaled tx) stage bs) (steps_done [CommandApdu_new bs])"
  unfolding sign_step_def
proof (rule emits_bindS [OF emits_transmit_err])
  show "emits (if \<not> ResponseApdu_is_ok x then fail (SignError_Sw stage (ResponseApdu_sw x)) else ret (resp_body x))
      (\<lambda>r sent. sent = [] \<and> (\<forall>out. r = Inr out \<longrightarrow> ResponseApdu_is_ok x \<and> out = resp_body x))" for x
    by (auto intro: emits_weaken [OF emits_fail] emits_weaken [OF emits_ret])
qed (auto simp: steps_done_def, metis)

lemma emits_steps_bind:
  assumes m: "emits m (steps_done as)" and f: "\<And>x. emits (f x) (steps_done bs)"
  shows "emits (bindS m f) (steps_done (as @ bs))"
  by (rule emits_bindS [OF m f]) (auto intro: steps_done_stop steps_done_append)

definition dst_apdu :: "SignatureAlgRef \<Rightarrow> KeyRef \<Rightarrow> CommandApdu" where
  "dst_apdu alg_ref key_ref =
     MseSet_into_apdu \<lparr>mse_class = ApduClass_Plain, mse_template = MseSetTemplate_DigitalSignature alg_ref key_ref\<rparr>"

definition digest_commands :: "SignatureAlgRef \<Rightarrow> KeyRef \<Rightarrow> ExternalHashValue \<Rightarrow> u8 \<Rightarrow> CommandApdu list" where
  "digest_commands alg_ref key_ref hash le =
     dst_apdu alg_ref key_ref #
     (if signs_digest_inline key_ref
      then [CommandApdu_new ([0x00, 0x2A, 0x9E, 0x9A, ExternalHashValue_len_byte hash] @ ExternalHashValue_as_bytes hash @ [le])]
      else [CommandApdu_new ([0x00, 0x2A, 0x90, 0xA0, ExternalHashValue_len_byte hash + 2, 0x90, ExternalHashValue_len_byte hash] @
              ExternalHashValue_as_bytes hash),
            CommandApdu_new [0x00, 0x2A, 0x9E, 0x9A, le]])"

lemma external_hash_apdu:
  assumes "ExternalHashValue_wf hash"
  shows "the (PsoHash_into_apdu \<lparr>psoh_class = ApduClass_Plain, psoh_mode = PsoHashMode_External hash\<rparr>) =
    CommandApdu_new ([0x00, 0x2A, 0x90, 0xA0, ExternalHashValue_len_byte hash + 2, 0x90, ExternalHashValue_len_byte hash] @
      ExternalHashValue_as_bytes hash)"
  using assms
  by (cases hash) (simp_all add: PsoHash_into_apdu_def PsoHash_INS_def PsoHash_P1_def Let_def u8_try_from_def
      PSO_HASH_TAG_HASH_VALUE_def ExternalHashValue_wf_def)

lemma emits_hash_then_sign:
  assumes "ExternalHashValue_wf hash"
  shows "emits (hash_then_sign (journaled tx) alg_ref key_ref hash le) (steps_done (digest_commands alg_ref key_ref hash le))"
proof -
  have "digest_commands alg_ref key_ref hash le = [dst_apdu alg_ref key_ref] @ tl (digest_commands alg_ref key_ref hash le)"
    by (simp add: digest_commands_def)
  moreover have "CommandApdu_new (cmd_bytes (dst_apdu alg_ref key_ref)) = dst_apdu alg_ref key_ref"
    by (simp add: dst_apdu_def MseSet_into_apdu_def Let_def split_beta)
  moreover have "emits (if signs_digest_inline key_ref then pso_cds_over_digest (journaled tx) hash le
       else bindS (pso_hash_external (journaled tx) hash) (\<lambda>_. pso_cds_empty (journaled tx) le))
     (steps_done (tl (digest_commands alg_ref key_ref hash le)))"
  proof (cases "signs_digest_inline key_ref")
    case True
    then show ?thesis
      using emits_sign_step [of tx "''PSO:CDS''"]
      by (simp add: digest_commands_def pso_cds_over_digest_def PsoCds_into_apdu_with_hash_def PsoCds_INS_def PsoCds_P1_def PsoCds_P2_def)
  next
    case False
    let ?h = "CommandApdu_new ([0x00, 0x2A, 0x90, 0xA0, ExternalHashValue_len_byte hash + 2, 0x90, ExternalHashValue_len_byte hash] @
              ExternalHashValue_as_bytes hash)"
    have "emits (bindS (sign_step (journaled tx) ''PSO:HASH'' (cmd_bytes ?h)) (\<lambda>_. pso_cds_empty (journaled tx) le))
        (steps_done ([CommandApdu_new (cmd_bytes ?h)] @ [CommandApdu_new [0x00, 0x2A, 0x9E, 0x9A, le]]))"
      using emits_sign_step [of tx "''PSO:CDS''" "[0x00, 0x2A, 0x9E, 0x9A, le]"]
      by (intro emits_steps_bind emits_sign_step)
        (simp add: pso_cds_empty_def PsoCds_into_apdu_with_le_def CommandApdu_allow_wrong_le_retry_def PsoCds_INS_def PsoCds_P1_def PsoCds_P2_def)
    then show ?thesis
      using False
      by (simp add: digest_commands_def pso_hash_external_def Let_def external_hash_apdu [OF assms] bindS_assoc bindS_ret)
  qed
  ultimately show ?thesis
    unfolding hash_then_sign_def mse_set_dst_def Let_def bindS_assoc bindS_ret dst_apdu_def [symmetric]
    by (metis emits_steps_bind emits_sign_step CommandApdu_as_bytes_def)
qed

lemma checked_length_Inr:
  "checked_length n m s = (Inr sig, t) \<longleftrightarrow> m s = (Inr sig, t) \<and> length sig = n"
  by (auto simp: checked_length_def bindS_eq_Inr split: if_splits)

text \<open>The signing and deciphering commands present no credential.\<close>

lemma sign_commands_silent [simp]:
  "silent (CommandApdu_new (cmd_bytes (MseSet_into_apdu c)))"
  "silent (CommandApdu_new (cds_short data))" "silent (CommandApdu_new (cds_extended data))"
  "silent (CommandApdu_new (cds_chained data))"
  "PsoDecipher_into_apdu d = Some a \<Longrightarrow> silent (CommandApdu_new (cmd_bytes a))"
  by (auto simp: MseSet_into_apdu_def Let_def split_beta presents_new MseSet_INS_def cds_short_def cds_extended_def
      cds_chained_def PSO_CDS_HEADER_def PSO_CDS_CHAINED_HEADER_def PsoCds_INS_def PsoDecipher_into_apdu_def PsoDecipher_INS_def
      split: option.splits)

lemma only_sends_sign_step [only_sends_intros]:
  "P (CommandApdu_new bs) \<Longrightarrow> only_sends P (sign_step (journaled tx) stage bs)"
  by (auto simp: sign_step_def intro!: only_sends_intros)

lemma mse_steps_silent [only_sends_intros]:
  "only_sends silent (mse_set_dst (journaled tx) alg key)" "only_sends silent (mse_set_at (journaled tx) alg key)"
  "only_sends silent (mse_set_ct (journaled tx) dec key)"
  by (auto simp: mse_set_dst_def mse_set_at_def mse_set_ct_def Let_def intro!: only_sends_intros)

lemma cds_with_data_silent [only_sends_intros]: "only_sends silent (pso_cds_with_data (journaled tx) data)"
proof -
  have "only_sends silent (cds_fallback (journaled tx) data sw)" for sw
    by (auto simp: cds_fallback_def Let_def intro!: only_sends_intros)
  then show ?thesis
    by (auto simp: pso_cds_with_data_def intro!: only_sends_intros split: option.splits)
qed

lemma decipher_silent: "only_sends silent (pso_decipher (journaled tx) c)"
proof -
  have "only_sends silent (decipher_step (journaled tx) stage d)" for stage d
    by (auto simp: decipher_step_def intro!: only_sends_intros split: option.splits)
  then show ?thesis by (auto simp: pso_decipher_def Let_def intro!: only_sends_intros)
qed

lemma digest_commands_silent: "list_all silent (digest_commands alg key hash le)"
  by (simp add: digest_commands_def dst_apdu_def presents_new)
    (simp add: MseSet_into_apdu_def Let_def split_beta presents_new MseSet_INS_def)


section \<open>Properties\<close>

text \<open>
  A digest is signed in one order: the security environment with the algorithm and the key,
  then the digest, then the signature command, or on an organization card the digest inside the
  signature command. Each command is sent only after the card accepted the one before, none is sent
  twice, and a signature is the card's answer to the last one.
\<close>

theorem digest_signed_in_order:
  assumes "ExternalHashValue_wf hash"
    and "hash_then_sign (journaled tx) alg_ref key_ref hash le ([], s) = (r, (log, s'))"
  shows "\<exists>rest. map fst log @ rest = digest_commands alg_ref key_ref hash le \<and>
    list_all accepted_exchange (butlast log) \<and>
    (\<forall>sig. r = Inr sig \<longrightarrow> rest = [] \<and>
       (\<exists>x. snd (last log) = Inr (TransportOutcome_Response x) \<and> ResponseApdu_is_ok x \<and> sig = resp_body x))"
  using emits_run [OF emits_hash_then_sign [OF assms(1)] assms(2)] unfolding steps_done_def by auto

text \<open>A card that accepts every command, and the organization key.\<close>

theorem digest_signed_in_order_witness:
  "map fst (fst (snd (hash_then_sign (journaled (answers 0x90 0x00)) SHA384_ECDSA
      (KeyRef_Sign PinReferenceScheme_Organizational) (ExternalHashValue_Sha384 (replicate 48 7)) LE_ECDSA_P384 ([], ())))) =
   [CommandApdu_new [0x00, 0x22, 0x41, 0xB6, 6, 0x80, 0x01, 0x54, 0x84, 0x01, 0x82],
    CommandApdu_new ([0x00, 0x2A, 0x9E, 0x9A, 48] @ replicate 48 7 @ [96])]"
proof -
  let ?run = "hash_then_sign (journaled (answers 0x90 0x00)) SHA384_ECDSA
      (KeyRef_Sign PinReferenceScheme_Organizational) (ExternalHashValue_Sha384 (replicate 48 7)) LE_ECDSA_P384 ([], ())"
  have "ResponseApdu_is_ok \<lparr>resp_body = [], resp_sw1 = 0x90, resp_sw2 = 0x00\<rparr>" by code_simp
  then have "fst ?run = Inr []"
    by (simp add: hash_then_sign_def mse_set_dst_def pso_cds_over_digest_def sign_step_def signs_digest_inline_def Let_def
        bindS_def map_errS_def transmit_def journaled_def answers_def)
  then have run: "?run = (Inr [], (fst (snd ?run), snd (snd ?run)))" by (metis prod.collapse)
  have "ExternalHashValue_wf (ExternalHashValue_Sha384 (replicate 48 7))" by (simp add: ExternalHashValue_wf_def)
  from digest_signed_in_order [OF this run] show ?thesis
    by (simp add: digest_commands_def dst_apdu_def MseSet_into_apdu_def signs_digest_inline_def SHA384_ECDSA_def
        SignatureAlgRef_from_parts_def sign_tag_defs MseSet_INS_def MseSet_P1_SET_def LE_ECDSA_P384_def numeral_eq_Suc)
qed

text \<open>
  Signing and deciphering spend no tries: whatever the card answers, no command of these
  operations presents or sets a credential.
\<close>

theorem signing_presents_nothing:
  "list_all (\<lambda>x. \<not> presents_credential (fst x)) (fst (snd (sign_rsa_raw (journaled tx) key_ref data ([], s)))) \<and>
   list_all (\<lambda>x. \<not> presents_credential (fst x)) (fst (snd (decrypt_rsa_pkcs1 (journaled tx) key_ref data ([], s)))) \<and>
   (ExternalHashValue_wf hash \<longrightarrow>
      list_all (\<lambda>x. \<not> presents_credential (fst x)) (fst (snd (hash_then_sign (journaled tx) alg_ref key_ref hash le ([], s)))))"
proof (intro conjI impI)
  show "list_all (\<lambda>x. \<not> presents_credential (fst x)) (fst (snd (sign_rsa_raw (journaled tx) key_ref data ([], s))))"
    by (rule only_sends_from_empty) (auto simp: sign_rsa_raw_def intro!: only_sends_intros split: KeyRef.splits)
  show "list_all (\<lambda>x. \<not> presents_credential (fst x)) (fst (snd (decrypt_rsa_pkcs1 (journaled tx) key_ref data ([], s))))"
    by (rule only_sends_from_empty) (auto simp: decrypt_rsa_pkcs1_def intro!: only_sends_intros decipher_silent)
  assume "ExternalHashValue_wf hash"
  let ?log = "fst (snd (hash_then_sign (journaled tx) alg_ref key_ref hash le ([], s)))"
  have "steps_done (digest_commands alg_ref key_ref hash le) (fst (hash_then_sign (journaled tx) alg_ref key_ref hash le ([], s))) ?log"
    by (rule emits_from_empty [OF emits_hash_then_sign [OF \<open>ExternalHashValue_wf hash\<close>]])
  then obtain rest where "digest_commands alg_ref key_ref hash le = map fst ?log @ rest" unfolding steps_done_def by (elim exE conjE)
  then have "list_all silent (map fst ?log)" using digest_commands_silent [of alg_ref key_ref hash le] by simp
  then show "list_all (\<lambda>x. \<not> presents_credential (fst x)) ?log" by (simp add: list.pred_map comp_def)
qed

theorem signing_presents_nothing_witness:
  "list_all (\<lambda>x. \<not> presents_credential (fst x)) (fst (snd (hash_then_sign (journaled (answers 0x69 0x82)) SHA256_ECDSA KeyRef_Auth
      (ExternalHashValue_Sha256 (replicate 32 1)) LE_ECDSA_P256 ([], ()))))"
  using signing_presents_nothing [of "answers 0x69 0x82" KeyRef_Auth "[]" "()" "ExternalHashValue_Sha256 (replicate 32 1)"]
  by (simp add: ExternalHashValue_wf_def)

text \<open>
  A signature of the sized operations has its size: 96 bytes for every P-384 signature, 64 for
  P-256 and 384 for RSA-3072 with PKCS#1 SHA-256 or PSS; any other answer of the card is an error.
\<close>

theorem signatures_have_their_size:
  "(\<forall>sig t. (sign_pre_hashed_sha384_ecdsa_p384 tx key_ref hash s = (Inr sig, t) \<or>
      sign_pre_hashed_sha1_ecdsa_p384 tx key_ref hash s = (Inr sig, t) \<or>
      sign_pre_hashed_sha224_ecdsa_p384 tx key_ref hash s = (Inr sig, t) \<or>
      sign_pre_hashed_sha512_ecdsa_p384 tx key_ref hash s = (Inr sig, t) \<or>
      sign_pre_hashed_sha256_ecdsa_p384 tx key_ref hash s = (Inr sig, t)) \<longrightarrow> length sig = 96) \<and>
   (\<forall>sig t. sign_pre_hashed_sha256_ecdsa_p256 tx key_ref hash s = (Inr sig, t) \<longrightarrow> length sig = 64) \<and>
   (\<forall>sig t. (sign_pre_hashed_sha256_rsa tx key_ref hash s = (Inr sig, t) \<or>
      sign_pre_hashed_rsa_pss tx key_ref value s = (Inr sig, t)) \<longrightarrow> length sig = 384)"
  by (auto simp: sign_pre_hashed_sha384_ecdsa_p384_def sign_pre_hashed_sha1_ecdsa_p384_def sign_pre_hashed_sha224_ecdsa_p384_def
      sign_pre_hashed_sha512_ecdsa_p384_def sign_pre_hashed_sha256_ecdsa_p384_def sign_pre_hashed_sha256_ecdsa_p256_def
      sign_pre_hashed_sha256_rsa_def sign_pre_hashed_rsa_pss_def checked_length_Inr ECDSA_P384_SIG_BYTES_def
      ECDSA_P256_SIG_BYTES_def RSA_3072_SIG_BYTES_def)

definition response_of :: "'e + TransportOutcome \<Rightarrow> ResponseApdu option" where
  "response_of reply = (case reply of Inr (TransportOutcome_Response x) \<Rightarrow> Some x | _ \<Rightarrow> None)"

lemma response_of_Some: "response_of reply = Some x \<longleftrightarrow> reply = Inr (TransportOutcome_Response x)"
  by (auto simp: response_of_def split: sum.splits TransportOutcome.splits)

lemma emits_try_transmit:
  "emits (okS (transmit (journaled tx) bs)) (\<lambda>r sent. \<exists>reply. sent = [(CommandApdu_new bs, reply)] \<and> r = Inr (response_of reply))"
proof (rule emits_weaken [OF emits_okS [OF emits_transmit]], elim exE conjE)
  fix r sent q reply
  assume "r = Inr (result_ok q)" "sent = [(CommandApdu_new bs, reply)]"
    "\<forall>x. q = Inr x \<longleftrightarrow> reply = Inr (TransportOutcome_Response x)"
  moreover have "result_ok q = response_of reply"
  proof (cases "response_of reply")
    case None
    then have "q \<noteq> Inr x" for x using calculation(3) response_of_Some [of reply] by simp
    then show ?thesis using None by (cases q) (simp, blast)
  next
    case (Some x)
    then have "q = Inr x" using calculation(3) response_of_Some [of reply] by simp
    then show ?thesis using Some by simp
  qed
  ultimately show "\<exists>reply. sent = [(CommandApdu_new bs, reply)] \<and> r = Inr (response_of reply)" by auto
qed

text \<open>The chained form of a field: two halves that together are the field, or no second attempt.\<close>

definition fallback_done :: "bytes \<Rightarrow> 'te SignError + bytes \<Rightarrow> 'e exchange list \<Rightarrow> bool" where
  "fallback_done data r sent \<longleftrightarrow>
     (if 510 < length data then sent = [] \<and> r = Inl (SignError_InputTooLong (length data))
      else \<exists>first second. first @ second = data \<and> length first \<le> 255 \<and> length second \<le> 255 \<and>
        steps_done [CommandApdu_new (cds_chained first), CommandApdu_new (cds_short second)] r sent)"

lemma emits_cds_fallback: "emits (cds_fallback (journaled tx) data sw) (fallback_done data)"
proof -
  let ?first = "take (length data div 2) data" and ?second = "drop (length data div 2) data"
  have long: "length ?first > 255 \<or> length ?second > 255 \<longleftrightarrow> 510 < length data" by auto
  have "emits (bindS (map_errS SignError_Transport (transmit (journaled tx) (cds_chained ?first))) (\<lambda>r1.
       if \<not> ResponseApdu_is_ok r1 then
         (if sw \<noteq> 0 then fail (SignError_Sw ''PSO:CDS extended'' sw)
          else fail (SignError_Sw ''PSO:CDS chunk 1/2'' (ResponseApdu_sw r1)))
       else sign_step (journaled tx) ''PSO:CDS chunk 2/2'' (cds_short ?second)))
     (steps_done [CommandApdu_new (cds_chained ?first), CommandApdu_new (cds_short ?second)])"
  proof (rule emits_bindS [OF emits_transmit_err])
    show "emits (if \<not> ResponseApdu_is_ok x then
         (if sw \<noteq> 0 then fail (SignError_Sw ''PSO:CDS extended'' sw)
          else fail (SignError_Sw ''PSO:CDS chunk 1/2'' (ResponseApdu_sw x)))
       else sign_step (journaled tx) ''PSO:CDS chunk 2/2'' (cds_short ?second))
      (\<lambda>r sent. if ResponseApdu_is_ok x then steps_done [CommandApdu_new (cds_short ?second)] r sent
         else sent = [] \<and> (\<exists>e. r = Inl e))" for x
      using emits_sign_step by (auto intro!: emits_weaken [OF emits_fail])
  qed (auto simp: steps_done_def accepted_exchange_def Cons_eq_append_conv split: if_splits)
  then show ?thesis
    unfolding cds_fallback_def Let_def long
    by (auto simp: fallback_done_def intro!: emits_weaken [OF emits_fail] elim!: emits_weaken)
      (intro exI [of _ ?first] exI [of _ ?second]; auto)
qed

text \<open>
  A data field of 256 to 65535 bytes goes out in one extended command first; when that attempt
  is not accepted, a field of up to 510 bytes goes out again as two chained halves that together are
  the field, and a longer one is refused after the attempt.
\<close>

theorem data_field_sent_whole:
  fixes tx :: "('t, 'e) transport"
  assumes "255 < length data" "length data \<le> 65535"
    and "pso_cds_with_data (journaled tx) data ([], s) = (r, (log, s'))"
  shows "\<exists>reply rest. log = (CommandApdu_new (cds_extended data), reply) # rest \<and>
    (if accepted_exchange (CommandApdu_new (cds_extended data), reply) then rest = [] \<and> (\<exists>sig. r = Inr sig)
     else fallback_done data r rest)"
proof -
  have "emits (pso_cds_with_data (journaled tx) data)
    (\<lambda>r log. \<exists>reply rest. log = (CommandApdu_new (cds_extended data), reply) # rest \<and>
      (if accepted_exchange (CommandApdu_new (cds_extended data), reply) then rest = [] \<and> (\<exists>sig. r = Inr sig)
       else fallback_done data r rest))"
    (is "emits _ ?R")
  proof -
    have "emits (bindS (okS (transmit (journaled tx) (cds_extended data))) (\<lambda>attempt.
        case attempt of
          Some r \<Rightarrow> if ResponseApdu_is_ok r then ret (resp_body r) else cds_fallback (journaled tx) data (ResponseApdu_sw r)
        | None \<Rightarrow> cds_fallback (journaled tx) data 0)) ?R"
    proof (rule emits_bindS [OF emits_try_transmit])
      show "emits (case attempt of
          Some r \<Rightarrow> if ResponseApdu_is_ok r then ret (resp_body r) else cds_fallback (journaled tx) data (ResponseApdu_sw r)
        | None \<Rightarrow> cds_fallback (journaled tx) data 0)
       (\<lambda>r rest. if \<exists>x. attempt = Some x \<and> ResponseApdu_is_ok x then rest = [] \<and> (\<exists>sig. r = Inr sig)
         else fallback_done data r rest)" for attempt
        using emits_cds_fallback by (auto intro!: emits_weaken [OF emits_ret] split: option.splits)
      fix attempt and sent rest :: "'e exchange list" and r :: "'e TransportDispatchError SignError + bytes"
      assume "\<exists>reply. sent = [(CommandApdu_new (cds_extended data), reply)] \<and>
          Inr attempt = (Inr (response_of reply) :: 'e TransportDispatchError SignError + _)"
        "if \<exists>x. attempt = Some x \<and> ResponseApdu_is_ok x then rest = [] \<and> (\<exists>sig. r = Inr sig) else fallback_done data r rest"
      then obtain reply where "sent = [(CommandApdu_new (cds_extended data), reply)]" "attempt = response_of reply" by auto
      moreover have "accepted_exchange (CommandApdu_new (cds_extended data), reply) \<longleftrightarrow>
          (\<exists>x. response_of reply = Some x \<and> ResponseApdu_is_ok x)"
        by (auto simp: accepted_exchange_def response_of_Some)
      ultimately show "?R r (sent @ rest)"
        using \<open>if \<exists>x. attempt = Some x \<and> ResponseApdu_is_ok x then rest = [] \<and> (\<exists>sig. r = Inr sig) else fallback_done data r rest\<close>
        by auto
    qed auto
    then show ?thesis using assms(1,2) by (simp add: pso_cds_with_data_def)
  qed
  from emits_run [OF this assms(3)] show ?thesis .
qed

text \<open>An RSA-3072 block on a card that refuses the extended form: two halves of 192 bytes follow.\<close>

theorem data_field_sent_whole_witness:
  "\<exists>reply rest first second.
     fst (snd (pso_cds_with_data (journaled (answers 0x67 0x00)) (replicate 384 1) ([], ()))) =
       (CommandApdu_new (cds_extended (replicate 384 1)), reply) # rest \<and>
     first @ second = replicate 384 1 \<and>
     steps_done [CommandApdu_new (cds_chained first), CommandApdu_new (cds_short second)]
       (fst (pso_cds_with_data (journaled (answers 0x67 0x00)) (replicate 384 1) ([], ()))) rest"
proof -
  let ?data = "replicate 384 (1 :: u8)"
  let ?run = "pso_cds_with_data (journaled (answers 0x67 0x00)) ?data ([], ())"
  have refused: "\<not> ResponseApdu_is_ok \<lparr>resp_body = [], resp_sw1 = 0x67, resp_sw2 = 0x00\<rparr>" by code_simp
  have run: "?run = (fst ?run, (fst (snd ?run), snd (snd ?run)))" by (simp only: prod.collapse)
  have len: "255 < length ?data" "length ?data \<le> 65535" "\<not> 510 < length ?data" by simp_all
  have head: "fst (hd (fst (snd ?run))) = CommandApdu_new (cds_extended ?data) \<and>
      snd (hd (fst (snd ?run))) = Inr (TransportOutcome_Response \<lparr>resp_body = [], resp_sw1 = 0x67, resp_sw2 = 0x00\<rparr>)"
    using refused
    by (simp add: pso_cds_with_data_def cds_fallback_def bindS_def okS_def map_errS_def transmit_def journaled_def answers_def Let_def)
  from data_field_sent_whole [OF len(1,2) run] obtain reply rest where
    log: "fst (snd ?run) = (CommandApdu_new (cds_extended ?data), reply) # rest"
    and "if accepted_exchange (CommandApdu_new (cds_extended ?data), reply) then rest = [] \<and> (\<exists>sig. fst ?run = Inr sig)
       else fallback_done ?data (fst ?run) rest" by blast
  moreover from head log have "\<not> accepted_exchange (CommandApdu_new (cds_extended ?data), reply)"
    using refused by (simp add: accepted_exchange_def)
  ultimately show ?thesis using len(3) unfolding fallback_done_def by auto
qed

lemma decipher_step_no_panic:
  "length (psod_body c) \<le> 255 \<Longrightarrow> fst (decipher_step tx stage c s) \<noteq> Inl SignFault_Panic"
  by (auto simp: decipher_step_def PsoDecipher_into_apdu_def u8_try_from_def Let_def map_errS_def map_err_eq_Inl split_beta)

lemma bindS_no_panic:
  assumes "\<And>s. fst (m s) \<noteq> Inl e" "\<And>x s. fst (f x s) \<noteq> Inl e"
  shows "fst (bindS m f s) \<noteq> Inl e"
  using assms(1) [of s] assms(2) by (auto simp: bindS_def split: prod.splits sum.splits)

text \<open>
  Deciphering and its length conversion: \<open>pso_decipher\<close> splits its body once, so a ciphertext of up to
  509 bytes never reaches the \<open>unreachable!\<close> of the builder and one of 511 bytes or more always ends in it,
  with nothing sent; \<open>decrypt_rsa_pkcs1\<close> admits 384 bytes alone and never panics.
\<close>

theorem decipher_length_guard:
  "(length c \<le> 509 \<longrightarrow> fst (pso_decipher tx c s) \<noteq> Inl SignFault_Panic) \<and>
   (511 \<le> length c \<longrightarrow> pso_decipher tx c s = (Inl SignFault_Panic, s)) \<and>
   fst (decrypt_rsa_pkcs1 tx key_ref c s) \<noteq> Inl SignFault_Panic"
proof -
  have ok: "fst (pso_decipher tx c s) \<noteq> Inl SignFault_Panic" if "length c \<le> 509" for s
    using that unfolding pso_decipher_def Let_def
    by (cases "length (0x81 # c) \<le> 255") (simp_all add: decipher_step_no_panic bindS_no_panic)
  moreover have "511 \<le> length c \<Longrightarrow> pso_decipher tx c s = (Inl SignFault_Panic, s)"
    by (auto simp: pso_decipher_def Let_def bindS_def decipher_step_def PsoDecipher_into_apdu_def u8_try_from_def)
  moreover have "fst (decrypt_rsa_pkcs1 tx key_ref c s) \<noteq> Inl SignFault_Panic"
    unfolding decrypt_rsa_pkcs1_def RSA_3072_SIG_BYTES_def
    by (cases "length c = 384") (simp_all add: bindS_no_panic ok map_errS_def map_err_eq_Inl split_beta)
  ultimately show ?thesis by blast
qed

theorem decipher_length_guard_witness:
  "fst (pso_decipher (answers 0x90 0x00) (replicate 384 1) ()) \<noteq> Inl SignFault_Panic \<and>
   pso_decipher (answers 0x90 0x00) (replicate 511 1) () = (Inl SignFault_Panic, ())"
  using decipher_length_guard [of "replicate 384 1" "answers 0x90 0x00" "()"]
    decipher_length_guard [of "replicate 511 1" "answers 0x90 0x00" "()"] by simp

end
