(* ===== verification/Agent_Wire.thy ===== *)
theory Agent_Wire
  imports Prelude
begin

text \<open>
  The messages between the key storage provider and the per-user agent (\<open>refineid-agent-pipe\<close>,
  \<open>wire.rs\<close>) and the label of the signing program (\<open>lib.rs\<close>), with the digest lengths of
  \<open>refineid-rapp-core\<close>, \<open>operations.rs\<close>. The key profiles and signature algorithms are the variants of the
  \<open>refineid_rapp\<close> enums that the code matches on; the length of a pair identifier, a constant of that
  crate, is the parameter \<open>pair_id_len\<close>.
\<close>

section \<open>The code\<close>

subsection \<open>Constants and errors\<close>

definition WIRE_VERSION :: u8 where "WIRE_VERSION = 1"
definition MAX_MESSAGE :: nat where "MAX_MESSAGE = 1024"
definition MAX_SIGNATURE :: nat where "MAX_SIGNATURE = 384"
definition KIND_SIGN :: u8 where "KIND_SIGN = 1"
definition ANSWER_SIGNATURE :: u8 where "ANSWER_SIGNATURE = 1"
definition ANSWER_DENIED :: u8 where "ANSWER_DENIED = 2"
definition ANSWER_CANCELLED :: u8 where "ANSWER_CANCELLED = 3"
definition ANSWER_REJECTED :: u8 where "ANSWER_REJECTED = 4"
definition ANSWER_LOST :: u8 where "ANSWER_LOST = 5"
definition ANSWER_NO_PHONE :: u8 where "ANSWER_NO_PHONE = 6"
definition ANSWER_BUSY :: u8 where "ANSWER_BUSY = 7"
definition ANSWER_FAILED :: u8 where "ANSWER_FAILED = 8"
definition PROFILE_ECDSA_P256 :: u8 where "PROFILE_ECDSA_P256 = 1"
definition PROFILE_ECDSA_P384 :: u8 where "PROFILE_ECDSA_P384 = 2"
definition PROFILE_RSA_2048 :: u8 where "PROFILE_RSA_2048 = 3"
definition PROFILE_RSA_3072 :: u8 where "PROFILE_RSA_3072 = 4"
definition ALGORITHM_ECDSA_SHA224 :: u8 where "ALGORITHM_ECDSA_SHA224 = 1"
definition ALGORITHM_ECDSA_SHA256 :: u8 where "ALGORITHM_ECDSA_SHA256 = 2"
definition ALGORITHM_ECDSA_SHA384 :: u8 where "ALGORITHM_ECDSA_SHA384 = 3"
definition ALGORITHM_ECDSA_SHA512 :: u8 where "ALGORITHM_ECDSA_SHA512 = 4"
definition ALGORITHM_RSA_PKCS1_SHA256 :: u8 where "ALGORITHM_RSA_PKCS1_SHA256 = 5"
definition ALGORITHM_RSA_PKCS1_SHA384 :: u8 where "ALGORITHM_RSA_PKCS1_SHA384 = 6"
definition ALGORITHM_RSA_PKCS1_SHA512 :: u8 where "ALGORITHM_RSA_PKCS1_SHA512 = 7"
definition ALGORITHM_RSA_PSS_SHA256 :: u8 where "ALGORITHM_RSA_PSS_SHA256 = 8"

lemmas agent_code_defs = WIRE_VERSION_def KIND_SIGN_def ANSWER_SIGNATURE_def ANSWER_DENIED_def ANSWER_CANCELLED_def
  ANSWER_REJECTED_def ANSWER_LOST_def ANSWER_NO_PHONE_def ANSWER_BUSY_def ANSWER_FAILED_def PROFILE_ECDSA_P256_def
  PROFILE_ECDSA_P384_def PROFILE_RSA_2048_def PROFILE_RSA_3072_def ALGORITHM_ECDSA_SHA224_def ALGORITHM_ECDSA_SHA256_def
  ALGORITHM_ECDSA_SHA384_def ALGORITHM_ECDSA_SHA512_def ALGORITHM_RSA_PKCS1_SHA256_def ALGORITHM_RSA_PKCS1_SHA384_def
  ALGORITHM_RSA_PKCS1_SHA512_def ALGORITHM_RSA_PSS_SHA256_def

datatype WireError =
    WireError_Oversized | WireError_Version | WireError_Kind | WireError_Length | WireError_Profile
  | WireError_Algorithm | WireError_Digest | WireError_Signature | WireError_Mismatch

datatype KeyProfile = KeyProfile_EcdsaP256 | KeyProfile_EcdsaP384 | KeyProfile_Rsa2048 | KeyProfile_Rsa3072

datatype RappSignatureAlgorithm =
    Alg_EcdsaSha224 | Alg_EcdsaSha256 | Alg_EcdsaSha384 | Alg_EcdsaSha512
  | Alg_RsaPkcs1Sha256 | Alg_RsaPkcs1Sha384 | Alg_RsaPkcs1Sha512 | Alg_RsaPssSha256

fun digest_length :: "RappSignatureAlgorithm \<Rightarrow> nat" where
  "digest_length Alg_EcdsaSha224 = 28"
| "digest_length Alg_EcdsaSha256 = 32"
| "digest_length Alg_RsaPkcs1Sha256 = 32"
| "digest_length Alg_RsaPssSha256 = 32"
| "digest_length Alg_EcdsaSha384 = 48"
| "digest_length Alg_RsaPkcs1Sha384 = 48"
| "digest_length Alg_EcdsaSha512 = 64"
| "digest_length Alg_RsaPkcs1Sha512 = 64"


subsection \<open>Codes\<close>

definition suits :: "KeyProfile \<Rightarrow> RappSignatureAlgorithm \<Rightarrow> bool" where
  "suits profile algorithm \<longleftrightarrow>
     (let ecdsa = (algorithm \<in> {Alg_EcdsaSha224, Alg_EcdsaSha256, Alg_EcdsaSha384, Alg_EcdsaSha512})
      in case profile of
           KeyProfile_EcdsaP256 \<Rightarrow> ecdsa | KeyProfile_EcdsaP384 \<Rightarrow> ecdsa
         | KeyProfile_Rsa2048 \<Rightarrow> \<not> ecdsa | KeyProfile_Rsa3072 \<Rightarrow> \<not> ecdsa)"

fun profile_code :: "KeyProfile \<Rightarrow> u8" where
  "profile_code KeyProfile_EcdsaP256 = PROFILE_ECDSA_P256"
| "profile_code KeyProfile_EcdsaP384 = PROFILE_ECDSA_P384"
| "profile_code KeyProfile_Rsa2048 = PROFILE_RSA_2048"
| "profile_code KeyProfile_Rsa3072 = PROFILE_RSA_3072"

definition profile_from :: "u8 \<Rightarrow> WireError + KeyProfile" where
  "profile_from code =
     (if code = PROFILE_ECDSA_P256 then Inr KeyProfile_EcdsaP256
      else if code = PROFILE_ECDSA_P384 then Inr KeyProfile_EcdsaP384
      else if code = PROFILE_RSA_2048 then Inr KeyProfile_Rsa2048
      else if code = PROFILE_RSA_3072 then Inr KeyProfile_Rsa3072
      else Inl WireError_Profile)"

fun algorithm_code :: "RappSignatureAlgorithm \<Rightarrow> u8" where
  "algorithm_code Alg_EcdsaSha224 = ALGORITHM_ECDSA_SHA224"
| "algorithm_code Alg_EcdsaSha256 = ALGORITHM_ECDSA_SHA256"
| "algorithm_code Alg_EcdsaSha384 = ALGORITHM_ECDSA_SHA384"
| "algorithm_code Alg_EcdsaSha512 = ALGORITHM_ECDSA_SHA512"
| "algorithm_code Alg_RsaPkcs1Sha256 = ALGORITHM_RSA_PKCS1_SHA256"
| "algorithm_code Alg_RsaPkcs1Sha384 = ALGORITHM_RSA_PKCS1_SHA384"
| "algorithm_code Alg_RsaPkcs1Sha512 = ALGORITHM_RSA_PKCS1_SHA512"
| "algorithm_code Alg_RsaPssSha256 = ALGORITHM_RSA_PSS_SHA256"

definition algorithm_from :: "u8 \<Rightarrow> WireError + RappSignatureAlgorithm" where
  "algorithm_from code =
     (if code = ALGORITHM_ECDSA_SHA224 then Inr Alg_EcdsaSha224
      else if code = ALGORITHM_ECDSA_SHA256 then Inr Alg_EcdsaSha256
      else if code = ALGORITHM_ECDSA_SHA384 then Inr Alg_EcdsaSha384
      else if code = ALGORITHM_ECDSA_SHA512 then Inr Alg_EcdsaSha512
      else if code = ALGORITHM_RSA_PKCS1_SHA256 then Inr Alg_RsaPkcs1Sha256
      else if code = ALGORITHM_RSA_PKCS1_SHA384 then Inr Alg_RsaPkcs1Sha384
      else if code = ALGORITHM_RSA_PKCS1_SHA512 then Inr Alg_RsaPkcs1Sha512
      else if code = ALGORITHM_RSA_PSS_SHA256 then Inr Alg_RsaPssSha256
      else Inl WireError_Algorithm)"


subsection \<open>The reader\<close>

text \<open>Its state is the rest of the message.\<close>

type_synonym 'a wire_reader = "(bytes, WireError, 'a) io"

definition Reader_byte :: "u8 wire_reader" where
  "Reader_byte rest = (case rest of [] \<Rightarrow> (Inl WireError_Length, rest) | first # rest' \<Rightarrow> (Inr first, rest'))"

definition Reader_take :: "nat \<Rightarrow> bytes wire_reader" where
  "Reader_take count rest =
     (if length rest < count then (Inl WireError_Length, rest) else (Inr (take count rest), drop count rest))"

definition Reader_end :: "unit wire_reader" where
  "Reader_end rest = ((if rest = [] then Inr () else Inl WireError_Length), rest)"

definition Reader_new :: "bytes \<Rightarrow> WireError + bytes" where
  "Reader_new bs =
     (if length bs > MAX_MESSAGE then Inl WireError_Oversized
      else case Reader_byte bs of
             (Inl e, _) \<Rightarrow> Inl e
           | (Inr version, rest) \<Rightarrow> if version \<noteq> WIRE_VERSION then Inl WireError_Version else Inr rest)"

definition read_message :: "'a wire_reader \<Rightarrow> bytes \<Rightarrow> WireError + 'a" where
  "read_message m bs = bindR (Reader_new bs) (\<lambda>rest. fst (m rest))"


subsection \<open>Requests\<close>

record SignRequest =
  req_pair_id :: bytes
  req_key_profile :: KeyProfile
  req_algorithm :: RappSignatureAlgorithm
  req_digest :: bytes

definition SignRequest_new ::
  "bytes \<Rightarrow> KeyProfile \<Rightarrow> RappSignatureAlgorithm \<Rightarrow> bytes \<Rightarrow> WireError + SignRequest" where
  "SignRequest_new pair_id key_profile algorithm digest =
     (if \<not> suits key_profile algorithm then Inl WireError_Mismatch
      else if length digest \<noteq> digest_length algorithm then Inl WireError_Digest
      else Inr \<lparr>req_pair_id = pair_id, req_key_profile = key_profile, req_algorithm = algorithm, req_digest = digest\<rparr>)"

definition SignRequest_encode :: "SignRequest \<Rightarrow> bytes" where
  "SignRequest_encode r =
     [WIRE_VERSION, KIND_SIGN] @ req_pair_id r @ [profile_code (req_key_profile r), algorithm_code (req_algorithm r),
       (if length (req_digest r) \<le> 255 then of_nat (length (req_digest r)) else 0xFF)] @ req_digest r"

definition SignRequest_decode :: "nat \<Rightarrow> bytes \<Rightarrow> WireError + SignRequest" where
  "SignRequest_decode pair_id_len =
     read_message (bindS Reader_byte (\<lambda>kind.
       if kind \<noteq> KIND_SIGN then fail WireError_Kind
       else bindS (Reader_take pair_id_len) (\<lambda>pair_id.
            bindS Reader_byte (\<lambda>p. bindS (liftR (profile_from p)) (\<lambda>key_profile.
            bindS Reader_byte (\<lambda>a. bindS (liftR (algorithm_from a)) (\<lambda>algorithm.
            bindS Reader_byte (\<lambda>digest_len.
            bindS (Reader_take (unat digest_len)) (\<lambda>digest.
            bindS Reader_end (\<lambda>_.
            liftR (SignRequest_new pair_id key_profile algorithm digest)))))))))))"


subsection \<open>Answers\<close>

datatype SignAnswer =
    SignAnswer_Signature bytes | SignAnswer_Denied | SignAnswer_Cancelled | SignAnswer_Rejected
  | SignAnswer_Lost | SignAnswer_NoPhone | SignAnswer_Busy | SignAnswer_Failed

fun answer_kind :: "SignAnswer \<Rightarrow> u8" where
  "answer_kind (SignAnswer_Signature _) = ANSWER_SIGNATURE"
| "answer_kind SignAnswer_Denied = ANSWER_DENIED"
| "answer_kind SignAnswer_Cancelled = ANSWER_CANCELLED"
| "answer_kind SignAnswer_Rejected = ANSWER_REJECTED"
| "answer_kind SignAnswer_Lost = ANSWER_LOST"
| "answer_kind SignAnswer_NoPhone = ANSWER_NO_PHONE"
| "answer_kind SignAnswer_Busy = ANSWER_BUSY"
| "answer_kind SignAnswer_Failed = ANSWER_FAILED"

definition u16_to_le_bytes :: "u16 \<Rightarrow> bytes" where
  "u16_to_le_bytes w = rev (u16_to_be_bytes w)"

definition u16_from_le_bytes :: "bytes \<Rightarrow> u16" where
  "u16_from_le_bytes bs = push_bit 8 (ucast (bs ! 1)) OR ucast (bs ! 0)"

definition SignAnswer_encode :: "SignAnswer \<Rightarrow> bytes" where
  "SignAnswer_encode a =
     (case a of
        SignAnswer_Signature signature \<Rightarrow>
          if signature = [] \<or> length signature > MAX_SIGNATURE then [WIRE_VERSION, answer_kind SignAnswer_Failed]
          else [WIRE_VERSION, answer_kind a] @ u16_to_le_bytes (of_nat (length signature)) @ signature
      | _ \<Rightarrow> [WIRE_VERSION, answer_kind a])"

definition read_signature :: "SignAnswer wire_reader" where
  "read_signature =
     bindS (Reader_take 2) (\<lambda>length_bytes.
       let len = unat (u16_from_le_bytes length_bytes)
       in if len = 0 \<or> len > MAX_SIGNATURE then fail WireError_Signature
          else bindS (Reader_take len) (\<lambda>signature. ret (SignAnswer_Signature signature)))"

definition answer_body :: "u8 \<Rightarrow> SignAnswer wire_reader" where
  "answer_body kind =
     (if kind = ANSWER_SIGNATURE then read_signature
      else if kind = ANSWER_DENIED then ret SignAnswer_Denied
      else if kind = ANSWER_CANCELLED then ret SignAnswer_Cancelled
      else if kind = ANSWER_REJECTED then ret SignAnswer_Rejected
      else if kind = ANSWER_LOST then ret SignAnswer_Lost
      else if kind = ANSWER_NO_PHONE then ret SignAnswer_NoPhone
      else if kind = ANSWER_BUSY then ret SignAnswer_Busy
      else if kind = ANSWER_FAILED then ret SignAnswer_Failed
      else fail WireError_Kind)"

definition SignAnswer_decode :: "bytes \<Rightarrow> WireError + SignAnswer" where
  "SignAnswer_decode =
     read_message (bindS Reader_byte (\<lambda>kind. bindS (answer_body kind) (\<lambda>answer. bindS Reader_end (\<lambda>_. ret answer))))"


subsection \<open>The label of the signing program\<close>

text \<open>
  A Rust string is its UTF-8 bytes, here a \<^typ>\<open>string\<close>. The separators and the letters that the code
  compares are ASCII, so splitting and ASCII folding work byte by byte; the Unicode tables behind
  \<open>str::trim\<close> and \<open>str::to_lowercase\<close> are the parameters \<open>trim\<close> and \<open>lower\<close>.
\<close>

definition PATH_SEPARATORS :: "char list" where "PATH_SEPARATORS = [CHR 0x5C, CHR ''/'']"

definition PIPE_NAME_PREFIX :: string where
  "PIPE_NAME_PREFIX = [CHR 0x5C, CHR 0x5C, CHR ''.'', CHR 0x5C] @ ''pipe'' @ [CHR 0x5C] @ ''RefineID.Agent.''"

fun split_at_any :: "'c list \<Rightarrow> 'c list \<Rightarrow> 'c list list" where
  "split_at_any seps [] = [[]]"
| "split_at_any seps (c # cs) =
     (if c \<in> set seps then [] # split_at_any seps cs
      else case split_at_any seps cs of [] \<Rightarrow> [[c]] | p # ps \<Rightarrow> (c # p) # ps)"

definition ascii_lowercase :: "char \<Rightarrow> char" where
  "ascii_lowercase c = (let n = (of_char c :: nat) in if 65 \<le> n \<and> n \<le> 90 then char_of (n + 32) else c)"

definition known_browser :: "string \<Rightarrow> string option" where
  "known_browser file =
     (let name = map ascii_lowercase file
      in if name = ''msedge.exe'' then Some ''Microsoft Edge''
         else if name = ''chrome.exe'' then Some ''Google Chrome''
         else if name = ''brave.exe'' then Some ''Brave''
         else if name = ''opera.exe'' then Some ''Opera''
         else if name = ''vivaldi.exe'' then Some ''Vivaldi''
         else None)"

definition path_components :: "(string \<Rightarrow> string) \<Rightarrow> string \<Rightarrow> string list option" where
  "path_components lower path =
     (let components = filter (\<lambda>c. c \<noteq> [] \<and> c \<noteq> ''.'') (split_at_any PATH_SEPARATORS path)
      in if ''..'' \<in> set components then None else Some (map lower components))"

definition lies_below :: "(string \<Rightarrow> string) \<Rightarrow> string \<Rightarrow> string \<Rightarrow> bool" where
  "lies_below lower path root =
     (case (path_components lower path, path_components lower root) of
        (Some p, Some r) \<Rightarrow> r \<noteq> [] \<and> length p > length r \<and> take (length r) p = r
      | _ \<Rightarrow> False)"

definition image_file :: "(string \<Rightarrow> string) \<Rightarrow> string \<Rightarrow> string" where
  "image_file trim path = trim (last (split_at_any PATH_SEPARATORS path))"

definition program_label_within ::
  "(string \<Rightarrow> string) \<Rightarrow> (string \<Rightarrow> string) \<Rightarrow> string \<Rightarrow> string list \<Rightarrow> string" where
  "program_label_within trim lower path trusted_roots =
     (let file = image_file trim path;
          known = known_browser file;
          trusted = list_ex (lies_below lower path) trusted_roots
      in case known of
           Some name \<Rightarrow> if trusted then name else if file = [] then ''A Windows program'' else file
         | None \<Rightarrow> if file = [] then ''A Windows program'' else file)"

definition requester_context :: "string \<Rightarrow> string \<Rightarrow> string" where
  "requester_context program computer = (if computer = [] then program else program @ '' on '' @ computer)"

fun decimal :: "nat \<Rightarrow> string" where
  "decimal n = (if n < 10 then [char_of (48 + n)] else decimal (n div 10) @ [char_of (48 + n mod 10)])"

declare decimal.simps [simp del]

definition pipe_name :: "string \<Rightarrow> u32 \<Rightarrow> string" where
  "pipe_name user_sid session = PIPE_NAME_PREFIX @ user_sid @ ''.'' @ decimal (unat session)"


section \<open>Properties\<close>

subsection \<open>The codec\<close>

lemma Reader_byte_eq [simp]: "Reader_byte rest = (Inr b, rest') \<longleftrightarrow> rest = b # rest'"
  by (auto simp: Reader_byte_def split: list.split)

lemma Reader_take_eq [simp]: "Reader_take n rest = (Inr x, rest') \<longleftrightarrow> rest = x @ rest' \<and> length x = n"
  by (auto simp: Reader_take_def append_eq_conv_conj)

lemma Reader_end_eq [simp]: "Reader_end rest = (Inr u, rest') \<longleftrightarrow> rest = [] \<and> rest' = []"
  by (auto simp: Reader_end_def)

lemma Reader_new_eq [simp]:
  "Reader_new bs = Inr rest \<longleftrightarrow> bs = WIRE_VERSION # rest \<and> length bs \<le> MAX_MESSAGE"
  by (auto simp: Reader_new_def Reader_byte_def split: list.split)

lemma bindS_byte: "bindS Reader_byte f (b # rest) = f b rest"
  by (simp add: bindS_def Reader_byte_def)

lemma bindS_take: "length x = n \<Longrightarrow> bindS (Reader_take n) f (x @ rest) = f x rest"
  by (simp add: bindS_def Reader_take_def)

lemma bindS_end: "bindS Reader_end f [] = f () []"
  by (simp add: bindS_def Reader_end_def)

lemma read_message_eq:
  "read_message m bs = Inr x \<longleftrightarrow>
     (\<exists>rest rest'. bs = WIRE_VERSION # rest \<and> length bs \<le> MAX_MESSAGE \<and> m rest = (Inr x, rest'))"
  by (auto simp: read_message_def bindR_eq_Inr) (metis prod.collapse)

lemma liftR_eq [simp]: "liftR r s = (Inr x, t) \<longleftrightarrow> r = Inr x \<and> t = s"
  by (auto simp: liftR_def)

lemma liftR_run: "fst (liftR r s) = r"
  by (simp add: liftR_def)

lemma profile_from_eq [simp]: "profile_from c = Inr p \<longleftrightarrow> c = profile_code p"
  by (cases p) (auto simp: profile_from_def agent_code_defs)

lemma algorithm_from_eq [simp]: "algorithm_from c = Inr a \<longleftrightarrow> c = algorithm_code a"
  by (cases a) (auto simp: algorithm_from_def agent_code_defs)

lemma code_inverses: "profile_from (profile_code p) = Inr p" "algorithm_from (algorithm_code a) = Inr a"
  by simp_all

lemma read_message_run:
  assumes "bs = WIRE_VERSION # rest" and "length bs \<le> MAX_MESSAGE"
  shows "read_message m bs = fst (m rest)"
  using assms by (simp add: read_message_def Reader_new_def Reader_byte_def)

lemma digest_length_bound: "digest_length a \<le> 64"
  by (cases a) auto

lemma SignRequest_new_eq:
  "SignRequest_new i p a h = Inr r \<longleftrightarrow>
     suits p a \<and> length h = digest_length a \<and>
     r = \<lparr>req_pair_id = i, req_key_profile = p, req_algorithm = a, req_digest = h\<rparr>"
  by (auto simp: SignRequest_new_def)

lemma request_decode_wire:
  assumes "SignRequest_decode n bs = Inr r"
  shows "\<exists>i p a d h. bs = WIRE_VERSION # KIND_SIGN # i @ profile_code p # algorithm_code a # d # h \<and> length i = n \<and>
    length h = unat d \<and> length bs \<le> MAX_MESSAGE \<and> SignRequest_new i p a h = Inr r"
  using assms
  by (simp add: SignRequest_decode_def read_message_eq bindS_eq_Inr split: if_splits) blast

text \<open>
  (C14) Requests: the decoder accepts exactly the encodings of the requests that \<open>SignRequest::new\<close> builds with an
  identifier of the fixed length. So what the provider sends is what the agent reads, every accepted message
  has one reading and one spelling, and nothing the constructor would refuse (a digest of the wrong length, an
  algorithm that is not the key's) comes in over the pipe.
\<close>
theorem request_decode_iff_encode:
  "SignRequest_decode n bs = Inr r \<longleftrightarrow>
     SignRequest_encode r = bs \<and> length (req_pair_id r) = n \<and> length bs \<le> MAX_MESSAGE \<and>
     SignRequest_new (req_pair_id r) (req_key_profile r) (req_algorithm r) (req_digest r) = Inr r"
  (is "?dec \<longleftrightarrow> ?enc")
proof
  assume ?dec
  then obtain i p a d h where
      wire: "bs = WIRE_VERSION # KIND_SIGN # i @ profile_code p # algorithm_code a # d # h"
    and len: "length i = n" "length h = unat d" "length bs \<le> MAX_MESSAGE"
    and new: "SignRequest_new i p a h = Inr r"
    using request_decode_wire by blast
  have "length h \<le> 255"
    using new digest_length_bound [of a] by (simp add: SignRequest_new_eq)
  moreover have "of_nat (length h) = d"
    by (simp add: len)
  ultimately have "SignRequest_encode \<lparr>req_pair_id = i, req_key_profile = p, req_algorithm = a, req_digest = h\<rparr> = bs"
    by (simp add: SignRequest_encode_def wire)
  then show ?enc
    using new len by (auto simp: SignRequest_new_eq)
next
  assume enc: ?enc
  then have bound: "length bs \<le> MAX_MESSAGE" and ident: "length (req_pair_id r) = n"
    by simp_all
  have small: "length (req_digest r) \<le> 255"
    using enc digest_length_bound [of "req_algorithm r"] by (auto simp: SignRequest_new_eq)
  have wire: "bs = WIRE_VERSION # KIND_SIGN # req_pair_id r @ profile_code (req_key_profile r) #
      algorithm_code (req_algorithm r) # of_nat (length (req_digest r)) # req_digest r @ []"
    using enc small by (simp add: SignRequest_encode_def)
  have len: "unat (of_nat (length (req_digest r)) :: u8) = length (req_digest r)"
    using small by (simp add: unsigned_of_nat take_bit_nat_eq_self)
  have digest: "bindS (Reader_take (length (req_digest r))) f (req_digest r @ []) = f (req_digest r) []" for f
    by (rule bindS_take) simp
  have "SignRequest_decode n bs = SignRequest_new (req_pair_id r) (req_key_profile r) (req_algorithm r) (req_digest r)"
    unfolding SignRequest_decode_def read_message_run [OF wire bound]
    by (simp add: bindS_byte bindS_take [OF ident] digest len bindS_end code_inverses liftR_run del: append_Nil2)
  then show ?dec
    using enc by simp
qed


definition sendable :: "SignAnswer \<Rightarrow> bool" where
  "sendable a = (case a of SignAnswer_Signature s \<Rightarrow> s \<noteq> [] \<and> length s \<le> MAX_SIGNATURE | _ \<Rightarrow> True)"

lemma u16_from_to_le_bytes: "u16_from_le_bytes (u16_to_le_bytes w) = w"
  by (simp add: u16_from_le_bytes_def u16_to_le_bytes_def u16_to_be_bytes_def)
    (rule bit_word_eqI, auto simp: bit_simps)

lemma u16_to_from_le_bytes:
  assumes "length bs = 2"
  shows "u16_to_le_bytes (u16_from_le_bytes bs) = bs"
proof -
  obtain lo hi where "bs = [lo, hi]"
    using assms by (cases bs; cases "tl bs") auto
  then show ?thesis
    using u16_to_from_be_bytes [of hi lo]
    by (simp add: u16_from_le_bytes_def u16_to_le_bytes_def u16_from_be_bytes_def)
qed

lemma length_u16_to_le_bytes [simp]: "length (u16_to_le_bytes w) = 2"
  by (simp add: u16_to_le_bytes_def)

lemma read_signature_eq:
  "read_signature rest = (Inr a, rest') \<longleftrightarrow>
     (\<exists>s. a = SignAnswer_Signature s \<and> sendable a \<and> rest = u16_to_le_bytes (of_nat (length s)) @ s @ rest')"
  (is "?read \<longleftrightarrow> ?wire")
proof
  assume ?read
  then obtain lb s where *: "rest = lb @ s @ rest'" "length lb = 2" "a = SignAnswer_Signature s"
      "length s = unat (u16_from_le_bytes lb)" "length s \<noteq> 0" "length s \<le> MAX_SIGNATURE"
    by (auto simp: read_signature_def bindS_eq_Inr Let_def split: if_splits)
  then have "u16_to_le_bytes (of_nat (length s)) = lb"
    by (simp add: u16_to_from_le_bytes)
  then show ?wire
    using * by (auto simp: sendable_def)
next
  assume ?wire
  then obtain s where *: "a = SignAnswer_Signature s" "s \<noteq> []" "length s \<le> MAX_SIGNATURE"
      "rest = u16_to_le_bytes (of_nat (length s)) @ s @ rest'"
    by (auto simp: sendable_def)
  have "unat (of_nat (length s) :: u16) = length s"
    using * by (simp add: MAX_SIGNATURE_def unsigned_of_nat take_bit_nat_eq_self)
  then show ?read
    using * by (simp add: read_signature_def bindS_take u16_from_to_le_bytes Let_def)
qed

lemma bindS_signature:
  assumes "sendable (SignAnswer_Signature s)"
  shows "bindS read_signature f (u16_to_le_bytes (of_nat (length s)) @ s) = f (SignAnswer_Signature s) []"
proof -
  have "read_signature (u16_to_le_bytes (of_nat (length s)) @ s) = (Inr (SignAnswer_Signature s), [])"
    using assms by (simp add: read_signature_eq)
  then show ?thesis
    by (simp add: bindS_def)
qed

lemma SignAnswer_encode_sendable:
  "sendable a \<Longrightarrow> SignAnswer_encode a = WIRE_VERSION # answer_kind a #
     (case a of SignAnswer_Signature s \<Rightarrow> u16_to_le_bytes (of_nat (length s)) @ s | _ \<Rightarrow> [])"
  by (cases a) (auto simp: SignAnswer_encode_def sendable_def)

lemma length_SignAnswer_encode: "length (SignAnswer_encode a) \<le> MAX_SIGNATURE + 4"
  by (cases a) (auto simp: SignAnswer_encode_def)

lemma answer_wire:
  "SignAnswer_decode bs = Inr a \<longleftrightarrow> sendable a \<and> SignAnswer_encode a = bs"
  (is "?dec \<longleftrightarrow> ?enc")
proof
  assume ?dec
  then show ?enc
    by (auto simp: SignAnswer_decode_def answer_body_def read_message_eq bindS_eq_Inr read_signature_eq SignAnswer_encode_sendable
        split: if_splits) (simp_all add: sendable_def SignAnswer_encode_def)
next
  assume enc: ?enc
  then have "length bs \<le> MAX_MESSAGE"
    using length_SignAnswer_encode [of a] by (auto simp: MAX_MESSAGE_def MAX_SIGNATURE_def)
  moreover have "bs = WIRE_VERSION # answer_kind a #
      (case a of SignAnswer_Signature s \<Rightarrow> u16_to_le_bytes (of_nat (length s)) @ s | _ \<Rightarrow> [])"
    using enc SignAnswer_encode_sendable by blast
  ultimately have "SignAnswer_decode bs = fst (bindS (answer_body (answer_kind a)) (\<lambda>x. bindS Reader_end (\<lambda>_. ret x))
      (case a of SignAnswer_Signature s \<Rightarrow> u16_to_le_bytes (of_nat (length s)) @ s | _ \<Rightarrow> []))"
    by (simp add: SignAnswer_decode_def read_message_run bindS_byte)
  then show ?dec
    using enc by (cases a) (simp_all add: answer_body_def agent_code_defs bindS_end bindS_signature)
qed

text \<open>
  Answers: the decoder accepts exactly the encodings of the answers that can be sent, those whose signature is
  neither empty nor longer than any key signs, and reads back the answer that was encoded.
\<close>
theorem answer_decode_iff_encode:
  "SignAnswer_decode bs = Inr a \<longleftrightarrow> sendable a \<and> SignAnswer_encode a = bs"
  by (rule answer_wire)

text \<open>
  Whatever the agent answers fits one message and is read by the provider: an answer that cannot be sent is
  read as a failure, never as a signature, and an answer without a signature never as one with it.
\<close>
theorem answer_always_readable:
  "length (SignAnswer_encode a) \<le> MAX_MESSAGE \<and>
   SignAnswer_decode (SignAnswer_encode a) = Inr (if sendable a then a else SignAnswer_Failed)"
proof -
  have "SignAnswer_encode a = SignAnswer_encode SignAnswer_Failed" if "\<not> sendable a"
    using that by (cases a) (auto simp: sendable_def SignAnswer_encode_def)
  moreover have "sendable SignAnswer_Failed"
    by (simp add: sendable_def)
  ultimately show ?thesis
    using length_SignAnswer_encode [of a] answer_wire by (auto simp: MAX_MESSAGE_def MAX_SIGNATURE_def)
qed


subsection \<open>Labels and names\<close>

lemma of_char_digit: "d < 10 \<Longrightarrow> (of_char (char_of (48 + d) :: char) :: nat) = 48 + d"
  by (simp add: of_char_of)

lemma decimal_digits: "c \<in> set (decimal n) \<Longrightarrow> \<exists>d < 10. c = char_of (48 + d :: nat)"
proof (induction n rule: decimal.induct)
  case (1 n)
  then show ?case
    by (subst (asm) (2) decimal.simps) (auto split: if_splits intro: exI [of _ "n mod 10"])
qed

lemma decimal_value: "foldl (\<lambda>v c. 10 * v + (of_char c - 48)) 0 (decimal n) = (n :: nat)"
proof (induction n rule: decimal.induct)
  case (1 n)
  then show ?case
    by (subst decimal.simps) (auto simp: of_char_digit)
qed

lemma decimal_inject [simp]: "decimal m = decimal n \<longleftrightarrow> m = n"
  by (metis decimal_value)

lemma decimal_no_dot: "CHR ''.'' \<notin> set (decimal n)"
proof
  assume "CHR ''.'' \<in> set (decimal n)"
  then obtain d where "d < 10" "CHR ''.'' = char_of (48 + d :: nat)"
    using decimal_digits by blast
  then have "(of_char (CHR ''.'') :: nat) = 48 + d"
    using of_char_digit by metis
  then show False by simp
qed

lemma last_field_unique:
  assumes "xs @ c # ys = xs' @ c # ys'" and "c \<notin> set ys" and "c \<notin> set ys'"
  shows "xs = xs' \<and> ys = ys'"
proof -
  have tail: "takeWhile (\<lambda>x. x \<noteq> c) (rev (zs @ c # ws)) = rev ws" if "c \<notin> set ws" for zs ws
    using that by (induction ws rule: rev_induct) auto
  have "ys = ys'"
    using tail [of ys xs] tail [of ys' xs'] assms by (metis rev_rev_ident)
  then show ?thesis
    using assms(1) by simp
qed

text \<open>
  Each user has a pipe of their own in each Windows session: two pipe names agree only when the user and the
  session do.
\<close>
theorem pipe_names_distinct:
  "pipe_name sid session = pipe_name sid' session' \<longleftrightarrow> sid = sid' \<and> session = session'"
  using last_field_unique [of sid "CHR ''.''" "decimal (unat session)" sid' "decimal (unat session')"]
  by (auto simp: pipe_name_def decimal_no_dot word_unat_eq_iff)

lemma lies_below_iff:
  "lies_below lower path root \<longleftrightarrow>
     (\<exists>r rest. path_components lower root = Some r \<and> path_components lower path = Some (r @ rest) \<and>
        r \<noteq> [] \<and> rest \<noteq> [])"
proof
  assume "lies_below lower path root"
  then obtain p r where *: "path_components lower path = Some p" "path_components lower root = Some r" "r \<noteq> []"
      "length r < length p" "take (length r) p = r"
    by (auto simp: lies_below_def split: option.splits)
  then have "p = r @ drop (length r) p" "drop (length r) p \<noteq> []"
    by (metis append_take_drop_id) (use * in simp)
  then show "\<exists>r rest. path_components lower root = Some r \<and> path_components lower path = Some (r @ rest) \<and>
      r \<noteq> [] \<and> rest \<noteq> []"
    using * by metis
qed (auto simp: lies_below_def)

lemma path_components_climb:
  "path_components lower path = Some p \<Longrightarrow> ''..'' \<notin> set (split_at_any PATH_SEPARATORS path)"
  by (auto simp: path_components_def Let_def split: if_splits)

text \<open>
  The phone is shown a label other than the image's file name only for an image without a name, or for a
  browser whose image lies strictly below a trusted directory: the components of the directory, at least one,
  begin those of the image, which has more of them and none that climbs.
\<close>
theorem product_name_only_below_root:
  assumes "program_label_within trim lower path roots \<noteq> image_file trim path"
    and "image_file trim path \<noteq> []"
  shows "known_browser (image_file trim path) = Some (program_label_within trim lower path roots) \<and>
    ''..'' \<notin> set (split_at_any PATH_SEPARATORS path) \<and>
    (\<exists>root \<in> set roots. \<exists>r rest. path_components lower root = Some r \<and>
       path_components lower path = Some (r @ rest) \<and> r \<noteq> [] \<and> rest \<noteq> [])"
proof -
  from assms obtain name where known: "known_browser (image_file trim path) = Some name"
    and trusted: "list_ex (lies_below lower path) roots"
    by (auto simp: program_label_within_def Let_def split: option.splits if_splits)
  obtain root where "root \<in> set roots" "lies_below lower path root"
    using trusted by (auto simp: list_ex_iff)
  moreover have "program_label_within trim lower path roots = name"
    using known trusted by (simp add: program_label_within_def)
  ultimately show ?thesis
    using known path_components_climb unfolding lies_below_iff by blast
qed

theorem product_name_only_below_root_witness:
  "let edge = ''C:/Program Files/Edge/msedge.exe''; roots = [''C:/Program Files'']
   in program_label_within id (map ascii_lowercase) edge roots \<noteq> image_file id edge \<and>
      image_file id edge \<noteq> [] \<and>
      known_browser (image_file id edge) = Some ''Microsoft Edge''"
proof -
  have label: "program_label_within id (map ascii_lowercase) ''C:/Program Files/Edge/msedge.exe'' [''C:/Program Files''] =
      ''Microsoft Edge''"
    by code_simp
  have image: "image_file id ''C:/Program Files/Edge/msedge.exe'' = ''msedge.exe''"
    by code_simp
  show ?thesis
    using product_name_only_below_root [of id "map ascii_lowercase" "''C:/Program Files/Edge/msedge.exe''" "[''C:/Program Files'']"]
    by (simp add: label image)
qed

text \<open>
  The product name is no proof of the product all the same: an image outside every trusted directory whose
  file is called by the product's name is shown as that product, since the file name itself is the label.
\<close>
theorem file_named_as_product:
  "\<not> list_ex (lies_below (map ascii_lowercase) ''C:/Users/holder/Temp/Google Chrome'') [''C:/Program Files''] \<and>
   program_label_within id (map ascii_lowercase) ''C:/Users/holder/Temp/Google Chrome'' [''C:/Program Files''] =
     program_label_within id (map ascii_lowercase) ''C:/Program Files/Google/chrome.exe'' [''C:/Program Files'']"
  by code_simp

end
