(* ===== verification/Pkcs11_Codec.thy ===== *)
theory Pkcs11_Codec
  imports Prelude
begin

text \<open>
  The values and encodings of the PKCS\#11 module (\<open>refineid-pkcs11\<close>): the return codes, flags and states of
  \<open>ck.rs\<close>, the mechanisms and digest parsers of \<open>sign.rs\<close> and the DER helpers of \<open>token.rs\<close>. A \<open>CK_ULONG\<close> has
  the 32 bits it has on Windows.
\<close>

section \<open>The code\<close>

subsection \<open>Codes (\<open>ck.rs\<close>)\<close>

type_synonym CkUlong = u32
type_synonym CkRv = CkUlong
type_synonym CkFlags = CkUlong
type_synonym CkSlotId = CkUlong
type_synonym CkSessionHandle = CkUlong
type_synonym CkObjectHandle = CkUlong

definition CKR_OK :: CkRv where "CKR_OK = 0x0"
definition CKR_SLOT_ID_INVALID :: CkRv where "CKR_SLOT_ID_INVALID = 0x3"
definition CKR_GENERAL_ERROR :: CkRv where "CKR_GENERAL_ERROR = 0x5"
definition CKR_ARGUMENTS_BAD :: CkRv where "CKR_ARGUMENTS_BAD = 0x7"
definition CKR_NO_EVENT :: CkRv where "CKR_NO_EVENT = 0x8"
definition CKR_DATA_INVALID :: CkRv where "CKR_DATA_INVALID = 0x20"
definition CKR_DATA_LEN_RANGE :: CkRv where "CKR_DATA_LEN_RANGE = 0x21"
definition CKR_DEVICE_ERROR :: CkRv where "CKR_DEVICE_ERROR = 0x30"
definition CKR_FUNCTION_NOT_SUPPORTED :: CkRv where "CKR_FUNCTION_NOT_SUPPORTED = 0x54"
definition CKR_KEY_HANDLE_INVALID :: CkRv where "CKR_KEY_HANDLE_INVALID = 0x60"
definition CKR_MECHANISM_INVALID :: CkRv where "CKR_MECHANISM_INVALID = 0x70"
definition CKR_OPERATION_ACTIVE :: CkRv where "CKR_OPERATION_ACTIVE = 0x90"
definition CKR_OPERATION_NOT_INITIALIZED :: CkRv where "CKR_OPERATION_NOT_INITIALIZED = 0x91"
definition CKR_PIN_INCORRECT :: CkRv where "CKR_PIN_INCORRECT = 0xA0"
definition CKR_PIN_INVALID :: CkRv where "CKR_PIN_INVALID = 0xA1"
definition CKR_PIN_LEN_RANGE :: CkRv where "CKR_PIN_LEN_RANGE = 0xA2"
definition CKR_PIN_LOCKED :: CkRv where "CKR_PIN_LOCKED = 0xA4"
definition CKR_SESSION_CLOSED :: CkRv where "CKR_SESSION_CLOSED = 0xB0"
definition CKR_SESSION_HANDLE_INVALID :: CkRv where "CKR_SESSION_HANDLE_INVALID = 0xB3"
definition CKR_SESSION_PARALLEL_NOT_SUPPORTED :: CkRv where "CKR_SESSION_PARALLEL_NOT_SUPPORTED = 0xB4"
definition CKR_TOKEN_NOT_PRESENT :: CkRv where "CKR_TOKEN_NOT_PRESENT = 0xE0"
definition CKR_USER_ALREADY_LOGGED_IN :: CkRv where "CKR_USER_ALREADY_LOGGED_IN = 0x100"
definition CKR_USER_NOT_LOGGED_IN :: CkRv where "CKR_USER_NOT_LOGGED_IN = 0x101"
definition CKR_USER_TYPE_INVALID :: CkRv where "CKR_USER_TYPE_INVALID = 0x103"
definition CKR_BUFFER_TOO_SMALL :: CkRv where "CKR_BUFFER_TOO_SMALL = 0x150"
definition CKR_CRYPTOKI_NOT_INITIALIZED :: CkRv where "CKR_CRYPTOKI_NOT_INITIALIZED = 0x190"
definition CKR_CRYPTOKI_ALREADY_INITIALIZED :: CkRv where "CKR_CRYPTOKI_ALREADY_INITIALIZED = 0x191"

lemmas ckr_defs = CKR_OK_def CKR_SLOT_ID_INVALID_def CKR_GENERAL_ERROR_def CKR_ARGUMENTS_BAD_def CKR_NO_EVENT_def
  CKR_DATA_INVALID_def CKR_DATA_LEN_RANGE_def CKR_DEVICE_ERROR_def CKR_FUNCTION_NOT_SUPPORTED_def
  CKR_KEY_HANDLE_INVALID_def CKR_MECHANISM_INVALID_def CKR_OPERATION_ACTIVE_def CKR_OPERATION_NOT_INITIALIZED_def
  CKR_PIN_INCORRECT_def CKR_PIN_INVALID_def CKR_PIN_LEN_RANGE_def CKR_PIN_LOCKED_def CKR_SESSION_CLOSED_def
  CKR_SESSION_HANDLE_INVALID_def CKR_SESSION_PARALLEL_NOT_SUPPORTED_def CKR_TOKEN_NOT_PRESENT_def
  CKR_USER_ALREADY_LOGGED_IN_def CKR_USER_NOT_LOGGED_IN_def CKR_USER_TYPE_INVALID_def CKR_BUFFER_TOO_SMALL_def
  CKR_CRYPTOKI_NOT_INITIALIZED_def CKR_CRYPTOKI_ALREADY_INITIALIZED_def

definition CKR_ATTRIBUTE_SENSITIVE :: CkRv where "CKR_ATTRIBUTE_SENSITIVE = 0x11"
definition CKR_ATTRIBUTE_TYPE_INVALID :: CkRv where "CKR_ATTRIBUTE_TYPE_INVALID = 0x12"
definition CKR_KEY_FUNCTION_NOT_PERMITTED :: CkRv where "CKR_KEY_FUNCTION_NOT_PERMITTED = 0x68"
definition CKR_OBJECT_HANDLE_INVALID :: CkRv where "CKR_OBJECT_HANDLE_INVALID = 0x82"
definition CKR_SIGNATURE_INVALID :: CkRv where "CKR_SIGNATURE_INVALID = 0xC0"
definition CKR_SIGNATURE_LEN_RANGE :: CkRv where "CKR_SIGNATURE_LEN_RANGE = 0xC1"
definition CKR_TOKEN_WRITE_PROTECTED :: CkRv where "CKR_TOKEN_WRITE_PROTECTED = 0xE2"

definition CKU_USER :: CkUlong where "CKU_USER = 1"
definition CKF_RW_SESSION :: CkFlags where "CKF_RW_SESSION = 0x2"
definition CKF_SERIAL_SESSION :: CkFlags where "CKF_SERIAL_SESSION = 0x4"
definition CKF_DONT_BLOCK :: CkFlags where "CKF_DONT_BLOCK = 0x1"
definition CKS_RO_PUBLIC_SESSION :: CkUlong where "CKS_RO_PUBLIC_SESSION = 0"
definition CKS_RO_USER_FUNCTIONS :: CkUlong where "CKS_RO_USER_FUNCTIONS = 1"
definition CKS_RW_PUBLIC_SESSION :: CkUlong where "CKS_RW_PUBLIC_SESSION = 2"
definition CKS_RW_USER_FUNCTIONS :: CkUlong where "CKS_RW_USER_FUNCTIONS = 3"
definition CKM_RSA_PKCS :: CkUlong where "CKM_RSA_PKCS = 0x1"
definition CKM_ECDSA :: CkUlong where "CKM_ECDSA = 0x1041"


subsection \<open>Mechanisms and digests (\<open>sign.rs\<close>)\<close>

datatype Mechanism = Mechanism_RsaPkcs | Mechanism_Ecdsa

definition RSA3072_SIGNATURE_BYTES :: nat where "RSA3072_SIGNATURE_BYTES = 384"
definition ECDSA_P384_SIGNATURE_BYTES :: nat where "ECDSA_P384_SIGNATURE_BYTES = 96"
definition SHA256_DIGEST_BYTES :: nat where "SHA256_DIGEST_BYTES = 32"
definition SHA384_DIGEST_BYTES :: nat where "SHA384_DIGEST_BYTES = 48"

fun Mechanism_signature_len :: "Mechanism \<Rightarrow> nat" where
  "Mechanism_signature_len Mechanism_RsaPkcs = RSA3072_SIGNATURE_BYTES"
| "Mechanism_signature_len Mechanism_Ecdsa = ECDSA_P384_SIGNATURE_BYTES"

fun Mechanism_ck_type :: "Mechanism \<Rightarrow> CkUlong" where
  "Mechanism_ck_type Mechanism_RsaPkcs = CKM_RSA_PKCS"
| "Mechanism_ck_type Mechanism_Ecdsa = CKM_ECDSA"

definition Mechanism_from_ck_type :: "CkUlong \<Rightarrow> Mechanism option" where
  "Mechanism_from_ck_type m =
     (if m = CKM_RSA_PKCS then Some Mechanism_RsaPkcs else if m = CKM_ECDSA then Some Mechanism_Ecdsa else None)"

definition reject_degenerate_digest :: "bytes \<Rightarrow> CkRv + unit" where
  "reject_degenerate_digest digest =
     (let all_zero = list_all (\<lambda>b. b = 0) digest;
          all_ones = list_all (\<lambda>b. b = 0xFF) digest;
          zeros_except_last = (digest \<noteq> [] \<and> last digest = 1 \<and> list_all (\<lambda>b. b = 0) (butlast digest));
          zeros_except_first = (digest \<noteq> [] \<and> hd digest = 1 \<and> list_all (\<lambda>b. b = 0) (tl digest))
      in if all_zero \<or> all_ones \<or> zeros_except_last \<or> zeros_except_first then Inl CKR_DATA_INVALID else Inr ())"

text \<open>The reader of a remote slot is called \<open>rapp:\<close> and the identifier of its pairing.\<close>

definition starts_with_rapp :: "string \<Rightarrow> bool" where
  "starts_with_rapp name \<longleftrightarrow> take 5 name = ''rapp:''"

definition DER_LONG_FORM_FLAG :: u8 where "DER_LONG_FORM_FLAG = 0x80"
definition SHA256_OID_VALUE :: bytes where "SHA256_OID_VALUE = [0x60, 0x86, 0x48, 0x01, 0x65, 0x03, 0x04, 0x02, 0x01]"

fun read_tlv :: "bytes \<Rightarrow> (u8 \<times> bytes \<times> bytes) option" where
  "read_tlv (tag # len_byte # after_len) =
     (if len_byte \<ge> DER_LONG_FORM_FLAG then None
      else if unat len_byte \<le> length after_len
      then Some (tag, take (unat len_byte) after_len, drop (unat len_byte) after_len)
      else None)"
| "read_tlv _ = None"

definition parse_sha256_digest_info :: "bytes \<Rightarrow> CkRv + bytes" where
  "parse_sha256_digest_info input =
     bindR (ok_or CKR_DATA_INVALID (read_tlv input)) (\<lambda>(outer_tag, outer_body, outer_rest).
     if outer_tag \<noteq> 0x30 \<or> outer_rest \<noteq> [] then Inl CKR_DATA_INVALID
     else bindR (ok_or CKR_DATA_INVALID (read_tlv outer_body)) (\<lambda>(alg_tag, alg_body, after_alg).
     if alg_tag \<noteq> 0x30 then Inl CKR_DATA_INVALID
     else bindR (ok_or CKR_DATA_INVALID (read_tlv alg_body)) (\<lambda>(oid_tag, oid_body, after_oid).
     if oid_tag \<noteq> 0x06 \<or> oid_body \<noteq> SHA256_OID_VALUE then Inl CKR_DATA_INVALID
     else if (case read_tlv after_oid of
                None \<Rightarrow> after_oid \<noteq> []
              | Some (null_tag, null_body, after_null) \<Rightarrow> null_tag \<noteq> 0x05 \<or> null_body \<noteq> [] \<or> after_null \<noteq> [])
     then Inl CKR_DATA_INVALID
     else bindR (ok_or CKR_DATA_INVALID (read_tlv after_alg)) (\<lambda>(digest_tag, digest_body, after_digest).
     if digest_tag \<noteq> 0x04 \<or> after_digest \<noteq> [] then Inl CKR_DATA_INVALID
     else bindR (reject_degenerate_digest digest_body) (\<lambda>_.
     if length digest_body = SHA256_DIGEST_BYTES then Inr digest_body else Inl CKR_DATA_INVALID)))))"

definition fit_p384 :: "bytes \<Rightarrow> CkRv + bytes" where
  "fit_p384 input =
     (if input = [] then Inl CKR_DATA_LEN_RANGE
      else bindR (reject_degenerate_digest input) (\<lambda>_.
        let src = take (min (length input) SHA384_DIGEST_BYTES) input
        in Inr (replicate (SHA384_DIGEST_BYTES - length src) 0 @ src)))"


subsection \<open>DER helpers (\<open>token.rs\<close>)\<close>

definition push_der_len :: "nat \<Rightarrow> bytes" where
  "push_der_len len =
     (if len < 0x80 then [of_nat len]
      else if len \<le> 255 then [0x81, of_nat len]
      else [0x82, of_nat (len div 256 mod 256), of_nat (len mod 256)])"

definition der_integer :: "bytes \<Rightarrow> bytes" where
  "der_integer v = [0x02] @ push_der_len (length v) @ v"

definition der_octet_string :: "bytes \<Rightarrow> bytes" where
  "der_octet_string v = [0x04] @ push_der_len (length v) @ v"

definition parse_der_len :: "bytes \<Rightarrow> nat \<Rightarrow> (nat \<times> nat) option" where
  "parse_der_len der idx =
     (if idx \<ge> length der then None
      else let first = der ! idx; idx = idx + 1
           in if first AND 0x80 = 0 then Some (unat first, idx)
              else let num_bytes = unat (first AND 0x7f)
                   in if num_bytes = 0 \<or> num_bytes > 4 \<or> idx + num_bytes > length der then None
                      else Some (be_fold (take num_bytes (drop idx der)), idx + num_bytes))"

fun strip_zeros :: "bytes \<Rightarrow> bytes" where
  "strip_zeros (b # c # bs) = (if b = 0 then strip_zeros (c # bs) else b # c # bs)"
| "strip_zeros bs = bs"

definition fixed_width :: "nat \<Rightarrow> bytes \<Rightarrow> bytes option" where
  "fixed_width field_bytes raw =
     (let v = strip_zeros raw
      in if v = [] \<or> v = [0] \<or> length v > field_bytes then None
         else Some (replicate (field_bytes - length v) 0 @ v))"

definition ecdsa_der_to_p1363 :: "bytes \<Rightarrow> nat \<Rightarrow> bytes option" where
  "ecdsa_der_to_p1363 der field_bytes =
     (if field_bytes = 0 \<or> der = [] \<or> der ! 0 \<noteq> 0x30 then None
      else Option.bind (parse_der_len der 1) (\<lambda>(seq_len, idx).
        if idx + seq_len \<noteq> length der then None
        else if idx \<ge> length der \<or> der ! idx \<noteq> 0x02 then None
        else Option.bind (parse_der_len der (idx + 1)) (\<lambda>(r_len, idx).
        if idx + r_len > length der then None
        else let r_raw = take r_len (drop idx der); idx = idx + r_len
        in if idx \<ge> length der \<or> der ! idx \<noteq> 0x02 then None
        else Option.bind (parse_der_len der (idx + 1)) (\<lambda>(s_len, idx).
        if idx + s_len \<noteq> length der then None
        else let s_raw = take s_len (drop idx der)
        in Option.bind (fixed_width field_bytes r_raw) (\<lambda>r.
           Option.bind (fixed_width field_bytes s_raw) (\<lambda>s. Some (r @ s)))))))"

definition remote_ecdsa_to_p1363 :: "bytes \<Rightarrow> nat \<Rightarrow> bytes option" where
  "remote_ecdsa_to_p1363 signature field_bytes =
     (if length signature = field_bytes * 2 then Some signature else ecdsa_der_to_p1363 signature field_bytes)"


section \<open>Properties\<close>

subsection \<open>Digests\<close>

lemma read_tlv_eq:
  "read_tlv xs = Some (t, v, r) \<longleftrightarrow> xs = t # of_nat (length v) # v @ r \<and> length v < 128"
proof (cases xs rule: read_tlv.cases)
  case (1 tag len after)
  have "unat len < 128 \<longleftrightarrow> len < 0x80"
    by (simp add: word_less_nat_alt)
  moreover have "unat (of_nat n :: u8) = n" if "n < 128" for n
    using that by (simp add: unsigned_of_nat take_bit_nat_eq_self)
  moreover have "of_nat (unat len) = len"
    by simp
  ultimately show ?thesis
    using 1 by (auto simp: DER_LONG_FORM_FLAG_def not_le min_def)
qed auto

definition digest_info :: "bytes \<Rightarrow> bytes \<Rightarrow> bytes" where
  "digest_info params d =
     [0x30, of_nat (47 + length params), 0x30, of_nat (11 + length params), 0x06, 9] @ SHA256_OID_VALUE @ params @
     [0x04, 32] @ d"

text \<open>
  (C15) The RSA path signs SHA-256 digests only: it accepts exactly the two encodings of a \<open>DigestInfo\<close>, with the
  parameters NULL or absent, around 32 bytes that are not one of the sentinels, and returns those bytes.
\<close>
theorem digest_info_exact:
  "parse_sha256_digest_info input = Inr d \<longleftrightarrow>
     length d = 32 \<and> reject_degenerate_digest d = Inr () \<and> (input = digest_info [0x05, 0x00] d \<or> input = digest_info [] d)"
  (is "?parse \<longleftrightarrow> ?exact")
proof
  assume ?parse
  then obtain body alg after_oid after_alg where *:
      "read_tlv input = Some (0x30, body, [])" "read_tlv body = Some (0x30, alg, after_alg)"
      "read_tlv alg = Some (0x06, SHA256_OID_VALUE, after_oid)" "read_tlv after_alg = Some (0x04, d, [])"
      "length d = 32" "reject_degenerate_digest d = Inr ()"
      "after_oid = [] \<or> read_tlv after_oid = Some (0x05, [], [])"
    by (auto simp: parse_sha256_digest_info_def bindR_eq_Inr ok_or_eq_Inr SHA256_DIGEST_BYTES_def
        split: if_splits option.splits prod.splits)
  then have "after_oid = [] \<or> after_oid = [0x05, 0x00]"
    by (auto simp: read_tlv_eq)
  then show ?exact
    using * by (auto simp: read_tlv_eq digest_info_def SHA256_OID_VALUE_def)
next
  assume ?exact
  then show ?parse
    by (auto simp: parse_sha256_digest_info_def digest_info_def SHA256_OID_VALUE_def SHA256_DIGEST_BYTES_def
        DER_LONG_FORM_FLAG_def)
qed

lemma fit_p384_cases:
  "fit_p384 input = Inr d \<longleftrightarrow> input \<noteq> [] \<and> reject_degenerate_digest input = Inr () \<and>
     d = replicate (48 - length input) 0 @ take 48 input"
  by (auto simp: fit_p384_def bindR_eq_Inr SHA384_DIGEST_BYTES_def Let_def min_def)

text \<open>
  The ECDSA path hands the card the integer that the caller's digest stands for: the 48 bytes have the value
  of the digest, of its leftmost 384 bits when it is longer. It refuses exactly the empty digest and the
  sentinels.
\<close>
theorem ecdsa_digest_value:
  "fit_p384 input = Inr d \<longleftrightarrow>
     input \<noteq> [] \<and> reject_degenerate_digest input = Inr () \<and>
     length d = 48 \<and> be_fold d = be_fold input div 256 ^ (length input - 48)"
proof -
  let ?fit = "replicate (48 - length input) 0 @ take 48 input"
  have "length ?fit = 48" by simp
  moreover have "be_fold ?fit = be_fold input div 256 ^ (length input - 48)"
    by (cases "length input \<le> 48") (simp_all add: be_fold_append be_fold_take)
  ultimately have "length d = 48 \<and> be_fold d = be_fold input div 256 ^ (length input - 48) \<longleftrightarrow> d = ?fit"
    using be_fold_inj [of d ?fit] by metis
  then show ?thesis
    by (simp add: fit_p384_cases)
qed


subsection \<open>Signatures in DER\<close>

lemma unat_of_nat_byte: "n < 256 \<Longrightarrow> unat (of_nat n :: u8) = n"
  by (simp add: unsigned_of_nat take_bit_nat_eq_self)

lemma short_length_bit: "n < 128 \<Longrightarrow> (of_nat n :: u8) AND 0x80 = 0"
proof (rule bit_word_eqI)
  fix k assume "n < 128" "k < LENGTH(8)"
  have "take_bit 7 n = n"
    using \<open>n < 128\<close> by (simp add: take_bit_nat_eq_self)
  then have "\<not> bit n 7"
    by (metis bit_take_bit_iff less_irrefl)
  moreover have "k \<in> {0, 1, 2, 3, 4, 5, 6, 7}"
    using \<open>k < LENGTH(8)\<close> by auto
  ultimately show "bit ((of_nat n :: u8) AND 0x80) k = bit (0 :: u8) k"
    by (auto simp: bit_simps)
qed

lemma parse_der_len_push:
  assumes "n < 65536"
  shows "parse_der_len (pre @ push_der_len n @ rest) (length pre) = Some (n, length pre + length (push_der_len n))"
proof -
  have bits: "(0x81::u8) AND 0x80 \<noteq> 0" "(0x82::u8) AND 0x80 \<noteq> 0" "unat ((0x81::u8) AND 0x7f) = 1"
      "unat ((0x82::u8) AND 0x7f) = 2"
    by simp_all
  have at: "(pre @ xs) ! length pre = hd xs" "drop (Suc (length pre)) (pre @ xs) = tl xs" if "xs \<noteq> []" for xs :: bytes
    using that by (simp_all add: nth_append hd_conv_nth drop_Suc)
  consider "n < 128" | "128 \<le> n" "n < 256" | "256 \<le> n"
    by linarith
  then show ?thesis
  proof cases
    case 1
    then show ?thesis
      by (simp add: parse_der_len_def push_der_len_def at short_length_bit unat_of_nat_byte Let_def)
  next
    case 2
    then show ?thesis
      by (simp add: parse_der_len_def push_der_len_def at bits unat_of_nat_byte Let_def)
  next
    case 3
    then have "n div 256 < 256" "n div 256 * 256 + n mod 256 = n"
      using assms by auto
    with 3 show ?thesis
      by (simp add: parse_der_len_def push_der_len_def at bits unat_of_nat_byte Let_def)
  qed
qed

lemma strip_zeros_value: "be_fold (strip_zeros bs) = be_fold bs"
  by (induction bs rule: strip_zeros.induct) auto

lemma strip_zeros_hd: "bs \<noteq> [] \<Longrightarrow> strip_zeros bs = [0] \<or> strip_zeros bs \<noteq> [] \<and> hd (strip_zeros bs) \<noteq> 0"
proof (induction bs)
  case (Cons b bs)
  then show ?case by (cases "b = 0"; cases bs) auto
qed simp

lemma be_fold_hd_bound: "bs \<noteq> [] \<Longrightarrow> hd bs \<noteq> 0 \<Longrightarrow> 256 ^ (length bs - 1) \<le> be_fold bs"
proof (cases bs)
  case (Cons b bs')
  assume "bs \<noteq> []" "hd bs \<noteq> 0"
  then obtain k where "unat b = Suc k"
    using Cons by (metis list.sel(1) not0_implies_Suc unat_eq_zero)
  then show ?thesis using Cons by simp
qed simp

lemma fixed_width_total:
  assumes "0 < be_fold raw" "be_fold raw < 256 ^ n"
  shows "\<exists>out. fixed_width n raw = Some out"
proof -
  let ?v = "strip_zeros raw"
  have "raw \<noteq> []" "?v \<noteq> [0]"
    using assms strip_zeros_value [of raw] by auto
  then have hd: "?v \<noteq> []" "hd ?v \<noteq> 0"
    using strip_zeros_hd [of raw] by auto
  have "256 ^ (length ?v - 1) \<le> be_fold raw"
    using be_fold_hd_bound [OF hd] strip_zeros_value [of raw] by metis
  then have "(256::nat) ^ (length ?v - 1) < 256 ^ n"
    using assms(2) by (rule le_less_trans)
  then have "length ?v - 1 < n"
    by (rule power_less_imp_less_exp [rotated]) simp
  then show ?thesis
    using hd \<open>?v \<noteq> [0]\<close> by (auto simp: fixed_width_def Let_def)
qed

lemma fixed_width_eq:
  "fixed_width n raw = Some out \<longleftrightarrow>
     0 < be_fold raw \<and> length out = n \<and> be_fold out = be_fold raw"
  (is "?fix \<longleftrightarrow> ?val")
proof -
  let ?v = "strip_zeros raw"
  have sound: "0 < be_fold raw \<and> length x = n \<and> be_fold x = be_fold raw" if "fixed_width n raw = Some x" for x
  proof -
    have v: "?v \<noteq> []" "?v \<noteq> [0]" "length ?v \<le> n" "x = replicate (n - length ?v) 0 @ ?v"
      using that by (auto simp: fixed_width_def Let_def split: if_splits)
    have "hd ?v \<noteq> 0"
      using v strip_zeros_hd [of raw] by (cases raw) auto
    then have "256 ^ (length ?v - 1) \<le> be_fold ?v"
      using v be_fold_hd_bound by blast
    moreover have "(0::nat) < 256 ^ (length ?v - 1)" by simp
    ultimately have "0 < be_fold ?v" by linarith
    then show ?thesis using v by (simp add: be_fold_append strip_zeros_value)
  qed
  moreover have "fixed_width n raw = Some out" if val: ?val
  proof -
    have "be_fold raw < 256 ^ n"
      using val be_fold_less [of out] by metis
    then obtain x where "fixed_width n raw = Some x"
      using fixed_width_total val by blast
    then show ?thesis
      using sound val be_fold_inj by metis
  qed
  ultimately show ?thesis by blast
qed

definition der_signature :: "bytes \<Rightarrow> bytes \<Rightarrow> bytes" where
  "der_signature r s =
     [0x30] @ push_der_len (length (der_integer r @ der_integer s)) @ der_integer r @ der_integer s"

lemma ecdsa_der_steps:
  assumes "0 < n" "der \<noteq> []" "der ! 0 = 0x30"
    and "parse_der_len der 1 = Some (l, i)" "i + l = length der" "i < length der" "der ! i = 0x02"
    and "parse_der_len der (i + 1) = Some (lr, j)" "j + lr < length der" "der ! (j + lr) = 0x02"
    and "parse_der_len der (j + lr + 1) = Some (ls, k)" "k + ls = length der"
  shows "ecdsa_der_to_p1363 der n =
    Option.bind (fixed_width n (take lr (drop j der))) (\<lambda>r.
      Option.bind (fixed_width n (take ls (drop k der))) (\<lambda>s. Some (r @ s)))"
  using assms by (simp add: ecdsa_der_to_p1363_def Let_def)

lemma ecdsa_der_to_p1363_eq:
  assumes "length (der_integer r @ der_integer s) < 65536" "0 < n"
  shows "ecdsa_der_to_p1363 (der_signature r s) n =
    Option.bind (fixed_width n r) (\<lambda>r. Option.bind (fixed_width n s) (\<lambda>s. Some (r @ s)))"
proof -
  let ?sl = "push_der_len (length (der_integer r @ der_integer s))"
  let ?rl = "push_der_len (length r)" and ?tl = "push_der_len (length s)"
  let ?der = "der_signature r s"
  have small: "length r < 65536" "length s < 65536"
    using assms(1) by (simp_all add: der_integer_def)
  have outer: "parse_der_len ?der 1 = Some (length (der_integer r @ der_integer s), 1 + length ?sl)"
    using parse_der_len_push [OF assms(1), of "[0x30]" "der_integer r @ der_integer s"]
    by (simp add: der_signature_def)
  let ?p = "[0x30] @ ?sl @ [0x02]"
  have d1: "?der = ?p @ ?rl @ r @ der_integer s"
    by (simp add: der_signature_def der_integer_def)
  have first: "parse_der_len ?der (1 + length ?sl + 1) = Some (length r, 1 + length ?sl + 1 + length ?rl)"
    using parse_der_len_push [OF small(1), of ?p "r @ der_integer s"] d1 by simp
  let ?q = "?p @ ?rl @ r @ [0x02]"
  have d2: "?der = ?q @ ?tl @ s"
    by (simp add: der_signature_def der_integer_def)
  have second: "parse_der_len ?der (1 + length ?sl + 1 + length ?rl + length r + 1) =
      Some (length s, 1 + length ?sl + 1 + length ?rl + length r + 1 + length ?tl)"
    using parse_der_len_push [OF small(2), of ?q s, folded append_assoc [of ?q]]
    by (simp only: d2 length_append list.size) (simp add: ac_simps)
  have len: "length ?der = 1 + length ?sl + 1 + length ?rl + length r + 1 + length ?tl + length s"
    by (simp add: d2)
  have tags: "?der ! 0 = 0x30" "?der ! (1 + length ?sl) = 0x02"
      "?der ! (1 + length ?sl + 1 + length ?rl + length r) = 0x02"
    by (simp_all add: der_signature_def der_integer_def nth_append)
  have fields: "take (length r) (drop (1 + length ?sl + 1 + length ?rl) ?der) = r"
      "take (length s) (drop (1 + length ?sl + 1 + length ?rl + length r + 1 + length ?tl) ?der) = s"
    by (simp_all add: der_signature_def der_integer_def)
  have "?der \<noteq> []" and body: "1 + length ?sl + length (der_integer r @ der_integer s) = length ?der"
    by (simp_all add: der_signature_def)
  then show ?thesis
    using ecdsa_der_steps [OF assms(2) _ tags(1) outer body _ tags(2) first _ tags(3) second] fields len by simp
qed


text \<open>
  Converting the DER signature of the phone to the fixed-width form keeps both numbers: it succeeds on the
  encoding of every pair of numbers that are not zero and fit the field, however many leading zeros they are
  written with, and returns them as two halves of the field's width.
\<close>
theorem der_signature_keeps_values:
  assumes "length (der_integer r @ der_integer s) < 65536"
    and "0 < be_fold r" "be_fold r < 256 ^ n" "0 < be_fold s" "be_fold s < 256 ^ n"
  shows "\<exists>out. ecdsa_der_to_p1363 (der_signature r s) n = Some out \<and> length out = 2 * n \<and>
    be_fold (take n out) = be_fold r \<and> be_fold (drop n out) = be_fold s"
proof -
  have "0 < n" using assms(2,3) by (cases n) auto
  obtain a b where ab: "fixed_width n r = Some a" "fixed_width n s = Some b"
    using fixed_width_total assms by metis
  then have "ecdsa_der_to_p1363 (der_signature r s) n = Some (a @ b)"
    using ecdsa_der_to_p1363_eq [OF assms(1) \<open>0 < n\<close>] by simp
  then show ?thesis
    using ab [unfolded fixed_width_eq] by auto
qed

theorem der_signature_keeps_values_witness:
  "\<exists>out. ecdsa_der_to_p1363 (der_signature [0x00, 0x81] [0x00, 0x02]) 2 = Some out \<and> length out = 2 * 2 \<and>
    be_fold (take 2 out) = be_fold [0x00, 0x81] \<and> be_fold (drop 2 out) = be_fold [0x00, 0x02]"
  by (rule der_signature_keeps_values) (simp_all add: der_integer_def push_der_len_def)

text \<open>
  Whatever the phone sends, a signature that is passed on has the width of the mechanism, and one that came
  as DER has no half that is zero.
\<close>
theorem remote_signature_width:
  assumes "remote_ecdsa_to_p1363 sig n = Some out"
  shows "length out = 2 * n \<and> (length sig \<noteq> 2 * n \<longrightarrow> 0 < be_fold (take n out) \<and> 0 < be_fold (drop n out))"
  using assms
  by (auto simp: remote_ecdsa_to_p1363_def ecdsa_der_to_p1363_def Let_def fixed_width_eq
      split: if_splits Option.bind_splits)

theorem remote_signature_width_witness:
  "remote_ecdsa_to_p1363 (der_signature [1] [2]) 2 = Some [0, 1, 0, 2] \<and>
   0 < be_fold (take 2 [0, 1, 0, 2]) \<and> 0 < be_fold (drop 2 [0, 1, 0, 2])"
proof -
  have run: "remote_ecdsa_to_p1363 (der_signature [1] [2]) 2 = Some [0, 1, 0, 2]"
    by code_simp
  have "length (der_signature [1] [2]) \<noteq> 2 * 2"
    by (simp add: der_signature_def der_integer_def push_der_len_def)
  then show ?thesis
    using remote_signature_width [OF run] run by simp
qed

end
