(* ===== verification/Pkcs11_Objects.thy ===== *)
theory Pkcs11_Objects
  imports Pkcs11_Codec
begin

text \<open>
  The objects of a token (\<open>refineid-pkcs11\<close>, \<open>token.rs\<close>): handles, attributes, search and software verification.
  A parsed certificate is a record of the parts that are read from it; its parser, SHA-1 and the verification of
  a signature under a public key are parameters. Machine words of attribute values are little-endian, as
  Windows keeps them.
\<close>

section \<open>The code\<close>

subsection \<open>Attribute types and classes (\<open>ck.rs\<close>)\<close>

type_synonym CkAttributeType = CkUlong

definition CK_TRUE :: u8 where "CK_TRUE = 1"
definition CK_FALSE :: u8 where "CK_FALSE = 0"
definition CK_UNAVAILABLE_INFORMATION :: CkUlong where "CK_UNAVAILABLE_INFORMATION = - 1"
definition CKO_CERTIFICATE :: CkUlong where "CKO_CERTIFICATE = 1"
definition CKO_PUBLIC_KEY :: CkUlong where "CKO_PUBLIC_KEY = 2"
definition CKO_PRIVATE_KEY :: CkUlong where "CKO_PRIVATE_KEY = 3"
definition CKC_X_509 :: CkUlong where "CKC_X_509 = 0"
definition CK_CERTIFICATE_CATEGORY_TOKEN_USER :: CkUlong where "CK_CERTIFICATE_CATEGORY_TOKEN_USER = 1"
definition CK_CERTIFICATE_CATEGORY_AUTHORITY :: CkUlong where "CK_CERTIFICATE_CATEGORY_AUTHORITY = 2"
definition CKK_RSA :: CkUlong where "CKK_RSA = 0"
definition CKK_EC :: CkUlong where "CKK_EC = 3"
definition CKA_CLASS :: CkAttributeType where "CKA_CLASS = 0x0"
definition CKA_TOKEN :: CkAttributeType where "CKA_TOKEN = 0x1"
definition CKA_PRIVATE :: CkAttributeType where "CKA_PRIVATE = 0x2"
definition CKA_LABEL :: CkAttributeType where "CKA_LABEL = 0x3"
definition CKA_VALUE :: CkAttributeType where "CKA_VALUE = 0x11"
definition CKA_CERTIFICATE_TYPE :: CkAttributeType where "CKA_CERTIFICATE_TYPE = 0x80"
definition CKA_ISSUER :: CkAttributeType where "CKA_ISSUER = 0x81"
definition CKA_SERIAL_NUMBER :: CkAttributeType where "CKA_SERIAL_NUMBER = 0x82"
definition CKA_TRUSTED :: CkAttributeType where "CKA_TRUSTED = 0x86"
definition CKA_CERTIFICATE_CATEGORY :: CkAttributeType where "CKA_CERTIFICATE_CATEGORY = 0x87"
definition CKA_KEY_TYPE :: CkAttributeType where "CKA_KEY_TYPE = 0x100"
definition CKA_SUBJECT :: CkAttributeType where "CKA_SUBJECT = 0x101"
definition CKA_ID :: CkAttributeType where "CKA_ID = 0x102"
definition CKA_SENSITIVE :: CkAttributeType where "CKA_SENSITIVE = 0x103"
definition CKA_ENCRYPT :: CkAttributeType where "CKA_ENCRYPT = 0x104"
definition CKA_WRAP :: CkAttributeType where "CKA_WRAP = 0x106"
definition CKA_UNWRAP :: CkAttributeType where "CKA_UNWRAP = 0x107"
definition CKA_SIGN :: CkAttributeType where "CKA_SIGN = 0x108"
definition CKA_SIGN_RECOVER :: CkAttributeType where "CKA_SIGN_RECOVER = 0x109"
definition CKA_VERIFY :: CkAttributeType where "CKA_VERIFY = 0x10A"
definition CKA_DERIVE :: CkAttributeType where "CKA_DERIVE = 0x10C"
definition CKA_MODULUS :: CkAttributeType where "CKA_MODULUS = 0x120"
definition CKA_MODULUS_BITS :: CkAttributeType where "CKA_MODULUS_BITS = 0x121"
definition CKA_PUBLIC_EXPONENT :: CkAttributeType where "CKA_PUBLIC_EXPONENT = 0x122"
definition CKA_EXTRACTABLE :: CkAttributeType where "CKA_EXTRACTABLE = 0x162"
definition CKA_LOCAL :: CkAttributeType where "CKA_LOCAL = 0x163"
definition CKA_NEVER_EXTRACTABLE :: CkAttributeType where "CKA_NEVER_EXTRACTABLE = 0x164"
definition CKA_ALWAYS_SENSITIVE :: CkAttributeType where "CKA_ALWAYS_SENSITIVE = 0x165"
definition CKA_EC_PARAMS :: CkAttributeType where "CKA_EC_PARAMS = 0x180"
definition CKA_EC_POINT :: CkAttributeType where "CKA_EC_POINT = 0x181"
definition CKA_ALWAYS_AUTHENTICATE :: CkAttributeType where "CKA_ALWAYS_AUTHENTICATE = 0x202"

lemmas cka_defs = CKA_CLASS_def CKA_TOKEN_def CKA_PRIVATE_def CKA_LABEL_def CKA_VALUE_def CKA_CERTIFICATE_TYPE_def
  CKA_ISSUER_def CKA_SERIAL_NUMBER_def CKA_TRUSTED_def CKA_CERTIFICATE_CATEGORY_def CKA_KEY_TYPE_def CKA_SUBJECT_def
  CKA_ID_def CKA_SENSITIVE_def CKA_ENCRYPT_def CKA_WRAP_def CKA_UNWRAP_def CKA_SIGN_def CKA_SIGN_RECOVER_def
  CKA_VERIFY_def CKA_DERIVE_def CKA_MODULUS_def CKA_MODULUS_BITS_def CKA_PUBLIC_EXPONENT_def CKA_EXTRACTABLE_def
  CKA_LOCAL_def CKA_NEVER_EXTRACTABLE_def CKA_ALWAYS_SENSITIVE_def CKA_EC_PARAMS_def CKA_EC_POINT_def
  CKA_ALWAYS_AUTHENTICATE_def


subsection \<open>Handles\<close>

definition OBJ_CERTIFICATE :: CkObjectHandle where "OBJ_CERTIFICATE = 1"
definition OBJ_PRIVATE_KEY :: CkObjectHandle where "OBJ_PRIVATE_KEY = 2"
definition OBJ_PUBLIC_KEY :: CkObjectHandle where "OBJ_PUBLIC_KEY = 3"
definition OBJ_CA_BASE :: CkObjectHandle where "OBJ_CA_BASE = 4"

datatype ObjectKind = ObjectKind_Certificate | ObjectKind_PublicKey | ObjectKind_PrivateKey | ObjectKind_Ca nat

definition from_handle :: "CkObjectHandle \<Rightarrow> ObjectKind option" where
  "from_handle h =
     (if h = OBJ_CERTIFICATE then Some ObjectKind_Certificate
      else if h = OBJ_PRIVATE_KEY then Some ObjectKind_PrivateKey
      else if h = OBJ_PUBLIC_KEY then Some ObjectKind_PublicKey
      else if OBJ_CA_BASE \<le> h then Some (ObjectKind_Ca (unat (h - OBJ_CA_BASE)))
      else None)"

fun handle :: "ObjectKind \<Rightarrow> CkObjectHandle" where
  "handle ObjectKind_Certificate = OBJ_CERTIFICATE"
| "handle ObjectKind_PrivateKey = OBJ_PRIVATE_KEY"
| "handle ObjectKind_PublicKey = OBJ_PUBLIC_KEY"
| "handle (ObjectKind_Ca idx) =
     (let wide = unat OBJ_CA_BASE + (if idx < 2 ^ 32 then idx else 2 ^ 32 - 1)
      in if wide < 2 ^ 32 then of_nat wide else - 1)"


subsection \<open>Attribute values\<close>

datatype AttrValue = AttrValue_Borrowed bytes | AttrValue_Inline bytes nat | AttrValue_Sensitive

fun AttrValue_as_bytes :: "AttrValue \<Rightarrow> bytes option" where
  "AttrValue_as_bytes (AttrValue_Borrowed bs) = Some bs"
| "AttrValue_as_bytes (AttrValue_Inline buf len) = Some (take len buf)"
| "AttrValue_as_bytes AttrValue_Sensitive = None"

definition u32_to_ne_bytes :: "CkUlong \<Rightarrow> bytes" where
  "u32_to_ne_bytes value = rev (u32_to_be_bytes value)"

definition ulong_attr :: "CkUlong \<Rightarrow> AttrValue" where
  "ulong_attr value =
     (let bytes = u32_to_ne_bytes value in AttrValue_Inline (bytes @ replicate (8 - length bytes) 0) (length bytes))"

definition bool_attr :: "u8 \<Rightarrow> AttrValue" where
  "bool_attr value = AttrValue_Inline (value # replicate 7 0) 1"

definition non_empty :: "bytes \<Rightarrow> bytes option" where
  "non_empty bytes = (if bytes = [] then None else Some bytes)"

definition borrowed_non_empty :: "bytes \<Rightarrow> AttrValue option" where
  "borrowed_non_empty bytes = map_option AttrValue_Borrowed (non_empty bytes)"


subsection \<open>Certificates and keys\<close>

datatype EcCurve = EcCurve_Secp256r1 | EcCurve_Secp384r1 | EcCurve_BrainpoolP256r1 | EcCurve_BrainpoolP384r1 | EcCurve_Other

datatype PublicKeyAlgorithm =
  PublicKeyAlgorithm_Rsa nat | PublicKeyAlgorithm_Ec EcCurve | PublicKeyAlgorithm_EcExplicit nat | PublicKeyAlgorithm_Other

record OwnedCert =
  cert_der :: bytes
  cert_spki :: bytes
  cert_algorithm :: PublicKeyAlgorithm
  cert_rsa_key :: "(bytes \<times> bytes) option"
  cert_ec_point :: "bytes option"
  cert_issuer :: bytes
  cert_subject :: bytes
  cert_common_name :: "bytes option"
  cert_serial_der :: bytes

definition DEFAULT_LABEL :: bytes where "DEFAULT_LABEL = [0x46, 0x49, 0x4E, 0x45, 0x49, 0x44]"
definition CA_LABEL :: bytes where
  "CA_LABEL = [0x43, 0x41, 0x20, 0x43, 0x65, 0x72, 0x74, 0x69, 0x66, 0x69, 0x63, 0x61, 0x74, 0x65]"
definition EC_PARAMS_SECP384R1 :: bytes where "EC_PARAMS_SECP384R1 = [0x06, 0x05, 0x2B, 0x81, 0x04, 0x00, 0x22]"
definition DIGEST_INFO_SHA256_PREFIX :: bytes where
  "DIGEST_INFO_SHA256_PREFIX = [0x30, 0x31, 0x30, 0x0D, 0x06, 0x09, 0x60, 0x86, 0x48, 0x01, 0x65, 0x03, 0x04, 0x02, 0x01,
     0x05, 0x00, 0x04, 0x20]"

record CaObject =
  ca_cert :: OwnedCert
  ca_id :: bytes
  ca_label :: bytes
  ca_serial_der :: bytes

definition CaObject_new :: "(bytes \<Rightarrow> bytes) \<Rightarrow> OwnedCert \<Rightarrow> CaObject" where
  "CaObject_new sha1 cert = \<lparr>ca_cert = cert, ca_id = sha1 (cert_spki cert),
     ca_label = (case cert_common_name cert of None \<Rightarrow> CA_LABEL | Some cn \<Rightarrow> cn),
     ca_serial_der = der_integer (cert_serial_der cert)\<rparr>"

datatype TokenKeyMaterial = TokenKeyMaterial_Rsa bytes CkUlong bytes | TokenKeyMaterial_Ec bytes bytes

definition TokenKeyMaterial_extract :: "OwnedCert \<Rightarrow> CkRv + TokenKeyMaterial" where
  "TokenKeyMaterial_extract cert =
     (case cert_algorithm cert of
        PublicKeyAlgorithm_Rsa modulus_bits \<Rightarrow>
          (case cert_rsa_key cert of
             None \<Rightarrow> Inl CKR_DEVICE_ERROR
           | Some (modulus, public_exponent) \<Rightarrow>
               if modulus_bits < 2 ^ 32
               then Inr (TokenKeyMaterial_Rsa modulus (of_nat modulus_bits) public_exponent)
               else Inl CKR_DEVICE_ERROR)
      | PublicKeyAlgorithm_Ec EcCurve_Secp384r1 \<Rightarrow>
          (case cert_ec_point cert of
             None \<Rightarrow> Inl CKR_DEVICE_ERROR
           | Some point \<Rightarrow> Inr (TokenKeyMaterial_Ec EC_PARAMS_SECP384R1 (der_octet_string point)))
      | _ \<Rightarrow> Inl CKR_DEVICE_ERROR)"

fun key_type :: "TokenKeyMaterial \<Rightarrow> CkUlong" where
  "key_type (TokenKeyMaterial_Rsa _ _ _) = CKK_RSA"
| "key_type (TokenKeyMaterial_Ec _ _) = CKK_EC"

fun TokenKeyMaterial_mechanism :: "TokenKeyMaterial \<Rightarrow> Mechanism" where
  "TokenKeyMaterial_mechanism (TokenKeyMaterial_Rsa _ _ _) = Mechanism_RsaPkcs"
| "TokenKeyMaterial_mechanism (TokenKeyMaterial_Ec _ _) = Mechanism_Ecdsa"

record TokenObjects =
  auth_cert :: OwnedCert
  auth_cert_id :: bytes
  auth_cert_label :: bytes
  auth_cert_serial_der :: bytes
  token_serial :: string
  key_material :: TokenKeyMaterial
  ca_objects :: "CaObject list"

text \<open>\<open>parse\<close> is the certificate parser of \<open>refineid-lib-core\<close>.\<close>

definition from_cert_der :: "(bytes \<Rightarrow> bytes) \<Rightarrow> (bytes \<Rightarrow> 'p + OwnedCert) \<Rightarrow> bytes \<Rightarrow> CkRv + TokenObjects" where
  "from_cert_der sha1 parse der =
     bindR (map_err (\<lambda>_. CKR_DEVICE_ERROR) (parse der)) (\<lambda>cert.
     bindR (TokenKeyMaterial_extract cert) (\<lambda>material.
     Inr \<lparr>auth_cert = cert, auth_cert_id = sha1 (cert_spki cert),
          auth_cert_label = (case cert_common_name cert of None \<Rightarrow> DEFAULT_LABEL | Some cn \<Rightarrow> cn),
          auth_cert_serial_der = der_integer (cert_serial_der cert), token_serial = [], key_material = material,
          ca_objects = []\<rparr>))"

definition TokenObjects_mechanism :: "TokenObjects \<Rightarrow> Mechanism" where
  "TokenObjects_mechanism t = TokenKeyMaterial_mechanism (key_material t)"

definition set_token_serial :: "string \<Rightarrow> TokenObjects \<Rightarrow> TokenObjects" where
  "set_token_serial serial t = t\<lparr>token_serial := serial\<rparr>"

definition push_ca_cert :: "(bytes \<Rightarrow> bytes) \<Rightarrow> OwnedCert \<Rightarrow> TokenObjects \<Rightarrow> TokenObjects" where
  "push_ca_cert sha1 cert t =
     (if list_ex (\<lambda>obj. cert_der (ca_cert obj) = cert_der cert) (ca_objects t) then t
      else t\<lparr>ca_objects := ca_objects t @ [CaObject_new sha1 cert]\<rparr>)"


subsection \<open>Attributes\<close>

definition ca_object_attribute :: "CaObject \<Rightarrow> CkAttributeType \<Rightarrow> AttrValue option" where
  "ca_object_attribute ca attr =
     (if attr = CKA_CLASS then Some (ulong_attr CKO_CERTIFICATE)
      else if attr = CKA_CERTIFICATE_TYPE then Some (ulong_attr CKC_X_509)
      else if attr = CKA_CERTIFICATE_CATEGORY then Some (ulong_attr CK_CERTIFICATE_CATEGORY_AUTHORITY)
      else if attr \<in> {CKA_TOKEN, CKA_TRUSTED} then Some (bool_attr CK_TRUE)
      else if attr = CKA_PRIVATE then Some (bool_attr CK_FALSE)
      else if attr = CKA_LABEL then Some (AttrValue_Borrowed (ca_label ca))
      else if attr = CKA_ID then Some (AttrValue_Borrowed (ca_id ca))
      else if attr = CKA_VALUE then Some (AttrValue_Borrowed (cert_der (ca_cert ca)))
      else if attr = CKA_ISSUER then borrowed_non_empty (cert_issuer (ca_cert ca))
      else if attr = CKA_SUBJECT then borrowed_non_empty (cert_subject (ca_cert ca))
      else if attr = CKA_SERIAL_NUMBER then borrowed_non_empty (ca_serial_der ca)
      else None)"

definition certificate_attribute :: "TokenObjects \<Rightarrow> CkAttributeType \<Rightarrow> AttrValue option" where
  "certificate_attribute t attr =
     (if attr = CKA_CLASS then Some (ulong_attr CKO_CERTIFICATE)
      else if attr = CKA_CERTIFICATE_TYPE then Some (ulong_attr CKC_X_509)
      else if attr = CKA_CERTIFICATE_CATEGORY then Some (ulong_attr CK_CERTIFICATE_CATEGORY_TOKEN_USER)
      else if attr = CKA_KEY_TYPE then Some (ulong_attr (key_type (key_material t)))
      else if attr = CKA_TOKEN then Some (bool_attr CK_TRUE)
      else if attr \<in> {CKA_PRIVATE, CKA_TRUSTED, CKA_LOCAL} then Some (bool_attr CK_FALSE)
      else if attr = CKA_LABEL then Some (AttrValue_Borrowed (auth_cert_label t))
      else if attr = CKA_ID then Some (AttrValue_Borrowed (auth_cert_id t))
      else if attr = CKA_VALUE then Some (AttrValue_Borrowed (cert_der (auth_cert t)))
      else if attr = CKA_ISSUER then borrowed_non_empty (cert_issuer (auth_cert t))
      else if attr = CKA_SUBJECT then borrowed_non_empty (cert_subject (auth_cert t))
      else if attr = CKA_SERIAL_NUMBER then borrowed_non_empty (auth_cert_serial_der t)
      else None)"

text \<open>The arms on the key material that the two key objects share.\<close>

definition key_attribute :: "TokenKeyMaterial \<Rightarrow> CkAttributeType \<Rightarrow> AttrValue option" where
  "key_attribute material attr =
     (case material of
        TokenKeyMaterial_Rsa modulus modulus_bits public_exponent \<Rightarrow>
          if attr = CKA_MODULUS then Some (AttrValue_Borrowed modulus)
          else if attr = CKA_MODULUS_BITS then Some (ulong_attr modulus_bits)
          else if attr = CKA_PUBLIC_EXPONENT then Some (AttrValue_Borrowed public_exponent)
          else None
      | TokenKeyMaterial_Ec params point \<Rightarrow>
          if attr = CKA_EC_PARAMS then Some (AttrValue_Borrowed params)
          else if attr = CKA_EC_POINT then Some (AttrValue_Borrowed point)
          else None)"

definition public_key_attribute :: "TokenObjects \<Rightarrow> CkAttributeType \<Rightarrow> AttrValue option" where
  "public_key_attribute t attr =
     (if attr = CKA_CLASS then Some (ulong_attr CKO_PUBLIC_KEY)
      else if attr = CKA_KEY_TYPE then Some (ulong_attr (key_type (key_material t)))
      else if attr \<in> {CKA_TOKEN, CKA_VERIFY} then Some (bool_attr CK_TRUE)
      else if attr \<in> {CKA_PRIVATE, CKA_ENCRYPT, CKA_WRAP, CKA_DERIVE} then Some (bool_attr CK_FALSE)
      else if attr = CKA_LABEL then Some (AttrValue_Borrowed (auth_cert_label t))
      else if attr = CKA_ID then Some (AttrValue_Borrowed (auth_cert_id t))
      else if attr = CKA_SUBJECT then borrowed_non_empty (cert_subject (auth_cert t))
      else key_attribute (key_material t) attr)"

definition private_key_attribute :: "TokenObjects \<Rightarrow> CkAttributeType \<Rightarrow> AttrValue option" where
  "private_key_attribute t attr =
     (if attr = CKA_CLASS then Some (ulong_attr CKO_PRIVATE_KEY)
      else if attr = CKA_KEY_TYPE then Some (ulong_attr (key_type (key_material t)))
      else if attr \<in> {CKA_TOKEN, CKA_PRIVATE, CKA_SIGN, CKA_SENSITIVE, CKA_NEVER_EXTRACTABLE, CKA_ALWAYS_SENSITIVE}
        then Some (bool_attr CK_TRUE)
      else if attr \<in> {CKA_ALWAYS_AUTHENTICATE, CKA_EXTRACTABLE, CKA_SIGN_RECOVER, CKA_UNWRAP, CKA_DERIVE}
        then Some (bool_attr CK_FALSE)
      else if attr = CKA_LABEL then Some (AttrValue_Borrowed (auth_cert_label t))
      else if attr = CKA_ID then Some (AttrValue_Borrowed (auth_cert_id t))
      else if attr = CKA_SUBJECT then borrowed_non_empty (cert_subject (auth_cert t))
      else if attr = CKA_VALUE then Some AttrValue_Sensitive
      else key_attribute (key_material t) attr)"

fun ca_object_for_kind :: "TokenObjects \<Rightarrow> ObjectKind \<Rightarrow> CaObject option" where
  "ca_object_for_kind t (ObjectKind_Ca idx) = (if idx < length (ca_objects t) then Some (ca_objects t ! idx) else None)"
| "ca_object_for_kind t _ = None"

fun attribute :: "TokenObjects \<Rightarrow> ObjectKind \<Rightarrow> CkAttributeType \<Rightarrow> AttrValue option" where
  "attribute t ObjectKind_Certificate attr = certificate_attribute t attr"
| "attribute t ObjectKind_PublicKey attr = public_key_attribute t attr"
| "attribute t ObjectKind_PrivateKey attr = private_key_attribute t attr"
| "attribute t (ObjectKind_Ca idx) attr =
     Option.bind (ca_object_for_kind t (ObjectKind_Ca idx)) (\<lambda>ca. ca_object_attribute ca attr)"

fun object_exists :: "TokenObjects \<Rightarrow> ObjectKind \<Rightarrow> bool" where
  "object_exists t (ObjectKind_Ca idx) = (idx < length (ca_objects t))"
| "object_exists t _ = True"

definition all_object_kinds :: "TokenObjects \<Rightarrow> ObjectKind list" where
  "all_object_kinds t =
     [ObjectKind_Certificate, ObjectKind_PublicKey, ObjectKind_PrivateKey] @ map ObjectKind_Ca [0..<length (ca_objects t)]"

definition matches :: "TokenObjects \<Rightarrow> ObjectKind \<Rightarrow> (CkAttributeType \<times> bytes) list \<Rightarrow> bool" where
  "matches t kind template \<longleftrightarrow> object_exists t kind \<and>
     list_all (\<lambda>(attr, wanted).
       case attribute t kind attr of None \<Rightarrow> False | Some val \<Rightarrow> AttrValue_as_bytes val = Some wanted) template"

definition matching_handles :: "TokenObjects \<Rightarrow> (CkAttributeType \<times> bytes) list \<Rightarrow> CkObjectHandle list" where
  "matching_handles t template = map handle (filter (\<lambda>kind. matches t kind template) (all_object_kinds t))"


subsection \<open>Software verification\<close>

text \<open>\<open>rsa_ok\<close> and \<open>ecdsa_ok\<close> are the verifications of \<open>refineid-lib-core\<close> under the key of the certificate.\<close>

definition strip_digest_info :: "bytes \<Rightarrow> bytes option" where
  "strip_digest_info data =
     (if take (length DIGEST_INFO_SHA256_PREFIX) data = DIGEST_INFO_SHA256_PREFIX
      then Some (drop (length DIGEST_INFO_SHA256_PREFIX) data) else None)"

definition verify_rsa_pkcs :: "(bytes \<times> bytes \<Rightarrow> bytes \<Rightarrow> bytes \<Rightarrow> bool) \<Rightarrow> TokenObjects \<Rightarrow> bytes \<Rightarrow> bytes \<Rightarrow> CkRv" where
  "verify_rsa_pkcs rsa_ok t data sig =
     (case strip_digest_info data of
        None \<Rightarrow> CKR_DATA_INVALID
      | Some digest \<Rightarrow>
          if length digest \<noteq> 32 then CKR_DATA_INVALID
          else case cert_rsa_key (auth_cert t) of
            None \<Rightarrow> CKR_DEVICE_ERROR
          | Some key \<Rightarrow> if rsa_ok key digest sig then CKR_OK else CKR_SIGNATURE_INVALID)"

definition verify_ecdsa :: "(bytes \<Rightarrow> bytes \<Rightarrow> bytes \<Rightarrow> bool) \<Rightarrow> TokenObjects \<Rightarrow> bytes \<Rightarrow> bytes \<Rightarrow> CkRv" where
  "verify_ecdsa ecdsa_ok t data sig =
     (case cert_ec_point (auth_cert t) of
        None \<Rightarrow> CKR_DEVICE_ERROR
      | Some point \<Rightarrow>
          if length data \<notin> {20, 28, 32, 48, 64} then CKR_DATA_LEN_RANGE
          else if ecdsa_ok point data sig then CKR_OK else CKR_SIGNATURE_INVALID)"

definition verify_signature ::
  "(bytes \<times> bytes \<Rightarrow> bytes \<Rightarrow> bytes \<Rightarrow> bool) \<Rightarrow> (bytes \<Rightarrow> bytes \<Rightarrow> bytes \<Rightarrow> bool) \<Rightarrow> TokenObjects \<Rightarrow> Mechanism \<Rightarrow>
     bytes \<Rightarrow> bytes \<Rightarrow> CkRv" where
  "verify_signature rsa_ok ecdsa_ok t mechanism data sig =
     (if length sig \<noteq> Mechanism_signature_len mechanism then CKR_SIGNATURE_LEN_RANGE
      else case mechanism of
        Mechanism_RsaPkcs \<Rightarrow> verify_rsa_pkcs rsa_ok t data sig
      | Mechanism_Ecdsa \<Rightarrow> verify_ecdsa ecdsa_ok t data sig)"


section \<open>Properties\<close>

fun kind_fits :: "ObjectKind \<Rightarrow> bool" where
  "kind_fits (ObjectKind_Ca idx) = (idx < 2 ^ 32 - 4)"
| "kind_fits _ = True"

lemma unat_handle_Ca: "idx < 2 ^ 32 - 4 \<Longrightarrow> unat (handle (ObjectKind_Ca idx)) = idx + 4"
  by (simp add: Let_def OBJ_CA_BASE_def unat_word_ariths unsigned_of_nat take_bit_eq_mod)

lemmas obj_defs = OBJ_CERTIFICATE_def OBJ_PRIVATE_KEY_def OBJ_PUBLIC_KEY_def OBJ_CA_BASE_def

lemma from_handle_Ca:
  assumes "h \<notin> {1, 2, 3}"
  shows "from_handle h = Some (ObjectKind_Ca idx) \<longleftrightarrow> handle (ObjectKind_Ca idx) = h \<and> idx < 2 ^ 32 - 4"
proof (cases "4 \<le> h")
  case True
  have h: "unat (h - 4) = unat h - 4" "unat h \<ge> 4" "unat h < 2 ^ 32"
    using True unsigned_less [of h] by (simp_all add: unat_sub word_le_nat_alt)
  then have "from_handle h = Some (ObjectKind_Ca idx) \<longleftrightarrow> unat h = idx + 4"
    using assms True by (auto simp: from_handle_def obj_defs)
  also have "\<dots> \<longleftrightarrow> handle (ObjectKind_Ca idx) = h \<and> idx < 2 ^ 32 - 4"
  proof
    assume "unat h = idx + 4"
    moreover from this have "idx < 2 ^ 32 - 4" using h(3) by simp
    ultimately show "handle (ObjectKind_Ca idx) = h \<and> idx < 2 ^ 32 - 4"
      using unat_handle_Ca [of idx] by (metis word_unat_eq_iff)
  next
    assume "handle (ObjectKind_Ca idx) = h \<and> idx < 2 ^ 32 - 4"
    then show "unat h = idx + 4" using unat_handle_Ca [of idx] by metis
  qed
  finally show ?thesis .
next
  case False
  then have "unat h < 4" by (simp add: word_less_nat_alt not_le)
  then have "from_handle h \<noteq> Some (ObjectKind_Ca idx)" "\<not> (handle (ObjectKind_Ca idx) = h \<and> idx < 2 ^ 32 - 4)"
    using False unat_handle_Ca [of idx] by (auto simp: from_handle_def obj_defs)
  then show ?thesis by blast
qed

lemma from_handle_iff: "from_handle h = Some kind \<longleftrightarrow> handle kind = h \<and> kind_fits kind"
proof (cases "h \<in> {1, 2, 3}")
  case True
  have "idx < 2 ^ 32 - 4 \<Longrightarrow> handle (ObjectKind_Ca idx) \<notin> {1, 2, 3}" for idx
    using unat_handle_Ca [of idx] by auto
  with True show ?thesis
    by (cases kind) (auto simp: from_handle_def obj_defs simp del: handle.simps(4))
next
  case False
  then show ?thesis
    using from_handle_Ca [OF False]
    by (cases kind) (auto simp: from_handle_def obj_defs simp del: handle.simps(4))
qed

text \<open>
  Object handles are unambiguous: a handle resolves to an object exactly when it is the handle of that object,
  for every index of a certificate authority that fits beside the three fixed handles.
\<close>
theorem object_handles_roundtrip: "from_handle h = Some kind \<longleftrightarrow> handle kind = h \<and> kind_fits kind"
  by (rule from_handle_iff)

lemma in_all_object_kinds: "kind \<in> set (all_object_kinds t) \<longleftrightarrow> object_exists t kind"
  by (cases kind) (auto simp: all_object_kinds_def)

lemma all_kinds_fit: "length (ca_objects t) < 2 ^ 32 - 4 \<Longrightarrow> object_exists t kind \<Longrightarrow> kind_fits kind"
  by (cases kind) auto

text \<open>
  (C21) A search finds exactly what it asks for: the handles it returns are distinct and are those of the objects on
  the token that answer every attribute of the template with the wanted bytes. An attribute that is absent or
  withheld matches nothing.
\<close>
theorem search_finds_matching_objects:
  assumes "length (ca_objects t) < 2 ^ 32 - 4"
  shows "distinct (matching_handles t template) \<and>
    set (matching_handles t template) =
      {h. \<exists>kind. from_handle h = Some kind \<and> object_exists t kind \<and>
        (\<forall>attr wanted. (attr, wanted) \<in> set template \<longrightarrow>
           (\<exists>val. attribute t kind attr = Some val \<and> AttrValue_as_bytes val = Some wanted))}"
proof
  have inj: "inj_on handle {kind. object_exists t kind}"
    using all_kinds_fit [OF assms] by (intro inj_onI) (metis from_handle_iff mem_Collect_eq option.inject)
  have "distinct (all_object_kinds t)"
    by (auto simp: all_object_kinds_def distinct_map inj_on_def)
  moreover have "inj_on handle (set (filter (\<lambda>kind. matches t kind template) (all_object_kinds t)))"
    using inj by (rule inj_on_subset) (auto simp: in_all_object_kinds)
  ultimately show "distinct (matching_handles t template)"
    by (simp add: matching_handles_def distinct_map)
  have "matches t kind template \<longleftrightarrow> object_exists t kind \<and>
      (\<forall>attr wanted. (attr, wanted) \<in> set template \<longrightarrow>
         (\<exists>val. attribute t kind attr = Some val \<and> AttrValue_as_bytes val = Some wanted))" for kind
    unfolding matches_def list_all_iff by (fastforce split: option.splits)
  moreover have "set (matching_handles t template) = {h. \<exists>kind. from_handle h = Some kind \<and> matches t kind template}"
    using all_kinds_fit [OF assms] from_handle_iff
    by (auto simp: matching_handles_def in_all_object_kinds matches_def)
  ultimately show "set (matching_handles t template) =
      {h. \<exists>kind. from_handle h = Some kind \<and> object_exists t kind \<and>
        (\<forall>attr wanted. (attr, wanted) \<in> set template \<longrightarrow>
           (\<exists>val. attribute t kind attr = Some val \<and> AttrValue_as_bytes val = Some wanted))}"
    by simp
qed

text \<open>
  Verification accepts less than signing: a \<open>DigestInfo\<close> whose algorithm has no parameters is signed, and the
  verification of that signature on the same data is refused as invalid data.
\<close>
theorem verification_refuses_signed_data:
  assumes "length d = 32" "reject_degenerate_digest d = Inr ()" "length sig = RSA3072_SIGNATURE_BYTES"
  shows "parse_sha256_digest_info (digest_info [] d) = Inr d \<and>
    verify_signature rsa_ok ecdsa_ok t Mechanism_RsaPkcs (digest_info [] d) sig = CKR_DATA_INVALID"
  using assms
  by (auto simp: parse_sha256_digest_info_def digest_info_def SHA256_OID_VALUE_def SHA256_DIGEST_BYTES_def
      DER_LONG_FORM_FLAG_def verify_signature_def verify_rsa_pkcs_def strip_digest_info_def DIGEST_INFO_SHA256_PREFIX_def)


section \<open>Witnesses\<close>

definition example_cert :: OwnedCert where
  "example_cert = \<lparr>cert_der = [0x30, 0], cert_spki = [1], cert_algorithm = PublicKeyAlgorithm_Rsa 3072,
     cert_rsa_key = Some ([5], [3]), cert_ec_point = None, cert_issuer = [6], cert_subject = [7], cert_common_name = None,
     cert_serial_der = [8]\<rparr>"

definition example_token :: TokenObjects where
  "example_token = \<lparr>auth_cert = example_cert, auth_cert_id = [9], auth_cert_label = DEFAULT_LABEL,
     auth_cert_serial_der = [2, 1, 8], token_serial = ''1'', key_material = TokenKeyMaterial_Rsa [5] 3072 [3],
     ca_objects = [CaObject_new (\<lambda>_. [10]) example_cert]\<rparr>"

theorem search_finds_matching_objects_witness:
  "set (matching_handles example_token [(CKA_ID, [9])]) =
     {h. \<exists>kind. from_handle h = Some kind \<and> object_exists example_token kind \<and>
        (\<exists>val. attribute example_token kind CKA_ID = Some val \<and> AttrValue_as_bytes val = Some [9])} \<and>
   matching_handles example_token [(CKA_ID, [9])] = [1, 3, 2]"
proof
  show "set (matching_handles example_token [(CKA_ID, [9])]) =
     {h. \<exists>kind. from_handle h = Some kind \<and> object_exists example_token kind \<and>
        (\<exists>val. attribute example_token kind CKA_ID = Some val \<and> AttrValue_as_bytes val = Some [9])}"
    using search_finds_matching_objects [of example_token "[(CKA_ID, [9])]"] by (simp add: example_token_def)
  show "matching_handles example_token [(CKA_ID, [9])] = [1, 3, 2]"
    by (simp add: matching_handles_def all_object_kinds_def matches_def example_token_def CaObject_new_def obj_defs
        certificate_attribute_def public_key_attribute_def private_key_attribute_def ca_object_attribute_def cka_defs)
qed

theorem verification_refuses_signed_data_witness:
  "verify_signature (\<lambda>_ _ _. True) (\<lambda>_ _ _. True) example_token Mechanism_RsaPkcs (digest_info [] (2 # replicate 31 0))
     (replicate 384 0) = CKR_DATA_INVALID"
  using verification_refuses_signed_data [of "2 # replicate 31 0" "replicate 384 0"]
  by (simp add: reject_degenerate_digest_def RSA3072_SIGNATURE_BYTES_def)

end
