(* ===== verification/Pkcs11_Card.thy ===== *)
theory Pkcs11_Card
  imports Pkcs11_Codec Pin_Flows Pin_Cache Sign_Ops
begin

text \<open>
  What the PKCS\#11 module does with a card (\<open>refineid-pkcs11\<close>, \<open>token.rs\<close> and \<open>sign.rs\<close>): logging in with PIN 1,
  signing with the held PIN, changing PIN 1. Each opens the card, reads its serial and its retry counter and
  applies the retry floor before a command that can spend a try. \<open>open_card\<close> is the PC/SC backend.

  The safety cache is an argument and a part of every result, of the errors too. Signing releases the lock of
  the cache while the card verifies the PIN: \<open>other\<close> is what the calls of other threads did to it meanwhile.
\<close>

section \<open>The code\<close>

type_synonym ('t, 'a) ck_io = "('t, CkRv, 'a) io"

abbreviation device_error :: "('t, 'f, 'a) io \<Rightarrow> ('t, 'a) ck_io" where
  "device_error \<equiv> map_errS (\<lambda>_. CKR_DEVICE_ERROR)"

abbreviation with_cache :: "PinSafetyCache \<Rightarrow> ('t, CkRv, 'a) io \<Rightarrow> ('t, CkRv \<times> PinSafetyCache, 'a) io" where
  "with_cache cache \<equiv> map_errS (\<lambda>e. (e, cache))"

definition live_token_serial :: "('t, 'e) transport \<Rightarrow> ('t, TokenSerial) ck_io" where
  "live_token_serial tx =
     bindS (device_error (read_token_info tx)) (\<lambda>info.
       case ti_serial_number_hex info of
         None \<Rightarrow> fail CKR_DEVICE_ERROR
       | Some hex \<Rightarrow> let serial = render_token_serial hex
                    in if TokenSerial_as_str serial = [] then fail CKR_DEVICE_ERROR else ret serial)"

definition pin1_verify_guard :: "PinStatus \<Rightarrow> CkRv + unit" where
  "pin1_verify_guard status =
     map_err (\<lambda>refusal. case refusal of
         TriesBelowFloor _ _ \<Rightarrow> CKR_PIN_LOCKED
       | Blocked _ \<Rightarrow> CKR_PIN_LOCKED
       | CounterUnreadable _ \<Rightarrow> CKR_DEVICE_ERROR)
     (check_retry_floor FlooredCredential_Pin1 status)"

text \<open>The opening that login and signing share.\<close>

definition card_open :: "('t, 'o, unit) io \<Rightarrow> ('t, 'e) transport \<Rightarrow> ('t, TokenSerial \<times> PinStatus) ck_io" where
  "card_open open_card tx =
     bindS (device_error open_card) (\<lambda>_.
     bindS (device_error (select_pkcs15_application tx)) (\<lambda>_.
     bindS (live_token_serial tx) (\<lambda>serial.
     bindS (device_error (pin_status tx PinSlot_Pin1)) (\<lambda>status.
     ret (serial, status)))))"

definition card_pin1_status ::
  "(string \<Rightarrow> ('t, 'o, unit) io) \<Rightarrow> ('t, 'e) transport \<Rightarrow> string \<Rightarrow> ('t, PinStatus) ck_io" where
  "card_pin1_status open_card tx reader_name =
     (if starts_with_rapp reader_name then ret PinStatus_Verified
      else bindS (device_error (open_card reader_name)) (\<lambda>_.
           bindS (device_error (select_pkcs15_application tx)) (\<lambda>_.
           device_error (pin_status tx PinSlot_Pin1))))"

definition login_settle ::
  "hmac \<Rightarrow> PinSafetyCache \<Rightarrow> TokenSerial \<Rightarrow> PinStatus \<Rightarrow> PinBytes \<Rightarrow> VerifyOutcome \<Rightarrow>
     ('t, CkRv \<times> PinSafetyCache, PinSafetyCache) io" where
  "login_settle hmac cache serial pin1_status pin1 outcome =
     (case outcome of
        VerifyOutcome_Ok \<Rightarrow>
          (case (if pin1_status_permits_reusable_cache pin1_status then store_pin1 hmac cache serial pin1
                 else stage_pin1_once hmac cache serial pin1) of
             (Inl _, cache') \<Rightarrow> fail (CKR_PIN_INCORRECT, cache')
           | (Inr _, cache') \<Rightarrow> ret cache')
      | VerifyOutcome_WrongPin _ \<Rightarrow> fail (CKR_PIN_INCORRECT, record_rejected hmac cache serial PinSlot_Pin1 pin1)
      | VerifyOutcome_Locked \<Rightarrow> fail (CKR_PIN_LOCKED, cache)
      | VerifyOutcome_Other _ \<Rightarrow> fail (CKR_DEVICE_ERROR, cache))"

definition card_login_local ::
  "hmac \<Rightarrow> ('t, 'o, unit) io \<Rightarrow> ('t, 'e) transport \<Rightarrow> PinSafetyCache \<Rightarrow> PinBytes \<Rightarrow>
     ('t, CkRv \<times> PinSafetyCache, PinSafetyCache) io" where
  "card_login_local hmac open_card tx cache pin1 =
     bindS (with_cache cache (card_open open_card tx)) (\<lambda>(serial, pin1_status).
     case pin1_verify_guard pin1_status of
       Inl e \<Rightarrow> fail (e, clear_positive cache)
     | Inr _ \<Rightarrow>
         if is_rejected hmac cache serial PinSlot_Pin1 pin1 then fail (CKR_PIN_INCORRECT, cache)
         else bindS (with_cache cache (device_error (verify_pin tx PinSlot_Pin1 pin1)))
                (login_settle hmac cache serial pin1_status pin1))"

definition card_login ::
  "hmac \<Rightarrow> (string \<Rightarrow> ('t, 'o, unit) io) \<Rightarrow> ('t, 'e) transport \<Rightarrow> string \<Rightarrow> PinSafetyCache \<Rightarrow> PinBytes \<Rightarrow>
     ('t, CkRv \<times> PinSafetyCache, PinSafetyCache) io" where
  "card_login hmac open_card tx reader_name cache pin1 =
     (if starts_with_rapp reader_name then ret cache else card_login_local hmac (open_card reader_name) tx cache pin1)"

definition sign_with_card :: "('t, 'e) transport \<Rightarrow> Mechanism \<Rightarrow> bytes \<Rightarrow> ('t, bytes) ck_io" where
  "sign_with_card tx mechanism input =
     (case mechanism of
        Mechanism_RsaPkcs \<Rightarrow>
          bindS (liftR (parse_sha256_digest_info input)) (\<lambda>digest.
            device_error (sign_pre_hashed_sha256_rsa_auth tx digest))
      | Mechanism_Ecdsa \<Rightarrow>
          bindS (liftR (fit_p384 input)) (\<lambda>digest.
            device_error (sign_pre_hashed_sha384_ecdsa_p384 tx KeyRef_Auth digest)))"

definition sign_settle ::
  "hmac \<Rightarrow> ('t, 'e) transport \<Rightarrow> CheckedOutPin1 \<Rightarrow> PinSafetyCache \<Rightarrow> TokenSerial \<Rightarrow> Mechanism \<Rightarrow> bytes \<Rightarrow>
     VerifyOutcome option \<Rightarrow> ('t, CkRv \<times> PinSafetyCache, bytes \<times> PinSafetyCache) io" where
  "sign_settle hmac tx checkout cache serial mechanism input outcome =
     (case outcome of
        Some VerifyOutcome_Ok \<Rightarrow>
          let cache' = restore_after_success checkout cache
          in bindS (with_cache cache' (sign_with_card tx mechanism input)) (\<lambda>sig. ret (sig, cache'))
      | Some (VerifyOutcome_WrongPin _) \<Rightarrow>
          fail (CKR_PIN_INCORRECT, record_rejected hmac cache serial PinSlot_Pin1 (CheckedOutPin1_pin checkout))
      | Some VerifyOutcome_Locked \<Rightarrow> fail (CKR_PIN_LOCKED, cache)
      | Some (VerifyOutcome_Other _) \<Rightarrow> fail (CKR_DEVICE_ERROR, cache)
      | None \<Rightarrow> fail (CKR_DEVICE_ERROR, restore_after_unanswered checkout cache))"

definition card_sign_local ::
  "hmac \<Rightarrow> ('t, 'o, unit) io \<Rightarrow> ('t, 'e) transport \<Rightarrow> (PinSafetyCache \<Rightarrow> PinSafetyCache) \<Rightarrow> PinSafetyCache \<Rightarrow>
     Mechanism \<Rightarrow> bytes \<Rightarrow> ('t, CkRv \<times> PinSafetyCache, bytes \<times> PinSafetyCache) io" where
  "card_sign_local hmac open_card tx other cache mechanism input =
     bindS (with_cache cache (card_open open_card tx)) (\<lambda>(serial, pin1_status).
     case pin1_verify_guard pin1_status of
       Inl e \<Rightarrow> fail (e, clear_positive cache)
     | Inr _ \<Rightarrow>
         (case checkout_pin1 cache serial pin1_status of
            (None, cache') \<Rightarrow> fail (CKR_USER_NOT_LOGGED_IN, cache')
          | (Some checkout, cache') \<Rightarrow>
              bindS (okS (verify_pin tx PinSlot_Pin1 (CheckedOutPin1_pin checkout)))
                (sign_settle hmac tx checkout (other cache') serial mechanism input)))"

text \<open>A remote signature goes to the phone with the origin of the relying party; \<open>trim\<close> is \<open>str::trim\<close>.\<close>

definition ORIGIN_VARIABLES :: "string list" where "ORIGIN_VARIABLES = [''REFINEID_RP_ORIGIN'', ''REFINEID_ORIGIN'']"
definition MAX_ORIGIN_LENGTH :: nat where "MAX_ORIGIN_LENGTH = 512"

definition usable_origin :: "(string \<Rightarrow> string) \<Rightarrow> string \<Rightarrow> bool" where
  "usable_origin trim o' \<longleftrightarrow> trim o' \<noteq> [] \<and> length o' \<le> MAX_ORIGIN_LENGTH"

definition remote_origin :: "(string \<Rightarrow> string) \<Rightarrow> string option \<Rightarrow> (string \<Rightarrow> string option) \<Rightarrow> string option" where
  "remote_origin trim origin var =
     (case Option.bind origin (\<lambda>x. if usable_origin trim x then Some x else None) of
        Some x \<Rightarrow> Some x
      | None \<Rightarrow> Option.bind (find_map var ORIGIN_VARIABLES) (\<lambda>x. if usable_origin trim x then Some x else None))"

definition strip_rapp :: "string \<Rightarrow> string option" where
  "strip_rapp name = (if take 5 name = ''rapp:'' then Some (drop 5 name) else None)"

definition card_sign_with_origin_source ::
  "(string \<Rightarrow> string) \<Rightarrow> (string \<Rightarrow> string \<Rightarrow> Mechanism \<Rightarrow> bytes \<Rightarrow> ('t, bytes) ck_io) \<Rightarrow>
     hmac \<Rightarrow> (string \<Rightarrow> ('t, 'o, unit) io) \<Rightarrow> ('t, 'e) transport \<Rightarrow> (PinSafetyCache \<Rightarrow> PinSafetyCache) \<Rightarrow> string \<Rightarrow>
     PinSafetyCache \<Rightarrow> Mechanism \<Rightarrow> bytes \<Rightarrow> string option \<Rightarrow> (string \<Rightarrow> string option) \<Rightarrow>
     ('t, CkRv \<times> PinSafetyCache, bytes \<times> PinSafetyCache) io" where
  "card_sign_with_origin_source trim remote hmac open_card tx other reader_name cache mechanism input origin var =
     (case strip_rapp reader_name of
        Some hex_id \<Rightarrow>
          (case remote_origin trim origin var of
             None \<Rightarrow> fail (CKR_ARGUMENTS_BAD, cache)
           | Some effective_origin \<Rightarrow>
               bindS (with_cache cache (remote hex_id effective_origin mechanism input)) (\<lambda>sig. ret (sig, cache)))
      | None \<Rightarrow> card_sign_local hmac (open_card reader_name) tx other cache mechanism input)"

definition card_change_pin1 ::
  "fid \<Rightarrow> (bytes \<Rightarrow> 'p + 'aod) \<Rightarrow> ('aod, 'r) range_ops \<Rightarrow> ('t, 'o, unit) io \<Rightarrow> ('t, 'e) transport \<Rightarrow>
     PinBytes \<Rightarrow> PinBytes \<Rightarrow> ('t, unit) ck_io" where
  "card_change_pin1 ef_aod parse_aod ops open_card tx current_pin1 new_pin1 =
     bindS (device_error open_card) (\<lambda>_.
     bindS (device_error (select_pkcs15_application tx)) (\<lambda>_.
     bindS (device_error (pin_status tx PinSlot_Pin1)) (\<lambda>status.
     bindS (liftR (pin1_verify_guard status)) (\<lambda>_.
     bindS (device_error (read_card_pin_lengths ef_aod parse_aod ops tx)) (\<lambda>lengths.
     bindS (map_errS (\<lambda>e. case e of AuthError_PinPolicy _ \<Rightarrow> CKR_PIN_LEN_RANGE | AuthError_Transport _ \<Rightarrow> CKR_DEVICE_ERROR)
              (change_pin ops tx lengths PinSlot_Pin1 current_pin1 new_pin1)) (\<lambda>outcome.
     case outcome of
       ChangePinOutcome_Ok \<Rightarrow> ret ()
     | ChangePinOutcome_WrongCurrentPin _ \<Rightarrow> fail CKR_PIN_INCORRECT
     | ChangePinOutcome_Locked \<Rightarrow> fail CKR_PIN_LOCKED
     | ChangePinOutcome_LengthError \<Rightarrow> fail CKR_PIN_LEN_RANGE
     | ChangePinOutcome_Other _ \<Rightarrow> fail CKR_DEVICE_ERROR))))))"


section \<open>Properties\<close>

subsection \<open>The opening\<close>

lemma run_bindS:
  assumes m: "emits m Ra" and f: "\<And>x. emits (f x) (Rb x)" and run: "bindS m f ([], s) = (r, (log, s'))"
  obtains e where "fst (m ([], s)) = Inl e" "r = Inl e" "Ra (Inl e) log"
    | x pre mods where "fst (m ([], s)) = Inr x" "log = pre @ mods" "Ra (Inr x) pre" "Rb x r mods"
proof -
  obtain q pre t where q: "m ([], s) = (q, (pre, t))" by (metis prod.collapse)
  have pre: "Ra q pre" using emits_run [OF m q] .
  show thesis
  proof (cases q)
    case (Inl e)
    then show thesis using that(1) q pre run by (simp add: bindS_def)
  next
    case (Inr x)
    then have "f x (pre, t) = (r, (log, s'))" using q run by (simp add: bindS_def)
    then obtain mods where "log = pre @ mods" "Rb x r mods"
      using f [of x] by (metis emitsD fst_conv snd_conv)
    then show thesis using that(2) q pre Inr by simp
  qed
qed

lemma live_token_serial_silent [only_sends_intros]: "only_sends silent (live_token_serial (journaled tx))"
proof -
  have "only_sends silent (read_token_info (journaled tx))"
    by (auto simp: read_token_info_def read_binary_der_object_def intro!: only_sends_intros read_der_loop_silent)
  then show ?thesis
    by (auto simp: live_token_serial_def Let_def intro!: only_sends_intros split: option.splits)
qed

lemma sees_silent_then:
  assumes "only_sends silent m" "\<And>x. sees (f x) Q" "\<And>y A B. Q y A \<Longrightarrow> A \<subseteq> B \<Longrightarrow> Q y B"
  shows "sees (bindS m f) Q"
  by (rule sees_bindS [OF sees_silent [OF assms(1)] assms(2)]) (rule assms(3), auto)

abbreviation pin1_seen :: "PinStatus \<Rightarrow> 'e exchange set \<Rightarrow> bool" where
  "pin1_seen \<equiv> pin_status_seen PinReferenceScheme_Citizen PinSlot_Pin1"

lemma sees_card_open:
  "sees (card_open (unlogged open_card) (journaled tx)) (\<lambda>x. pin1_seen (snd x))"
proof -
  have "sees (bindS (device_error (pin_status (journaled tx) PinSlot_Pin1)) (\<lambda>status. ret (serial, status)))
      (\<lambda>x. pin1_seen (snd x))" for serial :: TokenSerial
    unfolding pin_status_def by (rule sees_bind_ret [OF sees_map_errS [OF sees_pin_status]]) simp
  then have "sees (bindS (live_token_serial (journaled tx)) (\<lambda>serial.
      bindS (device_error (pin_status (journaled tx) PinSlot_Pin1)) (\<lambda>status. ret (serial, status))))
      (\<lambda>x. pin1_seen (snd x))"
    by (rule sees_silent_then [OF live_token_serial_silent]) (auto intro: pin_status_seen_mono)
  then have "sees (bindS (device_error (select_pkcs15_application (journaled tx))) (\<lambda>_.
      bindS (live_token_serial (journaled tx)) (\<lambda>serial.
      bindS (device_error (pin_status (journaled tx) PinSlot_Pin1)) (\<lambda>status. ret (serial, status)))))
      (\<lambda>x. pin1_seen (snd x))"
    by (intro sees_silent_then [OF only_sends_map_errS [OF select_walks_silent(1)]]) (auto intro: pin_status_seen_mono)
  then show ?thesis
    unfolding card_open_def
    by (intro sees_silent_then [OF only_sends_map_errS [OF only_sends_unlogged]]) (auto intro: pin_status_seen_mono)
qed

lemma card_open_emits:
  "emits (with_cache cache (card_open (unlogged open_card) (journaled tx)))
     (\<lambda>r sent. list_all (\<lambda>x. silent (fst x)) sent \<and> (\<forall>x. r = Inr x \<longrightarrow> pin1_seen (snd x) (set sent)))"
  using sees_map_errS [OF sees_card_open] unfolding sees_def .

lemma with_cache_fst: "fst (with_cache cache m st) = Inr x \<longleftrightarrow> fst (m st) = Inr x"
  by (cases "m st") (auto simp: map_errS_def)


subsection \<open>Logging in\<close>

abbreviation present_pin1 :: "PinBytes \<Rightarrow> CommandApdu" where
  "present_pin1 pin \<equiv>
     verify_apdu (CredentialReference_Pin PinReferenceScheme_Citizen PinSlot_Pin1) PinReferenceScheme_Citizen (PinBytes_as_bytes pin)"

lemma emits_verify_pin1:
  assumes "PinBytes_wf pin"
  shows "emits (verify_pin (journaled tx) PinSlot_Pin1 pin) (presented_once (present_pin1 pin) classify_verify_sw)"
  unfolding verify_pin_def by (rule emits_verify_direct [OF assms]) (simp add: gates_esign_directory_def)

definition answered :: "'e + TransportOutcome \<Rightarrow> VerifyOutcome \<Rightarrow> bool" where
  "answered reply outcome \<longleftrightarrow>
     (\<exists>x. reply = Inr (TransportOutcome_Response x) \<and> outcome = classify_verify_sw (ResponseApdu_status_word x))"

text \<open>The result of a login once the card has answered.\<close>

definition login_result ::
  "hmac \<Rightarrow> PinSafetyCache \<Rightarrow> TokenSerial \<Rightarrow> PinStatus \<Rightarrow> PinBytes \<Rightarrow> VerifyOutcome \<Rightarrow>
     (CkRv \<times> PinSafetyCache) + PinSafetyCache" where
  "login_result hmac cache serial status pin1 outcome =
     (case outcome of
        VerifyOutcome_Ok \<Rightarrow>
          Inr (cache\<lparr>held_pin1 := Some \<lparr>held_serial = serial, held_pin = pin1, held_generation = generation cache + 1,
            held_retention = if status = PinStatus_Remaining (PinRetries 5) then Pin1Retention_Reusable
                             else Pin1Retention_OneShot\<rparr>, generation := generation cache + 1\<rparr>)
      | VerifyOutcome_WrongPin _ \<Rightarrow> Inl (CKR_PIN_INCORRECT, record_rejected hmac cache serial PinSlot_Pin1 pin1)
      | VerifyOutcome_Locked \<Rightarrow> Inl (CKR_PIN_LOCKED, cache)
      | VerifyOutcome_Other _ \<Rightarrow> Inl (CKR_DEVICE_ERROR, cache))"


lemma liftR_sum: "liftR (Inl e) = fail e" "liftR (Inr x) = ret x"
  by (simp_all add: liftR_def fail_def ret_def)

lemma login_settle_eq:
  assumes "\<not> is_rejected hmac cache serial PinSlot_Pin1 pin1"
  shows "login_settle hmac cache serial status pin1 = (\<lambda>outcome. liftR (login_result hmac cache serial status pin1 outcome))"
proof
  fix outcome
  show "login_settle hmac cache serial status pin1 outcome = liftR (login_result hmac cache serial status pin1 outcome)"
    using assms
    by (cases outcome) (auto simp: login_settle_def store_pin1_def stage_pin1_once_def hold_pin1_def login_result_def
        cache_status_pristine clear_positive_def Let_def liftR_sum)
qed

lemma emits_login_present:
  assumes "PinBytes_wf pin"
  shows "emits (bindS (with_cache cache (device_error (verify_pin (journaled tx) PinSlot_Pin1 pin))) (\<lambda>x. liftR (g x)))
    (\<lambda>r sent. \<exists>reply. sent = [(present_pin1 pin, reply)] \<and>
       ((\<exists>outcome. answered reply outcome \<and> r = g outcome) \<or> r = Inl (CKR_DEVICE_ERROR, cache)))"
proof -
  have "emits (with_cache cache (device_error (verify_pin (journaled tx) PinSlot_Pin1 pin)))
      (\<lambda>r sent. \<exists>reply. sent = [(present_pin1 pin, reply)] \<and>
        (case r of Inl e \<Rightarrow> e = (CKR_DEVICE_ERROR, cache) | Inr outcome \<Rightarrow> answered reply outcome))"
  proof (rule emits_weaken [OF emits_map_errS [OF emits_map_errS [OF emits_verify_pin1 [OF assms]]]], elim exE conjE)
    fix r sent q qa
    assume "r = map_err (\<lambda>e. (e, cache)) q" "q = map_err (\<lambda>_. CKR_DEVICE_ERROR) qa"
      "presented_once (present_pin1 pin) classify_verify_sw qa sent"
    then show "\<exists>reply. sent = [(present_pin1 pin, reply)] \<and>
        (case r of Inl e \<Rightarrow> e = (CKR_DEVICE_ERROR, cache) | Inr outcome \<Rightarrow> answered reply outcome)"
      by (cases qa) (auto simp: presented_once_def answered_def)
  qed
  then show ?thesis
    by (rule emits_bindS [OF _ emits_liftR]) auto
qed

lemma card_login_run:
  assumes "PinBytes_wf pin1"
    and "card_login_local hmac (unlogged open_card) (journaled tx) cache pin1 ([], s) = (r, (log, s'))"
  shows "(\<exists>e. r = Inl e) \<and> list_all (\<lambda>x. silent (fst x)) log \<or>
    (\<exists>serial status pre reply.
       fst (card_open (unlogged open_card) (journaled tx) ([], s)) = Inr (serial, status) \<and>
       log = pre @ [(present_pin1 pin1, reply)] \<and> list_all (\<lambda>x. silent (fst x)) pre \<and>
       pin1_seen status (set pre) \<and> check_retry_floor FlooredCredential_Pin1 status = Inr () \<and>
       \<not> is_rejected hmac cache serial PinSlot_Pin1 pin1 \<and>
       ((\<exists>outcome. answered reply outcome \<and> r = login_result hmac cache serial status pin1 outcome) \<or>
        r = Inl (CKR_DEVICE_ERROR, cache)))"
proof -
  let ?then = "\<lambda>(serial, status).
       case pin1_verify_guard status of
         Inl e \<Rightarrow> fail (e, clear_positive cache)
       | Inr _ \<Rightarrow>
           if is_rejected hmac cache serial PinSlot_Pin1 pin1 then fail (CKR_PIN_INCORRECT, cache)
           else bindS (with_cache cache (device_error (verify_pin (journaled tx) PinSlot_Pin1 pin1)))
             (login_settle hmac cache serial status pin1)"
  let ?Rb = "\<lambda>(serial, status) r sent. (\<exists>e. r = Inl e) \<and> sent = [] \<or>
      check_retry_floor FlooredCredential_Pin1 status = Inr () \<and> \<not> is_rejected hmac cache serial PinSlot_Pin1 pin1 \<and>
      (\<exists>reply. sent = [(present_pin1 pin1, reply)] \<and>
       ((\<exists>outcome. answered reply outcome \<and> r = login_result hmac cache serial status pin1 outcome) \<or>
        r = Inl (CKR_DEVICE_ERROR, cache)))"
  have step: "emits (?then x) (?Rb x)" for x
  proof (cases x)
    case (Pair serial status)
    consider e where "pin1_verify_guard status = Inl e"
      | "pin1_verify_guard status = Inr ()" "is_rejected hmac cache serial PinSlot_Pin1 pin1"
      | "check_retry_floor FlooredCredential_Pin1 status = Inr ()" "\<not> is_rejected hmac cache serial PinSlot_Pin1 pin1"
      by (cases "pin1_verify_guard status") (auto simp: pin1_verify_guard_def)
    then show ?thesis
    proof cases
      case 3
      have "emits (bindS (with_cache cache (device_error (verify_pin (journaled tx) PinSlot_Pin1 pin1)))
          (\<lambda>outcome. liftR (login_result hmac cache serial status pin1 outcome))) (?Rb (serial, status))"
        by (rule emits_weaken [OF emits_login_present [OF assms(1)]]) (use 3 in auto)
      then show ?thesis
        using 3 by (simp add: Pair pin1_verify_guard_def login_settle_eq)
    qed (simp_all add: Pair emits_weaken [OF emits_fail])
  qed
  show ?thesis
    using assms(2) unfolding card_login_local_def
    by (rule run_bindS [OF card_open_emits step]) (auto simp: with_cache_fst)
qed

text \<open>
  \<open>C_Login\<close>: PIN 1 is presented at most once and last, and only when the card has just shown a retry counter
  that the floor admits and the PIN is not remembered as refused by this card. Otherwise nothing is presented
  and the login fails. It succeeds exactly when the card accepts the PIN, which is then held for this card's
  serial, for reuse only if no try was spent before; a refused PIN is remembered.
\<close>
theorem login_guarded:
  assumes "PinBytes_wf pin1"
    and "card_login_local hmac (unlogged open_card) (journaled tx) cache pin1 ([], s) = (r, (log, s'))"
  shows "(\<exists>e. r = Inl e) \<and> list_all (\<lambda>x. silent (fst x)) log \<or>
    (\<exists>serial status pre reply.
       fst (card_open (unlogged open_card) (journaled tx) ([], s)) = Inr (serial, status) \<and>
       log = pre @ [(present_pin1 pin1, reply)] \<and> list_all (\<lambda>x. silent (fst x)) pre \<and>
       pin1_seen status (set pre) \<and> check_retry_floor FlooredCredential_Pin1 status = Inr () \<and>
       \<not> is_rejected hmac cache serial PinSlot_Pin1 pin1 \<and>
       ((\<exists>outcome. answered reply outcome \<and> r = login_result hmac cache serial status pin1 outcome) \<or>
        r = Inl (CKR_DEVICE_ERROR, cache)))"
  using assms by (rule card_login_run)


subsection \<open>Signing\<close>

lemma hash_then_sign_silent:
  assumes "ExternalHashValue_wf hash"
  shows "only_sends silent (hash_then_sign (journaled tx) alg_ref key_ref hash le)"
  unfolding only_sends_def
proof (rule emits_weaken [OF emits_hash_then_sign [OF assms]])
  fix r sent
  assume "steps_done (digest_commands alg_ref key_ref hash le) r sent"
  then obtain rest where "digest_commands alg_ref key_ref hash le = map fst sent @ rest"
    unfolding steps_done_def by (elim exE conjE)
  then have "list_all silent (map fst sent)"
    using digest_commands_silent [of alg_ref key_ref hash le] by simp
  then show "list_all (\<lambda>x. silent (fst x)) sent"
    by (simp add: list.pred_map comp_def)
qed

lemma digest_lengths:
  "parse_sha256_digest_info input = Inr d \<Longrightarrow> length d = 32"
  "fit_p384 input = Inr d \<Longrightarrow> length d = 48"
  by (auto simp: parse_sha256_digest_info_def bindR_eq_Inr SHA256_DIGEST_BYTES_def fit_p384_cases
      split: if_splits)

lemma checked_length_silent: "only_sends silent m \<Longrightarrow> only_sends silent (checked_length n m)"
  by (auto simp: checked_length_def intro!: only_sends_intros)

lemma sign_with_card_silent: "only_sends silent (sign_with_card (journaled tx) mechanism input)"
proof -
  have "only_sends silent (sign_pre_hashed_sha256_rsa_auth (journaled tx) d)" if "length d = 32" for d
    using that unfolding sign_pre_hashed_sha256_rsa_auth_def sign_pre_hashed_sha256_rsa_def
    by (intro checked_length_silent hash_then_sign_silent) (simp add: ExternalHashValue_wf_def)
  moreover have "only_sends silent (sign_pre_hashed_sha384_ecdsa_p384 (journaled tx) KeyRef_Auth d)" if "length d = 48" for d
    using that unfolding sign_pre_hashed_sha384_ecdsa_p384_def
    by (intro checked_length_silent hash_then_sign_silent) (simp add: ExternalHashValue_wf_def)
  ultimately show ?thesis
    unfolding sign_with_card_def
    by (cases "parse_sha256_digest_info input"; cases "fit_p384 input")
      (auto simp: digest_lengths split: Mechanism.split intro!: only_sends_intros)
qed

lemma sign_with_card_length:
  "sign_with_card tx mechanism input s = (Inr sig, t) \<Longrightarrow> length sig = Mechanism_signature_len mechanism"
  by (auto simp: sign_with_card_def bindS_eq_Inr sign_pre_hashed_sha256_rsa_auth_def sign_pre_hashed_sha256_rsa_def
      sign_pre_hashed_sha384_ecdsa_p384_def checked_length_Inr RSA_3072_SIG_BYTES_def ECDSA_P384_SIG_BYTES_def
      RSA3072_SIGNATURE_BYTES_def ECDSA_P384_SIGNATURE_BYTES_def split: Mechanism.splits)


text \<open>What follows the answer to the presentation: nothing more is presented, and only acceptance leads to a signature.\<close>

lemma emits_sign_settle:
  "emits (sign_settle hmac (journaled tx) checkout cache serial mechanism input outcome)
     (\<lambda>r sent. list_all (\<lambda>x. silent (fst x)) sent \<and>
        (sent \<noteq> [] \<or> (\<exists>x. r = Inr x) \<longrightarrow> outcome = Some VerifyOutcome_Ok) \<and>
        (\<forall>sig c. r = Inr (sig, c) \<longrightarrow> length sig = Mechanism_signature_len mechanism))"
proof (cases "outcome = Some VerifyOutcome_Ok")
  case True
  let ?cache = "restore_after_success checkout cache"
  have "emits (with_cache ?cache (sign_with_card (journaled tx) mechanism input))
      (\<lambda>r sent. list_all (\<lambda>x. silent (fst x)) sent \<and>
        (\<forall>sig. r = Inr sig \<longrightarrow> length sig = Mechanism_signature_len mechanism))"
  proof (rule emits_weaken [OF emits_with_result [OF only_sends_map_errS [OF sign_with_card_silent, unfolded only_sends_def]]],
      intro conjI allI impI)
    fix r sent sig
    assume "list_all (\<lambda>x. silent (fst x)) sent \<and>
      (\<exists>st. r = fst (with_cache ?cache (sign_with_card (journaled tx) mechanism input) st))" "r = Inr sig"
    then obtain st where "fst (sign_with_card (journaled tx) mechanism input st) = Inr sig"
      by (metis with_cache_fst)
    then show "length sig = Mechanism_signature_len mechanism"
      using sign_with_card_length by (metis prod.collapse)
  qed simp
  then show ?thesis
    unfolding True sign_settle_def Let_def option.case VerifyOutcome.case
    by (rule emits_bindS [OF _ emits_ret]) auto
next
  case False
  then have "\<exists>e. sign_settle hmac (journaled tx) checkout cache serial mechanism input outcome = fail e"
    by (auto simp: sign_settle_def split: option.splits VerifyOutcome.splits)
  then obtain e where "sign_settle hmac (journaled tx) checkout cache serial mechanism input outcome = fail e" ..
  then show ?thesis
    by (simp only:) (rule emits_weaken [OF emits_fail], simp)
qed

lemma emits_sign_present:
  assumes "PinBytes_wf pin"
  shows "emits (bindS (okS (verify_pin (journaled tx) PinSlot_Pin1 pin)) (sign_settle hmac (journaled tx) checkout cache serial mechanism input))
    (\<lambda>r sent. \<exists>reply rest. sent = (present_pin1 pin, reply) # rest \<and> list_all (\<lambda>x. silent (fst x)) rest \<and>
       (rest \<noteq> [] \<or> (\<exists>x. r = Inr x) \<longrightarrow> answered reply VerifyOutcome_Ok) \<and>
       (\<forall>sig c. r = Inr (sig, c) \<longrightarrow> length sig = Mechanism_signature_len mechanism))"
proof -
  have "emits (okS (verify_pin (journaled tx) PinSlot_Pin1 pin))
      (\<lambda>r sent. \<exists>reply. sent = [(present_pin1 pin, reply)] \<and> (\<forall>outcome. r = Inr (Some outcome) \<longrightarrow> answered reply outcome))"
  proof (rule emits_weaken [OF emits_okS [OF emits_verify_pin1 [OF assms]]], elim exE conjE)
    fix r sent q
    assume "presented_once (present_pin1 pin) classify_verify_sw q sent" "r = Inr (result_ok q)"
    then show "\<exists>reply. sent = [(present_pin1 pin, reply)] \<and> (\<forall>outcome. r = Inr (Some outcome) \<longrightarrow> answered reply outcome)"
      by (cases q) (auto simp: presented_once_def answered_def)
  qed
  then show ?thesis
    by (rule emits_bindS [OF _ emits_sign_settle]) auto
qed

lemma checkout_held:
  "checkout_pin1 cache serial status = (Some c, cache') \<longleftrightarrow>
     (\<exists>h. held_pin1 cache = Some h \<and> c = CheckedOutPin1 h \<and> cache' = cache\<lparr>held_pin1 := None\<rparr> \<and>
        held_serial h = serial \<and> permits_held_pin1 status)"
  by (auto simp: checkout_pin1_def Let_def split: option.splits)

text \<open>What a signature sends once the card is open.\<close>

definition sign_presented ::
  "PinSafetyCache \<Rightarrow> Mechanism \<Rightarrow> TokenSerial \<times> PinStatus \<Rightarrow> 'f + bytes \<times> 'c \<Rightarrow> 'e exchange list \<Rightarrow> bool" where
  "sign_presented cache mechanism = (\<lambda>(serial, status) r sent. (\<exists>e. r = Inl e) \<and> sent = [] \<or>
      (\<exists>h reply rest. held_pin1 cache = Some h \<and> held_serial h = serial \<and>
         status \<in> {PinStatus_Verified, PinStatus_Remaining (PinRetries 5)} \<and>
         sent = (present_pin1 (held_pin h), reply) # rest \<and> list_all (\<lambda>x. silent (fst x)) rest \<and>
         (rest \<noteq> [] \<or> (\<exists>x. r = Inr x) \<longrightarrow> answered reply VerifyOutcome_Ok) \<and>
         (\<forall>sig c. r = Inr (sig, c) \<longrightarrow> length sig = Mechanism_signature_len mechanism)))"

lemma emits_sign_checked:
  assumes "\<forall>h. held_pin1 cache = Some h \<longrightarrow> PinBytes_wf (held_pin h)"
  shows "emits (case x of (serial, status) \<Rightarrow>
     case pin1_verify_guard status of
       Inl e \<Rightarrow> fail (e, clear_positive cache)
     | Inr _ \<Rightarrow>
         (case checkout_pin1 cache serial status of
            (None, cache') \<Rightarrow> fail (CKR_USER_NOT_LOGGED_IN, cache')
          | (Some checkout, cache') \<Rightarrow>
              bindS (okS (verify_pin (journaled tx) PinSlot_Pin1 (CheckedOutPin1_pin checkout)))
                (sign_settle hmac (journaled tx) checkout (other cache') serial mechanism input)))
     (sign_presented cache mechanism x)"
    (is "emits ?then _")
proof (cases x)
  case (Pair serial status)
  consider h where "held_pin1 cache = Some h" "held_serial h = serial" "permits_held_pin1 status"
      "pin1_verify_guard status = Inr ()"
    | e where "?then = fail e"
    by (cases "pin1_verify_guard status"; cases "checkout_pin1 cache serial status"; cases "fst (checkout_pin1 cache serial status)")
      (auto simp: Pair checkout_held)
  then show ?thesis
  proof cases
    case 1
    then have co: "checkout_pin1 cache serial status = (Some (CheckedOutPin1 h), cache\<lparr>held_pin1 := None\<rparr>)"
      by (simp add: checkout_held)
    have "status \<in> {PinStatus_Verified, PinStatus_Remaining (PinRetries 5)}"
      using 1(3) by (auto simp: permits_held_pin1_def cache_status_pristine split: PinStatus.splits)
    then have "emits (bindS (okS (verify_pin (journaled tx) PinSlot_Pin1 (held_pin h)))
        (sign_settle hmac (journaled tx) (CheckedOutPin1 h) (other (cache\<lparr>held_pin1 := None\<rparr>)) serial mechanism input))
        (sign_presented cache mechanism (serial, status))"
      using 1 by (intro emits_weaken [OF emits_sign_present [OF assms [rule_format, OF 1(1)]]]) (auto simp: sign_presented_def)
    then show ?thesis
      using 1 by (simp add: Pair co CheckedOutPin1_pin_def)
  next
    case 2
    have "emits (fail e) (sign_presented cache mechanism x)" by (rule emits_weaken [OF emits_fail]) (auto simp: sign_presented_def split: prod.split)
    then show ?thesis unfolding 2 .
  qed
qed

text \<open>
  (C16) \<open>C_Sign\<close> on a card: the held PIN 1, and no other, is presented once, after the card has shown the serial the
  PIN is held for and a counter at which a held PIN may be used; the signing commands follow only its
  acceptance, and nothing else presents a credential. A signature has the length of its mechanism. Otherwise
  the operation fails without having presented anything. This holds whatever other threads do to the cache
  meanwhile.
\<close>
theorem sign_guarded:
  assumes "\<forall>h. held_pin1 cache = Some h \<longrightarrow> PinBytes_wf (held_pin h)"
    and "card_sign_local hmac (unlogged open_card) (journaled tx) other cache mechanism input ([], s) = (r, (log, s'))"
  shows "(\<exists>e. r = Inl e) \<and> list_all (\<lambda>x. silent (fst x)) log \<or>
    (\<exists>h status pre reply rest.
       held_pin1 cache = Some h \<and>
       fst (card_open (unlogged open_card) (journaled tx) ([], s)) = Inr (held_serial h, status) \<and>
       log = pre @ (present_pin1 (held_pin h), reply) # rest \<and>
       list_all (\<lambda>x. silent (fst x)) pre \<and> list_all (\<lambda>x. silent (fst x)) rest \<and>
       pin1_seen status (set pre) \<and> status \<in> {PinStatus_Verified, PinStatus_Remaining (PinRetries 5)} \<and>
       (rest \<noteq> [] \<or> (\<exists>x. r = Inr x) \<longrightarrow> answered reply VerifyOutcome_Ok) \<and>
       (\<forall>sig c. r = Inr (sig, c) \<longrightarrow> length sig = Mechanism_signature_len mechanism))"
proof -
  from assms(2) [unfolded card_sign_local_def] show ?thesis
  proof (cases rule: run_bindS [OF card_open_emits emits_sign_checked [OF assms(1)], consumes 1])
    case (2 x pre mods)
    obtain serial status where x: "x = (serial, status)" by (cases x)
    from 2 have opened: "fst (card_open (unlogged open_card) (journaled tx) ([], s)) = Inr (serial, status)"
        "list_all (\<lambda>x. silent (fst x)) pre" "pin1_seen status (set pre)"
      by (simp_all add: x with_cache_fst)
    from 2(4) consider "\<exists>e. r = Inl e" "mods = []"
      | h reply rest where "held_pin1 cache = Some h" "held_serial h = serial"
          "status \<in> {PinStatus_Verified, PinStatus_Remaining (PinRetries 5)}"
          "mods = (present_pin1 (held_pin h), reply) # rest" "list_all (\<lambda>x. silent (fst x)) rest"
          "rest \<noteq> [] \<or> (\<exists>x. r = Inr x) \<longrightarrow> answered reply VerifyOutcome_Ok"
          "\<forall>sig c. r = Inr (sig, c) \<longrightarrow> length sig = Mechanism_signature_len mechanism"
      unfolding x sign_presented_def prod.case by blast
    then show ?thesis
    proof cases
      case 1
      then show ?thesis using opened 2 by simp
    next
      case A: 2
      show ?thesis
        using opened A 2(2) by (intro disjI2 exI [of _ h] exI [of _ status] exI [of _ pre] exI [of _ reply] exI [of _ rest]) simp
    qed
  qed simp
qed


subsection \<open>Login and signatures on one card\<close>


text \<open>An example card: PIN 1 has five tries left, is accepted, and the card signs.\<close>

abbreviation example_hmac :: hmac where
  "example_hmac \<equiv> \<lambda>k m. Some m"

definition example_cache :: PinSafetyCache where
  "example_cache = \<lparr>held_pin1 = None, generation = 0, fingerprint_key = [7], rejected_pin1 = [], rejected_pin2 = []\<rparr>"

abbreviation example_reader :: "((unit, unit) journal, unit, unit) io" where
  "example_reader \<equiv> unlogged (ret ())"

lemma example_card_open: "gives (card_open example_reader example_tx) (TokenSerial [0x41, 0x42], PinStatus_Remaining (PinRetries 5))"
proof -
  have "gives example_reader ()"
    by (simp add: gives_def unlogged_eq ret_def split_paired_all)
  moreover have "gives (live_token_serial example_tx) (TokenSerial [0x41, 0x42])"
    by (auto simp: live_token_serial_def read_token_info_def Let_def example_der
        intro!: gives_intros example_select example_files)
  moreover have "gives (pin_status example_tx PinSlot_Pin1) (PinStatus_Remaining (PinRetries 5))"
    by (auto simp: pin_status_def pin_status_with_scheme_def intro!: gives_bindS [OF example_probe(1)] gives_ret)
  ultimately show ?thesis
    unfolding card_open_def by (auto intro!: gives_intros example_select)
qed

lemma example_verify: "gives (verify_pin example_tx PinSlot_Pin1 example_pin) VerifyOutcome_Ok"
proof -
  have "CommandApdu_new (cmd_bytes (present_pin1 example_pin)) = present_pin1 example_pin"
    by (simp add: verify_apdu_def Let_def)
  then have "gives (auth_transmit example_tx (present_pin1 example_pin)) \<lparr>resp_body = [], resp_sw1 = 0x90, resp_sw2 = 0x00\<rparr>"
    by (intro gives_auth_transmit) (simp add: example_card_def verify_apdu_def Let_def CredentialBlock_push_def)
  moreover have "gives (liftR (policy_validate_ascii [49, 50, 51, 52] PIN_MIN_LENGTH 12)) ()"
    by (rule gives_liftR) (simp add: policy_validate_ascii_Inr PIN_MIN_LENGTH_def is_ascii_digit_def)
  ultimately have "gives (verify_present example_tx PinReferenceScheme_Citizen PinSlot_Pin1 example_pin) VerifyOutcome_Ok"
    by (auto simp: verify_present_def Let_def verify_command_apdu intro!: gives_bindS gives_ret)
  then show ?thesis
    by (simp add: verify_pin_def verify_pin_with_scheme_def gates_esign_directory_def)
qed

lemma gives_sign_step:
  "fst (example_card file a b (CommandApdu_new bs) ()) = Inr (TransportOutcome_Response x) \<Longrightarrow> ResponseApdu_is_ok x \<Longrightarrow>
     gives (sign_step (journaled (example_card file a b)) stage bs) (resp_body x)"
  unfolding sign_step_def by (rule gives_bindS [OF gives_map_errS [OF gives_transmit]]) (auto intro: gives_ret)

lemma example_sign: "gives (sign_with_card example_tx Mechanism_Ecdsa (replicate 48 5)) (replicate 96 1)"
proof -
  have fit: "fit_p384 (replicate 48 5) = Inr (replicate 48 5)"
    by code_simp
  have ok: "ResponseApdu_is_ok \<lparr>resp_body = body, resp_sw1 = 0x90, resp_sw2 = 0\<rparr>" for body
    by (simp add: ResponseApdu_is_ok_def)
  have "fst (example_card example_token_info 0x63 0xC5 (CommandApdu_new (CommandApdu_as_bytes (MseSet_into_apdu
      \<lparr>mse_class = ApduClass_Plain, mse_template = MseSetTemplate_DigitalSignature SHA384_ECDSA KeyRef_Auth\<rparr>))) ()) =
      Inr (TransportOutcome_Response \<lparr>resp_body = [], resp_sw1 = 0x90, resp_sw2 = 0\<rparr>)"
    by code_simp
  from gives_sign_step [OF this ok] have mse: "gives (mse_set_dst example_tx SHA384_ECDSA KeyRef_Auth) ()"
    unfolding mse_set_dst_def Let_def by (rule gives_bindS) (rule gives_ret)
  have "fst (example_card example_token_info 0x63 0xC5 (CommandApdu_new (CommandApdu_as_bytes (the (PsoHash_into_apdu
      \<lparr>psoh_class = ApduClass_Plain, psoh_mode = PsoHashMode_External (ExternalHashValue_Sha384 (replicate 48 5))\<rparr>)))) ()) =
      Inr (TransportOutcome_Response \<lparr>resp_body = [], resp_sw1 = 0x90, resp_sw2 = 0\<rparr>)"
    by code_simp
  from gives_sign_step [OF this ok] have digest: "gives (pso_hash_external example_tx (ExternalHashValue_Sha384 (replicate 48 5))) ()"
    unfolding pso_hash_external_def Let_def by (rule gives_bindS) (rule gives_ret)
  have "fst (example_card example_token_info 0x63 0xC5 (CommandApdu_new (CommandApdu_as_bytes
      (PsoCds_into_apdu_with_le (PsoComputeDigitalSignature ApduClass_Plain) LE_ECDSA_P384))) ()) =
      Inr (TransportOutcome_Response \<lparr>resp_body = replicate 96 1, resp_sw1 = 0x90, resp_sw2 = 0\<rparr>)"
    by code_simp
  from gives_sign_step [OF this ok] have cds: "gives (pso_cds_empty example_tx LE_ECDSA_P384) (replicate 96 1)"
    unfolding pso_cds_empty_def by simp
  have "gives (hash_then_sign example_tx SHA384_ECDSA KeyRef_Auth (ExternalHashValue_Sha384 (replicate 48 5)) LE_ECDSA_P384)
      (replicate 96 1)"
    unfolding hash_then_sign_def using mse digest cds
    by (auto simp: signs_digest_inline_def intro: gives_bindS)
  then show ?thesis
    unfolding sign_with_card_def Mechanism.case fit sign_pre_hashed_sha384_ecdsa_p384_def checked_length_def
    by (auto simp: ECDSA_P384_SIG_BYTES_def intro!: gives_map_errS gives_bindS gives_ret)
qed



abbreviation example_held :: PinSafetyCache where
  "example_held \<equiv> example_cache\<lparr>held_pin1 := Some \<lparr>held_serial = TokenSerial [0x41, 0x42], held_pin = example_pin,
     held_generation = 1, held_retention = Pin1Retention_Reusable\<rparr>, generation := 1\<rparr>"

lemma gives_ret_eq: "x = y \<Longrightarrow> gives (ret x) y"
  by (simp add: gives_ret)

lemma example_login: "gives (card_login_local example_hmac example_reader example_tx example_cache example_pin) example_held"
proof -
  have fresh: "\<not> is_rejected example_hmac example_cache serial PinSlot_Pin1 example_pin" for serial
    by (simp add: is_rejected_def example_cache_def)
  have "gives (bindS (with_cache example_cache (device_error (verify_pin example_tx PinSlot_Pin1 example_pin)))
      (login_settle example_hmac example_cache (TokenSerial [0x41, 0x42]) (PinStatus_Remaining (PinRetries 5)) example_pin))
      example_held"
    by (rule gives_bindS [OF gives_map_errS [OF gives_map_errS [OF example_verify]]])
      (simp add: login_settle_eq [OF fresh], rule gives_liftR, simp add: login_result_def example_cache_def)
  then show ?thesis
    unfolding card_login_local_def
    by (intro gives_bindS [OF gives_map_errS [OF example_card_open]]) (simp add: pin1_verify_guard_def example_floor fresh)
qed

theorem login_guarded_witness:
  "\<exists>r log s' pre reply. card_login_local example_hmac example_reader example_tx example_cache example_pin ([], ()) = (r, (log, s')) \<and>
     log = pre @ [(present_pin1 example_pin, reply)] \<and> list_all (\<lambda>x. silent (fst x)) pre"
proof -
  obtain log s' where run: "card_login_local example_hmac example_reader example_tx example_cache example_pin ([], ()) =
      (Inr example_held, (log, s'))"
    using gives_apply [OF example_login] by (metis prod.collapse)
  show ?thesis
    using login_guarded [OF _ run] run by auto
qed

lemma example_sign_local:
  "gives (card_sign_local example_hmac example_reader example_tx id example_held Mechanism_Ecdsa (replicate 48 5)) (replicate 96 1, example_held)"
  unfolding card_sign_local_def
  by (rule gives_bindS [OF gives_map_errS [OF example_card_open]])
    (auto simp: pin1_verify_guard_def example_floor checkout_pin1_def permits_held_pin1_def cache_status_pristine
      CheckedOutPin1_pin_def sign_settle_def restore_after_success_def CheckedOutPin1_restore_def Let_def
      intro!: gives_bindS [OF gives_okS [OF example_verify]] gives_bindS [OF gives_map_errS [OF example_sign]] gives_ret_eq)

theorem sign_guarded_witness:
  "\<exists>sig c log s' pre reply rest.
     card_sign_local example_hmac example_reader example_tx id example_held Mechanism_Ecdsa (replicate 48 5) ([], ()) =
       (Inr (sig, c), (log, s')) \<and> length sig = 96 \<and> log = pre @ (present_pin1 example_pin, reply) # rest \<and>
     list_all (\<lambda>x. silent (fst x)) pre \<and> list_all (\<lambda>x. silent (fst x)) rest"
proof -
  obtain log s' where run: "card_sign_local example_hmac example_reader example_tx id example_held Mechanism_Ecdsa
      (replicate 48 5) ([], ()) = (Inr (replicate 96 1, example_held), (log, s'))"
    using gives_apply [OF example_sign_local] by (metis prod.collapse)
  show ?thesis
    using sign_guarded [OF _ run] run by auto
qed

text \<open>
  The origin of a remote signature: a variable that is set hides the next one even when its value cannot be
  used, so the signature is refused although the other variable names an origin.
\<close>
theorem unusable_origin_hides_next:
  "remote_origin id None [''REFINEID_RP_ORIGIN'' \<mapsto> [], ''REFINEID_ORIGIN'' \<mapsto> ''https://example.fi''] = None \<and>
   remote_origin id None [''REFINEID_ORIGIN'' \<mapsto> ''https://example.fi''] = Some ''https://example.fi''"
  by (simp add: remote_origin_def ORIGIN_VARIABLES_def usable_origin_def MAX_ORIGIN_LENGTH_def)

text \<open>
  A signature that fails after the card accepted the PIN leaves the PIN held all the same: the cache is
  restored once the card has verified it, before anything is signed.
\<close>
theorem failed_signature_keeps_pin:
  assumes "card_open open_card tx s = (Inr (held_serial h, status), s1)"
    and "held_pin1 cache = Some h" "held_retention h = Pin1Retention_Reusable" "held_generation h = generation cache"
    and "status \<in> {PinStatus_Verified, PinStatus_Remaining (PinRetries 5)}"
    and "verify_pin tx PinSlot_Pin1 (held_pin h) s1 = (Inr VerifyOutcome_Ok, s2)"
    and "sign_with_card tx mechanism input s2 = (Inl e, s3)"
  shows "card_sign_local hmac open_card tx id cache mechanism input s = (Inl (e, cache), s3)"
proof -
  have "pin1_verify_guard status = Inr ()" "permits_held_pin1 status"
    using assms(5) by (auto simp: pin1_verify_guard_def floor_served_iff permits_held_pin1_def cache_status_pristine)
  then show ?thesis
    using assms
    by (simp add: card_sign_local_def bindS_def map_errS_def okS_def sign_settle_def checkout_pin1_def CheckedOutPin1_pin_def
        restore_after_success_def CheckedOutPin1_restore_def Let_def)
qed

theorem failed_signature_keeps_pin_witness:
  "\<exists>e s'. card_sign_local example_hmac example_reader example_tx id example_held Mechanism_Ecdsa [] ([], ()) =
     (Inl (e, example_held), s')"
proof -
  obtain s1 where 1: "card_open example_reader example_tx ([], ()) =
      (Inr (TokenSerial [0x41, 0x42], PinStatus_Remaining (PinRetries 5)), s1)"
    using gives_apply [OF example_card_open] by blast
  obtain s2 where 2: "verify_pin example_tx PinSlot_Pin1 example_pin s1 = (Inr VerifyOutcome_Ok, s2)"
    using gives_apply [OF example_verify] by blast
  have 3: "sign_with_card example_tx Mechanism_Ecdsa [] s2 = (Inl CKR_DATA_LEN_RANGE, s2)"
    by (simp add: sign_with_card_def fit_p384_def bindS_def)
  show ?thesis
    using failed_signature_keeps_pin [of example_reader example_tx "([], ())"
        "\<lparr>held_serial = TokenSerial [0x41, 0x42], held_pin = example_pin, held_generation = 1, held_retention = Pin1Retention_Reusable\<rparr>"
        "PinStatus_Remaining (PinRetries 5)" s1 example_held s2 Mechanism_Ecdsa "[]" CKR_DATA_LEN_RANGE s2 example_hmac] 1 2 3
    by (intro exI [of _ CKR_DATA_LEN_RANGE] exI [of _ s2]) simp
qed

end
