(* ===== verification/Pkcs11_State.thy ===== *)
theory Pkcs11_State
  imports Pkcs11_Codec Pin_Cache "HOL-Library.AList"
begin

text \<open>
  The state of the PKCS\#11 module (\<open>refineid-pkcs11\<close>, \<open>state.rs\<close>): slots bound to readers, sessions, logins,
  token objects and slot events. An ordered map is an association list read with \<^const>\<open>map_of\<close>. The PIN caches
  are shared objects that outlive the module: the process keeps them by reader name, and the module's own
  table holds for each slot the name under which its cache is kept. No thread panics while it holds a lock, so
  no lock is poisoned.

  The prober, the reader enumeration of PC/SC, the certificate parsers and the pairing vault of Windows are
  parameters; \<open>'i\<close> is the identity of a reader, \<open>'o\<close> the objects of a token and \<open>'c\<close> a certificate.
\<close>

section \<open>The code\<close>

subsection \<open>Slots and sessions\<close>

definition SLOT_ID_BASE :: CkSlotId where "SLOT_ID_BASE = 1"
definition SESSION_HANDLE_BASE :: CkSessionHandle where "SESSION_HANDLE_BASE = 1"
definition PIN1_MIN_DIGITS :: nat where "PIN1_MIN_DIGITS = 4"
definition PIN1_MAX_DIGITS :: nat where "PIN1_MAX_DIGITS = 12"

definition saturating_succ :: "CkUlong \<Rightarrow> CkUlong" where
  "saturating_succ n = (if n = - 1 then n else n + 1)"

record 'i SlotRecord =
  slot_rec_id :: CkSlotId
  slot_reader :: string
  slot_card_present :: bool
  slot_identity :: 'i

record Session =
  ses_slot_id :: CkSlotId
  ses_flags :: CkFlags
  ses_find :: "CkObjectHandle list option"
  ses_sign :: "Mechanism option"
  ses_verify :: "Mechanism option"

definition begin_find :: "CkObjectHandle list \<Rightarrow> Session \<Rightarrow> Session" where
  "begin_find handles ses = ses\<lparr>ses_find := Some handles\<rparr>"

definition next_find_batch :: "nat \<Rightarrow> Session \<Rightarrow> CkObjectHandle list option \<times> Session" where
  "next_find_batch mx ses =
     (case ses_find ses of
        None \<Rightarrow> (None, ses)
      | Some remaining \<Rightarrow>
          let wanted = min mx (length remaining)
          in (Some (take wanted remaining), ses\<lparr>ses_find := Some (drop wanted remaining)\<rparr>))"

definition take_find :: "Session \<Rightarrow> bool \<times> Session" where
  "take_find ses = (ses_find ses \<noteq> None, ses\<lparr>ses_find := None\<rparr>)"

definition begin_sign :: "Mechanism \<Rightarrow> Session \<Rightarrow> Session" where
  "begin_sign m ses = ses\<lparr>ses_sign := Some m\<rparr>"

definition session_clear_sign :: "Session \<Rightarrow> Session" where
  "session_clear_sign ses = ses\<lparr>ses_sign := None\<rparr>"

definition begin_verify :: "Mechanism \<Rightarrow> Session \<Rightarrow> Session" where
  "begin_verify m ses = ses\<lparr>ses_verify := Some m\<rparr>"

definition session_clear_verify :: "Session \<Rightarrow> Session" where
  "session_clear_verify ses = ses\<lparr>ses_verify := None\<rparr>"

definition session_state :: "CkFlags \<Rightarrow> bool \<Rightarrow> CkUlong" where
  "session_state flags logged_in =
     (case (flags AND CKF_RW_SESSION \<noteq> 0, logged_in) of
        (False, False) \<Rightarrow> CKS_RO_PUBLIC_SESSION
      | (False, True) \<Rightarrow> CKS_RO_USER_FUNCTIONS
      | (True, False) \<Rightarrow> CKS_RW_PUBLIC_SESSION
      | (True, True) \<Rightarrow> CKS_RW_USER_FUNCTIONS)"


subsection \<open>The module\<close>

record ('i, 'o) ModuleState =
  ms_slots :: "'i SlotRecord list"
  ms_next_slot_id :: CkSlotId
  ms_sessions :: "(CkSessionHandle \<times> Session) list"
  ms_next_session_handle :: CkSessionHandle
  ms_pin_caches :: "(CkSlotId \<times> string) list"
  ms_token_cache :: "(CkSlotId \<times> 'o) list"
  ms_event_reported :: "(CkSlotId \<times> bool) list"
  ms_remote_logged_in :: "CkSlotId list"

type_synonym process_caches = "(string \<times> PinSafetyCache) list"
type_synonym ('i, 'o) mp = "('i, 'o) ModuleState \<times> process_caches"

definition empty_module :: "('i, 'o) ModuleState" where
  "empty_module = \<lparr>ms_slots = [], ms_next_slot_id = SLOT_ID_BASE, ms_sessions = [],
     ms_next_session_handle = SESSION_HANDLE_BASE, ms_pin_caches = [], ms_token_cache = [], ms_event_reported = [],
     ms_remote_logged_in = []\<rparr>"

definition clear_at :: "string \<Rightarrow> process_caches \<Rightarrow> process_caches" where
  "clear_at name p = (case map_of p name of None \<Rightarrow> p | Some c \<Rightarrow> AList.update name (clear_positive c) p)"

definition clear_slot_cache :: "('i, 'o) ModuleState \<Rightarrow> CkSlotId \<Rightarrow> process_caches \<Rightarrow> process_caches" where
  "clear_slot_cache m slot_id p = (case map_of (ms_pin_caches m) slot_id of None \<Rightarrow> p | Some name \<Rightarrow> clear_at name p)"

definition invalidate_slot :: "CkSlotId \<Rightarrow> ('i, 'o) mp \<Rightarrow> ('i, 'o) mp" where
  "invalidate_slot slot_id = (\<lambda>(m, p).
     (m\<lparr>ms_token_cache := AList.delete slot_id (ms_token_cache m)\<rparr>, clear_slot_cache m slot_id p))"

definition clear_all_positive_pins :: "('i, 'o) ModuleState \<Rightarrow> process_caches \<Rightarrow> process_caches" where
  "clear_all_positive_pins m p = fold (\<lambda>(_, name). clear_at name) (ms_pin_caches m) p"

definition slot_ids :: "('i, 'o) ModuleState \<Rightarrow> CkSlotId list" where
  "slot_ids m = map slot_rec_id (ms_slots m)"

definition slot :: "('i, 'o) ModuleState \<Rightarrow> CkSlotId \<Rightarrow> 'i SlotRecord option" where
  "slot m i = find (\<lambda>s. slot_rec_id s = i) (ms_slots m)"

definition reader_name :: "('i, 'o) ModuleState \<Rightarrow> CkSlotId \<Rightarrow> string option" where
  "reader_name m slot_id = map_option slot_reader (slot m slot_id)"

definition open_session :: "('i, 'o) ModuleState \<Rightarrow> CkSlotId \<Rightarrow> CkFlags \<Rightarrow> CkSessionHandle \<times> ('i, 'o) ModuleState" where
  "open_session m slot_id flags =
     (let handle = ms_next_session_handle m
      in (handle, m\<lparr>ms_next_session_handle := saturating_succ handle,
            ms_sessions := AList.update handle
              \<lparr>ses_slot_id = slot_id, ses_flags = flags, ses_find = None, ses_sign = None, ses_verify = None\<rparr>
              (ms_sessions m)\<rparr>))"

definition session :: "('i, 'o) ModuleState \<Rightarrow> CkSessionHandle \<Rightarrow> Session option" where
  "session m handle = map_of (ms_sessions m) handle"

definition session_mut :: "(Session \<Rightarrow> Session) \<Rightarrow> CkSessionHandle \<Rightarrow> ('i, 'o) ModuleState \<Rightarrow> ('i, 'o) ModuleState" where
  "session_mut f handle m =
     (case session m handle of
        None \<Rightarrow> m
      | Some ses \<Rightarrow> m\<lparr>ms_sessions := AList.update handle (f ses) (ms_sessions m)\<rparr>)"

definition logout :: "CkSlotId \<Rightarrow> ('i, 'o) mp \<Rightarrow> ('i, 'o) mp" where
  "logout slot_id = (\<lambda>(m, p).
     (m\<lparr>ms_remote_logged_in := removeAll slot_id (ms_remote_logged_in m)\<rparr>, clear_slot_cache m slot_id p))"

definition forget_login_if_no_sessions :: "CkSlotId \<Rightarrow> ('i, 'o) mp \<Rightarrow> ('i, 'o) mp" where
  "forget_login_if_no_sessions slot_id mp =
     (if list_ex (\<lambda>(_, ses). ses_slot_id ses = slot_id) (ms_sessions (fst mp)) then mp else logout slot_id mp)"

definition close_session :: "CkSessionHandle \<Rightarrow> ('i, 'o) mp \<Rightarrow> bool \<times> ('i, 'o) mp" where
  "close_session handle = (\<lambda>(m, p).
     case session m handle of
       None \<Rightarrow> (False, (m, p))
     | Some ses \<Rightarrow>
         (True, forget_login_if_no_sessions (ses_slot_id ses)
                  (m\<lparr>ms_sessions := AList.delete handle (ms_sessions m)\<rparr>, p)))"

definition close_all_sessions :: "CkSlotId \<Rightarrow> ('i, 'o) mp \<Rightarrow> ('i, 'o) mp" where
  "close_all_sessions slot_id = (\<lambda>(m, p).
     logout slot_id (m\<lparr>ms_sessions := filter (\<lambda>(_, ses). ses_slot_id ses \<noteq> slot_id) (ms_sessions m)\<rparr>, p))"

text \<open>\<open>random\<close> is the random source behind a new cache.\<close>

definition pin_cache :: "'f + bytes \<Rightarrow> CkSlotId \<Rightarrow> ('i, 'o) mp \<Rightarrow> (CkRv + string) \<times> ('i, 'o) mp" where
  "pin_cache random slot_id = (\<lambda>(m, p).
     case map_of (ms_pin_caches m) slot_id of
       Some name \<Rightarrow> (Inr name, (m, p))
     | None \<Rightarrow>
         (case reader_name m slot_id of
            None \<Rightarrow> (Inl CKR_DEVICE_ERROR, (m, p))
          | Some name \<Rightarrow>
              let bound = m\<lparr>ms_pin_caches := AList.update slot_id name (ms_pin_caches m)\<rparr>
              in (case map_of p name of
                    Some _ \<Rightarrow> (Inr name, (bound, p))
                  | None \<Rightarrow>
                      (case PinSafetyCache_new random of
                         Inl _ \<Rightarrow> (Inl CKR_DEVICE_ERROR, (m, p))
                       | Inr cache \<Rightarrow> (Inr name, (bound, AList.update name cache p))))))"

definition set_remote_logged_in :: "CkSlotId \<Rightarrow> bool \<Rightarrow> ('i, 'o) ModuleState \<Rightarrow> ('i, 'o) ModuleState" where
  "set_remote_logged_in slot_id logged_in m =
     m\<lparr>ms_remote_logged_in :=
         (if logged_in then List.insert slot_id (ms_remote_logged_in m) else removeAll slot_id (ms_remote_logged_in m))\<rparr>"

definition is_logged_in :: "('i, 'o) mp \<Rightarrow> CkSlotId \<Rightarrow> bool" where
  "is_logged_in = (\<lambda>(m, p) slot_id.
     (case slot m slot_id of None \<Rightarrow> False | Some s \<Rightarrow> starts_with_rapp (slot_reader s)) \<or>
     slot_id \<in> set (ms_remote_logged_in m) \<or>
     (case map_of (ms_pin_caches m) slot_id of
        None \<Rightarrow> False
      | Some name \<Rightarrow> (case map_of p name of None \<Rightarrow> False | Some c \<Rightarrow> has_positive_pin1 c)))"

fun next_event :: "(CkSlotId \<times> bool) list \<Rightarrow> 'i SlotRecord list \<Rightarrow> 'i SlotRecord option" where
  "next_event reported [] = None"
| "next_event reported (s # ss) =
     (if map_of reported (slot_rec_id s) \<noteq> Some (slot_card_present s) then Some s else next_event reported ss)"

definition take_slot_event :: "('i, 'o) ModuleState \<Rightarrow> CkSlotId option \<times> ('i, 'o) ModuleState" where
  "take_slot_event m =
     (case next_event (ms_event_reported m) (ms_slots m) of
        None \<Rightarrow> (None, m)
      | Some s \<Rightarrow> (Some (slot_rec_id s),
          m\<lparr>ms_event_reported := AList.update (slot_rec_id s) (slot_card_present s) (ms_event_reported m)\<rparr>))"


subsection \<open>Refreshing the slot table\<close>

datatype FineidCardObservation = Observation_Present | Observation_Absent | Observation_TemporarilyUnavailable

definition preserves_last_known_state :: "FineidCardObservation \<Rightarrow> bool" where
  "preserves_last_known_state o' \<longleftrightarrow> o' = Observation_TemporarilyUnavailable"

record ('i, 'o) SlotProber =
  prober_enumerate :: "CkRv + (string \<times> bool) list"
  prober_probe :: "string \<Rightarrow> FineidCardObservation"
  prober_build_objects :: "string \<Rightarrow> CkRv + 'o"
  prober_reader_identity :: "string \<Rightarrow> 'i"

definition set_present :: "string \<Rightarrow> bool \<Rightarrow> 'i SlotRecord list \<Rightarrow> 'i SlotRecord list" where
  "set_present name present slots =
     (case position (\<lambda>s. slot_reader s = name) slots of
        None \<Rightarrow> slots
      | Some pos \<Rightarrow> slots[pos := (slots ! pos)\<lparr>slot_card_present := present\<rparr>])"

definition push_slot :: "string \<Rightarrow> bool \<Rightarrow> 'i \<Rightarrow> ('i, 'o) ModuleState \<Rightarrow> ('i, 'o) ModuleState" where
  "push_slot name present identity m =
     m\<lparr>ms_next_slot_id := saturating_succ (ms_next_slot_id m),
       ms_slots := ms_slots m @ [\<lparr>slot_rec_id = ms_next_slot_id m, slot_reader = name, slot_card_present = present,
         slot_identity = identity\<rparr>]\<rparr>"

definition refresh_reader :: "('i, 'o) SlotProber \<Rightarrow> string \<times> bool \<Rightarrow> ('i, 'o) mp \<Rightarrow> ('i, 'o) mp" where
  "refresh_reader prober = (\<lambda>(name, present) (m, p).
     let observation = (if present then prober_probe prober name else Observation_Absent);
         aid_present = (observation = Observation_Present)
     in if preserves_last_known_state observation then (m, p)
        else case find (\<lambda>s. slot_reader s = name) (ms_slots m) of
          Some s \<Rightarrow>
            if aid_present \<and> \<not> slot_card_present s then
              (case prober_build_objects prober name of
                 Inl _ \<Rightarrow> (m, p)
               | Inr objects \<Rightarrow>
                   (case invalidate_slot (slot_rec_id s) (m\<lparr>ms_slots := set_present name True (ms_slots m)\<rparr>, p) of
                      (m', p') \<Rightarrow> (m'\<lparr>ms_token_cache := AList.update (slot_rec_id s) objects (ms_token_cache m')\<rparr>, p')))
            else if slot_card_present s \<and> \<not> aid_present then
              invalidate_slot (slot_rec_id s) (m\<lparr>ms_slots := set_present name False (ms_slots m)\<rparr>, p)
            else (m, p)
        | None \<Rightarrow>
            if aid_present then
              (case prober_build_objects prober name of
                 Inl _ \<Rightarrow> (m, p)
               | Inr objects \<Rightarrow>
                   ((push_slot name True (prober_reader_identity prober name) m)
                      \<lparr>ms_token_cache := AList.update (ms_next_slot_id m) objects (ms_token_cache m)\<rparr>, p))
            else (m, p))"

definition refresh_slots_with :: "('i, 'o) SlotProber \<Rightarrow> ('i, 'o) mp \<Rightarrow> (CkRv + unit) \<times> ('i, 'o) mp" where
  "refresh_slots_with prober mp =
     (case prober_enumerate prober of
        Inl e \<Rightarrow> (Inl e, (fst mp, clear_all_positive_pins (fst mp) (snd mp)))
      | Inr readers \<Rightarrow> (Inr (), fold (refresh_reader prober) readers mp))"

text \<open>A pairing of the vault, with the certificate its identity is offered on, if any.\<close>

record ('i, 'c) RemotePair =
  pair_hex :: string
  pair_serves :: bool
  pair_identity :: 'i
  pair_offered :: "'c option"

definition remote_serial :: "string \<Rightarrow> string" where
  "remote_serial hex_id = ''REMOTE-'' @ take 8 hex_id"

definition remote_name :: "string \<Rightarrow> string" where
  "remote_name hex_id = ''rapp:'' @ hex_id"

definition withdraw_slot :: "string list \<Rightarrow> 'i SlotRecord \<Rightarrow> bool" where
  "withdraw_slot offering s \<longleftrightarrow>
     slot_card_present s \<and> starts_with_rapp (slot_reader s) \<and> slot_reader s \<notin> set offering"

definition withdraw_record :: "string list \<Rightarrow> 'i SlotRecord \<Rightarrow> 'i SlotRecord" where
  "withdraw_record offering s = (if withdraw_slot offering s then s\<lparr>slot_card_present := False\<rparr> else s)"

definition withdraw :: "string list \<Rightarrow> ('i, 'o) mp \<Rightarrow> ('i, 'o) mp" where
  "withdraw offering = (\<lambda>(m, p).
     let withdrawn = map slot_rec_id (filter (withdraw_slot offering) (ms_slots m));
         m' = m\<lparr>ms_slots := map (withdraw_record offering) (ms_slots m)\<rparr>
     in fold (\<lambda>i (m, p). invalidate_slot i (m\<lparr>ms_remote_logged_in := removeAll i (ms_remote_logged_in m)\<rparr>, p))
          withdrawn (m', p))"

definition refresh_pair ::
  "('c \<Rightarrow> string \<Rightarrow> CkRv + 'o) \<Rightarrow> ('i, 'c) RemotePair \<Rightarrow> ('i, 'o) ModuleState \<Rightarrow> ('i, 'o) ModuleState" where
  "refresh_pair remote_token_objects pair m =
     (let name = remote_name (pair_hex pair);
          parsed_objects = Option.bind (pair_offered pair) (\<lambda>cert. result_ok (remote_token_objects cert (remote_serial (pair_hex pair))));
          card_present = (parsed_objects \<noteq> None)
      in case find (\<lambda>s. slot_reader s = name) (ms_slots m) of
           Some s \<Rightarrow>
             let m = m\<lparr>ms_slots := set_present name card_present (ms_slots m)\<rparr>
             in (case parsed_objects of
                   None \<Rightarrow> m
                 | Some objects \<Rightarrow> m\<lparr>ms_token_cache := AList.update (slot_rec_id s) objects (ms_token_cache m)\<rparr>)
         | None \<Rightarrow>
             let i = ms_next_slot_id m; m = push_slot name card_present (pair_identity pair) m
             in (case parsed_objects of
                   None \<Rightarrow> m
                 | Some objects \<Rightarrow> m\<lparr>ms_token_cache := AList.update i objects (ms_token_cache m)\<rparr>))"

definition refresh_remote_slots ::
  "('c \<Rightarrow> string \<Rightarrow> CkRv + 'o) \<Rightarrow> ('i, 'c) RemotePair list option \<Rightarrow> ('i, 'o) mp \<Rightarrow> ('i, 'o) mp" where
  "refresh_remote_slots remote_token_objects pairs mp =
     (case pairs of
        None \<Rightarrow> mp
      | Some pairs \<Rightarrow>
          let offering = map (\<lambda>pr. remote_name (pair_hex pr)) (filter (\<lambda>pr. pair_offered pr \<noteq> None) pairs)
          in (case withdraw offering mp of (m, p) \<Rightarrow> (fold (refresh_pair remote_token_objects) pairs m, p)))"

definition refresh_slots ::
  "('i, 'o) SlotProber \<Rightarrow> ('c \<Rightarrow> string \<Rightarrow> CkRv + 'o) \<Rightarrow> ('i, 'c) RemotePair list option \<Rightarrow> ('i, 'o) mp \<Rightarrow> ('i, 'o) mp" where
  "refresh_slots prober remote_token_objects pairs mp =
     refresh_remote_slots remote_token_objects pairs (snd (refresh_slots_with prober mp))"

definition ModuleState_new ::
  "('i, 'o) SlotProber \<Rightarrow> ('c \<Rightarrow> string \<Rightarrow> CkRv + 'o) \<Rightarrow> ('i, 'c) RemotePair list option \<Rightarrow> process_caches \<Rightarrow> ('i, 'o) mp" where
  "ModuleState_new prober remote_token_objects pairs p = refresh_slots prober remote_token_objects pairs (empty_module, p)"

definition remote_objects ::
  "('c \<Rightarrow> string \<Rightarrow> CkRv + 'o) \<Rightarrow> ('i, 'c) RemotePair list option \<Rightarrow> string \<Rightarrow> CkRv + 'o" where
  "remote_objects remote_token_objects records hex_id =
     bindR (ok_or CKR_DEVICE_ERROR records) (\<lambda>records.
     bindR (ok_or CKR_DEVICE_ERROR (find (\<lambda>pr. pair_serves pr \<and> pair_hex pr = hex_id) records)) (\<lambda>pair.
     bindR (ok_or CKR_TOKEN_NOT_PRESENT (pair_offered pair)) (\<lambda>cert.
     remote_token_objects cert (remote_serial hex_id))))"

definition ensure_token ::
  "(string \<Rightarrow> CkRv + 'o) \<Rightarrow> (string \<Rightarrow> CkRv + 'o) \<Rightarrow> CkSlotId \<Rightarrow> ('i, 'o) ModuleState \<Rightarrow> (CkRv + 'o) \<times> ('i, 'o) ModuleState" where
  "ensure_token build_token_objects remote slot_id m =
     (case map_of (ms_token_cache m) slot_id of
        Some cached \<Rightarrow> (Inr cached, m)
      | None \<Rightarrow>
          (case reader_name m slot_id of
             None \<Rightarrow> (Inl CKR_DEVICE_ERROR, m)
           | Some name \<Rightarrow>
               (case (if starts_with_rapp name then remote (drop 5 name) else build_token_objects name) of
                  Inl e \<Rightarrow> (Inl e, m)
                | Inr objects \<Rightarrow>
                    (Inr objects, m\<lparr>ms_token_cache := AList.update slot_id objects (ms_token_cache m)\<rparr>))))"


section \<open>Properties\<close>

subsection \<open>The invariant\<close>

definition slots_ok :: "('i, 'o) ModuleState \<Rightarrow> bool" where
  "slots_ok m \<longleftrightarrow> unat (ms_next_slot_id m) = length (ms_slots m) + 1 \<and>
     map (unat \<circ> slot_rec_id) (ms_slots m) = [1..<length (ms_slots m) + 1] \<and> distinct (map slot_reader (ms_slots m))"

definition sessions_ok :: "('i, 'o) ModuleState \<Rightarrow> bool" where
  "sessions_ok m \<longleftrightarrow> distinct (map fst (ms_sessions m)) \<and> 0 < ms_next_session_handle m \<and>
     (\<forall>(h, ses) \<in> set (ms_sessions m). 0 < h \<and> h < ms_next_session_handle m \<and> ses_slot_id ses \<in> set (slot_ids m))"

definition caches_ok :: "('i, 'o) mp \<Rightarrow> bool" where
  "caches_ok = (\<lambda>(m, p). \<forall>(i, name) \<in> set (ms_pin_caches m).
     (\<exists>s \<in> set (ms_slots m). slot_rec_id s = i \<and> slot_reader s = name) \<and> map_of p name \<noteq> None)"

definition objects_ok :: "('i, 'o) ModuleState \<Rightarrow> bool" where
  "objects_ok m \<longleftrightarrow> (\<forall>s \<in> set (ms_slots m). slot_card_present s \<longrightarrow> map_of (ms_token_cache m) (slot_rec_id s) \<noteq> None)"

definition module_inv :: "('i, 'o) mp \<Rightarrow> bool" where
  "module_inv mp \<longleftrightarrow> slots_ok (fst mp) \<and> sessions_ok (fst mp) \<and> caches_ok mp \<and> objects_ok (fst mp)"

lemmas module_inv_defs = module_inv_def slots_ok_def sessions_ok_def caches_ok_def objects_ok_def

definition room :: "nat \<Rightarrow> ('i, 'o) ModuleState \<Rightarrow> bool" where
  "room n m \<longleftrightarrow> length (ms_slots m) + n + 2 < 2 ^ 32"

lemma slots_ok_distinct: "slots_ok m \<Longrightarrow> distinct (slot_ids m)"
  unfolding slots_ok_def slot_ids_def by (metis distinct_map distinct_upt map_map)

lemma find_key:
  "distinct (map f xs) \<Longrightarrow> find (\<lambda>x. f x = y) xs = Some x \<longleftrightarrow> x \<in> set xs \<and> f x = y"
  by (induction xs) (auto simp: rev_image_eqI)

lemma slot_eq:
  "slots_ok m \<Longrightarrow> slot m i = Some s \<longleftrightarrow> s \<in> set (ms_slots m) \<and> slot_rec_id s = i"
  unfolding slot_def using slots_ok_distinct [of m] by (simp add: slot_ids_def find_key)

lemma find_reader_eq:
  "slots_ok m \<Longrightarrow> find (\<lambda>s. slot_reader s = name) (ms_slots m) = Some s \<longleftrightarrow> s \<in> set (ms_slots m) \<and> slot_reader s = name"
  by (simp add: slots_ok_def find_key)

lemma set_present_map:
  assumes "distinct (map slot_reader slots)"
  shows "set_present name b slots = map (\<lambda>s. if slot_reader s = name then s\<lparr>slot_card_present := b\<rparr> else s) slots"
  using assms
proof (induction slots)
  case (Cons s slots)
  show ?case
  proof (cases "slot_reader s = name")
    case True
    then have "map (\<lambda>s. if slot_reader s = name then s\<lparr>slot_card_present := b\<rparr> else s) slots = slots"
      using Cons.prems by (intro map_idI) (auto simp: rev_image_eqI)
    then show ?thesis using True by (simp add: set_present_def)
  next
    case False
    then show ?thesis using Cons
      by (cases "position (\<lambda>s. slot_reader s = name) slots") (simp_all add: set_present_def del: position_eq_None)
  qed
qed (simp add: set_present_def)

text \<open>Fields that parts of the invariant do not read.\<close>

lemma inv_frame [simp]:
  "slots_ok (m\<lparr>ms_token_cache := x\<rparr>) = slots_ok m" "sessions_ok (m\<lparr>ms_token_cache := x\<rparr>) = sessions_ok m"
  "caches_ok (m\<lparr>ms_token_cache := x\<rparr>, p) = caches_ok (m, p)"
  "slots_ok (m\<lparr>ms_event_reported := y\<rparr>) = slots_ok m" "sessions_ok (m\<lparr>ms_event_reported := y\<rparr>) = sessions_ok m"
  "caches_ok (m\<lparr>ms_event_reported := y\<rparr>, p) = caches_ok (m, p)" "objects_ok (m\<lparr>ms_event_reported := y\<rparr>) = objects_ok m"
  "slots_ok (m\<lparr>ms_remote_logged_in := z\<rparr>) = slots_ok m" "sessions_ok (m\<lparr>ms_remote_logged_in := z\<rparr>) = sessions_ok m"
  "caches_ok (m\<lparr>ms_remote_logged_in := z\<rparr>, p) = caches_ok (m, p)" "objects_ok (m\<lparr>ms_remote_logged_in := z\<rparr>) = objects_ok m"
  "slots_ok (m\<lparr>ms_sessions := u\<rparr>) = slots_ok m" "caches_ok (m\<lparr>ms_sessions := u\<rparr>, p) = caches_ok (m, p)"
  "objects_ok (m\<lparr>ms_sessions := u\<rparr>) = objects_ok m"
  "slots_ok (m\<lparr>ms_next_session_handle := h\<rparr>) = slots_ok m" "caches_ok (m\<lparr>ms_next_session_handle := h\<rparr>, p) = caches_ok (m, p)"
  "objects_ok (m\<lparr>ms_next_session_handle := h\<rparr>) = objects_ok m"
  "slots_ok (m\<lparr>ms_pin_caches := w\<rparr>) = slots_ok m" "sessions_ok (m\<lparr>ms_pin_caches := w\<rparr>) = sessions_ok m"
  "objects_ok (m\<lparr>ms_pin_caches := w\<rparr>) = objects_ok m"
  by (simp_all add: slots_ok_def sessions_ok_def caches_ok_def objects_ok_def slot_ids_def)

text \<open>A change of the presence of slots that leaves their identities alone.\<close>

lemma represent_facts:
  assumes "\<And>s. slot_rec_id (f s) = slot_rec_id s" "\<And>s. slot_reader (f s) = slot_reader s"
  shows "slots_ok (m\<lparr>ms_slots := map f (ms_slots m)\<rparr>) = slots_ok m"
    "slot_ids (m\<lparr>ms_slots := map f (ms_slots m)\<rparr>) = slot_ids m"
    "sessions_ok (m\<lparr>ms_slots := map f (ms_slots m)\<rparr>) = sessions_ok m"
    "caches_ok (m\<lparr>ms_slots := map f (ms_slots m)\<rparr>, p) = caches_ok (m, p)"
  by (auto simp: slots_ok_def slot_ids_def sessions_ok_def caches_ok_def comp_def assms)


subsection \<open>Operations keep the invariant\<close>

lemma unat_saturating_succ: "unat n + 1 < 2 ^ 32 \<Longrightarrow> unat (saturating_succ n) = unat n + 1"
  by (cases "n = - 1") (simp_all add: saturating_succ_def unat_word_ariths unsigned_minus_1_eq_mask mask_eq_exp_minus_1)

lemma keys_update [simp]: "map_of (AList.update k v xs) i \<noteq> None \<longleftrightarrow> i = k \<or> map_of xs i \<noteq> None"
  by (simp add: update_conv')

lemma map_of_clear_at: "map_of (clear_at name p) = (map_of p)(name := map_option clear_positive (map_of p name))"
  by (auto simp: clear_at_def update_conv' fun_eq_iff split: option.split)

lemma clear_at_dom [simp]: "map_of (clear_at name p) i = None \<longleftrightarrow> map_of p i = None"
  by (simp add: map_of_clear_at)

lemma clear_slot_cache_dom [simp]: "map_of (clear_slot_cache m i p) n = None \<longleftrightarrow> map_of p n = None"
  by (simp add: clear_slot_cache_def split: option.split)

lemma clear_all_dom [simp]: "map_of (clear_all_positive_pins m p) n = None \<longleftrightarrow> map_of p n = None"
proof -
  have "map_of (fold (\<lambda>(_, name). clear_at name) xs p) n = None \<longleftrightarrow> map_of p n = None" for xs :: "(CkSlotId \<times> string) list"
    by (induction xs arbitrary: p) (simp_all add: split_beta)
  then show ?thesis by (simp add: clear_all_positive_pins_def)
qed

lemma caches_ok_store: "(\<And>n. map_of p n \<noteq> None \<Longrightarrow> map_of p' n \<noteq> None) \<Longrightarrow> caches_ok (m, p) \<Longrightarrow> caches_ok (m, p')"
  unfolding caches_ok_def by fastforce

lemma caches_ok_clear: "caches_ok (m, p) \<Longrightarrow> caches_ok (m, clear_slot_cache m' i p)"
  by (erule caches_ok_store [rotated]) simp

lemma set_alist_update: "set (AList.update k v xs) \<subseteq> insert (k, v) (set xs)"
  by (induction xs) auto

lemma set_alist_delete: "set (AList.delete k xs) \<subseteq> set xs"
  by (induction xs) auto

lemma push_slot_inv:
  assumes inv: "slots_ok m" "sessions_ok m" "caches_ok (m, p)" and room: "room 1 m"
    and new: "name \<notin> slot_reader ` set (ms_slots m)"
  shows "slots_ok (push_slot name b i m)" "sessions_ok (push_slot name b i m)" "caches_ok (push_slot name b i m, p)"
proof -
  have "unat (ms_next_slot_id m) + 1 < 2 ^ 32"
    using inv(1) room by (simp add: slots_ok_def room_def)
  then show "slots_ok (push_slot name b i m)"
    using inv(1) new unat_saturating_succ [of "ms_next_slot_id m"]
    by (auto simp: slots_ok_def push_slot_def)
  show "sessions_ok (push_slot name b i m)" "caches_ok (push_slot name b i m, p)"
    using inv(2,3) by (auto simp: sessions_ok_def caches_ok_def push_slot_def slot_ids_def)
qed

lemma next_slot_id_fresh: "slots_ok m \<Longrightarrow> s \<in> set (ms_slots m) \<Longrightarrow> slot_rec_id s \<noteq> ms_next_slot_id m"
proof
  assume ok: "slots_ok m" and s: "s \<in> set (ms_slots m)" and eq: "slot_rec_id s = ms_next_slot_id m"
  have "unat (slot_rec_id s) \<in> set (map (unat \<circ> slot_rec_id) (ms_slots m))"
    using s by auto
  then have "unat (slot_rec_id s) < length (ms_slots m) + 1"
    using ok unfolding slots_ok_def by (metis atLeastLessThan_iff set_upt)
  then show False
    using ok eq by (simp add: slots_ok_def)
qed


lemma delete_other: "k \<noteq> i \<Longrightarrow> map_of (AList.delete k xs) i = map_of xs i"
  by (simp add: delete_conv')

text \<open>The presence of one reader's slot changes, with the objects and the login of that slot.\<close>

lemma slot_ids_differ:
  assumes "slots_ok m" "s \<in> set (ms_slots m)" "t \<in> set (ms_slots m)" "slot_reader t \<noteq> slot_reader s"
  shows "slot_rec_id s \<noteq> slot_rec_id t"
  using assms slots_ok_distinct [of m] by (auto simp: slot_ids_def distinct_map dest: inj_onD)

lemma same_reader:
  assumes "slots_ok m" "s \<in> set (ms_slots m)" "t \<in> set (ms_slots m)" "slot_reader t = slot_reader s"
  shows "t = s"
  using assms by (auto simp: slots_ok_def distinct_map dest: inj_onD)

lemma set_present_ok:
  assumes "slots_ok m"
  shows "slots_ok (m\<lparr>ms_slots := set_present name b (ms_slots m)\<rparr>)"
    "sessions_ok (m\<lparr>ms_slots := set_present name b (ms_slots m)\<rparr>) = sessions_ok m"
    "caches_ok (m\<lparr>ms_slots := set_present name b (ms_slots m)\<rparr>, p) = caches_ok (m, p)"
  using assms represent_facts [of "\<lambda>s. if slot_reader s = name then s\<lparr>slot_card_present := b\<rparr> else s" m]
  by (simp_all add: set_present_map slots_ok_def)

lemma in_set_present:
  assumes "slots_ok m"
  shows "t \<in> set (set_present name b (ms_slots m)) \<longleftrightarrow>
    (\<exists>s \<in> set (ms_slots m). t = (if slot_reader s = name then s\<lparr>slot_card_present := b\<rparr> else s))"
  using assms by (subst set_present_map) (simp_all only: slots_ok_def set_map image_iff)

lemma objects_ok_set_present:
  assumes ok: "slots_ok m" "objects_ok m" and s: "s \<in> set (ms_slots m)"
    and others: "\<And>i. i \<noteq> slot_rec_id s \<Longrightarrow> map_of tc i = map_of (ms_token_cache m) i"
    and own: "b \<Longrightarrow> map_of tc (slot_rec_id s) \<noteq> None"
  shows "objects_ok (m\<lparr>ms_slots := set_present (slot_reader s) b (ms_slots m), ms_token_cache := tc\<rparr>)"
  unfolding objects_ok_def
proof (intro ballI impI)
  fix t
  assume "t \<in> set (ms_slots (m\<lparr>ms_slots := set_present (slot_reader s) b (ms_slots m), ms_token_cache := tc\<rparr>))"
    and present: "slot_card_present t"
  then obtain u where u: "u \<in> set (ms_slots m)" "t = (if slot_reader u = slot_reader s then u\<lparr>slot_card_present := b\<rparr> else u)"
    by (auto simp: in_set_present [OF ok(1)])
  have "map_of tc (slot_rec_id t) \<noteq> None"
  proof (cases "slot_reader u = slot_reader s")
    case True
    then show ?thesis using u present own same_reader [OF ok(1) s u(1)] by simp
  next
    case False
    then have "map_of tc (slot_rec_id u) = map_of (ms_token_cache m) (slot_rec_id u)"
      using slot_ids_differ [OF ok(1) s u(1)] others by metis
    then show ?thesis using False u present ok(2) by (simp add: objects_ok_def)
  qed
  then show "map_of (ms_token_cache (m\<lparr>ms_slots := set_present (slot_reader s) b (ms_slots m), ms_token_cache := tc\<rparr>))
      (slot_rec_id t) \<noteq> None" by simp
qed

lemma set_present_inv:
  assumes inv: "module_inv (m, p)" and "s \<in> set (ms_slots m)"
    and "\<And>i. i \<noteq> slot_rec_id s \<Longrightarrow> map_of tc i = map_of (ms_token_cache m) i"
    and "b \<Longrightarrow> map_of tc (slot_rec_id s) \<noteq> None"
  shows "module_inv (m\<lparr>ms_slots := set_present (slot_reader s) b (ms_slots m), ms_token_cache := tc\<rparr>, p)"
  using inv objects_ok_set_present [OF _ _ assms(2-4)] by (simp add: module_inv_def set_present_ok)

lemma invalidate_store: "module_inv (m, p) \<Longrightarrow> module_inv (m, clear_slot_cache m' i p)"
  by (auto simp: module_inv_def intro: caches_ok_clear)

lemma absent_inv:
  assumes "module_inv (m, p)" "s \<in> set (ms_slots m)"
  shows "module_inv (invalidate_slot (slot_rec_id s) (m\<lparr>ms_slots := set_present (slot_reader s) False (ms_slots m)\<rparr>, p))"
  unfolding invalidate_slot_def prod.case
  using set_present_inv [OF assms, of "AList.delete (slot_rec_id s) (ms_token_cache m)" False]
  by (auto simp: delete_conv' intro!: invalidate_store)

lemma present_inv:
  assumes "module_inv (m, p)" "s \<in> set (ms_slots m)"
  shows "module_inv (case invalidate_slot (slot_rec_id s) (m\<lparr>ms_slots := set_present (slot_reader s) True (ms_slots m)\<rparr>, p) of
    (m', p') \<Rightarrow> (m'\<lparr>ms_token_cache := AList.update (slot_rec_id s) objects (ms_token_cache m')\<rparr>, p'))"
  unfolding invalidate_slot_def prod.case
  using set_present_inv [OF assms, of "AList.update (slot_rec_id s) objects (AList.delete (slot_rec_id s) (ms_token_cache m))" True]
  by (auto simp: update_conv' delete_conv' intro!: invalidate_store)

lemma new_slot_inv:
  assumes inv: "module_inv (m, p)" and "room 1 m" and "name \<notin> slot_reader ` set (ms_slots m)"
  shows "module_inv ((push_slot name b i m)\<lparr>ms_token_cache := AList.update (ms_next_slot_id m) objects (ms_token_cache m)\<rparr>, p)"
    "module_inv (push_slot name False i m, p)"
proof -
  have ok: "slots_ok m" "sessions_ok m" "caches_ok (m, p)" "objects_ok m" using inv by (simp_all add: module_inv_def)
  have "objects_ok ((push_slot name b i m)\<lparr>ms_token_cache := AList.update (ms_next_slot_id m) objects (ms_token_cache m)\<rparr>)"
      "objects_ok (push_slot name False i m)"
    using ok(4) by (auto simp: objects_ok_def push_slot_def update_conv')
  then show "module_inv ((push_slot name b i m)\<lparr>ms_token_cache := AList.update (ms_next_slot_id m) objects (ms_token_cache m)\<rparr>, p)"
    "module_inv (push_slot name False i m, p)"
    using push_slot_inv [OF ok(1-3) assms(2,3)] by (simp_all add: module_inv_def)
qed

lemma refresh_reader_inv:
  assumes "module_inv (m, p)" "room 1 m"
  shows "module_inv (refresh_reader prober r (m, p))"
proof -
  obtain name present where r: "r = (name, present)" by (cases r)
  have ok: "slots_ok m" using assms by (simp add: module_inv_def)
  show ?thesis
  proof (cases "find (\<lambda>s. slot_reader s = name) (ms_slots m)")
    case None
    then have "name \<notin> slot_reader ` set (ms_slots m)"
      by (auto simp: find_None_iff)
    then show ?thesis
      using assms(1) new_slot_inv(1) [OF assms, of name] None
      by (simp add: r refresh_reader_def Let_def split: sum.split)
  next
    case (Some s)
    then have "s \<in> set (ms_slots m)" "slot_reader s = name"
      by (simp_all add: find_reader_eq [OF ok])
    then show ?thesis
      using assms(1) absent_inv [OF assms(1)] present_inv [OF assms(1)] Some
      by (auto simp: r refresh_reader_def Let_def split: sum.split)
  qed
qed

lemma refresh_reader_length:
  "length (ms_slots m) \<le> length (ms_slots (fst (refresh_reader prober r (m, p)))) \<and>
   length (ms_slots (fst (refresh_reader prober r (m, p)))) \<le> length (ms_slots m) + 1"
  by (auto simp: refresh_reader_def Let_def invalidate_slot_def push_slot_def set_present_def
      split: option.splits sum.splits prod.splits)


lemma fold_refresh_inv:
  assumes "module_inv mp" "room (length readers) (fst mp)"
  shows "module_inv (fold (refresh_reader prober) readers mp) \<and>
    length (ms_slots (fst (fold (refresh_reader prober) readers mp))) \<le> length (ms_slots (fst mp)) + length readers"
  using assms
proof (induction readers arbitrary: mp)
  case (Cons r readers)
  obtain m p where mp: "mp = (m, p)" by (cases mp)
  let ?next = "refresh_reader prober r (m, p)"
  have "module_inv ?next"
    using Cons.prems by (intro refresh_reader_inv) (auto simp: mp room_def)
  moreover have "length (ms_slots (fst ?next)) \<le> length (ms_slots m) + 1"
    using refresh_reader_length by blast
  ultimately show ?case
    using Cons.IH [of ?next] Cons.prems by (auto simp: mp room_def)
qed simp

lemma invalidate_absent_inv:
  assumes "module_inv (m, p)" "\<forall>s \<in> set (ms_slots m). slot_rec_id s = i \<longrightarrow> \<not> slot_card_present s"
  shows "module_inv (invalidate_slot i (m, p))"
proof -
  have "objects_ok (m\<lparr>ms_token_cache := AList.delete i (ms_token_cache m)\<rparr>)"
    using assms by (auto simp: module_inv_def objects_ok_def delete_conv')
  then show ?thesis
    using assms(1) by (auto simp: module_inv_def invalidate_slot_def intro: caches_ok_clear)
qed

lemma fold_keep: "P x \<Longrightarrow> (\<And>i x. i \<in> set is \<Longrightarrow> P x \<Longrightarrow> P (f i x)) \<Longrightarrow> P (fold f is x)"
  by (induction "is" arbitrary: x) auto

lemma withdraw_record_simps [simp]:
  "slot_rec_id (withdraw_record offering s) = slot_rec_id s" "slot_reader (withdraw_record offering s) = slot_reader s"
  "slot_card_present (withdraw_record offering s) \<longleftrightarrow> slot_card_present s \<and> \<not> withdraw_slot offering s"
  by (auto simp: withdraw_record_def)

lemma withdraw_inv:
  assumes "module_inv (m, p)"
  shows "module_inv (withdraw offering (m, p)) \<and> ms_slots (fst (withdraw offering (m, p))) = map (withdraw_record offering) (ms_slots m)"
proof -
  let ?f = "withdraw_record offering"
  let ?gone = "map slot_rec_id (filter (withdraw_slot offering) (ms_slots m))"
  have ok: "slots_ok m" using assms by (simp add: module_inv_def)
  define keep :: "('a, 'b) mp \<Rightarrow> bool" where "keep mp \<longleftrightarrow> module_inv mp \<and> ms_slots (fst mp) = map ?f (ms_slots m)" for mp
  have absent: "\<not> slot_card_present (?f v)" if "i \<in> set ?gone" "v \<in> set (ms_slots m)" "slot_rec_id v = i" for i v
    using that slots_ok_distinct [OF ok] by (auto simp: slot_ids_def distinct_map dest: inj_onD)
  have "objects_ok (m\<lparr>ms_slots := map ?f (ms_slots m)\<rparr>)"
    using assms by (auto simp: module_inv_def objects_ok_def)
  then have "keep (m\<lparr>ms_slots := map ?f (ms_slots m)\<rparr>, p)"
    using assms represent_facts [of ?f m] by (simp add: keep_def module_inv_def)
  moreover have "keep ((\<lambda>i (m, p). invalidate_slot i (m\<lparr>ms_remote_logged_in := removeAll i (ms_remote_logged_in m)\<rparr>, p)) i mp)"
    if "i \<in> set ?gone" "keep mp" for i mp
  proof -
    obtain m' p' where mp: "mp = (m', p')" by (cases mp)
    let ?m = "m'\<lparr>ms_remote_logged_in := removeAll i (ms_remote_logged_in m')\<rparr>"
    have "module_inv (?m, p')" and slots: "ms_slots ?m = map ?f (ms_slots m)"
      using that(2) by (simp_all add: keep_def mp module_inv_def)
    moreover have "\<forall>s \<in> set (ms_slots ?m). slot_rec_id s = i \<longrightarrow> \<not> slot_card_present s"
      unfolding slots using absent [OF that(1)] by simp
    ultimately show ?thesis
      using invalidate_absent_inv [of ?m p' i] by (simp add: keep_def mp) (simp add: invalidate_slot_def)
  qed
  ultimately have "keep (withdraw offering (m, p))"
    unfolding withdraw_def Let_def prod.case by (rule fold_keep)
  then show ?thesis
    by (simp add: keep_def)
qed

lemma refresh_pair_inv:
  assumes inv: "module_inv (m, p)" and "room 1 m"
  shows "module_inv (refresh_pair rto pair m, p) \<and>
    length (ms_slots (refresh_pair rto pair m)) \<le> length (ms_slots m) + 1"
proof -
  let ?name = "remote_name (pair_hex pair)"
  let ?parsed = "Option.bind (pair_offered pair) (\<lambda>cert. result_ok (rto cert (remote_serial (pair_hex pair))))"
  have ok: "slots_ok m" using inv by (simp add: module_inv_def)
  show ?thesis
  proof (cases "find (\<lambda>s. slot_reader s = ?name) (ms_slots m)")
    case None
    then have "?name \<notin> slot_reader ` set (ms_slots m)"
      by (auto simp: find_None_iff)
    from new_slot_inv [OF inv assms(2) this] show ?thesis
      using None by (auto simp: refresh_pair_def Let_def push_slot_def split: option.splits)
  next
    case (Some s)
    then have s: "s \<in> set (ms_slots m)" "slot_reader s = ?name"
      by (simp_all add: find_reader_eq [OF ok])
    have "module_inv (m\<lparr>ms_slots := set_present ?name False (ms_slots m)\<rparr>, p)"
      using set_present_inv [OF inv s(1), of "ms_token_cache m" False] s(2) by simp
    moreover have "module_inv (m\<lparr>ms_slots := set_present ?name True (ms_slots m),
        ms_token_cache := AList.update (slot_rec_id s) objects (ms_token_cache m)\<rparr>, p)" for objects
      using set_present_inv [OF inv s(1), of "AList.update (slot_rec_id s) objects (ms_token_cache m)" True] s(2)
      by (simp add: update_conv')
    moreover have "length (set_present ?name b (ms_slots m)) = length (ms_slots m)" for b
      by (simp add: set_present_def split: option.split)
    ultimately show ?thesis
      using Some by (auto simp: refresh_pair_def Let_def split: option.splits)
  qed
qed


lemma fold_pair_inv:
  assumes "module_inv (m, p)" "room (length pairs) m"
  shows "module_inv (fold (refresh_pair rto) pairs m, p)"
  using assms
proof (induction pairs arbitrary: m)
  case (Cons pair pairs)
  have "module_inv (refresh_pair rto pair m, p)" "length (ms_slots (refresh_pair rto pair m)) \<le> length (ms_slots m) + 1"
    using refresh_pair_inv [of m p rto pair] Cons.prems by (auto simp: room_def)
  then show ?case
    using Cons.IH [of "refresh_pair rto pair m"] Cons.prems by (simp add: room_def)
qed simp

definition enumerated :: "('i, 'o) SlotProber \<Rightarrow> (string \<times> bool) list" where
  "enumerated prober = (case prober_enumerate prober of Inl _ \<Rightarrow> [] | Inr readers \<Rightarrow> readers)"

lemma refresh_slots_with_inv:
  assumes "module_inv mp" "room (length (enumerated prober)) (fst mp)"
  shows "module_inv (snd (refresh_slots_with prober mp)) \<and>
    length (ms_slots (fst (snd (refresh_slots_with prober mp)))) \<le> length (ms_slots (fst mp)) + length (enumerated prober)"
proof (cases "prober_enumerate prober")
  case (Inl e)
  have "caches_ok (fst mp, clear_all_positive_pins (fst mp) (snd mp))"
  proof (rule caches_ok_store)
    show "caches_ok (fst mp, snd mp)" using assms(1) by (simp add: module_inv_def)
  qed (simp only: clear_all_dom not_False_eq_True)
  then have "module_inv (fst mp, clear_all_positive_pins (fst mp) (snd mp))"
    using assms(1) unfolding module_inv_def fst_conv by blast
  then show ?thesis
    by (simp add: refresh_slots_with_def Inl)
next
  case (Inr readers)
  then show ?thesis
    using fold_refresh_inv [OF assms(1), of readers prober] assms(2) by (simp add: refresh_slots_with_def enumerated_def)
qed

lemma refresh_slots_inv:
  assumes "module_inv mp" "room (length (enumerated prober) + (case pairs of None \<Rightarrow> 0 | Some ps \<Rightarrow> length ps)) (fst mp)"
  shows "module_inv (refresh_slots prober rto pairs mp)"
proof -
  let ?mp = "snd (refresh_slots_with prober mp)"
  have mp: "module_inv ?mp" "length (ms_slots (fst ?mp)) \<le> length (ms_slots (fst mp)) + length (enumerated prober)"
    using refresh_slots_with_inv [of mp prober] assms by (auto simp: room_def)
  show ?thesis
  proof (cases pairs)
    case (Some ps)
    obtain m p where w: "withdraw (map (\<lambda>pr. remote_name (pair_hex pr)) (filter (\<lambda>pr. pair_offered pr \<noteq> None) ps)) ?mp = (m, p)"
      by (metis prod.collapse)
    have "module_inv (m, p)" "length (ms_slots m) = length (ms_slots (fst ?mp))"
      using withdraw_inv [of "fst ?mp" "snd ?mp"] mp(1) w by (metis fst_conv length_map prod.collapse)+
    then show ?thesis
      using fold_pair_inv [of m p ps rto] mp(2) assms(2) Some w
      by (simp add: refresh_slots_def refresh_remote_slots_def room_def Let_def)
  qed (simp add: refresh_slots_def refresh_remote_slots_def mp(1))
qed

lemma empty_module_inv: "module_inv (empty_module, p)"
  by (simp add: module_inv_defs empty_module_def SLOT_ID_BASE_def SESSION_HANDLE_BASE_def)

lemma unat_max_u32: "n \<noteq> (- 1 :: u32) \<Longrightarrow> unat n + 1 < 2 ^ 32"
proof -
  assume "n \<noteq> - 1"
  then have "unat n \<noteq> 2 ^ 32 - 1"
    by (simp add: word_unat_eq_iff unsigned_minus_1_eq_mask mask_eq_exp_minus_1)
  moreover have "unat n < 2 ^ 32"
    using unsigned_less [of n] by simp
  ultimately show ?thesis by simp
qed

lemma open_session_inv:
  assumes "module_inv (m, p)" "i \<in> set (slot_ids m)" "ms_next_session_handle m \<noteq> - 1"
  shows "module_inv (snd (open_session m i flags), p)"
proof -
  let ?h = "ms_next_session_handle m"
  have succ: "?h < saturating_succ ?h"
    using unat_saturating_succ [OF unat_max_u32 [OF assms(3)]] by (simp add: word_less_nat_alt)
  have ok: "sessions_ok m" using assms(1) by (simp add: module_inv_def)
  have "sessions_ok (snd (open_session m i flags))"
    unfolding sessions_ok_def open_session_def Let_def
  proof (simp, intro conjI ballI)
    show "distinct (map fst (AList.update ?h \<lparr>ses_slot_id = i, ses_flags = flags, ses_find = None, ses_sign = None,
        ses_verify = None\<rparr> (ms_sessions m)))"
      using ok by (intro distinct_update) (simp add: sessions_ok_def)
    show "0 < saturating_succ ?h"
      using ok succ by (auto simp: sessions_ok_def)
    fix x
    assume "x \<in> set (AList.update ?h \<lparr>ses_slot_id = i, ses_flags = flags, ses_find = None, ses_sign = None,
        ses_verify = None\<rparr> (ms_sessions m))"
    then have "x = (?h, \<lparr>ses_slot_id = i, ses_flags = flags, ses_find = None, ses_sign = None, ses_verify = None\<rparr>) \<or>
        x \<in> set (ms_sessions m)"
      using set_alist_update by fastforce
    then show "case x of (h, ses) \<Rightarrow> 0 < h \<and> h < saturating_succ ?h \<and>
        ses_slot_id ses \<in> set (slot_ids (m\<lparr>ms_next_session_handle := saturating_succ ?h,
          ms_sessions := AList.update ?h \<lparr>ses_slot_id = i, ses_flags = flags, ses_find = None, ses_sign = None,
            ses_verify = None\<rparr> (ms_sessions m)\<rparr>))"
      using ok succ assms(2) by (auto simp: sessions_ok_def slot_ids_def dest: less_trans)
  qed
  then show ?thesis
    using assms(1) by (simp add: module_inv_def open_session_def Let_def)
qed

lemma sessions_subset:
  assumes "sessions_ok m" "set xs \<subseteq> set (ms_sessions m)" "distinct (map fst xs)"
  shows "sessions_ok (m\<lparr>ms_sessions := xs\<rparr>)"
  using assms by (auto simp: sessions_ok_def slot_ids_def)

lemma logout_inv: "module_inv mp \<Longrightarrow> module_inv (logout i mp)"
  by (cases mp) (auto simp: logout_def module_inv_def intro: caches_ok_clear)

lemma close_session_inv:
  assumes "module_inv mp"
  shows "module_inv (snd (close_session h mp))"
proof -
  obtain m p where mp: "mp = (m, p)" by (cases mp)
  have "module_inv (m\<lparr>ms_sessions := AList.delete h (ms_sessions m)\<rparr>, p)"
    using assms sessions_subset [of m "AList.delete h (ms_sessions m)"] set_alist_delete [of h "ms_sessions m"]
    by (simp add: mp module_inv_def sessions_ok_def distinct_delete)
  then show ?thesis
    using assms by (auto simp: close_session_def mp forget_login_if_no_sessions_def intro: logout_inv split: option.split)
qed

lemma close_all_sessions_inv:
  assumes "module_inv mp"
  shows "module_inv (close_all_sessions i mp)"
proof -
  obtain m p where mp: "mp = (m, p)" by (cases mp)
  have "distinct (map fst (filter (\<lambda>(_, ses). ses_slot_id ses \<noteq> i) (ms_sessions m)))"
    using assms by (auto simp: mp module_inv_def sessions_ok_def intro: distinct_map_filter)
  then have "module_inv (m\<lparr>ms_sessions := filter (\<lambda>(_, ses). ses_slot_id ses \<noteq> i) (ms_sessions m)\<rparr>, p)"
    using assms sessions_subset [of m "filter (\<lambda>(_, ses). ses_slot_id ses \<noteq> i) (ms_sessions m)"]
    by (simp add: mp module_inv_def)
  then show ?thesis
    by (simp add: close_all_sessions_def mp logout_inv)
qed

lemma session_mut_inv:
  assumes "module_inv (m, p)" "\<And>ses. ses_slot_id (f ses) = ses_slot_id ses"
  shows "module_inv (session_mut f h m, p)"
proof (cases "session m h")
  case (Some ses)
  have ok: "sessions_ok m" using assms(1) by (simp add: module_inv_def)
  have "(h, ses) \<in> set (ms_sessions m)"
    using Some by (simp add: session_def map_of_SomeD)
  then have "0 < h \<and> h < ms_next_session_handle m \<and> ses_slot_id (f ses) \<in> set (slot_ids m)"
    using ok assms(2) [of ses] by (auto simp: sessions_ok_def)
  then have "\<forall>(k, v) \<in> insert (h, f ses) (set (ms_sessions m)). 0 < k \<and> k < ms_next_session_handle m \<and> ses_slot_id v \<in> set (slot_ids m)"
    using ok by (simp add: sessions_ok_def)
  then have "\<forall>(k, v) \<in> set (AList.update h (f ses) (ms_sessions m)). 0 < k \<and> k < ms_next_session_handle m \<and> ses_slot_id v \<in> set (slot_ids m)"
    using set_alist_update [of h "f ses" "ms_sessions m"] by blast
  then have "sessions_ok (m\<lparr>ms_sessions := AList.update h (f ses) (ms_sessions m)\<rparr>)"
    using ok by (simp add: sessions_ok_def slot_ids_def distinct_update)
  then show ?thesis
    using assms(1) Some by (simp add: session_mut_def module_inv_def)
qed (simp add: session_mut_def assms(1))

lemma pin_cache_inv:
  assumes "module_inv (m, p)"
  shows "module_inv (snd (pin_cache random i (m, p)))"
proof -
  have ok: "slots_ok m" "caches_ok (m, p)" using assms by (simp_all add: module_inv_def)
  have bound: "caches_ok (m\<lparr>ms_pin_caches := AList.update i name (ms_pin_caches m)\<rparr>, p')"
    if "reader_name m i = Some name" "\<And>n. map_of p n \<noteq> None \<Longrightarrow> map_of p' n \<noteq> None" "map_of p' name \<noteq> None" for name p'
  proof -
    have "\<exists>s \<in> set (ms_slots m). slot_rec_id s = i \<and> slot_reader s = name"
      using that(1) by (auto simp: reader_name_def slot_eq [OF ok(1)])
    then show ?thesis
      using caches_ok_store [OF that(2) ok(2)] that(3) set_alist_update [of i name "ms_pin_caches m"]
      by (fastforce simp: caches_ok_def)
  qed
  have "module_inv (m\<lparr>ms_pin_caches := AList.update i name (ms_pin_caches m)\<rparr>, p')"
    if "reader_name m i = Some name" "\<And>n. map_of p n \<noteq> None \<Longrightarrow> map_of p' n \<noteq> None" "map_of p' name \<noteq> None" for name p'
    using assms bound [OF that] by (simp add: module_inv_def)
  then show ?thesis
    using assms by (auto simp: pin_cache_def Let_def update_conv' split: option.splits sum.splits)
qed

end
