(* ===== verification/Pkcs11_Life.thy ===== *)
theory Pkcs11_Life
  imports Pkcs11_State "HOL-Library.Sublist"
begin

text \<open>
  The life of the PKCS\#11 module: every operation of \<open>state.rs\<close> as a step between states, what holds in every
  state the steps reach, and what the removal of a card, the end of the last session and the queue of slot
  events do. A step on a PIN cache is any step of \<open>Pin_Cache\<close>, with whatever checkouts are in flight.
\<close>

section \<open>Steps\<close>

definition pair_count :: "'p list option \<Rightarrow> nat" where
  "pair_count pairs = (case pairs of None \<Rightarrow> 0 | Some ps \<Rightarrow> length ps)"

text \<open>A table that is refreshed has room for the readers and pairings found; a session handle is never the last
  one. Both numbers have 32 bits and are consumed by one at a time. Certificates are their DER bytes.\<close>

inductive module_step :: "hmac \<Rightarrow> ('i, 'o) mp \<Rightarrow> ('i, 'o) mp \<Rightarrow> bool" for hmac where
  refreshed: "room (length (enumerated prober) + pair_count pairs) (fst mp) \<Longrightarrow>
    module_step hmac mp (refresh_slots prober (rto :: bytes \<Rightarrow> _) pairs mp)"
| opened: "slot m i = Some s \<Longrightarrow> ms_next_session_handle m \<noteq> - 1 \<Longrightarrow> module_step hmac (m, p) (snd (open_session m i flags), p)"
| changed: "(\<And>ses. ses_slot_id (f ses) = ses_slot_id ses) \<Longrightarrow> module_step hmac (m, p) (session_mut f h m, p)"
| closed: "module_step hmac mp (snd (close_session h mp))"
| closed_all: "module_step hmac mp (close_all_sessions i mp)"
| logged_out: "module_step hmac mp (logout i mp)"
| remote_login: "module_step hmac (m, p) (set_remote_logged_in i b m, p)"
| bound: "module_step hmac mp (snd (pin_cache (random :: unit + bytes) i mp))"
| presented: "map_of p name = Some c \<Longrightarrow> cache_step hmac \<lparr>st_cache = c, in_flight = fl\<rparr> st \<Longrightarrow>
    module_step hmac (m, p) (m, AList.update name (st_cache st) p)"
| reported: "module_step hmac (m, p) (snd (take_slot_event m), p)"
| listed: "module_step hmac (m, p) (snd (ensure_token build remote i m), p)"

inductive_cases module_stepE: "module_step hmac mp mp'"

lemma remote_login_inv: "module_inv (m, p) \<Longrightarrow> module_inv (set_remote_logged_in i b m, p)"
  by (simp add: module_inv_def set_remote_logged_in_def)

lemma take_slot_event_inv: "module_inv (m, p) \<Longrightarrow> module_inv (snd (take_slot_event m), p)"
  by (simp add: module_inv_def take_slot_event_def split: option.split)

lemma ensure_token_inv:
  assumes "module_inv (m, p)"
  shows "module_inv (snd (ensure_token build remote i m), p)"
proof -
  have "objects_ok (m\<lparr>ms_token_cache := AList.update i objects (ms_token_cache m)\<rparr>)" for objects
    using assms by (simp add: module_inv_def objects_ok_def update_conv')
  then show ?thesis
    using assms by (simp add: module_inv_def ensure_token_def split: option.split sum.split)
qed

lemma cache_update_inv: "module_inv (m, p) \<Longrightarrow> module_inv (m, AList.update name c p)"
  by (auto simp: module_inv_def update_conv' intro: caches_ok_store [of p])

lemma module_step_inv: "module_step hmac mp mp' \<Longrightarrow> module_inv mp \<Longrightarrow> module_inv mp'"
proof (induction rule: module_step.induct)
  case (refreshed prober pairs mp rto)
  then show ?case by (intro refresh_slots_inv) (simp_all add: pair_count_def)
next
  case (opened m i s p flags)
  then have "i \<in> set (slot_ids m)"
    by (auto simp: module_inv_def slot_eq slot_ids_def)
  then show ?case using opened by (intro open_session_inv)
next
  case (changed f m p h)
  then show ?case by (intro session_mut_inv)
next
  case (bound mp random i)
  then show ?case by (cases mp) (simp add: pin_cache_inv)
qed (simp_all add: close_session_inv close_all_sessions_inv logout_inv remote_login_inv cache_update_inv take_slot_event_inv
    ensure_token_inv)

lemma module_steps_inv: "(module_step hmac)\<^sup>*\<^sup>* mp mp' \<Longrightarrow> module_inv mp \<Longrightarrow> module_inv mp'"
  by (induction rule: rtranclp_induct) (auto intro: module_step_inv)


subsection \<open>Slots keep their reader\<close>

definition slot_names :: "('i, 'o) ModuleState \<Rightarrow> (CkSlotId \<times> string) list" where
  "slot_names m = map (\<lambda>s. (slot_rec_id s, slot_reader s)) (ms_slots m)"

lemma slot_names_frame [simp]:
  "slot_names (m\<lparr>ms_token_cache := x\<rparr>) = slot_names m" "slot_names (m\<lparr>ms_event_reported := y\<rparr>) = slot_names m"
  "slot_names (m\<lparr>ms_remote_logged_in := z\<rparr>) = slot_names m" "slot_names (m\<lparr>ms_sessions := u\<rparr>) = slot_names m"
  "slot_names (m\<lparr>ms_next_session_handle := h\<rparr>) = slot_names m" "slot_names (m\<lparr>ms_pin_caches := w\<rparr>) = slot_names m"
  by (simp_all add: slot_names_def)

lemma slot_names_set_present [simp]: "slot_names (m\<lparr>ms_slots := set_present name b (ms_slots m)\<rparr>) = slot_names m"
proof (cases "position (\<lambda>s. slot_reader s = name) (ms_slots m)")
  case (Some k)
  then have "k < length (ms_slots m)" by (simp add: position_eq_Some)
  then show ?thesis
    by (intro nth_equalityI) (auto simp: slot_names_def set_present_def Some nth_list_update)
qed (simp add: set_present_def del: position_eq_None)

lemma prefix_push_slot: "prefix (slot_names m) (slot_names (push_slot name b i m))"
  by (simp add: slot_names_def push_slot_def)

lemma slot_names_invalidate [simp]: "slot_names (fst (invalidate_slot i mp)) = slot_names (fst mp)"
  by (cases mp) (simp add: invalidate_slot_def)

lemma prefix_refresh_reader: "prefix (slot_names (fst mp)) (slot_names (fst (refresh_reader prober r mp)))"
  by (cases mp; cases r) (simp add: refresh_reader_def invalidate_slot_def Let_def prefix_push_slot split: option.split sum.split)

lemma prefix_fold:
  assumes "\<And>r mp. prefix (names mp) (names (f r mp))"
  shows "prefix (names mp) (names (fold f rs mp))"
  using assms by (induction rs arbitrary: mp) (auto intro: prefix_order.trans)

lemma slot_names_withdraw [simp]: "slot_names (fst (withdraw offering mp)) = slot_names (fst mp)"
proof -
  obtain m p where mp: "mp = (m, p)" by (cases mp)
  let ?step = "\<lambda>i (m, p). invalidate_slot i (m\<lparr>ms_remote_logged_in := removeAll i (ms_remote_logged_in m)\<rparr>, p)"
  have "slot_names (fst (fold ?step is mp)) = slot_names (fst mp)" for "is" and mp :: "('a, 'b) mp"
    by (induction "is" arbitrary: mp) (simp_all add: split_beta)
  then show ?thesis
    by (simp add: mp withdraw_def Let_def) (simp add: slot_names_def comp_def)
qed

lemma prefix_refresh_pair: "prefix (slot_names m) (slot_names (refresh_pair rto pair m))"
  by (simp add: refresh_pair_def Let_def prefix_push_slot split: option.split)

lemma prefix_refresh_pairs: "prefix (slot_names m) (slot_names (fold (refresh_pair rto) pairs m))"
  by (rule prefix_fold [where names = slot_names]) (rule prefix_refresh_pair)

lemma prefix_refresh_slots: "prefix (slot_names (fst mp)) (slot_names (fst (refresh_slots prober rto pairs mp)))"
proof -
  have "prefix (slot_names (fst mp)) (slot_names (fst (snd (refresh_slots_with prober mp))))"
    by (simp add: refresh_slots_with_def prefix_fold [where names = "\<lambda>mp. slot_names (fst mp)", OF prefix_refresh_reader]
        split: sum.split)
  moreover have "prefix (slot_names (fst mp')) (slot_names (fst (refresh_remote_slots rto pairs mp')))" for mp' :: "('a, 'b) mp"
    by (cases pairs) (simp_all add: refresh_remote_slots_def Let_def split_beta,
        metis prefix_refresh_pairs slot_names_withdraw)
  ultimately show ?thesis
    unfolding refresh_slots_def by (rule prefix_order.trans)
qed

lemma module_step_names: "module_step hmac mp mp' \<Longrightarrow> prefix (slot_names (fst mp)) (slot_names (fst mp'))"
proof (induction rule: module_step.induct)
  case (refreshed prober pairs mp rto)
  show ?case by (rule prefix_refresh_slots)
next
  case (bound mp random i)
  then show ?case by (cases mp) (simp add: pin_cache_def Let_def split: option.split sum.split)
next
  case (closed mp h)
  then show ?case by (cases mp) (simp add: close_session_def forget_login_if_no_sessions_def logout_def split: option.split)
next
  case (closed_all mp i)
  then show ?case by (cases mp) (simp add: close_all_sessions_def logout_def)
next
  case (logged_out mp i)
  then show ?case by (cases mp) (simp add: logout_def)
qed (simp_all add: open_session_def session_mut_def set_remote_logged_in_def take_slot_event_def ensure_token_def Let_def
    split: option.split sum.split)

lemma reader_name_names: "reader_name m i = map_of (slot_names m) i"
proof -
  have "map_option slot_reader (find (\<lambda>s. slot_rec_id s = i) ss) = map_of (map (\<lambda>s. (slot_rec_id s, slot_reader s)) ss) i" for ss :: "'a SlotRecord list"
    by (induction ss) auto
  then show ?thesis by (simp add: reader_name_def slot_def slot_names_def)
qed


subsection \<open>Rejections are kept\<close>

definition keeps_rejections :: "process_caches \<Rightarrow> process_caches \<Rightarrow> bool" where
  "keeps_rejections p p' \<longleftrightarrow> (\<forall>name c. map_of p name = Some c \<longrightarrow> (\<exists>d. map_of p' name = Some d \<and> remembers c d))"

lemma remembers_refl [simp]: "remembers c c" and remembers_clear [simp]: "remembers c (clear_positive c)"
  by (simp_all add: remembers_def)

lemma keeps_refl [simp]: "keeps_rejections p p"
  by (simp add: keeps_rejections_def)

lemma keeps_trans: "keeps_rejections p q \<Longrightarrow> keeps_rejections q r \<Longrightarrow> keeps_rejections p r"
  unfolding keeps_rejections_def by (meson remembers_trans)

lemma keeps_update: "(\<And>c. map_of p name = Some c \<Longrightarrow> remembers c d) \<Longrightarrow> keeps_rejections p (AList.update name d p)"
  by (auto simp: keeps_rejections_def update_conv')

lemma keeps_clear_at [simp]: "keeps_rejections p (clear_at name p)"
  by (auto simp: keeps_rejections_def map_of_clear_at)

lemma keeps_clear_slot [simp]: "keeps_rejections p (clear_slot_cache m i p)"
  by (simp add: clear_slot_cache_def split: option.split)

lemma keeps_fold:
  assumes "\<And>x mp. keeps_rejections (snd mp) (snd (f x mp))"
  shows "keeps_rejections (snd mp) (snd (fold f xs mp))"
proof (induction xs arbitrary: mp)
  case (Cons x xs)
  show ?case unfolding fold_Cons comp_apply by (rule keeps_trans [OF assms Cons.IH])
qed simp

lemma keeps_clear_all [simp]: "keeps_rejections p (clear_all_positive_pins m p)"
proof -
  have "keeps_rejections p (fold (\<lambda>(_, name). clear_at name) xs p)" for xs :: "(CkSlotId \<times> string) list"
    by (induction xs arbitrary: p) (auto intro: keeps_trans keeps_clear_at)
  then show ?thesis by (simp add: clear_all_positive_pins_def)
qed

lemma keeps_invalidate: "keeps_rejections p (snd (invalidate_slot i (m, p)))"
  by (simp add: invalidate_slot_def)

lemma keeps_refresh_reader: "keeps_rejections (snd mp) (snd (refresh_reader prober r mp))"
proof -
  obtain m p where mp: "mp = (m, p)" by (cases mp)
  obtain name present where r: "r = (name, present)" by (cases r)
  show ?thesis
    unfolding mp r refresh_reader_def Let_def prod.case
    by (cases "find (\<lambda>s. slot_reader s = name) (ms_slots m)"; cases "prober_build_objects prober name")
      (simp_all add: split_beta keeps_invalidate)
qed

lemma keeps_withdraw: "keeps_rejections (snd mp) (snd (withdraw offering mp))"
proof -
  obtain m p where mp: "mp = (m, p)" by (cases mp)
  let ?step = "\<lambda>i (m :: ('a, 'b) ModuleState, p). invalidate_slot i (m\<lparr>ms_remote_logged_in := removeAll i (ms_remote_logged_in m)\<rparr>, p)"
  have "keeps_rejections (snd mp) (snd (?step i mp))" for i mp
    by (simp add: invalidate_slot_def split_beta)
  from keeps_fold [of ?step, OF this, where mp = "(m', p)" for m']
  show ?thesis
    unfolding mp withdraw_def Let_def prod.case snd_conv .
qed

lemma keeps_refresh_slots: "keeps_rejections (snd mp) (snd (refresh_slots prober rto pairs mp))"
proof -
  have "keeps_rejections (snd mp) (snd (snd (refresh_slots_with prober mp)))"
    by (simp add: refresh_slots_with_def keeps_fold [OF keeps_refresh_reader] split: sum.split)
  moreover have "keeps_rejections (snd mp') (snd (refresh_remote_slots rto pairs mp'))" for mp' :: "('a, 'b) mp"
    by (cases pairs) (simp_all add: refresh_remote_slots_def Let_def split_beta keeps_withdraw)
  ultimately show ?thesis
    unfolding refresh_slots_def by (rule keeps_trans)
qed

lemma module_step_rejections: "module_step hmac mp mp' \<Longrightarrow> keeps_rejections (snd mp) (snd mp')"
proof (induction rule: module_step.induct)
  case (refreshed prober pairs mp rto)
  show ?case by (rule keeps_refresh_slots)
next
  case (bound mp random i)
  then show ?case
    by (cases mp) (auto simp: pin_cache_def Let_def split: option.split sum.split intro: keeps_update)
next
  case (presented p name c fl st m)
  then show ?case
    using cache_step_remembers [OF presented(2)] by (auto intro: keeps_update)
next
  case (closed mp h)
  then show ?case by (cases mp) (simp add: close_session_def forget_login_if_no_sessions_def logout_def split: option.split)
next
  case (closed_all mp i)
  then show ?case by (cases mp) (simp add: close_all_sessions_def logout_def)
next
  case (logged_out mp i)
  then show ?case by (cases mp) (simp add: logout_def)
qed simp_all


subsection \<open>A refresh of one reader leaves the other slots alone\<close>

definition untouched :: "'i SlotRecord \<Rightarrow> ('i, 'o) mp \<Rightarrow> ('i, 'o) mp \<Rightarrow> bool" where
  "untouched s = (\<lambda>(m, p) (m', p').
     s \<in> set (ms_slots m') \<and> map_of (ms_token_cache m') (slot_rec_id s) = map_of (ms_token_cache m) (slot_rec_id s) \<and>
     ms_pin_caches m' = ms_pin_caches m \<and> map_of p' (slot_reader s) = map_of p (slot_reader s) \<and>
     ms_remote_logged_in m' = ms_remote_logged_in m)"

lemma untouched_trans: "untouched s a b \<Longrightarrow> untouched s b c \<Longrightarrow> untouched s a c"
  by (cases a; cases b; cases c) (simp add: untouched_def)

lemma bound_name:
  assumes "module_inv (m, p)" "t \<in> set (ms_slots m)" "map_of (ms_pin_caches m) (slot_rec_id t) = Some nm"
  shows "nm = slot_reader t"
proof -
  obtain u where "u \<in> set (ms_slots m)" "slot_rec_id u = slot_rec_id t" "slot_reader u = nm"
    using assms(1) map_of_SomeD [OF assms(3)] by (auto simp: module_inv_def caches_ok_def)
  then show ?thesis
    using assms slots_ok_distinct [of m] by (auto simp: module_inv_def slot_ids_def distinct_map dest: inj_onD)
qed

lemma clear_other:
  assumes "module_inv (m, p)" "t \<in> set (ms_slots m)" "slot_reader t \<noteq> name" "ms_pin_caches m' = ms_pin_caches m"
  shows "map_of (clear_slot_cache m' (slot_rec_id t) q) name = map_of q name"
  using bound_name [OF assms(1,2)] assms(3,4) by (auto simp: clear_slot_cache_def map_of_clear_at split: option.split)

lemma untouched_invalidate:
  assumes inv: "module_inv (m, p)" and s: "s \<in> set (ms_slots m)" and t: "t \<in> set (ms_slots m)" "slot_reader t \<noteq> slot_reader s"
  shows "untouched s (m, p) (invalidate_slot (slot_rec_id t) (m\<lparr>ms_slots := set_present (slot_reader t) b (ms_slots m)\<rparr>, p))"
proof -
  have ok: "slots_ok m" using inv by (simp add: module_inv_def)
  have "s \<in> set (set_present (slot_reader t) b (ms_slots m))"
    unfolding in_set_present [OF ok] using s t(2) by (intro bexI [of _ s]) simp_all
  moreover have "slot_rec_id t \<noteq> slot_rec_id s"
    using slot_ids_differ [OF ok t(1) s] t(2) by simp
  ultimately show ?thesis
    using clear_other [OF inv t, of "m\<lparr>ms_slots := set_present (slot_reader t) b (ms_slots m)\<rparr>" p] by (simp add: untouched_def invalidate_slot_def delete_conv')
qed

lemma untouched_token:
  "untouched s mp (m', p') \<Longrightarrow> i \<noteq> slot_rec_id s \<Longrightarrow> untouched s mp (m'\<lparr>ms_token_cache := AList.update i objects (ms_token_cache m')\<rparr>, p')"
  by (cases mp) (simp add: untouched_def update_conv')

lemma untouched_refresh_reader:
  assumes inv: "module_inv (m, p)" and s: "s \<in> set (ms_slots m)" and r: "fst r \<noteq> slot_reader s"
  shows "untouched s (m, p) (refresh_reader prober r (m, p))"
proof -
  obtain name present where rr: "r = (name, present)" by (cases r)
  have ok: "slots_ok m" using inv by (simp add: module_inv_def)
  have same: "untouched s (m, p) (m, p)" using s by (simp add: untouched_def)
  show ?thesis
  proof (cases "find (\<lambda>s. slot_reader s = name) (ms_slots m)")
    case None
    have "untouched s (m, p) ((push_slot name True i m)\<lparr>ms_token_cache := AList.update (ms_next_slot_id m) objects (ms_token_cache m)\<rparr>, p)" for i objects
      using s next_slot_id_fresh [OF ok s] by (simp add: untouched_def push_slot_def update_conv')
    then show ?thesis
      using None same by (simp add: rr refresh_reader_def Let_def split: sum.split)
  next
    case (Some t)
    then have t: "t \<in> set (ms_slots m)" "slot_reader t = name"
      by (simp_all add: find_reader_eq [OF ok])
    have other: "slot_reader t \<noteq> slot_reader s" "slot_rec_id t \<noteq> slot_rec_id s"
      using t r rr slot_ids_differ [OF ok t(1) s] by auto
    have inval: "untouched s (m, p) (invalidate_slot (slot_rec_id t) (m\<lparr>ms_slots := set_present name b (ms_slots m)\<rparr>, p))" for b
      using untouched_invalidate [OF inv s t(1) other(1), of b] by (simp add: t(2))
    obtain m' p' where i: "invalidate_slot (slot_rec_id t) (m\<lparr>ms_slots := set_present name True (ms_slots m)\<rparr>, p) = (m', p')"
      by (metis prod.collapse)
    show ?thesis
      using Some same inval [of False] untouched_token [OF inval [of True, unfolded i] other(2)]
      by (simp add: rr refresh_reader_def Let_def i split: sum.split)
  qed
qed

lemma untouched_refresh_readers:
  assumes "module_inv mp" "room (length readers) (fst mp)" "s \<in> set (ms_slots (fst mp))" "slot_reader s \<notin> fst ` set readers"
  shows "untouched s mp (fold (refresh_reader prober) readers mp)"
  using assms
proof (induction readers arbitrary: mp)
  case Nil
  then show ?case by (cases mp) (simp add: untouched_def)
next
  case (Cons r readers)
  obtain m p where mp: "mp = (m, p)" by (cases mp)
  let ?next = "refresh_reader prober r (m, p)"
  have step: "untouched s (m, p) ?next"
    using Cons.prems by (intro untouched_refresh_reader) (auto simp: mp)
  have "module_inv ?next"
    using Cons.prems by (intro refresh_reader_inv) (auto simp: mp room_def)
  moreover have "room (length readers) (fst ?next)"
    using Cons.prems refresh_reader_length [of m prober r p] by (auto simp: mp room_def)
  moreover have "s \<in> set (ms_slots (fst ?next))"
    using step by (auto simp: untouched_def)
  ultimately have "untouched s ?next (fold (refresh_reader prober) readers ?next)"
    using Cons.prems by (intro Cons.IH) auto
  with step show ?case
    by (simp add: mp untouched_trans [OF step])
qed


subsection \<open>A card that leaves its reader\<close>

text \<open>The card of a slot is gone: the slot is empty, its objects are dropped and its PIN is forgotten.\<close>

definition emptied :: "'i SlotRecord \<Rightarrow> ('i, 'o) mp \<Rightarrow> bool" where
  "emptied s mp \<longleftrightarrow> s\<lparr>slot_card_present := False\<rparr> \<in> set (ms_slots (fst mp)) \<and>
     map_of (ms_token_cache (fst mp)) (slot_rec_id s) = None \<and>
     (\<forall>name. map_of (ms_pin_caches (fst mp)) (slot_rec_id s) = Some name \<longrightarrow>
        name = slot_reader s \<and> \<not> (\<exists>c. map_of (snd mp) name = Some c \<and> has_positive_pin1 c))"

lemma emptied_untouched: "emptied s mp \<Longrightarrow> untouched (s\<lparr>slot_card_present := False\<rparr>) mp mp' \<Longrightarrow> emptied s mp'"
  by (cases mp; cases mp') (auto simp: emptied_def untouched_def)

lemma refresh_reader_gone:
  assumes inv: "module_inv (m, p)" and s: "s \<in> set (ms_slots m)" "slot_card_present s"
    and gone: "\<not> present \<or> prober_probe prober (slot_reader s) = Observation_Absent"
  shows "emptied s (refresh_reader prober (slot_reader s, present) (m, p))"
proof -
  have ok: "slots_ok m" using inv by (simp add: module_inv_def)
  let ?m = "m\<lparr>ms_slots := set_present (slot_reader s) False (ms_slots m)\<rparr>"
  have "find (\<lambda>t. slot_reader t = slot_reader s) (ms_slots m) = Some s"
    by (simp add: find_reader_eq [OF ok] s)
  then have "refresh_reader prober (slot_reader s, present) (m, p) = invalidate_slot (slot_rec_id s) (?m, p)"
    using gone s(2) by (auto simp: refresh_reader_def preserves_last_known_state_def Let_def)
  moreover have "s\<lparr>slot_card_present := False\<rparr> \<in> set (set_present (slot_reader s) False (ms_slots m))"
    unfolding in_set_present [OF ok] using s(1) by (intro bexI [of _ s]) simp_all
  moreover have "name = slot_reader s \<and> \<not> (\<exists>c. map_of (clear_slot_cache ?m (slot_rec_id s) p) name = Some c \<and> has_positive_pin1 c)"
    if "map_of (ms_pin_caches m) (slot_rec_id s) = Some name" for name
    using bound_name [OF inv s(1) that] that
    by (auto simp: clear_slot_cache_def map_of_clear_at has_positive_pin1_def)
  ultimately show ?thesis
    by (simp add: emptied_def invalidate_slot_def delete_conv')
qed

lemma refresh_readers_remote: "ms_remote_logged_in (fst (fold (refresh_reader prober) readers mp)) = ms_remote_logged_in (fst mp)"
proof (induction readers arbitrary: mp)
  case (Cons r readers)
  have "ms_remote_logged_in (fst (refresh_reader prober r mp)) = ms_remote_logged_in (fst mp)"
    by (cases mp; cases r) (simp add: refresh_reader_def invalidate_slot_def push_slot_def Let_def split: option.split sum.split)
  then show ?case by (simp add: Cons.IH)
qed simp

lemma refresh_readers_gone:
  assumes inv: "module_inv mp" and room: "room (length readers) (fst mp)"
    and s: "s \<in> set (ms_slots (fst mp))" "slot_card_present s"
    and readers: "distinct (map fst readers)" "(slot_reader s, present) \<in> set readers"
    and gone: "\<not> present \<or> prober_probe prober (slot_reader s) = Observation_Absent"
  shows "emptied s (fold (refresh_reader prober) readers mp)"
proof -
  obtain before after where split: "readers = before @ (slot_reader s, present) # after"
    using readers(2) by (metis split_list)
  have out: "slot_reader s \<notin> fst ` set before" "slot_reader s \<notin> fst ` set after"
    using readers(1) by (auto simp: split)
  let ?a = "fold (refresh_reader prober) before mp"
  have a: "module_inv ?a" "length (ms_slots (fst ?a)) \<le> length (ms_slots (fst mp)) + length before"
    using fold_refresh_inv [OF inv, of before prober] room by (auto simp: split room_def)
  have "untouched s mp ?a"
    using room by (intro untouched_refresh_readers [OF inv]) (simp_all add: split room_def s out)
  then have sa: "s \<in> set (ms_slots (fst ?a))"
    by (cases mp; cases ?a) (auto simp: untouched_def)
  let ?b = "refresh_reader prober (slot_reader s, present) ?a"
  have b: "emptied s ?b"
    using refresh_reader_gone [of "fst ?a" "snd ?a" s present prober] a(1) sa s(2) gone by simp
  have "module_inv ?b" "length (ms_slots (fst ?b)) \<le> length (ms_slots (fst ?a)) + 1"
    using refresh_reader_inv [of "fst ?a" "snd ?a" prober] refresh_reader_length [of "fst ?a" prober _ "snd ?a"] a room
    by (auto simp: split room_def)
  then have "untouched (s\<lparr>slot_card_present := False\<rparr>) ?b (fold (refresh_reader prober) after ?b)"
    using a(2) room b out(2) by (intro untouched_refresh_readers) (auto simp: split room_def emptied_def)
  with b show ?thesis
    by (simp add: split emptied_untouched)
qed


subsection \<open>Slot events\<close>

definition pending :: "(CkSlotId \<times> bool) list \<Rightarrow> 'i SlotRecord list \<Rightarrow> 'i SlotRecord list" where
  "pending reported = filter (\<lambda>s. map_of reported (slot_rec_id s) \<noteq> Some (slot_card_present s))"

lemma next_event_pending: "next_event reported ss = (case pending reported ss of [] \<Rightarrow> None | s # _ \<Rightarrow> Some s)"
  by (induction ss) (auto simp: pending_def)

lemma pending_cong: "(\<And>s. s \<in> set ss \<Longrightarrow> map_of r (slot_rec_id s) = map_of r' (slot_rec_id s)) \<Longrightarrow> pending r ss = pending r' ss"
  by (auto simp: pending_def intro: filter_cong)

lemma pending_reported:
  assumes "distinct (map slot_rec_id ss)" "pending reported ss = s # rest"
  shows "pending (AList.update (slot_rec_id s) (slot_card_present s) reported) ss = rest"
  using assms
proof (induction ss)
  case (Cons t ss)
  show ?case
  proof (cases "map_of reported (slot_rec_id t) \<noteq> Some (slot_card_present t)")
    case True
    then have "t = s" "pending reported ss = rest"
      using Cons.prems(2) by (simp_all add: pending_def)
    moreover have "pending (AList.update (slot_rec_id t) (slot_card_present t) reported) ss = pending reported ss"
      using Cons.prems(1) by (intro pending_cong) (auto simp: update_conv' rev_image_eqI)
    ultimately show ?thesis
      by (simp add: pending_def update_conv')
  next
    case False
    then have "pending reported ss = s # rest"
      using Cons.prems(2) by (simp add: pending_def)
    moreover have "s \<in> set ss"
      using calculation by (metis filter_is_subset list.set_intros(1) pending_def subsetD)
    then have "slot_rec_id s \<noteq> slot_rec_id t"
      using Cons.prems(1) by (auto simp: rev_image_eqI)
    ultimately show ?thesis
      using Cons False by (simp add: pending_def update_conv')
  qed
qed (simp add: pending_def)

text \<open>Taking events until there is none, at most \<open>n\<close> of them.\<close>

fun drain_events :: "nat \<Rightarrow> ('i, 'o) ModuleState \<Rightarrow> CkSlotId list \<times> ('i, 'o) ModuleState" where
  "drain_events 0 m = ([], m)"
| "drain_events (Suc n) m =
     (case take_slot_event m of
        (None, m') \<Rightarrow> ([], m')
      | (Some i, m') \<Rightarrow> (case drain_events n m' of (is, m'') \<Rightarrow> (i # is, m'')))"

lemma drain_events_pending:
  assumes "distinct (map slot_rec_id (ms_slots m))" "length (pending (ms_event_reported m) (ms_slots m)) \<le> n"
  shows "\<exists>m'. drain_events n m = (map slot_rec_id (pending (ms_event_reported m) (ms_slots m)), m') \<and>
    take_slot_event m' = (None, m') \<and> ms_slots m' = ms_slots m"
  using assms
proof (induction n arbitrary: m)
  case 0
  then show ?case by (simp add: take_slot_event_def next_event_pending)
next
  case (Suc n)
  show ?case
  proof (cases "pending (ms_event_reported m) (ms_slots m)")
    case Nil
    then show ?thesis by (simp add: take_slot_event_def next_event_pending)
  next
    case (Cons s rest)
    let ?m = "m\<lparr>ms_event_reported := AList.update (slot_rec_id s) (slot_card_present s) (ms_event_reported m)\<rparr>"
    have "take_slot_event m = (Some (slot_rec_id s), ?m)"
      using Cons by (simp add: take_slot_event_def next_event_pending)
    moreover have "pending (ms_event_reported ?m) (ms_slots ?m) = rest"
      using pending_reported [OF Suc.prems(1) Cons] by simp
    ultimately show ?thesis
      using Suc.IH [of ?m] Suc.prems Cons by auto
  qed
qed


subsection \<open>The end of a login\<close>

lemma logout_ends_login:
  assumes "\<forall>s. slot (fst mp) i = Some s \<longrightarrow> \<not> starts_with_rapp (slot_reader s)"
  shows "\<not> is_logged_in (logout i mp) i"
  using assms
  by (cases mp) (auto simp: logout_def is_logged_in_def slot_def clear_slot_cache_def map_of_clear_at has_positive_pin1_def
      split: option.splits)


lemma close_session_login:
  assumes keys: "distinct (map fst (ms_sessions m))" and ses: "session m h = Some ses"
    and local: "\<forall>s. slot m (ses_slot_id ses) = Some s \<longrightarrow> \<not> starts_with_rapp (slot_reader s)"
  shows "is_logged_in (snd (close_session h (m, p))) (ses_slot_id ses) \<longleftrightarrow>
    is_logged_in (m, p) (ses_slot_id ses) \<and> (\<exists>h' ses'. h' \<noteq> h \<and> session m h' = Some ses' \<and> ses_slot_id ses' = ses_slot_id ses)"
proof -
  let ?m = "m\<lparr>ms_sessions := AList.delete h (ms_sessions m)\<rparr>"
  have "distinct (map fst (AList.delete h (ms_sessions m)))"
    using keys by (rule distinct_delete)
  then have "(\<exists>x \<in> set (AList.delete h (ms_sessions m)). ses_slot_id (snd x) = ses_slot_id ses) \<longleftrightarrow>
      (\<exists>h' ses'. map_of (AList.delete h (ms_sessions m)) h' = Some ses' \<and> ses_slot_id ses' = ses_slot_id ses)"
    by (metis (no_types, lifting) map_of_SomeD map_of_eq_Some_iff prod.collapse snd_conv)
  moreover have "\<dots> \<longleftrightarrow> (\<exists>h' ses'. h' \<noteq> h \<and> session m h' = Some ses' \<and> ses_slot_id ses' = ses_slot_id ses)"
    by (auto simp: session_def delete_conv' split: if_splits)
  moreover have "is_logged_in (?m, p) i = is_logged_in (m, p) i" for i
    by (simp add: is_logged_in_def slot_def)
  moreover have "\<not> is_logged_in (logout (ses_slot_id ses) (?m, p)) (ses_slot_id ses)"
    using local by (intro logout_ends_login) (simp add: slot_def)
  ultimately show ?thesis
    using ses by (auto simp: close_session_def forget_login_if_no_sessions_def list_ex_iff split_beta)
qed


section \<open>Properties\<close>

abbreviation reachable :: "hmac \<Rightarrow> process_caches \<Rightarrow> ('i, 'o) mp \<Rightarrow> bool" where
  "reachable hmac p\<^sub>0 mp \<equiv> (module_step hmac)\<^sup>*\<^sup>* (empty_module, p\<^sub>0) mp"

lemma reachable_inv: "reachable hmac p\<^sub>0 mp \<Longrightarrow> module_inv mp"
  by (rule module_steps_inv [OF _ empty_module_inv])

text \<open>
  (C18) In every state the module reaches, slot numbers and readers are in one-to-one correspondence; every session
  has a non-zero handle and belongs to a known slot, and the next handle is unused; a slot that shows a card
  has its objects; and the PIN cache of a slot is the one the process keeps for the slot's reader.
\<close>
theorem module_invariant:
  assumes "reachable hmac p\<^sub>0 (m, p)"
  shows "distinct (slot_ids m) \<and> distinct (map slot_reader (ms_slots m)) \<and>
    (\<forall>h ses. session m h = Some ses \<longrightarrow> h \<noteq> 0 \<and> (\<exists>s. slot m (ses_slot_id ses) = Some s)) \<and>
    session m (ms_next_session_handle m) = None \<and>
    (\<forall>i s. slot m i = Some s \<longrightarrow> slot_card_present s \<longrightarrow> (\<exists>objects. map_of (ms_token_cache m) i = Some objects)) \<and>
    (\<forall>i name. map_of (ms_pin_caches m) i = Some name \<longrightarrow> reader_name m i = Some name \<and> (\<exists>c. map_of p name = Some c))"
proof (intro conjI allI impI)
  have inv: "module_inv (m, p)" using assms by (rule reachable_inv)
  then have ok: "slots_ok m" "sessions_ok m" "caches_ok (m, p)" "objects_ok m" by (simp_all add: module_inv_def)
  show "distinct (slot_ids m)" "distinct (map slot_reader (ms_slots m))"
    using ok(1) by (simp_all add: slots_ok_distinct slots_ok_def)
  show "h \<noteq> 0" "\<exists>s. slot m (ses_slot_id ses) = Some s" if "session m h = Some ses" for h ses
    using map_of_SomeD [OF that [unfolded session_def]] ok(1,2)
    by (fastforce simp: sessions_ok_def slot_eq slot_ids_def)+
  show "session m (ms_next_session_handle m) = None"
    using ok(2) by (auto simp: session_def sessions_ok_def map_of_eq_None_iff)
  show "\<exists>objects. map_of (ms_token_cache m) i = Some objects" if "slot m i = Some s" "slot_card_present s" for i s
    using that ok(1,4) by (auto simp: slot_eq objects_ok_def)
  fix i name assume "map_of (ms_pin_caches m) i = Some name"
  from map_of_SomeD [OF this] show "reader_name m i = Some name" "\<exists>c. map_of p name = Some c"
    using ok(1,3) by (auto simp: caches_ok_def reader_name_def slot_eq)
qed

text \<open>
  A slot number names one reader for the life of the module: whatever happens, it stays in the table with the
  same reader.
\<close>
theorem slot_keeps_its_reader:
  assumes "(module_step hmac)\<^sup>*\<^sup>* (m, p) (m', p')" "reader_name m i = Some name"
  shows "reader_name m' i = Some name"
proof -
  have "prefix (slot_names (fst (m, p))) (slot_names (fst (m', p')))"
    using assms(1) by (induction rule: rtranclp_induct) (auto intro: prefix_order.trans module_step_names)
  then show ?thesis
    using assms(2) by (auto simp: reader_name_names prefix_def map_add_Some_iff map_of_append)
qed

text \<open>
  (C19) A PIN the card has rejected is remembered for its reader as long as the process lives: no logout, removal,
  refresh, session or later login makes the module forget it.
\<close>
theorem rejections_outlive_the_session:
  assumes "(module_step hmac)\<^sup>*\<^sup>* (m, p) (m', p')" "map_of p name = Some c" "is_rejected hmac c serial which pin"
  shows "\<exists>d. map_of p' name = Some d \<and> is_rejected hmac d serial which pin"
proof -
  have "keeps_rejections (snd (m, p)) (snd (m', p'))"
    using assms(1) by (induction rule: rtranclp_induct) (auto intro: keeps_trans module_step_rejections)
  then show ?thesis
    using assms(2,3) remembers_rejected by (fastforce simp: keeps_rejections_def)
qed

text \<open>
  When a refresh finds the card of a slot gone, or another card in its reader, the slot shows no card, its
  objects are dropped and its user is logged out.
\<close>
theorem removed_card_forgotten:
  assumes "reachable hmac p\<^sub>0 (m, p)" "slot m i = Some s" "slot_card_present s"
    and "\<not> starts_with_rapp (slot_reader s)" "i \<notin> set (ms_remote_logged_in m)"
    and "prober_enumerate prober = Inr readers" "room (length readers) m" "distinct (map fst readers)"
    and "(slot_reader s, present) \<in> set readers" "\<not> present \<or> prober_probe prober (slot_reader s) = Observation_Absent"
  shows "case refresh_slots_with prober (m, p) of (r, m', p') \<Rightarrow>
    r = Inr () \<and> slot m' i = Some (s\<lparr>slot_card_present := False\<rparr>) \<and> map_of (ms_token_cache m') i = None \<and>
    \<not> is_logged_in (m', p') i"
proof -
  have inv: "module_inv (m, p)" using assms(1) by (rule reachable_inv)
  then have s: "s \<in> set (ms_slots m)" "slot_rec_id s = i"
    using assms(2) by (simp_all add: module_inv_def slot_eq)
  obtain m' p' where f: "fold (refresh_reader prober) readers (m, p) = (m', p')" by (metis prod.collapse)
  have e: "emptied s (m', p')"
    using refresh_readers_gone [OF inv, of readers s present prober] assms s by (simp add: f)
  have "slots_ok m'"
    using fold_refresh_inv [OF inv, of readers prober] assms(7) by (simp add: f module_inv_def)
  then have "slot m' i = Some (s\<lparr>slot_card_present := False\<rparr>)"
    using e s(2) by (simp add: slot_eq emptied_def)
  moreover have "ms_remote_logged_in m' = ms_remote_logged_in m"
    using refresh_readers_remote [of prober readers "(m, p)"] by (simp add: f)
  ultimately show ?thesis
    using e s(2) assms(4-6) by (auto simp: refresh_slots_with_def f emptied_def is_logged_in_def split: option.split)
qed

text \<open>
  (C20) A reader that has vanished from the enumeration, say because it was unplugged, keeps its slot as it was: a
  card is still shown in it, its objects are kept and its user stays logged in.
\<close>
theorem vanished_reader_keeps_login:
  assumes "reachable hmac p\<^sub>0 (m, p)" "slot m i = Some s"
    and "prober_enumerate prober = Inr readers" "room (length readers) m" "slot_reader s \<notin> fst ` set readers"
  shows "case refresh_slots_with prober (m, p) of (r, m', p') \<Rightarrow>
    r = Inr () \<and> slot m' i = Some s \<and> map_of (ms_token_cache m') i = map_of (ms_token_cache m) i \<and>
    is_logged_in (m', p') i = is_logged_in (m, p) i"
proof -
  have inv: "module_inv (m, p)" using assms(1) by (rule reachable_inv)
  then have s: "s \<in> set (ms_slots m)" "slot_rec_id s = i"
    using assms(2) by (simp_all add: module_inv_def slot_eq)
  obtain m' p' where f: "fold (refresh_reader prober) readers (m, p) = (m', p')" by (metis prod.collapse)
  have u: "untouched s (m, p) (m', p')"
    using untouched_refresh_readers [OF inv, of readers s prober] assms(4,5) s(1) by (simp add: f)
  have "slots_ok m'"
    using fold_refresh_inv [OF inv, of readers prober] assms(4) by (simp add: f module_inv_def)
  then have "slot m' i = Some s"
    using u s(2) by (simp add: slot_eq untouched_def)
  then show ?thesis
    using u s assms(2,3) bound_name [OF inv s(1)]
    by (auto simp: refresh_slots_with_def f untouched_def is_logged_in_def split: option.splits)
qed

text \<open>
  Slot events are neither lost nor repeated: taking events until there is none reports exactly the slots whose
  card was inserted or removed since it was last reported, each once, and then there is no event left.
\<close>
theorem slot_events_drain:
  assumes "reachable hmac p\<^sub>0 (m, p)"
  shows "\<exists>m'. drain_events (length (ms_slots m)) m =
      (map slot_rec_id (filter (\<lambda>s. map_of (ms_event_reported m) (slot_rec_id s) \<noteq> Some (slot_card_present s)) (ms_slots m)), m') \<and>
    take_slot_event m' = (None, m') \<and> ms_slots m' = ms_slots m"
  using drain_events_pending [of m "length (ms_slots m)"] reachable_inv [OF assms] slots_ok_distinct [of m]
  by (simp add: pending_def module_inv_def slot_ids_def)

text \<open>
  Closing a session ends the login of a card exactly when it was the last session on its slot; logging out and
  closing all sessions of the slot always end it.
\<close>
theorem last_session_ends_login:
  assumes "reachable hmac p\<^sub>0 (m, p)" "session m h = Some ses" "slot m (ses_slot_id ses) = Some s"
    and "\<not> starts_with_rapp (slot_reader s)"
  shows "(is_logged_in (snd (close_session h (m, p))) (ses_slot_id ses) \<longleftrightarrow>
      is_logged_in (m, p) (ses_slot_id ses) \<and> (\<exists>h' ses'. h' \<noteq> h \<and> session m h' = Some ses' \<and> ses_slot_id ses' = ses_slot_id ses)) \<and>
    \<not> is_logged_in (logout (ses_slot_id ses) (m, p)) (ses_slot_id ses) \<and>
    \<not> is_logged_in (close_all_sessions (ses_slot_id ses) (m, p)) (ses_slot_id ses)"
proof (intro conjI)
  have "distinct (map fst (ms_sessions m))"
    using reachable_inv [OF assms(1)] by (simp add: module_inv_def sessions_ok_def)
  then show "is_logged_in (snd (close_session h (m, p))) (ses_slot_id ses) \<longleftrightarrow>
      is_logged_in (m, p) (ses_slot_id ses) \<and> (\<exists>h' ses'. h' \<noteq> h \<and> session m h' = Some ses' \<and> ses_slot_id ses' = ses_slot_id ses)"
    using assms(2-4) by (intro close_session_login) simp_all
  show "\<not> is_logged_in (logout (ses_slot_id ses) (m, p)) (ses_slot_id ses)"
    using assms(3,4) by (intro logout_ends_login) simp
  show "\<not> is_logged_in (close_all_sessions (ses_slot_id ses) (m, p)) (ses_slot_id ses)"
    using assms(3,4) by (simp add: close_all_sessions_def logout_ends_login slot_def)
qed


section \<open>Witnesses\<close>

text \<open>One reader with a card; a session is opened on it and PIN 1 is stored after a login.\<close>

definition example_prober :: "string \<Rightarrow> bool \<Rightarrow> (unit, unit) SlotProber" where
  "example_prober name present = \<lparr>prober_enumerate = Inr [(name, present)], prober_probe = (\<lambda>_. Observation_Present),
     prober_build_objects = (\<lambda>_. Inr ()), prober_reader_identity = (\<lambda>_. ())\<rparr>"

definition life_pin :: PinBytes where
  "life_pin = \<lparr>pin_storage = [0x31, 0x32, 0x33, 0x34], pin_length = 4\<rparr>"

definition example_empty_cache :: PinSafetyCache where
  "example_empty_cache = \<lparr>held_pin1 = None, generation = 0, fingerprint_key = [7], rejected_pin1 = [], rejected_pin2 = []\<rparr>"

definition example_held_cache :: PinSafetyCache where
  "example_held_cache = snd (store_pin1 (\<lambda>k m. Some m) example_empty_cache (TokenSerial [0x41]) life_pin)"

definition example_slot :: "unit SlotRecord" where
  "example_slot = \<lparr>slot_rec_id = 1, slot_reader = ''R'', slot_card_present = True, slot_identity = ()\<rparr>"

definition example_session :: Session where
  "example_session = \<lparr>ses_slot_id = 1, ses_flags = CKF_SERIAL_SESSION, ses_find = None, ses_sign = None, ses_verify = None\<rparr>"

definition example_slots :: "(unit, unit) ModuleState" where
  "example_slots = \<lparr>ms_slots = [example_slot], ms_next_slot_id = 2, ms_sessions = [], ms_next_session_handle = 1,
     ms_pin_caches = [], ms_token_cache = [(1, ())], ms_event_reported = [], ms_remote_logged_in = []\<rparr>"

definition example_module :: "(unit, unit) ModuleState" where
  "example_module = example_slots\<lparr>ms_sessions := [(1, example_session)], ms_next_session_handle := 2, ms_pin_caches := [(1, ''R'')]\<rparr>"

lemmas example_state_defs = example_slot_def example_session_def example_slots_def example_module_def

lemma example_refresh:
  "refresh_slots (example_prober ''R'' True) (rto :: bytes \<Rightarrow> string \<Rightarrow> CkRv + unit) None (empty_module, []) = (example_slots, [])"
  by (simp add: refresh_slots_def refresh_slots_with_def refresh_remote_slots_def refresh_reader_def example_prober_def
      empty_module_def preserves_last_known_state_def push_slot_def saturating_succ_def SLOT_ID_BASE_def
      SESSION_HANDLE_BASE_def example_state_defs Let_def)

lemma example_reached: "reachable (\<lambda>k m. Some m) [] (example_module, [(''R'', example_held_cache)])"
proof -
  let ?h = "\<lambda>(k :: bytes) m. Some m"
  let ?rto = "\<lambda>_ _. Inl CKR_DEVICE_ERROR :: CkRv + unit"
  let ?open = "snd (open_session example_slots 1 CKF_SERIAL_SESSION)"
  have room: "room (length (enumerated (example_prober ''R'' True)) + pair_count (None :: (unit, bytes) RemotePair list option)) (fst (empty_module :: (unit, unit) ModuleState, []))"
    by (simp add: room_def enumerated_def example_prober_def pair_count_def empty_module_def)
  have "module_step ?h (empty_module, []) (example_slots, [])"
    using module_step.refreshed [OF room, of ?h ?rto] example_refresh [of ?rto] by simp
  moreover have "module_step ?h (example_slots, []) (?open, [])"
    by (rule module_step.opened [of _ _ example_slot]) (simp_all add: slot_def example_state_defs)
  moreover have "module_step ?h (?open, []) (snd (pin_cache (Inr [7] :: unit + bytes) 1 (?open, [])))"
    by (rule module_step.bound)
  moreover have "snd (pin_cache (Inr [7] :: unit + bytes) 1 (?open, [])) = (example_module, [(''R'', example_empty_cache)])"
    by (simp add: pin_cache_def open_session_def reader_name_def slot_def PinSafetyCache_new_def saturating_succ_def
        example_state_defs example_empty_cache_def Let_def)
  moreover have "module_step ?h (example_module, [(''R'', example_empty_cache)])
      (example_module, AList.update ''R'' (st_cache (\<lparr>st_cache = example_empty_cache, in_flight = []\<rparr>
        \<lparr>st_cache := snd (store_pin1 ?h (st_cache \<lparr>st_cache = example_empty_cache, in_flight = []\<rparr>) (TokenSerial [0x41]) life_pin)\<rparr>)) [(''R'', example_empty_cache)])"
    by (rule module_step.presented [OF _ cache_step.store]) simp
  ultimately show ?thesis
    by (simp add: example_held_cache_def)
qed

theorem module_invariant_witness:
  "session example_module 1 = Some example_session \<and> (\<exists>s. slot example_module 1 = Some s) \<and> session example_module 2 = None"
proof -
  have "session example_module 1 = Some example_session" "ms_next_session_handle example_module = 2" "ses_slot_id example_session = 1"
    by (simp_all add: session_def example_state_defs)
  then show ?thesis
    using module_invariant [OF example_reached] by metis
qed

theorem slot_keeps_its_reader_witness: "reader_name (fst (logout 1 (example_module, []))) 1 = Some ''R''"
proof -
  let ?out = "logout 1 (example_module, [])"
  have "(module_step (\<lambda>k m. Some m))\<^sup>*\<^sup>* (example_module, []) (fst ?out, snd ?out)"
    by (simp add: module_step.logged_out r_into_rtranclp)
  moreover have "reader_name example_module 1 = Some ''R''"
    by (simp add: reader_name_def slot_def example_state_defs)
  ultimately show ?thesis by (rule slot_keeps_its_reader)
qed

theorem rejections_outlive_the_session_witness:
  "\<exists>d. map_of (snd (logout 1 (example_module,
       [(''R'', record_rejected (\<lambda>k m. Some m) example_empty_cache (TokenSerial [0x41]) PinSlot_Pin1 life_pin)]))) ''R'' = Some d \<and>
     is_rejected (\<lambda>k m. Some m) d (TokenSerial [0x41]) PinSlot_Pin1 life_pin"
proof -
  let ?c = "record_rejected (\<lambda>k m. Some m) example_empty_cache (TokenSerial [0x41]) PinSlot_Pin1 life_pin"
  let ?out = "logout 1 (example_module, [(''R'', ?c)])"
  have "(module_step (\<lambda>k m. Some m))\<^sup>*\<^sup>* (example_module, [(''R'', ?c)]) (fst ?out, snd ?out)"
    by (simp add: module_step.logged_out r_into_rtranclp)
  then show ?thesis
    by (rule rejections_outlive_the_session [OF _ _ record_rejected_is_rejected]) simp
qed

lemma example_facts:
  "slot example_module 1 = Some example_slot" "slot_card_present example_slot" "slot_reader example_slot = ''R''"
  "room (Suc 0) example_module" "ms_remote_logged_in example_module = []" "session example_module 1 = Some example_session"
  "ses_slot_id example_session = 1" "\<not> starts_with_rapp ''R''"
  by (simp_all add: slot_def session_def room_def starts_with_rapp_def example_state_defs)

theorem removed_card_forgotten_witness:
  "is_logged_in (example_module, [(''R'', example_held_cache)]) 1 \<and>
   \<not> is_logged_in (snd (refresh_slots_with (example_prober ''R'' False) (example_module, [(''R'', example_held_cache)]))) 1"
proof (intro conjI)
  show "is_logged_in (example_module, [(''R'', example_held_cache)]) 1"
    by (simp add: is_logged_in_def example_state_defs example_held_cache_def store_pin1_def hold_pin1_def is_rejected_def
        example_empty_cache_def has_positive_pin1_def Let_def)
  show "\<not> is_logged_in (snd (refresh_slots_with (example_prober ''R'' False) (example_module, [(''R'', example_held_cache)]))) 1"
    using removed_card_forgotten [OF example_reached, of 1 example_slot "example_prober ''R'' False" "[(''R'', False)]" False]
    by (simp add: example_facts example_prober_def split_beta)
qed

theorem vanished_reader_keeps_login_witness:
  "slot (fst (snd (refresh_slots_with (example_prober ''S'' False) (example_module, [(''R'', example_held_cache)])))) 1 = Some example_slot"
  using vanished_reader_keeps_login [OF example_reached, of 1 example_slot "example_prober ''S'' False" "[(''S'', False)]"]
  by (simp add: example_facts example_prober_def split_beta)

theorem slot_events_drain_witness: "\<exists>m'. drain_events 1 example_module = ([1], m') \<and> take_slot_event m' = (None, m')"
  using slot_events_drain [OF example_reached] by (auto simp: example_state_defs)

theorem last_session_ends_login_witness:
  "\<not> is_logged_in (snd (close_session 1 (example_module, [(''R'', example_held_cache)]))) 1"
proof -
  have "\<not> (\<exists>h' ses'. h' \<noteq> 1 \<and> session example_module h' = Some ses')"
    by (simp add: session_def example_state_defs)
  then show ?thesis
    using last_session_ends_login [OF example_reached, of 1 example_session example_slot] by (auto simp: example_facts)
qed

end
