(* ===== verification/Pkcs11_Api.thy ===== *)
theory Pkcs11_Api
  imports Pkcs11_Objects Pkcs11_Card Pkcs11_Life
begin

text \<open>
  The functions a PKCS\#11 caller sees (\<open>refineid-pkcs11\<close>, \<open>api.rs\<close>) over the module state, the token objects and the
  card. A NULL pointer is \<^const>\<open>None\<close>; a pointer to an output is the value it points to before the call and,
  in the result, after it. A pointer through which a function only
  writes one structure or one handle is not NULL. A buffer is the list of the bytes the caller has in it. The state is the module, if it
  is initialised, and the PIN caches of the process; the card is a second state. The global lock is never
  poisoned.

  Signing and logging in release the module while the card works: \<open>others\<close> and \<open>later\<close> are what the calls of
  other threads did to the module meanwhile, \<open>other\<close> what they did to the PIN cache.
\<close>

section \<open>The code\<close>

type_synonym 'i gl = "('i, TokenObjects) ModuleState option \<times> process_caches"

text \<open>What the module finds outside: readers, pairings, certificates, the card and the phone.\<close>

record ('i, 't, 'o, 'e) Env =
  env_prober :: "('i, TokenObjects) SlotProber"
  env_remote_token_objects :: "bytes \<Rightarrow> string \<Rightarrow> CkRv + TokenObjects"
  env_pairs :: "('i, bytes) RemotePair list option"
  env_hmac :: hmac
  env_random :: "unit + bytes"
  env_open :: "string \<Rightarrow> ('t, 'o, unit) io"
  env_tx :: "('t, 'e) transport"
  env_trim :: "string \<Rightarrow> string"
  env_variable :: "string \<Rightarrow> string option"
  env_remote_sign :: "string \<Rightarrow> string \<Rightarrow> Mechanism \<Rightarrow> bytes \<Rightarrow> ('t, bytes) ck_io"

definition ulong_from_usize :: "nat \<Rightarrow> CkUlong" where
  "ulong_from_usize value = (if value < 2 ^ 32 then of_nat value else - 1)"

definition usize_from_ulong :: "CkUlong \<Rightarrow> nat" where
  "usize_from_ulong value = unat value"

definition string_bytes :: "string \<Rightarrow> bytes" where
  "string_bytes = map (\<lambda>c. of_nat (of_char c))"

definition padded_field :: "nat \<Rightarrow> bytes \<Rightarrow> bytes" where
  "padded_field n text = take n text @ replicate (n - length text) 0x20"


text \<open>The two-call rule, for bytes and for handles.\<close>

definition deliver :: "'a list option \<Rightarrow> CkUlong \<Rightarrow> 'a list \<Rightarrow> CkRv \<times> 'a list option \<times> CkUlong" where
  "deliver dst dst_len src =
     (case dst of
        None \<Rightarrow> (CKR_OK, None, ulong_from_usize (length src))
      | Some buffer \<Rightarrow>
          if usize_from_ulong dst_len < length src
          then (CKR_BUFFER_TOO_SMALL, Some buffer, ulong_from_usize (length src))
          else (CKR_OK, Some (src @ drop (length src) buffer), ulong_from_usize (length src)))"

definition deliver_bytes :: "bytes option \<Rightarrow> CkUlong \<Rightarrow> bytes \<Rightarrow> CkRv \<times> bytes option \<times> CkUlong" where
  "deliver_bytes = deliver"



subsection \<open>The module\<close>

definition with_module :: "('i gl \<Rightarrow> CkRv \<Rightarrow> 'a) \<Rightarrow> 'i gl \<Rightarrow> (('i, TokenObjects) mp \<Rightarrow> 'a) \<Rightarrow> 'a" where
  "with_module answer g f =
     (case g of (None, p) \<Rightarrow> answer g CKR_CRYPTOKI_NOT_INITIALIZED | (Some m, p) \<Rightarrow> f (m, p))"

abbreviation entered :: "('i, TokenObjects) mp \<Rightarrow> 'i gl" where
  "entered mp \<equiv> (Some (fst mp), snd mp)"


definition env_token ::
  "('i, 't, 'o, 'e) Env \<Rightarrow> CkSlotId \<Rightarrow> ('i, TokenObjects) ModuleState \<Rightarrow> (CkRv + TokenObjects) \<times> ('i, TokenObjects) ModuleState" where
  "env_token env = ensure_token (prober_build_objects (env_prober env)) (remote_objects (env_remote_token_objects env) (env_pairs env))"




subsection \<open>Slots and tokens\<close>


definition CKF_TOKEN_PRESENT :: CkFlags where "CKF_TOKEN_PRESENT = 0x1"
definition CKF_REMOVABLE_DEVICE :: CkFlags where "CKF_REMOVABLE_DEVICE = 0x2"
definition CKF_HW_SLOT :: CkFlags where "CKF_HW_SLOT = 0x4"

definition slot_info_flags :: "'i SlotRecord \<Rightarrow> CkFlags" where
  "slot_info_flags s =
     (let flags = CKF_HW_SLOT OR CKF_REMOVABLE_DEVICE
      in if slot_card_present s then flags OR CKF_TOKEN_PRESENT else flags)"

text \<open>What a reader says of itself (\<open>refineid-lib-pcsc\<close>, \<open>lib.rs\<close>), and the answer about its slot.\<close>

record ReaderIdentity =
  vendor_name :: "string option"
  ifd_version :: "(u8 \<times> u8) option"

record CkSlotInfo =
  sl_slot_description :: bytes
  sl_manufacturer_id :: bytes
  sl_flags :: CkFlags
  sl_hardware_version :: "u8 \<times> u8"
  sl_firmware_version :: "u8 \<times> u8"

definition c_get_slot_info :: "CkSlotId \<Rightarrow> ReaderIdentity gl \<Rightarrow> CkRv \<times> CkSlotInfo option" where
  "c_get_slot_info slot_id g =
     with_module (\<lambda>g rv. (rv, None)) g (\<lambda>(m, p).
       case slot m slot_id of
         None \<Rightarrow> (CKR_SLOT_ID_INVALID, None)
       | Some s \<Rightarrow>
           (let identity = slot_identity s;
                manufacturer = (case vendor_name identity of None \<Rightarrow> [] | Some name \<Rightarrow> name);
                version = (case ifd_version identity of None \<Rightarrow> (0, 0) | Some ifd \<Rightarrow> ifd)
            in (CKR_OK, Some \<lparr>sl_slot_description = padded_field 64 (string_bytes (slot_reader s)),
                  sl_manufacturer_id = padded_field 32 (string_bytes manufacturer), sl_flags = slot_info_flags s,
                  sl_hardware_version = version, sl_firmware_version = version\<rparr>)))"











subsection \<open>Sessions and logins\<close>




record CkSessionInfo =
  si_slot_id :: CkSlotId
  si_state :: CkUlong
  si_flags :: CkFlags

definition c_get_session_info :: "CkSessionHandle \<Rightarrow> 'i gl \<Rightarrow> CkRv \<times> CkSessionInfo option" where
  "c_get_session_info h g =
     with_module (\<lambda>g rv. (rv, None)) g (\<lambda>mp.
       case session (fst mp) h of
         None \<Rightarrow> (CKR_SESSION_HANDLE_INVALID, None)
       | Some ses \<Rightarrow>
           (CKR_OK, Some \<lparr>si_slot_id = ses_slot_id ses,
              si_state = session_state (ses_flags ses) (is_logged_in mp (ses_slot_id ses)), si_flags = ses_flags ses\<rparr>))"


text \<open>The cache a card operation works on, and its new value put back. A slot's cache is always there
  (\<open>module_invariant\<close> of \<open>Pkcs11_Life\<close>).\<close>

definition on_cache ::
  "string \<Rightarrow> (PinSafetyCache \<Rightarrow> ('t, CkRv \<times> PinSafetyCache, 'a \<times> PinSafetyCache) io) \<Rightarrow> 'i gl \<Rightarrow> 't \<Rightarrow>
     (CkRv + 'a) \<times> 'i gl \<times> 't" where
  "on_cache name f = (\<lambda>(module, p) t.
     case map_of p name of
       None \<Rightarrow> (Inl CKR_DEVICE_ERROR, (module, p), t)
     | Some cache \<Rightarrow>
         (case f cache t of
            (Inl (e, cache'), t') \<Rightarrow> (Inl e, (module, AList.update name cache' p), t')
          | (Inr (x, cache'), t') \<Rightarrow> (Inr x, (module, AList.update name cache' p), t')))"




subsection \<open>Search and attributes\<close>

record CkAttribute =
  attr_type :: CkAttributeType
  attr_p_value :: "bytes option"
  attr_value_len :: CkUlong


text \<open>A template is the array of its entries; a NULL template comes with the count the caller gave.\<close>

definition find_init :: "('i, 't, 'o, 'e) Env \<Rightarrow> CkSessionHandle \<Rightarrow> (CkAttributeType \<times> bytes) list \<Rightarrow> 'i gl \<Rightarrow> CkRv \<times> 'i gl" where
  "find_init env h parsed g =
     with_module (\<lambda>g rv. (rv, g)) g (\<lambda>(m, p).
       case session m h of
         None \<Rightarrow> (CKR_SESSION_HANDLE_INVALID, g)
       | Some ses \<Rightarrow>
           (case env_token env (ses_slot_id ses) m of
              (Inl e, m') \<Rightarrow> (e, (Some m', p))
            | (Inr token, m') \<Rightarrow>
                if session m' h = None then (CKR_SESSION_HANDLE_INVALID, (Some m', p))
                else (CKR_OK, (Some (session_mut (begin_find (matching_handles token parsed)) h m'), p))))"


text \<open>The handles are written to the start of the caller's array, which holds at least \<open>max_count\<close> of them.\<close>

definition c_find_objects :: "CkSessionHandle \<Rightarrow> CkUlong \<Rightarrow> 'i gl \<Rightarrow> (CkRv \<times> CkObjectHandle list option) \<times> 'i gl" where
  "c_find_objects h max_count g =
     with_module (\<lambda>g rv. ((rv, None), g)) g (\<lambda>(m, p).
       case session m h of
         None \<Rightarrow> ((CKR_SESSION_HANDLE_INVALID, None), g)
       | Some ses \<Rightarrow>
           (case fst (next_find_batch (usize_from_ulong max_count) ses) of
              None \<Rightarrow> ((CKR_OPERATION_NOT_INITIALIZED, None), g)
            | Some batch \<Rightarrow>
                ((CKR_OK, Some batch), (Some (session_mut (\<lambda>ses. snd (next_find_batch (usize_from_ulong max_count) ses)) h m), p))))"


definition set_value_len :: "CkUlong \<Rightarrow> CkAttribute \<Rightarrow> CkAttribute" where
  "set_value_len len entry = entry\<lparr>attr_value_len := len\<rparr>"

definition fill_one_attribute :: "CkAttribute \<Rightarrow> AttrValue option \<Rightarrow> CkRv \<times> CkAttribute" where
  "fill_one_attribute entry value =
     (case value of
        None \<Rightarrow> (CKR_ATTRIBUTE_TYPE_INVALID, set_value_len CK_UNAVAILABLE_INFORMATION entry)
      | Some AttrValue_Sensitive \<Rightarrow> (CKR_ATTRIBUTE_SENSITIVE, set_value_len CK_UNAVAILABLE_INFORMATION entry)
      | Some val \<Rightarrow>
          let bytes = (case AttrValue_as_bytes val of None \<Rightarrow> [] | Some bs \<Rightarrow> bs)
          in (case deliver (attr_p_value entry) (attr_value_len entry) bytes of
                (rv, p_value', len') \<Rightarrow> (rv, set_value_len len' (entry\<lparr>attr_p_value := p_value'\<rparr>))))"




subsection \<open>Signing and verifying\<close>


definition clear_sign :: "CkSessionHandle \<Rightarrow> ('i, 'o) ModuleState \<Rightarrow> ('i, 'o) ModuleState" where
  "clear_sign h m = session_mut session_clear_sign h m"

text \<open>The second critical section of \<open>C_Sign\<close>: the signature is delivered into a session that is still open.\<close>

definition sign_deliver ::
  "CkSessionHandle \<Rightarrow> bytes option \<Rightarrow> CkUlong \<Rightarrow> CkRv + bytes \<Rightarrow> 'i gl \<Rightarrow> CkRv \<times> bytes option \<times> CkUlong" where
  "sign_deliver h sig capacity outcome g =
     (case outcome of
        Inl e \<Rightarrow> (e, sig, capacity)
      | Inr bytes \<Rightarrow>
          (case g of
             (None, _) \<Rightarrow> (CKR_CRYPTOKI_NOT_INITIALIZED, sig, capacity)
           | (Some m, _) \<Rightarrow>
               if session m h = None then (CKR_SESSION_CLOSED, sig, capacity) else deliver_bytes sig capacity bytes))"

definition c_sign ::
  "('i, 't, 'o, 'e) Env \<Rightarrow> ('i gl \<Rightarrow> 'i gl) \<Rightarrow> (PinSafetyCache \<Rightarrow> PinSafetyCache) \<Rightarrow> ('i gl \<Rightarrow> 'i gl) \<Rightarrow> CkSessionHandle \<Rightarrow>
     bytes \<Rightarrow> bytes option \<Rightarrow> CkUlong option \<Rightarrow> 'i gl \<Rightarrow> 't \<Rightarrow> (CkRv \<times> bytes option \<times> CkUlong option) \<times> 'i gl \<times> 't" where
  "c_sign env others other later h input sig sig_len g t =
     (case sig_len of
        None \<Rightarrow> ((CKR_ARGUMENTS_BAD, sig, sig_len), g, t)
      | Some capacity \<Rightarrow>
          with_module (\<lambda>g rv. ((rv, sig, sig_len), g, t)) g (\<lambda>(m, p).
            case session m h of
              None \<Rightarrow> ((CKR_SESSION_HANDLE_INVALID, sig, sig_len), g, t)
            | Some ses \<Rightarrow>
                (case ses_sign ses of
                   None \<Rightarrow> ((CKR_OPERATION_NOT_INITIALIZED, sig, sig_len), g, t)
                 | Some mechanism \<Rightarrow>
                     if sig = None then ((CKR_OK, sig, Some (ulong_from_usize (Mechanism_signature_len mechanism))), g, t)
                     else if usize_from_ulong capacity < Mechanism_signature_len mechanism
                       then ((CKR_BUFFER_TOO_SMALL, sig, Some (ulong_from_usize (Mechanism_signature_len mechanism))), g, t)
                     else (case reader_name m (ses_slot_id ses) of
                       None \<Rightarrow> ((CKR_DEVICE_ERROR, sig, sig_len), (Some (clear_sign h m), p), t)
                     | Some name \<Rightarrow>
                         (case pin_cache (env_random env) (ses_slot_id ses) (m, p) of
                            (Inl e, m', p') \<Rightarrow> ((e, sig, sig_len), (Some (clear_sign h m'), p'), t)
                          | (Inr cache_name, m', p') \<Rightarrow>
                              (case on_cache cache_name
                                      (\<lambda>cache. card_sign_with_origin_source (env_trim env) (env_remote_sign env) (env_hmac env)
                                         (env_open env) (env_tx env) other name cache mechanism input None (env_variable env))
                                      (others (Some (clear_sign h m'), p')) t of
                                 (outcome, g', t') \<Rightarrow>
                                   (case sign_deliver h sig capacity outcome (later g') of
                                      (rv, sig', len') \<Rightarrow> ((rv, sig', Some len'), later g', t')))))))) "






section \<open>Calls as steps of the module\<close>

lemma with_module_None [simp]: "with_module answer (None, p) f = answer (None, p) CKR_CRYPTOKI_NOT_INITIALIZED"
  and with_module_Some [simp]: "with_module answer (Some m, p) f = f (m, p)"
  by (simp_all add: with_module_def)

abbreviation runs :: "hmac \<Rightarrow> ('i, 'o) mp \<Rightarrow> ('i, 'o) mp \<Rightarrow> bool" where
  "runs hmac \<equiv> (module_step hmac)\<^sup>*\<^sup>*"







text \<open>What a card operation does to the cache are operations of the cache.\<close>

definition cache_runs :: "hmac \<Rightarrow> PinSafetyCache \<Rightarrow> PinSafetyCache \<Rightarrow> bool" where
  "cache_runs hmac c d \<longleftrightarrow> (\<exists>fl. (cache_step hmac)\<^sup>*\<^sup>* \<lparr>st_cache = c, in_flight = []\<rparr> \<lparr>st_cache = d, in_flight = fl\<rparr>)"

lemma cache_runs_refl [simp]: "cache_runs hmac c c"
  by (auto simp: cache_runs_def)












text \<open>A call leaves the module initialised and takes it through steps of the module.\<close>

definition tracks :: "hmac \<Rightarrow> ('i, TokenObjects) mp \<Rightarrow> 'i gl \<Rightarrow> bool" where
  "tracks hmac mp g \<longleftrightarrow> (\<exists>mp'. g = entered mp' \<and> runs hmac mp mp')"

lemma tracks_stay [simp]: "tracks hmac (m, p) (Some m, p)"
  by (auto simp: tracks_def)




















subsection \<open>Sequences of calls\<close>


text \<open>What a sequence of calls keeps: an initialised module is in a state its own steps reach.\<close>

definition api_inv :: "hmac \<Rightarrow> 'i gl \<Rightarrow> bool" where
  "api_inv hmac g \<longleftrightarrow> (\<forall>m. fst g = Some m \<longrightarrow> (\<exists>p. reachable hmac p (m, snd g)))"

definition api_keeps :: "hmac \<Rightarrow> 'i gl \<Rightarrow> 'i gl \<Rightarrow> bool" where
  "api_keeps hmac g g' \<longleftrightarrow> (api_inv hmac g \<longrightarrow> api_inv hmac g') \<and> keeps_rejections (snd g) (snd g')"

lemma api_keeps_refl [simp]: "api_keeps hmac g g"
  by (simp add: api_keeps_def)










section \<open>Properties\<close>





text \<open>
  (C24) The two-call rule: a call without a buffer reports the length, a second call with a buffer of that length is
  answered in full, and a buffer that is too small is left as it was while the length is reported again.
\<close>
theorem length_query_then_delivery:
  assumes "length src < 2 ^ 32"
  shows "\<exists>len. deliver_bytes None any src = (CKR_OK, None, len) \<and> unat len = length src \<and>
    (\<forall>buffer. length buffer = length src \<longrightarrow> deliver_bytes (Some buffer) len src = (CKR_OK, Some src, len)) \<and>
    (\<forall>buffer capacity. unat capacity < length src \<longrightarrow>
       deliver_bytes (Some buffer) capacity src = (CKR_BUFFER_TOO_SMALL, Some buffer, len))"
proof -
  have "unat (of_nat (length src) :: CkUlong) = length src"
    using assms by (simp add: unsigned_of_nat take_bit_nat_eq_self)
  then show ?thesis
    using assms by (intro exI [of _ "of_nat (length src)"])
      (simp add: deliver_bytes_def deliver_def ulong_from_usize_def usize_from_ulong_def)
qed

text \<open>
  Asking for the length of a signature is free: without a buffer, or with one that is too small, \<open>C_Sign\<close>
  reports the length of the mechanism's signatures, keeps the operation and does not touch the card.
\<close>
theorem sign_length_probe_is_free:
  assumes "session m h = Some ses" "ses_sign ses = Some mechanism"
    and "sig = None \<or> unat capacity < Mechanism_signature_len mechanism"
  shows "c_sign env others other later h input sig (Some capacity) (Some m, p) t =
    ((if sig = None then CKR_OK else CKR_BUFFER_TOO_SMALL, sig, Some (of_nat (Mechanism_signature_len mechanism))), (Some m, p), t)"
proof -
  have "Mechanism_signature_len mechanism < 2 ^ 32"
    by (cases mechanism) (simp_all add: RSA3072_SIGNATURE_BYTES_def ECDSA_P384_SIGNATURE_BYTES_def)
  then show ?thesis
    using assms by (auto simp: c_sign_def ulong_from_usize_def usize_from_ulong_def)
qed


subsection \<open>A failing operation does not answer \<open>CKR_OK\<close>\<close>

definition loud :: "('t, CkRv \<times> PinSafetyCache, 'a) io \<Rightarrow> bool" where
  "loud m \<longleftrightarrow> (\<forall>t e c. fst (m t) = Inl (e, c) \<longrightarrow> e \<noteq> CKR_OK)"

definition loud_ck :: "('t, 'a) ck_io \<Rightarrow> bool" where
  "loud_ck m \<longleftrightarrow> (\<forall>t e. fst (m t) = Inl e \<longrightarrow> e \<noteq> CKR_OK)"

lemma ckr_not_ok [simp]:
  "CKR_DEVICE_ERROR \<noteq> CKR_OK" "CKR_DATA_INVALID \<noteq> CKR_OK" "CKR_DATA_LEN_RANGE \<noteq> CKR_OK" "CKR_PIN_LOCKED \<noteq> CKR_OK"
  "CKR_PIN_INCORRECT \<noteq> CKR_OK" "CKR_USER_NOT_LOGGED_IN \<noteq> CKR_OK" "CKR_ARGUMENTS_BAD \<noteq> CKR_OK"
  "CKR_BUFFER_TOO_SMALL \<noteq> CKR_OK" "CKR_SESSION_CLOSED \<noteq> CKR_OK" "CKR_CRYPTOKI_NOT_INITIALIZED \<noteq> CKR_OK"
  "CKR_SESSION_HANDLE_INVALID \<noteq> CKR_OK" "CKR_OPERATION_NOT_INITIALIZED \<noteq> CKR_OK"
  by (simp_all add: ckr_defs)

lemma loud_fail: "e \<noteq> CKR_OK \<Longrightarrow> loud (fail (e, c))" and loud_ret: "loud (ret x)"
  and loud_ck_fail: "e \<noteq> CKR_OK \<Longrightarrow> loud_ck (fail e)" and loud_ck_ret: "loud_ck (ret y)"
  and loud_ck_device: "loud_ck (device_error k)"
  by (auto simp: loud_def loud_ck_def map_errS_def map_err_eq_Inl split: prod.splits)

lemma loud_bindS: "loud m \<Longrightarrow> (\<And>x. loud (f x)) \<Longrightarrow> loud (bindS m f)"
  unfolding loud_def
proof (intro allI impI)
  fix t e c
  assume m: "\<forall>t e c. fst (m t) = Inl (e, c) \<longrightarrow> e \<noteq> CKR_OK" and f: "\<And>x. \<forall>t e c. fst (f x t) = Inl (e, c) \<longrightarrow> e \<noteq> CKR_OK"
    and e: "fst (bindS m f t) = Inl (e, c)"
  obtain q t' where q: "m t = (q, t')" by (cases "m t")
  show "e \<noteq> CKR_OK"
    using m [rule_format, of t] f e q by (cases q) (auto simp: bindS_def)
qed

lemma loud_ck_bindS: "loud_ck m \<Longrightarrow> (\<And>x. loud_ck (f x)) \<Longrightarrow> loud_ck (bindS m f)"
  unfolding loud_ck_def
proof (intro allI impI)
  fix t e
  assume m: "\<forall>t e. fst (m t) = Inl e \<longrightarrow> e \<noteq> CKR_OK" and f: "\<And>x. \<forall>t e. fst (f x t) = Inl e \<longrightarrow> e \<noteq> CKR_OK"
    and e: "fst (bindS m f t) = Inl e"
  obtain q t' where q: "m t = (q, t')" by (cases "m t")
  show "e \<noteq> CKR_OK"
    using m [rule_format, of t] f e q by (cases q) (auto simp: bindS_def)
qed

lemma loud_with_cache: "loud_ck m \<Longrightarrow> loud (with_cache c m)"
  by (auto simp: loud_def loud_ck_def map_errS_def map_err_eq_Inl split: prod.splits) (metis fst_conv)

lemma loud_okS: "loud (okS m :: ('t, CkRv \<times> PinSafetyCache, 'a option) io)"
  by (auto simp: loud_def okS_def split: prod.splits)

lemma loud_ck_liftR: "(\<And>e. r = Inl e \<Longrightarrow> e \<noteq> CKR_OK) \<Longrightarrow> loud_ck (liftR r)"
  by (cases r) (auto simp: loud_ck_def)

lemma loud_ck_open: "loud_ck (card_open open_card tx)"
  unfolding card_open_def live_token_serial_def
  by (auto intro!: loud_ck_bindS loud_ck_device loud_ck_fail loud_ck_ret simp: Let_def split: option.split)

lemma degenerate_error [simp]: "reject_degenerate_digest d \<noteq> Inl CKR_OK"
  by (auto simp: reject_degenerate_digest_def Let_def split: if_splits)

lemma loud_ck_sign: "loud_ck (sign_with_card tx mechanism input)"
proof -
  have "parse_sha256_digest_info input = Inl e \<Longrightarrow> e \<noteq> CKR_OK" for e
    by (auto simp: parse_sha256_digest_info_def bindR_eq_Inl ok_or_def split: if_splits option.splits prod.splits)
  moreover have "fit_p384 input = Inl e \<Longrightarrow> e \<noteq> CKR_OK" for e
    by (auto simp: fit_p384_def bindR_eq_Inl Let_def split: if_splits)
  ultimately show ?thesis
    unfolding sign_with_card_def by (cases mechanism) (auto intro!: loud_ck_bindS loud_ck_device loud_ck_liftR)
qed

lemma guard_error: "pin1_verify_guard status = Inl e \<Longrightarrow> e \<noteq> CKR_OK"
proof -
  assume "pin1_verify_guard status = Inl e"
  then obtain refusal where "e = (case refusal of TriesBelowFloor _ _ \<Rightarrow> CKR_PIN_LOCKED | Blocked _ \<Rightarrow> CKR_PIN_LOCKED
      | CounterUnreadable _ \<Rightarrow> CKR_DEVICE_ERROR)"
    by (auto simp: pin1_verify_guard_def map_err_eq_Inl)
  then show ?thesis by (cases refusal) simp_all
qed

lemma loud_sign_local: "loud (card_sign_local hmac open_card tx other cache mechanism input)"
proof -
  have "loud (sign_settle hmac tx co d serial mechanism input outcome)" for co d serial outcome
    unfolding sign_settle_def Let_def
    by (auto intro!: loud_fail loud_bindS loud_ret loud_with_cache loud_ck_sign split: option.split VerifyOutcome.split)
  then show ?thesis
    unfolding card_sign_local_def
    by (auto intro!: loud_bindS loud_with_cache loud_ck_open loud_okS loud_fail dest: guard_error
        split: sum.split prod.split option.split)
qed

lemma loud_card_sign:
  assumes "\<And>id' origin mechanism input. loud_ck (remote id' origin mechanism input)"
  shows "loud (card_sign_with_origin_source trim remote hmac open_card tx other name cache mechanism input origin var)"
  unfolding card_sign_with_origin_source_def
  by (auto intro!: loud_bindS loud_with_cache loud_fail loud_ret loud_sign_local assms split: option.split)

lemma on_cache_error: "(\<And>c. loud (f c)) \<Longrightarrow> on_cache name f g t = (Inl e, g', t') \<Longrightarrow> e \<noteq> CKR_OK"
proof -
  assume f: "\<And>c. loud (f c)" and run: "on_cache name f g t = (Inl e, g', t')"
  obtain mo p where g: "g = (mo, p)" by (cases g)
  show ?thesis
  proof (cases "map_of p name")
    case (Some c)
    then obtain d where "fst (f c t) = Inl (e, d)"
      using run by (auto simp: g on_cache_def split: sum.splits prod.splits)
    then show ?thesis using f [of c] by (auto simp: loud_def)
  qed (use run in \<open>auto simp: g on_cache_def\<close>)
qed

lemma pin_cache_error: "pin_cache random i mp = (Inl e, mp') \<Longrightarrow> e \<noteq> CKR_OK"
  by (cases mp) (auto simp: pin_cache_def Let_def split: option.splits sum.splits)

lemma pin_cache_sessions: "pin_cache random i (m, p) = (r, m', p') \<Longrightarrow> ms_sessions m' = ms_sessions m"
  by (auto simp: pin_cache_def Let_def split: option.splits sum.splits)

lemma on_cache_module: "on_cache name f (mo, p) t = (r, (mo', p'), t') \<Longrightarrow> mo' = mo"
  by (auto simp: on_cache_def split: option.splits sum.splits prod.splits)

text \<open>The card part of \<open>C_Sign\<close>, and the ways a call with a large enough buffer can go.\<close>

abbreviation sign_on_cache ::
  "('i, 't, 'o, 'e) Env \<Rightarrow> (PinSafetyCache \<Rightarrow> PinSafetyCache) \<Rightarrow> string \<Rightarrow> string \<Rightarrow> Mechanism \<Rightarrow> bytes \<Rightarrow> 'i gl \<Rightarrow> 't \<Rightarrow>
     (CkRv + bytes) \<times> 'i gl \<times> 't" where
  "sign_on_cache env other cache_name name mechanism input \<equiv>
     on_cache cache_name (\<lambda>cache. card_sign_with_origin_source (env_trim env) (env_remote_sign env) (env_hmac env)
       (env_open env) (env_tx env) other name cache mechanism input None (env_variable env))"

lemma c_sign_cases:
  assumes "c_sign env others other later h input (Some buffer) (Some capacity) (Some m, p) t = ((rv, sig', len'), g', t')"
    and "session m h = Some ses" "ses_sign ses = Some mechanism" "\<not> unat capacity < Mechanism_signature_len mechanism"
  obtains "rv \<noteq> CKR_OK" "g' = (Some (clear_sign h m), p)"
    | m' p' r where "rv \<noteq> CKR_OK" "pin_cache (env_random env) (ses_slot_id ses) (m, p) = (r, m', p')" "g' = (Some (clear_sign h m'), p')"
    | name cache_name m' p' outcome g1 where
        "pin_cache (env_random env) (ses_slot_id ses) (m, p) = (Inr cache_name, m', p')"
        "sign_on_cache env other cache_name name mechanism input (others (Some (clear_sign h m'), p')) t = (outcome, g1, t')"
        "g' = later g1" "sign_deliver h (Some buffer) capacity outcome g' = (rv, sig', the len')" "len' \<noteq> None"
proof (cases "reader_name m (ses_slot_id ses)")
  case None
  then show thesis using assms by (intro that(1)) (auto simp: c_sign_def usize_from_ulong_def)
next
  case name: (Some name)
  obtain r m' p' where pc: "pin_cache (env_random env) (ses_slot_id ses) (m, p) = (r, m', p')" by (metis prod.collapse)
  show thesis
  proof (cases r)
    case (Inl e)
    then show thesis
      using assms name pc pin_cache_error [of "env_random env" "ses_slot_id ses" "(m, p)" e "(m', p')"]
      by (intro that(2) [OF _ pc]) (auto simp: c_sign_def usize_from_ulong_def)
  next
    case (Inr cache_name)
    obtain outcome g1 t1 where
      "sign_on_cache env other cache_name name mechanism input (others (Some (clear_sign h m'), p')) t = (outcome, g1, t1)"
      by (metis prod.collapse)
    then show thesis
      using assms name pc Inr by (intro that(3)) (auto simp: c_sign_def usize_from_ulong_def split: prod.splits)
  qed
qed

text \<open>
  A signature is delivered into a live session only. Whatever other threads do while the card works, when
  \<open>C_Sign\<close> answers \<open>CKR_OK\<close> for a buffer, the session had an operation, the module is initialised and the session
  open at delivery, and the signature stands at the start of the buffer, within the capacity the caller gave,
  with its length reported and the rest of the buffer unchanged.
\<close>
theorem signature_needs_live_session:
  assumes sign: "c_sign env others other later h input (Some buffer) (Some capacity) (Some m, p) t = ((CKR_OK, sig', len'), g', t')"
    and remote: "\<And>id' origin mechanism input t e. fst (env_remote_sign env id' origin mechanism input t) = Inl e \<Longrightarrow> e \<noteq> CKR_OK"
  shows "(\<exists>ses mechanism. session m h = Some ses \<and> ses_sign ses = Some mechanism) \<and>
    (\<exists>m' ses'. fst g' = Some m' \<and> session m' h = Some ses') \<and>
    (\<exists>signature. length signature \<le> unat capacity \<and> len' = Some (ulong_from_usize (length signature)) \<and>
       sig' = Some (signature @ drop (length signature) buffer))"
proof -
  have loud: "loud (card_sign_with_origin_source (env_trim env) (env_remote_sign env) (env_hmac env) (env_open env) (env_tx env)
      other name c mechanism input None (env_variable env))" for name c mechanism
    by (rule loud_card_sign) (auto simp: loud_ck_def dest: remote)
  obtain ses mechanism where ses: "session m h = Some ses" "ses_sign ses = Some mechanism"
    using sign by (auto simp: c_sign_def split: option.splits)
  have fits: "\<not> unat capacity < Mechanism_signature_len mechanism"
    using sign ses by (auto simp: c_sign_def usize_from_ulong_def split: option.splits)
  from c_sign_cases [OF sign ses fits] show ?thesis
  proof cases
    case (3 name cache_name m' p' outcome g1)
    have "outcome \<noteq> Inl CKR_OK"
    proof
      assume out: "outcome = Inl CKR_OK"
      show False using on_cache_error [OF _ 3(2) [unfolded out]] loud by blast
    qed
    with 3 ses show ?thesis
      by (auto simp: sign_deliver_def deliver_bytes_def deliver_def usize_from_ulong_def not_less
          split: sum.splits option.splits prod.splits if_splits)
  qed simp_all
qed

text \<open>
  A signing operation is used once: a call of \<open>C_Sign\<close> with a large enough buffer ends the operation of its
  session whatever the card answers, and a second call is refused without touching the card.
\<close>
theorem signature_is_single_shot:
  assumes sign: "c_sign env (\<lambda>g. g) other (\<lambda>g. g) h input (Some buffer) (Some capacity) (Some m, p) t = ((rv, sig', len'), g', t')"
    and ses: "session m h = Some ses" "ses_sign ses = Some mechanism" and fits: "Mechanism_signature_len mechanism \<le> unat capacity"
  shows "\<exists>m' p' ses'. g' = (Some m', p') \<and> session m' h = Some ses' \<and> ses_sign ses' = None \<and>
    c_sign env' others' other' later' h input' sig2 (Some n) g' t' = ((CKR_OPERATION_NOT_INITIALIZED, sig2, Some n), g', t')"
proof -
  have cleared: "session (clear_sign h m') h = Some (session_clear_sign ses)" if "ms_sessions m' = ms_sessions m" for m' :: "('a, TokenObjects) ModuleState"
    using that ses by (simp add: clear_sign_def session_mut_def session_def update_conv')
  have "\<exists>m' p'. g' = (Some m', p') \<and> session m' h = Some (session_clear_sign ses)"
    using sign ses fits [folded not_less]
  proof (cases rule: c_sign_cases)
    case 1
    then show ?thesis using cleared by simp
  next
    case (2 m' p' r)
    then show ?thesis using cleared [OF pin_cache_sessions [OF 2(2)]] by simp
  next
    case (3 name cache_name m' p' outcome g1)
    obtain mo p1 where g1: "g1 = (mo, p1)" by (cases g1)
    have "mo = Some (clear_sign h m')" using on_cache_module [OF 3(2) [unfolded g1]] .
    then show ?thesis using 3(3) g1 cleared [OF pin_cache_sessions [OF 3(1)]] by simp
  qed
  then show ?thesis
    by (auto simp: c_sign_def session_clear_sign_def)
qed


text \<open>Calling \<open>C_FindObjects\<close> until it returns no handle, at most \<open>n\<close> times.\<close>

fun find_all :: "nat \<Rightarrow> CkSessionHandle \<Rightarrow> CkUlong \<Rightarrow> 'i gl \<Rightarrow> CkObjectHandle list \<times> 'i gl" where
  "find_all 0 h mx g = ([], g)"
| "find_all (Suc n) h mx g =
     (case c_find_objects h mx g of
        ((rv, Some (b # batch)), g') \<Rightarrow> (case find_all n h mx g' of (hs, g'') \<Rightarrow> ((b # batch) @ hs, g''))
      | (_, g') \<Rightarrow> ([], g'))"

lemma find_all_remaining:
  assumes "session m h = Some ses" "ses_find ses = Some hs" "mx \<noteq> 0" "length hs < n"
  shows "\<exists>m'. find_all n h mx (Some m, p) = (hs, (Some m', p)) \<and> session m' h = Some (ses\<lparr>ses_find := Some []\<rparr>)"
  using assms
proof (induction n arbitrary: m ses hs)
  case (Suc n)
  let ?k = "min (unat mx) (length hs)"
  let ?ses = "ses\<lparr>ses_find := Some (drop ?k hs)\<rparr>"
  let ?m = "session_mut (\<lambda>ses. snd (next_find_batch (unat mx) ses)) h m"
  have batch: "next_find_batch (unat mx) ses = (Some (take ?k hs), ?ses)"
    using Suc.prems(2) by (simp add: next_find_batch_def Let_def)
  have call: "c_find_objects h mx (Some m, p) = ((CKR_OK, Some (take ?k hs)), (Some ?m, p))"
    using Suc.prems(1) batch by (simp add: c_find_objects_def usize_from_ulong_def)
  have ses: "session ?m h = Some ?ses"
    using Suc.prems(1) batch by (simp add: session_mut_def session_def update_conv')
  have "0 < unat mx" using Suc.prems(3) by (simp add: unat_gt_0)
  show ?case
  proof (cases hs)
    case Nil
    then show ?thesis using call ses Suc.prems(2) by simp
  next
    case (Cons x xs)
    then obtain b rest where take: "take ?k hs = b # rest"
      using \<open>0 < unat mx\<close> by (cases "take ?k hs") (auto simp: take_eq_Nil)
    have "length (drop ?k hs) < n" using Suc.prems(4) Cons \<open>0 < unat mx\<close> by (auto simp: min_def)
    then obtain m' where rest: "find_all n h mx (Some ?m, p) = (drop ?k hs, (Some m', p))" "session m' h = Some (?ses\<lparr>ses_find := Some []\<rparr>)"
      using Suc.IH [OF ses _ Suc.prems(3), of "drop ?k hs"] by auto
    have "find_all (Suc n) h mx (Some m, p) = (take ?k hs @ drop ?k hs, (Some m', p))"
      by (simp only: find_all.simps call take rest(1) prod.case option.case list.case)
    then show ?thesis using rest(2) by (simp only: append_take_drop_id) simp
  qed
qed simp

text \<open>
  A search delivers what was found: after \<open>C_FindObjectsInit\<close> on an object list, calling \<open>C_FindObjects\<close> with any
  array that is not empty until nothing is returned yields exactly the matching handles, in order and each once.
\<close>
theorem search_delivers_all_handles:
  assumes "find_init env h template (Some m, p) = (CKR_OK, g)" "mx \<noteq> 0"
    and "env_token env i m = (Inr token, m')" "\<exists>ses. session m h = Some ses \<and> ses_slot_id ses = i"
  shows "\<exists>g'. find_all (Suc (length (matching_handles token template))) h mx g = (matching_handles token template, g')"
proof -
  obtain ses where ses: "session m h = Some ses" "ses_slot_id ses = i" using assms(4) by blast
  have "ms_sessions m' = ms_sessions m"
    using assms(3) by (auto simp: env_token_def ensure_token_def split: option.splits sum.splits if_splits)
  then have ses': "session m' h = Some ses" using ses(1) by (simp add: session_def)
  let ?m = "session_mut (begin_find (matching_handles token template)) h m'"
  have "g = (Some ?m, p)"
    using assms(1,3) ses ses' by (auto simp: find_init_def)
  moreover have "session ?m h = Some (begin_find (matching_handles token template) ses)"
    using ses' by (simp add: session_mut_def session_def update_conv')
  ultimately show ?thesis
    using find_all_remaining [of ?m h "begin_find (matching_handles token template) ses" "matching_handles token template" mx
      "Suc (length (matching_handles token template))" p] assms(2)
    by (auto simp: begin_find_def simp del: find_all.simps)
qed

text \<open>
  What a search matched, reading confirms: an object that matches a template answers each of its attributes,
  through a buffer of the right size, with the wanted bytes. The value of the private key is withheld whatever
  buffer the caller brings.
\<close>
theorem matched_attributes_read_back:
  assumes "matches t kind template" "(attr, wanted) \<in> set template" "length wanted < 2 ^ 32" "length buffer = length wanted"
  shows "fill_one_attribute \<lparr>attr_type = attr, attr_p_value = Some buffer, attr_value_len = of_nat (length wanted)\<rparr> (attribute t kind attr) =
      (CKR_OK, \<lparr>attr_type = attr, attr_p_value = Some wanted, attr_value_len = of_nat (length wanted)\<rparr>) \<and>
    fill_one_attribute entry (attribute t ObjectKind_PrivateKey CKA_VALUE) =
      (CKR_ATTRIBUTE_SENSITIVE, entry\<lparr>attr_value_len := CK_UNAVAILABLE_INFORMATION\<rparr>)"
proof -
  obtain val where val: "attribute t kind attr = Some val" "AttrValue_as_bytes val = Some wanted"
    using assms(1,2) by (fastforce simp: matches_def list_all_iff split: option.splits)
  have "unat (of_nat (length wanted) :: CkUlong) = length wanted"
    using assms(3) by (simp add: unsigned_of_nat take_bit_nat_eq_self)
  moreover have "attribute t ObjectKind_PrivateKey CKA_VALUE = Some AttrValue_Sensitive"
    by (simp add: private_key_attribute_def cka_defs)
  ultimately show ?thesis
    using val assms(3,4)
    by (cases val) (auto simp: fill_one_attribute_def set_value_len_def deliver_def ulong_from_usize_def usize_from_ulong_def)
qed


section \<open>Witnesses\<close>

text \<open>One reader with the card of \<open>Pin_Flows\<close>, whose token has three objects and a certificate authority.\<close>

definition api_env :: "(unit, (unit, unit) journal, unit, unit) Env" where
  "api_env = \<lparr>env_prober = \<lparr>prober_enumerate = Inr [(''R'', True)], prober_probe = (\<lambda>_. Observation_Present),
       prober_build_objects = (\<lambda>_. Inr example_token), prober_reader_identity = (\<lambda>_. ())\<rparr>,
     env_remote_token_objects = (\<lambda>_ _. Inl CKR_DEVICE_ERROR), env_pairs = None, env_hmac = example_hmac, env_random = Inr [7],
     env_open = (\<lambda>_. example_reader), env_tx = example_tx, env_trim = id, env_variable = (\<lambda>_. None),
     env_remote_sign = (\<lambda>_ _ _ _. fail CKR_DEVICE_ERROR)\<rparr>"

definition api_slots :: "(unit, TokenObjects) ModuleState" where
  "api_slots = \<lparr>ms_slots = [example_slot], ms_next_slot_id = 2, ms_sessions = [], ms_next_session_handle = 1,
     ms_pin_caches = [], ms_token_cache = [(1, example_token)], ms_event_reported = [], ms_remote_logged_in = []\<rparr>"

definition api_module :: "(unit, TokenObjects) ModuleState" where
  "api_module = api_slots\<lparr>ms_sessions := [(1, example_session)], ms_next_session_handle := 2\<rparr>"





lemma api_session: "session api_module 1 = Some example_session" "reader_name api_module (ses_slot_id example_session) = Some ''R''"
  by (simp_all add: api_module_def api_slots_def session_def reader_name_def slot_def example_session_def example_slot_def)



theorem length_query_then_delivery_witness:
  "\<exists>len. deliver_bytes None 0 [1, 2] = (CKR_OK, None, len) \<and> deliver_bytes (Some [0, 0]) len [1, 2] = (CKR_OK, Some [1, 2], len)"
  using length_query_then_delivery [of "[1, 2]" 0] by fastforce

text \<open>A session with a signing operation, on a slot whose PIN is held.\<close>

definition signing_session :: Session where
  "signing_session = example_session\<lparr>ses_sign := Some Mechanism_Ecdsa\<rparr>"

definition signing_module :: "(unit, TokenObjects) ModuleState" where
  "signing_module = api_module\<lparr>ms_sessions := [(1, signing_session)], ms_pin_caches := [(1, ''R'')]\<rparr>"

lemma signing_facts:
  "session signing_module 1 = Some signing_session" "ses_sign signing_session = Some Mechanism_Ecdsa"
  "ses_slot_id signing_session = 1" "reader_name signing_module 1 = Some ''R''" "map_of (ms_pin_caches signing_module) 1 = Some ''R''"
  by (simp_all add: signing_module_def signing_session_def api_module_def api_slots_def session_def reader_name_def slot_def
      example_session_def example_slot_def)

lemma signing_run:
  "\<exists>g' t'. c_sign api_env (\<lambda>g. g) id (\<lambda>g. g) 1 (replicate 48 5) (Some (replicate 96 0)) (Some 96)
     (Some signing_module, [(''R'', example_held)]) ([], ()) = ((CKR_OK, Some (replicate 96 1), Some 96), g', t')"
proof -
  obtain t' where "card_sign_local example_hmac example_reader example_tx id example_held Mechanism_Ecdsa (replicate 48 5) ([], ()) =
      (Inr (replicate 96 1, example_held), t')"
    using gives_apply [OF example_sign_local] by (metis prod.collapse)
  then have "sign_on_cache api_env id ''R'' ''R'' Mechanism_Ecdsa (replicate 48 5)
      (Some (clear_sign 1 signing_module), [(''R'', example_held)]) ([], ()) =
      (Inr (replicate 96 1), (Some (clear_sign 1 signing_module), [(''R'', example_held)]), t')"
    by (simp add: on_cache_def card_sign_with_origin_source_def strip_rapp_def api_env_def)
  moreover have "session (clear_sign 1 signing_module) 1 \<noteq> None"
    by (simp add: clear_sign_def session_mut_def signing_facts) (simp add: session_def update_conv')
  ultimately show ?thesis
    by (cases t') (simp add: c_sign_def signing_facts pin_cache_def sign_deliver_def deliver_bytes_def deliver_def usize_from_ulong_def
        ulong_from_usize_def ECDSA_P384_SIGNATURE_BYTES_def)
qed

theorem signature_needs_live_session_witness:
  "\<exists>g' t' m' ses' signature. c_sign api_env (\<lambda>g. g) id (\<lambda>g. g) 1 (replicate 48 5) (Some (replicate 96 0)) (Some 96)
      (Some signing_module, [(''R'', example_held)]) ([], ()) = ((CKR_OK, Some signature, Some 96), g', t') \<and>
    fst g' = Some m' \<and> session m' 1 = Some ses' \<and> signature = replicate 96 1"
proof -
  obtain g' t' where run: "c_sign api_env (\<lambda>g. g) id (\<lambda>g. g) 1 (replicate 48 5) (Some (replicate 96 0)) (Some 96)
      (Some signing_module, [(''R'', example_held)]) ([], ()) = ((CKR_OK, Some (replicate 96 1), Some 96), g', t')"
    using signing_run by blast
  have "\<exists>m' ses'. fst g' = Some m' \<and> session m' 1 = Some ses'"
    using signature_needs_live_session [OF run] by (auto simp: api_env_def)
  then show ?thesis using run by blast
qed

theorem signature_is_single_shot_witness:
  "\<exists>g' t'. c_sign api_env (\<lambda>g. g) id (\<lambda>g. g) 1 (replicate 48 5) (Some (replicate 96 0)) (Some 96)
      (Some signing_module, [(''R'', example_held)]) ([], ()) = ((CKR_OK, Some (replicate 96 1), Some 96), g', t') \<and>
    c_sign api_env (\<lambda>g. g) id (\<lambda>g. g) 1 [] None (Some 96) g' t' = ((CKR_OPERATION_NOT_INITIALIZED, None, Some 96), g', t')"
proof -
  obtain g' t' where run: "c_sign api_env (\<lambda>g. g) id (\<lambda>g. g) 1 (replicate 48 5) (Some (replicate 96 0)) (Some 96)
      (Some signing_module, [(''R'', example_held)]) ([], ()) = ((CKR_OK, Some (replicate 96 1), Some 96), g', t')"
    using signing_run by blast
  have "Mechanism_signature_len Mechanism_Ecdsa \<le> unat (96 :: CkUlong)"
    by (simp add: ECDSA_P384_SIGNATURE_BYTES_def)
  from signature_is_single_shot [OF run signing_facts(1,2) this, of api_env "\<lambda>g. g" id "\<lambda>g. g" "[]" None 96]
  show ?thesis using run by blast
qed

theorem sign_length_probe_is_free_witness:
  "c_sign api_env (\<lambda>g. g) id (\<lambda>g. g) 1 [] None (Some 0) (Some signing_module, []) ([], ()) =
     ((CKR_OK, None, Some 96), (Some signing_module, []), ([], ()))"
  using sign_length_probe_is_free [OF signing_facts(1,2), of None 0 api_env "\<lambda>g. g" id "\<lambda>g. g" "[]" "[]" "([], ())"]
  by (simp add: ECDSA_P384_SIGNATURE_BYTES_def)

theorem search_delivers_all_handles_witness:
  "\<exists>g'. find_all (Suc (length (matching_handles example_token []))) 1 2 (snd (find_init api_env 1 [] (Some api_module, []))) =
     (matching_handles example_token [], g')"
proof -
  have token: "env_token api_env 1 api_module = (Inr example_token, api_module)"
    by (simp add: env_token_def ensure_token_def api_module_def api_slots_def)
  then have "fst (find_init api_env 1 [] (Some api_module, [])) = CKR_OK"
    using api_session(1) by (simp add: find_init_def example_session_def)
  then have "find_init api_env 1 [] (Some api_module, []) = (CKR_OK, snd (find_init api_env 1 [] (Some api_module, [])))"
    by (metis prod.collapse)
  from search_delivers_all_handles [OF this _ token] show ?thesis
    using api_session(1) by (simp add: example_session_def del: find_all.simps)
qed

theorem matched_attributes_read_back_witness:
  "fill_one_attribute \<lparr>attr_type = CKA_ID, attr_p_value = Some [0], attr_value_len = 1\<rparr> (attribute example_token ObjectKind_Certificate CKA_ID) =
     (CKR_OK, \<lparr>attr_type = CKA_ID, attr_p_value = Some [9], attr_value_len = 1\<rparr>)"
proof -
  have "matches example_token ObjectKind_Certificate [(CKA_ID, [9])]"
    by (simp add: matches_def certificate_attribute_def example_token_def cka_defs)
  from matched_attributes_read_back [OF this, of CKA_ID "[9]" "[0]"] show ?thesis by simp
qed

end
