(* ===== verification/Rapp_View.thy ===== *)
theory Rapp_View
  imports Prelude
begin

text \<open>
  The requester's view of its phone (\<open>refineid-rapp-core\<close>, \<open>view.rs\<close>): whether the phone of a pairing may be
  dialled now. The views of the process are a map from pairings to views; \<open>window\<close> is \<open>REDIAL_WINDOW_MS\<close> of the
  crate \<open>refineid_rapp\<close>, and the ends of a session are the variants of its enum that the code matches on. Times are
  milliseconds of the continuous clock.

  The code closes a redial window only when it looks at it. \<open>standing\<close> is the state as it is at a moment; the
  operations are shown to implement a machine whose windows close by themselves. Sequences of events then show
  when a dial can be admitted.
\<close>

section \<open>The code\<close>

definition saturating_sub :: "'a::len word \<Rightarrow> 'a word \<Rightarrow> 'a word" where
  "saturating_sub a b = (if b \<le> a then a - b else 0)"

datatype RequesterSessionEnd =
    RequesterSessionEnd_Withdrawn | RequesterSessionEnd_Violation | RequesterSessionEnd_Revoked | RequesterSessionEnd_Loss

datatype ViewState =
    ViewState_Idle
  | ViewState_Connecting (window_opened_ms: "u64 option")
  | ViewState_Connected
  | ViewState_Withdrawn

record CustodianView =
  view_state_of :: ViewState
  in_sight :: "string set"

definition CustodianView_new :: CustodianView where
  "CustodianView_new = \<lparr>view_state_of = ViewState_Idle, in_sight = {}\<rparr>"

type_synonym 'p views = "'p \<rightharpoonup> CustodianView"

definition with_view :: "'p \<Rightarrow> (CustodianView \<Rightarrow> 'a \<times> CustodianView) \<Rightarrow> 'p views \<Rightarrow> 'a \<times> 'p views" where
  "with_view p change v =
     (case change (case v p of None \<Rightarrow> CustodianView_new | Some view \<Rightarrow> view) of (a, view') \<Rightarrow> (a, v(p \<mapsto> view')))"

definition view_state :: "'p \<Rightarrow> 'p views \<Rightarrow> ViewState" where
  "view_state p v = (case v p of None \<Rightarrow> ViewState_Idle | Some view \<Rightarrow> view_state_of view)"

definition is_withdrawn :: "'p \<Rightarrow> 'p views \<Rightarrow> bool" where
  "is_withdrawn p v \<longleftrightarrow> view_state p v = ViewState_Withdrawn"

definition look :: "'p \<Rightarrow> string list \<Rightarrow> 'p views \<Rightarrow> bool \<times> 'p views" where
  "look p sightings = with_view p (\<lambda>view.
     let appeared = (\<exists>seen \<in> set sightings. seen \<notin> in_sight view);
         view = view\<lparr>in_sight := set sightings\<rparr>
     in (appeared,
         if appeared \<and> view_state_of view \<noteq> ViewState_Connected then view\<lparr>view_state_of := ViewState_Connecting None\<rparr>
         else view))"

definition withdrawn_record_matched :: "'p \<Rightarrow> 'p views \<Rightarrow> unit \<times> 'p views" where
  "withdrawn_record_matched p = with_view p (\<lambda>view.
     ((), if view_state_of view \<noteq> ViewState_Connected then view\<lparr>view_state_of := ViewState_Withdrawn\<rparr> else view))"

definition dial_admitted :: "u64 \<Rightarrow> 'p \<Rightarrow> u64 \<Rightarrow> bool \<Rightarrow> 'p views \<Rightarrow> bool \<times> 'p views" where
  "dial_admitted window p now consumer_asked = with_view p (\<lambda>view.
     case view_state_of view of
       ViewState_Withdrawn \<Rightarrow> (False, view)
     | ViewState_Connected \<Rightarrow> (True, view)
     | ViewState_Connecting None \<Rightarrow> (True, view)
     | ViewState_Connecting (Some opened) \<Rightarrow>
         if saturating_sub now opened < window then (True, view)
         else let view = view\<lparr>view_state_of := ViewState_Idle\<rparr>
              in (consumer_asked, if consumer_asked then view\<lparr>view_state_of := ViewState_Connecting None\<rparr> else view)
     | ViewState_Idle \<Rightarrow>
         (consumer_asked, if consumer_asked then view\<lparr>view_state_of := ViewState_Connecting None\<rparr> else view))"

definition dial_failed :: "u64 \<Rightarrow> 'p \<Rightarrow> u64 \<Rightarrow> 'p views \<Rightarrow> unit \<times> 'p views" where
  "dial_failed window p now = with_view p (\<lambda>view.
     case view_state_of view of
       ViewState_Connecting opened \<Rightarrow>
         (let opened_ms = (case opened of None \<Rightarrow> now | Some t \<Rightarrow> t)
          in ((), view\<lparr>view_state_of := if window \<le> saturating_sub now opened_ms then ViewState_Idle
                                       else ViewState_Connecting (Some opened_ms)\<rparr>))
     | _ \<Rightarrow> ((), view))"

definition session_opened :: "'p \<Rightarrow> 'p views \<Rightarrow> unit \<times> 'p views" where
  "session_opened p = with_view p (\<lambda>view. ((), view\<lparr>view_state_of := ViewState_Connected\<rparr>))"

definition session_closed_here :: "'p \<Rightarrow> 'p views \<Rightarrow> unit \<times> 'p views" where
  "session_closed_here p = with_view p (\<lambda>view. ((), view\<lparr>view_state_of := ViewState_Idle\<rparr>))"

definition session_ended :: "'p \<Rightarrow> RequesterSessionEnd \<Rightarrow> u64 \<Rightarrow> 'p views \<Rightarrow> unit \<times> 'p views" where
  "session_ended p e now v =
     (if e = RequesterSessionEnd_Revoked then ((), v(p := None))
      else with_view p (\<lambda>view. ((), view\<lparr>view_state_of := (case e of
             RequesterSessionEnd_Withdrawn \<Rightarrow> ViewState_Withdrawn
           | RequesterSessionEnd_Violation \<Rightarrow> ViewState_Idle
           | RequesterSessionEnd_Revoked \<Rightarrow> ViewState_Idle
           | RequesterSessionEnd_Loss \<Rightarrow> ViewState_Connecting (Some now))\<rparr>)) v)"

definition pairing_left :: "'p \<Rightarrow> 'p views \<Rightarrow> unit \<times> 'p views" where
  "pairing_left p v = ((), v(p := None))"


section \<open>Events\<close>

text \<open>The calls that concern one pairing, and what an observer sees of each: whether the phone appeared, whether the dial was admitted.\<close>

datatype view_event =
    Look "string list" | Withdrawn_Record | Dial (dial_time: u64) (by_consumer: bool) | Dial_Failed u64
  | Opened | Closed_Here | Ended RequesterSessionEnd u64 | Left

definition silently :: "unit \<times> 's \<Rightarrow> bool \<times> 's" where
  "silently r = (False, snd r)"

fun view_step :: "u64 \<Rightarrow> 'p \<Rightarrow> view_event \<Rightarrow> 'p views \<Rightarrow> bool \<times> 'p views" where
  "view_step window p (Look sightings) v = look p sightings v"
| "view_step window p Withdrawn_Record v = silently (withdrawn_record_matched p v)"
| "view_step window p (Dial now consumer) v = dial_admitted window p now consumer v"
| "view_step window p (Dial_Failed now) v = silently (dial_failed window p now v)"
| "view_step window p Opened v = silently (session_opened p v)"
| "view_step window p Closed_Here v = silently (session_closed_here p v)"
| "view_step window p (Ended e now) v = silently (session_ended p e now v)"
| "view_step window p Left v = silently (pairing_left p v)"

text \<open>A sequence of events of any pairings, with the answer to each.\<close>

fun view_run :: "u64 \<Rightarrow> ('p \<times> view_event) list \<Rightarrow> 'p views \<Rightarrow> (('p \<times> view_event) \<times> bool) list \<times> 'p views" where
  "view_run window [] v = ([], v)"
| "view_run window ((p, e) # es) v =
     (case view_step window p e v of (answer, v') \<Rightarrow>
        (case view_run window es v' of (answers, v'') \<Rightarrow> (((p, e), answer) # answers, v'')))"


section \<open>The view at a moment\<close>

definition standing :: "u64 \<Rightarrow> u64 \<Rightarrow> ViewState \<Rightarrow> ViewState" where
  "standing window now s =
     (case s of
        ViewState_Connecting (Some opened) \<Rightarrow> if saturating_sub now opened < window then s else ViewState_Idle
      | _ \<Rightarrow> s)"

text \<open>What the state becomes at an event, in a machine whose windows close by themselves, and the answer to a dial.\<close>

fun spec_step :: "u64 \<Rightarrow> bool \<Rightarrow> view_event \<Rightarrow> ViewState \<Rightarrow> ViewState" where
  "spec_step now appeared (Look _) s = (if appeared \<and> s \<noteq> ViewState_Connected then ViewState_Connecting None else s)"
| "spec_step now appeared Withdrawn_Record s = (if s = ViewState_Connected then s else ViewState_Withdrawn)"
| "spec_step now appeared (Dial _ consumer) s = (if s = ViewState_Idle \<and> consumer then ViewState_Connecting None else s)"
| "spec_step now appeared (Dial_Failed _) s = (if s = ViewState_Connecting None then ViewState_Connecting (Some now) else s)"
| "spec_step now appeared Opened s = ViewState_Connected"
| "spec_step now appeared Closed_Here s = ViewState_Idle"
| "spec_step now appeared (Ended e _) s =
     (case e of RequesterSessionEnd_Withdrawn \<Rightarrow> ViewState_Withdrawn | RequesterSessionEnd_Loss \<Rightarrow> ViewState_Connecting (Some now)
      | _ \<Rightarrow> ViewState_Idle)"
| "spec_step now appeared Left s = ViewState_Idle"

definition spec_dial :: "bool \<Rightarrow> ViewState \<Rightarrow> bool" where
  "spec_dial consumer s \<longleftrightarrow> s \<noteq> ViewState_Withdrawn \<and> (s = ViewState_Idle \<longrightarrow> consumer)"

fun event_time :: "view_event \<Rightarrow> u64 option" where
  "event_time (Dial now _) = Some now"
| "event_time (Dial_Failed now) = Some now"
| "event_time (Ended _ now) = Some now"
| "event_time _ = None"

lemma saturating_sub_self [simp]: "saturating_sub a a = 0"
  by (simp add: saturating_sub_def)

lemma saturating_sub_mono: "a \<le> b \<Longrightarrow> saturating_sub a c \<le> saturating_sub b (c :: 'a::len word)"
  by (auto simp: saturating_sub_def word_le_nat_alt unat_sub_if')

lemma standing_simps [simp]:
  "standing window now ViewState_Idle = ViewState_Idle" "standing window now ViewState_Connected = ViewState_Connected"
  "standing window now ViewState_Withdrawn = ViewState_Withdrawn"
  "standing window now (ViewState_Connecting None) = ViewState_Connecting None"
  by (simp_all add: standing_def)

lemma standing_later:
  assumes "now \<le> later"
  shows "standing window later (standing window now s) = standing window later s"
proof (cases s)
  case (ViewState_Connecting opened)
  show ?thesis
  proof (cases opened)
    case (Some t)
    have "saturating_sub later t < window \<Longrightarrow> saturating_sub now t < window"
      using saturating_sub_mono [OF assms, of t] by (rule order.strict_trans1)
    then show ?thesis by (simp add: standing_def ViewState_Connecting Some)
  qed (simp add: ViewState_Connecting)
qed simp_all

lemma with_view_other [simp]: "q \<noteq> p \<Longrightarrow> snd (with_view p f v) q = v q"
  by (simp add: with_view_def split: prod.splits)

lemma view_state_with_view:
  "view_state p (snd (with_view p f v)) = view_state_of (snd (f (case v p of None \<Rightarrow> CustodianView_new | Some view \<Rightarrow> view)))"
  by (simp add: with_view_def view_state_def split: prod.splits)

lemma fst_with_view: "fst (with_view p f v) = fst (f (case v p of None \<Rightarrow> CustodianView_new | Some view \<Rightarrow> view))"
  by (simp add: with_view_def split: prod.splits)

lemma view_state_entry: "view_state_of (case v p of None \<Rightarrow> CustodianView_new | Some view \<Rightarrow> view) = view_state p v"
  by (simp add: view_state_def CustodianView_new_def split: option.splits)

lemmas view_op_defs = look_def withdrawn_record_matched_def dial_admitted_def dial_failed_def session_opened_def
  session_closed_here_def session_ended_def pairing_left_def silently_def

lemma view_step_other: "q \<noteq> p \<Longrightarrow> snd (view_step window p e v) q = v q"
  by (cases e) (simp_all add: view_op_defs)

text \<open>The state after each operation.\<close>

lemma view_state_after [simp]:
  "view_state p (snd (look p sightings v)) =
     (if fst (look p sightings v) \<and> view_state p v \<noteq> ViewState_Connected then ViewState_Connecting None else view_state p v)"
  "view_state p (snd (withdrawn_record_matched p v)) =
     (if view_state p v = ViewState_Connected then ViewState_Connected else ViewState_Withdrawn)"
  "view_state p (snd (session_opened p v)) = ViewState_Connected"
  "view_state p (snd (session_closed_here p v)) = ViewState_Idle"
  "view_state p (snd (pairing_left p v)) = ViewState_Idle"
  by (simp_all add: view_op_defs view_state_with_view fst_with_view Let_def view_state_entry)
    (simp_all add: view_state_def)

lemma view_state_session_ended [simp]:
  "view_state p (snd (session_ended p e now v)) =
     (case e of RequesterSessionEnd_Withdrawn \<Rightarrow> ViewState_Withdrawn | RequesterSessionEnd_Loss \<Rightarrow> ViewState_Connecting (Some now)
      | _ \<Rightarrow> ViewState_Idle)"
  by (cases e) (simp_all add: session_ended_def view_state_with_view, simp add: view_state_def)

lemma view_state_dial [simp]:
  "view_state p (snd (dial_admitted window p now consumer v)) =
     (if standing window now (view_state p v) = ViewState_Idle \<and> consumer then ViewState_Connecting None
      else standing window now (view_state p v))"
  by (cases "view_state p v"; cases "window_opened_ms (view_state p v)")
    (simp_all add: dial_admitted_def view_state_with_view view_state_entry standing_def Let_def)

lemma view_state_dial_failed [simp]:
  "view_state p (snd (dial_failed window p now v)) =
     (if view_state p v = ViewState_Connecting None then standing window now (ViewState_Connecting (Some now))
      else standing window now (view_state p v))"
  by (cases "view_state p v"; cases "window_opened_ms (view_state p v)")
    (simp_all add: dial_failed_def view_state_with_view view_state_entry standing_def Let_def not_less)

lemma snd_silently [simp]: "snd (silently r) = snd r" "fst (silently r) = False"
  by (simp_all add: silently_def)

lemma standing_cases:
  "standing window now s = s \<or> (\<exists>t. s = ViewState_Connecting (Some t) \<and> standing window now s = ViewState_Idle)"
  by (auto simp: standing_def split: ViewState.splits option.splits)

lemma standing_eq [simp]:
  "standing window now s = ViewState_Connected \<longleftrightarrow> s = ViewState_Connected"
  "standing window now s = ViewState_Connecting None \<longleftrightarrow> s = ViewState_Connecting None"
  "standing window now s = ViewState_Withdrawn \<longleftrightarrow> s = ViewState_Withdrawn"
  "standing window now (standing window now s) = standing window now s"
  using standing_cases [of window now s] standing_later [OF order.refl, of window now s] by auto

lemma view_step_refines:
  assumes "event_time e = None \<or> event_time e = Some now"
  shows "standing window now (view_state p (snd (view_step window p e v))) =
    standing window now (spec_step now (fst (view_step window p e v)) e (standing window now (view_state p v)))"
  using assms by (cases e) simp_all

lemma dial_admitted_spec:
  "fst (dial_admitted window p now consumer v) \<longleftrightarrow> spec_dial consumer (standing window now (view_state p v))"
  by (auto simp: dial_admitted_def fst_with_view view_state_entry spec_dial_def standing_def Let_def not_less
      split: ViewState.splits option.splits)



section \<open>Sequences of events\<close>

definition time_after :: "u64 \<Rightarrow> view_event \<Rightarrow> u64" where
  "time_after now e = (case event_time e of None \<Rightarrow> now | Some t \<Rightarrow> t)"

fun clock_runs :: "u64 \<Rightarrow> ('p \<times> view_event) list \<Rightarrow> bool" where
  "clock_runs now [] \<longleftrightarrow> True"
| "clock_runs now ((p, e) # es) \<longleftrightarrow> now \<le> time_after now e \<and> clock_runs (time_after now e) es"

text \<open>Answers a machine with windows that close by themselves could give; it is told what appeared.\<close>

fun spec_accepts :: "u64 \<Rightarrow> u64 \<Rightarrow> (('p \<times> view_event) \<times> bool) list \<Rightarrow> ('p \<Rightarrow> ViewState) \<Rightarrow> bool" where
  "spec_accepts window now [] S \<longleftrightarrow> True"
| "spec_accepts window now (((p, e), answer) # es) S \<longleftrightarrow>
     (let t = time_after now e; s = standing window t (S p)
      in (case e of Dial _ consumer \<Rightarrow> answer = spec_dial consumer s | _ \<Rightarrow> True) \<and>
         spec_accepts window t es (S(p := spec_step t answer e s)))"

lemma time_after_cases: "event_time e = None \<or> event_time e = Some (time_after now e)"
  by (simp add: time_after_def split: option.splits)

lemma view_state_other: "q \<noteq> p \<Longrightarrow> view_state q (snd (view_step window p e v)) = view_state q v"
  by (simp add: view_state_def view_step_other)

lemma standing_agree_later:
  "standing window now s = standing window now s' \<Longrightarrow> now \<le> later \<Longrightarrow> standing window later s = standing window later s'"
  by (metis standing_later)

lemma view_run_refines:
  assumes "clock_runs now es" "\<forall>p. standing window now (view_state p v) = standing window now (S p)"
  shows "spec_accepts window now (fst (view_run window es v)) S"
  using assms
proof (induction es arbitrary: now v S)
  case (Cons x es)
  obtain p e where x: "x = (p, e)" by (cases x)
  let ?t = "time_after now e"
  let ?r = "view_step window p e v"
  have "now \<le> ?t" using Cons.prems(1) by (simp add: x)
  then have agree: "\<forall>q. standing window ?t (view_state q v) = standing window ?t (S q)"
    using Cons.prems(2) by (blast intro: standing_agree_later)
  have "standing window ?t (view_state q (snd ?r)) =
      standing window ?t ((S(p := spec_step ?t (fst ?r) e (standing window ?t (S p)))) q)" for q
    using view_step_refines [OF time_after_cases, of window now e p v] agree by (cases "q = p") (simp_all add: view_state_other)
  moreover have "clock_runs ?t es" using Cons.prems by (simp add: x)
  ultimately have "spec_accepts window ?t (fst (view_run window es (snd ?r)))
      (S(p := spec_step ?t (fst ?r) e (standing window ?t (S p))))"
    by (intro Cons.IH) simp_all
  moreover have "case e of Dial _ consumer \<Rightarrow> fst ?r = spec_dial consumer (standing window ?t (S p)) | _ \<Rightarrow> True"
    using agree by (cases e) (simp_all add: dial_admitted_spec time_after_def)
  ultimately show ?case by (simp add: x Let_def case_prod_beta)
qed simp

text \<open>Events after which a withdrawn phone may be dialled again.\<close>

fun announces :: "view_event \<Rightarrow> bool \<Rightarrow> bool" where
  "announces (Look _) appeared \<longleftrightarrow> appeared"
| "announces Opened _ \<longleftrightarrow> True"
| "announces Closed_Here _ \<longleftrightarrow> True"
| "announces (Ended e _) _ \<longleftrightarrow> e \<noteq> RequesterSessionEnd_Withdrawn"
| "announces Left _ \<longleftrightarrow> True"
| "announces _ _ \<longleftrightarrow> False"

definition admits :: "'p \<Rightarrow> ('p \<times> view_event) \<times> bool \<Rightarrow> bool" where
  "admits p = (\<lambda>((q, e), answer). q = p \<and> (case e of Dial _ _ \<Rightarrow> answer | _ \<Rightarrow> False))"

definition announced :: "'p \<Rightarrow> ('p \<times> view_event) \<times> bool \<Rightarrow> bool" where
  "announced p = (\<lambda>((q, e), answer). q = p \<and> announces e answer)"

lemma view_step_withdrawn:
  assumes "is_withdrawn p v" "\<not> announced p ((q, e), fst (view_step window q e v))"
  shows "is_withdrawn p (snd (view_step window q e v)) \<and> \<not> admits p ((q, e), fst (view_step window q e v))"
proof (cases "q = p")
  case True
  then show ?thesis using assms
    by (cases e) (simp_all add: is_withdrawn_def announced_def admits_def dial_admitted_spec spec_dial_def
        split: RequesterSessionEnd.splits if_splits)
qed (use assms in \<open>simp add: is_withdrawn_def admits_def view_state_other\<close>)

lemma view_run_withdrawn:
  assumes "is_withdrawn p v" "list_all (\<lambda>x. \<not> announced p x) (fst (view_run window es v))"
  shows "is_withdrawn p (snd (view_run window es v)) \<and> list_all (\<lambda>x. \<not> admits p x) (fst (view_run window es v))"
  using assms
proof (induction es arbitrary: v)
  case (Cons x es)
  then show ?case
    using view_step_withdrawn [of p v "fst x" "snd x" window] by (cases x) (simp add: case_prod_beta)
qed simp

text \<open>Events of a pairing that leave its redial window alone.\<close>

fun redials :: "view_event \<Rightarrow> bool \<Rightarrow> bool" where
  "redials (Look _) appeared \<longleftrightarrow> \<not> appeared"
| "redials (Dial _ consumer) _ \<longleftrightarrow> \<not> consumer"
| "redials (Dial_Failed _) _ \<longleftrightarrow> True"
| "redials _ _ \<longleftrightarrow> False"

definition only_redials :: "'p \<Rightarrow> ('p \<times> view_event) \<times> bool \<Rightarrow> bool" where
  "only_redials p = (\<lambda>((q, e), answer). q = p \<longrightarrow> redials e answer)"

definition within_window :: "u64 \<Rightarrow> u64 \<Rightarrow> 'p \<Rightarrow> ('p \<times> view_event) \<times> bool \<Rightarrow> bool" where
  "within_window window opened p = (\<lambda>((q, e), answer).
     case e of Dial now _ \<Rightarrow> q = p \<longrightarrow> answer = (unat now < unat opened + unat window) | _ \<Rightarrow> True)"

definition redial_open :: "u64 \<Rightarrow> u64 \<Rightarrow> u64 \<Rightarrow> ViewState \<Rightarrow> bool" where
  "redial_open window now opened s \<longleftrightarrow>
     s = ViewState_Connecting (Some opened) \<or> s = ViewState_Idle \<and> window \<le> saturating_sub now opened"

lemma saturating_sub_less: "0 < window \<Longrightarrow> saturating_sub now opened < window \<longleftrightarrow> unat now < unat opened + unat window"
  by (auto simp: saturating_sub_def word_le_nat_alt word_less_nat_alt unat_sub_if')

lemma redial_open_later:
  "redial_open window now opened s \<Longrightarrow> now \<le> later \<Longrightarrow> redial_open window later opened s"
  using saturating_sub_mono [of now later opened] by (auto simp: redial_open_def)

lemma redial_open_step:
  assumes "redial_open window now opened (view_state p v)" "now \<le> time_after now e" "0 < window"
    "only_redials p ((q, e), fst (view_step window q e v))"
  shows "redial_open window (time_after now e) opened (view_state p (snd (view_step window q e v))) \<and>
    within_window window opened p ((q, e), fst (view_step window q e v))"
proof (cases "q = p")
  case True
  then show ?thesis using assms(3,4) redial_open_later [OF assms(1,2)]
    by (cases e)
      (auto simp: redial_open_def only_redials_def within_window_def dial_admitted_spec spec_dial_def
        standing_def time_after_def saturating_sub_less [symmetric] not_less split: if_splits)
next
  case False
  then show ?thesis using redial_open_later [OF assms(1,2)]
    by (simp add: within_window_def view_state_other split: view_event.split)
qed

lemma view_run_window:
  assumes "redial_open window now opened (view_state p v)" "clock_runs now es" "0 < window"
    "list_all (only_redials p) (fst (view_run window es v))"
  shows "list_all (within_window window opened p) (fst (view_run window es v))"
  using assms
proof (induction es arbitrary: now v)
  case (Cons x es)
  obtain q e where x: "x = (q, e)" by (cases x)
  have step: "redial_open window (time_after now e) opened (view_state p (snd (view_step window q e v))) \<and>
      within_window window opened p ((q, e), fst (view_step window q e v))"
    using Cons.prems by (intro redial_open_step) (simp_all add: x case_prod_beta)
  then have "list_all (within_window window opened p) (fst (view_run window es (snd (view_step window q e v))))"
    using Cons.prems by (intro Cons.IH [of "time_after now e"]) (simp_all add: x case_prod_beta)
  then show ?case using step by (simp add: x case_prod_beta)
qed simp



section \<open>Properties\<close>

text \<open>
  (C25) The code forgets a redial window that has passed only when it is asked. Nobody can tell: on a clock that does not
  run backwards, every answer it gives to any sequence of calls, for any number of pairings, is the answer of
  the machine whose windows close by themselves, started in the same states.
\<close>

theorem lazy_windows_unobservable:
  assumes "clock_runs now es"
  shows "spec_accepts window now (fst (view_run window es v)) (\<lambda>p. view_state p v)"
  using assms by (rule view_run_refines) simp

text \<open>
  A phone that has withdrawn is not dialled, not even for a local consumer, until something is in sight that was
  not before, a session is opened or ends otherwise, or the pairing is left: in every sequence of calls without
  such an event the view stays withdrawn and no dial to that phone is admitted.
\<close>

theorem withdrawn_until_announced:
  assumes "is_withdrawn p v" "list_all (\<lambda>x. \<not> announced p x) (fst (view_run window es v))"
  shows "is_withdrawn p (snd (view_run window es v)) \<and> list_all (\<lambda>x. \<not> admits p x) (fst (view_run window es v))"
  using assms by (rule view_run_withdrawn)

text \<open>
  Redialling ends: when a redial window was opened by a loss or by the first failed dial, a dial that no consumer
  asked for is admitted exactly before the window has passed since then, however many dials fail meanwhile.
\<close>

theorem redial_window_is_fixed:
  assumes "view_state p v = ViewState_Connecting (Some opened)" "clock_runs now es" "0 < window"
    "list_all (only_redials p) (fst (view_run window es v))"
  shows "list_all (within_window window opened p) (fst (view_run window es v))"
  by (rule view_run_window [OF _ assms(2,3,4)]) (simp add: redial_open_def assms(1))

definition lost_views :: "nat views" where
  "lost_views = snd (session_ended 1 RequesterSessionEnd_Loss 100 (snd (session_opened 1 Map.empty)))"

definition redial_events :: "(nat \<times> view_event) list" where
  "redial_events = [(1, Dial 120 False), (1, Dial_Failed 130), (2, Opened), (1, Dial 149 False), (1, Dial 150 False)]"

lemmas view_eval = lost_views_def redial_events_def view_op_defs with_view_def CustodianView_new_def saturating_sub_def
  time_after_def view_state_def is_withdrawn_def Let_def

theorem lazy_windows_unobservable_witness:
  "spec_accepts 50 100 (fst (view_run 50 redial_events lost_views)) (\<lambda>p. view_state p lost_views)"
  by (rule lazy_windows_unobservable) (simp add: view_eval)

theorem redial_window_is_fixed_witness:
  "map snd (fst (view_run 50 redial_events lost_views)) = [True, False, False, True, False] \<and>
   list_all (within_window 50 100 1) (fst (view_run 50 redial_events lost_views))"
proof
  show "map snd (fst (view_run 50 redial_events lost_views)) = [True, False, False, True, False]"
    by (simp add: view_eval)
  show "list_all (within_window 50 100 1) (fst (view_run 50 redial_events lost_views))"
    by (rule redial_window_is_fixed [where now = 100]) (simp_all add: view_eval only_redials_def)
qed

theorem withdrawn_until_announced_witness:
  "let v = snd (session_ended 1 RequesterSessionEnd_Withdrawn 100 (snd (look 1 [''a''] Map.empty)))
   in is_withdrawn 1 (snd (view_run 50 [(1 :: nat, Look [''a'']), (1, Dial 110 True)] v))"
proof -
  let ?v = "snd (session_ended (1 :: nat) RequesterSessionEnd_Withdrawn 100 (snd (look 1 [''a''] Map.empty)))"
  have "is_withdrawn 1 (snd (view_run 50 [(1 :: nat, Look [''a'']), (1, Dial 110 True)] ?v)) \<and>
      list_all (\<lambda>x. \<not> admits 1 x) (fst (view_run 50 [(1 :: nat, Look [''a'']), (1, Dial 110 True)] ?v))"
    by (rule withdrawn_until_announced) (simp_all add: view_eval announced_def)
  then show ?thesis by (simp add: Let_def)
qed

end
