(* ===== verification/Rapp_Store.thy ===== *)
theory Rapp_Store
  imports Rapp_View
begin

text \<open>
  The pairings a computer keeps (\<open>refineid-rapp-core\<close>, \<open>store.rs\<close>) and the last card each was heard with
  (\<open>presence.rs\<close>): the life of a record, the store in memory, and the operations that every store serves.

  The keys of a pairing are a \<open>PairRecord\<close> of the crate \<open>refineid_rapp\<close>. What the code uses of it is the record
  \<open>engine\<close>, an argument of the definitions; \<open>engine_laws\<close> states what that crate documents. A sweep of the engine
  stores the checked record before it makes the change, so it is given as a plan: nothing to change, or the
  encoding to store, the outcome and the record after it. A pairing is named by \<open>'p\<close>, \<open>'n\<close> is a display name, \<open>'c\<close> a
  certificate and \<open>'f\<close> its fingerprint.

  The trait \<open>PairingStore\<close> is the record \<open>store_ops\<close>; its contract is the locale \<open>pairing_store\<close>, where the operations
  on any store are judged once.
\<close>

section \<open>The code\<close>

subsection \<open>Sightings (\<open>presence.rs\<close>)\<close>

definition saturating_add :: "'a::len word \<Rightarrow> 'a word \<Rightarrow> 'a word" where
  "saturating_add a b = (if a \<le> a + b then a + b else - 1)"

record 'f CardSighting =
  sighted_fingerprint :: 'f
  at_ms :: u64

text \<open>\<open>u64::to_be_bytes\<close> and \<open>u64::from_be_bytes\<close>.\<close>

definition u64_to_be_bytes :: "u64 \<Rightarrow> bytes" where
  "u64_to_be_bytes w = map (\<lambda>i. ucast (drop_bit (8 * i) w)) [7, 6, 5, 4, 3, 2, 1, 0]"

definition u64_from_be_bytes :: "bytes \<Rightarrow> u64" where
  "u64_from_be_bytes bs = of_nat (be_fold bs)"

definition stands_for :: "u64 \<Rightarrow> ('c \<Rightarrow> 'f) \<Rightarrow> 'f CardSighting \<Rightarrow> 'c \<Rightarrow> u64 \<Rightarrow> bool" where
  "stands_for grace of_certificate s certificate now =
     (let age = saturating_sub now (at_ms s);
          ahead = saturating_sub (at_ms s) now
      in of_certificate certificate = sighted_fingerprint s \<and> age < grace \<and> ahead < grace)"

definition offer_lapses_at_ms :: "u64 \<Rightarrow> 'f CardSighting \<Rightarrow> u64" where
  "offer_lapses_at_ms grace s = saturating_add (at_ms s) grace"


subsection \<open>The engine's record\<close>

datatype SweepOutcome = SweepOutcome_Kept | SweepOutcome_Recorded | SweepOutcome_Expired

datatype PairingError = PairingError_StorageUnconfirmed | PairingError_Other nat

datatype PairRecordCodecError = PairRecordCodecError_UnsupportedVersion | PairRecordCodecError_Other nat

record ('k, 'p, 'n, 'a) engine =
  eng_pair_id :: "'k \<Rightarrow> 'p"
  eng_display_name :: "'k \<Rightarrow> 'n"
  eng_forgotten_at :: "'k \<Rightarrow> u64 option"
  eng_confirmed :: "'k \<Rightarrow> bool"
  eng_forgotten :: "'k \<Rightarrow> u64 \<Rightarrow> 'k"
  eng_rename :: "'k \<Rightarrow> 'n \<Rightarrow> bool option \<times> 'k"
  eng_confirm :: "'a \<Rightarrow> 'k \<Rightarrow> PairingError + 'k"
  eng_notice_expired :: "'k \<Rightarrow> u64 \<Rightarrow> bool"
  eng_sweep :: "'k \<Rightarrow> u64 \<Rightarrow> bool \<Rightarrow> PairRecordCodecError + (bytes \<times> SweepOutcome \<times> 'k) option"
  eng_encode :: "'k \<Rightarrow> PairRecordCodecError + bytes"
  eng_decode :: "bytes \<Rightarrow> PairRecordCodecError + 'k"
  eng_requester :: "'k \<Rightarrow> bool"

subsection \<open>A pairing record\<close>

datatype ('k, 'p, 'n) Keys = Keys_Held 'k | Keys_Revoked 'p bool 'n

datatype PairingState =
    PairingState_Unconfirmed | PairingState_Serving | PairingState_Forgotten | PairingState_Revoked (revoked_by_peer: bool)

record 'c Certificates =
  authentication :: "'c option"
  signature :: "'c option"
  root :: "'c option"
  intermediate :: "'c option"

definition Certificates_NONE :: "'c Certificates" where
  "Certificates_NONE = \<lparr>authentication = None, signature = None, root = None, intermediate = None\<rparr>"

record ('k, 'p, 'n, 'c) PairingRecord =
  keys :: "('k, 'p, 'n) Keys"
  peer_platform :: bytes
  certificates :: "'c Certificates"

definition PairingRecord_new :: "'k \<Rightarrow> bytes \<Rightarrow> ('k, 'p, 'n, 'c) PairingRecord" where
  "PairingRecord_new record platform = \<lparr>keys = Keys_Held record, peer_platform = platform, certificates = Certificates_NONE\<rparr>"

definition PairingRecord_revoked :: "'p \<Rightarrow> bool \<Rightarrow> 'n \<Rightarrow> bytes \<Rightarrow> ('k, 'p, 'n, 'c) PairingRecord" where
  "PairingRecord_revoked pair_id by_peer name platform =
     \<lparr>keys = Keys_Revoked pair_id by_peer name, peer_platform = platform, certificates = Certificates_NONE\<rparr>"

definition pair_id :: "('k, 'p, 'n, 'a) engine \<Rightarrow> ('k, 'p, 'n, 'c) PairingRecord \<Rightarrow> 'p" where
  "pair_id eng r = (case keys r of Keys_Held record \<Rightarrow> eng_pair_id eng record | Keys_Revoked p _ _ \<Rightarrow> p)"

definition peer_display_name :: "('k, 'p, 'n, 'a) engine \<Rightarrow> ('k, 'p, 'n, 'c) PairingRecord \<Rightarrow> 'n" where
  "peer_display_name eng r = (case keys r of Keys_Held record \<Rightarrow> eng_display_name eng record | Keys_Revoked _ _ name \<Rightarrow> name)"

definition rename_peer ::
  "('k, 'p, 'n, 'a) engine \<Rightarrow> 'n \<Rightarrow> ('k, 'p, 'n, 'c) PairingRecord \<Rightarrow> bool \<times> ('k, 'p, 'n, 'c) PairingRecord" where
  "rename_peer eng name r =
     (case keys r of
        Keys_Held record \<Rightarrow>
          (case eng_rename eng record name of
             (answer, record') \<Rightarrow> (case answer of None \<Rightarrow> False | Some differs \<Rightarrow> differs, r\<lparr>keys := Keys_Held record'\<rparr>))
      | Keys_Revoked _ _ _ \<Rightarrow> (False, r))"

definition record_state :: "('k, 'p, 'n, 'a) engine \<Rightarrow> ('k, 'p, 'n, 'c) PairingRecord \<Rightarrow> PairingState" where
  "record_state eng r =
     (case keys r of
        Keys_Revoked _ by_peer _ \<Rightarrow> PairingState_Revoked by_peer
      | Keys_Held record \<Rightarrow>
          (case eng_forgotten_at eng record of
             Some _ \<Rightarrow> PairingState_Forgotten
           | None \<Rightarrow> if eng_confirmed eng record then PairingState_Serving else PairingState_Unconfirmed))"

definition serves :: "('k, 'p, 'n, 'a) engine \<Rightarrow> ('k, 'p, 'n, 'c) PairingRecord \<Rightarrow> bool" where
  "serves eng r \<longleftrightarrow> record_state eng r = PairingState_Serving"

definition owes_revocation_notice :: "('k, 'p, 'n, 'a) engine \<Rightarrow> ('k, 'p, 'n, 'c) PairingRecord \<Rightarrow> bool" where
  "owes_revocation_notice eng r \<longleftrightarrow>
     (case keys r of
        Keys_Held record \<Rightarrow> eng_confirmed eng record \<and> eng_forgotten_at eng record \<noteq> None
      | Keys_Revoked _ _ _ \<Rightarrow> False)"

definition serving_record :: "('k, 'p, 'n, 'a) engine \<Rightarrow> ('k, 'p, 'n, 'c) PairingRecord \<Rightarrow> 'k option" where
  "serving_record eng r =
     (case keys r of
        Keys_Held record \<Rightarrow> if eng_confirmed eng record \<and> eng_forgotten_at eng record = None then Some record else None
      | Keys_Revoked _ _ _ \<Rightarrow> None)"

definition pair_record :: "('k, 'p, 'n, 'c) PairingRecord \<Rightarrow> 'k option" where
  "pair_record r = (case keys r of Keys_Held record \<Rightarrow> Some record | Keys_Revoked _ _ _ \<Rightarrow> None)"

definition remember_authentication_certificate :: "'c \<Rightarrow> ('k, 'p, 'n, 'c) PairingRecord \<Rightarrow> ('k, 'p, 'n, 'c) PairingRecord" where
  "remember_authentication_certificate c r = r\<lparr>certificates := (certificates r)\<lparr>authentication := Some c\<rparr>\<rparr>"

definition remember_signature_certificate :: "'c \<Rightarrow> ('k, 'p, 'n, 'c) PairingRecord \<Rightarrow> ('k, 'p, 'n, 'c) PairingRecord" where
  "remember_signature_certificate c r = r\<lparr>certificates := (certificates r)\<lparr>signature := Some c\<rparr>\<rparr>"

definition remember_root_certificate :: "'c \<Rightarrow> ('k, 'p, 'n, 'c) PairingRecord \<Rightarrow> ('k, 'p, 'n, 'c) PairingRecord" where
  "remember_root_certificate c r = r\<lparr>certificates := (certificates r)\<lparr>root := Some c\<rparr>\<rparr>"

definition remember_intermediate_certificate :: "'c \<Rightarrow> ('k, 'p, 'n, 'c) PairingRecord \<Rightarrow> ('k, 'p, 'n, 'c) PairingRecord" where
  "remember_intermediate_certificate c r = r\<lparr>certificates := (certificates r)\<lparr>intermediate := Some c\<rparr>\<rparr>"

definition revoked_keys :: "('k, 'p, 'n, 'a) engine \<Rightarrow> bool \<Rightarrow> ('k, 'p, 'n, 'c) PairingRecord \<Rightarrow> ('k, 'p, 'n) Keys" where
  "revoked_keys eng by_peer r = Keys_Revoked (pair_id eng r) by_peer (peer_display_name eng r)"

definition confirm_storage ::
  "('k, 'p, 'n, 'a) engine \<Rightarrow> 'a \<Rightarrow> ('k, 'p, 'n, 'c) PairingRecord \<Rightarrow> (PairingError + unit) \<times> ('k, 'p, 'n, 'c) PairingRecord" where
  "confirm_storage eng active r =
     (case keys r of
        Keys_Held record \<Rightarrow>
          (case eng_confirm eng active record of
             Inl e \<Rightarrow> (Inl e, r\<lparr>keys := revoked_keys eng False r\<rparr>)
           | Inr record' \<Rightarrow> (Inr (), r\<lparr>keys := Keys_Held record'\<rparr>))
      | Keys_Revoked _ _ _ \<Rightarrow> (Inl PairingError_StorageUnconfirmed, r))"

definition forget :: "('k, 'p, 'n, 'a) engine \<Rightarrow> u64 \<Rightarrow> ('k, 'p, 'n, 'c) PairingRecord \<Rightarrow> ('k, 'p, 'n, 'c) PairingRecord" where
  "forget eng now r =
     (case keys r of
        Keys_Held record \<Rightarrow>
          if eng_forgotten_at eng record = None then r\<lparr>keys := Keys_Held (eng_forgotten eng record now)\<rparr> else r
      | Keys_Revoked _ _ _ \<Rightarrow> r)"

definition revoke :: "('k, 'p, 'n, 'a) engine \<Rightarrow> bool \<Rightarrow> ('k, 'p, 'n, 'c) PairingRecord \<Rightarrow> ('k, 'p, 'n, 'c) PairingRecord" where
  "revoke eng by_peer r = r\<lparr>keys := revoked_keys eng by_peer r, certificates := Certificates_NONE\<rparr>"

datatype 'e RecordStoreError = RecordStoreError_Encoding PairRecordCodecError | RecordStoreError_Store 'e

text \<open>\<open>store\<close> writes the checked record and says whether it could.\<close>

definition record_sweep ::
  "('k, 'p, 'n, 'a) engine \<Rightarrow> u64 \<Rightarrow> bool \<Rightarrow> (('k, 'p, 'n, 'c) PairingRecord \<Rightarrow> 's \<Rightarrow> ('e + unit) \<times> 's) \<Rightarrow>
     ('k, 'p, 'n, 'c) PairingRecord \<Rightarrow> 's \<Rightarrow> ('e RecordStoreError + SweepOutcome) \<times> ('k, 'p, 'n, 'c) PairingRecord \<times> 's" where
  "record_sweep eng now session_established store r s =
     (case keys r of
        Keys_Revoked _ _ _ \<Rightarrow> (Inr SweepOutcome_Kept, r, s)
      | Keys_Held held \<Rightarrow>
          (case eng_sweep eng held now session_established of
             Inl e \<Rightarrow> (Inl (RecordStoreError_Encoding e), r, s)
           | Inr None \<Rightarrow> (Inr SweepOutcome_Kept, r, s)
           | Inr (Some (encoded, outcome, held')) \<Rightarrow>
               (case eng_decode eng encoded of
                  Inl e \<Rightarrow> (Inl (RecordStoreError_Encoding e), r, s)
                | Inr checked \<Rightarrow>
                    let stored = (if eng_forgotten_at eng checked \<noteq> None
                          then r\<lparr>keys := revoked_keys eng False r, certificates := Certificates_NONE\<rparr>
                          else r\<lparr>keys := Keys_Held checked\<rparr>)
                    in (case store stored s of
                          (Inl e, s') \<Rightarrow> (Inl (RecordStoreError_Store e), r, s')
                        | (Inr _, s') \<Rightarrow>
                            let r' = r\<lparr>keys := Keys_Held held'\<rparr>
                            in (Inr outcome, if outcome = SweepOutcome_Expired then revoke eng False r' else r', s')))))"


subsection \<open>Stores\<close>

datatype StoreError = StoreError_Unknown | StoreError_WriteRefused | StoreError_Unreadable

record ('s, 'p, 'r, 'f) store_ops =
  so_insert :: "'r \<Rightarrow> 's \<Rightarrow> (StoreError + unit) \<times> 's"
  so_get :: "'p \<Rightarrow> 's \<Rightarrow> StoreError + 'r"
  so_update :: "'p \<Rightarrow> ('r \<Rightarrow> 'r) \<Rightarrow> 's \<Rightarrow> (StoreError + unit) \<times> 's"
  so_remove :: "'p \<Rightarrow> 's \<Rightarrow> (StoreError + unit) \<times> 's"
  so_pair_ids :: "'s \<Rightarrow> 'p list"
  so_card_sighting :: "'p \<Rightarrow> 's \<Rightarrow> 'f CardSighting option"
  so_record_card_sighting :: "'p \<Rightarrow> 'f CardSighting \<Rightarrow> 's \<Rightarrow> (StoreError + unit) \<times> 's"
  so_drop_card_sighting :: "'p \<Rightarrow> 's \<Rightarrow> 's"
  so_sweep :: "'p \<Rightarrow> u64 \<Rightarrow> bool \<Rightarrow> 's \<Rightarrow> (StoreError RecordStoreError + SweepOutcome) \<times> 's"

type_synonym ('s, 'k, 'p, 'n, 'c, 'f) pairing_store_ops = "('s, 'p, ('k, 'p, 'n, 'c) PairingRecord, 'f) store_ops"

definition offered_certificate ::
  "('k, 'p, 'n, 'a) engine \<Rightarrow> u64 \<Rightarrow> ('c \<Rightarrow> 'f) \<Rightarrow> ('s, 'k, 'p, 'n, 'c, 'f) pairing_store_ops \<Rightarrow> 's \<Rightarrow> 'p \<Rightarrow> u64 \<Rightarrow> 'c option" where
  "offered_certificate eng grace of_certificate so s p now =
     (case so_get so p s of
        Inl _ \<Rightarrow> None
      | Inr r \<Rightarrow>
          if \<not> serves eng r then None
          else (case authentication (certificates r) of
                  None \<Rightarrow> None
                | Some certificate \<Rightarrow>
                    (case so_card_sighting so p s of
                       None \<Rightarrow> None
                     | Some sighting \<Rightarrow>
                         if stands_for grace of_certificate sighting certificate now then Some certificate else None)))"

definition revoke_pairing ::
  "('k, 'p, 'n, 'a) engine \<Rightarrow> ('s, 'k, 'p, 'n, 'c, 'f) pairing_store_ops \<Rightarrow> 'p \<Rightarrow> bool \<Rightarrow> 's \<Rightarrow> (StoreError + unit) \<times> 's" where
  "revoke_pairing eng so p by_peer = so_update so p (revoke eng by_peer)"

definition forget_pairing ::
  "('k, 'p, 'n, 'a) engine \<Rightarrow> ('s, 'k, 'p, 'n, 'c, 'f) pairing_store_ops \<Rightarrow> 'p \<Rightarrow> u64 \<Rightarrow> 's \<Rightarrow> (StoreError + unit) \<times> 's" where
  "forget_pairing eng so p now s =
     (case so_get so p s of
        Inl e \<Rightarrow> (Inl e, s)
      | Inr r \<Rightarrow>
          (case record_state eng r of
             PairingState_Unconfirmed \<Rightarrow> so_remove so p s
           | PairingState_Revoked _ \<Rightarrow> so_remove so p s
           | PairingState_Forgotten \<Rightarrow> (Inr (), s)
           | PairingState_Serving \<Rightarrow> so_update so p (forget eng now) s))"

text \<open>The loops that ignore the result of each change.\<close>

definition each :: "('p \<Rightarrow> 's \<Rightarrow> 'b \<times> 's) \<Rightarrow> 'p list \<Rightarrow> 's \<Rightarrow> 's" where
  "each f ps s = fold (\<lambda>p s. snd (f p s)) ps s"

definition remove_unconfirmed ::
  "('k, 'p, 'n, 'a) engine \<Rightarrow> ('s, 'k, 'p, 'n, 'c, 'f) pairing_store_ops \<Rightarrow> 's \<Rightarrow> 'p list \<times> 's" where
  "remove_unconfirmed eng so s =
     (let unconfirmed = filter (\<lambda>p. case so_get so p s of
              Inl _ \<Rightarrow> False | Inr r \<Rightarrow> record_state eng r = PairingState_Unconfirmed) (so_pair_ids so s)
      in (unconfirmed, each (so_remove so) unconfirmed s))"

definition expire_revocation_notices ::
  "('k, 'p, 'n, 'a) engine \<Rightarrow> ('s, 'k, 'p, 'n, 'c, 'f) pairing_store_ops \<Rightarrow> u64 \<Rightarrow> 's \<Rightarrow> 'p list \<times> 's" where
  "expire_revocation_notices eng so now s =
     (let expired = filter (\<lambda>p. case so_get so p s of
              Inl _ \<Rightarrow> False
            | Inr r \<Rightarrow> (case pair_record r of None \<Rightarrow> False | Some held \<Rightarrow> eng_notice_expired eng held now)) (so_pair_ids so s)
      in (expired, each (\<lambda>p. revoke_pairing eng so p False) expired s))"

definition sweep_one ::
  "('s, 'k, 'p, 'n, 'c, 'f) pairing_store_ops \<Rightarrow> u64 \<Rightarrow> ('p \<Rightarrow> bool) \<Rightarrow> 'p \<Rightarrow> 'p list \<times> 's \<Rightarrow> 'p list \<times> 's" where
  "sweep_one so now in_session p = (\<lambda>(expired, s).
     case so_sweep so p now (in_session p) s of
       (outcome, s') \<Rightarrow> (if outcome = Inr SweepOutcome_Expired then expired @ [p] else expired, s'))"

definition sweep_pairings ::
  "('s, 'k, 'p, 'n, 'c, 'f) pairing_store_ops \<Rightarrow> u64 \<Rightarrow> ('p \<Rightarrow> bool) \<Rightarrow> 's \<Rightarrow> 'p list \<times> 's" where
  "sweep_pairings so now in_session s = fold (sweep_one so now in_session) (so_pair_ids so s) ([], s)"


subsection \<open>The store in memory\<close>

record ('k, 'p, 'n, 'c, 'f) MemoryPairingStore =
  mem_records :: "('k, 'p, 'n, 'c) PairingRecord list"
  mem_sightings :: "('p \<times> 'f CardSighting) list"

definition records_get :: "('k, 'p, 'n, 'a) engine \<Rightarrow> 'p \<Rightarrow> ('k, 'p, 'n, 'c) PairingRecord list \<Rightarrow> StoreError + ('k, 'p, 'n, 'c) PairingRecord" where
  "records_get eng p rs = ok_or StoreError_Unknown (find (\<lambda>r. pair_id eng r = p) rs)"

definition records_insert ::
  "('k, 'p, 'n, 'a) engine \<Rightarrow> ('k, 'p, 'n, 'c) PairingRecord \<Rightarrow> ('k, 'p, 'n, 'c) PairingRecord list \<Rightarrow> ('k, 'p, 'n, 'c) PairingRecord list" where
  "records_insert eng record rs = filter (\<lambda>r. pair_id eng r \<noteq> pair_id eng record) rs @ [record]"

text \<open>The first record of the pairing is changed in place.\<close>

fun records_update ::
  "('k, 'p, 'n, 'a) engine \<Rightarrow> 'p \<Rightarrow> (('k, 'p, 'n, 'c) PairingRecord \<Rightarrow> ('k, 'p, 'n, 'c) PairingRecord) \<Rightarrow>
     ('k, 'p, 'n, 'c) PairingRecord list \<Rightarrow> StoreError + ('k, 'p, 'n, 'c) PairingRecord list" where
  "records_update eng p change [] = Inl StoreError_Unknown"
| "records_update eng p change (r # rs) =
     (if pair_id eng r = p then Inr (change r # rs) else bindR (records_update eng p change rs) (\<lambda>rs'. Inr (r # rs')))"

definition records_remove ::
  "('k, 'p, 'n, 'a) engine \<Rightarrow> 'p \<Rightarrow> ('k, 'p, 'n, 'c) PairingRecord list \<Rightarrow> StoreError + ('k, 'p, 'n, 'c) PairingRecord list" where
  "records_remove eng p rs =
     (let rs' = filter (\<lambda>r. pair_id eng r \<noteq> p) rs
      in if length rs' = length rs then Inl StoreError_Unknown else Inr rs')"

definition sightings_without :: "'p \<Rightarrow> ('p \<times> 'f CardSighting) list \<Rightarrow> ('p \<times> 'f CardSighting) list" where
  "sightings_without p = filter (\<lambda>(q, _). q \<noteq> p)"

definition Memory_insert where
  "Memory_insert eng record s = (Inr () :: StoreError + unit, s\<lparr>mem_records := records_insert eng record (mem_records s)\<rparr>)"

definition Memory_update where
  "Memory_update eng p change s =
     (case records_update eng p change (mem_records s) of
        Inl e \<Rightarrow> (Inl e :: StoreError + unit, s) | Inr rs \<Rightarrow> (Inr (), s\<lparr>mem_records := rs\<rparr>))"

definition Memory_remove where
  "Memory_remove eng p s =
     (case records_remove eng p (mem_records s) of
        Inl e \<Rightarrow> (Inl e :: StoreError + unit, s)
      | Inr rs \<Rightarrow> (Inr (), s\<lparr>mem_records := rs, mem_sightings := sightings_without p (mem_sightings s)\<rparr>))"

definition Memory_record_card_sighting where
  "Memory_record_card_sighting p sighting s =
     (Inr () :: StoreError + unit, s\<lparr>mem_sightings := sightings_without p (mem_sightings s) @ [(p, sighting)]\<rparr>)"

definition Memory_sweep where
  "Memory_sweep eng p now session_established s =
     (case records_get eng p (mem_records s) of
        Inl e \<Rightarrow> (Inl (RecordStoreError_Store e), s)
      | Inr r \<Rightarrow>
          (case record_sweep eng now session_established (\<lambda>_ (u :: unit). (Inr () :: StoreError + unit, u)) r () of
             (outcome, r', _) \<Rightarrow> (outcome, snd (Memory_update eng p (\<lambda>_. r') s))))"

definition memory_store ::
  "('k, 'p, 'n, 'a) engine \<Rightarrow> (('k, 'p, 'n, 'c, 'f) MemoryPairingStore, 'k, 'p, 'n, 'c, 'f) pairing_store_ops" where
  "memory_store eng =
     \<lparr>so_insert = Memory_insert eng, so_get = (\<lambda>p s. records_get eng p (mem_records s)), so_update = Memory_update eng,
      so_remove = Memory_remove eng, so_pair_ids = (\<lambda>s. map (pair_id eng) (rev (mem_records s))),
      so_card_sighting = (\<lambda>p s. map_of (mem_sightings s) p), so_record_card_sighting = Memory_record_card_sighting,
      so_drop_card_sighting = (\<lambda>p s. s\<lparr>mem_sightings := sightings_without p (mem_sightings s)\<rparr>), so_sweep = Memory_sweep eng\<rparr>"


section \<open>The life of a record\<close>

fun be_digits :: "nat \<Rightarrow> u64 \<Rightarrow> bytes" where
  "be_digits 0 w = []"
| "be_digits (Suc n) w = ucast (drop_bit (8 * n) w) # be_digits n w"

lemma length_be_digits [simp]: "length (be_digits n w) = n"
  by (induction n) simp_all

lemma be_fold_be_digits: "be_fold (be_digits n w) = unat w mod 256 ^ n"
proof (induction n)
  case (Suc n)
  have "(2 :: nat) ^ (8 * n) = 256 ^ n" by (simp add: power_mult)
  then show ?case using Suc.IH mod_mult2_eq [of "unat w" "256 ^ n" 256]
    by (simp add: unat_ucast_byte unat_drop_bit_div mult.commute)
qed simp

lemma u64_to_be_bytes_digits: "u64_to_be_bytes w = be_digits 8 w"
  by (simp add: u64_to_be_bytes_def numeral_eq_Suc)

lemma length_u64_to_be_bytes [simp]: "length (u64_to_be_bytes w) = 8"
  by (simp add: u64_to_be_bytes_def)

lemma u64_be_bytes_inverse [simp]: "u64_from_be_bytes (u64_to_be_bytes w) = w"
  using unsigned_less [of w, where ?'a = nat] by (simp add: u64_from_be_bytes_def u64_to_be_bytes_digits be_fold_be_digits)

lemma u64_to_from_be_bytes: "length bs = 8 \<Longrightarrow> u64_to_be_bytes (u64_from_be_bytes bs) = bs"
  using be_fold_less [of bs]
  by (intro be_fold_inj) (simp_all add: u64_to_be_bytes_digits be_fold_be_digits u64_from_be_bytes_def unat_of_nat)

text \<open>What \<open>refineid_rapp\<close> documents of its record.\<close>

definition engine_laws :: "('k, 'p, 'n, 'a) engine \<Rightarrow> bool" where
  "engine_laws eng \<longleftrightarrow>
     (\<forall>k t. eng_pair_id eng (eng_forgotten eng k t) = eng_pair_id eng k \<and>
        eng_forgotten_at eng (eng_forgotten eng k t) = Some t \<and> eng_confirmed eng (eng_forgotten eng k t) = eng_confirmed eng k) \<and>
     (\<forall>k n. eng_pair_id eng (snd (eng_rename eng k n)) = eng_pair_id eng k \<and>
        eng_forgotten_at eng (snd (eng_rename eng k n)) = eng_forgotten_at eng k \<and>
        eng_confirmed eng (snd (eng_rename eng k n)) = eng_confirmed eng k) \<and>
     (\<forall>a k k'. eng_confirm eng a k = Inr k' \<longrightarrow> eng_pair_id eng k' = eng_pair_id eng k \<and> eng_confirmed eng k' \<and>
        eng_forgotten_at eng k' = eng_forgotten_at eng k) \<and>
     (\<forall>k now b e out k'. eng_sweep eng k now b = Inr (Some (e, out, k')) \<longrightarrow>
        eng_pair_id eng k' = eng_pair_id eng k \<and> eng_confirmed eng k' = eng_confirmed eng k \<and> eng_decode eng e = Inr k' \<and>
        out \<noteq> SweepOutcome_Kept \<and> (out = SweepOutcome_Recorded \<longrightarrow> eng_forgotten_at eng k = None \<and> eng_forgotten_at eng k' = None) \<and>
        (out = SweepOutcome_Expired \<longrightarrow> eng_forgotten_at eng k' \<noteq> None)) \<and>
     (\<forall>k now. eng_notice_expired eng k now \<longrightarrow> eng_forgotten_at eng k \<noteq> None) \<and>
     (\<forall>k b. eng_encode eng k = Inr b \<longrightarrow> eng_decode eng b = Inr k)"

text \<open>Everything the code does to a record it holds.\<close>

datatype ('a, 'n, 'c) record_change =
    Rename 'n | Confirm 'a | Forget u64 | Revoke bool | Sweep u64 bool
  | Remember_Authentication 'c | Remember_Signature 'c | Remember_Root 'c | Remember_Intermediate 'c

fun apply_change :: "('k, 'p, 'n, 'a) engine \<Rightarrow> ('a, 'n, 'c) record_change \<Rightarrow> ('k, 'p, 'n, 'c) PairingRecord \<Rightarrow> ('k, 'p, 'n, 'c) PairingRecord" where
  "apply_change eng (Rename name) r = snd (rename_peer eng name r)"
| "apply_change eng (Confirm active) r = snd (confirm_storage eng active r)"
| "apply_change eng (Forget now) r = forget eng now r"
| "apply_change eng (Revoke by_peer) r = revoke eng by_peer r"
| "apply_change eng (Sweep now b) r = fst (snd (record_sweep eng now b (\<lambda>_ u. (Inr () :: StoreError + unit, u)) r ()))"
| "apply_change eng (Remember_Authentication c) r = remember_authentication_certificate c r"
| "apply_change eng (Remember_Signature c) r = remember_signature_certificate c r"
| "apply_change eng (Remember_Root c) r = remember_root_certificate c r"
| "apply_change eng (Remember_Intermediate c) r = remember_intermediate_certificate c r"

fun stage :: "PairingState \<Rightarrow> nat" where
  "stage PairingState_Unconfirmed = 0"
| "stage PairingState_Serving = 1"
| "stage PairingState_Forgotten = 2"
| "stage (PairingState_Revoked _) = 3"

lemmas record_op_defs = rename_peer_def confirm_storage_def forget_def revoke_def revoked_keys_def record_sweep_def
  remember_authentication_certificate_def remember_signature_certificate_def remember_root_certificate_def
  remember_intermediate_certificate_def

lemma engine_lawsD:
  assumes "engine_laws eng"
  shows "eng_pair_id eng (eng_forgotten eng k t) = eng_pair_id eng k" "eng_forgotten_at eng (eng_forgotten eng k t) = Some t"
    "eng_pair_id eng (snd (eng_rename eng k n)) = eng_pair_id eng k"
    "eng_forgotten_at eng (snd (eng_rename eng k n)) = eng_forgotten_at eng k"
    "eng_confirmed eng (snd (eng_rename eng k n)) = eng_confirmed eng k"
  using assms by (simp_all add: engine_laws_def)

lemma engine_laws_confirm:
  "engine_laws eng \<Longrightarrow> eng_confirm eng a k = Inr k' \<Longrightarrow>
     eng_pair_id eng k' = eng_pair_id eng k \<and> eng_confirmed eng k' \<and> eng_forgotten_at eng k' = eng_forgotten_at eng k"
  unfolding engine_laws_def by blast

lemma engine_laws_sweep:
  "engine_laws eng \<Longrightarrow> eng_sweep eng k now b = Inr (Some (e, out, k')) \<Longrightarrow>
     eng_pair_id eng k' = eng_pair_id eng k \<and> eng_confirmed eng k' = eng_confirmed eng k \<and> eng_decode eng e = Inr k' \<and>
     (out = SweepOutcome_Recorded \<and> eng_forgotten_at eng k = None \<and> eng_forgotten_at eng k' = None \<or>
      out = SweepOutcome_Expired \<and> eng_forgotten_at eng k' \<noteq> None)"
  unfolding engine_laws_def by (cases out) (blast, blast, blast)

lemma pair_id_simps [simp]:
  "pair_id eng (r\<lparr>certificates := cs\<rparr>) = pair_id eng r"
  "pair_id eng (r\<lparr>keys := Keys_Held k\<rparr>) = eng_pair_id eng k"
  "pair_id eng (r\<lparr>keys := Keys_Revoked q b n\<rparr>) = q"
  "keys r = Keys_Held k \<Longrightarrow> pair_id eng r = eng_pair_id eng k"
  "keys r = Keys_Revoked q b n \<Longrightarrow> pair_id eng r = q"
  by (simp_all add: pair_id_def)

lemma record_state_simps [simp]:
  "record_state eng (r\<lparr>certificates := cs\<rparr>) = record_state eng r"
  "record_state eng (r\<lparr>keys := Keys_Revoked q b n\<rparr>) = PairingState_Revoked b"
  "keys r = Keys_Revoked q b n \<Longrightarrow> record_state eng r = PairingState_Revoked b"
  by (simp_all add: record_state_def)

lemma record_state_held:
  "record_state eng (r\<lparr>keys := Keys_Held k\<rparr>) = (if eng_forgotten_at eng k \<noteq> None then PairingState_Forgotten
     else if eng_confirmed eng k then PairingState_Serving else PairingState_Unconfirmed)"
  "keys r = Keys_Held k \<Longrightarrow> record_state eng r = (if eng_forgotten_at eng k \<noteq> None then PairingState_Forgotten
     else if eng_confirmed eng k then PairingState_Serving else PairingState_Unconfirmed)"
  by (auto simp: record_state_def)

text \<open>The outcome of a sweep whose write succeeds.\<close>

lemma record_sweep_cases:
  assumes "engine_laws eng"
  shows "(\<exists>e. record_sweep eng now b (\<lambda>_ u. (Inr () :: StoreError + unit, u)) r () = (Inl (RecordStoreError_Encoding e), r, ())) \<or>
    record_sweep eng now b (\<lambda>_ u. (Inr () :: StoreError + unit, u)) r () = (Inr SweepOutcome_Kept, r, ()) \<or>
    (\<exists>k k'. keys r = Keys_Held k \<and> eng_pair_id eng k' = eng_pair_id eng k \<and> eng_confirmed eng k' = eng_confirmed eng k \<and>
       eng_forgotten_at eng k = None \<and> eng_forgotten_at eng k' = None \<and>
       record_sweep eng now b (\<lambda>_ u. (Inr () :: StoreError + unit, u)) r () = (Inr SweepOutcome_Recorded, r\<lparr>keys := Keys_Held k'\<rparr>, ())) \<or>
    (\<exists>k n. keys r = Keys_Held k \<and> record_sweep eng now b (\<lambda>_ u. (Inr () :: StoreError + unit, u)) r () =
       (Inr SweepOutcome_Expired, r\<lparr>keys := Keys_Revoked (pair_id eng r) False n, certificates := Certificates_NONE\<rparr>, ()))"
proof (cases "keys r")
  case (Keys_Held k)
  show ?thesis
  proof (cases "eng_sweep eng k now b")
    case (Inr plan)
    show ?thesis
    proof (cases plan)
      case (Some step)
      obtain e out k' where step: "step = (e, out, k')" by (cases step)
      from Inr Some step have "eng_sweep eng k now b = Inr (Some (e, out, k'))" by simp
      from engine_laws_sweep [OF assms this] show ?thesis
        using Keys_Held Inr Some step by (auto simp: record_sweep_def Let_def revoke_def revoked_keys_def)
    qed (simp add: record_sweep_def Keys_Held Inr)
  qed (simp add: record_sweep_def Keys_Held)
qed (simp add: record_sweep_def)

lemma record_sweep_effect:
  assumes "engine_laws eng"
  shows "pair_id eng (fst (snd (record_sweep eng now b (\<lambda>_ u. (Inr () :: StoreError + unit, u)) r ()))) = pair_id eng r"
    "stage (record_state eng r) \<le>
       stage (record_state eng (fst (snd (record_sweep eng now b (\<lambda>_ u. (Inr () :: StoreError + unit, u)) r ()))))"
  using record_sweep_cases [OF assms, of now b r]
  by (elim disjE exE conjE; simp add: record_state_held pair_id_def split: if_splits)+

lemma rename_peer_effect:
  assumes "engine_laws eng"
  shows "pair_id eng (snd (rename_peer eng name r)) = pair_id eng r"
    "record_state eng (snd (rename_peer eng name r)) = record_state eng r"
  by (cases "keys r"; simp add: rename_peer_def case_prod_beta engine_lawsD [OF assms] record_state_held)+

lemma confirm_storage_effect:
  assumes "engine_laws eng"
  shows "pair_id eng (snd (confirm_storage eng active r)) = pair_id eng r"
    "stage (record_state eng r) \<le> stage (record_state eng (snd (confirm_storage eng active r)))"
proof -
  have "pair_id eng (snd (confirm_storage eng active r)) = pair_id eng r \<and>
      stage (record_state eng r) \<le> stage (record_state eng (snd (confirm_storage eng active r)))"
  proof (cases "keys r")
    case (Keys_Held k)
    then show ?thesis
      using engine_laws_confirm [OF assms, of active k]
      by (cases "eng_confirm eng active k") (simp_all add: confirm_storage_def revoked_keys_def record_state_held)
  qed (simp add: confirm_storage_def)
  then show "pair_id eng (snd (confirm_storage eng active r)) = pair_id eng r"
    "stage (record_state eng r) \<le> stage (record_state eng (snd (confirm_storage eng active r)))" by simp_all
qed

lemma forget_effect:
  assumes "engine_laws eng"
  shows "pair_id eng (forget eng now r) = pair_id eng r"
    "stage (record_state eng r) \<le> stage (record_state eng (forget eng now r))"
    "record_state eng r = PairingState_Serving \<Longrightarrow> record_state eng (forget eng now r) = PairingState_Forgotten"
  by (cases "keys r"; simp add: forget_def engine_lawsD [OF assms] record_state_held)+

lemma revoke_effect [simp]:
  "pair_id eng (revoke eng by_peer r) = pair_id eng r" "record_state eng (revoke eng by_peer r) = PairingState_Revoked by_peer"
  "certificates (revoke eng by_peer r) = Certificates_NONE"
  by (simp_all add: revoke_def revoked_keys_def)

lemma stage_le [simp]: "stage s \<le> 3"
  by (cases s) simp_all

lemma apply_change_effect:
  assumes "engine_laws eng"
  shows "pair_id eng (apply_change eng change r) = pair_id eng r \<and>
    stage (record_state eng r) \<le> stage (record_state eng (apply_change eng change r))"
  by (cases change)
    (simp_all add: rename_peer_effect confirm_storage_effect forget_effect record_sweep_effect assms
      remember_authentication_certificate_def remember_signature_certificate_def remember_root_certificate_def
      remember_intermediate_certificate_def)




section \<open>The contract of a store\<close>

definition stored :: "('s, 'p, 'r, 'f) store_ops \<Rightarrow> 's \<Rightarrow> 'p \<rightharpoonup> 'r" where
  "stored so s = (\<lambda>p. result_ok (so_get so p s))"

definition sighted :: "('s, 'p, 'r, 'f) store_ops \<Rightarrow> 's \<Rightarrow> 'p \<rightharpoonup> 'f CardSighting" where
  "sighted so s = (\<lambda>p. so_card_sighting so p s)"

definition swept :: "('k, 'p, 'n, 'a) engine \<Rightarrow> u64 \<Rightarrow> bool \<Rightarrow> ('k, 'p, 'n, 'c) PairingRecord \<Rightarrow>
    (StoreError RecordStoreError + SweepOutcome) \<times> ('k, 'p, 'n, 'c) PairingRecord" where
  "swept eng now b r = (case record_sweep eng now b (\<lambda>_ u. (Inr (), u)) r () of (outcome, r', _) \<Rightarrow> (outcome, r'))"

text \<open>The calls that change a store.\<close>

datatype ('a, 'k, 'p, 'n, 'c, 'f) store_call =
    Insert "('k, 'p, 'n, 'c) PairingRecord" | Update 'p "('a, 'n, 'c) record_change" | Remove 'p
  | Sight 'p "'f CardSighting" | Unsight 'p | Sweep_Stored 'p u64 bool | Forget_Pairing 'p u64

fun apply_call :: "('k, 'p, 'n, 'a) engine \<Rightarrow> ('s, 'k, 'p, 'n, 'c, 'f) pairing_store_ops \<Rightarrow> ('a, 'k, 'p, 'n, 'c, 'f) store_call \<Rightarrow> 's \<Rightarrow> 's" where
  "apply_call eng so (Insert r) s = snd (so_insert so r s)"
| "apply_call eng so (Update p change) s = snd (so_update so p (apply_change eng change) s)"
| "apply_call eng so (Remove p) s = snd (so_remove so p s)"
| "apply_call eng so (Sight p sighting) s = snd (so_record_card_sighting so p sighting s)"
| "apply_call eng so (Unsight p) s = so_drop_card_sighting so p s"
| "apply_call eng so (Sweep_Stored p now b) s = snd (so_sweep so p now b s)"
| "apply_call eng so (Forget_Pairing p now) s = snd (forget_pairing eng so p now s)"

definition inserts :: "('k, 'p, 'n, 'a) engine \<Rightarrow> 'p \<Rightarrow> ('a, 'k, 'p, 'n, 'c, 'f) store_call \<Rightarrow> bool" where
  "inserts eng p call \<longleftrightarrow> (case call of Insert r \<Rightarrow> pair_id eng r = p | _ \<Rightarrow> False)"

text \<open>The pairing is gone, forgotten or revoked.\<close>

definition ended :: "('k, 'p, 'n, 'a) engine \<Rightarrow> 'p \<Rightarrow> ('p \<rightharpoonup> ('k, 'p, 'n, 'c) PairingRecord) \<Rightarrow> bool" where
  "ended eng p m \<longleftrightarrow> (case m p of None \<Rightarrow> True | Some r \<Rightarrow> 2 \<le> stage (record_state eng r))"

lemma ended_update:
  "ended eng p m \<Longrightarrow> m q = Some r \<Longrightarrow> stage (record_state eng r) \<le> stage (record_state eng r') \<Longrightarrow> ended eng p (m(q \<mapsto> r'))"
  by (auto simp: ended_def split: option.splits)

lemma ended_simps [simp]: "ended eng p m \<Longrightarrow> ended eng p (m(q := None))" "p \<noteq> q \<Longrightarrow> ended eng p (m(q := x)) = ended eng p m"
  by (auto simp: ended_def)

text \<open>
  A store in a good state is a map from pairings to records and one to sightings. \<open>good\<close> is what a store needs so
  that no operation is refused.
\<close>

locale pairing_store =
  fixes eng :: "('k, 'p, 'n, 'a) engine"
    and so :: "('s, 'k, 'p, 'n, 'c, 'f) pairing_store_ops"
    and good :: "'s \<Rightarrow> bool"
  assumes ids: "good s \<Longrightarrow> distinct (so_pair_ids so s) \<and> set (so_pair_ids so s) = dom (stored so s)"
    and own_id: "good s \<Longrightarrow> stored so s p = Some r \<Longrightarrow> pair_id eng r = p"
    and update: "good s \<Longrightarrow> stored so s p = Some r \<Longrightarrow> pair_id eng (f r) = p \<Longrightarrow>
      \<exists>s'. so_update so p f s = (Inr (), s') \<and> good s' \<and> stored so s' = (stored so s)(p \<mapsto> f r) \<and> sighted so s' = sighted so s"
    and remove: "good s \<Longrightarrow> stored so s p = Some r \<Longrightarrow>
      \<exists>s'. so_remove so p s = (Inr (), s') \<and> good s' \<and> stored so s' = (stored so s)(p := None) \<and> sighted so s' = (sighted so s)(p := None)"
    and insert: "good s \<Longrightarrow>
      \<exists>s'. so_insert so r s = (Inr (), s') \<and> good s' \<and> stored so s' = (stored so s)(pair_id eng r \<mapsto> r) \<and> sighted so s' = sighted so s"
    and sight: "good s \<Longrightarrow>
      \<exists>s'. so_record_card_sighting so p sighting s = (Inr (), s') \<and> good s' \<and> stored so s' = stored so s \<and>
        sighted so s' = (sighted so s)(p \<mapsto> sighting)"
    and unsight: "good s \<Longrightarrow> good (so_drop_card_sighting so p s) \<and> stored so (so_drop_card_sighting so p s) = stored so s \<and>
      sighted so (so_drop_card_sighting so p s) = (sighted so s)(p := None)"
    and sweep: "good s \<Longrightarrow> stored so s p = Some r \<Longrightarrow> pair_id eng (snd (swept eng now b r)) = p \<Longrightarrow>
      \<exists>s'. so_sweep so p now b s = (fst (swept eng now b r), s') \<and> good s' \<and>
        stored so s' = (stored so s)(p \<mapsto> snd (swept eng now b r)) \<and> sighted so s' = sighted so s"
    and update_unknown: "good s \<Longrightarrow> stored so s p = None \<Longrightarrow>
      \<exists>s'. so_update so p f s = (Inl StoreError_Unknown, s') \<and> good s' \<and> stored so s' = stored so s \<and> sighted so s' = sighted so s"
    and remove_unknown: "good s \<Longrightarrow> stored so s p = None \<Longrightarrow>
      \<exists>s'. so_remove so p s = (Inl StoreError_Unknown, s') \<and> good s' \<and> stored so s' = stored so s \<and> sighted so s' = sighted so s"
    and sweep_unknown: "good s \<Longrightarrow> stored so s p = None \<Longrightarrow>
      \<exists>s'. so_sweep so p now b s = (Inl (RecordStoreError_Store StoreError_Unknown), s') \<and> good s' \<and> stored so s' = stored so s \<and>
        sighted so s' = sighted so s"
begin

lemma get_eq: "so_get so p s = Inr r \<longleftrightarrow> stored so s p = Some r"
  by (cases "so_get so p s") (simp_all add: stored_def)

lemma get_error: "(\<exists>e. so_get so p s = Inl e) \<longleftrightarrow> stored so s p = None"
  by (cases "so_get so p s") (simp_all add: stored_def)

lemma get_holds: "(case so_get so p s of Inl _ \<Rightarrow> False | Inr r \<Rightarrow> P r) \<longleftrightarrow> (\<exists>r. stored so s p = Some r \<and> P r)"
  by (cases "so_get so p s") (simp_all add: stored_def)

text \<open>Changing some of the pairings, one after another.\<close>

lemma each_update:
  assumes "good s" "distinct ps" "set ps \<subseteq> dom (stored so s)" "\<And>r. pair_id eng (f r) = pair_id eng r"
  shows "good (each (\<lambda>p. so_update so p f) ps s) \<and>
    stored so (each (\<lambda>p. so_update so p f) ps s) =
      (\<lambda>p. if p \<in> set ps then map_option f (stored so s p) else stored so s p) \<and>
    sighted so (each (\<lambda>p. so_update so p f) ps s) = sighted so s"
  using assms(1-3)
proof (induction ps arbitrary: s)
  case (Cons q ps)
  then obtain r where r: "stored so s q = Some r" by auto
  obtain s' where s': "so_update so q f s = (Inr (), s')" "good s'" "stored so s' = (stored so s)(q \<mapsto> f r)" "sighted so s' = sighted so s"
    using update [OF Cons.prems(1) r, of f] own_id [OF Cons.prems(1) r] assms(4) by auto
  have "set ps \<subseteq> dom (stored so s')" using Cons.prems(3) s'(3) by auto
  from Cons.IH [OF s'(2) _ this] Cons.prems(2) show ?case by (auto simp: each_def s' r fun_eq_iff)
qed (auto simp: each_def)

lemma each_remove:
  assumes "good s" "distinct ps" "set ps \<subseteq> dom (stored so s)"
  shows "good (each (so_remove so) ps s) \<and> stored so (each (so_remove so) ps s) = (stored so s) |` (- set ps) \<and>
    sighted so (each (so_remove so) ps s) = (sighted so s) |` (- set ps)"
  using assms
proof (induction ps arbitrary: s)
  case (Cons q ps)
  then obtain r where r: "stored so s q = Some r" by auto
  obtain s' where s': "so_remove so q s = (Inr (), s')" "good s'" "stored so s' = (stored so s)(q := None)"
      "sighted so s' = (sighted so s)(q := None)"
    using remove [OF Cons.prems(1) r] by auto
  have "set ps \<subseteq> dom (stored so s')" using Cons.prems(2,3) s'(3) by auto
  from Cons.IH [OF s'(2) _ this] Cons.prems(2) show ?case by (auto simp: each_def s' r fun_eq_iff restrict_map_def)
qed (simp add: each_def restrict_map_def)

lemma remove_unconfirmed_spec:
  assumes "good s"
  shows "good (snd (remove_unconfirmed eng so s)) \<and>
    set (fst (remove_unconfirmed eng so s)) = {p. \<exists>r. stored so s p = Some r \<and> record_state eng r = PairingState_Unconfirmed} \<and>
    stored so (snd (remove_unconfirmed eng so s)) =
      (\<lambda>p. case stored so s p of None \<Rightarrow> None | Some r \<Rightarrow> if record_state eng r = PairingState_Unconfirmed then None else Some r)"
proof -
  define ps where "ps = filter (\<lambda>p. case so_get so p s of Inl _ \<Rightarrow> False
    | Inr r \<Rightarrow> record_state eng r = PairingState_Unconfirmed) (so_pair_ids so s)"
  then have run: "remove_unconfirmed eng so s = (ps, each (so_remove so) ps s)" by (simp add: remove_unconfirmed_def Let_def)
  have set: "set ps = {p. \<exists>r. stored so s p = Some r \<and> record_state eng r = PairingState_Unconfirmed}"
    using ids [OF assms] by (auto simp: ps_def get_holds)
  moreover have "distinct ps" using ids [OF assms] by (simp add: ps_def)
  moreover have "set ps \<subseteq> dom (stored so s)" using set by auto
  ultimately show ?thesis using each_remove [OF assms, of ps]
    by (auto simp: run restrict_map_def fun_eq_iff split: option.splits)
qed

lemma expire_revocation_notices_spec:
  assumes "good s"
  shows "good (snd (expire_revocation_notices eng so now s)) \<and>
    stored so (snd (expire_revocation_notices eng so now s)) =
      (\<lambda>p. case stored so s p of None \<Rightarrow> None | Some r \<Rightarrow>
         Some (case pair_record r of Some k \<Rightarrow> if eng_notice_expired eng k now then revoke eng False r else r | None \<Rightarrow> r))"
proof -
  define ps where "ps = filter (\<lambda>p. case so_get so p s of Inl _ \<Rightarrow> False
    | Inr r \<Rightarrow> (case pair_record r of None \<Rightarrow> False | Some k \<Rightarrow> eng_notice_expired eng k now)) (so_pair_ids so s)"
  then have run: "expire_revocation_notices eng so now s = (ps, each (\<lambda>p. so_update so p (revoke eng False)) ps s)"
    by (simp add: expire_revocation_notices_def revoke_pairing_def Let_def)
  have set: "set ps = {p. \<exists>r k. stored so s p = Some r \<and> pair_record r = Some k \<and> eng_notice_expired eng k now}"
    using ids [OF assms] by (auto simp: ps_def get_holds split: option.splits)
  moreover have "distinct ps" using ids [OF assms] by (simp add: ps_def)
  moreover have "set ps \<subseteq> dom (stored so s)" using set by auto
  ultimately show ?thesis using each_update [OF assms, of ps "revoke eng False"]
    by (auto simp: run fun_eq_iff split: option.splits)
qed

lemma sweep_fold:
  assumes "engine_laws eng" "good s" "distinct ps" "set ps \<subseteq> dom (stored so s)"
  shows "\<exists>expired s'. fold (sweep_one so now in_session) ps (done, s) = (done @ expired, s') \<and> good s' \<and>
    set expired = {p \<in> set ps. \<exists>r. stored so s p = Some r \<and> fst (swept eng now (in_session p) r) = Inr SweepOutcome_Expired} \<and>
    stored so s' = (\<lambda>p. if p \<in> set ps then map_option (\<lambda>r. snd (swept eng now (in_session p) r)) (stored so s p) else stored so s p) \<and>
    sighted so s' = sighted so s"
  using assms(2-4)
proof (induction ps arbitrary: s "done")
  case (Cons q ps)
  then obtain r where r: "stored so s q = Some r" by auto
  let ?o = "fst (swept eng now (in_session q) r)" and ?r = "snd (swept eng now (in_session q) r)"
  have "pair_id eng ?r = q"
    using own_id [OF Cons.prems(1) r] by (simp add: swept_def case_prod_beta record_sweep_effect(1) [OF assms(1)])
  from sweep [OF Cons.prems(1) r this] obtain s' where
    s': "so_sweep so q now (in_session q) s = (?o, s')" "good s'" "stored so s' = (stored so s)(q \<mapsto> ?r)" "sighted so s' = sighted so s"
    by blast
  let ?done = "if ?o = Inr SweepOutcome_Expired then done @ [q] else done"
  have "set ps \<subseteq> dom (stored so s')" using Cons.prems(3) s'(3) by auto
  from Cons.IH [OF s'(2) _ this, of ?done] Cons.prems(2) obtain expired s'' where
    rest: "fold (sweep_one so now in_session) ps (?done, s') = (?done @ expired, s'')" "good s''"
      "set expired = {p \<in> set ps. \<exists>r. stored so s' p = Some r \<and> fst (swept eng now (in_session p) r) = Inr SweepOutcome_Expired}"
      "stored so s'' = (\<lambda>p. if p \<in> set ps then map_option (\<lambda>r. snd (swept eng now (in_session p) r)) (stored so s' p) else stored so s' p)"
      "sighted so s'' = sighted so s'"
    by auto
  have "sweep_one so now in_session q (done, s) = (?done, s')" by (simp add: sweep_one_def s')
  then have "fold (sweep_one so now in_session) (q # ps) (done, s) = (done @ ((if ?o = Inr SweepOutcome_Expired then [q] else []) @ expired), s'')"
    using rest(1) by simp
  moreover have "set ((if ?o = Inr SweepOutcome_Expired then [q] else []) @ expired) =
      {p \<in> set (q # ps). \<exists>r. stored so s p = Some r \<and> fst (swept eng now (in_session p) r) = Inr SweepOutcome_Expired}"
    using rest(3) Cons.prems(2) r s'(3) by auto
  moreover have "stored so s'' = (\<lambda>p. if p \<in> set (q # ps)
      then map_option (\<lambda>r. snd (swept eng now (in_session p) r)) (stored so s p) else stored so s p)"
    using rest(4) Cons.prems(2) r s'(3) by (auto simp: fun_eq_iff)
  ultimately show ?case using rest(2,5) s'(4) by metis
qed simp

lemma sweep_pairings_spec:
  assumes "engine_laws eng" "good s"
  shows "\<exists>expired s'. sweep_pairings so now in_session s = (expired, s') \<and> good s' \<and>
    set expired = {p. \<exists>r. stored so s p = Some r \<and> fst (swept eng now (in_session p) r) = Inr SweepOutcome_Expired} \<and>
    stored so s' = (\<lambda>p. map_option (\<lambda>r. snd (swept eng now (in_session p) r)) (stored so s p))"
proof -
  have ids': "distinct (so_pair_ids so s)" "set (so_pair_ids so s) = dom (stored so s)" using ids [OF assms(2)] by simp_all
  obtain expired s' where run: "fold (sweep_one so now in_session) (so_pair_ids so s) ([], s) = ([] @ expired, s')" "good s'"
      "set expired = {p \<in> set (so_pair_ids so s). \<exists>r. stored so s p = Some r \<and> fst (swept eng now (in_session p) r) = Inr SweepOutcome_Expired}"
      "stored so s' = (\<lambda>p. if p \<in> set (so_pair_ids so s)
         then map_option (\<lambda>r. snd (swept eng now (in_session p) r)) (stored so s p) else stored so s p)"
    using sweep_fold [OF assms ids'(1), of now in_session "[]"] ids'(2) by blast
  have "stored so s' = (\<lambda>p. map_option (\<lambda>r. snd (swept eng now (in_session p) r)) (stored so s p))"
    using run(4) by (auto simp: ids'(2) fun_eq_iff dom_def)
  then show ?thesis using run(1-3) by (auto simp: sweep_pairings_def ids'(2))
qed

lemma forget_pairing_spec:
  assumes "engine_laws eng" "good s"
  shows "\<exists>s'. forget_pairing eng so p now s = ((if stored so s p = None then Inl (case so_get so p s of Inl e \<Rightarrow> e) else Inr ()), s') \<and> good s' \<and>
    stored so s' = (case stored so s p of
        None \<Rightarrow> stored so s
      | Some r \<Rightarrow> (case record_state eng r of
          PairingState_Serving \<Rightarrow> (stored so s)(p \<mapsto> forget eng now r)
        | PairingState_Forgotten \<Rightarrow> stored so s
        | _ \<Rightarrow> (stored so s)(p := None)))"
proof (cases "stored so s p")
  case None
  then show ?thesis using get_error [of p s] assms(2) by (auto simp: forget_pairing_def)
next
  case (Some r)
  have "pair_id eng (forget eng now r) = p" using own_id [OF assms(2) Some] by (simp add: forget_effect(1) [OF assms(1)])
  from update [OF assms(2) Some, of "forget eng now", OF this] remove [OF assms(2) Some] show ?thesis
    using Some assms(2) by (cases "record_state eng r") (auto simp: forget_pairing_def get_eq [THEN iffD2])
qed

lemma call_update:
  assumes "engine_laws eng" "good s"
  shows "good (snd (so_update so q (apply_change eng change) s)) \<and>
    (ended eng p (stored so s) \<longrightarrow> ended eng p (stored so (snd (so_update so q (apply_change eng change) s))))"
proof (cases "stored so s q")
  case None
  then show ?thesis using update_unknown [OF assms(2) None, of "apply_change eng change"] by auto
next
  case (Some r)
  have eff: "pair_id eng (apply_change eng change r) = q" "stage (record_state eng r) \<le> stage (record_state eng (apply_change eng change r))"
    using own_id [OF assms(2) Some] by (simp_all add: apply_change_effect [OF assms(1)])
  from update [OF assms(2) Some, of "apply_change eng change", OF eff(1)] show ?thesis
    by (auto intro: ended_update [of _ _ "stored so s", OF _ Some eff(2)])
qed

lemma call_sweep:
  assumes "engine_laws eng" "good s"
  shows "good (snd (so_sweep so q now b s)) \<and> (ended eng p (stored so s) \<longrightarrow> ended eng p (stored so (snd (so_sweep so q now b s))))"
proof (cases "stored so s q")
  case None
  then show ?thesis using sweep_unknown [OF assms(2) None, of now b] by auto
next
  case (Some r)
  have eff: "pair_id eng (snd (swept eng now b r)) = q" "stage (record_state eng r) \<le> stage (record_state eng (snd (swept eng now b r)))"
    using own_id [OF assms(2) Some] by (simp_all add: swept_def case_prod_beta record_sweep_effect [OF assms(1)])
  from sweep [OF assms(2) Some eff(1)] show ?thesis
    by (auto intro: ended_update [of _ _ "stored so s", OF _ Some eff(2)])
qed

lemma call_forget:
  assumes "engine_laws eng" "good s"
  shows "good (snd (forget_pairing eng so q now s)) \<and>
    (ended eng p (stored so s) \<longrightarrow> ended eng p (stored so (snd (forget_pairing eng so q now s)))) \<and>
    ended eng q (stored so (snd (forget_pairing eng so q now s)))"
proof -
  define s' where "s' = snd (forget_pairing eng so q now s)"
  have s': "good s'" "stored so s' = (case stored so s q of None \<Rightarrow> stored so s | Some r \<Rightarrow> (case record_state eng r of
          PairingState_Serving \<Rightarrow> (stored so s)(q \<mapsto> forget eng now r) | PairingState_Forgotten \<Rightarrow> stored so s
        | _ \<Rightarrow> (stored so s)(q := None)))"
    using forget_pairing_spec [OF assms, of q now] by (auto simp: s'_def)
  show ?thesis
  proof (cases "stored so s q")
    case (Some r)
    show ?thesis
    proof (cases "record_state eng r")
      case PairingState_Serving
      have "stage (record_state eng r) \<le> stage (record_state eng (forget eng now r))" "record_state eng (forget eng now r) = PairingState_Forgotten"
        using forget_effect [OF assms(1)] PairingState_Serving by blast+
      then show ?thesis using s' Some PairingState_Serving ended_update [of eng p "stored so s", OF _ Some]
        by (simp add: s'_def [symmetric]) (simp add: ended_def)
    qed (use s' Some in \<open>simp_all add: s'_def [symmetric]\<close>, simp_all add: ended_def)
  qed (use s' in \<open>simp add: ended_def s'_def [symmetric]\<close>)
qed

lemma call_good_ended:
  assumes "engine_laws eng" "good s"
  shows "good (apply_call eng so call s) \<and>
    (\<not> inserts eng p call \<longrightarrow> ended eng p (stored so s) \<longrightarrow> ended eng p (stored so (apply_call eng so call s)))"
proof (cases call)
  case (Insert r)
  then show ?thesis using insert [OF assms(2), of r] by (auto simp: inserts_def)
next
  case (Remove q)
  show ?thesis
  proof (cases "stored so s q")
    case None
    then show ?thesis using Remove remove_unknown [OF assms(2) None] by auto
  next
    case (Some r)
    then show ?thesis using Remove remove [OF assms(2) Some] by auto
  qed
next
  case (Sight q sighting)
  then show ?thesis using sight [OF assms(2), of q sighting] by auto
next
  case (Unsight q)
  then show ?thesis using unsight [OF assms(2), of q] by simp
qed (use call_update [OF assms] call_sweep [OF assms] call_forget [OF assms] in simp_all)

lemma calls_good_ended:
  assumes "engine_laws eng" "good s" "ended eng p (stored so s)" "list_all (\<lambda>c. \<not> inserts eng p c) calls"
  shows "good (fold (apply_call eng so) calls s) \<and> ended eng p (stored so (fold (apply_call eng so) calls s))"
  using assms(2-4)
proof (induction calls arbitrary: s)
  case (Cons call calls)
  then show ?case using call_good_ended [OF assms(1) Cons.prems(1), of call p] by simp
qed simp

lemma ended_not_offered: "ended eng p (stored so s) \<Longrightarrow> offered_certificate eng grace of_certificate so s p now = None"
  by (cases "so_get so p s") (auto simp: ended_def stored_def offered_certificate_def serves_def)

end


section \<open>The store in memory keeps the contract\<close>

definition mem_good :: "('k, 'p, 'n, 'a) engine \<Rightarrow> ('k, 'p, 'n, 'c, 'f) MemoryPairingStore \<Rightarrow> bool" where
  "mem_good eng s \<longleftrightarrow> distinct (map (pair_id eng) (mem_records s))"

definition by_id :: "('k, 'p, 'n, 'a) engine \<Rightarrow> ('k, 'p, 'n, 'c) PairingRecord list \<Rightarrow> 'p \<rightharpoonup> ('k, 'p, 'n, 'c) PairingRecord" where
  "by_id eng rs = (\<lambda>p. find (\<lambda>r. pair_id eng r = p) rs)"

lemma by_id_simps [simp]:
  "by_id eng [] = Map.empty" "by_id eng (r # rs) = (by_id eng rs)(pair_id eng r \<mapsto> r)"
  by (auto simp: by_id_def fun_eq_iff)

lemma by_id_append [simp]: "by_id eng (rs @ rs') = by_id eng rs' ++ by_id eng rs"
  by (induction rs) (simp_all add: map_add_def fun_eq_iff)

lemma by_id_Some: "by_id eng rs p = Some r \<Longrightarrow> r \<in> set rs \<and> pair_id eng r = p"
  by (induction rs) (auto split: if_splits)

lemma by_id_None: "by_id eng rs p = None \<longleftrightarrow> (\<forall>r\<in>set rs. pair_id eng r \<noteq> p)"
  by (induction rs) auto

lemma dom_by_id: "dom (by_id eng rs) = pair_id eng ` set rs"
proof -
  have "p \<in> dom (by_id eng rs) \<longleftrightarrow> p \<in> pair_id eng ` set rs" for p
    unfolding domIff by_id_None by blast
  then show ?thesis by blast
qed

lemma by_id_filter: "by_id eng (filter (\<lambda>r. pair_id eng r \<noteq> p) rs) = (by_id eng rs)(p := None)"
  by (induction rs) (auto simp: fun_eq_iff)

lemma records_get_by_id: "result_ok (records_get eng p rs) = by_id eng rs p"
  by (cases "by_id eng rs p") (simp_all add: records_get_def by_id_def)

lemma records_update_spec:
  assumes "distinct (map (pair_id eng) rs)"
  shows "by_id eng rs p = None \<Longrightarrow> records_update eng p f rs = Inl StoreError_Unknown"
    "by_id eng rs p = Some r \<Longrightarrow> pair_id eng (f r) = p \<Longrightarrow>
      \<exists>rs'. records_update eng p f rs = Inr rs' \<and> map (pair_id eng) rs' = map (pair_id eng) rs \<and> by_id eng rs' = (by_id eng rs)(p \<mapsto> f r)"
  using assms by (induction rs) (auto simp: fun_eq_iff split: if_splits)

lemma records_remove_spec:
  "records_remove eng p rs = (if by_id eng rs p = None then Inl StoreError_Unknown else Inr (filter (\<lambda>r. pair_id eng r \<noteq> p) rs))"
proof -
  have "length (filter (\<lambda>r. pair_id eng r \<noteq> p) rs) = length rs \<longleftrightarrow> (\<forall>r\<in>set rs. pair_id eng r \<noteq> p)"
    by (metis (mono_tags, lifting) filter_True length_filter_less less_irrefl)
  also have "\<dots> \<longleftrightarrow> by_id eng rs p = None" by (simp add: by_id_None)
  finally show ?thesis by (simp add: records_remove_def Let_def)
qed

lemma map_of_sightings_without [simp]: "map_of (sightings_without p xs) = (map_of xs)(p := None)"
  by (induction xs) (auto simp: sightings_without_def fun_eq_iff)

lemma stored_memory [simp]: "stored (memory_store eng) s = by_id eng (mem_records s)"
  by (simp add: stored_def memory_store_def records_get_by_id)

lemma sighted_memory [simp]: "sighted (memory_store eng) s = map_of (mem_sightings s)"
  by (simp add: sighted_def memory_store_def)


lemma memory_store_simps [simp]:
  "so_insert (memory_store eng) = Memory_insert eng" "so_update (memory_store eng) = Memory_update eng"
  "so_remove (memory_store eng) = Memory_remove eng" "so_sweep (memory_store eng) = Memory_sweep eng"
  "so_pair_ids (memory_store eng) s = rev (map (pair_id eng) (mem_records s))"
  "so_record_card_sighting (memory_store eng) = Memory_record_card_sighting"
  "so_drop_card_sighting (memory_store eng) p s = s\<lparr>mem_sightings := sightings_without p (mem_sightings s)\<rparr>"
  by (simp_all add: memory_store_def rev_map)

lemma memory_sweep_spec:
  assumes "mem_good eng s" "by_id eng (mem_records s) p = Some r" "pair_id eng (snd (swept eng now b r)) = p"
  shows "\<exists>s'. Memory_sweep eng p now b s = (fst (swept eng now b r), s') \<and> mem_good eng s' \<and>
    by_id eng (mem_records s') = (by_id eng (mem_records s))(p \<mapsto> snd (swept eng now b r)) \<and> mem_sightings s' = mem_sightings s"
proof -
  have "records_get eng p (mem_records s) = Inr r"
    using assms(2) by (simp add: records_get_def by_id_def)
  moreover obtain rs' where "records_update eng p (\<lambda>_. snd (swept eng now b r)) (mem_records s) = Inr rs'"
      "map (pair_id eng) rs' = map (pair_id eng) (mem_records s)"
      "by_id eng rs' = (by_id eng (mem_records s))(p \<mapsto> snd (swept eng now b r))"
    using records_update_spec(2) [of eng "mem_records s" p r "\<lambda>_. snd (swept eng now b r)"] assms by (auto simp: mem_good_def)
  ultimately show ?thesis using assms(1)
    by (auto simp: Memory_sweep_def Memory_update_def mem_good_def swept_def case_prod_beta)
qed

interpretation memory: pairing_store eng "memory_store eng" "mem_good eng" for eng
proof (unfold_locales, goal_cases)
  case (1 s)
  then show ?case by (simp add: mem_good_def dom_by_id)
next
  case (2 s p r)
  then show ?case by (simp add: by_id_Some)
next
  case (3 s p r f)
  then show ?case
    using records_update_spec(2) [of eng "mem_records s" p r f]
    by (auto simp: mem_good_def Memory_update_def)
next
  case (4 s p r)
  then show ?case
    by (auto simp: mem_good_def Memory_remove_def records_remove_spec by_id_filter
        distinct_map_filter)
next
  case (5 s r)
  then show ?case
    by (auto simp: mem_good_def Memory_insert_def records_insert_def by_id_filter distinct_map_filter
        fun_eq_iff map_add_def split: option.split)
next
  case (6 s p sighting)
  then show ?case
    by (auto simp: mem_good_def Memory_record_card_sighting_def fun_eq_iff map_add_def split: option.split)
next
  case (7 s p)
  then show ?case by (simp add: mem_good_def)
next
  case (8 s p r now b)
  then show ?case using memory_sweep_spec [of eng s p r now b] by auto
next
  case (9 s p f)
  then show ?case
    using records_update_spec(1) [of eng "mem_records s" p f] by (auto simp: mem_good_def Memory_update_def)
next
  case (10 s p)
  then show ?case by (auto simp: Memory_remove_def records_remove_spec)
next
  case (11 s p now b)
  then show ?case
    by (auto simp: Memory_sweep_def records_get_def by_id_def)
qed


section \<open>Properties\<close>


text \<open>
  (C27) When the user forgets a pairing its identity is withdrawn at once and for good: after \<open>forget_pairing\<close> no sequence of
  calls on the store, short of storing a new record under the same pairing, makes \<open>offered_certificate\<close> offer a
  certificate for it again, at any time and whatever cards are heard.
\<close>

theorem forgotten_identity_not_offered:
  assumes "engine_laws eng" "mem_good eng s" "list_all (\<lambda>c. \<not> inserts eng p c) calls"
  shows "offered_certificate eng grace of_certificate (memory_store eng)
    (fold (apply_call eng (memory_store eng)) calls (snd (forget_pairing eng (memory_store eng) p now s))) p later = None"
proof -
  have "mem_good eng (snd (forget_pairing eng (memory_store eng) p now s))"
    "ended eng p (stored (memory_store eng) (snd (forget_pairing eng (memory_store eng) p now s)))"
    using memory.call_forget [OF assms(1,2)] by blast+
  from memory.calls_good_ended [OF assms(1) this assms(3)] show ?thesis
    by (intro memory.ended_not_offered) blast
qed

text \<open>
  An offer stands only within the grace around the sighting, on both sides: a clock that is set back stretches it by less
  than one grace, and once the moment \<open>offer_lapses_at_ms\<close> names has come nothing is offered on that sighting.
\<close>

theorem sighting_bounds_offer:
  assumes "stands_for grace of_certificate s c now"
  shows "unat now < unat (at_ms s) + unat grace \<and> unat (at_ms s) < unat now + unat grace \<and>
    (unat (at_ms s) + unat grace < 2 ^ 64 \<longrightarrow> now < offer_lapses_at_ms grace s)"
proof -
  have b: "saturating_sub now (at_ms s) < grace" "saturating_sub (at_ms s) now < grace"
    using assms by (simp_all add: stands_for_def Let_def)
  then have g: "0 < grace" by (metis word_gt_0 word_not_simps(1))
  have bounds: "unat now < unat (at_ms s) + unat grace" "unat (at_ms s) < unat now + unat grace"
    using b by (simp_all add: saturating_sub_less [OF g])
  then show ?thesis
    by (simp add: offer_lapses_at_ms_def saturating_add_def word_less_nat_alt word_le_nat_alt unat_word_ariths)
qed

text \<open>
  A sweep that the store refuses changes nothing: the record is as it was, and the check can be repeated.
\<close>

theorem refused_sweep_changes_nothing:
  assumes "fst (record_sweep eng now b store r s) = Inl e"
  shows "fst (snd (record_sweep eng now b store r s)) = r"
  using assms
  by (auto simp: record_sweep_def Let_def split: Keys.splits sum.splits option.splits prod.splits)



section \<open>An engine for the witnesses\<close>

text \<open>The pair identifier is one byte and there is one display name; a pairing expires at 1000 ms without a session.\<close>

record example_keys =
  ek_id :: u8
  ek_confirmed :: bool
  ek_forgotten :: "u64 option"

definition ek_encode :: "example_keys \<Rightarrow> bytes" where
  "ek_encode k = [ek_id k, if ek_confirmed k then 1 else 0] @ (case ek_forgotten k of None \<Rightarrow> [] | Some t \<Rightarrow> u64_to_be_bytes t)"

definition ek_decode :: "bytes \<Rightarrow> PairRecordCodecError + example_keys" where
  "ek_decode bs = (case bs of
     i # c # rest \<Rightarrow> Inr \<lparr>ek_id = i, ek_confirmed = (c = 1), ek_forgotten = (if rest = [] then None else Some (u64_from_be_bytes rest))\<rparr>
   | _ \<Rightarrow> Inl (PairRecordCodecError_Other 0))"

definition ek_sweep :: "example_keys \<Rightarrow> u64 \<Rightarrow> bool \<Rightarrow> PairRecordCodecError + (bytes \<times> SweepOutcome \<times> example_keys) option" where
  "ek_sweep k now in_session =
     (if ek_forgotten k \<noteq> None then Inr None
      else if in_session then Inr (Some (ek_encode k, SweepOutcome_Recorded, k))
      else if now < 1000 then Inr None
      else let k' = k\<lparr>ek_forgotten := Some now\<rparr> in Inr (Some (ek_encode k', SweepOutcome_Expired, k')))"

definition example_engine :: "(example_keys, bytes, unit, unit) engine" where
  "example_engine =
     \<lparr>eng_pair_id = (\<lambda>k. [ek_id k]), eng_display_name = (\<lambda>_. ()), eng_forgotten_at = ek_forgotten, eng_confirmed = ek_confirmed,
      eng_forgotten = (\<lambda>k t. k\<lparr>ek_forgotten := Some t\<rparr>), eng_rename = (\<lambda>k n. (Some False, k)),
      eng_confirm = (\<lambda>_ k. Inr (k\<lparr>ek_confirmed := True\<rparr>)),
      eng_notice_expired = (\<lambda>k now. case ek_forgotten k of None \<Rightarrow> False | Some t \<Rightarrow> 10 \<le> saturating_sub now t),
      eng_sweep = ek_sweep, eng_encode = (\<lambda>k. Inr (ek_encode k)), eng_decode = ek_decode, eng_requester = (\<lambda>_. True)\<rparr>"

lemma ek_roundtrip: "ek_decode (ek_encode k) = Inr k"
proof (cases "ek_forgotten k")
  case (Some t)
  then show ?thesis using length_u64_to_be_bytes [of t]
    by (cases "u64_to_be_bytes t = []") (simp_all add: ek_encode_def ek_decode_def)
qed (simp add: ek_encode_def ek_decode_def)

lemma example_engine_laws: "engine_laws example_engine"
  by (auto simp: engine_laws_def example_engine_def ek_sweep_def ek_roundtrip Let_def split: option.splits if_splits)

definition example_pairing :: "(example_keys, bytes, unit, bytes) PairingRecord" where
  "example_pairing = remember_authentication_certificate [7]
     (PairingRecord_new \<lparr>ek_id = 1, ek_confirmed = True, ek_forgotten = None\<rparr> [])"

definition example_memory :: "(example_keys, bytes, unit, bytes, bytes) MemoryPairingStore" where
  "example_memory = \<lparr>mem_records = [example_pairing], mem_sightings = [([1], \<lparr>sighted_fingerprint = [7], at_ms = 100\<rparr>)]\<rparr>"

lemmas example_store_defs = example_pairing_def example_memory_def PairingRecord_new_def remember_authentication_certificate_def
  Certificates_NONE_def example_engine_def


theorem forgotten_identity_not_offered_witness:
  "offered_certificate example_engine 50 id (memory_store example_engine) example_memory [1] 120 = Some [7] \<and>
   offered_certificate example_engine 50 id (memory_store example_engine)
     (fold (apply_call example_engine (memory_store example_engine)) [Update [1] (Confirm ()), Sight [1] \<lparr>sighted_fingerprint = [7], at_ms = 130\<rparr>]
        (snd (forget_pairing example_engine (memory_store example_engine) [1] 120 example_memory))) [1] 140 = None"
proof
  show "offered_certificate example_engine 50 id (memory_store example_engine) example_memory [1] 120 = Some [7]"
    by (simp add: offered_certificate_def memory_store_def records_get_def example_store_defs serves_def record_state_def
        pair_id_def stands_for_def saturating_sub_def)
  show "offered_certificate example_engine 50 id (memory_store example_engine)
     (fold (apply_call example_engine (memory_store example_engine)) [Update [1] (Confirm ()), Sight [1] \<lparr>sighted_fingerprint = [7], at_ms = 130\<rparr>]
        (snd (forget_pairing example_engine (memory_store example_engine) [1] 120 example_memory))) [1] 140 = None"
    by (rule forgotten_identity_not_offered [OF example_engine_laws]) (simp_all add: mem_good_def example_memory_def inserts_def)
qed

theorem sighting_bounds_offer_witness:
  "unat (120 :: u64) < unat (100 :: u64) + unat (50 :: u64)"
  using sighting_bounds_offer [of 50 id "\<lparr>sighted_fingerprint = 7 :: nat, at_ms = 100\<rparr>" 7 120]
  by (simp add: stands_for_def saturating_sub_def)

theorem refused_sweep_changes_nothing_witness:
  "fst (snd (record_sweep example_engine 2000 False (\<lambda>_ u. (Inl StoreError_WriteRefused, u)) example_pairing ())) = example_pairing"
  by (rule refused_sweep_changes_nothing [where e = "RecordStoreError_Store StoreError_WriteRefused"])
    (simp add: record_sweep_def example_store_defs ek_sweep_def Let_def ek_roundtrip)

end
