(* ===== verification/Rapp_Codec.thy ===== *)
theory Rapp_Codec
  imports Rapp_Store Token_Info
begin

text \<open>
  The bytes of stored pairings (\<open>refineid-rapp-core\<close>, \<open>persistence.rs\<close>) and of card sightings (\<open>presence.rs\<close>). A pair
  identifier is its bytes, \<open>pid_len\<close> of them, and a fingerprint is \<open>fp_len\<close> bytes; both sizes are constants of the
  crate \<open>refineid_rapp\<close>. The display names of that crate and the certificates, which are parsed where they are read, are
  the parameter \<open>bd\<close>. Development-build reports are left out.

  \<open>reads m bs v\<close> says that a reader takes exactly the bytes \<open>bs\<close>, yields \<open>v\<close>, and finds every shorter input truncated; it is
  the interface through which the record and the set are judged.
\<close>

section \<open>The code\<close>

definition PAIRING_BLOB_MAGIC :: bytes where
  "PAIRING_BLOB_MAGIC = [0x52, 0x41, 0x50, 0x50, 0x2D, 0x70, 0x61, 0x69, 0x72, 0x2D, 0x72, 0x65, 0x63, 0x6F, 0x72, 0x64]"
definition PAIRING_BLOB_VERSION :: u8 where "PAIRING_BLOB_VERSION = 9"
definition LAST_EARLIER_PROTOCOL_BLOB_VERSION :: u8 where "LAST_EARLIER_PROTOCOL_BLOB_VERSION = 8"
definition FIRST_BLOB_VERSION :: u8 where "FIRST_BLOB_VERSION = 1"
definition PAIRING_SET_MAGIC :: bytes where
  "PAIRING_SET_MAGIC = [0x52, 0x41, 0x50, 0x50, 0x2D, 0x70, 0x61, 0x69, 0x72, 0x2D, 0x73, 0x65, 0x74]"
definition PAIRING_SET_VERSION :: u8 where "PAIRING_SET_VERSION = 1"
definition KEYS_HELD :: u8 where "KEYS_HELD = 0"
definition KEYS_REVOKED :: u8 where "KEYS_REVOKED = 1"
definition BOOLEAN_FALSE :: u8 where "BOOLEAN_FALSE = 0"
definition BOOLEAN_TRUE :: u8 where "BOOLEAN_TRUE = 1"
definition LENGTH_BYTES :: nat where "LENGTH_BYTES = 4"

datatype PairingCodecError =
    PairingCodecError_BadMagic | PairingCodecError_EarlierProtocol u8 | PairingCodecError_UnsupportedVersion u8
  | PairingCodecError_Truncated | PairingCodecError_TrailingBytes | PairingCodecError_InvalidKeys | PairingCodecError_InvalidBoolean
  | PairingCodecError_InvalidText | PairingCodecError_InvalidDisplayName | PairingCodecError_Oversized
  | PairingCodecError_PairRecord PairRecordCodecError | PairingCodecError_NotRequester | PairingCodecError_InvalidCertificate

record ('n, 'c) borders =
  name_parse :: "bytes \<Rightarrow> 'n option"
  name_as_str :: "'n \<Rightarrow> bytes"
  cert_from_der :: "bytes \<Rightarrow> 'c option"
  cert_as_der :: "'c \<Rightarrow> bytes"

type_synonym ('k, 'n, 'c) stored_record = "('k, bytes, 'n, 'c) PairingRecord"


subsection \<open>Writing\<close>

definition boolean_tag :: "bool \<Rightarrow> u8" where
  "boolean_tag value = (if value then BOOLEAN_TRUE else BOOLEAN_FALSE)"

definition boolean_from_tag :: "u8 \<Rightarrow> PairingCodecError + bool" where
  "boolean_from_tag tag =
     (if tag = BOOLEAN_FALSE then Inr False else if tag = BOOLEAN_TRUE then Inr True else Inl PairingCodecError_InvalidBoolean)"

definition put_length :: "nat \<Rightarrow> PairingCodecError + bytes" where
  "put_length n = (if n < 2 ^ 32 then Inr (u32_to_be_bytes (of_nat n)) else Inl PairingCodecError_Oversized)"

definition put_bytes :: "bytes \<Rightarrow> PairingCodecError + bytes" where
  "put_bytes bs = bindR (put_length (length bs)) (\<lambda>l. Inr (l @ bs))"

definition put_optional_certificate :: "('n, 'c) borders \<Rightarrow> 'c option \<Rightarrow> PairingCodecError + bytes" where
  "put_optional_certificate bd certificate =
     (case certificate of
        Some c \<Rightarrow> bindR (put_bytes (cert_as_der bd c)) (\<lambda>b. Inr (BOOLEAN_TRUE # b))
      | None \<Rightarrow> Inr [BOOLEAN_FALSE])"

definition encode_keys :: "('k, bytes, 'n, 'a) engine \<Rightarrow> ('n, 'c) borders \<Rightarrow> ('k, 'n, 'c) stored_record \<Rightarrow> PairingCodecError + bytes" where
  "encode_keys eng bd r =
     (case pair_record r of
        Some held \<Rightarrow> bindR (map_err PairingCodecError_PairRecord (eng_encode eng held)) (\<lambda>encoded.
          bindR (put_bytes encoded) (\<lambda>b. Inr (KEYS_HELD # b)))
      | None \<Rightarrow> bindR (put_bytes (name_as_str bd (peer_display_name eng r))) (\<lambda>b.
          Inr (KEYS_REVOKED # pair_id eng r @ [boolean_tag (record_state eng r = PairingState_Revoked True)] @ b)))"

definition encode_pairing_record ::
  "('k, bytes, 'n, 'a) engine \<Rightarrow> ('n, 'c) borders \<Rightarrow> ('k, 'n, 'c) stored_record \<Rightarrow> PairingCodecError + bytes" where
  "encode_pairing_record eng bd r =
     bindR (encode_keys eng bd r) (\<lambda>ks.
     bindR (put_bytes (peer_platform r)) (\<lambda>platform.
     bindR (put_optional_certificate bd (authentication (certificates r))) (\<lambda>c1.
     bindR (put_optional_certificate bd (signature (certificates r))) (\<lambda>c2.
     bindR (put_optional_certificate bd (root (certificates r))) (\<lambda>c3.
     bindR (put_optional_certificate bd (intermediate (certificates r))) (\<lambda>c4.
     Inr (PAIRING_BLOB_MAGIC @ [PAIRING_BLOB_VERSION] @ ks @ platform @ c1 @ c2 @ c3 @ c4)))))))"

fun put_records ::
  "('k, bytes, 'n, 'a) engine \<Rightarrow> ('n, 'c) borders \<Rightarrow> ('k, 'n, 'c) stored_record list \<Rightarrow> PairingCodecError + bytes" where
  "put_records eng bd [] = Inr []"
| "put_records eng bd (r # rs) =
     bindR (encode_pairing_record eng bd r) (\<lambda>blob. bindR (put_bytes blob) (\<lambda>b. bindR (put_records eng bd rs) (\<lambda>bs. Inr (b @ bs))))"

definition encode_pairing_records ::
  "('k, bytes, 'n, 'a) engine \<Rightarrow> ('n, 'c) borders \<Rightarrow> ('k, 'n, 'c) stored_record list \<Rightarrow> PairingCodecError + bytes" where
  "encode_pairing_records eng bd rs =
     bindR (put_length (length rs)) (\<lambda>n. bindR (put_records eng bd rs) (\<lambda>body.
       Inr (PAIRING_SET_MAGIC @ [PAIRING_SET_VERSION] @ n @ body)))"


subsection \<open>Reading\<close>

type_synonym 'a blob_reader = "(bytes, PairingCodecError, 'a) io"

definition blob_take :: "nat \<Rightarrow> bytes blob_reader" where
  "blob_take count remaining =
     (if length remaining < count then (Inl PairingCodecError_Truncated, remaining)
      else (Inr (take count remaining), drop count remaining))"

definition take_u8 :: "u8 blob_reader" where
  "take_u8 = bindS (blob_take 1) (\<lambda>bs. liftR (ok_or PairingCodecError_Truncated (get_at bs 0)))"

definition take_length :: "nat blob_reader" where
  "take_length = bindS (blob_take LENGTH_BYTES) (\<lambda>bs. ret (be_fold bs))"

definition take_length_prefixed :: "bytes blob_reader" where
  "take_length_prefixed = bindS take_length blob_take"

function is_utf8 :: "bytes \<Rightarrow> bool" where
  "is_utf8 bs = (if bs = [] then True else snd (utf8_chunk bs) \<and> is_utf8 (drop (fst (utf8_chunk bs)) bs))"
  by pat_completeness auto
termination
  by (relation "measure length") (auto simp: utf8_chunk_pos)

declare is_utf8.simps [simp del]

definition take_text :: "bytes blob_reader" where
  "take_text = bindS take_length_prefixed (\<lambda>bs. if is_utf8 bs then ret bs else fail PairingCodecError_InvalidText)"

definition take_optional_certificate :: "('n, 'c) borders \<Rightarrow> 'c option blob_reader" where
  "take_optional_certificate bd =
     bindS take_u8 (\<lambda>tag. bindS (liftR (boolean_from_tag tag)) (\<lambda>present.
       if \<not> present then ret None
       else bindS take_length_prefixed (\<lambda>der.
              case cert_from_der bd der of None \<Rightarrow> fail PairingCodecError_InvalidCertificate | Some c \<Rightarrow> ret (Some c))))"

definition blob_finish :: "unit blob_reader" where
  "blob_finish remaining = (if remaining = [] then Inr () else Inl PairingCodecError_TrailingBytes, remaining)"

definition take_keys :: "('k, bytes, 'n, 'a) engine \<Rightarrow> ('n, 'c) borders \<Rightarrow> nat \<Rightarrow> ('k + bytes \<times> bool \<times> 'n) blob_reader" where
  "take_keys eng bd pid_len =
     bindS take_u8 (\<lambda>tag.
       if tag = KEYS_HELD then
         bindS take_length_prefixed (\<lambda>encoded.
         bindS (liftR (map_err PairingCodecError_PairRecord (eng_decode eng encoded))) (\<lambda>held.
         if \<not> eng_requester eng held then fail PairingCodecError_NotRequester else ret (Inl held)))
       else if tag = KEYS_REVOKED then
         bindS (blob_take pid_len) (\<lambda>p.
         bindS take_u8 (\<lambda>t. bindS (liftR (boolean_from_tag t)) (\<lambda>by_peer.
         bindS take_text (\<lambda>text. bindS (liftR (ok_or PairingCodecError_InvalidDisplayName (name_parse bd text))) (\<lambda>name.
         ret (Inr (p, by_peer, name)))))))
       else fail PairingCodecError_InvalidKeys)"

definition remember_if :: "('c \<Rightarrow> 'r \<Rightarrow> 'r) \<Rightarrow> 'c option \<Rightarrow> 'r \<Rightarrow> 'r" where
  "remember_if remember c r = (case c of None \<Rightarrow> r | Some certificate \<Rightarrow> remember certificate r)"

definition take_record :: "('k, bytes, 'n, 'a) engine \<Rightarrow> ('n, 'c) borders \<Rightarrow> nat \<Rightarrow> ('k, 'n, 'c) stored_record blob_reader" where
  "take_record eng bd pid_len =
     bindS (take_keys eng bd pid_len) (\<lambda>ks.
     bindS take_text (\<lambda>platform.
     let r = (case ks of Inl held \<Rightarrow> PairingRecord_new held platform | Inr (p, by_peer, name) \<Rightarrow> PairingRecord_revoked p by_peer name platform)
     in bindS (take_optional_certificate bd) (\<lambda>c1.
        bindS (take_optional_certificate bd) (\<lambda>c2.
        bindS (take_optional_certificate bd) (\<lambda>c3.
        bindS (take_optional_certificate bd) (\<lambda>c4.
        ret (remember_if remember_intermediate_certificate c4 (remember_if remember_root_certificate c3
          (remember_if remember_signature_certificate c2 (remember_if remember_authentication_certificate c1 r))))))))))"

definition decode_pairing_record ::
  "('k, bytes, 'n, 'a) engine \<Rightarrow> ('n, 'c) borders \<Rightarrow> nat \<Rightarrow> bytes \<Rightarrow> PairingCodecError + ('k, 'n, 'c) stored_record" where
  "decode_pairing_record eng bd pid_len blob =
     fst (bindS (blob_take (length PAIRING_BLOB_MAGIC)) (\<lambda>magic.
       if magic \<noteq> PAIRING_BLOB_MAGIC then fail PairingCodecError_BadMagic
       else bindS take_u8 (\<lambda>version.
         if version \<noteq> PAIRING_BLOB_VERSION then
           (if FIRST_BLOB_VERSION \<le> version \<and> version \<le> LAST_EARLIER_PROTOCOL_BLOB_VERSION
            then fail (PairingCodecError_EarlierProtocol version) else fail (PairingCodecError_UnsupportedVersion version))
         else bindS (take_record eng bd pid_len) (\<lambda>r. bindS blob_finish (\<lambda>_. ret r)))) blob)"

record ('k, 'n, 'c) PairingSet =
  set_records :: "('k, 'n, 'c) stored_record list"
  set_refused :: nat

definition PairingSet_default :: "('k, 'n, 'c) PairingSet" where
  "PairingSet_default = \<lparr>set_records = [], set_refused = 0\<rparr>"

definition is_refused_record :: "PairingCodecError \<Rightarrow> bool" where
  "is_refused_record e \<longleftrightarrow>
     (case e of PairingCodecError_EarlierProtocol _ \<Rightarrow> True
      | PairingCodecError_PairRecord PairRecordCodecError_UnsupportedVersion \<Rightarrow> True
      | _ \<Rightarrow> False)"

fun take_records ::
  "('k, bytes, 'n, 'a) engine \<Rightarrow> ('n, 'c) borders \<Rightarrow> nat \<Rightarrow> nat \<Rightarrow> ('k, 'n, 'c) PairingSet \<Rightarrow> ('k, 'n, 'c) PairingSet blob_reader" where
  "take_records eng bd pid_len 0 st = ret st"
| "take_records eng bd pid_len (Suc n) st =
     bindS take_length_prefixed (\<lambda>blob.
       case decode_pairing_record eng bd pid_len blob of
         Inr r \<Rightarrow> take_records eng bd pid_len n (st\<lparr>set_records := set_records st @ [r]\<rparr>)
       | Inl e \<Rightarrow> if is_refused_record e then take_records eng bd pid_len n (st\<lparr>set_refused := set_refused st + 1\<rparr>) else fail e)"

definition decode_pairing_records ::
  "('k, bytes, 'n, 'a) engine \<Rightarrow> ('n, 'c) borders \<Rightarrow> nat \<Rightarrow> bytes \<Rightarrow> PairingCodecError + ('k, 'n, 'c) PairingSet" where
  "decode_pairing_records eng bd pid_len blob =
     (if blob = [] then Inr PairingSet_default
      else fst (bindS (blob_take (length PAIRING_SET_MAGIC)) (\<lambda>magic.
        if magic \<noteq> PAIRING_SET_MAGIC then fail PairingCodecError_BadMagic
        else bindS take_u8 (\<lambda>version.
          if version \<noteq> PAIRING_SET_VERSION then fail (PairingCodecError_UnsupportedVersion version)
          else bindS take_length (\<lambda>count.
            bindS (take_records eng bd pid_len count PairingSet_default) (\<lambda>st. bindS blob_finish (\<lambda>_. ret st))))) blob))"


subsection \<open>Sightings\<close>

definition SIGHTING_MAGIC :: bytes where
  "SIGHTING_MAGIC = map (\<lambda>c. of_nat (of_char c)) ''fi.refineid.windows.card-sighting''"

definition TIME_BYTES :: nat where "TIME_BYTES = 8"

definition SIGHTING_BYTES :: "nat \<Rightarrow> nat \<Rightarrow> nat" where
  "SIGHTING_BYTES pid_len fp_len = pid_len + fp_len + TIME_BYTES"

definition encode_sighting :: "bytes \<Rightarrow> bytes CardSighting \<Rightarrow> bytes" where
  "encode_sighting p s = SIGHTING_MAGIC @ p @ sighted_fingerprint s @ u64_to_be_bytes (at_ms s)"

definition strip_prefix :: "bytes \<Rightarrow> bytes \<Rightarrow> bytes option" where
  "strip_prefix prefix bs = (if take (length prefix) bs = prefix then Some (drop (length prefix) bs) else None)"

definition decode_sighting :: "nat \<Rightarrow> nat \<Rightarrow> bytes \<Rightarrow> unit + (bytes \<times> bytes CardSighting)" where
  "decode_sighting pid_len fp_len bs =
     (case strip_prefix SIGHTING_MAGIC bs of
        None \<Rightarrow> Inl ()
      | Some entry \<Rightarrow>
          if length entry \<noteq> SIGHTING_BYTES pid_len fp_len then Inl ()
          else let after = drop pid_len entry
               in Inr (take pid_len entry,
                    \<lparr>sighted_fingerprint = take fp_len after, at_ms = u64_from_be_bytes (drop fp_len after)\<rparr>))"


section \<open>Readers\<close>

definition reads :: "'a blob_reader \<Rightarrow> bytes \<Rightarrow> 'a \<Rightarrow> bool" where
  "reads m bs v \<longleftrightarrow> (\<forall>rest. m (bs @ rest) = (Inr v, rest)) \<and> (\<forall>n < length bs. fst (m (take n bs)) = Inl PairingCodecError_Truncated)"

lemma reads_ret: "reads (ret v) [] v"
  by (simp add: reads_def ret_def)

lemma reads_bindS:
  assumes "reads m xs v" "reads (f v) ys w"
  shows "reads (bindS m f) (xs @ ys) w"
proof -
  have m: "m (xs @ rest) = (Inr v, rest)" for rest using assms(1) by (simp add: reads_def)
  have "fst (bindS m f (take n (xs @ ys))) = Inl PairingCodecError_Truncated" if "n < length (xs @ ys)" for n
  proof (cases "n < length xs")
    case True
    then have "fst (m (take n xs)) = Inl PairingCodecError_Truncated" using assms(1) by (simp add: reads_def)
    then show ?thesis using True by (cases "m (take n xs)") (simp add: bindS_def)
  next
    case False
    then have "fst (f v (take (n - length xs) ys)) = Inl PairingCodecError_Truncated" using assms(2) that by (simp add: reads_def)
    then show ?thesis using False m by (simp add: bindS_def)
  qed
  then show ?thesis using m assms(2) by (simp add: reads_def bindS_def)
qed

lemma reads_liftR: "r = Inr v \<Longrightarrow> reads (liftR r) [] v"
  by (simp add: reads_def liftR_def)

lemma reads_blob_take: "n = length bs \<Longrightarrow> reads (blob_take n) bs bs"
  by (simp add: reads_def blob_take_def)

lemma reads_bind_Nil: "reads m [] v \<Longrightarrow> reads (f v) ys w \<Longrightarrow> reads (bindS m f) ys w"
  using reads_bindS [of m "[]" v f ys w] by simp

lemma reads_bind_last: "reads m xs v \<Longrightarrow> f v = ret w \<Longrightarrow> reads (bindS m f) xs w"
  using reads_bindS [of m xs v f "[]" w] reads_ret [of w] by simp

lemma reads_take_u8: "reads take_u8 [b] b"
proof -
  have "reads (blob_take 1) [b] [b]" by (rule reads_blob_take) simp
  then show ?thesis unfolding take_u8_def
    by (rule reads_bindS [where ys = "[]", simplified]) (simp add: reads_liftR)
qed

lemma put_length_reads: "put_length n = Inr b \<Longrightarrow> reads take_length b n"
  unfolding take_length_def
  by (rule reads_bind_last [OF reads_blob_take [of _ b]])
    (auto simp: put_length_def LENGTH_BYTES_def unat_of_nat split: if_splits)

lemma put_bytes_reads: "put_bytes bs = Inr b \<Longrightarrow> reads take_length_prefixed b bs"
  unfolding take_length_prefixed_def put_bytes_def
  by (auto simp: bindR_eq_Inr intro!: reads_bindS put_length_reads reads_blob_take)

lemma put_text_reads: "put_bytes bs = Inr b \<Longrightarrow> is_utf8 bs \<Longrightarrow> reads take_text b bs"
  unfolding take_text_def by (erule reads_bind_last [OF put_bytes_reads]) simp

lemma reads_boolean: "reads (bindS take_u8 (\<lambda>t. liftR (boolean_from_tag t))) [boolean_tag v] v"
  by (rule reads_bindS [where ys = "[]", simplified, OF reads_take_u8])
    (simp add: reads_liftR boolean_tag_def boolean_from_tag_def BOOLEAN_TRUE_def BOOLEAN_FALSE_def)



section \<open>Records\<close>

text \<open>What the borders promise, and a record that this computer can hold.\<close>

definition border_laws :: "('n, 'c) borders \<Rightarrow> bool" where
  "border_laws bd \<longleftrightarrow> (\<forall>n. name_parse bd (name_as_str bd n) = Some n \<and> is_utf8 (name_as_str bd n)) \<and>
     (\<forall>c. cert_from_der bd (cert_as_der bd c) = Some c)"

definition storable :: "('k, bytes, 'n, 'a) engine \<Rightarrow> nat \<Rightarrow> ('k, 'n, 'c) stored_record \<Rightarrow> bool" where
  "storable eng pid_len r \<longleftrightarrow> is_utf8 (peer_platform r) \<and> length (pair_id eng r) = pid_len \<and>
     (case keys r of Keys_Held k \<Rightarrow> eng_requester eng k \<and> (\<forall>b. eng_encode eng k = Inr b \<longrightarrow> eng_decode eng b = Inr k) | _ \<Rightarrow> True)"

definition record_parts :: "('k, bytes, 'n, 'a) engine \<Rightarrow> ('k, 'n, 'c) stored_record \<Rightarrow> 'k + bytes \<times> bool \<times> 'n" where
  "record_parts eng r = (case keys r of Keys_Held k \<Rightarrow> Inl k | Keys_Revoked p b n \<Rightarrow> Inr (p, b, n))"

lemma optional_certificate_reads:
  assumes "border_laws bd" "put_optional_certificate bd c = Inr b"
  shows "reads (take_optional_certificate bd) b c"
proof (cases c)
  case None
  then have b: "b = [boolean_tag False]" using assms(2) by (simp add: put_optional_certificate_def boolean_tag_def)
  show ?thesis unfolding take_optional_certificate_def b
    by (rule reads_bindS [where xs = "[_]" and ys = "[]", simplified, OF reads_take_u8], rule reads_bind_Nil [OF reads_liftR [where v = False]])
      (simp_all add: None boolean_tag_def boolean_from_tag_def reads_ret)
next
  case (Some x)
  then obtain d where d: "put_bytes (cert_as_der bd x) = Inr d" and b: "b = [BOOLEAN_TRUE] @ d"
    using assms(2) by (auto simp: put_optional_certificate_def bindR_eq_Inr)
  have "cert_from_der bd (cert_as_der bd x) = Some x" using assms(1) by (simp add: border_laws_def)
  then show ?thesis unfolding take_optional_certificate_def b Some
    by (intro reads_bindS [OF reads_take_u8] reads_bind_Nil [OF reads_liftR [where v = True]])
      (simp_all add: boolean_from_tag_def BOOLEAN_TRUE_def BOOLEAN_FALSE_def reads_bind_last [OF put_bytes_reads [OF d]])
qed

lemma keys_reads:
  fixes eng :: "('k, bytes, 'n, 'a) engine" and bd :: "('n, 'c) borders"
  assumes "border_laws bd" "storable eng pid_len r" "encode_keys eng bd r = Inr b"
  shows "reads (take_keys eng bd pid_len) b (record_parts eng r)"
proof (cases "keys r")
  case (Keys_Held k)
  then obtain e d where e: "eng_encode eng k = Inr e" "put_bytes e = Inr d" and b: "b = [KEYS_HELD] @ d"
    using assms(3) by (auto simp: encode_keys_def pair_record_def bindR_eq_Inr)
  then have "eng_decode eng e = Inr k" "eng_requester eng k" using assms(2) Keys_Held by (simp_all add: storable_def)
  then have "reads (bindS take_length_prefixed (\<lambda>encoded. bindS (liftR (map_err PairingCodecError_PairRecord (eng_decode eng encoded)))
      (\<lambda>held. if \<not> eng_requester eng held then fail PairingCodecError_NotRequester else ret (Inl held)))) d
      (Inl k :: 'k + bytes \<times> bool \<times> 'n)"
    by (intro reads_bind_last [OF put_bytes_reads [OF e(2)]]) (simp add: ret_def)
  then show ?thesis unfolding take_keys_def b record_parts_def Keys_Held
    by (intro reads_bindS [OF reads_take_u8]) simp
next
  case (Keys_Revoked p by_peer n)
  then have name: "peer_display_name eng r = n" by (simp add: peer_display_name_def)
  have tag: "boolean_from_tag (boolean_tag by_peer) = Inr by_peer"
    by (simp add: boolean_tag_def boolean_from_tag_def BOOLEAN_TRUE_def BOOLEAN_FALSE_def)
  obtain d where d: "put_bytes (name_as_str bd n) = Inr d" and b: "b = [KEYS_REVOKED] @ p @ [boolean_tag by_peer] @ d"
    using assms(3) Keys_Revoked name by (auto simp: encode_keys_def pair_record_def bindR_eq_Inr)
  have n: "name_parse bd (name_as_str bd n) = Some n" "is_utf8 (name_as_str bd n)" using assms(1) by (simp_all add: border_laws_def)
  have p: "pid_len = length p" using assms(2) Keys_Revoked by (simp add: storable_def)
  have name_read: "reads (bindS take_text (\<lambda>text. bindS (liftR (ok_or PairingCodecError_InvalidDisplayName (name_parse bd text)))
      (\<lambda>name. ret (Inr (p, by_peer, name))))) d (Inr (p, by_peer, n) :: 'k + bytes \<times> bool \<times> 'n)"
    by (intro reads_bind_last [OF put_text_reads [OF d n(2)]]) (simp add: n(1) ret_def)
  let ?rest = "\<lambda>p. bindS take_u8 (\<lambda>t. bindS (liftR (boolean_from_tag t)) (\<lambda>by_peer. bindS take_text (\<lambda>text.
      bindS (liftR (ok_or PairingCodecError_InvalidDisplayName (name_parse bd text))) (\<lambda>name. ret (Inr (p, by_peer, name))))))"
  have "reads (?rest p) ([boolean_tag by_peer] @ d) (Inr (p, by_peer, n) :: 'k + bytes \<times> bool \<times> 'n)"
    by (rule reads_bindS [OF reads_take_u8], rule reads_bind_Nil [OF reads_liftR [OF tag]], rule name_read)
  then have "reads (bindS (blob_take pid_len) ?rest) (p @ [boolean_tag by_peer] @ d) (Inr (p, by_peer, n) :: 'k + bytes \<times> bool \<times> 'n)"
    by (rule reads_bindS [OF reads_blob_take [OF p]])
  then show ?thesis unfolding take_keys_def b record_parts_def Keys_Revoked Keys.case
    by (intro reads_bindS [OF reads_take_u8]) (simp add: KEYS_HELD_def KEYS_REVOKED_def)
qed


lemma rebuilt_record:
  "remember_if remember_intermediate_certificate (intermediate (certificates r)) (remember_if remember_root_certificate (root (certificates r))
     (remember_if remember_signature_certificate (signature (certificates r)) (remember_if remember_authentication_certificate
       (authentication (certificates r)) (case record_parts eng r of
          Inl held \<Rightarrow> PairingRecord_new held (peer_platform r)
        | Inr (p, by_peer, name) \<Rightarrow> PairingRecord_revoked p by_peer name (peer_platform r))))) = r"
proof -
  obtain ks platform c1 c2 c3 c4 where r: "r = \<lparr>keys = ks, peer_platform = platform,
      certificates = \<lparr>authentication = c1, signature = c2, root = c3, intermediate = c4\<rparr>\<rparr>"
    by (metis PairingRecord.cases Certificates.cases)
  have base: "(case record_parts eng r of Inl held \<Rightarrow> PairingRecord_new held (peer_platform r)
        | Inr (p, by_peer, name) \<Rightarrow> PairingRecord_revoked p by_peer name (peer_platform r)) =
      \<lparr>keys = ks, peer_platform = platform, certificates = Certificates_NONE\<rparr>"
    by (cases ks) (simp_all add: r record_parts_def PairingRecord_new_def PairingRecord_revoked_def)
  show ?thesis unfolding base
    by (cases c1; cases c2; cases c3; cases c4) (simp_all add: r remember_if_def Certificates_NONE_def
        remember_authentication_certificate_def remember_signature_certificate_def remember_root_certificate_def
        remember_intermediate_certificate_def)
qed

text \<open>A reader that must end with its input.\<close>

definition reads_all :: "'a blob_reader \<Rightarrow> bytes \<Rightarrow> 'a \<Rightarrow> bool" where
  "reads_all m bs v \<longleftrightarrow> fst (m bs) = Inr v \<and> (\<forall>x. x \<noteq> [] \<longrightarrow> fst (m (bs @ x)) = Inl PairingCodecError_TrailingBytes) \<and>
     (\<forall>n < length bs. fst (m (take n bs)) = Inl PairingCodecError_Truncated)"

lemma reads_all_finish: "reads m bs v \<Longrightarrow> reads_all (bindS m (\<lambda>v. bindS blob_finish (\<lambda>_. ret v))) bs v"
proof -
  assume m: "reads m bs v"
  have full: "m bs = (Inr v, [])" "\<And>x. m (bs @ x) = (Inr v, x)"
    using m append_Nil2 [of bs] by (metis reads_def)+
  have "fst (bindS m (\<lambda>v. bindS blob_finish (\<lambda>_. ret v)) (take n bs)) = Inl PairingCodecError_Truncated" if "n < length bs" for n
  proof -
    have "fst (m (take n bs)) = Inl PairingCodecError_Truncated" using m that by (simp add: reads_def)
    then show ?thesis by (cases "m (take n bs)") (simp add: bindS_def)
  qed
  then show ?thesis using full by (simp add: reads_all_def bindS_def blob_finish_def ret_def)
qed

lemma reads_all_bindS:
  assumes "reads m xs v" "reads_all (f v) ys w"
  shows "reads_all (bindS m f) (xs @ ys) w"
proof -
  have m: "m (xs @ rest) = (Inr v, rest)" for rest using assms(1) by (simp add: reads_def)
  have "fst (bindS m f (take n (xs @ ys))) = Inl PairingCodecError_Truncated" if "n < length (xs @ ys)" for n
  proof (cases "n < length xs")
    case True
    then have "fst (m (take n xs)) = Inl PairingCodecError_Truncated" using assms(1) by (simp add: reads_def)
    then show ?thesis using True by (cases "m (take n xs)") (simp add: bindS_def)
  next
    case False
    then have "fst (f v (take (n - length xs) ys)) = Inl PairingCodecError_Truncated" using assms(2) that by (simp add: reads_all_def)
    then show ?thesis using False m by (simp add: bindS_def)
  qed
  then show ?thesis using m assms(2) by (simp add: reads_all_def bindS_def)
qed

lemma record_encoding:
  assumes "border_laws bd" "storable eng pid_len r" "encode_pairing_record eng bd r = Inr blob"
  shows "\<exists>body. blob = PAIRING_BLOB_MAGIC @ [PAIRING_BLOB_VERSION] @ body \<and> reads (take_record eng bd pid_len) body r"
proof -
  obtain ks pl c1 c2 c3 c4 where parts: "encode_keys eng bd r = Inr ks" "put_bytes (peer_platform r) = Inr pl"
      "put_optional_certificate bd (authentication (certificates r)) = Inr c1" "put_optional_certificate bd (signature (certificates r)) = Inr c2"
      "put_optional_certificate bd (root (certificates r)) = Inr c3" "put_optional_certificate bd (intermediate (certificates r)) = Inr c4"
    and blob: "blob = PAIRING_BLOB_MAGIC @ [PAIRING_BLOB_VERSION] @ ks @ pl @ c1 @ c2 @ c3 @ c4 @ []"
    using assms(3) by (auto simp: encode_pairing_record_def bindR_eq_Inr)
  have utf8: "is_utf8 (peer_platform r)" using assms(2) by (simp add: storable_def)
  have "reads (take_record eng bd pid_len) (ks @ pl @ c1 @ c2 @ c3 @ c4 @ []) r"
    unfolding take_record_def Let_def
    by (rule reads_bindS [OF keys_reads [OF assms(1,2) parts(1)]], rule reads_bindS [OF put_text_reads [OF parts(2) utf8]],
        rule reads_bindS [OF optional_certificate_reads [OF assms(1) parts(3)]], rule reads_bindS [OF optional_certificate_reads [OF assms(1) parts(4)]],
        rule reads_bindS [OF optional_certificate_reads [OF assms(1) parts(5)]], rule reads_bindS [OF optional_certificate_reads [OF assms(1) parts(6)]],
        subst rebuilt_record, rule reads_ret)
  then show ?thesis unfolding blob by blast
qed

lemma decode_record:
  assumes "border_laws bd" "storable eng pid_len r" "encode_pairing_record eng bd r = Inr blob"
  shows "decode_pairing_record eng bd pid_len blob = Inr r"
    "n < length blob \<Longrightarrow> decode_pairing_record eng bd pid_len (take n blob) = Inl PairingCodecError_Truncated"
    "x \<noteq> [] \<Longrightarrow> decode_pairing_record eng bd pid_len (blob @ x) = Inl PairingCodecError_TrailingBytes"
proof -
  obtain body where blob: "blob = PAIRING_BLOB_MAGIC @ [PAIRING_BLOB_VERSION] @ body" and body: "reads (take_record eng bd pid_len) body r"
    using record_encoding [OF assms] by blast
  have "reads_all (bindS (blob_take (length PAIRING_BLOB_MAGIC)) (\<lambda>magic.
       if magic \<noteq> PAIRING_BLOB_MAGIC then fail PairingCodecError_BadMagic
       else bindS take_u8 (\<lambda>version.
         if version \<noteq> PAIRING_BLOB_VERSION then
           (if FIRST_BLOB_VERSION \<le> version \<and> version \<le> LAST_EARLIER_PROTOCOL_BLOB_VERSION
            then fail (PairingCodecError_EarlierProtocol version) else fail (PairingCodecError_UnsupportedVersion version))
         else bindS (take_record eng bd pid_len) (\<lambda>r. bindS blob_finish (\<lambda>_. ret r))))) blob r"
    unfolding blob
    by (rule reads_all_bindS [OF reads_blob_take [OF refl]], subst if_not_P, simp, rule reads_all_bindS [OF reads_take_u8],
        subst if_not_P, simp, rule reads_all_finish [OF body])
  then show "decode_pairing_record eng bd pid_len blob = Inr r"
    "n < length blob \<Longrightarrow> decode_pairing_record eng bd pid_len (take n blob) = Inl PairingCodecError_Truncated"
    "x \<noteq> [] \<Longrightarrow> decode_pairing_record eng bd pid_len (blob @ x) = Inl PairingCodecError_TrailingBytes"
    by (simp_all add: decode_pairing_record_def reads_all_def)
qed



section \<open>Sets\<close>

text \<open>What a set of stored blobs is read as.\<close>

fun collect ::
  "('k, bytes, 'n, 'a) engine \<Rightarrow> ('n, 'c) borders \<Rightarrow> nat \<Rightarrow> bytes list \<Rightarrow> ('k, 'n, 'c) PairingSet \<Rightarrow> ('k, 'n, 'c) PairingSet" where
  "collect eng bd pid_len [] st = st"
| "collect eng bd pid_len (blob # blobs) st = collect eng bd pid_len blobs
     (case decode_pairing_record eng bd pid_len blob of
        Inr r \<Rightarrow> st\<lparr>set_records := set_records st @ [r]\<rparr> | Inl _ \<Rightarrow> st\<lparr>set_refused := set_refused st + 1\<rparr>)"

definition loadable :: "('k, bytes, 'n, 'a) engine \<Rightarrow> ('n, 'c) borders \<Rightarrow> nat \<Rightarrow> bytes \<Rightarrow> bool" where
  "loadable eng bd pid_len blob \<longleftrightarrow>
     (case decode_pairing_record eng bd pid_len blob of Inr _ \<Rightarrow> True | Inl e \<Rightarrow> is_refused_record e)"

lemma take_records_reads:
  assumes "list_all2 (\<lambda>blob b. put_bytes blob = Inr b) blobs bs" "list_all (loadable eng bd pid_len) blobs"
  shows "reads (take_records eng bd pid_len (length blobs) st) (concat bs) (collect eng bd pid_len blobs st)"
  using assms
proof (induction blobs arbitrary: bs st)
  case (Cons blob blobs)
  then obtain b bs' where bs: "bs = b # bs'" "put_bytes blob = Inr b" "list_all2 (\<lambda>blob b. put_bytes blob = Inr b) blobs bs'"
    by (auto simp: list_all2_Cons1)
  from put_bytes_reads [OF bs(2)] show ?case using Cons.prems(2) Cons.IH [OF bs(3)]
    by (cases "decode_pairing_record eng bd pid_len blob") (auto simp: bs(1) loadable_def intro!: reads_bindS)
qed (simp add: reads_ret)

lemma decode_records:
  assumes "put_length (length blobs) = Inr n" "list_all2 (\<lambda>blob b. put_bytes blob = Inr b) blobs bs" "list_all (loadable eng bd pid_len) blobs"
  shows "decode_pairing_records eng bd pid_len (PAIRING_SET_MAGIC @ [PAIRING_SET_VERSION] @ n @ concat bs) =
    Inr (collect eng bd pid_len blobs PairingSet_default)"
proof -
  note body = take_records_reads [OF assms(2,3), of PairingSet_default]
  have "reads_all (bindS (blob_take (length PAIRING_SET_MAGIC)) (\<lambda>magic.
        if magic \<noteq> PAIRING_SET_MAGIC then fail PairingCodecError_BadMagic
        else bindS take_u8 (\<lambda>version.
          if version \<noteq> PAIRING_SET_VERSION then fail (PairingCodecError_UnsupportedVersion version)
          else bindS take_length (\<lambda>count.
            bindS (take_records eng bd pid_len count PairingSet_default) (\<lambda>st. bindS blob_finish (\<lambda>_. ret st))))))
      (PAIRING_SET_MAGIC @ [PAIRING_SET_VERSION] @ n @ concat bs) (collect eng bd pid_len blobs PairingSet_default)"
    by (rule reads_all_bindS [OF reads_blob_take [OF refl]], subst if_not_P, simp, rule reads_all_bindS [OF reads_take_u8],
        subst if_not_P, simp, rule reads_all_bindS [OF put_length_reads [OF assms(1)]], rule reads_all_finish [OF body])
  then show ?thesis by (simp add: decode_pairing_records_def reads_all_def PAIRING_SET_MAGIC_def)
qed

lemma put_records_blobs:
  "put_records eng bd rs = Inr body \<Longrightarrow>
    \<exists>blobs bs. list_all2 (\<lambda>r blob. encode_pairing_record eng bd r = Inr blob) rs blobs \<and>
      list_all2 (\<lambda>blob b. put_bytes blob = Inr b) blobs bs \<and> body = concat bs"
proof (induction rs arbitrary: body)
  case (Cons r rs)
  then obtain blob b body' where "encode_pairing_record eng bd r = Inr blob" "put_bytes blob = Inr b" "put_records eng bd rs = Inr body'"
      "body = b @ body'"
    by (auto simp: bindR_eq_Inr)
  with Cons.IH [of body'] obtain blobs bs where "list_all2 (\<lambda>r blob. encode_pairing_record eng bd r = Inr blob) (r # rs) (blob # blobs) \<and>
      list_all2 (\<lambda>blob b. put_bytes blob = Inr b) (blob # blobs) (b # bs) \<and> body = concat (b # bs)"
    by auto
  then show ?case by blast
qed auto

lemma collect_encoded:
  assumes "border_laws bd" "list_all (storable eng pid_len) rs" "list_all2 (\<lambda>r blob. encode_pairing_record eng bd r = Inr blob) rs blobs"
  shows "list_all (loadable eng bd pid_len) blobs \<and>
    collect eng bd pid_len blobs st = st\<lparr>set_records := set_records st @ rs\<rparr>"
  using assms(2,3)
proof (induction rs arbitrary: blobs st)
  case (Cons r rs)
  then obtain blob blobs' where b: "blobs = blob # blobs'" "encode_pairing_record eng bd r = Inr blob"
      "list_all2 (\<lambda>r blob. encode_pairing_record eng bd r = Inr blob) rs blobs'"
    by (auto simp: list_all2_Cons1)
  have "decode_pairing_record eng bd pid_len blob = Inr r" using decode_record(1) [OF assms(1) _ b(2)] Cons.prems(1) by simp
  then show ?case using Cons.IH [OF _ b(3)] Cons.prems(1) by (simp add: b(1) loadable_def)
qed simp

lemma set_roundtrip:
  assumes "border_laws bd" "list_all (storable eng pid_len) rs" "encode_pairing_records eng bd rs = Inr blob"
  shows "decode_pairing_records eng bd pid_len blob = Inr \<lparr>set_records = rs, set_refused = 0\<rparr>"
proof -
  obtain n body where enc: "put_length (length rs) = Inr n" "put_records eng bd rs = Inr body"
      "blob = PAIRING_SET_MAGIC @ [PAIRING_SET_VERSION] @ n @ body"
    using assms(3) by (auto simp: encode_pairing_records_def bindR_eq_Inr)
  obtain blobs bs where b: "list_all2 (\<lambda>r blob. encode_pairing_record eng bd r = Inr blob) rs blobs"
      "list_all2 (\<lambda>blob b. put_bytes blob = Inr b) blobs bs" "body = concat bs"
    using put_records_blobs [OF enc(2)] by blast
  note collected = collect_encoded [OF assms(1,2) b(1)]
  have "length blobs = length rs" using b(1) by (simp add: list_all2_lengthD)
  then have "decode_pairing_records eng bd pid_len blob = Inr (collect eng bd pid_len blobs PairingSet_default)"
    using decode_records [OF _ b(2), of n eng bd pid_len] collected enc(1,3) b(3) by simp
  then show ?thesis using collected by (simp add: PairingSet_default_def)
qed


section \<open>Properties\<close>

text \<open>
  A stored pairing is read back as it was, and only whole: the encoding of a record decodes to that record, every proper
  prefix of it is refused as truncated, and anything appended to it as trailing bytes.
\<close>

theorem pairing_record_roundtrip:
  assumes "border_laws bd" "storable eng pid_len r" "encode_pairing_record eng bd r = Inr blob"
  shows "decode_pairing_record eng bd pid_len blob = Inr r \<and>
    (\<forall>n < length blob. decode_pairing_record eng bd pid_len (take n blob) = Inl PairingCodecError_Truncated) \<and>
    (\<forall>x. x \<noteq> [] \<longrightarrow> decode_pairing_record eng bd pid_len (blob @ x) = Inl PairingCodecError_TrailingBytes)"
  using decode_record [OF assms] by blast

text \<open>
  A record of an earlier protocol, or with keys in a format the engine no longer reads, does not take the set with it: the
  set is read without exactly those records, in order, and says how many they were.
\<close>

theorem refused_records_left_out:
  assumes "put_length (length blobs) = Inr n" "list_all2 (\<lambda>blob b. put_bytes blob = Inr b) blobs bs" "list_all (loadable eng bd pid_len) blobs"
  shows "decode_pairing_records eng bd pid_len (PAIRING_SET_MAGIC @ [PAIRING_SET_VERSION] @ n @ concat bs) =
    Inr \<lparr>set_records = List.map_filter (\<lambda>blob. result_ok (decode_pairing_record eng bd pid_len blob)) blobs,
         set_refused = length (filter (\<lambda>blob. result_ok (decode_pairing_record eng bd pid_len blob) = None) blobs)\<rparr>"
proof -
  have "collect eng bd pid_len blobs st = \<lparr>set_records = set_records st @ List.map_filter (\<lambda>blob. result_ok (decode_pairing_record eng bd pid_len blob)) blobs,
      set_refused = set_refused st + length (filter (\<lambda>blob. result_ok (decode_pairing_record eng bd pid_len blob) = None) blobs)\<rparr>" for st
  proof (induction blobs arbitrary: st)
    case (Cons blob blobs)
    then show ?case by (cases "decode_pairing_record eng bd pid_len blob") (simp_all add: map_filter_simps)
  qed (simp add: map_filter_simps)
  then show ?thesis using decode_records [OF assms] by (simp add: PairingSet_default_def)
qed

text \<open>
  Sightings are read exactly as they are written: bytes decode to a pairing and a sighting if and only if they are its
  encoding, with identifiers and fingerprints of their sizes.
\<close>

theorem sighting_decode_iff_encode:
  "decode_sighting pid_len fp_len bs = Inr (p, s) \<longleftrightarrow>
     bs = encode_sighting p s \<and> length p = pid_len \<and> length (sighted_fingerprint s) = fp_len"
proof
  assume "decode_sighting pid_len fp_len bs = Inr (p, s)"
  then obtain entry where e: "take (length SIGHTING_MAGIC) bs = SIGHTING_MAGIC" "entry = drop (length SIGHTING_MAGIC) bs"
      "length entry = pid_len + fp_len + 8" "p = take pid_len entry"
      "s = \<lparr>sighted_fingerprint = take fp_len (drop pid_len entry), at_ms = u64_from_be_bytes (drop fp_len (drop pid_len entry))\<rparr>"
    by (auto simp: decode_sighting_def strip_prefix_def SIGHTING_BYTES_def TIME_BYTES_def Let_def split: if_splits)
  have "bs = SIGHTING_MAGIC @ entry" using e(1,2) by (metis append_take_drop_id)
  moreover have "u64_to_be_bytes (at_ms s) = drop fp_len (drop pid_len entry)"
    using e(3,5) by (simp add: u64_to_from_be_bytes)
  moreover have "entry = take pid_len entry @ take fp_len (drop pid_len entry) @ drop fp_len (drop pid_len entry)"
    by (simp only: append_take_drop_id)
  ultimately show "bs = encode_sighting p s \<and> length p = pid_len \<and> length (sighted_fingerprint s) = fp_len"
    unfolding encode_sighting_def using e(3-5) by simp
next
  assume "bs = encode_sighting p s \<and> length p = pid_len \<and> length (sighted_fingerprint s) = fp_len"
  then show "decode_sighting pid_len fp_len bs = Inr (p, s)"
    by (auto simp: decode_sighting_def encode_sighting_def strip_prefix_def SIGHTING_BYTES_def TIME_BYTES_def Let_def)
qed


definition example_borders :: "(unit, bytes) borders" where
  "example_borders = \<lparr>name_parse = (\<lambda>bs. if bs = [] then Some () else None), name_as_str = (\<lambda>_. []), cert_from_der = Some, cert_as_der = id\<rparr>"

lemma example_border_laws: "border_laws example_borders"
  by (simp add: border_laws_def example_borders_def is_utf8.simps)

lemma example_storable: "storable example_engine 1 example_pairing"
  by (simp add: storable_def example_store_defs is_utf8.simps pair_id_def ek_roundtrip)

lemma example_encoding: "\<exists>blob. encode_pairing_record example_engine example_borders example_pairing = Inr blob"
  by (simp add: encode_pairing_record_def encode_keys_def pair_record_def example_store_defs example_borders_def ek_encode_def
      put_bytes_def put_length_def put_optional_certificate_def)

theorem pairing_record_roundtrip_witness:
  "\<exists>blob. encode_pairing_record example_engine example_borders example_pairing = Inr blob \<and>
     decode_pairing_record example_engine example_borders 1 blob = Inr example_pairing"
  using example_encoding pairing_record_roundtrip [OF example_border_laws example_storable] by blast

theorem refused_records_left_out_witness:
  "decode_pairing_records example_engine example_borders 1
     (PAIRING_SET_MAGIC @ [PAIRING_SET_VERSION] @ [0, 0, 0, 1] @ concat [[0, 0, 0, 17] @ PAIRING_BLOB_MAGIC @ [8]]) =
   Inr \<lparr>set_records = [], set_refused = 1\<rparr>"
proof -
  have old: "decode_pairing_record example_engine example_borders 1 (PAIRING_BLOB_MAGIC @ [8]) = Inl (PairingCodecError_EarlierProtocol 8)"
    by (simp add: decode_pairing_record_def PAIRING_BLOB_MAGIC_def blob_take_def take_u8_def bindS_def liftR_def fail_def
        PAIRING_BLOB_VERSION_def FIRST_BLOB_VERSION_def LAST_EARLIER_PROTOCOL_BLOB_VERSION_def)
  have "put_length (length [PAIRING_BLOB_MAGIC @ [8]]) = Inr [0, 0, 0, 1]"
    "list_all2 (\<lambda>blob b. put_bytes blob = Inr b) [PAIRING_BLOB_MAGIC @ [8]] [[0, 0, 0, 17] @ PAIRING_BLOB_MAGIC @ [8]]"
    "list_all (loadable example_engine example_borders 1) [PAIRING_BLOB_MAGIC @ [8]]"
    by (simp_all add: put_length_def put_bytes_def PAIRING_BLOB_MAGIC_def u32_to_be_bytes_def loadable_def old [unfolded PAIRING_BLOB_MAGIC_def, simplified]
        is_refused_record_def)
  from refused_records_left_out [OF this] show ?thesis using old by (simp add: map_filter_simps)
qed

end
