(* ===== verification/Rapp_Vault.thy ===== *)
theory Rapp_Vault
  imports Rapp_Codec
begin

text \<open>
  The pairing store of a Windows user (\<open>refineid-windows-credential-store\<close>, \<open>pairing.rs\<close>): the records in memory, the whole
  set in one protected file, the sightings beside it. Files and DPAPI are the parameter \<open>dk\<close> on a world \<open>'w\<close>;
  \<open>disk_laws\<close> is what the file replacement promises: a write that succeeds is read back, one that fails leaves the file
  as it was. An error of a file or of DPAPI is one value.

  Every change re-reads the file first, so the store is judged against the store in memory of \<open>Rapp_Store\<close> on what is
  stored, not on what this instance last held.
\<close>

section \<open>The code\<close>

datatype CredentialStoreError =
    CredentialStoreError_File | CredentialStoreError_InvalidStoredPairing | CredentialStoreError_PairingNotEncodable

record 'w disk =
  disk_purge :: "'w \<Rightarrow> (CredentialStoreError + unit) \<times> 'w"
  disk_read :: "'w \<Rightarrow> CredentialStoreError + bytes option"
  disk_write :: "bytes \<Rightarrow> 'w \<Rightarrow> (CredentialStoreError + unit) \<times> 'w"
  disk_sightings :: "'w \<Rightarrow> (bytes \<times> bytes) list"
  disk_write_sighting :: "bytes \<Rightarrow> bytes \<Rightarrow> 'w \<Rightarrow> (CredentialStoreError + unit) \<times> 'w"
  disk_remove_sighting :: "bytes \<Rightarrow> 'w \<Rightarrow> 'w"

record ('k, 'n, 'c, 'w) ProtectedPairingStore =
  v_records :: "('k, 'n, 'c) stored_record list"
  v_sightings :: "(bytes \<times> bytes CardSighting) list"
  v_directory :: 'w

text \<open>What the store is built over.\<close>

record ('k, 'n, 'c, 'a, 'w) vault_env =
  ve_engine :: "('k, bytes, 'n, 'a) engine"
  ve_borders :: "('n, 'c) borders"
  ve_pid_len :: nat
  ve_fp_len :: nat
  ve_disk :: "'w disk"

definition SIGHTING_EXTENSION :: bytes where
  "SIGHTING_EXTENSION = map (\<lambda>c. of_nat (of_char c)) ''sighting''"

definition sighting_file_name :: "bytes \<Rightarrow> bytes" where
  "sighting_file_name p = Hex_encode p @ [0x2E] @ SIGHTING_EXTENSION"

definition read_sightings :: "('k, 'n, 'c, 'a, 'w) vault_env \<Rightarrow> 'w \<Rightarrow> (bytes \<times> bytes CardSighting) list" where
  "read_sightings ve w =
     List.map_filter (\<lambda>(_, bs). result_ok (decode_sighting (ve_pid_len ve) (ve_fp_len ve) bs)) (disk_sightings (ve_disk ve) w)"

definition write_sighting :: "('k, 'n, 'c, 'a, 'w) vault_env \<Rightarrow> bytes \<Rightarrow> bytes CardSighting \<Rightarrow> 'w \<Rightarrow> (CredentialStoreError + unit) \<times> 'w" where
  "write_sighting ve p sighting = disk_write_sighting (ve_disk ve) (sighting_file_name p) (encode_sighting p sighting)"

definition remove_sighting :: "('k, 'n, 'c, 'a, 'w) vault_env \<Rightarrow> bytes \<Rightarrow> 'w \<Rightarrow> 'w" where
  "remove_sighting ve p = disk_remove_sighting (ve_disk ve) (sighting_file_name p)"

abbreviation ve_decode where
  "ve_decode ve \<equiv> decode_pairing_records (ve_engine ve) (ve_borders ve) (ve_pid_len ve)"

abbreviation ve_encode where
  "ve_encode ve \<equiv> encode_pairing_records (ve_engine ve) (ve_borders ve)"

definition refresh ::
  "('k, 'n, 'c, 'a, 'w) vault_env \<Rightarrow> ('k, 'n, 'c, 'w) ProtectedPairingStore \<Rightarrow> (StoreError + unit) \<times> ('k, 'n, 'c, 'w) ProtectedPairingStore" where
  "refresh ve s =
     (let s = s\<lparr>v_sightings := read_sightings ve (v_directory s)\<rparr>
      in case disk_read (ve_disk ve) (v_directory s) of
           Inr (Some blob) \<Rightarrow>
             (case ve_decode ve blob of
                Inl _ \<Rightarrow> (Inl StoreError_Unreadable, s)
              | Inr st \<Rightarrow> (Inr (), s\<lparr>v_records := set_records st\<rparr>))
         | Inr None \<Rightarrow> (Inr (), s\<lparr>v_records := []\<rparr>)
         | Inl _ \<Rightarrow> (Inl StoreError_Unreadable, s))"

definition write_set ::
  "('k, 'n, 'c, 'a, 'w) vault_env \<Rightarrow> ('k, 'n, 'c) stored_record list \<Rightarrow> 'w \<Rightarrow> (CredentialStoreError + unit) \<times> 'w" where
  "write_set ve rs w =
     (case ve_encode ve rs of
        Inl _ \<Rightarrow> (Inl CredentialStoreError_PairingNotEncodable, w)
      | Inr blob \<Rightarrow> disk_write (ve_disk ve) blob w)"

definition persist ::
  "('k, 'n, 'c, 'a, 'w) vault_env \<Rightarrow> ('k, 'n, 'c, 'w) ProtectedPairingStore \<Rightarrow> (CredentialStoreError + unit) \<times> ('k, 'n, 'c, 'w) ProtectedPairingStore" where
  "persist ve s = (case write_set ve (v_records s) (v_directory s) of (r, w) \<Rightarrow> (r, s\<lparr>v_directory := w\<rparr>))"

definition change ::
  "('k, 'n, 'c, 'a, 'w) vault_env \<Rightarrow> (('k, 'n, 'c) stored_record list \<Rightarrow> StoreError + ('k, 'n, 'c) stored_record list) \<Rightarrow>
     ('k, 'n, 'c, 'w) ProtectedPairingStore \<Rightarrow> (StoreError + unit) \<times> ('k, 'n, 'c, 'w) ProtectedPairingStore" where
  "change ve f s =
     (case refresh ve s of
        (Inl e, s') \<Rightarrow> (Inl e, s')
      | (Inr _, s') \<Rightarrow>
          (case f (v_records s') of
             Inl e \<Rightarrow> (Inl e, s')
           | Inr rs \<Rightarrow>
               (case persist ve (s'\<lparr>v_records := rs\<rparr>) of (r, s'') \<Rightarrow> (map_err (\<lambda>_. StoreError_WriteRefused) r, s''))))"

definition Protected_insert where
  "Protected_insert ve record = change ve (\<lambda>rs. Inr (records_insert (ve_engine ve) record rs))"

definition Protected_update where
  "Protected_update ve p f = change ve (records_update (ve_engine ve) p f)"

definition Protected_remove where
  "Protected_remove ve p s =
     (case change ve (records_remove (ve_engine ve) p) s of
        (Inl e, s') \<Rightarrow> (Inl e, s')
      | (Inr _, s') \<Rightarrow>
          (Inr (), s'\<lparr>v_directory := remove_sighting ve p (v_directory s'), v_sightings := sightings_without p (v_sightings s')\<rparr>))"

definition Protected_record_card_sighting where
  "Protected_record_card_sighting ve p sighting s =
     (case write_sighting ve p sighting (v_directory s) of
        (Inl e, w) \<Rightarrow> (Inl StoreError_WriteRefused, s\<lparr>v_directory := w\<rparr>)
      | (Inr _, w) \<Rightarrow> (Inr (), s\<lparr>v_directory := w, v_sightings := sightings_without p (v_sightings s) @ [(p, sighting)]\<rparr>))"

definition Protected_drop_card_sighting where
  "Protected_drop_card_sighting ve p s =
     s\<lparr>v_directory := remove_sighting ve p (v_directory s), v_sightings := sightings_without p (v_sightings s)\<rparr>"

text \<open>The set with the checked record in the place of the pairing's.\<close>

fun replace_at :: "('k, bytes, 'n, 'a) engine \<Rightarrow> bytes \<Rightarrow> ('k, 'n, 'c) stored_record \<Rightarrow> ('k, 'n, 'c) stored_record list \<Rightarrow> ('k, 'n, 'c) stored_record list" where
  "replace_at eng p r' [] = []"
| "replace_at eng p r' (r # rs) = (if pair_id eng r = p then r' # rs else r # replace_at eng p r' rs)"

definition Protected_sweep where
  "Protected_sweep ve p now session_established s =
     (case refresh ve s of
        (Inl e, s') \<Rightarrow> (Inl (RecordStoreError_Store e), s')
      | (Inr _, s') \<Rightarrow>
          (case records_get (ve_engine ve) p (v_records s') of
             Inl e \<Rightarrow> (Inl (RecordStoreError_Store e), s')
           | Inr r \<Rightarrow>
               (case record_sweep (ve_engine ve) now session_established
                       (\<lambda>checked w. case write_set ve (replace_at (ve_engine ve) p checked (v_records s')) w of
                          (res, w') \<Rightarrow> (map_err (\<lambda>_. StoreError_WriteRefused) res, w'))
                       r (v_directory s') of
                  (outcome, r', w) \<Rightarrow>
                    (outcome, s'\<lparr>v_directory := w, v_records := replace_at (ve_engine ve) p r' (v_records s')\<rparr>))))"

definition protected_store ::
  "('k, 'n, 'c, 'a, 'w) vault_env \<Rightarrow> (('k, 'n, 'c, 'w) ProtectedPairingStore, 'k, bytes, 'n, 'c, bytes) pairing_store_ops" where
  "protected_store ve =
     \<lparr>so_insert = Protected_insert ve, so_get = (\<lambda>p s. records_get (ve_engine ve) p (v_records s)), so_update = Protected_update ve,
      so_remove = Protected_remove ve, so_pair_ids = (\<lambda>s. map (pair_id (ve_engine ve)) (rev (v_records s))),
      so_card_sighting = (\<lambda>p s. map_of (v_sightings s) p), so_record_card_sighting = Protected_record_card_sighting ve,
      so_drop_card_sighting = Protected_drop_card_sighting ve, so_sweep = Protected_sweep ve\<rparr>"

definition load_from ::
  "('k, 'n, 'c, 'a, 'w) vault_env \<Rightarrow> u64 \<Rightarrow> 'w \<Rightarrow> (CredentialStoreError + ('k, 'n, 'c, 'w) ProtectedPairingStore) \<times> 'w" where
  "load_from ve now w =
     (case disk_purge (ve_disk ve) w of
        (Inl e, w) \<Rightarrow> (Inl e, w)
      | (Inr _, w) \<Rightarrow>
          (case disk_read (ve_disk ve) w of
             Inl e \<Rightarrow> (Inl e, w)
           | Inr found \<Rightarrow>
               (case (case found of
                        Some blob \<Rightarrow> map_err (\<lambda>_. CredentialStoreError_InvalidStoredPairing) (ve_decode ve blob)
                      | None \<Rightarrow> Inr PairingSet_default) of
                  Inl e \<Rightarrow> (Inl e, w)
                | Inr st \<Rightarrow>
                    let s = \<lparr>v_records = set_records st, v_sightings = read_sightings ve w, v_directory = w\<rparr>;
                        (removed, s) = remove_unconfirmed (ve_engine ve) (protected_store ve) s;
                        (expired, s) = expire_revocation_notices (ve_engine ve) (protected_store ve) now s
                    in if removed \<noteq> [] \<or> expired \<noteq> [] \<or> set_refused st > 0
                       then (case persist ve s of (Inl e, s) \<Rightarrow> (Inl e, v_directory s) | (Inr _, s) \<Rightarrow> (Inr s, v_directory s))
                       else (Inr s, v_directory s))))"

definition usable_pairing :: "('k, 'n, 'c, 'a, 'w) vault_env \<Rightarrow> ('k, 'n, 'c, 'w) ProtectedPairingStore \<Rightarrow> ('k, 'n, 'c) stored_record option" where
  "usable_pairing ve s = find (serves (ve_engine ve)) (rev (v_records s))"

definition forgotten_pairings :: "('k, 'n, 'c, 'a, 'w) vault_env \<Rightarrow> ('k, 'n, 'c, 'w) ProtectedPairingStore \<Rightarrow> ('k, 'n, 'c) stored_record list" where
  "forgotten_pairings ve s = filter (owes_revocation_notice (ve_engine ve)) (v_records s)"

definition revoke_by_peer where
  "revoke_by_peer ve p = revoke_pairing (ve_engine ve) (protected_store ve) p True"


section \<open>What is stored\<close>

definition disk_laws :: "'w disk \<Rightarrow> bool" where
  "disk_laws dk \<longleftrightarrow>
     (\<forall>b w w'. disk_write dk b w = (Inr (), w') \<longrightarrow> disk_read dk w' = Inr (Some b)) \<and>
     (\<forall>b w e w'. disk_write dk b w = (Inl e, w') \<longrightarrow> disk_read dk w' = disk_read dk w) \<and>
     (\<forall>name w. disk_read dk (disk_remove_sighting dk name w) = disk_read dk w)"

definition on_disk :: "('k, 'n, 'c, 'a, 'w) vault_env \<Rightarrow> 'w \<Rightarrow> ('k, 'n, 'c) stored_record list option" where
  "on_disk ve w =
     (case disk_read (ve_disk ve) w of
        Inr None \<Rightarrow> Some []
      | Inr (Some blob) \<Rightarrow> map_option set_records (result_ok (ve_decode ve blob))
      | Inl _ \<Rightarrow> None)"

abbreviation ve_storable where
  "ve_storable ve \<equiv> storable (ve_engine ve) (ve_pid_len ve)"

definition lawful :: "('k, 'n, 'c, 'a, 'w) vault_env \<Rightarrow> bool" where
  "lawful ve \<longleftrightarrow> border_laws (ve_borders ve) \<and> disk_laws (ve_disk ve)"

lemma refresh_cases:
  "refresh ve s = (case on_disk ve (v_directory s) of
     None \<Rightarrow> (Inl StoreError_Unreadable, s\<lparr>v_sightings := read_sightings ve (v_directory s)\<rparr>)
   | Some rs \<Rightarrow> (Inr (), s\<lparr>v_sightings := read_sightings ve (v_directory s), v_records := rs\<rparr>))"
  by (auto simp: refresh_def on_disk_def Let_def split: sum.split option.split)

lemma write_set_cases:
  assumes "lawful ve" "list_all (ve_storable ve) rs"
  shows "\<exists>w'. write_set ve rs w = (Inr (), w') \<and> on_disk ve w' = Some rs \<or>
    (\<exists>e. write_set ve rs w = (Inl e, w') \<and> on_disk ve w' = on_disk ve w)"
proof (cases "ve_encode ve rs")
  case (Inr blob)
  have "ve_decode ve blob = Inr \<lparr>set_records = rs, set_refused = 0\<rparr>"
    using set_roundtrip [OF _ assms(2) Inr] assms(1) by (simp add: lawful_def)
  moreover obtain r w' where "disk_write (ve_disk ve) blob w = (r, w')" by fastforce
  moreover have "disk_laws (ve_disk ve)" using assms(1) by (simp add: lawful_def)
  ultimately show ?thesis using Inr
    by (cases r) (auto simp: write_set_def on_disk_def disk_laws_def)
qed (simp add: write_set_def)


lemma change_unreadable:
  "on_disk ve (v_directory s) = None \<Longrightarrow> v_directory (snd (change ve f s)) = v_directory s \<and> fst (change ve f s) = Inl StoreError_Unreadable"
  by (simp add: change_def refresh_cases)


section \<open>Several instances\<close>

text \<open>
  The store is loaded by several processes. Each instance holds its own records; all share the files. A call of an
  instance runs on the files as they are then.
\<close>

datatype ('k, 'n, 'c) vault_call =
    Vault_Insert "('k, 'n, 'c) stored_record"
  | Vault_Update bytes "('k, 'n, 'c) stored_record \<Rightarrow> ('k, 'n, 'c) stored_record"
  | Vault_Remove bytes

fun do_call ::
  "('k, 'n, 'c, 'a, 'w) vault_env \<Rightarrow> ('k, 'n, 'c) vault_call \<Rightarrow> ('k, 'n, 'c, 'w) ProtectedPairingStore \<Rightarrow>
     (StoreError + unit) \<times> ('k, 'n, 'c, 'w) ProtectedPairingStore" where
  "do_call ve (Vault_Insert r) s = Protected_insert ve r s"
| "do_call ve (Vault_Update p f) s = Protected_update ve p f s"
| "do_call ve (Vault_Remove p) s = Protected_remove ve p s"




definition in_memory :: "('k, 'n, 'c) stored_record list \<Rightarrow> ('k, bytes, 'n, 'c, bytes) MemoryPairingStore" where
  "in_memory rs = \<lparr>mem_records = rs, mem_sightings = []\<rparr>"


lemma records_update_all:
  "records_update eng p f rs = Inr rs' \<Longrightarrow> list_all P rs \<Longrightarrow> (\<And>r. P r \<Longrightarrow> P (f r)) \<Longrightarrow> list_all P rs'"
  by (induction rs arbitrary: rs') (auto simp: bindR_eq_Inr split: if_splits)








section \<open>Loading\<close>

text \<open>A computer whose files can be written, and records that encode, also once they are revoked.\<close>

definition dependable :: "('k, 'n, 'c, 'a, 'w) vault_env \<Rightarrow> ('w \<Rightarrow> bool) \<Rightarrow> (('k, 'n, 'c) stored_record \<Rightarrow> bool) \<Rightarrow> bool" where
  "dependable ve ok fits \<longleftrightarrow>
     (\<forall>w. ok w \<longrightarrow> (\<exists>w'. disk_purge (ve_disk ve) w = (Inr (), w') \<and> ok w' \<and> disk_read (ve_disk ve) w' = disk_read (ve_disk ve) w)) \<and>
     (\<forall>b w. ok w \<longrightarrow> (\<exists>w'. disk_write (ve_disk ve) b w = (Inr (), w') \<and> ok w')) \<and>
     (\<forall>name w. ok w \<longrightarrow> ok (disk_remove_sighting (ve_disk ve) name w)) \<and>
     (\<forall>rs. list_all fits rs \<and> length rs < 2 ^ 32 \<longrightarrow> (\<exists>blob. ve_encode ve rs = Inr blob)) \<and>
     (\<forall>r. fits r \<longrightarrow> ve_storable ve r \<and> fits (revoke (ve_engine ve) False r))"

text \<open>The vault and a store in memory hold the same records, and the vault's are stored.\<close>

definition sim :: "('k, 'n, 'c, 'a, 'w) vault_env \<Rightarrow> ('w \<Rightarrow> bool) \<Rightarrow> (('k, 'n, 'c) stored_record \<Rightarrow> bool) \<Rightarrow>
    ('k, 'n, 'c, 'w) ProtectedPairingStore \<Rightarrow> ('k, bytes, 'n, 'c, bytes) MemoryPairingStore \<Rightarrow> bool" where
  "sim ve ok fits s m \<longleftrightarrow> v_records s = mem_records m \<and> on_disk ve (v_directory s) = Some (v_records s) \<and> ok (v_directory s) \<and>
     list_all fits (v_records s) \<and> length (v_records s) < 2 ^ 32"

lemma write_set_dependable:
  assumes "lawful ve" "dependable ve ok fits" "list_all fits rs" "length rs < 2 ^ 32" "ok w"
  shows "\<exists>w'. write_set ve rs w = (Inr (), w') \<and> on_disk ve w' = Some rs \<and> ok w'"
proof -
  obtain blob where blob: "ve_encode ve rs = Inr blob" using assms(2-4) by (auto simp: dependable_def)
  obtain w' where w': "disk_write (ve_disk ve) blob w = (Inr (), w')" "ok w'" using assms(2,5) unfolding dependable_def by blast
  have "list_all (ve_storable ve) rs" using assms(2,3) by (auto simp: dependable_def list_all_iff)
  from write_set_cases [OF assms(1) this, of w] w' blob show ?thesis by (auto simp: write_set_def)
qed

lemma change_dependable:
  assumes "lawful ve" "dependable ve ok fits" "sim ve ok fits s m" "f (mem_records m) = Inr rs" "list_all fits rs" "length rs < 2 ^ 32"
  shows "\<exists>s'. change ve f s = (Inr (), s') \<and> v_records s' = rs \<and> on_disk ve (v_directory s') = Some rs \<and> ok (v_directory s')"
proof -
  have "ok (v_directory s)" "on_disk ve (v_directory s) = Some (mem_records m)" using assms(3) by (simp_all add: sim_def)
  then show ?thesis using write_set_dependable [OF assms(1,2,5,6)] assms(4)
    by (fastforce simp: change_def refresh_cases persist_def)
qed

lemma sim_remove:
  assumes "lawful ve" "dependable ve ok fits" "sim ve ok fits s m"
  shows "sim ve ok fits (snd (Protected_remove ve p s)) (snd (Memory_remove (ve_engine ve) p m))"
proof (cases "records_remove (ve_engine ve) p (mem_records m)")
  case (Inl e)
  then show ?thesis using assms(3) by (auto simp: Protected_remove_def Memory_remove_def change_def refresh_cases sim_def)
next
  case (Inr rs)
  have rs: "list_all fits rs" "length rs < 2 ^ 32"
    using assms(3) Inr by (auto simp: sim_def records_remove_def Let_def list_all_iff split: if_splits intro: le_less_trans [OF length_filter_le])
  have same: "on_disk ve (remove_sighting ve p w) = on_disk ve w" "ok w \<Longrightarrow> ok (remove_sighting ve p w)" for w
    using assms(1,2) by (simp_all add: lawful_def disk_laws_def dependable_def remove_sighting_def on_disk_def)
  from change_dependable [of ve ok fits s m "records_remove (ve_engine ve) p", OF assms Inr rs] show ?thesis
    using rs Inr by (auto simp: Protected_remove_def Memory_remove_def sim_def same)
qed

lemma length_records_update: "records_update eng p f rs = Inr rs' \<Longrightarrow> length rs' = length rs"
  by (induction rs arbitrary: rs') (auto simp: bindR_eq_Inr split: if_splits)

lemma sim_revoke:
  assumes "lawful ve" "dependable ve ok fits" "sim ve ok fits s m"
  shows "sim ve ok fits (snd (Protected_update ve p (revoke (ve_engine ve) False) s)) (snd (Memory_update (ve_engine ve) p (revoke (ve_engine ve) False) m))"
proof (cases "records_update (ve_engine ve) p (revoke (ve_engine ve) False) (mem_records m)")
  case (Inl e)
  then show ?thesis using assms(3) by (auto simp: Protected_update_def Memory_update_def change_def refresh_cases sim_def)
next
  case (Inr rs)
  have "list_all fits (mem_records m)" "length (mem_records m) < 2 ^ 32" using assms(3) by (auto simp: sim_def)
  then have rs: "list_all fits rs" "length rs < 2 ^ 32"
    using records_update_all [OF Inr] assms(2) length_records_update [OF Inr] by (auto simp: dependable_def)
  from change_dependable [of ve ok fits s m "records_update (ve_engine ve) p (revoke (ve_engine ve) False)", OF assms Inr rs] show ?thesis
    using rs Inr by (auto simp: Protected_update_def Memory_update_def sim_def)
qed

lemma each_sim:
  assumes "\<And>p s m. R s m \<Longrightarrow> R (snd (f p s)) (snd (g p m))" "R s m"
  shows "R (each f ps s) (each g ps m)"
  using assms(2) by (induction ps arbitrary: s m) (auto simp: each_def assms(1))

lemma protected_store_simps [simp]:
  "so_get (protected_store ve) p s = records_get (ve_engine ve) p (v_records s)"
  "so_pair_ids (protected_store ve) s = rev (map (pair_id (ve_engine ve)) (v_records s))"
  "so_update (protected_store ve) = Protected_update ve" "so_remove (protected_store ve) = Protected_remove ve"
  by (simp_all add: protected_store_def rev_map)

lemma memory_get [simp]: "so_get (memory_store eng) p m = records_get eng p (mem_records m)"
  by (simp add: memory_store_def)

lemma sim_cleanup:
  assumes "lawful ve" "dependable ve ok fits" "sim ve ok fits s m"
  shows "fst (remove_unconfirmed (ve_engine ve) (protected_store ve) s) = fst (remove_unconfirmed (ve_engine ve) (memory_store (ve_engine ve)) m)"
    "sim ve ok fits (snd (remove_unconfirmed (ve_engine ve) (protected_store ve) s)) (snd (remove_unconfirmed (ve_engine ve) (memory_store (ve_engine ve)) m))"
    "fst (expire_revocation_notices (ve_engine ve) (protected_store ve) now s) = fst (expire_revocation_notices (ve_engine ve) (memory_store (ve_engine ve)) now m)"
    "sim ve ok fits (snd (expire_revocation_notices (ve_engine ve) (protected_store ve) now s))
       (snd (expire_revocation_notices (ve_engine ve) (memory_store (ve_engine ve)) now m))"
proof -
  have same: "v_records s = mem_records m" using assms(3) by (simp add: sim_def)
  show "fst (remove_unconfirmed (ve_engine ve) (protected_store ve) s) = fst (remove_unconfirmed (ve_engine ve) (memory_store (ve_engine ve)) m)"
    "fst (expire_revocation_notices (ve_engine ve) (protected_store ve) now s) = fst (expire_revocation_notices (ve_engine ve) (memory_store (ve_engine ve)) now m)"
    by (simp_all add: remove_unconfirmed_def expire_revocation_notices_def Let_def same)
  show "sim ve ok fits (snd (remove_unconfirmed (ve_engine ve) (protected_store ve) s)) (snd (remove_unconfirmed (ve_engine ve) (memory_store (ve_engine ve)) m))"
    unfolding remove_unconfirmed_def Let_def snd_conv protected_store_simps memory_store_simps memory_get same
    by (rule each_sim) (simp_all add: sim_remove [OF assms(1,2)] assms(3))
  show "sim ve ok fits (snd (expire_revocation_notices (ve_engine ve) (protected_store ve) now s))
       (snd (expire_revocation_notices (ve_engine ve) (memory_store (ve_engine ve)) now m))"
    unfolding expire_revocation_notices_def Let_def snd_conv protected_store_simps memory_store_simps memory_get same revoke_pairing_def
    by (rule each_sim) (simp_all add: sim_revoke [OF assms(1,2)] assms(3))
qed

lemma memory_cleanup:
  assumes "mem_good eng m"
  shows "by_id eng (mem_records (snd (expire_revocation_notices eng (memory_store eng) now (snd (remove_unconfirmed eng (memory_store eng) m))))) =
    (\<lambda>p. case by_id eng (mem_records m) p of None \<Rightarrow> None
      | Some r \<Rightarrow> if record_state eng r = PairingState_Unconfirmed then None else Some (case pair_record r of
            Some k \<Rightarrow> if eng_notice_expired eng k now then revoke eng False r else r | None \<Rightarrow> r))"
proof -
  let ?m = "snd (remove_unconfirmed eng (memory_store eng) m)"
  have "mem_good eng ?m" "by_id eng (mem_records ?m) = (\<lambda>p. case by_id eng (mem_records m) p of None \<Rightarrow> None
      | Some r \<Rightarrow> if record_state eng r = PairingState_Unconfirmed then None else Some r)"
    using memory.remove_unconfirmed_spec [OF assms] by simp_all
  then show ?thesis using memory.expire_revocation_notices_spec [of eng ?m now]
    by (auto simp: fun_eq_iff split: option.splits)
qed

lemma on_disk_found:
  assumes "on_disk ve w = Some rs"
  shows "\<exists>found st. disk_read (ve_disk ve) w = Inr found \<and> set_records st = rs \<and>
    (case found of Some blob \<Rightarrow> map_err (\<lambda>_. CredentialStoreError_InvalidStoredPairing) (ve_decode ve blob) | None \<Rightarrow> Inr PairingSet_default) = Inr st"
proof (cases "disk_read (ve_disk ve) w")
  case (Inr found)
  show ?thesis
  proof (cases found)
    case (Some blob)
    then show ?thesis using assms Inr by (cases "ve_decode ve blob") (auto simp: on_disk_def)
  qed (use assms Inr in \<open>simp add: on_disk_def PairingSet_default_def\<close>)
qed (use assms in \<open>simp add: on_disk_def\<close>)

lemma sim_persist:
  assumes "lawful ve" "dependable ve ok fits" "sim ve ok fits s m"
  shows "\<exists>s'. persist ve s = (Inr (), s') \<and> sim ve ok fits s' m"
  using write_set_dependable [OF assms(1,2), of "v_records s" "v_directory s"] assms(3) by (auto simp: persist_def sim_def)


section \<open>Properties\<close>


text \<open>
  A set that cannot be read is never overwritten: every call that would change it answers \<open>Unreadable\<close> and leaves the files as
  they are.
\<close>

theorem unreadable_set_untouched:
  assumes "on_disk ve (v_directory s) = None"
  shows "fst (do_call ve call s) = Inl StoreError_Unreadable \<and> v_directory (snd (do_call ve call s)) = v_directory s"
  using change_unreadable [OF assms]
  by (cases call) (simp_all add: Protected_insert_def Protected_update_def Protected_remove_def case_prod_beta split: prod.split sum.split)


text \<open>
  Loading cleans up: on a computer whose files can be written, a load succeeds, what it holds is what is stored, no pairing
  that the phone never confirmed remains, a forgotten pairing whose time has passed has lost its keys, and every other
  pairing is as it was.
\<close>

theorem load_cleans_up:
  assumes "lawful ve" "dependable ve ok fits" "ok w" "on_disk ve w = Some rs" "distinct (map (pair_id (ve_engine ve)) rs)"
    "list_all fits rs" "length rs < 2 ^ 32"
  shows "\<exists>s'. fst (load_from ve now w) = Inr s' \<and> on_disk ve (v_directory s') = Some (v_records s') \<and>
    by_id (ve_engine ve) (v_records s') = (\<lambda>p. case by_id (ve_engine ve) rs p of
        None \<Rightarrow> None
      | Some r \<Rightarrow> if record_state (ve_engine ve) r = PairingState_Unconfirmed then None
          else Some (case pair_record r of
                 Some k \<Rightarrow> if eng_notice_expired (ve_engine ve) k now then revoke (ve_engine ve) False r else r
               | None \<Rightarrow> r))"
proof -
  obtain w' where w': "disk_purge (ve_disk ve) w = (Inr (), w')" "ok w'" "disk_read (ve_disk ve) w' = disk_read (ve_disk ve) w"
    using assms(2,3) unfolding dependable_def by blast
  then have disk: "on_disk ve w' = Some rs" using assms(4) by (simp add: on_disk_def)
  let ?s = "\<lparr>v_records = rs, v_sightings = read_sightings ve w', v_directory = w'\<rparr>" and ?m = "in_memory rs"
  let ?eng = "ve_engine ve"
  let ?r = "remove_unconfirmed ?eng (protected_store ve) ?s" and ?rm = "remove_unconfirmed ?eng (memory_store ?eng) ?m"
  let ?x = "expire_revocation_notices ?eng (protected_store ve) now (snd ?r)" and ?xm = "expire_revocation_notices ?eng (memory_store ?eng) now (snd ?rm)"
  have "sim ve ok fits ?s ?m" using disk w'(2) assms(6,7) by (simp add: sim_def in_memory_def)
  from sim_cleanup(2) [OF assms(1,2) this] have "sim ve ok fits (snd ?r) (snd ?rm)" .
  from sim_cleanup(4) [OF assms(1,2) this] have end_sim: "sim ve ok fits (snd ?x) (snd ?xm)" .
  obtain s'' where persisted: "persist ve (snd ?x) = (Inr (), s'')" "sim ve ok fits s'' (snd ?xm)"
    using sim_persist [OF assms(1,2) end_sim] by blast
  obtain found st where st: "disk_read (ve_disk ve) w' = Inr found" "set_records st = rs"
      "(case found of Some blob \<Rightarrow> map_err (\<lambda>_. CredentialStoreError_InvalidStoredPairing) (ve_decode ve blob) | None \<Rightarrow> Inr PairingSet_default) = Inr st"
    using on_disk_found [OF disk] by blast
  then have "fst (load_from ve now w) = Inr (if fst ?r \<noteq> [] \<or> fst ?x \<noteq> [] \<or> set_refused st > 0 then s'' else snd ?x)"
    using persisted(1) w'(1) by (simp add: load_from_def Let_def case_prod_beta)
  moreover have "sim ve ok fits (if fst ?r \<noteq> [] \<or> fst ?x \<noteq> [] \<or> set_refused st > 0 then s'' else snd ?x) (snd ?xm)"
    using end_sim persisted(2) by simp
  moreover have "mem_good ?eng ?m" using assms(5) by (simp add: mem_good_def in_memory_def)
  from memory_cleanup [OF this] have "by_id ?eng (mem_records (snd ?xm)) = (\<lambda>p. case by_id ?eng rs p of None \<Rightarrow> None
      | Some r \<Rightarrow> if record_state ?eng r = PairingState_Unconfirmed then None else Some (case pair_record r of
            Some k \<Rightarrow> if eng_notice_expired ?eng k now then revoke ?eng False r else r | None \<Rightarrow> r))"
    by (simp add: in_memory_def)
  ultimately show ?thesis by (auto simp: sim_def)
qed



section \<open>A computer for the witnesses\<close>

text \<open>Its world is the content of the file and whether each of the next writes succeeds.\<close>

definition example_disk :: "(bytes option \<times> bool list) disk" where
  "example_disk =
     \<lparr>disk_purge = (\<lambda>w. (Inr (), w)), disk_read = (\<lambda>(file, _). Inr file),
      disk_write = (\<lambda>b (file, script). if hd (script @ [True]) then (Inr (), (Some b, tl script)) else (Inl CredentialStoreError_File, (file, tl script))),
      disk_sightings = (\<lambda>_. []), disk_write_sighting = (\<lambda>_ _ w. (Inr (), w)), disk_remove_sighting = (\<lambda>_ w. w)\<rparr>"

definition example_vault :: "(example_keys, unit, bytes, unit, bytes option \<times> bool list) vault_env" where
  "example_vault = \<lparr>ve_engine = example_engine, ve_borders = example_borders, ve_pid_len = 1, ve_fp_len = 1, ve_disk = example_disk\<rparr>"

definition example_unconfirmed :: "u8 \<Rightarrow> (example_keys, unit, bytes) stored_record" where
  "example_unconfirmed i = PairingRecord_new \<lparr>ek_id = i, ek_confirmed = False, ek_forgotten = None\<rparr> []"

definition example_fits :: "(example_keys, unit, bytes) stored_record \<Rightarrow> bool" where
  "example_fits r \<longleftrightarrow> ve_storable example_vault r \<and> peer_platform r = [] \<and>
     (case keys r of Keys_Held k \<Rightarrow> True | Keys_Revoked p _ _ \<Rightarrow> length p = 1) \<and>
     certificates r \<in> {Certificates_NONE, Certificates_NONE\<lparr>authentication := Some [7]\<rparr>}"

lemma example_lawful: "lawful example_vault"
  using example_border_laws by (auto simp: lawful_def example_vault_def disk_laws_def example_disk_def split: if_splits)

lemma put_records_total:
  "\<forall>r\<in>set rs. \<exists>b. encode_pairing_record eng bd r = Inr b \<and> length b < 2 ^ 32 \<Longrightarrow> \<exists>body. put_records eng bd rs = Inr body"
  by (induction rs) (auto simp: put_bytes_def put_length_def)

lemma encode_records_total:
  "\<forall>r\<in>set rs. \<exists>b. encode_pairing_record eng bd r = Inr b \<and> length b < 2 ^ 32 \<Longrightarrow> length rs < 2 ^ 32 \<Longrightarrow>
    \<exists>blob. encode_pairing_records eng bd rs = Inr blob"
  using put_records_total [of rs eng bd] by (auto simp: encode_pairing_records_def put_length_def)

lemma length_ek_encode: "length (ek_encode k) \<le> 10"
  by (simp add: ek_encode_def split: option.split)

lemma example_fits_encodes:
  assumes "example_fits r"
  shows "\<exists>b. encode_pairing_record example_engine example_borders r = Inr b \<and> length b < 2 ^ 32"
proof -
  have "\<exists>ks. encode_keys example_engine example_borders r = Inr ks \<and> length ks < 100"
  proof (cases "keys r")
    case (Keys_Held k)
    then show ?thesis using length_ek_encode [of k]
      by (simp add: encode_keys_def pair_record_def example_engine_def put_bytes_def put_length_def)
  next
    case (Keys_Revoked p b n)
    then show ?thesis using assms
      by (simp add: encode_keys_def pair_record_def example_fits_def example_borders_def put_bytes_def put_length_def pair_id_def)
  qed
  moreover have "certificates r = Certificates_NONE \<or> certificates r = Certificates_NONE\<lparr>authentication := Some [7]\<rparr>" "peer_platform r = []"
    using assms by (simp_all add: example_fits_def)
  ultimately show ?thesis
    by (auto simp: encode_pairing_record_def put_bytes_def put_length_def put_optional_certificate_def Certificates_NONE_def
        example_borders_def PAIRING_BLOB_MAGIC_def)
qed

lemma example_dependable: "dependable example_vault (\<lambda>(_, script). script = []) example_fits"
proof -
  have "\<exists>blob. ve_encode example_vault rs = Inr blob" if "list_all example_fits rs" "length rs < 2 ^ 32" for rs
    using encode_records_total [OF _ that(2), of example_engine example_borders] example_fits_encodes that(1)
    by (simp add: example_vault_def list_all_iff)
  moreover have "example_fits (revoke example_engine False r)" if "example_fits r" for r
    using that by (auto simp: example_fits_def example_vault_def storable_def revoke_def revoked_keys_def pair_id_def
        example_engine_def split: Keys.splits)
  ultimately show ?thesis
    by (auto simp: dependable_def example_disk_def example_vault_def example_fits_def)
qed


lemma example_on_disk:
  assumes "ve_encode example_vault rs = Inr blob" "list_all (ve_storable example_vault) rs"
  shows "on_disk example_vault (Some blob, script) = Some rs"
  using set_roundtrip [OF _ assms(2,1)] example_lawful by (simp add: on_disk_def lawful_def) (simp add: example_vault_def example_disk_def)

lemma example_storable_records:
  "ve_storable example_vault (example_unconfirmed i)" "ve_storable example_vault example_pairing"
  "example_fits (example_unconfirmed i)" "example_fits example_pairing"
  using example_storable
  by (simp_all add: example_vault_def example_fits_def)
    (simp_all add: storable_def example_unconfirmed_def example_store_defs is_utf8.simps pair_id_def ek_roundtrip)

lemma example_encodes: "list_all example_fits rs \<Longrightarrow> length rs < 2 ^ 32 \<Longrightarrow> \<exists>blob. ve_encode example_vault rs = Inr blob"
  using example_dependable by (simp add: dependable_def)

theorem load_cleans_up_witness:
  "\<exists>blob s'. ve_encode example_vault [example_pairing, example_unconfirmed 2] = Inr blob \<and>
     fst (load_from example_vault 0 (Some blob, [])) = Inr s' \<and> by_id example_engine (v_records s') [2] = None \<and>
     by_id example_engine (v_records s') [1] = Some example_pairing"
proof -
  let ?rs = "[example_pairing, example_unconfirmed 2]"
  obtain blob where blob: "ve_encode example_vault ?rs = Inr blob"
    using example_encodes [of ?rs] by (auto simp: example_storable_records)
  have disk: "on_disk example_vault (Some blob, []) = Some ?rs"
    by (rule example_on_disk [OF blob]) (simp add: example_storable_records)
  have eng: "ve_engine example_vault = example_engine" by (simp add: example_vault_def)
  have ids: "pair_id example_engine example_pairing = [1]" "pair_id example_engine (example_unconfirmed 2) = [2]"
    by (simp_all add: pair_id_def example_unconfirmed_def example_store_defs)
  have states: "record_state example_engine example_pairing = PairingState_Serving"
      "record_state example_engine (example_unconfirmed 2) = PairingState_Unconfirmed"
      "case pair_record example_pairing of Some k \<Rightarrow> \<not> eng_notice_expired example_engine k 0 | None \<Rightarrow> True"
    by (simp_all add: record_state_def pair_record_def example_unconfirmed_def example_store_defs)
  have fit: "distinct (map (pair_id (ve_engine example_vault)) ?rs)" "list_all example_fits ?rs" "length ?rs < 2 ^ 32"
      "case (Some blob, []) of (_, script) \<Rightarrow> script = ([] :: bool list)"
    by (simp_all add: eng ids example_storable_records)
  from load_cleans_up [OF example_lawful example_dependable fit(4) disk fit(1-3), of 0, unfolded eng]
  obtain s' where "fst (load_from example_vault 0 (Some blob, [])) = Inr s'" "by_id example_engine (v_records s') = (\<lambda>p. case by_id example_engine ?rs p of
        None \<Rightarrow> None
      | Some r \<Rightarrow> if record_state example_engine r = PairingState_Unconfirmed then None
          else Some (case pair_record r of Some k \<Rightarrow> if eng_notice_expired example_engine k 0 then revoke example_engine False r else r | None \<Rightarrow> r))"
    by blast
  then show ?thesis using blob states by (auto simp: ids split: option.splits)
qed


theorem unreadable_set_untouched_witness:
  "fst (do_call example_vault (Vault_Remove [1]) \<lparr>v_records = [], v_sightings = [], v_directory = (Some [0], [])\<rparr>) = Inl StoreError_Unreadable"
proof -
  have "on_disk example_vault (Some [0], []) = None"
    by (simp add: on_disk_def example_vault_def example_disk_def decode_pairing_records_def blob_take_def bindS_def PAIRING_SET_MAGIC_def)
  then show ?thesis using unreadable_set_untouched [of example_vault "\<lparr>v_records = [], v_sightings = [], v_directory = (Some [0], [])\<rparr>" "Vault_Remove [1]"]
    by simp
qed



end
