(* ===== verification/X509.thy ===== *)
theory X509
  imports Ber
begin

text \<open>
  Certificates as \<open>crates/refineid-lib-core/src/x509.rs\<close> reads them: the fields of a certificate, its key usage, basic
  constraints and the addresses it advertises. The walk over the outer structure uses the readers of the crate \<open>der\<close>, which
  are the parameter \<open>der\<close>: \<open>AnyRef::from_der\<close> splits one TLV into its tag and value, \<open>SliceReader\<close> hands out the TLVs of
  a buffer in turn. A reader is modelled by the TLVs still ahead and by whether the buffer ends after the last of them, so
  that every loop over a reader is a recursion over a list. The inner values of extensions are read with \<open>Ber\<close>.

  Times are the seconds of \<open>unix_duration\<close>, which determine a \<open>der::DateTime\<close> and its order.
\<close>


section \<open>Definitions\<close>

subsection \<open>The readers of the crate der\<close>

datatype der_tag =
    Tag_Boolean | Tag_Integer | Tag_BitString | Tag_OctetString | Tag_ObjectIdentifier | Tag_Enumerated | Tag_UtcTime
  | Tag_GeneralizedTime | Tag_Sequence | Tag_ContextSpecific bool nat | Tag_Other nat

type_synonym DateTime = nat
type_synonym der_reader = "bytes list \<times> bool"

record SpkiDer =
  spki_der :: bytes
  subject_public_key :: bytes

record der =
  der_any :: "bytes \<Rightarrow> (der_tag \<times> bytes) option"
  der_slice :: "bytes \<Rightarrow> der_reader option"
  der_time :: "bytes \<Rightarrow> DateTime option"
  der_generalized_time :: "bytes \<Rightarrow> DateTime option"
  der_validity :: "bytes \<Rightarrow> (DateTime \<times> DateTime) option"
  der_spki :: "bytes \<Rightarrow> SpkiDer option"

definition is_finished :: "der_reader \<Rightarrow> bool" where
  "is_finished r \<longleftrightarrow> r = ([], True)"

definition take_tlv :: "der_reader \<Rightarrow> (bytes \<times> der_reader) option" where
  "take_tlv r = (case r of ([], _) \<Rightarrow> None | (x # xs, ok) \<Rightarrow> Some (x, (xs, ok)))"


subsection \<open>Errors and object identifiers\<close>

datatype X509Error =
    X509Error_Ber BerError
  | X509Error_UnexpectedStructure string
  | X509Error_InvalidTime
  | X509Error_InvalidString
  | X509Error_BerInContext BerError string

datatype OidError = OidError_Empty | OidError_UnterminatedArc

definition Oid_new :: "bytes \<Rightarrow> OidError + bytes" where
  "Oid_new bs = (if bs = [] then Inl OidError_Empty else if last bs AND 0x80 \<noteq> 0 then Inl OidError_UnterminatedArc else Inr bs)"

definition OID_KEY_USAGE :: bytes where "OID_KEY_USAGE = [0x55, 0x1D, 0x0F]"
definition OID_BASIC_CONSTRAINTS :: bytes where "OID_BASIC_CONSTRAINTS = [0x55, 0x1D, 0x13]"
definition OID_CRL_DISTRIBUTION_POINTS :: bytes where "OID_CRL_DISTRIBUTION_POINTS = [0x55, 0x1D, 0x1F]"
definition OID_AUTHORITY_INFO_ACCESS :: bytes where "OID_AUTHORITY_INFO_ACCESS = [0x2B, 6, 1, 5, 5, 7, 1, 1]"
definition OID_AD_OCSP :: bytes where "OID_AD_OCSP = [0x2B, 6, 1, 5, 5, 7, 0x30, 1]"
definition OID_AD_CA_ISSUERS :: bytes where "OID_AD_CA_ISSUERS = [0x2B, 6, 1, 5, 5, 7, 0x30, 2]"

abbreviation (input) structure_error :: "string \<Rightarrow> 'a option \<Rightarrow> X509Error + 'a" where
  "structure_error what \<equiv> ok_or (X509Error_UnexpectedStructure what)"


subsection \<open>The certificate\<close>

record Certificate =
  crt_raw_der :: bytes
  crt_tbs_der :: bytes
  crt_serial_der :: bytes
  crt_issuer :: bytes
  crt_subject :: bytes
  crt_not_before :: DateTime
  crt_not_after :: DateTime
  crt_spki :: SpkiDer
  crt_extensions :: "bytes option"
  crt_signature_alg_oid :: bytes
  crt_signature_bits :: bytes

definition VERSION_TAG :: der_tag where "VERSION_TAG = Tag_ContextSpecific True 0"
definition EXTENSIONS_TAG :: der_tag where "EXTENSIONS_TAG = Tag_ContextSpecific True 3"

text \<open>The next TLV, as its bytes and as its tag and value.\<close>

definition next_tlv :: "string \<Rightarrow> der_reader \<Rightarrow> X509Error + (bytes \<times> der_reader)" where
  "next_tlv what r = structure_error what (take_tlv r)"

definition next_any :: "der \<Rightarrow> string \<Rightarrow> der_reader \<Rightarrow> X509Error + ((der_tag \<times> bytes) \<times> der_reader)" where
  "next_any d what r =
     bindR (next_tlv what r) (\<lambda>(t, r). bindR (structure_error what (der_any d t)) (\<lambda>a. Inr (a, r)))"

text \<open>The fields after the public key; only the extensions are kept.\<close>

fun tbs_extensions :: "der \<Rightarrow> bytes list \<Rightarrow> bool \<Rightarrow> bytes option \<Rightarrow> X509Error + bytes option" where
  "tbs_extensions d [] ok found = (if ok then Inr found else Inl (X509Error_UnexpectedStructure ''TBS trailing field''))"
| "tbs_extensions d (t # ts) ok found =
     bindR (structure_error ''TBS trailing field'' (der_any d t)) (\<lambda>(tag, v).
       if tag = EXTENSIONS_TAG
       then bindR (structure_error ''extensions not SEQUENCE'' (der_any d v)) (\<lambda>(_, inner). tbs_extensions d ts ok (Some inner))
       else tbs_extensions d ts ok found)"

definition parse_tbs :: "der \<Rightarrow> bytes \<Rightarrow> bytes \<Rightarrow> bytes \<Rightarrow> bytes \<Rightarrow> X509Error + Certificate" where
  "parse_tbs d tbs raw alg bits =
     bindR (structure_error ''tbsCertificate not a TLV'' (der_any d tbs)) (\<lambda>(tag, v).
       if tag \<noteq> Tag_Sequence then Inl (X509Error_UnexpectedStructure ''tbsCertificate not SEQUENCE'')
       else
         bindR (structure_error ''tbsCertificate body'' (der_slice d v)) (\<lambda>r.
         bindR (next_any d ''TBS first field'' r) (\<lambda>((tag, v), r).
         bindR (if tag = VERSION_TAG then bindR (next_any d ''serialNumber'' r) (\<lambda>((_, v), r). Inr (v, r)) else Inr (v, r)) (\<lambda>(serial, r).
         bindR (next_tlv ''TBS signature alg'' r) (\<lambda>(_, r).
         bindR (next_tlv ''issuer'' r) (\<lambda>(issuer, r).
         bindR (next_tlv ''validity'' r) (\<lambda>(validity, r).
         bindR (ok_or X509Error_InvalidTime (der_validity d validity)) (\<lambda>(not_before, not_after).
         bindR (next_tlv ''subject'' r) (\<lambda>(subject, r).
         bindR (next_tlv ''subjectPublicKeyInfo'' r) (\<lambda>(spki_bytes, r).
         bindR (structure_error ''malformed SubjectPublicKeyInfo'' (der_spki d spki_bytes)) (\<lambda>spki.
         bindR (tbs_extensions d (fst r) (snd r) None) (\<lambda>extensions.
           Inr \<lparr>crt_raw_der = raw, crt_tbs_der = tbs, crt_serial_der = serial, crt_issuer = issuer, crt_subject = subject,
                crt_not_before = not_before, crt_not_after = not_after, crt_spki = spki, crt_extensions = extensions,
                crt_signature_alg_oid = alg, crt_signature_bits = bits\<rparr>))))))))))))"

definition Certificate_from_der :: "der \<Rightarrow> bytes \<Rightarrow> X509Error + Certificate" where
  "Certificate_from_der d raw =
     bindR (structure_error ''Certificate not a TLV'' (der_any d raw)) (\<lambda>(tag, v).
       if tag \<noteq> Tag_Sequence then Inl (X509Error_UnexpectedStructure ''Certificate not SEQUENCE'')
       else
         bindR (structure_error ''Certificate body'' (der_slice d v)) (\<lambda>r.
         bindR (next_tlv ''tbsCertificate'' r) (\<lambda>(tbs, r).
         bindR (next_tlv ''signatureAlgorithm'' r) (\<lambda>(alg_tlv, r).
         bindR (next_tlv ''signature'' r) (\<lambda>(sig_tlv, r).
         bindR (structure_error ''signatureAlgorithm not SEQUENCE'' (der_any d alg_tlv)) (\<lambda>(_, alg).
         bindR (structure_error ''signatureAlgorithm body'' (der_slice d alg)) (\<lambda>alg_reader.
         bindR (next_tlv ''signatureAlgorithm OID missing'' alg_reader) (\<lambda>(oid_tlv, _).
         bindR (structure_error ''signatureAlgorithm OID malformed'' (der_any d oid_tlv)) (\<lambda>(_, oid_value).
         bindR (map_err (\<lambda>_. X509Error_UnexpectedStructure ''signatureAlgorithm OID malformed'') (Oid_new oid_value)) (\<lambda>oid.
         bindR (structure_error ''signature not a TLV'' (der_any d sig_tlv)) (\<lambda>(_, sig).
         bindR (structure_error ''signature BIT STRING missing'' (get_from sig 1)) (\<lambda>bits.
           parse_tbs d tbs raw oid bits))))))))))))"

text \<open>What a signature check is given; the check itself is the cryptographic parameter \<open>verify\<close> of its callers.\<close>

record TbsSignature =
  ts_tbs_der :: bytes
  ts_signature_alg_oid :: bytes
  ts_signature_bits :: bytes
  ts_issuer_spki_der :: bytes

definition verify_signed_by :: "(TbsSignature \<Rightarrow> bool) \<Rightarrow> Certificate \<Rightarrow> Certificate \<Rightarrow> bool" where
  "verify_signed_by verify c issuer =
     verify \<lparr>ts_tbs_der = crt_tbs_der c, ts_signature_alg_oid = crt_signature_alg_oid c, ts_signature_bits = crt_signature_bits c,
             ts_issuer_spki_der = spki_der (crt_spki issuer)\<rparr>"


subsection \<open>Extensions\<close>

record ExtensionMeta =
  em_value :: bytes
  em_critical :: bool

text \<open>
  One extension of the block: \<open>None\<close> ends the search without a result (a read failed), \<open>Some None\<close> goes on to the next
  extension, \<open>Some (Some m)\<close> is the result. \<open>?\<close> on a failed read returns from the whole function.
\<close>

definition extension_at :: "der \<Rightarrow> bytes \<Rightarrow> bytes \<Rightarrow> ExtensionMeta option option" where
  "extension_at d oid_value t =
     (case der_any d t of
        None \<Rightarrow> None
      | Some (tag, v) \<Rightarrow>
          if tag \<noteq> Tag_Sequence then Some None
          else
            (case der_slice d v of
               None \<Rightarrow> None
             | Some fs \<Rightarrow>
                 (case next_any d [] fs of
                    Inl _ \<Rightarrow> None
                  | Inr ((tag, v), fs) \<Rightarrow>
                      if tag \<noteq> Tag_ObjectIdentifier \<or> v \<noteq> oid_value then Some None
                      else
                        (case next_any d [] fs of
                           Inl _ \<Rightarrow> None
                         | Inr ((tag, v), fs) \<Rightarrow>
                             if tag = Tag_Boolean
                             then (case next_any d [] fs of
                                     Inl _ \<Rightarrow> None
                                   | Inr ((tag', v'), _) \<Rightarrow>
                                       if tag' \<noteq> Tag_OctetString then None
                                       else Some (Some \<lparr>em_value = v', em_critical = (v \<noteq> [] \<and> hd v \<noteq> 0)\<rparr>))
                             else if tag \<noteq> Tag_OctetString then None
                             else Some (Some \<lparr>em_value = v, em_critical = False\<rparr>)))))"

fun find_extension_in :: "der \<Rightarrow> bytes \<Rightarrow> bytes list \<Rightarrow> ExtensionMeta option" where
  "find_extension_in d oid_value [] = None"
| "find_extension_in d oid_value (t # ts) =
     (case extension_at d oid_value t of None \<Rightarrow> None | Some None \<Rightarrow> find_extension_in d oid_value ts | Some (Some m) \<Rightarrow> Some m)"

definition find_extension_with_meta :: "der \<Rightarrow> bytes \<Rightarrow> bytes \<Rightarrow> ExtensionMeta option" where
  "find_extension_with_meta d extensions oid_value =
     (case der_slice d extensions of None \<Rightarrow> None | Some r \<Rightarrow> find_extension_in d oid_value (fst r))"

definition find_extension :: "der \<Rightarrow> bytes \<Rightarrow> bytes \<Rightarrow> bytes option" where
  "find_extension d extensions oid_value = map_option em_value (find_extension_with_meta d extensions oid_value)"

definition TAG_BOOLEAN :: u16 where "TAG_BOOLEAN = 0x01"
definition TAG_INTEGER :: u16 where "TAG_INTEGER = 0x02"
definition TAG_BIT_STRING :: u16 where "TAG_BIT_STRING = 0x03"
definition TAG_OCTET_STRING :: u16 where "TAG_OCTET_STRING = 0x04"
definition TAG_NULL :: u16 where "TAG_NULL = 0x05"
definition TAG_OID :: u16 where "TAG_OID = 0x06"
definition TAG_SEQUENCE :: u16 where "TAG_SEQUENCE = 0x30"

record KeyUsage =
  digital_signature :: bool
  non_repudiation :: bool
  key_encipherment :: bool
  data_encipherment :: bool
  key_agreement :: bool
  key_cert_sign :: bool
  crl_sign :: bool
  encipher_only :: bool
  decipher_only :: bool

definition key_usage_bits :: "u8 \<Rightarrow> u8 \<Rightarrow> KeyUsage" where
  "key_usage_bits b0 b1 =
     \<lparr>digital_signature = b0 AND 0x80 \<noteq> 0, non_repudiation = b0 AND 0x40 \<noteq> 0, key_encipherment = b0 AND 0x20 \<noteq> 0,
      data_encipherment = b0 AND 0x10 \<noteq> 0, key_agreement = b0 AND 0x08 \<noteq> 0, key_cert_sign = b0 AND 0x04 \<noteq> 0,
      crl_sign = b0 AND 0x02 \<noteq> 0, encipher_only = b0 AND 0x01 \<noteq> 0, decipher_only = b1 AND 0x80 \<noteq> 0\<rparr>"

definition first_or_zero :: "bytes \<Rightarrow> nat \<Rightarrow> u8" where
  "first_or_zero bs i = (case get_at bs i of None \<Rightarrow> 0 | Some b \<Rightarrow> b)"

definition extract_key_usage :: "der \<Rightarrow> bytes \<Rightarrow> KeyUsage option" where
  "extract_key_usage d extensions =
     (case find_extension d extensions OID_KEY_USAGE of
        None \<Rightarrow> None
      | Some v \<Rightarrow>
          (case BerTlv_parse TAG_BIT_STRING v of
             Inl _ \<Rightarrow> None
           | Inr bit_string \<Rightarrow>
               (case get_from (typed_value bit_string) 1 of
                  None \<Rightarrow> None
                | Some bytes \<Rightarrow> Some (key_usage_bits (first_or_zero bytes 0) (first_or_zero bytes 1)))))"

record KeyUsageMeta =
  kum_key_usage :: KeyUsage
  kum_critical :: bool

record BasicConstraints =
  bc_ca :: bool
  bc_path_len :: "u32 option"
  bc_critical :: bool
  bc_present :: bool

text \<open>The addresses of one access method, from the access descriptions that name it with a readable location.\<close>

definition GN_URI :: der_tag where "GN_URI = Tag_ContextSpecific False 6"

definition access_url :: "der \<Rightarrow> (bytes \<Rightarrow> 'u option) \<Rightarrow> bytes \<Rightarrow> bytes \<Rightarrow> 'u option" where
  "access_url d uri access_method t =
     (case der_any d t of
        None \<Rightarrow> None
      | Some (tag, v) \<Rightarrow>
          if tag \<noteq> Tag_Sequence then None
          else
            (case der_slice d v of
               None \<Rightarrow> None
             | Some fs \<Rightarrow>
                 (case next_any d [] fs of
                    Inl _ \<Rightarrow> None
                  | Inr ((tag, v), fs) \<Rightarrow>
                      if tag \<noteq> Tag_ObjectIdentifier \<or> v \<noteq> access_method then None
                      else
                        (case next_any d [] fs of
                           Inl _ \<Rightarrow> None
                         | Inr ((tag, v), _) \<Rightarrow> if tag = GN_URI then uri v else None))))"

definition aia_urls_for :: "der \<Rightarrow> (bytes \<Rightarrow> 'u option) \<Rightarrow> bytes \<Rightarrow> bytes \<Rightarrow> 'u list" where
  "aia_urls_for d uri extensions access_method =
     (case find_extension d extensions OID_AUTHORITY_INFO_ACCESS of
        None \<Rightarrow> []
      | Some extn_value \<Rightarrow>
          (case der_any d extn_value of
             None \<Rightarrow> []
           | Some (tag, v) \<Rightarrow>
               if tag \<noteq> Tag_Sequence then []
               else (case der_slice d v of
                       None \<Rightarrow> []
                     | Some r \<Rightarrow> List.map_filter (access_url d uri access_method) (fst r))))"

definition extract_ocsp_urls where
  "extract_ocsp_urls d uri extensions = aia_urls_for d uri extensions OID_AD_OCSP"

definition extract_ca_issuers_urls where
  "extract_ca_issuers_urls d uri extensions = aia_urls_for d uri extensions OID_AD_CA_ISSUERS"

definition TAG_GN_URI :: u16 where "TAG_GN_URI = 0x86"
definition TAG_DP_DISTRIBUTION_POINT_NAME :: u16 where "TAG_DP_DISTRIBUTION_POINT_NAME = 0xA0"
definition TAG_DP_FULL_NAME :: u16 where "TAG_DP_FULL_NAME = 0xA0"

text \<open>The values of the items of a block that carry a tag; items that do not parse are passed over.\<close>

definition values_tagged :: "u16 \<Rightarrow> bytes \<Rightarrow> bytes list" where
  "values_tagged tag bs =
     List.map_filter (\<lambda>i. case i of Inl _ \<Rightarrow> None | Inr t \<Rightarrow> if tlv_tag t = tag then Some (tlv_value t) else None) (ber_items bs)"

definition extract_crl_distribution_urls :: "der \<Rightarrow> (bytes \<Rightarrow> 'u option) \<Rightarrow> bytes \<Rightarrow> 'u list" where
  "extract_crl_distribution_urls d uri extensions =
     (case find_extension d extensions OID_CRL_DISTRIBUTION_POINTS of
        None \<Rightarrow> []
      | Some extn_value \<Rightarrow>
          (case BerTlv_parse TAG_SEQUENCE extn_value of
             Inl _ \<Rightarrow> []
           | Inr outer \<Rightarrow>
               List.map_filter uri
                 (concat (map (values_tagged TAG_GN_URI)
                   (concat (map (values_tagged TAG_DP_FULL_NAME)
                     (concat (map (values_tagged TAG_DP_DISTRIBUTION_POINT_NAME)
                       (values_tagged TAG_SEQUENCE (typed_value outer))))))))))"


section \<open>What a parsed certificate is\<close>

lemma parse_tbs_parts:
  "parse_tbs d tbs raw alg bits = Inr c \<Longrightarrow>
    crt_raw_der c = raw \<and> crt_tbs_der c = tbs \<and> crt_signature_alg_oid c = alg \<and> crt_signature_bits c = bits"
  by (auto simp: parse_tbs_def bindR_eq_Inr split: prod.splits if_splits)

lemma Certificate_from_der_raw: "Certificate_from_der d raw = Inr c \<Longrightarrow> crt_raw_der c = raw"
  by (auto simp: Certificate_from_der_def bindR_eq_Inr split: prod.splits if_splits dest: parse_tbs_parts)

end
