(* ===== verification/Path_Validation.thy ===== *)
theory Path_Validation
  imports X509
begin

text \<open>
  The certificate paths of a long-term signature, from \<open>crates/refineid-doc-sign/src/material.rs\<close>: the strict reading of the
  extensions that matter to a path, the conditions on one link, the search for an issuer among the anchors, the certificates
  at hand and the addresses a certificate advertises, and the two loops over a path: \<open>verify_chain_with\<close>, which only
  authenticates it, and \<open>walk\<close>, which also collects the status evidence of every link. The BER reader of
  \<open>refineid-doc-sign/src/ber.rs\<close> is the code of \<open>refineid-lib-core/src/ber.rs\<close> (theory \<open>Ber\<close>).

  The network is the state \<open>'w\<close> behind the evidence provider; the signature check is the parameter \<open>pe_verify\<close>. The texts
  that errors carry are left out. No loop has fuel: a path ends after at most \<open>MAX_DEPTH\<close> certificates.
\<close>


section \<open>Definitions\<close>

definition MAX_DEPTH :: nat where "MAX_DEPTH = 8"
definition MAX_CERTIFICATE_ADDRESSES :: nat where "MAX_CERTIFICATE_ADDRESSES = 3"

datatype MaterialError =
    MaterialError_NoChain | MaterialError_NoTrustAnchor | MaterialError_Certificate | MaterialError_InvalidIssuer
  | MaterialError_NoIssuer | MaterialError_ChainCycle | MaterialError_ChainTooDeep | MaterialError_Rng
  | MaterialError_Revocation | MaterialError_Revoked

datatype NoncePolicy = NoncePolicy_RequireEcho | NoncePolicy_AllowMissingEcho

record ChainStart =
  leaf_der :: bytes
  reference_time :: DateTime
  approved_anchor_ders :: "bytes list"
  nonce_policy :: NoncePolicy
  include_leaf :: bool
  include_anchor :: bool

record ValidationMaterial =
  vm_certificates :: "bytes list"
  vm_ocsp_responses :: "bytes list"
  vm_crls :: "bytes list"

record Collection =
  material :: ValidationMaterial
  candidates :: "bytes list"

definition Collection_default :: Collection where
  "Collection_default = \<lparr>material = \<lparr>vm_certificates = [], vm_ocsp_responses = [], vm_crls = []\<rparr>, candidates = []\<rparr>"

datatype StatusEvidence = StatusEvidence_Ocsp bytes | StatusEvidence_Crl bytes

text \<open>The trait \<open>EvidenceProvider\<close>, and what the path builder is built over.\<close>

record ('u, 'w) path_env =
  pe_der :: der
  pe_uri :: "bytes \<Rightarrow> 'u option"
  pe_verify :: "TbsSignature \<Rightarrow> bool"
  pe_fetch_issuer :: "'u \<Rightarrow> 'w \<Rightarrow> (unit + bytes) \<times> 'w"
  pe_status :: "NoncePolicy \<Rightarrow> Certificate \<Rightarrow> Certificate \<Rightarrow> DateTime \<Rightarrow> 'w \<Rightarrow> (MaterialError + StatusEvidence) \<times> 'w"

abbreviation parse_certificate where
  "parse_certificate pe \<equiv> Certificate_from_der (pe_der pe)"


subsection \<open>Extensions of a path certificate\<close>

definition EXT_KEY_USAGE :: bytes where "EXT_KEY_USAGE = [0x55, 0x1D, 0x25]"
definition NAME_CONSTRAINTS :: bytes where "NAME_CONSTRAINTS = [0x55, 0x1D, 0x1E]"
definition OCSP_NO_CHECK :: bytes where "OCSP_NO_CHECK = [0x2B, 6, 1, 5, 5, 7, 0x30, 1, 5]"
definition KP_OCSP_SIGNING :: bytes where "KP_OCSP_SIGNING = [0x2B, 6, 1, 5, 5, 7, 3, 9]"
definition KP_TIME_STAMPING :: bytes where "KP_TIME_STAMPING = [0x2B, 6, 1, 5, 5, 7, 3, 8]"

record PathExtensionProfile =
  basic_constraints :: BasicConstraints
  key_usage :: "KeyUsageMeta option"
  extended_key_usage_present :: bool
  ocsp_signing_extended_key_usage :: bool
  time_stamping_extended_key_usage :: bool
  other_extended_key_usage_present :: bool
  ocsp_no_check_present :: bool
  name_constraints_present :: bool

datatype PathExtensionError =
    PathExtensionError_Malformed string | PathExtensionError_Duplicate | PathExtensionError_UnsupportedCritical
  | PathExtensionError_InvalidOcspNoCheck

abbreviation (input) malformed :: "string \<Rightarrow> 'e + 'a \<Rightarrow> PathExtensionError + 'a" where
  "malformed what \<equiv> map_err (\<lambda>_. PathExtensionError_Malformed what)"

type_synonym ber_fields = "(BerError + BerTlvAny) list"

text \<open>The next field of an iterator that has to have one, and the next field if there is one.\<close>

definition next_field :: "string \<Rightarrow> string \<Rightarrow> ber_fields \<Rightarrow> PathExtensionError + (BerTlvAny \<times> ber_fields)" where
  "next_field missing encoding fs =
     (case fs of
        [] \<Rightarrow> Inl (PathExtensionError_Malformed missing)
      | f # fs \<Rightarrow> bindR (malformed encoding f) (\<lambda>t. Inr (t, fs)))"

definition optional_field :: "string \<Rightarrow> ber_fields \<Rightarrow> PathExtensionError + (BerTlvAny option \<times> ber_fields)" where
  "optional_field encoding fs =
     (case fs of [] \<Rightarrow> Inr (None, []) | f # fs \<Rightarrow> bindR (malformed encoding f) (\<lambda>t. Inr (Some t, fs)))"

definition exact_path_extension_tlv :: "u16 \<Rightarrow> bytes \<Rightarrow> string \<Rightarrow> PathExtensionError + BerTlv" where
  "exact_path_extension_tlv T value label =
     bindR (malformed label (BerTlv_parse T value)) (\<lambda>parsed.
       if typed_size parsed \<noteq> length value then Inl (PathExtensionError_Malformed ''extension value has trailing bytes'')
       else Inr parsed)"

definition parse_path_length :: "bytes \<Rightarrow> PathExtensionError + u32" where
  "parse_path_length value =
     (case value of
        [] \<Rightarrow> Inl (PathExtensionError_Malformed ''Basic Constraints pathLen is empty'')
      | first # rest \<Rightarrow>
          if first AND 0x80 \<noteq> 0 then Inl (PathExtensionError_Malformed ''Basic Constraints pathLen is negative'')
          else if first = 0 \<and> rest = [] then Inr 0
          else if first = 0 \<and> hd rest AND 0x80 = 0 then Inl (PathExtensionError_Malformed ''Basic Constraints pathLen is not DER-minimal'')
          else
            let magnitude = if first = 0 then rest else value
            in if length magnitude > 4 then Inl (PathExtensionError_Malformed ''Basic Constraints pathLen is too large'')
               else Inr (foldl (\<lambda>length byte. push_bit 8 length OR ucast byte) 0 magnitude))"

text \<open>The path length and the end of the basic constraints, once the flag has been read.\<close>

definition basic_constraints_tail :: "bool \<Rightarrow> bool \<Rightarrow> BerTlvAny option \<Rightarrow> ber_fields \<Rightarrow> PathExtensionError + BasicConstraints" where
  "basic_constraints_tail critical ca next fs =
     bindR (case next of
              None \<Rightarrow> Inr None
            | Some t \<Rightarrow>
                bindR (malformed ''Basic Constraints pathLen tag'' (BerTlvAny_expect TAG_INTEGER t)) (\<lambda>path_len.
                  if \<not> ca then Inl (PathExtensionError_Malformed ''Basic Constraints pathLen without cA'')
                  else bindR (parse_path_length (typed_value path_len)) (\<lambda>n. Inr (Some n)))) (\<lambda>path_len.
       if fs \<noteq> [] then Inl (PathExtensionError_Malformed ''Basic Constraints has trailing fields'')
       else Inr \<lparr>bc_ca = ca, bc_path_len = path_len, bc_critical = critical, bc_present = True\<rparr>)"

definition parse_path_basic_constraints :: "bytes \<Rightarrow> bool \<Rightarrow> PathExtensionError + BasicConstraints" where
  "parse_path_basic_constraints value critical =
     bindR (exact_path_extension_tlv TAG_SEQUENCE value ''Basic Constraints'') (\<lambda>outer.
     bindR (optional_field ''Basic Constraints child encoding'' (ber_items (typed_value outer))) (\<lambda>(next, fs).
       case next of
         Some flag \<Rightarrow>
           if tlv_tag flag = TAG_BOOLEAN
           then
             bindR (if tlv_value flag = [0] then Inr False
                    else if tlv_value flag = [0xFF] then Inr True
                    else Inl (PathExtensionError_Malformed ''Basic Constraints cA is not a canonical DER BOOLEAN'')) (\<lambda>ca.
             bindR (optional_field ''Basic Constraints pathLen encoding'' fs) (\<lambda>(next, fs).
               basic_constraints_tail critical ca next fs))
           else basic_constraints_tail critical False next fs
       | None \<Rightarrow> basic_constraints_tail critical False None fs))"

definition trailing_zeros :: "u8 \<Rightarrow> nat" where
  "trailing_zeros w = length (takeWhile (\<lambda>i. \<not> bit w i) [0..<8])"

definition parse_path_key_usage :: "bytes \<Rightarrow> bool \<Rightarrow> PathExtensionError + KeyUsageMeta" where
  "parse_path_key_usage value critical =
     bindR (exact_path_extension_tlv TAG_BIT_STRING value ''Key Usage'') (\<lambda>bit_string.
       case typed_value bit_string of
         [] \<Rightarrow> Inl (PathExtensionError_Malformed ''Key Usage is empty'')
       | unused # bits \<Rightarrow>
           if unused > 7 \<or> bits = [] \<or> length bits > 2 then Inl (PathExtensionError_Malformed ''Key Usage width'')
           else
             let final = last bits; unused_mask = (if unused = 0 then 0 else drop_bit (8 - unat unused) 0xFF) :: u8
             in if final AND unused_mask \<noteq> 0 \<or> final = 0 \<or> trailing_zeros final \<noteq> unat unused
                then Inl (PathExtensionError_Malformed ''Key Usage is not a DER named bit list'')
                else
                  let first = first_or_zero bits 0; second = first_or_zero bits 1
                  in if second AND NOT 0x80 \<noteq> 0 then Inl (PathExtensionError_Malformed ''Key Usage has unknown bits'')
                     else Inr \<lparr>kum_key_usage = key_usage_bits first second, kum_critical = critical\<rparr>)"

fun purposes_of :: "ber_fields \<Rightarrow> bytes list \<Rightarrow> PathExtensionError + bytes list" where
  "purposes_of [] seen = Inr seen"
| "purposes_of (f # fs) seen =
     bindR (malformed ''Extended Key Usage entry'' f) (\<lambda>t.
     bindR (malformed ''Extended Key Usage entry tag'' (BerTlvAny_expect TAG_OID t)) (\<lambda>ob.
     bindR (malformed ''Extended Key Usage OID'' (Oid_new (typed_value ob))) (\<lambda>purpose.
       if purpose \<in> set seen then Inl (PathExtensionError_Malformed ''duplicate Extended Key Usage purpose'')
       else purposes_of fs (seen @ [purpose]))))"

definition parse_path_extended_key_usage :: "bytes \<Rightarrow> PathExtensionError + (bool \<times> bool \<times> bool)" where
  "parse_path_extended_key_usage value =
     bindR (exact_path_extension_tlv TAG_SEQUENCE value ''Extended Key Usage'') (\<lambda>outer.
     bindR (purposes_of (ber_items (typed_value outer)) []) (\<lambda>seen.
       if seen = [] then Inl (PathExtensionError_Malformed ''Extended Key Usage is empty'')
       else Inr (KP_OCSP_SIGNING \<in> set seen, KP_TIME_STAMPING \<in> set seen,
                 list_ex (\<lambda>p. p \<noteq> KP_OCSP_SIGNING \<and> p \<noteq> KP_TIME_STAMPING) seen)))"

definition parse_path_ocsp_no_check :: "bytes \<Rightarrow> bool \<Rightarrow> PathExtensionError + unit" where
  "parse_path_ocsp_no_check value critical =
     (if critical then Inl PathExtensionError_InvalidOcspNoCheck
      else
        (case BerTlvAny_parse value of
           Inl _ \<Rightarrow> Inl PathExtensionError_InvalidOcspNoCheck
         | Inr null \<Rightarrow>
             if tlv_tag null \<noteq> TAG_NULL \<or> tlv_value null \<noteq> [] \<or> tlv_size null \<noteq> length value
             then Inl PathExtensionError_InvalidOcspNoCheck else Inr ()))"

text \<open>One extension: its fields, its identifier, and its criticality and value.\<close>

definition extension_fields :: "BerError + BerTlvAny \<Rightarrow> PathExtensionError + ber_fields" where
  "extension_fields item =
     bindR (malformed ''Extension encoding'' item) (\<lambda>t.
     bindR (malformed ''Extension is not a SEQUENCE'' (BerTlvAny_expect TAG_SEQUENCE t)) (\<lambda>s. Inr (ber_items (typed_value s))))"

definition extension_oid :: "ber_fields \<Rightarrow> PathExtensionError + (bytes \<times> ber_fields)" where
  "extension_oid fs =
     bindR (next_field ''Extension has no OID'' ''Extension OID encoding'' fs) (\<lambda>(t, fs).
     bindR (malformed ''Extension OID tag'' (BerTlvAny_expect TAG_OID t)) (\<lambda>ob.
     bindR (malformed ''Extension OID value'' (Oid_new (typed_value ob))) (\<lambda>oid. Inr (oid, fs))))"

definition extension_value :: "ber_fields \<Rightarrow> PathExtensionError + (bool \<times> bytes)" where
  "extension_value fs =
     bindR (next_field ''Extension has no value'' ''Extension value encoding'' fs) (\<lambda>(next, fs).
     bindR (if tlv_tag next = TAG_BOOLEAN
            then
              if tlv_value next \<noteq> [0xFF] then Inl (PathExtensionError_Malformed ''critical BOOLEAN is not canonical TRUE'')
              else bindR (next_field ''Extension has no value'' ''Extension value encoding'' fs) (\<lambda>(v, fs).
                   bindR (malformed ''extnValue tag'' (BerTlvAny_expect TAG_OCTET_STRING v)) (\<lambda>v. Inr (True, typed_value v, fs)))
            else bindR (malformed ''extnValue tag'' (BerTlvAny_expect TAG_OCTET_STRING next)) (\<lambda>v. Inr (False, typed_value v, fs)))
       (\<lambda>(critical, value, fs).
          if fs \<noteq> [] then Inl (PathExtensionError_Malformed ''Extension has trailing fields'') else Inr (critical, value)))"

definition apply_extension :: "bytes \<Rightarrow> bool \<Rightarrow> bytes \<Rightarrow> PathExtensionProfile \<Rightarrow> PathExtensionError + PathExtensionProfile" where
  "apply_extension oid critical value profile =
     (if oid = OID_BASIC_CONSTRAINTS
      then bindR (parse_path_basic_constraints value critical) (\<lambda>bc. Inr (profile\<lparr>basic_constraints := bc\<rparr>))
      else if oid = OID_KEY_USAGE
      then bindR (parse_path_key_usage value critical) (\<lambda>ku. Inr (profile\<lparr>key_usage := Some ku\<rparr>))
      else if oid = EXT_KEY_USAGE
      then bindR (parse_path_extended_key_usage value) (\<lambda>(ocsp, ts, other).
             Inr (profile\<lparr>ocsp_signing_extended_key_usage := ocsp, time_stamping_extended_key_usage := ts,
                          other_extended_key_usage_present := other, extended_key_usage_present := True\<rparr>))
      else if oid = NAME_CONSTRAINTS then Inr (profile\<lparr>name_constraints_present := True\<rparr>)
      else if oid = OCSP_NO_CHECK
      then bindR (parse_path_ocsp_no_check value critical) (\<lambda>_. Inr (profile\<lparr>ocsp_no_check_present := True\<rparr>))
      else if critical then Inl PathExtensionError_UnsupportedCritical
      else Inr profile)"

fun profile_of :: "ber_fields \<Rightarrow> bytes list \<Rightarrow> PathExtensionProfile \<Rightarrow> PathExtensionError + PathExtensionProfile" where
  "profile_of [] seen profile = Inr profile"
| "profile_of (item # items) seen profile =
     bindR (extension_fields item) (\<lambda>fs.
     bindR (extension_oid fs) (\<lambda>(oid, fs).
       if oid \<in> set seen
       then Inl (if oid = OCSP_NO_CHECK then PathExtensionError_InvalidOcspNoCheck else PathExtensionError_Duplicate)
       else
         bindR (extension_value fs) (\<lambda>(critical, value).
         bindR (apply_extension oid critical value profile) (\<lambda>profile. profile_of items (seen @ [oid]) profile))))"

definition empty_profile :: PathExtensionProfile where
  "empty_profile =
     \<lparr>basic_constraints = \<lparr>bc_ca = False, bc_path_len = None, bc_critical = False, bc_present = False\<rparr>, key_usage = None,
      extended_key_usage_present = False, ocsp_signing_extended_key_usage = False, time_stamping_extended_key_usage = False,
      other_extended_key_usage_present = False, ocsp_no_check_present = False, name_constraints_present = False\<rparr>"

definition path_extension_profile :: "bytes \<Rightarrow> PathExtensionError + PathExtensionProfile" where
  "path_extension_profile extensions = profile_of (ber_items extensions) [] empty_profile"

definition enforce_non_anchor_extension_policy :: "PathExtensionProfile \<Rightarrow> unit + unit" where
  "enforce_non_anchor_extension_policy profile =
     (if name_constraints_present profile then Inl ()
      else if bc_ca (basic_constraints profile) \<and> extended_key_usage_present profile \<and>
        (\<not> time_stamping_extended_key_usage profile \<or> other_extended_key_usage_present profile) then Inl ()
      else Inr ())"

definition validate_path_extensions :: "Certificate \<Rightarrow> unit + PathExtensionProfile" where
  "validate_path_extensions c =
     bindR (map_err (\<lambda>_. ()) (path_extension_profile (case crt_extensions c of None \<Rightarrow> [] | Some e \<Rightarrow> e))) (\<lambda>profile.
     bindR (enforce_non_anchor_extension_policy profile) (\<lambda>_. Inr profile))"

definition validate_non_anchor_extensions :: "Certificate \<Rightarrow> MaterialError + PathExtensionProfile" where
  "validate_non_anchor_extensions c = map_err (\<lambda>_. MaterialError_Certificate) (validate_path_extensions c)"


subsection \<open>One link\<close>

definition validate_certificate_time :: "Certificate \<Rightarrow> DateTime \<Rightarrow> MaterialError + unit" where
  "validate_certificate_time c t =
     (if t < crt_not_before c then Inl MaterialError_Certificate
      else if t > crt_not_after c then Inl MaterialError_Certificate else Inr ())"

definition enforce_path_length :: "u32 option \<Rightarrow> u32 \<Rightarrow> MaterialError + unit" where
  "enforce_path_length path_len subordinate_ca_count =
     (case path_len of
        Some limit \<Rightarrow> if subordinate_ca_count > limit then Inl MaterialError_InvalidIssuer else Inr ()
      | None \<Rightarrow> Inr ())"

definition validate_issuing_certificate :: "Certificate \<Rightarrow> DateTime \<Rightarrow> u32 \<Rightarrow> MaterialError + PathExtensionProfile" where
  "validate_issuing_certificate issuer t subordinate_ca_count =
     bindR (map_err (\<lambda>_. MaterialError_InvalidIssuer) (validate_certificate_time issuer t)) (\<lambda>_.
     bindR (map_err (\<lambda>_. MaterialError_InvalidIssuer) (validate_path_extensions issuer)) (\<lambda>profile.
       let constraints = basic_constraints profile
       in if \<not> bc_present constraints \<or> \<not> bc_ca constraints then Inl MaterialError_InvalidIssuer
          else if \<not> bc_critical constraints then Inl MaterialError_InvalidIssuer
          else
            bindR (enforce_path_length (bc_path_len constraints) subordinate_ca_count) (\<lambda>_.
              if \<not> (case key_usage profile of None \<Rightarrow> False | Some ku \<Rightarrow> key_cert_sign (kum_key_usage ku))
              then Inl MaterialError_InvalidIssuer else Inr profile)))"

definition validate_direct_issuer_for_path ::
  "('u, 'w) path_env \<Rightarrow> Certificate \<Rightarrow> Certificate \<Rightarrow> DateTime \<Rightarrow> u32 \<Rightarrow> bool \<Rightarrow> MaterialError + unit" where
  "validate_direct_issuer_for_path pe subject issuer t subordinate_ca_count issuer_is_anchor =
     (if crt_issuer subject \<noteq> crt_subject issuer then Inl MaterialError_InvalidIssuer
      else
        bindR (if issuer_is_anchor then map_err (\<lambda>_. MaterialError_InvalidIssuer) (validate_certificate_time issuer t)
               else
                 bindR (validate_issuing_certificate issuer t subordinate_ca_count) (\<lambda>issuer_profile.
                   if time_stamping_extended_key_usage issuer_profile
                   then bindR (map_err (\<lambda>_. MaterialError_InvalidIssuer) (validate_non_anchor_extensions subject)) (\<lambda>subject_profile.
                          if \<not> time_stamping_extended_key_usage subject_profile then Inl MaterialError_InvalidIssuer else Inr ())
                   else Inr ())) (\<lambda>_.
          if verify_signed_by (pe_verify pe) subject issuer then Inr () else Inl MaterialError_InvalidIssuer))"

definition is_approved_anchor :: "bytes \<Rightarrow> bytes list \<Rightarrow> bool" where
  "is_approved_anchor der anchors \<longleftrightarrow> der \<in> set anchors"


subsection \<open>The search for an issuer\<close>

fun bounded_from :: "'u list \<Rightarrow> 'u list \<Rightarrow> 'u list" where
  "bounded_from selected [] = selected"
| "bounded_from selected (address # addresses) =
     (if address \<in> set selected then bounded_from selected addresses
      else if length (selected @ [address]) = MAX_CERTIFICATE_ADDRESSES then selected @ [address]
      else bounded_from (selected @ [address]) addresses)"

definition bounded_certificate_addresses :: "'u list \<Rightarrow> 'u list" where
  "bounded_certificate_addresses addresses = bounded_from [] addresses"

definition local_issuer_ok :: "('u, 'w) path_env \<Rightarrow> Certificate \<Rightarrow> DateTime \<Rightarrow> u32 \<Rightarrow> bytes list \<Rightarrow> bytes \<Rightarrow> bool" where
  "local_issuer_ok pe subject t count anchors der \<longleftrightarrow>
     der \<noteq> crt_raw_der subject \<and>
     (case parse_certificate pe der of
        Inl _ \<Rightarrow> False
      | Inr candidate \<Rightarrow> validate_direct_issuer_for_path pe subject candidate t count (is_approved_anchor der anchors) = Inr ())"

fun fetched_issuer :: "('u, 'w) path_env \<Rightarrow> Certificate \<Rightarrow> DateTime \<Rightarrow> u32 \<Rightarrow> bytes list \<Rightarrow> 'u list \<Rightarrow> 'w \<Rightarrow> (MaterialError + bytes) \<times> 'w" where
  "fetched_issuer pe subject t count anchors [] w = (Inl MaterialError_NoIssuer, w)"
| "fetched_issuer pe subject t count anchors (url # urls) w =
     (case pe_fetch_issuer pe url w of
        (Inl _, w) \<Rightarrow> fetched_issuer pe subject t count anchors urls w
      | (Inr der, w) \<Rightarrow>
          (case parse_certificate pe der of
             Inl _ \<Rightarrow> fetched_issuer pe subject t count anchors urls w
           | Inr candidate \<Rightarrow>
               (case validate_direct_issuer_for_path pe subject candidate t count (is_approved_anchor der anchors) of
                  Inr _ \<Rightarrow> (Inr der, w)
                | Inl _ \<Rightarrow> fetched_issuer pe subject t count anchors urls w)))"

definition find_issuer ::
  "('u, 'w) path_env \<Rightarrow> Certificate \<Rightarrow> DateTime \<Rightarrow> u32 \<Rightarrow> bytes list \<Rightarrow> bytes list \<Rightarrow> 'w \<Rightarrow> (MaterialError + bytes) \<times> 'w" where
  "find_issuer pe subject t count anchors cands w =
     (case find (local_issuer_ok pe subject t count anchors) (anchors @ cands) of
        Some der \<Rightarrow> (Inr der, w)
      | None \<Rightarrow>
          (case crt_extensions subject of
             None \<Rightarrow> (Inl MaterialError_NoIssuer, w)
           | Some extensions \<Rightarrow>
               (case bounded_certificate_addresses (extract_ca_issuers_urls (pe_der pe) (pe_uri pe) extensions) of
                  [] \<Rightarrow> (Inl MaterialError_NoIssuer, w)
                | urls \<Rightarrow> fetched_issuer pe subject t count anchors urls w)))"


subsection \<open>The material and the guard\<close>

definition push_candidate :: "Collection \<Rightarrow> bytes \<Rightarrow> Collection" where
  "push_candidate col der = (if der \<in> set (candidates col) then col else col\<lparr>candidates := candidates col @ [der]\<rparr>)"

definition push_new :: "'a list \<Rightarrow> 'a \<Rightarrow> 'a list" where
  "push_new held x = (if x \<in> set held then held else held @ [x])"

definition push_status :: "ValidationMaterial \<Rightarrow> StatusEvidence \<Rightarrow> ValidationMaterial" where
  "push_status m evidence =
     (case evidence of
        StatusEvidence_Ocsp der \<Rightarrow> m\<lparr>vm_ocsp_responses := push_new (vm_ocsp_responses m) der\<rparr>
      | StatusEvidence_Crl der \<Rightarrow> m\<lparr>vm_crls := push_new (vm_crls m) der\<rparr>)"

definition push_certificate :: "ValidationMaterial \<Rightarrow> bytes \<Rightarrow> ValidationMaterial" where
  "push_certificate m der = m\<lparr>vm_certificates := push_new (vm_certificates m) der\<rparr>"

definition WalkGuard_enter :: "bytes list \<Rightarrow> bytes \<Rightarrow> MaterialError + bytes list" where
  "WalkGuard_enter visited der =
     (if der \<in> set visited then Inl MaterialError_ChainCycle
      else if length visited \<ge> MAX_DEPTH then Inl MaterialError_ChainTooDeep
      else Inr (visited @ [der]))"

text \<open>The head of both loops: the certificate parses, is valid at the time of the path, and is new on it.\<close>

definition path_enter :: "('u, 'w) path_env \<Rightarrow> DateTime \<Rightarrow> bytes list \<Rightarrow> bytes \<Rightarrow> MaterialError + (Certificate \<times> bytes list)" where
  "path_enter pe t visited der =
     bindR (map_err (\<lambda>_. MaterialError_Certificate) (parse_certificate pe der)) (\<lambda>current.
     bindR (validate_certificate_time current t) (\<lambda>_.
     bindR (WalkGuard_enter visited der) (\<lambda>visited. Inr (current, visited))))"

definition saturating_succ_u32 :: "u32 \<Rightarrow> u32" where
  "saturating_succ_u32 n = (if n = 0xFFFFFFFF then n else n + 1)"

text \<open>The step of both loops from a certificate that is no anchor to its issuer, with the number of CAs below the issuer.\<close>

definition chain_link ::
  "('u, 'w) path_env \<Rightarrow> DateTime \<Rightarrow> bytes list \<Rightarrow> bytes list \<Rightarrow> Certificate \<Rightarrow> u32 \<Rightarrow> 'w \<Rightarrow> (MaterialError + (bytes \<times> Certificate \<times> u32)) \<times> 'w" where
  "chain_link pe t anchors cands current count w =
     (case validate_non_anchor_extensions current of
        Inl e \<Rightarrow> (Inl e, w)
      | Inr extensions \<Rightarrow>
          let count = (if bc_ca (basic_constraints extensions) \<and> crt_issuer current \<noteq> crt_subject current
                       then saturating_succ_u32 count else count)
          in (case find_issuer pe current t count anchors cands w of
                (Inl e, w) \<Rightarrow> (Inl e, w)
              | (Inr issuer_der, w) \<Rightarrow>
                  (case parse_certificate pe issuer_der of
                     Inl _ \<Rightarrow> (Inl MaterialError_InvalidIssuer, w)
                   | Inr issuer \<Rightarrow>
                       (case validate_direct_issuer_for_path pe current issuer t count (is_approved_anchor issuer_der anchors) of
                          Inl e \<Rightarrow> (Inl e, w)
                        | Inr _ \<Rightarrow> (Inr (issuer_der, issuer, count), w)))))"


subsection \<open>The two loops\<close>

lemma path_enter_Inr:
  "path_enter pe t visited der = Inr (current, visited') \<longleftrightarrow>
    parse_certificate pe der = Inr current \<and> crt_not_before current \<le> t \<and> t \<le> crt_not_after current \<and>
    der \<notin> set visited \<and> length visited < MAX_DEPTH \<and> visited' = visited @ [der]"
  by (auto simp: path_enter_def bindR_eq_Inr validate_certificate_time_def WalkGuard_enter_def split: if_splits)

function verify_chain_loop ::
  "('u, 'w) path_env \<Rightarrow> DateTime \<Rightarrow> bytes list \<Rightarrow> bytes \<Rightarrow> bytes list \<Rightarrow> bytes list \<Rightarrow> u32 \<Rightarrow> Collection \<Rightarrow> 'w \<Rightarrow>
     (MaterialError + bytes list) \<times> Collection \<times> 'w" where
  "verify_chain_loop pe t anchors current_der visited path count col w =
     (case path_enter pe t visited current_der of
        Inl e \<Rightarrow> (Inl e, col, w)
      | Inr (current, visited') \<Rightarrow>
          if is_approved_anchor current_der anchors then (Inr (path @ [current_der]), col, w)
          else
            (case chain_link pe t anchors (candidates col) current count w of
               (Inl e, w') \<Rightarrow> (Inl e, col, w')
             | (Inr (issuer_der, issuer, count'), w') \<Rightarrow>
                 verify_chain_loop pe t anchors issuer_der visited' (path @ [current_der]) count' (push_candidate col issuer_der) w'))"
  by pat_completeness auto

termination verify_chain_loop
  by (relation "measure (\<lambda>(pe, t, anchors, current_der, visited, path, count, col, w). MAX_DEPTH - length visited)")
    (auto simp: path_enter_Inr)

declare verify_chain_loop.simps [simp del]

definition verify_chain_with ::
  "('u, 'w) path_env \<Rightarrow> bytes \<Rightarrow> DateTime \<Rightarrow> bytes list \<Rightarrow> Collection \<Rightarrow> 'w \<Rightarrow> (MaterialError + bytes list) \<times> Collection \<times> 'w" where
  "verify_chain_with pe leaf t anchors col w =
     (if anchors = [] then (Inl MaterialError_NoTrustAnchor, col, w)
      else verify_chain_loop pe t anchors leaf [] [] 0 col w)"

definition verify_chain_to_approved_anchor ::
  "('u, 'w) path_env \<Rightarrow> bytes \<Rightarrow> DateTime \<Rightarrow> bytes list \<Rightarrow> bytes list \<Rightarrow> 'w \<Rightarrow> (MaterialError + bytes list) \<times> 'w" where
  "verify_chain_to_approved_anchor pe leaf t anchors cands w =
     (case verify_chain_with pe leaf t anchors (foldl push_candidate (push_candidate Collection_default leaf) cands) w of
        (r, _, w) \<Rightarrow> (r, w))"

function walk_loop ::
  "('u, 'w) path_env \<Rightarrow> ChainStart \<Rightarrow> DateTime \<Rightarrow> bytes \<Rightarrow> bytes list \<Rightarrow> u32 \<Rightarrow> Collection \<Rightarrow> 'w \<Rightarrow> (MaterialError + unit) \<times> Collection \<times> 'w" where
  "walk_loop pe start evidence_time current_der visited count col w =
     (case path_enter pe (reference_time start) visited current_der of
        Inl e \<Rightarrow> (Inl e, col, w)
      | Inr (current, visited') \<Rightarrow>
          if is_approved_anchor current_der (approved_anchor_ders start)
          then (Inr (), (if include_anchor start then col\<lparr>material := push_certificate (material col) current_der\<rparr> else col), w)
          else
            (case chain_link pe (reference_time start) (approved_anchor_ders start) (candidates col) current count w of
               (Inl e, w') \<Rightarrow> (Inl e, col, w')
             | (Inr (issuer_der, issuer, count'), w') \<Rightarrow>
                 (case pe_status pe (nonce_policy start) current issuer evidence_time w' of
                    (Inl e, w'') \<Rightarrow> (Inl e, col, w'')
                  | (Inr evidence, w'') \<Rightarrow>
                      let col = push_candidate (col\<lparr>material := push_status (material col) evidence\<rparr>) issuer_der;
                          col = (if \<not> is_approved_anchor issuer_der (approved_anchor_ders start) \<or> include_anchor start
                                 then col\<lparr>material := push_certificate (material col) issuer_der\<rparr> else col)
                      in walk_loop pe start evidence_time issuer_der visited' count' col w'')))"
  by pat_completeness auto

termination walk_loop
  by (relation "measure (\<lambda>(pe, start, evidence_time, current_der, visited, count, col, w). MAX_DEPTH - length visited)")
    (auto simp: path_enter_Inr)

declare walk_loop.simps [simp del]

definition walk ::
  "('u, 'w) path_env \<Rightarrow> ChainStart \<Rightarrow> DateTime \<Rightarrow> Collection \<Rightarrow> 'w \<Rightarrow> (MaterialError + unit) \<times> Collection \<times> 'w" where
  "walk pe start evidence_time col w =
     (if approved_anchor_ders start = [] then (Inl MaterialError_NoTrustAnchor, col, w)
      else
        walk_loop pe start evidence_time (leaf_der start) [] 0
          (if include_leaf start then col\<lparr>material := push_certificate (material col) (leaf_der start)\<rparr> else col) w)"

fun walk_all ::
  "('u, 'w) path_env \<Rightarrow> ChainStart list \<Rightarrow> DateTime \<Rightarrow> Collection \<Rightarrow> 'w \<Rightarrow> (MaterialError + ValidationMaterial) \<times> 'w" where
  "walk_all pe [] evidence_time col w = (Inr (material col), w)"
| "walk_all pe (start # starts) evidence_time col w =
     (case walk pe start evidence_time col w of
        (Inl e, _, w) \<Rightarrow> (Inl e, w)
      | (Inr _, col, w) \<Rightarrow> walk_all pe starts evidence_time col w)"

definition collect_chains_seeded_with ::
  "('u, 'w) path_env \<Rightarrow> ChainStart list \<Rightarrow> bytes list \<Rightarrow> DateTime \<Rightarrow> 'w \<Rightarrow> (MaterialError + ValidationMaterial) \<times> 'w" where
  "collect_chains_seeded_with pe starts cands evidence_time w =
     (if starts = [] then (Inl MaterialError_NoChain, w)
      else walk_all pe starts evidence_time (foldl push_candidate (foldl push_candidate Collection_default (map leaf_der starts)) cands) w)"

definition collect_chains_with where
  "collect_chains_with pe starts evidence_time = collect_chains_seeded_with pe starts [] evidence_time"


section \<open>What a path is\<close>

text \<open>
  The conditions a path is meant to satisfy, stated over the certificates alone. \<open>n\<close> counts the certificates of CAs below the
  issuer that are not self-issued.
\<close>

definition valid_at :: "('u, 'w) path_env \<Rightarrow> DateTime \<Rightarrow> bytes \<Rightarrow> bool" where
  "valid_at pe t der \<longleftrightarrow> (\<exists>c. parse_certificate pe der = Inr c \<and> crt_not_before c \<le> t \<and> t \<le> crt_not_after c)"

definition may_issue :: "Certificate \<Rightarrow> nat \<Rightarrow> Certificate \<Rightarrow> bool" where
  "may_issue i n c \<longleftrightarrow>
     (\<exists>p ku. validate_path_extensions i = Inr p \<and> bc_present (basic_constraints p) \<and> bc_ca (basic_constraints p) \<and>
        bc_critical (basic_constraints p) \<and> (\<forall>limit. bc_path_len (basic_constraints p) = Some limit \<longrightarrow> n \<le> unat limit) \<and>
        key_usage p = Some ku \<and> key_cert_sign (kum_key_usage ku) \<and> \<not> name_constraints_present p \<and>
        (time_stamping_extended_key_usage p \<longrightarrow> (\<exists>q. validate_path_extensions c = Inr q \<and> time_stamping_extended_key_usage q)))"

definition issues :: "('u, 'w) path_env \<Rightarrow> bytes list \<Rightarrow> nat \<Rightarrow> bytes \<Rightarrow> bytes \<Rightarrow> bool" where
  "issues pe anchors n child issuer \<longleftrightarrow>
     (\<exists>c i. parse_certificate pe child = Inr c \<and> parse_certificate pe issuer = Inr i \<and> crt_issuer c = crt_subject i \<and>
        verify_signed_by (pe_verify pe) c i \<and> (issuer \<in> set anchors \<or> may_issue i n c))"

definition is_sub_ca :: "('u, 'w) path_env \<Rightarrow> bytes \<Rightarrow> bool" where
  "is_sub_ca pe der =
     (case parse_certificate pe der of
        Inl _ \<Rightarrow> False
      | Inr c \<Rightarrow>
          (case validate_path_extensions c of
             Inl _ \<Rightarrow> False
           | Inr p \<Rightarrow> bc_ca (basic_constraints p) \<and> crt_issuer c \<noteq> crt_subject c))"

definition understood :: "('u, 'w) path_env \<Rightarrow> bytes \<Rightarrow> bool" where
  "understood pe der \<longleftrightarrow> (\<exists>c p. parse_certificate pe der = Inr c \<and> validate_path_extensions c = Inr p)"

fun good_path :: "('u, 'w) path_env \<Rightarrow> DateTime \<Rightarrow> bytes list \<Rightarrow> nat \<Rightarrow> bytes list \<Rightarrow> bool" where
  "good_path pe t anchors n [] \<longleftrightarrow> False"
| "good_path pe t anchors n [a] \<longleftrightarrow> valid_at pe t a \<and> a \<in> set anchors"
| "good_path pe t anchors n (c # i # rest) \<longleftrightarrow>
     valid_at pe t c \<and> c \<notin> set anchors \<and> understood pe c \<and>
     issues pe anchors (n + (if is_sub_ca pe c then 1 else 0)) c i \<and>
     good_path pe t anchors (n + (if is_sub_ca pe c then 1 else 0)) (i # rest)"


section \<open>Lemmas\<close>

lemma validate_certificate_time_Inr [simp]: "validate_certificate_time c t = Inr () \<longleftrightarrow> crt_not_before c \<le> t \<and> t \<le> crt_not_after c"
  by (auto simp: validate_certificate_time_def)

lemma validate_path_extensions_policy:
  "validate_path_extensions c = Inr p \<Longrightarrow> \<not> name_constraints_present p"
  by (auto simp: validate_path_extensions_def enforce_non_anchor_extension_policy_def bindR_eq_Inr split: if_splits)

lemma enforce_path_length_Inr: "enforce_path_length l n = Inr u \<longleftrightarrow> (\<forall>limit. l = Some limit \<longrightarrow> unat n \<le> unat limit)"
  by (auto simp: enforce_path_length_def word_less_nat_alt split: option.splits)

lemma validate_issuing_certificate_Inr:
  assumes "validate_issuing_certificate i t n = Inr p"
  shows "crt_not_before i \<le> t \<and> t \<le> crt_not_after i \<and> validate_path_extensions i = Inr p \<and> bc_present (basic_constraints p) \<and>
    bc_ca (basic_constraints p) \<and> bc_critical (basic_constraints p) \<and>
    (\<forall>limit. bc_path_len (basic_constraints p) = Some limit \<longrightarrow> unat n \<le> unat limit) \<and>
    (\<exists>ku. key_usage p = Some ku \<and> key_cert_sign (kum_key_usage ku)) \<and> \<not> name_constraints_present p"
  using assms validate_path_extensions_policy
  by (auto simp: validate_issuing_certificate_def bindR_eq_Inr Let_def enforce_path_length_Inr split: if_splits option.splits)

lemma validate_direct_issuer_sound:
  assumes "validate_direct_issuer_for_path pe c i t n anchor = Inr ()"
  shows "crt_issuer c = crt_subject i \<and> verify_signed_by (pe_verify pe) c i \<and> crt_not_before i \<le> t \<and> t \<le> crt_not_after i \<and>
    (anchor \<or> may_issue i (unat n) c)"
proof (cases anchor)
  case True
  then show ?thesis using assms by (auto simp: validate_direct_issuer_for_path_def bindR_eq_Inr split: if_splits)
next
  case False
  then obtain p where p: "validate_issuing_certificate i t n = Inr p"
      "time_stamping_extended_key_usage p \<longrightarrow> (\<exists>q. validate_path_extensions c = Inr q \<and> time_stamping_extended_key_usage q)"
      "crt_issuer c = crt_subject i" "verify_signed_by (pe_verify pe) c i"
    using assms by (auto simp: validate_direct_issuer_for_path_def validate_non_anchor_extensions_def bindR_eq_Inr split: if_splits)
  then show ?thesis using validate_issuing_certificate_Inr [OF p(1)] by (auto simp: may_issue_def)
qed

lemma unat_saturating_succ_u32: "unat n < 100 \<Longrightarrow> unat (saturating_succ_u32 n) = Suc (unat n)"
  by (auto simp: saturating_succ_u32_def unat_word_ariths unat_arith_simps)

lemma chain_link_sound:
  assumes link: "chain_link pe t anchors cands current n w = (Inr (issuer_der, issuer, n'), w')"
    and parsed: "parse_certificate pe der = Inr current" and small: "unat n < 100"
  shows "understood pe der \<and> parse_certificate pe issuer_der = Inr issuer \<and>
    unat n' = unat n + (if is_sub_ca pe der then 1 else 0) \<and> issues pe anchors (unat n') der issuer_der"
proof -
  from link obtain p where p: "validate_path_extensions current = Inr p"
    by (auto simp: chain_link_def validate_non_anchor_extensions_def split: sum.splits)
  have step: "n' = (if is_sub_ca pe der then saturating_succ_u32 n else n)" "parse_certificate pe issuer_der = Inr issuer"
      "validate_direct_issuer_for_path pe current issuer t n' (issuer_der \<in> set anchors) = Inr ()"
    using link p parsed
    by (auto simp: chain_link_def validate_non_anchor_extensions_def is_sub_ca_def is_approved_anchor_def Let_def split: sum.splits prod.splits)
  then have "issues pe anchors (unat n') der issuer_der"
    using validate_direct_issuer_sound [OF step(3)] parsed by (auto simp: issues_def)
  with step p parsed small show ?thesis by (auto simp: understood_def unat_saturating_succ_u32)
qed

lemma verify_chain_loop_sound:
  assumes "verify_chain_loop pe t anchors der visited path n col w = (Inr result, col', w')" "unat n \<le> length visited" "distinct visited"
    "length visited \<le> MAX_DEPTH"
  shows "\<exists>rest. result = path @ der # rest \<and> good_path pe t anchors (unat n) (der # rest) \<and> distinct (visited @ der # rest) \<and>
    length (visited @ der # rest) \<le> MAX_DEPTH"
  using assms
proof (induction pe t anchors der visited path n col w arbitrary: result rule: verify_chain_loop.induct)
  case (1 pe t anchors der visited path n col w)
  from "1.prems"(1) obtain current visited' where enter: "path_enter pe t visited der = Inr (current, visited')"
    by (subst (asm) verify_chain_loop.simps) (auto split: sum.splits prod.splits)
  then have fresh: "visited' = visited @ [der]" "der \<notin> set visited" "length visited < MAX_DEPTH" "valid_at pe t der"
      "parse_certificate pe der = Inr current"
    by (auto simp: path_enter_Inr valid_at_def)
  show ?case
  proof (cases "is_approved_anchor der anchors")
    case True
    then show ?thesis using "1.prems" enter fresh by (subst (asm) verify_chain_loop.simps) (auto simp: is_approved_anchor_def)
  next
    case False
    with "1.prems"(1) enter obtain issuer_der issuer n' w'' where
      link: "chain_link pe t anchors (candidates col) current n w = (Inr (issuer_der, issuer, n'), w'')" and
      rec: "verify_chain_loop pe t anchors issuer_der visited' (path @ [der]) n' (push_candidate col issuer_der) w'' = (Inr result, col', w')"
      by (subst (asm) verify_chain_loop.simps) (auto split: sum.splits prod.splits)
    have small: "unat n < 100" using "1.prems"(2) fresh(3) by (simp add: MAX_DEPTH_def)
    note sound = chain_link_sound [OF link fresh(5) small]
    from sound "1.prems"(2) fresh have "unat n' \<le> length visited'" "distinct visited'" "length visited' \<le> MAX_DEPTH"
      using "1.prems"(3) by auto
    from "1.IH" [OF enter refl False link [symmetric] refl refl refl rec this] obtain rest where
      rest: "result = (path @ [der]) @ issuer_der # rest" "good_path pe t anchors (unat n') (issuer_der # rest)"
        "distinct (visited' @ issuer_der # rest)" "length (visited' @ issuer_der # rest) \<le> MAX_DEPTH"
      by blast
    then show ?thesis using sound fresh False by (intro exI [of _ "issuer_der # rest"]) (auto simp: is_approved_anchor_def)
  qed
qed

text \<open>
  (C30) A verified path is a path: it starts at the certificate asked about and ends at an approved anchor, it has no anchor before
  its end, no certificate twice and at most \<open>MAX_DEPTH\<close> certificates, and every link satisfies the conditions above: names
  and signature match, every certificate is valid at the time of the path, and an issuer that is no anchor is a CA that may
  sign certificates, with room for the CAs below it.
\<close>

theorem verified_path_sound:
  assumes "verify_chain_to_approved_anchor pe leaf t anchors cands w = (Inr path, w')"
  shows "path \<noteq> [] \<and> hd path = leaf \<and> good_path pe t anchors 0 path \<and> distinct path \<and> length path \<le> MAX_DEPTH"
proof -
  let ?col = "foldl push_candidate (push_candidate Collection_default leaf) cands"
  from assms obtain col' where "verify_chain_loop pe t anchors leaf [] [] 0 ?col w = (Inr path, col', w')"
    by (auto simp: verify_chain_to_approved_anchor_def verify_chain_with_def split: prod.splits if_splits)
  from verify_chain_loop_sound [OF this] show ?thesis by fastforce
qed


section \<open>Collected material\<close>

definition evidence_in :: "StatusEvidence \<Rightarrow> ValidationMaterial \<Rightarrow> bool" where
  "evidence_in ev m =
     (case ev of StatusEvidence_Ocsp der \<Rightarrow> der \<in> set (vm_ocsp_responses m) | StatusEvidence_Crl der \<Rightarrow> der \<in> set (vm_crls m))"

definition material_le :: "ValidationMaterial \<Rightarrow> ValidationMaterial \<Rightarrow> bool" where
  "material_le m m' \<longleftrightarrow>
     set (vm_certificates m) \<subseteq> set (vm_certificates m') \<and> set (vm_ocsp_responses m) \<subseteq> set (vm_ocsp_responses m') \<and>
     set (vm_crls m) \<subseteq> set (vm_crls m')"

text \<open>Every certificate of a path below its anchor has an answer of the provider about it and its issuer in the material.\<close>

fun attested :: "('u, 'w) path_env \<Rightarrow> NoncePolicy \<Rightarrow> DateTime \<Rightarrow> ValidationMaterial \<Rightarrow> bytes list \<Rightarrow> bool" where
  "attested pe policy et m (c # i # rest) \<longleftrightarrow>
     (\<exists>current issuer ev w w'. parse_certificate pe c = Inr current \<and> parse_certificate pe i = Inr issuer \<and>
        pe_status pe policy current issuer et w = (Inr ev, w') \<and> evidence_in ev m) \<and> attested pe policy et m (i # rest)"
| "attested pe policy et m _ \<longleftrightarrow> True"

definition carried :: "ChainStart \<Rightarrow> ValidationMaterial \<Rightarrow> bytes list \<Rightarrow> bool" where
  "carried start m ders \<longleftrightarrow>
     (\<forall>der \<in> set ders. der \<notin> set (approved_anchor_ders start) \<or> include_anchor start \<longrightarrow> der \<in> set (vm_certificates m))"

text \<open>What the material holds for one start.\<close>

definition established :: "('u, 'w) path_env \<Rightarrow> DateTime \<Rightarrow> ValidationMaterial \<Rightarrow> ChainStart \<Rightarrow> bytes list \<Rightarrow> bool" where
  "established pe et m start path \<longleftrightarrow>
     path \<noteq> [] \<and> hd path = leaf_der start \<and> good_path pe (reference_time start) (approved_anchor_ders start) 0 path \<and>
     distinct path \<and> length path \<le> MAX_DEPTH \<and> attested pe (nonce_policy start) et m path \<and> carried start m (tl path) \<and>
     (include_leaf start \<longrightarrow> leaf_der start \<in> set (vm_certificates m))"

lemma material_le_refl [simp]: "material_le m m"
  by (simp add: material_le_def)

lemma material_le_trans [trans]: "material_le a b \<Longrightarrow> material_le b c \<Longrightarrow> material_le a c"
  by (auto simp: material_le_def)

lemma set_push_new [simp]: "set (push_new held x) = insert x (set held)"
  by (auto simp: push_new_def)

lemma push_le [simp]: "material_le m (push_status m ev)" "material_le m (push_certificate m der)"
  by (auto simp: material_le_def push_status_def push_certificate_def split: StatusEvidence.split)

lemma evidence_pushed: "evidence_in ev (push_status m ev)"
  by (auto simp: evidence_in_def push_status_def split: StatusEvidence.split)

lemma evidence_mono: "evidence_in ev m \<Longrightarrow> material_le m m' \<Longrightarrow> evidence_in ev m'"
  by (auto simp: evidence_in_def material_le_def split: StatusEvidence.splits)

lemma attested_mono: "attested pe policy et m path \<Longrightarrow> material_le m m' \<Longrightarrow> attested pe policy et m' path"
  by (induction pe policy et m path rule: attested.induct) (simp_all, meson evidence_mono)

lemma carried_mono: "carried start m ders \<Longrightarrow> material_le m m' \<Longrightarrow> carried start m' ders"
  by (auto simp: carried_def material_le_def)

lemma established_mono: "established pe et m start path \<Longrightarrow> material_le m m' \<Longrightarrow> established pe et m' start path"
  using attested_mono carried_mono by (fastforce simp: established_def material_le_def)

lemma material_push_candidate [simp]: "material (push_candidate col der) = material col"
  by (simp add: push_candidate_def)

lemma push_certificate_has [simp]: "der \<in> set (vm_certificates (push_certificate m der))"
  by (simp add: push_certificate_def)

definition walk_result where
  "walk_result pe start et der visited n col col' \<longleftrightarrow> material_le (material col) (material col') \<and>
    (\<exists>rest. good_path pe (reference_time start) (approved_anchor_ders start) n (der # rest) \<and>
      distinct (visited @ der # rest) \<and> length (visited @ der # rest) \<le> MAX_DEPTH \<and>
      attested pe (nonce_policy start) et (material col') (der # rest) \<and> carried start (material col') rest)"

lemma walk_loop_sound:
  assumes "walk_loop pe start et der visited n col w = (Inr (), col', w')" "unat n \<le> length visited" "distinct visited"
    "length visited \<le> MAX_DEPTH"
  shows "walk_result pe start et der visited (unat n) col col'"
  using assms
proof (induction pe start et der visited n col w rule: walk_loop.induct)
  case (1 pe start et der visited n col w)
  let ?t = "reference_time start" and ?anchors = "approved_anchor_ders start"
  from "1.prems"(1) obtain current visited' where enter: "path_enter pe ?t visited der = Inr (current, visited')"
    by (subst (asm) walk_loop.simps) (auto split: sum.splits prod.splits)
  then have fresh: "visited' = visited @ [der]" "der \<notin> set visited" "length visited < MAX_DEPTH" "valid_at pe ?t der"
      "parse_certificate pe der = Inr current"
    by (auto simp: path_enter_Inr valid_at_def)
  show ?case
  proof (cases "is_approved_anchor der ?anchors")
    case True
    then show ?thesis using "1.prems" enter fresh unfolding walk_result_def
      by (subst (asm) walk_loop.simps) (auto simp: is_approved_anchor_def carried_def intro!: exI [of _ "[]"])
  next
    case False
    with "1.prems"(1) enter obtain issuer_der issuer n' w1 ev w2 where
      link: "chain_link pe ?t ?anchors (candidates col) current n w = (Inr (issuer_der, issuer, n'), w1)" and
      status: "pe_status pe (nonce_policy start) current issuer et w1 = (Inr ev, w2)"
      by (subst (asm) walk_loop.simps) (auto split: sum.splits prod.splits)
    define col1 where "col1 = push_candidate (col\<lparr>material := push_status (material col) ev\<rparr>) issuer_der"
    define col2 where "col2 = (if \<not> is_approved_anchor issuer_der ?anchors \<or> include_anchor start
      then col1\<lparr>material := push_certificate (material col1) issuer_der\<rparr> else col1)"
    have rec: "walk_loop pe start et issuer_der visited' n' col2 w2 = (Inr (), col', w')"
      using "1.prems"(1) enter False link status
      by (subst (asm) walk_loop.simps) (auto simp: col1_def col2_def Let_def split: if_splits)
    have small: "unat n < 100" using "1.prems"(2) fresh(3) by (simp add: MAX_DEPTH_def)
    note sound = chain_link_sound [OF link fresh(5) small]
    from sound "1.prems"(2,3) fresh have inv: "unat n' \<le> length visited'" "distinct visited'" "length visited' \<le> MAX_DEPTH" by auto
    have col2: "material_le (material col) (material col2)" "evidence_in ev (material col2)" "carried start (material col2) [issuer_der]"
      using evidence_mono [OF evidence_pushed push_le(2)] material_le_trans [OF push_le(1) push_le(2)]
      by (auto simp: col2_def col1_def evidence_pushed carried_def is_approved_anchor_def)
    have "walk_result pe start et issuer_der visited' (unat n') col2 col'"
      by (rule "1.IH" [OF enter refl False link [symmetric] refl refl refl status [symmetric] refl col1_def col2_def rec inv])
    then obtain rest where rest: "good_path pe ?t ?anchors (unat n') (issuer_der # rest)" "distinct (visited' @ issuer_der # rest)"
        "length (visited' @ issuer_der # rest) \<le> MAX_DEPTH" "attested pe (nonce_policy start) et (material col') (issuer_der # rest)"
        "carried start (material col') rest" "material_le (material col2) (material col')"
      by (auto simp: walk_result_def)
    have "attested pe (nonce_policy start) et (material col') (der # issuer_der # rest)"
      using rest(4) fresh(5) sound status evidence_mono [OF col2(2) rest(6)] by (simp, blast)
    then show ?thesis
      using sound fresh False rest material_le_trans [OF col2(1) rest(6)] carried_mono [OF col2(3) rest(6)]
      unfolding walk_result_def
      by (intro conjI exI [of _ "issuer_der # rest"]) (auto simp: is_approved_anchor_def carried_def simp del: attested.simps)
  qed
qed


lemma walk_sound:
  assumes "walk pe start et col w = (Inr u, col', w')"
  shows "material_le (material col) (material col') \<and> (\<exists>path. established pe et (material col') start path)"
proof -
  define col0 where "col0 = (if include_leaf start then col\<lparr>material := push_certificate (material col) (leaf_der start)\<rparr> else col)"
  have "walk_loop pe start et (leaf_der start) [] 0 col0 w = (Inr (), col', w')"
    using assms by (auto simp: walk_def col0_def split: if_splits)
  from walk_loop_sound [OF this] have result: "walk_result pe start et (leaf_der start) [] 0 col0 col'" by simp
  then obtain rest where rest: "good_path pe (reference_time start) (approved_anchor_ders start) 0 (leaf_der start # rest)"
      "distinct (leaf_der start # rest)" "length (leaf_der start # rest) \<le> MAX_DEPTH"
      "attested pe (nonce_policy start) et (material col') (leaf_der start # rest)" "carried start (material col') rest"
      "material_le (material col0) (material col')"
    by (auto simp: walk_result_def)
  have "material_le (material col) (material col0)" "include_leaf start \<longrightarrow> leaf_der start \<in> set (vm_certificates (material col0))"
    by (simp_all add: col0_def)
  then have "established pe et (material col') start (leaf_der start # rest)"
    using rest by (auto simp: established_def material_le_def)
  then show ?thesis using \<open>material_le (material col) (material col0)\<close> rest(6) material_le_trans by blast
qed

lemma walk_all_sound:
  "walk_all pe starts et col w = (Inr m, w') \<Longrightarrow>
    material_le (material col) m \<and> (\<forall>start \<in> set starts. \<exists>path. established pe et m start path)"
proof (induction pe starts et col w rule: walk_all.induct)
  case (2 pe start starts et col w)
  then obtain u col1 w1 where first: "walk pe start et col w = (Inr u, col1, w1)" "walk_all pe starts et col1 w1 = (Inr m, w')"
    by (auto split: sum.splits prod.splits)
  from "2.IH" [OF first(1) [symmetric] refl refl first(2)] walk_sound [OF first(1)]
  show ?case using established_mono material_le_trans by (metis set_ConsD)
qed simp

text \<open>
  (C31) Material is never partial: when it is returned, every start has a path as above in it, each certificate of the path below
  its anchor with an answer the provider gave about that certificate and that issuer, and the certificates above the leaf
  with it, the anchor too when the start asks for it.
\<close>

theorem material_never_partial:
  assumes "collect_chains_seeded_with pe starts cands et w = (Inr m, w')" "start \<in> set starts"
  shows "\<exists>path. established pe et m start path"
  using assms walk_all_sound by (fastforce simp: collect_chains_seeded_with_def split: if_splits)


section \<open>Direct issuers, addresses and strict extensions\<close>

lemma find_SomeI: "x \<in> set xs \<Longrightarrow> P x \<Longrightarrow> \<exists>y. find P xs = Some y"
  by (induction xs) auto

lemma find_append: "find P (xs @ ys) = (case find P xs of None \<Rightarrow> find P ys | Some x \<Rightarrow> Some x)"
  by (induction xs) auto

text \<open>
  (C32) A certificate issued by an approved anchor is accepted without a fetch: anchors are tried before everything else, and the
  path found is the certificate and the first anchor that issued it.
\<close>

theorem direct_issue_accepted:
  assumes "parse_certificate pe leaf = Inr c" "crt_not_before c \<le> t" "t \<le> crt_not_after c" "leaf \<notin> set anchors"
    and "validate_path_extensions c = Inr p" "a \<in> set anchors" "parse_certificate pe a = Inr i"
    and "crt_issuer c = crt_subject i" "crt_not_before i \<le> t" "t \<le> crt_not_after i" "verify_signed_by (pe_verify pe) c i"
  shows "\<exists>a'. a' \<in> set anchors \<and> verify_chain_to_approved_anchor pe leaf t anchors cands w = (Inr [leaf, a'], w)"
proof -
  let ?n = "if bc_ca (basic_constraints p) \<and> crt_issuer c \<noteq> crt_subject c then saturating_succ_u32 0 else 0"
  have raw: "crt_raw_der c = leaf" by (rule Certificate_from_der_raw [OF assms(1)])
  have "local_issuer_ok pe c t ?n anchors a"
    using assms raw by (auto simp: local_issuer_ok_def validate_direct_issuer_for_path_def is_approved_anchor_def validate_certificate_time_def)
  then obtain a' where a': "find (local_issuer_ok pe c t ?n anchors) anchors = Some a'" using assms(6) find_SomeI by metis
  then have ok: "local_issuer_ok pe c t ?n anchors a'" "a' \<in> set anchors" by (auto simp: find_Some_iff)
  then obtain i' where i': "parse_certificate pe a' = Inr i'" "validate_direct_issuer_for_path pe c i' t ?n True = Inr ()" "a' \<noteq> leaf"
    using raw by (auto simp: local_issuer_ok_def is_approved_anchor_def split: sum.splits)
  have link: "chain_link pe t anchors cands' c 0 w = (Inr (a', i', ?n), w)" for cands'
    using a' i' ok(2) assms(5)
    by (simp add: chain_link_def validate_non_anchor_extensions_def find_issuer_def find_append is_approved_anchor_def Let_def)
  have enter: "path_enter pe t [] leaf = Inr (c, [leaf])" "path_enter pe t [leaf] a' = Inr (i', [leaf, a'])"
    using assms(1-3) i' validate_direct_issuer_sound [OF i'(2)] by (auto simp: path_enter_Inr MAX_DEPTH_def)
  have "anchors \<noteq> []" using assms(6) by auto
  then have "verify_chain_to_approved_anchor pe leaf t anchors cands w = (Inr [leaf, a'], w)"
    unfolding verify_chain_to_approved_anchor_def verify_chain_with_def
    using assms(4) ok(2) by (simp add: verify_chain_loop.simps enter link is_approved_anchor_def)
  with ok(2) show ?thesis by blast
qed

fun keep_first :: "'a list \<Rightarrow> 'a list \<Rightarrow> 'a list" where
  "keep_first seen [] = []"
| "keep_first seen (x # xs) = (if x \<in> set seen then keep_first seen xs else x # keep_first (seen @ [x]) xs)"

lemma bounded_from_eq:
  "length selected < MAX_CERTIFICATE_ADDRESSES \<Longrightarrow>
    bounded_from selected xs = selected @ take (MAX_CERTIFICATE_ADDRESSES - length selected) (keep_first selected xs)"
  by (induction selected xs rule: bounded_from.induct) (auto simp: take_Cons' split: nat.splits)

lemma keep_first_distinct: "distinct (keep_first seen xs) \<and> set (keep_first seen xs) = set xs - set seen"
  by (induction seen xs rule: keep_first.induct) auto

text \<open>
  The addresses taken from a certificate are its first three different ones, in their order.
\<close>

theorem addresses_bounded:
  "bounded_certificate_addresses xs = take 3 (keep_first [] xs) \<and> distinct (bounded_certificate_addresses xs) \<and>
   set (bounded_certificate_addresses xs) \<subseteq> set xs \<and> length (bounded_certificate_addresses xs) \<le> 3"
proof -
  have "bounded_certificate_addresses xs = take 3 (keep_first [] xs)"
    using bounded_from_eq [of "[]" xs] by (simp add: bounded_certificate_addresses_def MAX_CERTIFICATE_ADDRESSES_def)
  then show ?thesis using keep_first_distinct [of "[]" xs] by (auto dest: in_set_takeD)
qed


lemma unat_push_or:
  assumes "unat (a :: u32) < 2 ^ 24"
  shows "unat (push_bit 8 a OR ucast (b :: u8)) = unat a * 256 + unat b"
proof -
  have "unat (a * 256) = unat a * 256" using assms by (simp add: unat_word_ariths)
  then have "unat (push_bit 8 a OR ucast b) = push_bit 8 (unat a) OR unat (ucast b :: u32)"
    by (simp add: unsigned_or_eq push_bit_eq_mult)
  also have "\<dots> = unat a * 256 + unat b"
    using push_or_nat [of "unat b" "unat a"] by (simp add: unsigned_ucast_eq take_bit_eq_mod mod_less [OF less_trans [OF unat_u8_less]])
  finally show ?thesis .
qed

lemma unat_fold_u32:
  "unat a * 256 ^ length bs + be_fold bs < 2 ^ 32 \<Longrightarrow>
    unat (foldl (\<lambda>n b. push_bit 8 n OR ucast (b :: u8)) (a :: u32) bs) = unat a * 256 ^ length bs + be_fold bs"
proof (induction bs arbitrary: a)
  case (Cons b bs)
  have "unat a * 256 * 256 ^ length bs < 2 ^ 32" using Cons.prems by (simp add: algebra_simps)
  moreover have "1 \<le> (256 :: nat) ^ length bs" by simp
  ultimately have "unat a * 256 < 2 ^ 32" by (metis (no_types, lifting) le_less_trans mult.right_neutral mult_le_mono2)
  then have "unat (push_bit 8 a OR ucast b) = unat a * 256 + unat b" by (intro unat_push_or) simp
  then show ?case using Cons.IH [of "push_bit 8 a OR ucast b"] Cons.prems by (simp add: algebra_simps)
qed simp

text \<open>
  The strict reading of a path length is the number its octets spell, and nothing that is negative, padded or wider than 32
  bits is read.
\<close>

theorem path_length_value:
  assumes "parse_path_length v = Inr n"
  shows "be_fold v = unat n \<and> v \<noteq> [] \<and> hd v AND 0x80 = 0 \<and> (length v > 1 \<and> hd v = 0 \<longrightarrow> v ! 1 AND 0x80 \<noteq> 0)"
proof -
  obtain first rest where v: "v = first # rest" using assms by (cases v) (simp_all add: parse_path_length_def)
  define magnitude where "magnitude = (if first = 0 then rest else v)"
  have sign: "first AND 0x80 = 0" using assms v by (auto simp: parse_path_length_def split: if_splits)
  show ?thesis
  proof (cases "first = 0 \<and> rest = []")
    case True
    then show ?thesis using assms v by (simp add: parse_path_length_def)
  next
    case False
    then have m: "length magnitude \<le> 4" "n = foldl (\<lambda>n b. push_bit 8 n OR ucast b) 0 magnitude" "first = 0 \<longrightarrow> hd rest AND 0x80 \<noteq> 0"
      using assms v sign by (auto simp: parse_path_length_def magnitude_def Let_def split: if_splits)
    have "be_fold magnitude < 256 ^ 4"
      using be_fold_less [of magnitude] power_increasing [OF m(1), of "256 :: nat"] by linarith
    then have "unat n = be_fold magnitude" using unat_fold_u32 [of 0 magnitude] m(2) by simp
    moreover have "be_fold magnitude = be_fold v" by (simp add: magnitude_def v)
    ultimately show ?thesis using m(3) v sign False by (cases rest) auto
  qed
qed

text \<open>
  Key usage is read twice by this program: strictly on a path, and leniently where a CRL is judged. What the strict reader
  accepts, the lenient one reads alike.
\<close>

theorem key_usage_readers_agree:
  assumes "find_extension d extensions OID_KEY_USAGE = Some value" "parse_path_key_usage value critical = Inr m"
  shows "extract_key_usage d extensions = Some (kum_key_usage m)"
proof -
  obtain bs unused bits where bs: "BerTlv_parse TAG_BIT_STRING value = Inr bs" "typed_value bs = unused # bits"
      "m = \<lparr>kum_key_usage = key_usage_bits (first_or_zero bits 0) (first_or_zero bits 1), kum_critical = critical\<rparr>"
    using assms(2) unfolding parse_path_key_usage_def exact_path_extension_tlv_def
    by (cases "BerTlv_parse TAG_BIT_STRING value") (simp_all add: Let_def split: list.splits if_splits)
  then show ?thesis using assms(1) by (simp add: extract_key_usage_def get_from_def)
qed


section \<open>Providers of evidence\<close>

lemma attested_nth:
  "attested pe policy et m path \<Longrightarrow> Suc k < length path \<Longrightarrow>
    \<exists>current issuer ev w w'. parse_certificate pe (path ! k) = Inr current \<and> parse_certificate pe (path ! Suc k) = Inr issuer \<and>
      pe_status pe policy current issuer et w = (Inr ev, w') \<and> evidence_in ev m"
proof (induction pe policy et m path arbitrary: k rule: attested.induct)
  case (1 pe policy et m c i rest)
  then show ?case by (cases k) auto
qed simp_all

text \<open>
  What the trait \<open>EvidenceProvider\<close> promises: evidence it returns about a certificate and its issuer vouches for them. The
  walk then promises the same of every link of every path.
\<close>

locale evidence_provider =
  fixes pe :: "('u, 'w) path_env"
    and vouches :: "NoncePolicy \<Rightarrow> Certificate \<Rightarrow> Certificate \<Rightarrow> DateTime \<Rightarrow> StatusEvidence \<Rightarrow> bool"
  assumes status_vouches: "pe_status pe policy subject issuer t w = (Inr ev, w') \<Longrightarrow> vouches policy subject issuer t ev"
begin

lemma link_vouched_for:
  assumes "attested pe policy now m path" "Suc k < length path"
  shows "\<exists>current issuer ev. parse_certificate pe (path ! k) = Inr current \<and> parse_certificate pe (path ! Suc k) = Inr issuer \<and>
    evidence_in ev m \<and> vouches policy current issuer now ev"
  using attested_nth [OF assms] status_vouches by blast

lemma material_vouched_for:
  assumes "collect_chains_seeded_with pe starts cands now w = (Inr m, w')" "start \<in> set starts"
  shows "\<exists>path. good_path pe (reference_time start) (approved_anchor_ders start) 0 path \<and> hd path = leaf_der start \<and>
    (\<forall>k. Suc k < length path \<longrightarrow> (\<exists>current issuer ev. parse_certificate pe (path ! k) = Inr current \<and>
       parse_certificate pe (path ! Suc k) = Inr issuer \<and> evidence_in ev m \<and> vouches (nonce_policy start) current issuer now ev))"
proof -
  have "\<exists>path. established pe now m start path"
    using assms walk_all_sound by (fastforce simp: collect_chains_seeded_with_def split: if_splits)
  then obtain path where "established pe now m start path" ..
  then show ?thesis using link_vouched_for unfolding established_def by blast
qed

end


section \<open>Witnesses\<close>

text \<open>
  Three certificates: a leaf, the CA above it and a root. The reader is a table, the extensions are real encodings: critical
  basic constraints and key usage of the CA, none for the leaf.
\<close>

definition example_extensions :: "u8 \<Rightarrow> bytes" where
  "example_extensions i =
     (if i = 2
      then [0x30, 0x0F, 6, 3, 0x55, 0x1D, 0x13, 1, 1, 0xFF, 4, 5, 0x30, 3, 1, 1, 0xFF,
            0x30, 0x0E, 6, 3, 0x55, 0x1D, 0x0F, 1, 1, 0xFF, 4, 4, 3, 2, 2, 4]
      else [])"

definition example_any :: "bytes \<Rightarrow> (der_tag \<times> bytes) option" where
  "example_any bs =
     (case bs of
        [i] \<Rightarrow> Some (Tag_Sequence, bs)
      | [i, k] \<Rightarrow>
          if k = 2 then Some (Tag_BitString, [0, i])
          else if k = 3 then Some (Tag_Integer, [i])
          else if k = 8 then Some (Tag_ContextSpecific True 3, [i, 9])
          else if k = 9 then Some (Tag_Sequence, example_extensions i)
          else Some (Tag_Sequence, bs)
      | _ \<Rightarrow> None)"

definition example_slice :: "bytes \<Rightarrow> der_reader option" where
  "example_slice bs =
     (case bs of
        [i] \<Rightarrow> Some ([[i, 0], [i, 1], [i, 2]], True)
      | [i, k] \<Rightarrow>
          if k = 0 then Some ([[i, 3], [i, 4], [i + 1, 5], [i, 6], [i, 5], [i, 7], [i, 8]], True)
          else Some ([[9]], True)
      | _ \<Rightarrow> None)"

definition example_der :: der where
  "example_der =
     \<lparr>der_any = example_any, der_slice = example_slice, der_time = (\<lambda>_. None), der_generalized_time = (\<lambda>_. None),
      der_validity = (\<lambda>_. Some (0, 10)), der_spki = (\<lambda>bs. Some \<lparr>spki_der = bs, subject_public_key = bs\<rparr>)\<rparr>"

definition example_verify :: "TbsSignature \<Rightarrow> bool" where
  "example_verify s = (case ts_tbs_der s of [i, _] \<Rightarrow> ts_issuer_spki_der s = [i + 1, 7] | _ \<Rightarrow> False)"

definition example_path_env :: "(unit, unit) path_env" where
  "example_path_env =
     \<lparr>pe_der = example_der, pe_uri = (\<lambda>_. None), pe_verify = example_verify, pe_fetch_issuer = (\<lambda>_ w. (Inl (), w)),
      pe_status = (\<lambda>_ c _ _ w. (Inr (StatusEvidence_Ocsp (crt_serial_der c)), w))\<rparr>"

lemma example_path:
  "verify_chain_to_approved_anchor example_path_env [1] 5 [[3]] [[2]] () = (Inr [[1], [2], [3]], ())"
  by code_simp

definition example_certificate :: "u8 \<Rightarrow> Certificate" where
  "example_certificate i =
     \<lparr>crt_raw_der = [i], crt_tbs_der = [i, 0], crt_serial_der = [i], crt_issuer = [i + 1, 5], crt_subject = [i, 5], crt_not_before = 0,
      crt_not_after = 10, crt_spki = \<lparr>spki_der = [i, 7], subject_public_key = [i, 7]\<rparr>, crt_extensions = Some (example_extensions i),
      crt_signature_alg_oid = [9], crt_signature_bits = [i]\<rparr>"

definition example_start :: ChainStart where
  "example_start =
     \<lparr>leaf_der = [1], reference_time = 5, approved_anchor_ders = [[3]], nonce_policy = NoncePolicy_RequireEcho, include_leaf = True,
      include_anchor = False\<rparr>"

lemma example_parse: "parse_certificate example_path_env [i] = Inr (example_certificate i)"
  by (simp add: Certificate_from_der_def parse_tbs_def example_path_env_def example_der_def example_any_def example_slice_def
      next_tlv_def next_any_def take_tlv_def Oid_new_def get_from_def VERSION_TAG_def EXTENSIONS_TAG_def example_certificate_def)

lemma example_material:
  "collect_chains_seeded_with example_path_env [example_start] [[2]] 7 () =
    (Inr \<lparr>vm_certificates = [[1], [2]], vm_ocsp_responses = [[1], [2]], vm_crls = []\<rparr>, ())"
  by code_simp

lemma example_ca_understood: "\<exists>p. validate_path_extensions (example_certificate 2) = Inr p"
proof -
  have "case validate_path_extensions (example_certificate 2) of Inl _ \<Rightarrow> False | Inr _ \<Rightarrow> True" by code_simp
  then show ?thesis by (auto split: sum.splits)
qed

theorem verified_path_sound_witness: "good_path example_path_env 5 [[3]] 0 [[1], [2], [3]]"
  using verified_path_sound [OF example_path] by simp

theorem material_never_partial_witness:
  "\<exists>path. established example_path_env 7 \<lparr>vm_certificates = [[1], [2]], vm_ocsp_responses = [[1], [2]], vm_crls = []\<rparr> example_start path"
  using material_never_partial [OF example_material, of example_start] by simp

theorem direct_issue_accepted_witness: "verify_chain_to_approved_anchor example_path_env [2] 5 [[3]] [] () = (Inr [[2], [3]], ())"
proof -
  obtain p where p: "validate_path_extensions (example_certificate 2) = Inr p" using example_ca_understood ..
  have "verify_signed_by (pe_verify example_path_env) (example_certificate 2) (example_certificate 3)"
    by (simp add: verify_signed_by_def example_path_env_def example_verify_def example_certificate_def)
  then show ?thesis
    using direct_issue_accepted [OF example_parse, of 2 5 "[[3]]" p "[3]" "example_certificate 3" "[]" "()"] p example_parse [of 3]
    by (simp add: example_certificate_def)
qed

theorem path_length_value_witness: "be_fold [0, 0x80] = 128"
proof -
  have "parse_path_length [0, 0x80] = Inr 128" by code_simp
  from path_length_value [OF this] show ?thesis by simp
qed

definition example_usage_der :: der where
  "example_usage_der =
     example_der\<lparr>der_slice := (\<lambda>bs. if bs = [1] then Some ([[2]], True) else Some ([[4], [5]], True)),
       der_any := (\<lambda>bs. if bs = [2] then Some (Tag_Sequence, [3]) else if bs = [4] then Some (Tag_ObjectIdentifier, OID_KEY_USAGE)
                     else Some (Tag_OctetString, [3, 2, 2, 4]))\<rparr>"

theorem key_usage_readers_agree_witness:
  "map_option key_cert_sign (extract_key_usage example_usage_der [1]) = Some True"
proof -
  have found: "find_extension example_usage_der [1] OID_KEY_USAGE = Some [3, 2, 2, 4]"
    by (simp add: find_extension_def find_extension_with_meta_def extension_at_def next_any_def next_tlv_def take_tlv_def example_usage_der_def)
  have read: "parse_path_key_usage [3, 2, 2, 4] True = Inr \<lparr>kum_key_usage = key_usage_bits 4 0, kum_critical = True\<rparr>" by code_simp
  have "key_cert_sign (key_usage_bits 4 0)" by code_simp
  then show ?thesis using key_usage_readers_agree [OF found read] by simp
qed

end
