(* ===== verification/Revocation.thy ===== *)
theory Revocation
  imports Path_Validation "HOL-Library.Monad_Syntax"
begin

text \<open>
  Whether a certificate is still good: revocation lists (\<open>crates/refineid-lib-core/src/crl.rs\<close>), OCSP requests and responses
  (\<open>ocsp.rs\<close>), the verdict and its cache (\<open>revocation.rs\<close>), and the collection of one authenticated answer for a link of a
  path (\<open>collect_status\<close> of \<open>crates/refineid-doc-sign/src/material.rs\<close>), which is the evidence provider of
  \<open>Path_Validation\<close>. The readers of \<open>der\<close> are as in \<open>X509\<close>; the typed entry of a list, SHA-1, the random source, HTTP and
  the decoding of PEM are parameters.
\<close>


section \<open>Definitions\<close>

subsection \<open>Revocation lists\<close>

datatype CrlReason =
    CrlReason_Unspecified | CrlReason_KeyCompromise | CrlReason_CaCompromise | CrlReason_AffiliationChanged | CrlReason_Superseded
  | CrlReason_CessationOfOperation | CrlReason_CertificateHold | CrlReason_RemoveFromCrl | CrlReason_PrivilegeWithdrawn
  | CrlReason_AaCompromise

definition CrlReason_from_code :: "u8 \<Rightarrow> CrlReason option" where
  "CrlReason_from_code c =
     (if c = 0 then Some CrlReason_Unspecified
      else if c = 1 then Some CrlReason_KeyCompromise
      else if c = 2 then Some CrlReason_CaCompromise
      else if c = 3 then Some CrlReason_AffiliationChanged
      else if c = 4 then Some CrlReason_Superseded
      else if c = 5 then Some CrlReason_CessationOfOperation
      else if c = 6 then Some CrlReason_CertificateHold
      else if c = 8 then Some CrlReason_RemoveFromCrl
      else if c = 9 then Some CrlReason_PrivilegeWithdrawn
      else if c = 10 then Some CrlReason_AaCompromise
      else None)"

fun CrlReason_code :: "CrlReason \<Rightarrow> u8" where
  "CrlReason_code CrlReason_Unspecified = 0"
| "CrlReason_code CrlReason_KeyCompromise = 1"
| "CrlReason_code CrlReason_CaCompromise = 2"
| "CrlReason_code CrlReason_AffiliationChanged = 3"
| "CrlReason_code CrlReason_Superseded = 4"
| "CrlReason_code CrlReason_CessationOfOperation = 5"
| "CrlReason_code CrlReason_CertificateHold = 6"
| "CrlReason_code CrlReason_RemoveFromCrl = 8"
| "CrlReason_code CrlReason_PrivilegeWithdrawn = 9"
| "CrlReason_code CrlReason_AaCompromise = 10"

record Crl =
  crl_raw_der :: bytes
  crl_tbs_der :: bytes
  crl_issuer :: bytes
  crl_this_update :: DateTime
  crl_next_update :: "DateTime option"
  crl_revoked_seq_value :: "bytes option"
  crl_signature_alg_oid :: bytes
  crl_signature_bits :: bytes

definition CRL_EXTENSIONS_TAG :: der_tag where "CRL_EXTENSIONS_TAG = Tag_ContextSpecific True 0"

text \<open>The optional fields after \<open>thisUpdate\<close>.\<close>

fun crl_tail :: "der \<Rightarrow> bytes list \<Rightarrow> bool \<Rightarrow> DateTime option \<Rightarrow> bytes option \<Rightarrow> X509Error + (DateTime option \<times> bytes option)" where
  "crl_tail d [] ok next_update revoked =
     (if ok then Inr (next_update, revoked) else Inl (X509Error_UnexpectedStructure ''tbsCertList trailing field''))"
| "crl_tail d (t # ts) ok next_update revoked =
     bindR (structure_error ''tbsCertList trailing field'' (der_any d t)) (\<lambda>(tag, v).
       if tag = Tag_UtcTime \<or> tag = Tag_GeneralizedTime
       then bindR (ok_or X509Error_InvalidTime (der_time d t)) (\<lambda>time. crl_tail d ts ok (Some time) revoked)
       else if tag = Tag_Sequence then crl_tail d ts ok next_update (Some v)
       else if tag = CRL_EXTENSIONS_TAG then crl_tail d ts ok next_update revoked
       else Inl (X509Error_UnexpectedStructure ''unexpected CRL field''))"

definition parse_tbs_cert_list :: "der \<Rightarrow> bytes \<Rightarrow> bytes \<Rightarrow> bytes \<Rightarrow> bytes \<Rightarrow> X509Error + Crl" where
  "parse_tbs_cert_list d tbs raw alg bits =
     bindR (structure_error ''tbsCertList not a TLV'' (der_any d tbs)) (\<lambda>(tag, v).
       if tag \<noteq> Tag_Sequence then Inl (X509Error_UnexpectedStructure ''tbsCertList not SEQUENCE'')
       else
         bindR (structure_error ''tbsCertList body'' (der_slice d v)) (\<lambda>r.
         bindR (next_any d ''tbsCertList version/signature'' r) (\<lambda>((tag, _), r).
         bindR (if tag = Tag_Integer then bindR (next_tlv ''tbsCertList signature'' r) (\<lambda>(_, r). Inr r) else Inr r) (\<lambda>r.
         bindR (next_tlv ''tbsCertList issuer'' r) (\<lambda>(issuer, r).
         bindR (next_tlv ''tbsCertList thisUpdate'' r) (\<lambda>(time, r).
         bindR (ok_or X509Error_InvalidTime (der_time d time)) (\<lambda>this_update.
         bindR (crl_tail d (fst r) (snd r) None None) (\<lambda>(next_update, revoked).
           Inr \<lparr>crl_raw_der = raw, crl_tbs_der = tbs, crl_issuer = issuer, crl_this_update = this_update,
                crl_next_update = next_update, crl_revoked_seq_value = revoked, crl_signature_alg_oid = alg,
                crl_signature_bits = bits\<rparr>))))))))"

text \<open>The outer structure shared by lists and basic responses: the signed part, the algorithm and the signature bits.\<close>

definition signed_parts ::
  "der \<Rightarrow> string \<Rightarrow> string \<Rightarrow> string \<Rightarrow> string \<Rightarrow> string \<Rightarrow> string \<Rightarrow> string \<Rightarrow> der_reader \<Rightarrow> X509Error + (bytes \<times> bytes \<times> bytes \<times> der_reader)" where
  "signed_parts d tbs_what alg_what body_what oid_what sig_what bit_what empty_what r =
     bindR (next_tlv tbs_what r) (\<lambda>(tbs, r).
     bindR (next_any d alg_what r) (\<lambda>((_, alg), r).
     bindR (structure_error body_what (der_slice d alg)) (\<lambda>alg_reader.
     bindR (next_any d oid_what alg_reader) (\<lambda>((tag, oid), _).
       if tag \<noteq> Tag_ObjectIdentifier then Inl (X509Error_UnexpectedStructure oid_what)
       else
         bindR (next_any d sig_what r) (\<lambda>((tag, sig), r).
           if tag \<noteq> Tag_BitString then Inl (X509Error_UnexpectedStructure bit_what)
           else bindR (structure_error empty_what (get_from sig 1)) (\<lambda>bits. Inr (tbs, oid, bits, r)))))))"

definition Crl_parse :: "der \<Rightarrow> bytes \<Rightarrow> X509Error + Crl" where
  "Crl_parse d raw =
     bindR (structure_error ''CRL not a TLV'' (der_any d raw)) (\<lambda>(tag, v).
       if tag \<noteq> Tag_Sequence then Inl (X509Error_UnexpectedStructure ''CRL not SEQUENCE'')
       else
         bindR (structure_error ''CRL body'' (der_slice d v)) (\<lambda>r.
         bindR (signed_parts d ''tbsCertList'' ''CRL signatureAlgorithm'' ''CRL signatureAlgorithm body'' ''CRL signatureAlgorithm OID''
                  ''CRL signature'' ''CRL signature not BIT STRING'' ''CRL signature BIT STRING empty'' r) (\<lambda>(tbs, oid, bits, _).
           parse_tbs_cert_list d tbs raw oid bits)))"

definition Crl_verify_signature :: "(TbsSignature \<Rightarrow> bool) \<Rightarrow> Crl \<Rightarrow> bytes \<Rightarrow> bool" where
  "Crl_verify_signature verify crl issuer_spki =
     verify \<lparr>ts_tbs_der = crl_tbs_der crl, ts_signature_alg_oid = crl_signature_alg_oid crl, ts_signature_bits = crl_signature_bits crl,
             ts_issuer_spki_der = issuer_spki\<rparr>"

text \<open>\<open>VerifiedCrl\<close>: a list of that type comes from a checked signature only.\<close>

datatype VerifiedCrl = VerifiedCrl Crl

definition VerifiedCrl_verify :: "(TbsSignature \<Rightarrow> bool) \<Rightarrow> Crl \<Rightarrow> SpkiDer \<Rightarrow> VerifiedCrl option" where
  "VerifiedCrl_verify verify crl spki = (if Crl_verify_signature verify crl (spki_der spki) then Some (VerifiedCrl crl) else None)"

fun as_crl :: "VerifiedCrl \<Rightarrow> Crl" where
  "as_crl (VerifiedCrl crl) = crl"

record RevokedEntry =
  re_serial :: bytes
  re_revocation_date :: DateTime
  re_reason :: "CrlReason option"

text \<open>The entry as the crate \<open>x509-cert\<close> decodes it: serial, date and the extensions with identifier and value.\<close>

record revoked_cert =
  rc_serial_number :: bytes
  rc_revocation_date :: DateTime
  rc_extensions :: "(bytes \<times> bytes) list option"

definition OID_CRL_REASONS :: bytes where "OID_CRL_REASONS = [0x55, 0x1D, 0x15]"

definition find_reason_code :: "der \<Rightarrow> (bytes \<times> bytes) list \<Rightarrow> CrlReason option" where
  "find_reason_code d extensions =
     (case find (\<lambda>(oid, _). oid = OID_CRL_REASONS) extensions of
        None \<Rightarrow> None
      | Some (_, value) \<Rightarrow>
          (case der_any d value of
             None \<Rightarrow> None
           | Some (tag, v) \<Rightarrow> if tag \<noteq> Tag_Enumerated then None else if length v = 1 then CrlReason_from_code (hd v) else None))"

text \<open>The iterator: the first entry that does not decode ends it.\<close>

fun revoked_entries :: "der \<Rightarrow> (bytes \<Rightarrow> revoked_cert option) \<Rightarrow> bytes list \<Rightarrow> RevokedEntry list" where
  "revoked_entries d revoked [] = []"
| "revoked_entries d revoked (t # ts) =
     (case revoked t of
        None \<Rightarrow> []
      | Some rc \<Rightarrow>
          \<lparr>re_serial = rc_serial_number rc, re_revocation_date = rc_revocation_date rc,
           re_reason = (case rc_extensions rc of None \<Rightarrow> None | Some exts \<Rightarrow> find_reason_code d exts)\<rparr> # revoked_entries d revoked ts)"

definition entries :: "der \<Rightarrow> (bytes \<Rightarrow> revoked_cert option) \<Rightarrow> Crl \<Rightarrow> RevokedEntry list" where
  "entries d revoked crl =
     (case crl_revoked_seq_value crl of
        None \<Rightarrow> []
      | Some body \<Rightarrow> (case der_slice d body of None \<Rightarrow> [] | Some r \<Rightarrow> revoked_entries d revoked (fst r)))"

definition find_serial :: "der \<Rightarrow> (bytes \<Rightarrow> revoked_cert option) \<Rightarrow> Crl \<Rightarrow> bytes \<Rightarrow> RevokedEntry option" where
  "find_serial d revoked crl serial = find (\<lambda>e. re_serial e = serial) (entries d revoked crl)"


subsection \<open>OCSP requests\<close>

definition OID_SHA1 :: bytes where "OID_SHA1 = [0x2B, 0x0E, 3, 2, 0x1A]"
definition OID_OCSP_NONCE :: bytes where "OID_OCSP_NONCE = [0x2B, 6, 1, 5, 5, 7, 0x30, 1, 2]"
definition BASIC_OCSP_RESPONSE :: bytes where "BASIC_OCSP_RESPONSE = [0x2B, 6, 1, 5, 5, 7, 0x30, 1, 1]"

definition OCSP_TAG_INTEGER :: u8 where "OCSP_TAG_INTEGER = 0x02"
definition OCSP_TAG_OCTET_STRING :: u8 where "OCSP_TAG_OCTET_STRING = 0x04"
definition OCSP_TAG_NULL :: u8 where "OCSP_TAG_NULL = 0x05"
definition OCSP_TAG_OID :: u8 where "OCSP_TAG_OID = 0x06"
definition TAG_GENERALIZED_TIME :: u8 where "TAG_GENERALIZED_TIME = 0x18"
definition OCSP_TAG_SEQUENCE :: u8 where "OCSP_TAG_SEQUENCE = 0x30"
definition TAG_CONTEXT_0_PRIMITIVE :: u8 where "TAG_CONTEXT_0_PRIMITIVE = 0x80"
definition TAG_CONTEXT_0 :: u8 where "TAG_CONTEXT_0 = 0xA0"
definition TAG_CONTEXT_1 :: u8 where "TAG_CONTEXT_1 = 0xA1"
definition TAG_CONTEXT_2 :: u8 where "TAG_CONTEXT_2 = 0xA2"

text \<open>
  \<open>None\<close> is the panic of \<open>tlv\<close> on a field of four gigabytes. The identifier of the certificate and the block of extensions
  are written on their own, as parts of \<open>encode_request\<close>.
\<close>

definition encode_cert_id :: "bytes \<Rightarrow> bytes \<Rightarrow> bytes \<Rightarrow> bytes option" where
  "encode_cert_id name_hash key_hash serial =
     do {
       oid \<leftarrow> tlv OCSP_TAG_OID OID_SHA1;
       null \<leftarrow> tlv OCSP_TAG_NULL [];
       algorithm \<leftarrow> tlv OCSP_TAG_SEQUENCE (oid @ null);
       name \<leftarrow> tlv OCSP_TAG_OCTET_STRING name_hash;
       key \<leftarrow> tlv OCSP_TAG_OCTET_STRING key_hash;
       number \<leftarrow> tlv OCSP_TAG_INTEGER serial;
       tlv OCSP_TAG_SEQUENCE (algorithm @ name @ key @ number)
     }"

definition encode_nonce_extensions :: "bytes \<Rightarrow> bytes option" where
  "encode_nonce_extensions nonce =
     do {
       oid \<leftarrow> tlv OCSP_TAG_OID OID_OCSP_NONCE;
       inner \<leftarrow> tlv OCSP_TAG_OCTET_STRING nonce;
       value \<leftarrow> tlv OCSP_TAG_OCTET_STRING inner;
       extension \<leftarrow> tlv OCSP_TAG_SEQUENCE (oid @ value);
       tlv OCSP_TAG_SEQUENCE extension
     }"

definition encode_request :: "bytes \<Rightarrow> bytes \<Rightarrow> bytes \<Rightarrow> bytes option \<Rightarrow> bytes option" where
  "encode_request name_hash key_hash serial nonce =
     do {
       cert_id \<leftarrow> encode_cert_id name_hash key_hash serial;
       request \<leftarrow> tlv OCSP_TAG_SEQUENCE cert_id;
       tbs_request \<leftarrow> tlv OCSP_TAG_SEQUENCE request;
       tbs_request \<leftarrow>
         (case nonce of
            None \<Rightarrow> Some tbs_request
          | Some nonce \<Rightarrow> do {
              extensions \<leftarrow> encode_nonce_extensions nonce;
              explicit \<leftarrow> tlv TAG_CONTEXT_2 extensions;
              Some (tbs_request @ explicit)
            });
       tbs \<leftarrow> tlv OCSP_TAG_SEQUENCE tbs_request;
       tlv OCSP_TAG_SEQUENCE tbs
     }"

definition build_request where
  "build_request name_hash key_hash serial = encode_request name_hash key_hash serial None"

definition build_request_with_nonce where
  "build_request_with_nonce name_hash key_hash serial nonce = encode_request name_hash key_hash serial (Some nonce)"


subsection \<open>OCSP responses\<close>

record CertId =
  hash_algorithm_oid :: bytes
  issuer_name_hash :: bytes
  issuer_key_hash :: bytes
  cid_serial :: bytes

definition matches_request :: "CertId \<Rightarrow> bytes \<Rightarrow> bytes \<Rightarrow> bytes \<Rightarrow> bool" where
  "matches_request cid name_hash key_hash serial \<longleftrightarrow>
     hash_algorithm_oid cid = OID_SHA1 \<and> issuer_name_hash cid = name_hash \<and> issuer_key_hash cid = key_hash \<and> cid_serial cid = serial"

datatype CertStatus = CertStatus_Good | CertStatus_Revoked DateTime "CrlReason option" | CertStatus_Unknown

record SingleResponse =
  sr_cert_id :: CertId
  sr_status :: CertStatus
  sr_this_update :: DateTime
  sr_next_update :: "DateTime option"

datatype OcspResponseStatus =
    OcspResponseStatus_Successful | OcspResponseStatus_MalformedRequest | OcspResponseStatus_InternalError
  | OcspResponseStatus_TryLater | OcspResponseStatus_SigRequired | OcspResponseStatus_Unauthorized | OcspResponseStatus_Other u8

definition OcspResponseStatus_from_byte :: "u8 \<Rightarrow> OcspResponseStatus" where
  "OcspResponseStatus_from_byte b =
     (if b = 0 then OcspResponseStatus_Successful
      else if b = 1 then OcspResponseStatus_MalformedRequest
      else if b = 2 then OcspResponseStatus_InternalError
      else if b = 3 then OcspResponseStatus_TryLater
      else if b = 5 then OcspResponseStatus_SigRequired
      else if b = 6 then OcspResponseStatus_Unauthorized
      else OcspResponseStatus_Other b)"

record BasicOcspResponse =
  bo_produced_at :: DateTime
  bo_responses :: "SingleResponse list"
  bo_tbs_response_data_der :: bytes
  bo_signature_alg_oid :: bytes
  bo_signature_bits :: bytes
  bo_embedded_cert_ders :: "bytes list"
  bo_nonce :: "bytes option"

record OcspResponse =
  or_status :: OcspResponseStatus
  or_basic :: "BasicOcspResponse option"

definition starts_with :: "bytes \<Rightarrow> u8 \<Rightarrow> bool" where
  "starts_with bs b \<longleftrightarrow> bs \<noteq> [] \<and> hd bs = b"

definition value_of :: "der \<Rightarrow> bytes \<Rightarrow> string \<Rightarrow> X509Error + bytes" where
  "value_of d bs what = bindR (structure_error what (der_any d bs)) (\<lambda>(_, v). Inr v)"

definition sequence_reader :: "der \<Rightarrow> bytes \<Rightarrow> string \<Rightarrow> X509Error + der_reader" where
  "sequence_reader d bs what =
     (if \<not> starts_with bs OCSP_TAG_SEQUENCE then Inl (X509Error_UnexpectedStructure what)
      else bindR (value_of d bs what) (\<lambda>v. structure_error what (der_slice d v)))"

definition octet_string :: "der \<Rightarrow> string \<Rightarrow> der_reader \<Rightarrow> X509Error + (bytes \<times> der_reader)" where
  "octet_string d what r =
     bindR (next_tlv what r) (\<lambda>(t, r).
       if \<not> starts_with t OCSP_TAG_OCTET_STRING then Inl (X509Error_UnexpectedStructure what)
       else bindR (value_of d t what) (\<lambda>v. Inr (v, r)))"

definition generalized_time :: "der \<Rightarrow> bytes \<Rightarrow> X509Error + DateTime" where
  "generalized_time d bs = ok_or X509Error_InvalidTime (der_generalized_time d bs)"

definition parse_cert_id :: "der \<Rightarrow> bytes \<Rightarrow> X509Error + CertId" where
  "parse_cert_id d bs =
     bindR (sequence_reader d bs ''OCSP CertID'') (\<lambda>r.
     bindR (next_tlv ''CertID hashAlgorithm'' r) (\<lambda>(algorithm, r).
     bindR (sequence_reader d algorithm ''CertID hashAlgorithm'') (\<lambda>algorithm_reader.
     bindR (next_tlv ''CertID hashAlgorithm OID'' algorithm_reader) (\<lambda>(oid_tlv, _).
       if \<not> starts_with oid_tlv OCSP_TAG_OID then Inl (X509Error_UnexpectedStructure ''CertID hashAlgorithm OID'')
       else
         bindR (value_of d oid_tlv ''CertID hashAlgorithm OID'') (\<lambda>oid.
         bindR (octet_string d ''CertID issuerNameHash'' r) (\<lambda>(name_hash, r).
         bindR (octet_string d ''CertID issuerKeyHash'' r) (\<lambda>(key_hash, r).
         bindR (next_tlv ''CertID serialNumber'' r) (\<lambda>(serial_tlv, _).
           if \<not> starts_with serial_tlv OCSP_TAG_INTEGER then Inl (X509Error_UnexpectedStructure ''CertID serialNumber'')
           else
             bindR (value_of d serial_tlv ''CertID serialNumber'') (\<lambda>serial.
               Inr \<lparr>hash_algorithm_oid = oid, issuer_name_hash = name_hash, issuer_key_hash = key_hash, cid_serial = serial\<rparr>)))))))))"

fun revoked_reason :: "der \<Rightarrow> bytes list \<Rightarrow> bool \<Rightarrow> CrlReason option \<Rightarrow> X509Error + CrlReason option" where
  "revoked_reason d [] ok reason = (if ok then Inr reason else Inl (X509Error_UnexpectedStructure ''OCSP RevokedInfo tail''))"
| "revoked_reason d (t # ts) ok reason =
     (if starts_with t TAG_CONTEXT_0
      then
        bindR (value_of d t ''revocationReason'') (\<lambda>enumerated.
        bindR (value_of d enumerated ''CRLReason'') (\<lambda>v.
          revoked_reason d ts ok (case v of [] \<Rightarrow> None | c # _ \<Rightarrow> CrlReason_from_code c)))
      else revoked_reason d ts ok reason)"

definition parse_cert_status :: "der \<Rightarrow> bytes \<Rightarrow> X509Error + CertStatus" where
  "parse_cert_status d bs =
     (if starts_with bs TAG_CONTEXT_0_PRIMITIVE then Inr CertStatus_Good
      else if starts_with bs TAG_CONTEXT_1
      then
        bindR (value_of d bs ''OCSP RevokedInfo'') (\<lambda>v.
        bindR (structure_error ''OCSP RevokedInfo body'' (der_slice d v)) (\<lambda>r.
        bindR (next_tlv ''revocationTime'' r) (\<lambda>(time, r).
        bindR (generalized_time d time) (\<lambda>revoked_at.
        bindR (revoked_reason d (fst r) (snd r) None) (\<lambda>reason. Inr (CertStatus_Revoked revoked_at reason))))))
      else Inr CertStatus_Unknown)"

fun single_next_update :: "der \<Rightarrow> bytes list \<Rightarrow> bool \<Rightarrow> DateTime option \<Rightarrow> X509Error + DateTime option" where
  "single_next_update d [] ok found = (if ok then Inr found else Inl (X509Error_UnexpectedStructure ''OCSP SingleResponse tail''))"
| "single_next_update d (t # ts) ok found =
     (if starts_with t TAG_CONTEXT_0
      then bindR (value_of d t ''OCSP nextUpdate'') (\<lambda>v. bindR (generalized_time d v) (\<lambda>time. single_next_update d ts ok (Some time)))
      else single_next_update d ts ok found)"

definition parse_single_response :: "der \<Rightarrow> bytes \<Rightarrow> X509Error + SingleResponse" where
  "parse_single_response d bs =
     bindR (sequence_reader d bs ''OCSP SingleResponse'') (\<lambda>r.
     bindR (next_tlv ''OCSP certID'' r) (\<lambda>(t, r).
     bindR (parse_cert_id d t) (\<lambda>cert_id.
     bindR (next_tlv ''OCSP certStatus'' r) (\<lambda>(t, r).
     bindR (parse_cert_status d t) (\<lambda>status.
     bindR (next_tlv ''OCSP thisUpdate'' r) (\<lambda>(t, r).
     bindR (generalized_time d t) (\<lambda>this_update.
     bindR (single_next_update d (fst r) (snd r) None) (\<lambda>next_update.
       Inr \<lparr>sr_cert_id = cert_id, sr_status = status, sr_this_update = this_update, sr_next_update = next_update\<rparr>))))))))"

text \<open>The fields of an extension up to its octet string, and the extensions up to the nonce.\<close>

fun nonce_in_fields :: "der \<Rightarrow> bytes list \<Rightarrow> bool \<Rightarrow> X509Error + bytes option" where
  "nonce_in_fields d [] ok = (if ok then Inr None else Inl (X509Error_UnexpectedStructure ''OCSP extnValue''))"
| "nonce_in_fields d (t # ts) ok =
     (if starts_with t OCSP_TAG_OCTET_STRING
      then
        bindR (value_of d t ''OCSP extnValue'') (\<lambda>inner.
          if starts_with inner OCSP_TAG_OCTET_STRING then bindR (value_of d inner ''OCSP nonce'') (\<lambda>v. Inr (Some v))
          else Inr (Some inner))
      else nonce_in_fields d ts ok)"

fun nonce_in_extensions :: "der \<Rightarrow> bytes list \<Rightarrow> bool \<Rightarrow> X509Error + bytes option" where
  "nonce_in_extensions d [] ok = (if ok then Inr None else Inl (X509Error_UnexpectedStructure ''OCSP Extension''))"
| "nonce_in_extensions d (t # ts) ok =
     bindR (sequence_reader d t ''OCSP Extension body'') (\<lambda>fs.
     bindR (next_tlv ''OCSP Extension OID'' fs) (\<lambda>(oid_tlv, fs).
     bindR (value_of d oid_tlv ''OCSP Extension OID'') (\<lambda>oid.
       if oid \<noteq> OID_OCSP_NONCE then nonce_in_extensions d ts ok
       else
         bindR (nonce_in_fields d (fst fs) (snd fs)) (\<lambda>found.
           case found of Some nonce \<Rightarrow> Inr (Some nonce) | None \<Rightarrow> nonce_in_extensions d ts ok))))"

definition nonce_from_extensions :: "der \<Rightarrow> bytes \<Rightarrow> X509Error + bytes option" where
  "nonce_from_extensions d bs =
     bindR (sequence_reader d bs ''OCSP Extensions'') (\<lambda>r. nonce_in_extensions d (fst r) (snd r))"

fun single_responses_of :: "der \<Rightarrow> bytes list \<Rightarrow> bool \<Rightarrow> X509Error + SingleResponse list" where
  "single_responses_of d [] ok = (if ok then Inr [] else Inl (X509Error_UnexpectedStructure ''OCSP SingleResponse''))"
| "single_responses_of d (t # ts) ok =
     bindR (parse_single_response d t) (\<lambda>s. bindR (single_responses_of d ts ok) (\<lambda>rest. Inr (s # rest)))"

fun response_data_fields ::
  "der \<Rightarrow> bytes list \<Rightarrow> bool \<Rightarrow> DateTime option \<Rightarrow> SingleResponse list \<Rightarrow> bytes option \<Rightarrow>
     X509Error + (DateTime option \<times> SingleResponse list \<times> bytes option)" where
  "response_data_fields d [] ok produced_at responses nonce =
     (if ok then Inr (produced_at, responses, nonce) else Inl (X509Error_UnexpectedStructure ''OCSP ResponseData field''))"
| "response_data_fields d (t # ts) ok produced_at responses nonce =
     (if starts_with t TAG_GENERALIZED_TIME
      then bindR (generalized_time d t) (\<lambda>time. response_data_fields d ts ok (Some time) responses nonce)
      else if starts_with t OCSP_TAG_SEQUENCE
      then
        bindR (sequence_reader d t ''OCSP responses'') (\<lambda>r.
        bindR (single_responses_of d (fst r) (snd r)) (\<lambda>more. response_data_fields d ts ok produced_at (responses @ more) nonce))
      else if starts_with t TAG_CONTEXT_1 \<and> produced_at \<noteq> None
      then
        bindR (value_of d t ''OCSP extensions'') (\<lambda>v.
        bindR (nonce_from_extensions d v) (\<lambda>nonce. response_data_fields d ts ok produced_at responses nonce))
      else response_data_fields d ts ok produced_at responses nonce)"

definition parse_response_data :: "der \<Rightarrow> bytes \<Rightarrow> X509Error + (DateTime \<times> SingleResponse list \<times> bytes option)" where
  "parse_response_data d bs =
     bindR (sequence_reader d bs ''OCSP tbsResponseData'') (\<lambda>r.
     bindR (response_data_fields d (fst r) (snd r) None [] None) (\<lambda>(produced_at, responses, nonce).
     bindR (structure_error ''OCSP producedAt missing'' produced_at) (\<lambda>produced_at. Inr (produced_at, responses, nonce))))"

text \<open>The optional certificates: every TLV of the list.\<close>

definition embedded_certificates :: "der \<Rightarrow> der_reader \<Rightarrow> X509Error + bytes list" where
  "embedded_certificates d r =
     (if is_finished r then Inr []
      else
        bindR (next_tlv ''OCSP certs field'' r) (\<lambda>(t, _).
        bindR (structure_error ''OCSP certs field'' (der_any d t)) (\<lambda>(_, v).
          if \<not> starts_with t TAG_CONTEXT_0 then Inr []
          else
            bindR (structure_error ''OCSP certs not SEQUENCE'' (der_any d v)) (\<lambda>(_, body).
            bindR (structure_error ''OCSP certs body'' (der_slice d body)) (\<lambda>certs.
              if snd certs then Inr (fst certs) else Inl (X509Error_UnexpectedStructure ''OCSP embedded cert''))))))"

definition BasicOcspResponse_parse :: "der \<Rightarrow> bytes \<Rightarrow> X509Error + BasicOcspResponse" where
  "BasicOcspResponse_parse d bs =
     bindR (structure_error ''BasicOCSPResponse not a TLV'' (der_any d bs)) (\<lambda>(tag, v).
       if tag \<noteq> Tag_Sequence then Inl (X509Error_UnexpectedStructure ''BasicOCSPResponse not SEQUENCE'')
       else
         bindR (structure_error ''BasicOCSPResponse body'' (der_slice d v)) (\<lambda>r.
         bindR (signed_parts d ''tbsResponseData'' ''OCSP signatureAlgorithm'' ''OCSP signatureAlgorithm body''
                  ''OCSP signatureAlgorithm OID'' ''OCSP signature'' ''OCSP signature not BIT STRING''
                  ''OCSP signature BIT STRING empty'' r) (\<lambda>(tbs, oid, bits, r).
         bindR (embedded_certificates d r) (\<lambda>embedded.
         bindR (parse_response_data d tbs) (\<lambda>(produced_at, responses, nonce).
           Inr \<lparr>bo_produced_at = produced_at, bo_responses = responses, bo_tbs_response_data_der = tbs, bo_signature_alg_oid = oid,
                bo_signature_bits = bits, bo_embedded_cert_ders = embedded, bo_nonce = nonce\<rparr>)))))"

definition response_bytes :: "der \<Rightarrow> der_reader \<Rightarrow> X509Error + BasicOcspResponse option" where
  "response_bytes d r =
     bindR (next_tlv ''OCSP responseBytes'' r) (\<lambda>(t, _).
     bindR (structure_error ''OCSP responseBytes'' (der_any d t)) (\<lambda>(_, v).
       if \<not> starts_with t TAG_CONTEXT_0 then Inr None
       else
         bindR (structure_error ''OCSP responseBytes not SEQUENCE'' (der_any d v)) (\<lambda>(_, body).
         bindR (structure_error ''OCSP responseBytes body'' (der_slice d body)) (\<lambda>r.
         bindR (next_any d ''missing responseType'' r) (\<lambda>((tag, oid), r).
           if tag = Tag_ObjectIdentifier \<and> oid = BASIC_OCSP_RESPONSE
           then
             bindR (next_any d ''missing response octet'' r) (\<lambda>((tag, octets), _).
               if tag \<noteq> Tag_OctetString then Inl (X509Error_UnexpectedStructure ''response field not OCTET STRING'')
               else bindR (BasicOcspResponse_parse d octets) (\<lambda>basic. Inr (Some basic)))
           else Inr None)))))"

definition OcspResponse_parse :: "der \<Rightarrow> bytes \<Rightarrow> X509Error + OcspResponse" where
  "OcspResponse_parse d bs =
     bindR (structure_error ''OCSP not a TLV'' (der_any d bs)) (\<lambda>(tag, v).
       if tag \<noteq> Tag_Sequence then Inl (X509Error_UnexpectedStructure ''OCSP not SEQUENCE'')
       else
         bindR (structure_error ''OCSP body'' (der_slice d v)) (\<lambda>r.
         bindR (next_any d ''missing responseStatus'' r) (\<lambda>((tag, v), r).
           if tag \<noteq> Tag_Enumerated \<or> length v \<noteq> 1 then Inl (X509Error_UnexpectedStructure ''malformed responseStatus'')
           else
             let status = OcspResponseStatus_from_byte (hd v)
             in bindR (if status = OcspResponseStatus_Successful \<and> \<not> is_finished r then response_bytes d r else Inr None) (\<lambda>basic.
                  Inr \<lparr>or_status = status, or_basic = basic\<rparr>))))"

definition Ocsp_verify_signature :: "(TbsSignature \<Rightarrow> bool) \<Rightarrow> BasicOcspResponse \<Rightarrow> bytes \<Rightarrow> bool" where
  "Ocsp_verify_signature verify b signer_spki =
     verify \<lparr>ts_tbs_der = bo_tbs_response_data_der b, ts_signature_alg_oid = bo_signature_alg_oid b,
             ts_signature_bits = bo_signature_bits b, ts_issuer_spki_der = signer_spki\<rparr>"

datatype VerifiedOcspResponse = VerifiedOcspResponse BasicOcspResponse

definition VerifiedOcspResponse_verify :: "(TbsSignature \<Rightarrow> bool) \<Rightarrow> BasicOcspResponse \<Rightarrow> SpkiDer \<Rightarrow> VerifiedOcspResponse option" where
  "VerifiedOcspResponse_verify verify b spki =
     (if Ocsp_verify_signature verify b (spki_der spki) then Some (VerifiedOcspResponse b) else None)"

fun single_responses :: "VerifiedOcspResponse \<Rightarrow> SingleResponse list" where
  "single_responses (VerifiedOcspResponse b) = bo_responses b"


subsection \<open>Verdicts and their cache\<close>

datatype InapplicableReason = InapplicableReason_CrlIssuerMismatch | InapplicableReason_OcspNoEntryForSerial

datatype RevocationStatus =
    RevocationStatus_Good
  | RevocationStatus_Inapplicable InapplicableReason
  | RevocationStatus_Revoked DateTime "CrlReason option"
  | RevocationStatus_Stale
  | RevocationStatus_Unknown

definition past :: "DateTime \<Rightarrow> DateTime option \<Rightarrow> bool" where
  "past now next_update = (case next_update of None \<Rightarrow> False | Some t \<Rightarrow> now > t)"

definition check_against_crl ::
  "der \<Rightarrow> (bytes \<Rightarrow> revoked_cert option) \<Rightarrow> Certificate \<Rightarrow> VerifiedCrl \<Rightarrow> DateTime \<Rightarrow> RevocationStatus" where
  "check_against_crl d revoked c verified now =
     (let crl = as_crl verified
      in if crl_issuer crl \<noteq> crt_issuer c then RevocationStatus_Inapplicable InapplicableReason_CrlIssuerMismatch
         else if past now (crl_next_update crl) then RevocationStatus_Stale
         else
           (case find_serial d revoked crl (crt_serial_der c) of
              None \<Rightarrow> RevocationStatus_Good
            | Some e \<Rightarrow> RevocationStatus_Revoked (re_revocation_date e) (re_reason e)))"

definition response_for :: "Certificate \<Rightarrow> VerifiedOcspResponse \<Rightarrow> SingleResponse option" where
  "response_for c verified = find (\<lambda>r. cid_serial (sr_cert_id r) = crt_serial_der c) (single_responses verified)"

definition check_against_ocsp_response :: "Certificate \<Rightarrow> VerifiedOcspResponse \<Rightarrow> DateTime \<Rightarrow> RevocationStatus" where
  "check_against_ocsp_response c verified now =
     (case response_for c verified of
        None \<Rightarrow> RevocationStatus_Inapplicable InapplicableReason_OcspNoEntryForSerial
      | Some single \<Rightarrow>
          if past now (sr_next_update single) then RevocationStatus_Stale
          else
            (case sr_status single of
               CertStatus_Good \<Rightarrow> RevocationStatus_Good
             | CertStatus_Revoked revoked_at reason \<Rightarrow> RevocationStatus_Revoked revoked_at reason
             | CertStatus_Unknown \<Rightarrow> RevocationStatus_Unknown))"

datatype RevocationSource = RevocationSource_Ocsp | RevocationSource_Crl

record RevocationEvidence =
  ev_status :: RevocationStatus
  ev_source :: RevocationSource
  ev_checked_at :: DateTime
  ev_valid_until :: "DateTime option"

definition RevocationEvidence_from_ocsp :: "Certificate \<Rightarrow> VerifiedOcspResponse \<Rightarrow> DateTime \<Rightarrow> RevocationEvidence" where
  "RevocationEvidence_from_ocsp c verified now =
     \<lparr>ev_status = check_against_ocsp_response c verified now, ev_source = RevocationSource_Ocsp, ev_checked_at = now,
      ev_valid_until = (case response_for c verified of None \<Rightarrow> None | Some r \<Rightarrow> sr_next_update r)\<rparr>"

definition RevocationEvidence_from_crl ::
  "der \<Rightarrow> (bytes \<Rightarrow> revoked_cert option) \<Rightarrow> Certificate \<Rightarrow> VerifiedCrl \<Rightarrow> DateTime \<Rightarrow> RevocationEvidence" where
  "RevocationEvidence_from_crl d revoked c verified now =
     \<lparr>ev_status = check_against_crl d revoked c verified now, ev_source = RevocationSource_Crl, ev_checked_at = now,
      ev_valid_until = crl_next_update (as_crl verified)\<rparr>"

definition is_fresh :: "RevocationEvidence \<Rightarrow> DateTime \<Rightarrow> bool" where
  "is_fresh ev now = (case ev_valid_until ev of None \<Rightarrow> False | Some valid_until \<Rightarrow> now \<le> valid_until)"

record 'n CachedCertId =
  ci_issuer :: 'n
  ci_serial :: bytes

record 'n CacheEntry =
  ce_id :: "'n CachedCertId"
  ce_evidence :: RevocationEvidence

definition for_cert :: "(bytes \<Rightarrow> 'n option) \<Rightarrow> Certificate \<Rightarrow> 'n CachedCertId option" where
  "for_cert name c = map_option (\<lambda>n. \<lparr>ci_issuer = n, ci_serial = crt_serial_der c\<rparr>) (name (crt_issuer c))"

fun cache_put :: "'n CachedCertId \<Rightarrow> RevocationEvidence \<Rightarrow> 'n CacheEntry list \<Rightarrow> 'n CacheEntry list" where
  "cache_put i ev [] = [\<lparr>ce_id = i, ce_evidence = ev\<rparr>]"
| "cache_put i ev (e # es) = (if ce_id e = i then e\<lparr>ce_evidence := ev\<rparr> # es else e # cache_put i ev es)"

definition RevocationCache_insert ::
  "(bytes \<Rightarrow> 'n option) \<Rightarrow> Certificate \<Rightarrow> RevocationEvidence \<Rightarrow> 'n CacheEntry list \<Rightarrow> 'n CacheEntry list" where
  "RevocationCache_insert name c ev cache = (case for_cert name c of None \<Rightarrow> cache | Some i \<Rightarrow> cache_put i ev cache)"

definition is_revoked :: "RevocationStatus \<Rightarrow> bool" where
  "is_revoked s = (case s of RevocationStatus_Revoked _ _ \<Rightarrow> True | _ \<Rightarrow> False)"

definition RevocationCache_get :: "(bytes \<Rightarrow> 'n option) \<Rightarrow> Certificate \<Rightarrow> DateTime \<Rightarrow> 'n CacheEntry list \<Rightarrow> RevocationEvidence option" where
  "RevocationCache_get name c now cache =
     (case for_cert name c of
        None \<Rightarrow> None
      | Some i \<Rightarrow>
          (case find (\<lambda>e. ce_id e = i) cache of
             None \<Rightarrow> None
           | Some e \<Rightarrow>
               if is_revoked (ev_status (ce_evidence e)) \<or> is_fresh (ce_evidence e) now then Some (ce_evidence e) else None))"


subsection \<open>One authenticated answer for a link\<close>

definition MAX_CLOCK_SKEW :: nat where "MAX_CLOCK_SKEW = 5 * 60"
definition MAX_OCSP_AGE_WITHOUT_NEXT_UPDATE :: nat where "MAX_OCSP_AGE_WITHOUT_NEXT_UPDATE = 168 * 60 * 60"
definition MAX_FETCH_BYTES :: nat where "MAX_FETCH_BYTES = 64 * 1024"
definition MAX_CRL_BYTES :: nat where "MAX_CRL_BYTES = 1024 * 1024"

record ('u, 'w) status_env =
  se_der :: der
  se_uri :: "bytes \<Rightarrow> 'u option"
  se_revoked :: "bytes \<Rightarrow> revoked_cert option"
  se_verify :: "TbsSignature \<Rightarrow> bool"
  se_sha1 :: "bytes \<Rightarrow> bytes"
  se_random :: "'w \<Rightarrow> bytes option \<times> 'w"
  se_post :: "'u \<Rightarrow> bytes \<Rightarrow> nat \<Rightarrow> 'w \<Rightarrow> bytes option \<times> 'w"
  se_get :: "'u \<Rightarrow> nat \<Rightarrow> 'w \<Rightarrow> bytes option \<times> 'w"
  se_pem :: "bytes \<Rightarrow> bytes option"

definition check_crl_times :: "DateTime \<Rightarrow> DateTime option \<Rightarrow> DateTime \<Rightarrow> bool" where
  "check_crl_times this_update next_update t =
     (if this_update > t + MAX_CLOCK_SKEW then False
      else
        (case next_update of
           None \<Rightarrow> False
         | Some next_update \<Rightarrow> if next_update \<le> this_update then False else \<not> t > next_update + MAX_CLOCK_SKEW))"

definition check_ocsp_times :: "DateTime \<Rightarrow> DateTime \<Rightarrow> DateTime option \<Rightarrow> DateTime \<Rightarrow> MaterialError + unit" where
  "check_ocsp_times produced_at this_update next_update now =
     (if produced_at > now + MAX_CLOCK_SKEW then Inl MaterialError_Revocation
      else if this_update > now + MAX_CLOCK_SKEW then Inl MaterialError_Revocation
      else if this_update > produced_at + MAX_CLOCK_SKEW then Inl MaterialError_Revocation
      else
        (case next_update of
           Some next_update \<Rightarrow>
             if next_update \<le> this_update then Inl MaterialError_Revocation
             else if now > next_update + MAX_CLOCK_SKEW then Inl MaterialError_Revocation
             else Inr ()
         | None \<Rightarrow>
             if now > this_update + MAX_OCSP_AGE_WITHOUT_NEXT_UPDATE + MAX_CLOCK_SKEW then Inl MaterialError_Revocation else Inr ()))"

text \<open>The key that verifies the response: the issuer's, or that of the first embedded certificate that does.\<close>

definition response_signer :: "('u, 'w) status_env \<Rightarrow> BasicOcspResponse \<Rightarrow> Certificate \<Rightarrow> VerifiedOcspResponse option" where
  "response_signer se basic issuer =
     (case VerifiedOcspResponse_verify (se_verify se) basic (crt_spki issuer) of
        Some verified \<Rightarrow> Some verified
      | None \<Rightarrow>
          find_map (\<lambda>embedded.
            case Certificate_from_der (se_der se) embedded of
              Inl _ \<Rightarrow> None
            | Inr responder \<Rightarrow> VerifiedOcspResponse_verify (se_verify se) basic (crt_spki responder)) (bo_embedded_cert_ders basic))"

definition check_nonce :: "NoncePolicy \<Rightarrow> bytes option \<Rightarrow> bytes \<Rightarrow> MaterialError + unit" where
  "check_nonce policy echoed nonce =
     (case echoed of
        Some echoed \<Rightarrow> if echoed = nonce then Inr () else Inl MaterialError_Revocation
      | None \<Rightarrow> if policy = NoncePolicy_RequireEcho then Inl MaterialError_Revocation else Inr ())"

definition check_response ::
  "('u, 'w) status_env \<Rightarrow> NoncePolicy \<Rightarrow> bytes \<Rightarrow> Certificate \<Rightarrow> Certificate \<Rightarrow> bytes \<Rightarrow> bytes \<Rightarrow> bytes \<Rightarrow> DateTime \<Rightarrow> MaterialError + unit" where
  "check_response se policy der_bytes subject issuer name_hash key_hash nonce now =
     bindR (map_err (\<lambda>_. MaterialError_Revocation) (OcspResponse_parse (se_der se) der_bytes)) (\<lambda>response.
       if or_status response \<noteq> OcspResponseStatus_Successful then Inl MaterialError_Revocation
       else
         bindR (ok_or MaterialError_Revocation (or_basic response)) (\<lambda>basic.
         bindR (ok_or MaterialError_Revocation (response_signer se basic issuer)) (\<lambda>verified.
         bindR (check_nonce policy (bo_nonce basic) nonce) (\<lambda>_.
         bindR (ok_or MaterialError_Revocation
                  (find (\<lambda>e. matches_request (sr_cert_id e) name_hash key_hash (crt_serial_der subject)) (single_responses verified))) (\<lambda>answer.
         bindR (check_ocsp_times (bo_produced_at basic) (sr_this_update answer) (sr_next_update answer) now) (\<lambda>_.
           case sr_status answer of
             CertStatus_Good \<Rightarrow> Inr ()
           | CertStatus_Revoked _ _ \<Rightarrow> Inl MaterialError_Revoked
           | CertStatus_Unknown \<Rightarrow> Inl MaterialError_Revocation))))))"

text \<open>
  The loop over the services: a failure is passed over, a revoked verdict ends it. The flag says that the random source
  failed. A serial number of four gigabytes, on which the encoder panics, fails.
\<close>

fun ocsp_answers ::
  "('u, 'w) status_env \<Rightarrow> NoncePolicy \<Rightarrow> Certificate \<Rightarrow> Certificate \<Rightarrow> DateTime \<Rightarrow> 'u list \<Rightarrow> 'w \<Rightarrow>
     (MaterialError + (bytes option \<times> bool)) \<times> 'w" where
  "ocsp_answers se policy subject issuer t [] w = (Inr (None, False), w)"
| "ocsp_answers se policy subject issuer t (url # urls) w =
     (case se_random se w of
        (None, w) \<Rightarrow> (Inr (None, True), w)
      | (Some nonce, w) \<Rightarrow>
          let key_hash = se_sha1 se (subject_public_key (crt_spki issuer)); name_hash = se_sha1 se (crt_issuer subject)
          in (case build_request_with_nonce name_hash key_hash (crt_serial_der subject) nonce of
                None \<Rightarrow> (Inl MaterialError_Revocation, w)
              | Some request \<Rightarrow>
                  (case se_post se url request MAX_FETCH_BYTES w of
                     (None, w) \<Rightarrow> ocsp_answers se policy subject issuer t urls w
                   | (Some response, w) \<Rightarrow>
                       (case check_response se policy response subject issuer name_hash key_hash nonce t of
                          Inr _ \<Rightarrow> (Inr (Some response, False), w)
                        | Inl e \<Rightarrow>
                            if e = MaterialError_Revoked then (Inl e, w)
                            else ocsp_answers se policy subject issuer t urls w))))"

definition collect_ocsp_status where
  "collect_ocsp_status se policy subject issuer t extensions =
     ocsp_answers se policy subject issuer t (bounded_certificate_addresses (extract_ocsp_urls (se_der se) (se_uri se) extensions))"

text \<open>What one fetched list amounts to: \<open>None\<close> when it is of no use.\<close>

definition judge_crl :: "('u, 'w) status_env \<Rightarrow> Certificate \<Rightarrow> Certificate \<Rightarrow> DateTime \<Rightarrow> bytes \<Rightarrow> RevocationStatus option" where
  "judge_crl se subject issuer t der_bytes =
     (case Crl_parse (se_der se) der_bytes of
        Inl _ \<Rightarrow> None
      | Inr view \<Rightarrow>
          if \<not> check_crl_times (crl_this_update view) (crl_next_update view) t then None
          else
            (case VerifiedCrl_verify (se_verify se) view (crt_spki issuer) of
               None \<Rightarrow> None
             | Some verified \<Rightarrow> Some (check_against_crl (se_der se) (se_revoked se) subject verified t)))"

fun crl_answers ::
  "('u, 'w) status_env \<Rightarrow> Certificate \<Rightarrow> Certificate \<Rightarrow> DateTime \<Rightarrow> 'u list \<Rightarrow> 'w \<Rightarrow> (MaterialError + bytes option) \<times> 'w" where
  "crl_answers se subject issuer t [] w = (Inr None, w)"
| "crl_answers se subject issuer t (url # urls) w =
     (if \<not> (case crt_extensions issuer of
               None \<Rightarrow> False
             | Some e \<Rightarrow> (case extract_key_usage (se_der se) e of None \<Rightarrow> False | Some usage \<Rightarrow> crl_sign usage))
      then (Inr None, w)
      else
        (case se_get se url MAX_CRL_BYTES w of
           (None, w) \<Rightarrow> crl_answers se subject issuer t urls w
         | (Some der_bytes, w) \<Rightarrow>
             (case judge_crl se subject issuer t der_bytes of
                None \<Rightarrow> crl_answers se subject issuer t urls w
              | Some verdict \<Rightarrow>
                  (case verdict of
                     RevocationStatus_Good \<Rightarrow> (Inr (Some der_bytes), w)
                   | RevocationStatus_Revoked _ _ \<Rightarrow> (Inl MaterialError_Revoked, w)
                   | _ \<Rightarrow> crl_answers se subject issuer t urls w))))"

definition collect_crl_status where
  "collect_crl_status se subject issuer t extensions =
     crl_answers se subject issuer t
       (bounded_certificate_addresses (extract_crl_distribution_urls (se_der se) (se_uri se) extensions))"

definition collect_status ::
  "('u, 'w) status_env \<Rightarrow> NoncePolicy \<Rightarrow> Certificate \<Rightarrow> Certificate \<Rightarrow> DateTime \<Rightarrow> 'w \<Rightarrow> (MaterialError + StatusEvidence) \<times> 'w" where
  "collect_status se policy subject issuer evidence_time w =
     (case crt_extensions subject of
        None \<Rightarrow> (Inl MaterialError_Revocation, w)
      | Some extensions \<Rightarrow>
          (case collect_ocsp_status se policy subject issuer evidence_time extensions w of
             (Inl e, w) \<Rightarrow> (Inl e, w)
           | (Inr (Some response, _), w) \<Rightarrow> (Inr (StatusEvidence_Ocsp response), w)
           | (Inr (None, random_failure), w) \<Rightarrow>
               (case collect_crl_status se subject issuer evidence_time extensions w of
                  (Inl e, w) \<Rightarrow> (Inl e, w)
                | (Inr (Some der_bytes), w) \<Rightarrow> (Inr (StatusEvidence_Crl der_bytes), w)
                | (Inr None, w) \<Rightarrow> (Inl (if random_failure then MaterialError_Rng else MaterialError_Revocation), w))))"

section \<open>An accepted answer\<close>

definition answered_good :: "BasicOcspResponse \<Rightarrow> bytes \<Rightarrow> bytes \<Rightarrow> bytes \<Rightarrow> DateTime \<Rightarrow> bool" where
  "answered_good basic name_hash key_hash serial now \<longleftrightarrow>
     (\<exists>e \<in> set (bo_responses basic). matches_request (sr_cert_id e) name_hash key_hash serial \<and> sr_status e = CertStatus_Good \<and>
        sr_this_update e \<le> now + MAX_CLOCK_SKEW \<and> bo_produced_at basic \<le> now + MAX_CLOCK_SKEW \<and>
        now \<le> (case sr_next_update e of None \<Rightarrow> sr_this_update e + MAX_OCSP_AGE_WITHOUT_NEXT_UPDATE | Some next \<Rightarrow> next) + MAX_CLOCK_SKEW)"

text \<open>Who vouches for a response: the issuer, or the key of a certificate the response itself carries.\<close>

definition vouched :: "('u, 'w) status_env \<Rightarrow> BasicOcspResponse \<Rightarrow> Certificate \<Rightarrow> bool" where
  "vouched se basic issuer \<longleftrightarrow>
     Ocsp_verify_signature (se_verify se) basic (spki_der (crt_spki issuer)) \<or>
     (\<exists>embedded responder. embedded \<in> set (bo_embedded_cert_ders basic) \<and> Certificate_from_der (se_der se) embedded = Inr responder \<and>
        Ocsp_verify_signature (se_verify se) basic (spki_der (crt_spki responder)))"

definition nonce_ok :: "NoncePolicy \<Rightarrow> bytes option \<Rightarrow> bytes \<Rightarrow> bool" where
  "nonce_ok policy echoed nonce \<longleftrightarrow> echoed = Some nonce \<or> echoed = None \<and> policy = NoncePolicy_AllowMissingEcho"

lemma response_signer_Some: "response_signer se basic issuer = Some v \<Longrightarrow> v = VerifiedOcspResponse basic \<and> vouched se basic issuer"
  by (auto simp: response_signer_def VerifiedOcspResponse_verify_def vouched_def split: option.splits if_splits sum.splits
      dest!: find_map_Some)

lemma vouched_signer: "vouched se basic issuer \<Longrightarrow> response_signer se basic issuer = Some (VerifiedOcspResponse basic)"
proof (cases "response_signer se basic issuer")
  case None
  assume "vouched se basic issuer"
  with None show ?thesis
    by (auto simp: response_signer_def VerifiedOcspResponse_verify_def vouched_def split: option.splits if_splits)
qed (auto dest: response_signer_Some)

lemma check_nonce_Inr: "check_nonce policy echoed nonce = Inr u \<longleftrightarrow> nonce_ok policy echoed nonce"
  by (cases policy) (auto simp: check_nonce_def nonce_ok_def split: option.splits if_splits)

lemma check_ocsp_times_Inr:
  assumes "check_ocsp_times produced this_update next_update now = Inr u"
  shows "produced \<le> now + MAX_CLOCK_SKEW \<and> this_update \<le> now + MAX_CLOCK_SKEW \<and>
    now \<le> (case next_update of None \<Rightarrow> this_update + MAX_OCSP_AGE_WITHOUT_NEXT_UPDATE | Some next \<Rightarrow> next) + MAX_CLOCK_SKEW"
  using assms by (auto simp: check_ocsp_times_def split: if_splits option.splits)

lemma good_status_Inr [simp]:
  "(case s of CertStatus_Good \<Rightarrow> Inr () | CertStatus_Revoked _ _ \<Rightarrow> Inl a | CertStatus_Unknown \<Rightarrow> Inl b) = Inr u \<longleftrightarrow> s = CertStatus_Good"
  by (cases s) auto

lemma check_response_sound:
  assumes "check_response se policy der_bytes subject issuer name_hash key_hash nonce now = Inr ()"
  shows "\<exists>basic. OcspResponse_parse (se_der se) der_bytes = Inr \<lparr>or_status = OcspResponseStatus_Successful, or_basic = Some basic\<rparr> \<and>
    vouched se basic issuer \<and> nonce_ok policy (bo_nonce basic) nonce \<and>
    answered_good basic name_hash key_hash (crt_serial_der subject) now"
proof -
  from assms obtain response basic v e where r: "OcspResponse_parse (se_der se) der_bytes = Inr response"
      "or_status response = OcspResponseStatus_Successful" "or_basic response = Some basic" "response_signer se basic issuer = Some v"
      "check_nonce policy (bo_nonce basic) nonce = Inr ()"
      "find (\<lambda>e. matches_request (sr_cert_id e) name_hash key_hash (crt_serial_der subject)) (single_responses v) = Some e"
      "check_ocsp_times (bo_produced_at basic) (sr_this_update e) (sr_next_update e) now = Inr ()" "sr_status e = CertStatus_Good"
    by (auto simp: check_response_def bindR_eq_Inr ok_or_eq_Inr split: if_splits)
  from r(4) have v: "v = VerifiedOcspResponse basic" "vouched se basic issuer" by (auto dest: response_signer_Some)
  from r(6) v(1) have e: "e \<in> set (bo_responses basic)" "matches_request (sr_cert_id e) name_hash key_hash (crt_serial_der subject)"
    by (auto simp: find_Some_iff)
  then have "answered_good basic name_hash key_hash (crt_serial_der subject) now"
    using check_ocsp_times_Inr [OF r(7)] r(8) by (auto simp: answered_good_def)
  then show ?thesis using r v by (intro exI [of _ basic]) (auto simp: check_nonce_Inr)
qed


lemma ocsp_answers_sound:
  "ocsp_answers se policy subject issuer t urls w = (Inr (Some response, failed), w') \<Longrightarrow>
    \<exists>nonce w1 w2. se_random se w1 = (Some nonce, w2) \<and> check_response se policy response subject issuer
      (se_sha1 se (crt_issuer subject)) (se_sha1 se (subject_public_key (crt_spki issuer))) nonce t = Inr ()"
  by (induction se policy subject issuer t urls w rule: ocsp_answers.induct)
    (auto simp: Let_def split: prod.splits option.splits sum.splits if_splits)

lemma crl_answers_sound:
  "crl_answers se subject issuer t urls w = (Inr (Some der_bytes), w') \<Longrightarrow> judge_crl se subject issuer t der_bytes = Some RevocationStatus_Good"
  by (induction se subject issuer t urls w rule: crl_answers.induct)
    (auto split: prod.splits option.splits if_splits RevocationStatus.splits)

text \<open>
  What evidence says: a response that is vouched for, tied to this request by its nonce or excused from it, and good about
  this certificate of this issuer within its time; or a list of the issuer, signed by it and still current, without the
  certificate among its entries.
\<close>

definition authentic :: "('u, 'w) status_env \<Rightarrow> NoncePolicy \<Rightarrow> Certificate \<Rightarrow> Certificate \<Rightarrow> DateTime \<Rightarrow> StatusEvidence \<Rightarrow> bool" where
  "authentic se policy subject issuer t ev =
     (case ev of
        StatusEvidence_Ocsp der_bytes \<Rightarrow>
          \<exists>basic nonce w w'. se_random se w = (Some nonce, w') \<and> OcspResponse_parse (se_der se) der_bytes = Inr \<lparr>or_status = OcspResponseStatus_Successful, or_basic = Some basic\<rparr> \<and>
            vouched se basic issuer \<and> nonce_ok policy (bo_nonce basic) nonce \<and>
            answered_good basic (se_sha1 se (crt_issuer subject)) (se_sha1 se (subject_public_key (crt_spki issuer))) (crt_serial_der subject) t
      | StatusEvidence_Crl der_bytes \<Rightarrow>
          \<exists>crl next. Crl_parse (se_der se) der_bytes = Inr crl \<and> Crl_verify_signature (se_verify se) crl (spki_der (crt_spki issuer)) \<and>
            crl_issuer crl = crt_issuer subject \<and> crl_next_update crl = Some next \<and> t \<le> next \<and> crl_this_update crl \<le> t + MAX_CLOCK_SKEW \<and>
            find_serial (se_der se) (se_revoked se) crl (crt_serial_der subject) = None)"

lemma judge_crl_good:
  assumes "judge_crl se subject issuer t der_bytes = Some RevocationStatus_Good"
  shows "authentic se policy subject issuer t (StatusEvidence_Crl der_bytes)"
proof -
  from assms obtain crl where crl: "Crl_parse (se_der se) der_bytes = Inr crl" "check_crl_times (crl_this_update crl) (crl_next_update crl) t"
      "Crl_verify_signature (se_verify se) crl (spki_der (crt_spki issuer))"
      "check_against_crl (se_der se) (se_revoked se) subject (VerifiedCrl crl) t = RevocationStatus_Good"
    by (auto simp: judge_crl_def VerifiedCrl_verify_def split: sum.splits option.splits if_splits)
  then obtain nu where "crl_next_update crl = Some nu" by (auto simp: check_crl_times_def split: if_splits option.splits)
  then show ?thesis using crl
    by (auto simp: authentic_def check_crl_times_def check_against_crl_def past_def split: if_splits option.splits)
qed

lemma evidence_authentic:
  assumes "collect_status se policy subject issuer t w = (Inr ev, w')"
  shows "authentic se policy subject issuer t ev"
proof (cases ev)
  case (StatusEvidence_Ocsp der_bytes)
  with assms obtain extensions failed where
    "collect_ocsp_status se policy subject issuer t extensions w = (Inr (Some der_bytes, failed), w')"
    by (auto simp: collect_status_def split: option.splits prod.splits sum.splits)
  then obtain nonce w1 w2 where drawn: "se_random se w1 = (Some nonce, w2)"
      "check_response se policy der_bytes subject issuer (se_sha1 se (crt_issuer subject))
        (se_sha1 se (subject_public_key (crt_spki issuer))) nonce t = Inr ()"
    unfolding collect_ocsp_status_def by (blast dest: ocsp_answers_sound)
  from check_response_sound [OF this(2)] drawn(1) StatusEvidence_Ocsp show ?thesis by (simp add: authentic_def) blast
next
  case (StatusEvidence_Crl der_bytes)
  with assms obtain extensions w1 where "collect_crl_status se subject issuer t extensions w1 = (Inr (Some der_bytes), w')"
    by (auto simp: collect_status_def split: option.splits prod.splits sum.splits)
  then have "judge_crl se subject issuer t der_bytes = Some RevocationStatus_Good"
    unfolding collect_crl_status_def by (rule crl_answers_sound)
  then show ?thesis unfolding StatusEvidence_Crl by (rule judge_crl_good)
qed

text \<open>
  A revoked verdict is final: the first service that proves the certificate revoked ends the collection, and nothing more is
  asked of the network.
\<close>

theorem revoked_verdict_is_final:
  assumes "crt_extensions subject = Some extensions"
    and "bounded_certificate_addresses (extract_ocsp_urls (se_der se) (se_uri se) extensions) = url # urls"
    and "se_random se w = (Some nonce, w1)"
    and "build_request_with_nonce (se_sha1 se (crt_issuer subject)) (se_sha1 se (subject_public_key (crt_spki issuer)))
           (crt_serial_der subject) nonce = Some request"
    and "se_post se url request MAX_FETCH_BYTES w1 = (Some response, w2)"
    and "check_response se policy response subject issuer (se_sha1 se (crt_issuer subject))
           (se_sha1 se (subject_public_key (crt_spki issuer))) nonce t = Inl MaterialError_Revoked"
  shows "collect_status se policy subject issuer t w = (Inl MaterialError_Revoked, w2)"
  using assms by (simp add: collect_status_def collect_ocsp_status_def Let_def)


section \<open>What a request asks is what an answer names\<close>













section \<open>Who is believed, and how much of a list is read\<close>

lemma check_response_complete:
  assumes "OcspResponse_parse (se_der se) der_bytes = Inr \<lparr>or_status = OcspResponseStatus_Successful, or_basic = Some basic\<rparr>"
    and "vouched se basic issuer" "nonce_ok policy (bo_nonce basic) nonce"
    and "find (\<lambda>e. matches_request (sr_cert_id e) name_hash key_hash (crt_serial_der subject)) (bo_responses basic) = Some answer"
    and "check_ocsp_times (bo_produced_at basic) (sr_this_update answer) (sr_next_update answer) now = Inr ()"
  shows "check_response se policy der_bytes subject issuer name_hash key_hash nonce now =
    (case sr_status answer of
       CertStatus_Good \<Rightarrow> Inr () | CertStatus_Revoked _ _ \<Rightarrow> Inl MaterialError_Revoked | CertStatus_Unknown \<Rightarrow> Inl MaterialError_Revocation)"
proof -
  have "check_nonce policy (bo_nonce basic) nonce = Inr ()" using assms(3) by (simp add: check_nonce_Inr)
  with assms show ?thesis by (simp add: check_response_def vouched_signer)
qed

text \<open>
  (C36) Any certificate the response carries may vouch for it. The answer is accepted although the issuer signed neither it nor the
  certificate whose key did, and whatever the extended key usage of that certificate says: only the signature of the response
  under the key in the response is verified.
\<close>

theorem undelegated_responder_believed:
  assumes "OcspResponse_parse (se_der se) der_bytes = Inr \<lparr>or_status = OcspResponseStatus_Successful, or_basic = Some basic\<rparr>"
    and "embedded \<in> set (bo_embedded_cert_ders basic)" "Certificate_from_der (se_der se) embedded = Inr responder"
    and "Ocsp_verify_signature (se_verify se) basic (spki_der (crt_spki responder))"
    and "bo_nonce basic = Some nonce"
    and "find (\<lambda>e. matches_request (sr_cert_id e) name_hash key_hash (crt_serial_der subject)) (bo_responses basic) = Some answer"
    and "check_ocsp_times (bo_produced_at basic) (sr_this_update answer) (sr_next_update answer) now = Inr ()"
    and "sr_status answer = CertStatus_Good"
    and "\<not> Ocsp_verify_signature (se_verify se) basic (spki_der (crt_spki issuer))"
    and "\<not> verify_signed_by (se_verify se) responder issuer" "crt_issuer responder \<noteq> crt_subject issuer"
  shows "check_response se policy der_bytes subject issuer name_hash key_hash nonce now = Inr ()"
proof -
  have "vouched se basic issuer" using assms(2,3,4) by (auto simp: vouched_def)
  moreover have "nonce_ok policy (bo_nonce basic) nonce" using assms(5) by (simp add: nonce_ok_def)
  ultimately show ?thesis using check_response_complete [OF assms(1)] assms(6,7,8) by simp
qed

lemma revoked_entries_stop: "revoked bad = None \<Longrightarrow> revoked_entries d revoked (pre @ bad # post) = revoked_entries d revoked pre"
  by (induction pre) (auto split: option.splits)

text \<open>
  (C34) The first entry of a list that does not decode hides all later ones: a certificate that is not among the entries before it
  counts as good, even when the list names it further on.
\<close>

theorem corrupt_entry_hides_the_rest:
  assumes "crl_revoked_seq_value crl = Some body" "der_slice d body = Some (pre @ bad # post, ok)" "revoked bad = None"
    and "\<forall>t \<in> set pre. \<forall>rc. revoked t = Some rc \<longrightarrow> rc_serial_number rc \<noteq> crt_serial_der c"
    and "crl_issuer crl = crt_issuer c" "\<not> past now (crl_next_update crl)"
  shows "check_against_crl d revoked c (VerifiedCrl crl) now = RevocationStatus_Good"
proof -
  have "\<forall>e \<in> set (revoked_entries d revoked pre). re_serial e \<noteq> crt_serial_der c"
    using assms(4) by (induction pre) (auto split: option.splits)
  then have "find_serial d revoked crl (crt_serial_der c) = None"
    using assms(1,2) revoked_entries_stop [of revoked bad, OF assms(3)] by (simp add: find_serial_def entries_def find_None_iff)
  then show ?thesis using assms(5,6) by (simp add: check_against_crl_def)
qed

text \<open>
  The cache answers for a certificate with the evidence last stored under its issuer and serial number, a revocation at any
  age and anything else only while fresh; other certificates are not affected.
\<close>

lemma find_cache_put:
  "find (\<lambda>e. ce_id e = j) (cache_put i ev cache) =
    (if j = i then map_option (\<lambda>e. e\<lparr>ce_evidence := ev\<rparr>) (find (\<lambda>e. ce_id e = i) (cache @ [\<lparr>ce_id = i, ce_evidence = ev\<rparr>]))
     else find (\<lambda>e. ce_id e = j) cache)"
  by (induction cache) auto

lemma find_snoc_evidence:
  "\<exists>e. find (\<lambda>e. ce_id e = i) (cache @ [\<lparr>ce_id = i, ce_evidence = ev\<rparr>]) = Some e"
  by (induction cache) auto

theorem cache_returns_last_verdict:
  "RevocationCache_get name c now (RevocationCache_insert name c' ev cache) =
     (if for_cert name c \<noteq> None \<and> for_cert name c = for_cert name c'
      then (if is_revoked (ev_status ev) \<or> is_fresh ev now then Some ev else None)
      else RevocationCache_get name c now cache)"
  using find_snoc_evidence [of "the (for_cert name c)" cache ev]
  by (auto simp: RevocationCache_get_def RevocationCache_insert_def find_cache_put split: option.splits)


section \<open>Witnesses\<close>

text \<open>
  A reader of real encodings: TLVs are split as \<open>Ber\<close> splits them, a time is its last byte, every certificate is valid from
  0 to 100.
\<close>

definition example_tag :: "u16 \<Rightarrow> der_tag" where
  "example_tag t =
     (if t = 2 then Tag_Integer else if t = 3 then Tag_BitString else if t = 4 then Tag_OctetString
      else if t = 6 then Tag_ObjectIdentifier else if t = 10 then Tag_Enumerated else if t = 0x30 then Tag_Sequence
      else if t = 0xA0 then Tag_ContextSpecific True 0 else if t = 0xA3 then Tag_ContextSpecific True 3
      else if t = 0x86 then Tag_ContextSpecific False 6 else Tag_Other (unat t))"

fun cut_items :: "bytes \<Rightarrow> (BerError + BerTlvAny) list \<Rightarrow> der_reader" where
  "cut_items bs [] = ([], True)"
| "cut_items bs (Inl _ # items) = ([], False)"
| "cut_items bs (Inr t # items) = (let r = cut_items (drop (tlv_size t) bs) items in (take (tlv_size t) bs # fst r, snd r))"

definition example_time :: "bytes \<Rightarrow> DateTime option" where
  "example_time bs = (if bs = [] then None else Some (unat (last bs)))"

definition ber_der :: der where
  "ber_der =
     \<lparr>der_any = (\<lambda>bs. case BerTlvAny_parse bs of
        Inl _ \<Rightarrow> None | Inr t \<Rightarrow> if tlv_size t = length bs then Some (example_tag (tlv_tag t), tlv_value t) else None),
      der_slice = (\<lambda>bs. Some (cut_items bs (ber_items bs))), der_time = example_time, der_generalized_time = example_time,
      der_validity = (\<lambda>_. Some (0, 100)), der_spki = (\<lambda>bs. Some \<lparr>spki_der = bs, subject_public_key = bs\<rparr>)\<rparr>"




text \<open>
  A leaf that names a responder, the anchor that issued it, a certificate of neither, and three answers about the leaf: good
  and revoked by the anchor, and good under the key of the third certificate, which the answer carries.
\<close>

definition example_leaf :: bytes where
  "example_leaf =
     [48, 64, 48, 53, 2, 1, 5, 48, 0, 48, 2, 5, 0, 48, 0, 48, 2, 4, 0, 48, 1, 10, 163, 33, 48, 31, 48, 29,
      6, 8, 43, 6, 1, 5, 5, 7, 1, 1, 4, 17, 48, 15, 48, 13, 6, 8, 43, 6, 1, 5, 5, 7, 48, 1, 134, 1,
      117, 48, 3, 6, 1, 42, 3, 2, 0, 1]"

definition example_anchor :: bytes where
  "example_anchor =
     [48, 29, 48, 18, 2, 1, 1, 48, 0, 48, 2, 5, 0, 48, 0, 48, 2, 5, 0, 48, 1, 11, 48, 3, 6, 1, 42, 3,
      2, 0, 1]"

definition example_rogue :: bytes where
  "example_rogue =
     [48, 29, 48, 18, 2, 1, 9, 48, 0, 48, 2, 6, 0, 48, 0, 48, 2, 6, 0, 48, 1, 12, 48, 3, 6, 1, 42, 3,
      2, 0, 1]"

definition example_good_answer :: bytes where
  "example_good_answer =
     [48, 89, 10, 1, 0, 160, 84, 48, 82, 6, 9, 43, 6, 1, 5, 5, 7, 48, 1, 1, 4, 69, 48, 67, 48, 56, 24, 1,
      5, 48, 29, 48, 27, 48, 20, 48, 9, 6, 5, 43, 14, 3, 2, 26, 5, 0, 4, 1, 7, 4, 1, 7, 2, 1, 5, 128,
      0, 24, 1, 5, 161, 20, 48, 18, 48, 16, 6, 9, 43, 6, 1, 5, 5, 7, 48, 1, 2, 4, 3, 4, 1, 1, 48, 3,
      6, 1, 42, 3, 2, 0, 1]"

definition example_revoked_answer :: bytes where
  "example_revoked_answer =
     [48, 92, 10, 1, 0, 160, 87, 48, 85, 6, 9, 43, 6, 1, 5, 5, 7, 48, 1, 1, 4, 72, 48, 70, 48, 59, 24, 1,
      5, 48, 32, 48, 30, 48, 20, 48, 9, 6, 5, 43, 14, 3, 2, 26, 5, 0, 4, 1, 7, 4, 1, 7, 2, 1, 5, 161,
      3, 24, 1, 4, 24, 1, 5, 161, 20, 48, 18, 48, 16, 6, 9, 43, 6, 1, 5, 5, 7, 48, 1, 2, 4, 3, 4, 1,
      1, 48, 3, 6, 1, 42, 3, 2, 0, 1]"

definition example_rogue_answer :: bytes where
  "example_rogue_answer =
     [48, 124, 10, 1, 0, 160, 119, 48, 117, 6, 9, 43, 6, 1, 5, 5, 7, 48, 1, 1, 4, 104, 48, 102, 48, 56, 24, 1,
      5, 48, 29, 48, 27, 48, 20, 48, 9, 6, 5, 43, 14, 3, 2, 26, 5, 0, 4, 1, 7, 4, 1, 7, 2, 1, 5, 128,
      0, 24, 1, 5, 161, 20, 48, 18, 48, 16, 6, 9, 43, 6, 1, 5, 5, 7, 48, 1, 2, 4, 3, 4, 1, 1, 48, 3,
      6, 1, 42, 3, 2, 0, 1, 160, 33, 48, 31, 48, 29, 48, 18, 2, 1, 9, 48, 0, 48, 2, 6, 0, 48, 0, 48, 2,
      6, 0, 48, 1, 12, 48, 3, 6, 1, 42, 3, 2, 0, 1]"


text \<open>A network on which one responder always gives this answer, and a scheme under which only one key signs.\<close>

definition example_net :: "u8 \<Rightarrow> bytes \<Rightarrow> (unit, unit) status_env" where
  "example_net key answer =
     \<lparr>se_der = ber_der, se_uri = (\<lambda>_. Some ()), se_revoked = (\<lambda>_. None), se_verify = (\<lambda>s. ts_issuer_spki_der s = [0x30, 1, key]),
      se_sha1 = (\<lambda>_. [7]), se_random = (\<lambda>w. (Some [1], w)), se_post = (\<lambda>_ _ _ w. (Some answer, w)), se_get = (\<lambda>_ _ w. (None, w)),
      se_pem = Some\<rparr>"

definition example_certificate_of :: "bytes \<Rightarrow> Certificate" where
  "example_certificate_of bs = projr (Certificate_from_der ber_der bs)"

lemma example_addresses:
  "crt_extensions (example_certificate_of example_leaf) = Some (the (crt_extensions (example_certificate_of example_leaf)))"
  "bounded_certificate_addresses (extract_ocsp_urls ber_der (\<lambda>_. Some ()) (the (crt_extensions (example_certificate_of example_leaf)))) = [()]"
  "\<exists>request. build_request_with_nonce [7] [7] (crt_serial_der (example_certificate_of example_leaf)) [1] = Some request"
  by (code_simp, code_simp, rule exI [of _ "the (build_request_with_nonce [7] [7] (crt_serial_der (example_certificate_of example_leaf)) [1])"], code_simp)

text \<open>What the answers say when they are read.\<close>

definition example_basic :: "bytes \<Rightarrow> BasicOcspResponse" where
  "example_basic answer = the (or_basic (projr (OcspResponse_parse ber_der answer)))"

lemma example_answers_read:
  "OcspResponse_parse ber_der example_revoked_answer =
     Inr \<lparr>or_status = OcspResponseStatus_Successful, or_basic = Some (example_basic example_revoked_answer)\<rparr>"
  "OcspResponse_parse ber_der example_rogue_answer =
     Inr \<lparr>or_status = OcspResponseStatus_Successful, or_basic = Some (example_basic example_rogue_answer)\<rparr>"
  by (code_simp, code_simp)

lemma example_answers_say:
  "map (\<lambda>e. (sr_cert_id e, sr_status e, sr_this_update e, sr_next_update e)) (bo_responses (example_basic example_revoked_answer)) =
     [(\<lparr>hash_algorithm_oid = OID_SHA1, issuer_name_hash = [7], issuer_key_hash = [7], cid_serial = [5]\<rparr>, CertStatus_Revoked 4 None, 5, None)]"
  "map (\<lambda>e. (sr_cert_id e, sr_status e, sr_this_update e, sr_next_update e)) (bo_responses (example_basic example_rogue_answer)) =
     [(\<lparr>hash_algorithm_oid = OID_SHA1, issuer_name_hash = [7], issuer_key_hash = [7], cid_serial = [5]\<rparr>, CertStatus_Good, 5, None)]"
  "bo_produced_at (example_basic example_revoked_answer) = 5" "bo_produced_at (example_basic example_rogue_answer) = 5"
  "bo_nonce (example_basic example_revoked_answer) = Some [1]" "bo_nonce (example_basic example_rogue_answer) = Some [1]"
  "bo_embedded_cert_ders (example_basic example_rogue_answer) = [example_rogue]"
  by (code_simp, code_simp, code_simp, code_simp, code_simp, code_simp, code_simp)

lemma example_certificates:
  "Certificate_from_der ber_der example_rogue = Inr (example_certificate_of example_rogue)"
  "crt_serial_der (example_certificate_of example_leaf) = [5]"
  "spki_der (crt_spki (example_certificate_of example_rogue)) = [48, 1, 12]"
  "spki_der (crt_spki (example_certificate_of example_anchor)) = [48, 1, 11]"
  "crt_issuer (example_certificate_of example_rogue) \<noteq> crt_subject (example_certificate_of example_anchor)"
  by (code_simp, code_simp, code_simp, code_simp, code_simp)

lemmas example_times = check_ocsp_times_def MAX_CLOCK_SKEW_def MAX_OCSP_AGE_WITHOUT_NEXT_UPDATE_def

lemma example_revoked:
  "check_response (example_net 11 example_revoked_answer) NoncePolicy_RequireEcho example_revoked_answer
     (example_certificate_of example_leaf) (example_certificate_of example_anchor) [7] [7] [1] 6 = Inl MaterialError_Revoked"
proof -
  obtain e where "bo_responses (example_basic example_revoked_answer) = [e]" "matches_request (sr_cert_id e) [7] [7] [5]"
      "sr_status e = CertStatus_Revoked 4 None" "sr_this_update e = 5" "sr_next_update e = None"
    using example_answers_say(1) by (auto simp: matches_request_def intro!: that)
  then show ?thesis
    using check_response_complete [where se = "example_net 11 example_revoked_answer" and answer = e, OF _ _ _ _ _] example_answers_read(1)
      example_answers_say(3,5) example_certificates(2,4)
    by (simp add: example_net_def vouched_def Ocsp_verify_signature_def nonce_ok_def example_times)
qed

theorem revoked_verdict_is_final_witness:
  "collect_status (example_net 11 example_revoked_answer) NoncePolicy_RequireEcho (example_certificate_of example_leaf)
     (example_certificate_of example_anchor) 6 () = (Inl MaterialError_Revoked, ())"
proof -
  obtain request where request: "build_request_with_nonce [7] [7] (crt_serial_der (example_certificate_of example_leaf)) [1] = Some request"
    using example_addresses(3) ..
  show ?thesis
    by (rule revoked_verdict_is_final [OF example_addresses(1), where url = "()" and urls = "[]" and request = request and nonce = "[1]"
          and ?w1.0 = "()" and response = example_revoked_answer])
      (use example_addresses(2) request example_revoked in \<open>simp_all add: example_net_def\<close>)
qed

theorem undelegated_responder_believed_witness:
  "check_response (example_net 12 example_rogue_answer) NoncePolicy_RequireEcho example_rogue_answer
     (example_certificate_of example_leaf) (example_certificate_of example_anchor) [7] [7] [1] 6 = Inr ()"
proof -
  obtain e where "bo_responses (example_basic example_rogue_answer) = [e]" "matches_request (sr_cert_id e) [7] [7] [5]"
      "sr_status e = CertStatus_Good" "sr_this_update e = 5" "sr_next_update e = None"
    using example_answers_say(2) by (auto simp: matches_request_def intro!: that)
  then show ?thesis
    by (intro undelegated_responder_believed [where basic = "example_basic example_rogue_answer" and embedded = example_rogue and answer = e
          and responder = "example_certificate_of example_rogue"])
      (use example_answers_read(2) example_answers_say(4,6,7) example_certificates in
         \<open>simp_all add: example_net_def Ocsp_verify_signature_def verify_signed_by_def example_times\<close>)
qed

text \<open>A list of two entries of which the first does not decode: the leaf, named by the second, counts as good.\<close>

definition example_crl :: Crl where
  "example_crl =
     \<lparr>crl_raw_der = [], crl_tbs_der = [], crl_issuer = [48, 2, 5, 0], crl_this_update = 5, crl_next_update = Some 9,
      crl_revoked_seq_value = Some [5, 0, 2, 1, 5], crl_signature_alg_oid = [42], crl_signature_bits = [1]\<rparr>"

definition example_revoked_cert :: "bytes \<Rightarrow> revoked_cert option" where
  "example_revoked_cert bs =
     (if bs = [2, 1, 5] then Some \<lparr>rc_serial_number = [5], rc_revocation_date = 4, rc_extensions = None\<rparr> else None)"

theorem corrupt_entry_hides_the_rest_witness:
  "map re_serial (revoked_entries ber_der example_revoked_cert [[2, 1, 5]]) = [crt_serial_der (example_certificate_of example_leaf)] \<and>
   check_against_crl ber_der example_revoked_cert (example_certificate_of example_leaf) (VerifiedCrl example_crl) 6 = RevocationStatus_Good"
proof -
  have "map re_serial (revoked_entries ber_der example_revoked_cert [[2, 1, 5]]) = [crt_serial_der (example_certificate_of example_leaf)]"
    by code_simp
  moreover have "crt_issuer (example_certificate_of example_leaf) = [48, 2, 5, 0]" by code_simp
  moreover have "der_slice ber_der [5, 0, 2, 1, 5] = Some ([] @ [5, 0] # [[2, 1, 5]], True)" by code_simp
  ultimately show ?thesis
    using corrupt_entry_hides_the_rest [of example_crl "[5, 0, 2, 1, 5]" ber_der "[]" "[5, 0]" "[[2, 1, 5]]" True example_revoked_cert
        "example_certificate_of example_leaf" 6]
    by (simp add: example_crl_def example_revoked_cert_def past_def)
qed

end
