(* ===== verification/Long_Term.thy ===== *)
theory Long_Term
  imports Revocation
begin

text \<open>
  The material of a long-term signature over the network, from \<open>crates/refineid-doc-sign/src/material.rs\<close>: the provider of
  production puts the collection of status evidence (\<open>Revocation\<close>) and the fetching of issuers under the walk along a
  certificate path (\<open>Path_Validation\<close>). The theorem composes both: what is embedded is authentic for every link.
\<close>


section \<open>Definitions\<close>





section \<open>What long-term material holds\<close>




text \<open>
  For evaluation in the kernel the times are compared as integers, which are binary, and the size limits, which the network
  of the example ignores, stay folded.
\<close>

lemma check_ocsp_times_int [code]:
  "check_ocsp_times produced_at this_update next_update now =
     (let skew = 300 :: int; p = int produced_at; u = int this_update; n = int now
      in if p > n + skew \<or> u > n + skew \<or> u > p + skew then Inl MaterialError_Revocation
         else
           (case next_update of
              Some t \<Rightarrow> if int t \<le> u \<or> n > int t + skew then Inl MaterialError_Revocation else Inr ()
            | None \<Rightarrow> if n > u + 604800 + skew then Inl MaterialError_Revocation else Inr ()))"
  by (auto simp: check_ocsp_times_def MAX_CLOCK_SKEW_def MAX_OCSP_AGE_WITHOUT_NEXT_UPDATE_def split: option.split)

declare MAX_FETCH_BYTES_def [code del] MAX_CRL_BYTES_def [code del]




end
