(* ===== verification/Atr.thy ===== *)
theory Atr
  imports Prelude
begin

text \<open>
  The answer to reset of a card, from \<open>crates/refineid-lib-core/src/atr.rs\<close>: the convention, the chain of interface bytes, the
  historical bytes with their compact TLVs, and the check character. \<open>Atr_new\<close> parses and \<open>to_wire_bytes\<close> writes; a
  parse succeeds exactly on the encodings of well-formed answers.
\<close>

unbundle bit_operations_syntax


section \<open>Definitions\<close>

subsection \<open>Convention and format character\<close>

definition ATR_MIN_LEN :: nat where "ATR_MIN_LEN = 2"
definition ATR_MAX_LEN :: nat where "ATR_MAX_LEN = 33"
definition TS_DIRECT :: u8 where "TS_DIRECT = 0x3B"
definition TS_INVERSE :: u8 where "TS_INVERSE = 0x3F"

datatype Convention = Convention_Direct | Convention_Inverse

definition Convention_from_ts :: "u8 \<Rightarrow> Convention option" where
  "Convention_from_ts ts =
     (if ts = TS_DIRECT then Some Convention_Direct else if ts = TS_INVERSE then Some Convention_Inverse else None)"

fun Convention_as_ts :: "Convention \<Rightarrow> u8" where
  "Convention_as_ts Convention_Direct = TS_DIRECT"
| "Convention_as_ts Convention_Inverse = TS_INVERSE"

type_synonym Yi = u8

definition Yi_from_nibble :: "u8 \<Rightarrow> Yi" where "Yi_from_nibble nibble = nibble AND 0x0F"
definition ta_present :: "Yi \<Rightarrow> bool" where "ta_present y \<longleftrightarrow> y AND 1 \<noteq> 0"
definition tb_present :: "Yi \<Rightarrow> bool" where "tb_present y \<longleftrightarrow> y AND 2 \<noteq> 0"
definition tc_present :: "Yi \<Rightarrow> bool" where "tc_present y \<longleftrightarrow> y AND 4 \<noteq> 0"
definition td_present :: "Yi \<Rightarrow> bool" where "td_present y \<longleftrightarrow> y AND 8 \<noteq> 0"
definition any_present :: "Yi \<Rightarrow> bool" where "any_present y \<longleftrightarrow> y \<noteq> 0"

record T0 =
  y1 :: Yi
  historical_byte_count :: u8

definition T0_from_byte :: "u8 \<Rightarrow> T0" where
  "T0_from_byte b = \<lparr>y1 = Yi_from_nibble (drop_bit 4 b), historical_byte_count = b AND 0x0F\<rparr>"

definition T0_as_byte :: "T0 \<Rightarrow> u8" where
  "T0_as_byte t = push_bit 4 (y1 t) OR (historical_byte_count t AND 0x0F)"

definition MINIMAL_DIRECT_ATR :: bytes where
  "MINIMAL_DIRECT_ATR =
     [Convention_as_ts Convention_Direct, T0_as_byte \<lparr>y1 = Yi_from_nibble 0, historical_byte_count = 0\<rparr>]"


subsection \<open>Interface bytes\<close>

definition fi_index :: "u8 \<Rightarrow> u8" where "fi_index ta = drop_bit 4 ta AND 0x0F"
definition di_index :: "u8 \<Rightarrow> u8" where "di_index ta = ta AND 0x0F"

definition ta1_clock_rate_conversion :: "u8 \<Rightarrow> u16 option" where
  "ta1_clock_rate_conversion ta =
     (let fi = fi_index ta
      in if fi \<le> 1 then Some 372 else if fi = 2 then Some 558 else if fi = 3 then Some 744 else if fi = 4 then Some 1116
         else if fi = 5 then Some 1488 else if fi = 6 then Some 1860 else if fi = 9 then Some 512 else if fi = 10 then Some 768
         else if fi = 11 then Some 1024 else if fi = 12 then Some 1536 else if fi = 13 then Some 2048 else None)"

definition ta1_max_frequency_khz :: "u8 \<Rightarrow> u32 option" where
  "ta1_max_frequency_khz ta =
     (let fi = fi_index ta
      in if fi = 0 then Some 4000 else if fi = 1 \<or> fi = 9 then Some 5000 else if fi = 2 then Some 6000 else if fi = 3 then Some 8000
         else if fi = 10 then Some 7500 else if fi = 11 then Some 10000 else if fi = 4 then Some 12000 else if fi = 12 then Some 15000
         else if fi = 5 then Some 16000 else if fi = 6 \<or> fi = 13 then Some 20000 else None)"

definition ta1_bit_rate_adjustment :: "u8 \<Rightarrow> u16 option" where
  "ta1_bit_rate_adjustment ta =
     (let di = di_index ta
      in if di = 1 then Some 1 else if di = 2 then Some 2 else if di = 3 then Some 4 else if di = 4 then Some 8
         else if di = 5 then Some 16 else if di = 6 then Some 32 else if di = 7 then Some 64 else if di = 8 then Some 12
         else if di = 9 then Some 20 else None)"

definition protocol_indicator :: "u8 \<Rightarrow> u8" where "protocol_indicator td = td AND 0x0F"
definition next_yi :: "u8 \<Rightarrow> Yi" where "next_yi td = Yi_from_nibble (drop_bit 4 td)"

record InterfaceByteGroup =
  ib_ta :: "u8 option"
  ib_tb :: "u8 option"
  ib_tc :: "u8 option"
  ib_td :: "u8 option"


subsection \<open>Historical bytes\<close>

record CompactTlv =
  ct_tag :: u8
  ct_value :: bytes

definition category_indicator :: "bytes \<Rightarrow> u8 option" where "category_indicator hist = get_at hist 0"
definition is_compact_tlv :: "bytes \<Rightarrow> bool" where "is_compact_tlv hist \<longleftrightarrow> category_indicator hist = Some 0x80"

function compact_from :: "bytes \<Rightarrow> nat \<Rightarrow> CompactTlv list" where
  "compact_from hist idx =
     (case get_at hist idx of
        None \<Rightarrow> []
      | Some header \<Rightarrow>
          let len = unat (header AND 0x0F); start = idx + 1
          in (case get_range hist start (start + len) of
                None \<Rightarrow> []
              | Some v \<Rightarrow> \<lparr>ct_tag = drop_bit 4 header, ct_value = v\<rparr> # compact_from hist (start + len)))"
  by pat_completeness auto
termination by (relation "measure (\<lambda>(hist, idx). length hist - idx)") (auto simp: get_at_eq_Some)

declare compact_from.simps [simp del]

definition compact_tlv_entries :: "bytes \<Rightarrow> CompactTlv list" where
  "compact_tlv_entries hist = (if is_compact_tlv hist then compact_from hist 1 else [])"

datatype StatusIndicator =
    StatusIndicator_LifeCycle u8
  | StatusIndicator_StatusWord u8 u8
  | StatusIndicator_Full u8 u8 u8

datatype HistoricalDataObject =
    HistoricalDataObject_CountryCode bytes
  | HistoricalDataObject_IssuerIdNumber bytes
  | HistoricalDataObject_CardServiceData u8
  | HistoricalDataObject_InitialAccessData bytes
  | HistoricalDataObject_CardIssuerData bytes
  | HistoricalDataObject_PreIssuingData bytes
  | HistoricalDataObject_CardCapabilities bytes
  | HistoricalDataObject_StatusIndicator StatusIndicator
  | HistoricalDataObject_Other u8 bytes

definition CTLV_TAG_COUNTRY :: u8 where "CTLV_TAG_COUNTRY = 1"
definition CTLV_TAG_ISSUER_ID :: u8 where "CTLV_TAG_ISSUER_ID = 2"
definition CTLV_TAG_CARD_SERVICE :: u8 where "CTLV_TAG_CARD_SERVICE = 3"
definition CTLV_TAG_INITIAL_ACCESS :: u8 where "CTLV_TAG_INITIAL_ACCESS = 4"
definition CTLV_TAG_CARD_ISSUER :: u8 where "CTLV_TAG_CARD_ISSUER = 5"
definition CTLV_TAG_PRE_ISSUING :: u8 where "CTLV_TAG_PRE_ISSUING = 6"
definition CTLV_TAG_CARD_CAPABILITIES :: u8 where "CTLV_TAG_CARD_CAPABILITIES = 7"
definition CTLV_TAG_STATUS :: u8 where "CTLV_TAG_STATUS = 8"

lemmas ctlv_tags = CTLV_TAG_COUNTRY_def CTLV_TAG_ISSUER_ID_def CTLV_TAG_CARD_SERVICE_def CTLV_TAG_INITIAL_ACCESS_def
  CTLV_TAG_CARD_ISSUER_def CTLV_TAG_PRE_ISSUING_def CTLV_TAG_CARD_CAPABILITIES_def CTLV_TAG_STATUS_def

definition single_byte :: "CompactTlv \<Rightarrow> u8 option" where
  "single_byte t = (case ct_value t of [b] \<Rightarrow> Some b | _ \<Rightarrow> None)"

definition status_indicator :: "CompactTlv \<Rightarrow> StatusIndicator option" where
  "status_indicator t =
     (case ct_value t of
        [lcs] \<Rightarrow> Some (StatusIndicator_LifeCycle lcs)
      | [sw1, sw2] \<Rightarrow> Some (StatusIndicator_StatusWord sw1 sw2)
      | [lcs, sw1, sw2] \<Rightarrow> Some (StatusIndicator_Full lcs sw1 sw2)
      | _ \<Rightarrow> None)"

definition proprietary :: "CompactTlv \<Rightarrow> HistoricalDataObject" where
  "proprietary t = HistoricalDataObject_Other (ct_tag t) (ct_value t)"

definition interpret_tlv :: "CompactTlv \<Rightarrow> HistoricalDataObject" where
  "interpret_tlv t =
     (let tag = ct_tag t; v = ct_value t
      in if tag = CTLV_TAG_COUNTRY then HistoricalDataObject_CountryCode v
         else if tag = CTLV_TAG_ISSUER_ID then HistoricalDataObject_IssuerIdNumber v
         else if tag = CTLV_TAG_CARD_SERVICE
         then (case single_byte t of None \<Rightarrow> proprietary t | Some b \<Rightarrow> HistoricalDataObject_CardServiceData b)
         else if tag = CTLV_TAG_INITIAL_ACCESS then HistoricalDataObject_InitialAccessData v
         else if tag = CTLV_TAG_CARD_ISSUER then HistoricalDataObject_CardIssuerData v
         else if tag = CTLV_TAG_PRE_ISSUING then HistoricalDataObject_PreIssuingData v
         else if tag = CTLV_TAG_CARD_CAPABILITIES then HistoricalDataObject_CardCapabilities v
         else if tag = CTLV_TAG_STATUS
         then (case status_indicator t of None \<Rightarrow> proprietary t | Some s \<Rightarrow> HistoricalDataObject_StatusIndicator s)
         else proprietary t)"

definition data_objects :: "bytes \<Rightarrow> HistoricalDataObject list" where
  "data_objects hist = map interpret_tlv (compact_tlv_entries hist)"

definition app_selection_by_full_df_name :: "u8 \<Rightarrow> bool" where "app_selection_by_full_df_name b \<longleftrightarrow> b AND 0x80 \<noteq> 0"
definition app_selection_by_partial_df_name :: "u8 \<Rightarrow> bool" where "app_selection_by_partial_df_name b \<longleftrightarrow> b AND 0x40 \<noteq> 0"
definition ber_tlv_in_ef_dir :: "u8 \<Rightarrow> bool" where "ber_tlv_in_ef_dir b \<longleftrightarrow> b AND 0x20 \<noteq> 0"
definition ber_tlv_in_ef_atr :: "u8 \<Rightarrow> bool" where "ber_tlv_in_ef_atr b \<longleftrightarrow> b AND 0x10 \<noteq> 0"
definition ef_access_services :: "u8 \<Rightarrow> u8" where "ef_access_services b = drop_bit 1 b AND 7"
definition has_master_file :: "u8 \<Rightarrow> bool" where "has_master_file b \<longleftrightarrow> b AND 1 = 0"

text \<open>The country code: three decimal quartets. Nothing saturates, since each is at most 9.\<close>

definition country_code :: "bytes \<Rightarrow> u16 option" where
  "country_code bs =
     (case (get_at bs 0, get_at bs 1) of
        (Some first, Some second) \<Rightarrow>
          let d0 = drop_bit 4 first; d1 = first AND 0x0F; d2 = drop_bit 4 second
          in if d0 > 9 \<or> d1 > 9 \<or> d2 > 9 then None else Some (ucast d0 * 100 + ucast d1 * 10 + ucast d2)
      | _ \<Rightarrow> None)"

definition selection_methods :: "bytes \<Rightarrow> u8 option" where "selection_methods bs = get_at bs 0"
definition data_coding :: "bytes \<Rightarrow> u8 option" where "data_coding bs = get_at bs 1"
definition command_chaining :: "bytes \<Rightarrow> u8 option" where "command_chaining bs = get_at bs 2"

definition supports_command_chaining :: "bytes \<Rightarrow> bool option" where
  "supports_command_chaining bs = map_option (\<lambda>b. b AND 0x80 \<noteq> 0) (command_chaining bs)"

definition supports_extended_length :: "bytes \<Rightarrow> bool option" where
  "supports_extended_length bs = map_option (\<lambda>b. b AND 0x40 \<noteq> 0) (command_chaining bs)"


subsection \<open>The answer\<close>

record Atr =
  convention :: Convention
  t0 :: T0
  interface_groups :: "InterfaceByteGroup list"
  historical :: bytes
  tck :: "u8 option"

datatype AtrError =
    AtrError_TooShort nat
  | AtrError_TooLong nat
  | AtrError_InvalidConvention u8
  | AtrError_TruncatedAtInterfaceBytes
  | AtrError_TruncatedAtHistoricalBytes
  | AtrError_MissingTck
  | AtrError_TrailingBytes nat nat

text \<open>One optional interface byte, one group, and the chain of groups.\<close>

definition interface_byte :: "bytes \<Rightarrow> nat \<Rightarrow> bool \<Rightarrow> AtrError + (u8 option \<times> nat)" where
  "interface_byte bs idx present =
     (if present then bindR (ok_or AtrError_TruncatedAtInterfaceBytes (get_at bs idx)) (\<lambda>b. Inr (Some b, idx + 1)) else Inr (None, idx))"

definition interface_group :: "bytes \<Rightarrow> nat \<Rightarrow> Yi \<Rightarrow> AtrError + (InterfaceByteGroup \<times> nat)" where
  "interface_group bs idx yi =
     bindR (interface_byte bs idx (ta_present yi)) (\<lambda>(ta, idx).
     bindR (interface_byte bs idx (tb_present yi)) (\<lambda>(tb, idx).
     bindR (interface_byte bs idx (tc_present yi)) (\<lambda>(tc, idx).
     bindR (interface_byte bs idx (td_present yi)) (\<lambda>(td, idx).
       Inr (\<lparr>ib_ta = ta, ib_tb = tb, ib_tc = tc, ib_td = td\<rparr>, idx)))))"

text \<open>The bytes of a group, in the order of the wire.\<close>

definition opt_byte :: "u8 option \<Rightarrow> bytes" where
  "opt_byte b = (case b of None \<Rightarrow> [] | Some b \<Rightarrow> [b])"

definition group_bytes :: "InterfaceByteGroup \<Rightarrow> bytes" where
  "group_bytes g = opt_byte (ib_ta g) @ opt_byte (ib_tb g) @ opt_byte (ib_tc g) @ opt_byte (ib_td g)"

definition group_matches :: "Yi \<Rightarrow> InterfaceByteGroup \<Rightarrow> bool" where
  "group_matches y g \<longleftrightarrow>
     (ib_ta g \<noteq> None \<longleftrightarrow> ta_present y) \<and> (ib_tb g \<noteq> None \<longleftrightarrow> tb_present y) \<and> (ib_tc g \<noteq> None \<longleftrightarrow> tc_present y) \<and> (ib_td g \<noteq> None \<longleftrightarrow> td_present y)"

text \<open>A slice stands at an offset of a buffer.\<close>

definition stands_at :: "bytes \<Rightarrow> nat \<Rightarrow> bytes \<Rightarrow> bool" where
  "stands_at bs i xs \<longleftrightarrow> i + length xs \<le> length bs \<and> take (length xs) (drop i bs) = xs"

lemma stands_at_Nil [simp]: "stands_at bs i [] \<longleftrightarrow> i \<le> length bs"
  by (simp add: stands_at_def)

lemma stands_at_append: "stands_at bs i (xs @ ys) \<longleftrightarrow> stands_at bs i xs \<and> stands_at bs (i + length xs) ys"
proof -
  have "take (length xs + length ys) (drop i bs) = take (length xs) (drop i bs) @ take (length ys) (drop (i + length xs) bs)"
    by (simp add: take_add add.commute)
  then show ?thesis by (auto simp: stands_at_def append_eq_append_conv)
qed

lemma stands_at_single: "stands_at bs i [b] \<longleftrightarrow> get_at bs i = Some b"
  by (auto simp: stands_at_def get_at_eq_Some take_Suc_conv_app_nth simp flip: Cons_nth_drop_Suc)

lemma interface_byte_Inr:
  "i \<le> length bs \<Longrightarrow> interface_byte bs i p = Inr (b, j) \<longleftrightarrow> (b \<noteq> None \<longleftrightarrow> p) \<and> j = i + length (opt_byte b) \<and> stands_at bs i (opt_byte b)"
  by (cases b) (auto simp: interface_byte_def bindR_eq_Inr ok_or_eq_Inr opt_byte_def stands_at_single)

lemma interface_group_Inr:
  assumes "i \<le> length bs"
  shows "interface_group bs i y = Inr (g, j) \<longleftrightarrow> group_matches y g \<and> j = i + length (group_bytes g) \<and> stands_at bs i (group_bytes g)"
proof
  assume "interface_group bs i y = Inr (g, j)"
  then obtain ta i1 tb i2 tc i3 td where *: "interface_byte bs i (ta_present y) = Inr (ta, i1)" "interface_byte bs i1 (tb_present y) = Inr (tb, i2)"
      "interface_byte bs i2 (tc_present y) = Inr (tc, i3)" "interface_byte bs i3 (td_present y) = Inr (td, j)"
      "g = \<lparr>ib_ta = ta, ib_tb = tb, ib_tc = tc, ib_td = td\<rparr>"
    by (auto simp: interface_group_def bindR_eq_Inr)
  from *(1) assms have a: "(ta \<noteq> None \<longleftrightarrow> ta_present y) \<and> i1 = i + length (opt_byte ta) \<and> stands_at bs i (opt_byte ta)" by (simp add: interface_byte_Inr)
  then have "i1 \<le> length bs" by (simp add: stands_at_def)
  with *(2) have b: "(tb \<noteq> None \<longleftrightarrow> tb_present y) \<and> i2 = i1 + length (opt_byte tb) \<and> stands_at bs i1 (opt_byte tb)" by (simp add: interface_byte_Inr)
  then have "i2 \<le> length bs" by (simp add: stands_at_def)
  with *(3) have c: "(tc \<noteq> None \<longleftrightarrow> tc_present y) \<and> i3 = i2 + length (opt_byte tc) \<and> stands_at bs i2 (opt_byte tc)" by (simp add: interface_byte_Inr)
  then have "i3 \<le> length bs" by (simp add: stands_at_def)
  with *(4) have "(td \<noteq> None \<longleftrightarrow> td_present y) \<and> j = i3 + length (opt_byte td) \<and> stands_at bs i3 (opt_byte td)" by (simp add: interface_byte_Inr)
  with a b c *(5) show "group_matches y g \<and> j = i + length (group_bytes g) \<and> stands_at bs i (group_bytes g)"
    by (auto simp: group_matches_def group_bytes_def stands_at_append)
next
  assume r: "group_matches y g \<and> j = i + length (group_bytes g) \<and> stands_at bs i (group_bytes g)"
  let ?i1 = "i + length (opt_byte (ib_ta g))" let ?i2 = "?i1 + length (opt_byte (ib_tb g))" let ?i3 = "?i2 + length (opt_byte (ib_tc g))"
  from r have s: "stands_at bs i (opt_byte (ib_ta g))" "stands_at bs ?i1 (opt_byte (ib_tb g))" "stands_at bs ?i2 (opt_byte (ib_tc g))"
      "stands_at bs ?i3 (opt_byte (ib_td g))" by (auto simp: group_bytes_def stands_at_append add.assoc)
  then have le: "?i1 \<le> length bs" "?i2 \<le> length bs" "?i3 \<le> length bs" by (auto simp: stands_at_def)
  have "interface_byte bs i (ta_present y) = Inr (ib_ta g, ?i1)" "interface_byte bs ?i1 (tb_present y) = Inr (ib_tb g, ?i2)"
      "interface_byte bs ?i2 (tc_present y) = Inr (ib_tc g, ?i3)" "interface_byte bs ?i3 (td_present y) = Inr (ib_td g, j)"
    using r s by (auto simp: interface_byte_Inr assms le group_matches_def group_bytes_def)
  then show "interface_group bs i y = Inr (g, j)" by (simp add: interface_group_def)
qed

lemma interface_byte_grows: "interface_byte bs i p = Inr (b, j) \<Longrightarrow> i \<le> j \<and> (b \<noteq> None \<longrightarrow> i < j \<and> i < length bs)"
  by (auto simp: interface_byte_def bindR_eq_Inr ok_or_eq_Inr get_at_eq_Some split: if_splits)

lemma interface_group_grows: "interface_group bs i y = Inr (g, j) \<Longrightarrow> ib_td g \<noteq> None \<Longrightarrow> i < j \<and> i < length bs"
  by (fastforce simp: interface_group_def bindR_eq_Inr dest: interface_byte_grows)

text \<open>The chain ends: a group that continues it has consumed a byte.\<close>

function interface_chain :: "bytes \<Rightarrow> nat \<Rightarrow> Yi \<Rightarrow> AtrError + (InterfaceByteGroup list \<times> nat \<times> bool)" where
  "interface_chain bs idx yi =
     (if \<not> any_present yi then Inr ([], idx, False)
      else
        (case interface_group bs idx yi of
           Inl e \<Rightarrow> Inl e
         | Inr (g, idx) \<Rightarrow>
             (case ib_td g of
                None \<Rightarrow> Inr ([g], idx, False)
              | Some td \<Rightarrow>
                  (case interface_chain bs idx (next_yi td) of
                     Inl e \<Rightarrow> Inl e
                   | Inr (groups, idx, any_non_t0_protocol) \<Rightarrow> Inr (g # groups, idx, protocol_indicator td \<noteq> 0 \<or> any_non_t0_protocol)))))"
  by pat_completeness auto

termination
  by (relation "measure (\<lambda>(bs, idx, yi). length bs - idx)") (simp_all, metis diff_less_mono2 interface_group_grows option.distinct(1))

declare interface_chain.simps [simp del]

definition check_character :: "bytes \<Rightarrow> nat \<Rightarrow> bool \<Rightarrow> AtrError + (u8 option \<times> nat)" where
  "check_character bs idx any_non_t0_protocol =
     (if any_non_t0_protocol then bindR (ok_or AtrError_MissingTck (get_at bs idx)) (\<lambda>b. Inr (Some b, idx + 1)) else Inr (None, idx))"

definition Atr_new :: "bytes \<Rightarrow> AtrError + Atr" where
  "Atr_new bs =
     (if length bs < ATR_MIN_LEN then Inl (AtrError_TooShort (length bs))
      else if length bs > ATR_MAX_LEN then Inl (AtrError_TooLong (length bs))
      else
        bindR (ok_or (AtrError_TooShort (length bs)) (get_at bs 0)) (\<lambda>ts.
        bindR (ok_or (AtrError_InvalidConvention ts) (Convention_from_ts ts)) (\<lambda>convention.
        bindR (ok_or (AtrError_TooShort (length bs)) (get_at bs 1)) (\<lambda>t0_byte.
        let t0 = T0_from_byte t0_byte in
        bindR (interface_chain bs 2 (y1 t0)) (\<lambda>(interface_groups, idx, any_non_t0_protocol).
        let hist_end = idx + unat (historical_byte_count t0) in
        bindR (ok_or AtrError_TruncatedAtHistoricalBytes (get_range bs idx hist_end)) (\<lambda>historical.
        bindR (check_character bs hist_end any_non_t0_protocol) (\<lambda>(tck, idx).
          if idx \<noteq> length bs then Inl (AtrError_TrailingBytes idx (length bs))
          else Inr \<lparr>convention = convention, t0 = t0, interface_groups = interface_groups, historical = historical, tck = tck\<rparr>)))))))"

definition to_wire_bytes :: "Atr \<Rightarrow> bytes" where
  "to_wire_bytes a =
     [Convention_as_ts (convention a), T0_as_byte (t0 a)] @ concat (map group_bytes (interface_groups a)) @ historical a @ opt_byte (tck a)"

definition non_t0 :: "InterfaceByteGroup \<Rightarrow> bool" where
  "non_t0 g \<longleftrightarrow> (case ib_td g of None \<Rightarrow> False | Some td \<Rightarrow> protocol_indicator td \<noteq> 0)"

definition supports_non_t0_protocol :: "Atr \<Rightarrow> bool" where
  "supports_non_t0_protocol a \<longleftrightarrow> (\<exists>g \<in> set (interface_groups a). non_t0 g)"


section \<open>Parsing is the inverse of writing\<close>

text \<open>A chain of groups as the presence nibbles announce it, and a well-formed answer.\<close>

fun chain_wf :: "Yi \<Rightarrow> InterfaceByteGroup list \<Rightarrow> bool" where
  "chain_wf y [] \<longleftrightarrow> y = 0"
| "chain_wf y (g # gs) \<longleftrightarrow> y \<noteq> 0 \<and> group_matches y g \<and> (case ib_td g of None \<Rightarrow> gs = [] | Some td \<Rightarrow> chain_wf (next_yi td) gs)"

definition atr_wf :: "Atr \<Rightarrow> bool" where
  "atr_wf a \<longleftrightarrow>
     y1 (t0 a) AND 0x0F = y1 (t0 a) \<and> historical_byte_count (t0 a) AND 0x0F = historical_byte_count (t0 a) \<and>
     chain_wf (y1 (t0 a)) (interface_groups a) \<and> length (historical a) = unat (historical_byte_count (t0 a)) \<and>
     (tck a \<noteq> None \<longleftrightarrow> supports_non_t0_protocol a) \<and> length (to_wire_bytes a) \<le> ATR_MAX_LEN"

lemma nibble_mask: "(0x0F :: u8) = mask 4"
  by (simp add: mask_eq_exp_minus_1)

lemma T0_roundtrip: "T0_as_byte (T0_from_byte b) = b"
  unfolding T0_as_byte_def T0_from_byte_def Yi_from_nibble_def nibble_mask
  by (rule bit_word_eqI) (auto simp: bit_simps)

lemma T0_nibbles: "y1 (T0_from_byte b) AND 0x0F = y1 (T0_from_byte b)"
    "historical_byte_count (T0_from_byte b) AND 0x0F = historical_byte_count (T0_from_byte b)"
  by (simp_all add: T0_from_byte_def Yi_from_nibble_def)

lemma T0_from_as_byte:
  assumes "y1 t AND 0x0F = y1 t" "historical_byte_count t AND 0x0F = historical_byte_count t"
  shows "T0_from_byte (T0_as_byte t) = t"
proof -
  have "drop_bit 4 (push_bit 4 (y AND 0x0F) OR (k AND 0x0F)) AND 0x0F = y AND 0x0F"
      "(push_bit 4 (y AND 0x0F) OR (k AND 0x0F)) AND 0x0F = k AND 0x0F" for y k :: u8
    unfolding nibble_mask by (rule bit_word_eqI, simp add: bit_simps, linarith?)+
  from this [of "y1 t" "historical_byte_count t"] show ?thesis
    using assms by (simp add: T0_as_byte_def T0_from_byte_def Yi_from_nibble_def)
qed

lemma Convention_roundtrip: "Convention_from_ts ts = Some c \<longleftrightarrow> ts = Convention_as_ts c"
  by (cases c) (auto simp: Convention_from_ts_def TS_DIRECT_def TS_INVERSE_def)

lemma interface_chain_unfold:
  "interface_chain bs i 0 = Inr ([], i, False)"
  "y \<noteq> 0 \<Longrightarrow> interface_group bs i y = Inl e \<Longrightarrow> interface_chain bs i y = Inl e"
  "y \<noteq> 0 \<Longrightarrow> interface_group bs i y = Inr (g, k) \<Longrightarrow> ib_td g = None \<Longrightarrow> interface_chain bs i y = Inr ([g], k, False)"
  "y \<noteq> 0 \<Longrightarrow> interface_group bs i y = Inr (g, k) \<Longrightarrow> ib_td g = Some td \<Longrightarrow>
     interface_chain bs i y = bindR (interface_chain bs k (next_yi td)) (\<lambda>(gs, j, n). Inr (g # gs, j, protocol_indicator td \<noteq> 0 \<or> n))"
  by (subst interface_chain.simps, simp add: any_present_def bindR_def split: sum.split)+

lemma interface_chain_Cons:
  "interface_chain bs i y = Inr (g # gs, j, n) \<longleftrightarrow>
     y \<noteq> 0 \<and> (\<exists>k. interface_group bs i y = Inr (g, k) \<and>
       (case ib_td g of
          None \<Rightarrow> gs = [] \<and> j = k \<and> \<not> n
        | Some td \<Rightarrow> \<exists>n'. interface_chain bs k (next_yi td) = Inr (gs, j, n') \<and> n = (protocol_indicator td \<noteq> 0 \<or> n')))"
proof (cases "y = 0")
  case False
  show ?thesis
  proof (cases "interface_group bs i y")
    case (Inr r)
    obtain h k where r: "r = (h, k)" by (cases r)
    show ?thesis using False Inr unfolding r by (cases "ib_td h") (auto simp: interface_chain_unfold bindR_eq_Inr)
  qed (use False in \<open>simp add: interface_chain_unfold\<close>)
qed (simp add: interface_chain_unfold)

lemma interface_chain_Nil: "interface_chain bs i y = Inr ([], j, n) \<longleftrightarrow> y = 0 \<and> j = i \<and> \<not> n"
proof (cases "y = 0")
  case False
  show ?thesis
  proof (cases "interface_group bs i y")
    case (Inr r)
    obtain h k where r: "r = (h, k)" by (cases r)
    show ?thesis using False Inr unfolding r by (cases "ib_td h") (auto simp: interface_chain_unfold bindR_eq_Inr)
  qed (use False in \<open>simp add: interface_chain_unfold\<close>)
qed (auto simp: interface_chain_unfold)

lemma interface_chain_Inr:
  "i \<le> length bs \<Longrightarrow> interface_chain bs i y = Inr (gs, j, n) \<longleftrightarrow>
     chain_wf y gs \<and> j = i + length (concat (map group_bytes gs)) \<and> stands_at bs i (concat (map group_bytes gs)) \<and> n = list_ex non_t0 gs"
proof (induction gs arbitrary: i y j n)
  case (Cons g gs)
  have grow: "i + length (group_bytes g) \<le> length bs" if "stands_at bs i (group_bytes g)" using that by (simp add: stands_at_def)
  show ?case
  proof (cases "ib_td g")
    case None
    then show ?thesis
      by (auto simp: interface_chain_Cons interface_group_Inr [OF Cons.prems] non_t0_def)
  next
    case (Some td)
    then show ?thesis using Cons.IH grow
      by (auto simp: interface_chain_Cons interface_group_Inr [OF Cons.prems] stands_at_append non_t0_def)
  qed
qed (auto simp: interface_chain_Nil)

lemma wire_prefix:
  "to_wire_bytes a = [Convention_as_ts (convention a), T0_as_byte (t0 a)] @ concat (map group_bytes (interface_groups a)) @ historical a @ opt_byte (tck a)"
  by (simp add: to_wire_bytes_def)

lemma stands_at_whole: "length pre = i \<Longrightarrow> stands_at (pre @ xs @ post) i xs"
  by (auto simp: stands_at_def)

lemma check_character_Inr:
  "i \<le> length bs \<Longrightarrow> check_character bs i p = Inr (b, j) \<longleftrightarrow> (b \<noteq> None \<longleftrightarrow> p) \<and> j = i + length (opt_byte b) \<and> stands_at bs i (opt_byte b)"
  by (cases b) (auto simp: check_character_def bindR_eq_Inr ok_or_eq_Inr opt_byte_def stands_at_single)

lemma get_range_stands: "get_range bs i (i + n) = Some xs \<longleftrightarrow> length xs = n \<and> stands_at bs i xs"
  by (auto simp: get_range_eq_Some stands_at_def)

lemma list_of_stands:
  assumes "stands_at bs 0 xs" "length bs = length xs"
  shows "bs = xs"
  using assms by (simp add: stands_at_def)

lemma Atr_new_writes_back:
  assumes "Atr_new bs = Inr a"
  shows "atr_wf a \<and> bs = to_wire_bytes a"
proof -
  from assms obtain ts b1 gs j n hist tck' k where len: "2 \<le> length bs" "length bs \<le> ATR_MAX_LEN"
    and ts: "get_at bs 0 = Some ts" "Convention_from_ts ts = Some (convention a)" and b1: "get_at bs 1 = Some b1" "t0 a = T0_from_byte b1"
    and chain: "interface_chain bs 2 (y1 (t0 a)) = Inr (gs, j, n)" "interface_groups a = gs"
    and hist: "get_range bs j (j + unat (historical_byte_count (t0 a))) = Some hist" "historical a = hist"
    and tck: "check_character bs (j + unat (historical_byte_count (t0 a))) n = Inr (tck', k)" "tck a = tck'" "k = length bs"
    by (auto simp: Atr_new_def Let_def bindR_eq_Inr ok_or_eq_Inr ATR_MIN_LEN_def split: if_splits)
  have gs: "chain_wf (y1 (t0 a)) gs" "j = 2 + length (concat (map group_bytes gs))" "stands_at bs 2 (concat (map group_bytes gs))" "n = list_ex non_t0 gs"
    using chain(1) interface_chain_Inr [OF len(1)] by auto
  have h: "length hist = unat (historical_byte_count (t0 a))" "stands_at bs j hist" using hist(1) by (auto simp: get_range_stands)
  then have "j + length hist \<le> length bs" by (simp add: stands_at_def)
  then have t: "(tck' \<noteq> None \<longleftrightarrow> n)" "stands_at bs (j + length hist) (opt_byte tck')" "length bs = j + length hist + length (opt_byte tck')"
    using tck h(1) check_character_Inr [of "j + length hist" bs n tck' k] by auto
  have "stands_at bs 0 [ts, b1]"
    using ts(1) b1(1) stands_at_append [of bs 0 "[ts]" "[b1]"] by (simp add: stands_at_single)
  moreover have "ts = Convention_as_ts (convention a)" using ts(2) by (simp add: Convention_roundtrip)
  moreover have "b1 = T0_as_byte (t0 a)" using b1(2) T0_roundtrip by simp
  ultimately have "stands_at bs 0 (to_wire_bytes a)"
    using gs(2,3) h(2) t(2) chain(2) hist(2) tck(2) unfolding wire_prefix stands_at_append by (simp add: numeral_2_eq_2)
  moreover have "length bs = length (to_wire_bytes a)" using gs(2) t(3) chain(2) hist(2) tck(2) by (simp add: wire_prefix)
  ultimately have bs: "bs = to_wire_bytes a" by (rule list_of_stands)
  then show ?thesis
    using gs h t len chain(2) hist(2) tck(2) b1(2) T0_nibbles by (simp add: atr_wf_def supports_non_t0_protocol_def list_ex_iff)
qed

lemma Atr_new_reads_back:
  assumes wf: "atr_wf a"
  shows "Atr_new (to_wire_bytes a) = Inr a"
proof -
  let ?bs = "to_wire_bytes a" let ?gs = "concat (map group_bytes (interface_groups a))"
  have t0: "T0_from_byte (T0_as_byte (t0 a)) = t0 a" using wf by (simp add: atr_wf_def T0_from_as_byte)
  have len: "2 \<le> length ?bs" "length ?bs \<le> ATR_MAX_LEN" using wf by (simp_all add: atr_wf_def wire_prefix)
  have "stands_at ?bs 2 ?gs" unfolding wire_prefix by (rule stands_at_whole) simp
  then have chain: "interface_chain ?bs 2 (y1 (t0 a)) = Inr (interface_groups a, 2 + length ?gs, supports_non_t0_protocol a)"
    using wf interface_chain_Inr [OF len(1)] by (simp add: atr_wf_def supports_non_t0_protocol_def list_ex_iff)
  have at_hist: "stands_at ?bs (2 + length ?gs) (historical a)"
    using stands_at_whole [of "[Convention_as_ts (convention a), T0_as_byte (t0 a)] @ ?gs" "2 + length ?gs" "historical a" "opt_byte (tck a)"]
    by (simp add: wire_prefix)
  then have hist: "get_range ?bs (2 + length ?gs) (2 + length ?gs + unat (historical_byte_count (t0 a))) = Some (historical a)"
    using wf unfolding get_range_stands atr_wf_def by simp
  let ?stop = "2 + length ?gs + unat (historical_byte_count (t0 a))"
  have "stands_at ?bs ?stop (opt_byte (tck a))"
    using wf stands_at_whole [of "[Convention_as_ts (convention a), T0_as_byte (t0 a)] @ ?gs @ historical a" ?stop "opt_byte (tck a)" "[]"]
    by (simp add: wire_prefix atr_wf_def)
  moreover have "?stop \<le> length ?bs" using wf at_hist by (simp add: stands_at_def atr_wf_def)
  ultimately have tck: "check_character ?bs ?stop (supports_non_t0_protocol a) = Inr (tck a, ?stop + length (opt_byte (tck a)))"
    using wf by (simp add: check_character_Inr atr_wf_def)
  have "length ?bs = 2 + length ?gs + unat (historical_byte_count (t0 a)) + length (opt_byte (tck a))"
    using wf by (simp add: wire_prefix atr_wf_def)
  moreover have "get_at ?bs 0 = Some (Convention_as_ts (convention a))" "get_at ?bs 1 = Some (T0_as_byte (t0 a))" by (simp_all add: wire_prefix get_at_def)
  moreover have "Convention_from_ts (Convention_as_ts (convention a)) = Some (convention a)" by (simp add: Convention_roundtrip)
  ultimately show ?thesis
    using len t0 chain hist tck wf
    by (simp add: Atr_new_def ATR_MIN_LEN_def Let_def)
qed

text \<open>
  (C37) A byte string parses to an answer exactly when the answer is well-formed and the string is what it is written as: nothing
  in it is lost, skipped or left over.
\<close>

theorem atr_parse_iff_write: "Atr_new bs = Inr a \<longleftrightarrow> atr_wf a \<and> bs = to_wire_bytes a"
  using Atr_new_writes_back Atr_new_reads_back by blast

text \<open>
  (C38) The check character is not checked: an answer that carries one parses with any other byte in its place.
\<close>

theorem atr_check_character_ignored:
  assumes "Atr_new bs = Inr a" "tck a \<noteq> None"
  shows "Atr_new (butlast bs @ [b]) = Inr (a\<lparr>tck := Some b\<rparr>)"
proof -
  from assms have "atr_wf a" "bs = to_wire_bytes a" using Atr_new_writes_back by auto
  with assms(2) have "atr_wf (a\<lparr>tck := Some b\<rparr>)" "butlast bs @ [b] = to_wire_bytes (a\<lparr>tck := Some b\<rparr>)"
    by (auto simp: atr_wf_def wire_prefix opt_byte_def supports_non_t0_protocol_def butlast_append)
  then show ?thesis using Atr_new_reads_back by simp
qed

lemma header_nibbles: "push_bit 4 (drop_bit 4 h) OR (h AND 0x0F) = (h :: u8)"
  unfolding nibble_mask by (rule bit_word_eqI) (auto simp: bit_simps)

definition compact_bytes :: "CompactTlv \<Rightarrow> bytes" where
  "compact_bytes t = (push_bit 4 (ct_tag t) OR of_nat (length (ct_value t))) # ct_value t"

lemma compact_from_stands: "i \<le> length hist \<Longrightarrow> stands_at hist i (concat (map compact_bytes (compact_from hist i)))"
proof (induction hist i rule: compact_from.induct)
  case (1 hist i)
  show ?case
  proof (cases "\<exists>h v. get_at hist i = Some h \<and> get_range hist (i + 1) (i + 1 + unat (h AND 0x0F)) = Some v")
    case True
    then obtain h v where h: "get_at hist i = Some h" "get_range hist (i + 1) (i + 1 + unat (h AND 0x0F)) = Some v" by blast
    from h(2) have v: "length v = unat (h AND 0x0F)" "stands_at hist (i + 1) v" unfolding get_range_stands by blast+
    have "compact_bytes \<lparr>ct_tag = drop_bit 4 h, ct_value = v\<rparr> = h # v" by (simp add: compact_bytes_def v(1) header_nibbles)
    moreover have "i + 1 + unat (h AND 0x0F) \<le> length hist" using v by (simp add: stands_at_def)
    ultimately show ?thesis
      using h v 1(1) [OF h(1) refl refl h(2)] stands_at_append [of hist i "[h]"] stands_at_single [of hist i h]
      by (subst compact_from.simps) (simp add: Let_def stands_at_append)
  next
    case False
    then show ?thesis using 1(2) by (subst compact_from.simps) (auto simp: Let_def split: option.splits)
  qed
qed

text \<open>
  The entries read from historical bytes in compact form are, written one after the other, what follows the category
  indicator, up to a last entry that does not fit.
\<close>

theorem compact_entries_faithful:
  assumes "is_compact_tlv hist"
  shows "\<exists>rest. hist = 0x80 # concat (map compact_bytes (compact_tlv_entries hist)) @ rest"
proof -
  let ?xs = "concat (map compact_bytes (compact_tlv_entries hist))"
  from assms obtain tl where tl: "hist = 0x80 # tl"
    by (cases hist) (auto simp: is_compact_tlv_def category_indicator_def)
  have "stands_at hist 1 ?xs" using compact_from_stands [of 1 hist] assms tl by (simp add: compact_tlv_entries_def)
  then have "take (length ?xs) tl = ?xs" by (simp add: tl stands_at_def)
  then have "tl = ?xs @ drop (length ?xs) tl" by (metis append_take_drop_id)
  with tl show ?thesis by blast
qed

lemma example_atr:
  "Atr_new [0x3B, 0x80, 1, 0x81] =
    Inr \<lparr>convention = Convention_Direct, t0 = \<lparr>y1 = 8, historical_byte_count = 0\<rparr>,
         interface_groups = [\<lparr>ib_ta = None, ib_tb = None, ib_tc = None, ib_td = Some 1\<rparr>], historical = [], tck = Some 0x81\<rparr>"
  by code_simp

theorem atr_check_character_ignored_witness: "\<exists>a. Atr_new [0x3B, 0x80, 1, 0x55] = Inr a \<and> tck a = Some 0x55"
  using atr_check_character_ignored [where b = "0x55", OF example_atr] by simp

theorem compact_entries_faithful_witness:
  "\<exists>rest. [0x80, 0x31, 0xB8, 0x73, 1] = 0x80 # concat (map compact_bytes (compact_tlv_entries [0x80, 0x31, 0xB8, 0x73, 1])) @ rest"
  using compact_entries_faithful [of "[0x80, 0x31, 0xB8, 0x73, 1]"] by (simp add: is_compact_tlv_def category_indicator_def)

end
