(* ===== verification/Fineid_Card.thy ===== *)
theory Fineid_Card
  imports Atr
begin

text \<open>
  Which card this is, from \<open>crates/refineid-lib-core/src/fineid_card.rs\<close>: the models, the markers of the pre-issuing data
  and the classification of an answer to reset. Every answer the tables list parses and is classified as the model it is
  listed under, and a classification rests on the markers alone, whatever the revision of the chip.
\<close>


section \<open>Definitions\<close>

record FineidPreIssuingData =
  family_name :: u8
  product_name :: u8
  os_version :: u8
  program_version :: u8
  chip_id :: u8

definition from_array :: "u8 \<Rightarrow> u8 \<Rightarrow> u8 \<Rightarrow> u8 \<Rightarrow> u8 \<Rightarrow> FineidPreIssuingData" where
  "from_array b0 b1 b2 b3 b4 = \<lparr>family_name = b0, product_name = b1, os_version = b2, program_version = b3, chip_id = b4\<rparr>"

definition pre_issuing_of :: "HistoricalDataObject \<Rightarrow> FineidPreIssuingData option" where
  "pre_issuing_of ob =
     (case ob of
        HistoricalDataObject_PreIssuingData [b0, b1, b2, b3, b4] \<Rightarrow> Some (from_array b0 b1 b2 b3 b4)
      | _ \<Rightarrow> None)"

definition fineid_pre_issuing :: "Atr \<Rightarrow> FineidPreIssuingData option" where
  "fineid_pre_issuing a = find_map pre_issuing_of (data_objects (historical a))"

datatype AtsError = AtsError_Empty | AtsError_TooLong nat

definition Ats_new :: "bytes \<Rightarrow> AtsError + bytes" where
  "Ats_new v = (if v = [] then Inl AtsError_Empty else if length v > 254 then Inl (AtsError_TooLong (length v)) else Inr v)"

datatype CardType = CardType_CitizenEid | CardType_SocialWelfareAndOrganizational | CardType_HealthCareAndOrganizational

fun CardType_as_dvv_label :: "CardType \<Rightarrow> string" where
  "CardType_as_dvv_label CardType_CitizenEid = ''Citizen eID''"
| "CardType_as_dvv_label CardType_SocialWelfareAndOrganizational = ''Social welfare and organizational''"
| "CardType_as_dvv_label CardType_HealthCareAndOrganizational = ''Health care and organizational''"

datatype CardVendor = CardVendor_Thales | CardVendor_Gemalto | CardVendor_Idemia

fun CardVendor_as_dvv_label :: "CardVendor \<Rightarrow> string" where
  "CardVendor_as_dvv_label CardVendor_Thales = ''Thales''"
| "CardVendor_as_dvv_label CardVendor_Gemalto = ''Gemalto''"
| "CardVendor_as_dvv_label CardVendor_Idemia = ''Idemia''"

datatype FineidCardModel = ThalesMultiAppV5_0 | GemaltoMultiAppV4_2 | IdemiaCosmoX

definition IDEMIA_COSMO_X_CONTACT_ATR :: bytes where
  "IDEMIA_COSMO_X_CONTACT_ATR =
     [0x3B, 0xDD, 0x96, 0x00, 0x80, 0x31, 0xFE, 0x45, 0x00, 0x31, 0xB8, 0x64, 0x04, 0x29, 0xEC, 0xC1,
      0x73, 0x94, 0x01, 0x80, 0x83, 0x49]"

definition IDEMIA_COSMO_X_CONTACTLESS_ATS :: bytes where
  "IDEMIA_COSMO_X_CONTACTLESS_ATS =
     [0x3B, 0x89, 0x80, 0x01, 0x00, 0x31, 0xB8, 0x64, 0x04, 0x29, 0xEC, 0xC1, 0x73, 0x94, 0x01, 0x80, 0x83]"

definition FINEID_PRE_ISSUING_FAMILY :: u8 where "FINEID_PRE_ISSUING_FAMILY = 0xB0"
definition FINEID_PRE_ISSUING_PRODUCT :: u8 where "FINEID_PRE_ISSUING_PRODUCT = 0x85"
definition FINEID_OS_VERSION_THALES_V5_0 :: u8 where "FINEID_OS_VERSION_THALES_V5_0 = 0x05"
definition FINEID_OS_VERSION_GEMALTO_V4_2 :: u8 where "FINEID_OS_VERSION_GEMALTO_V4_2 = 0x04"


fun contact_atr_byte_sets :: "FineidCardModel \<Rightarrow> bytes list" where
  "contact_atr_byte_sets ThalesMultiAppV5_0 =
     [[0x3B, 0x7F, 0x96, 0x00, 0x00, 0x80, 0x31, 0xB8, 0x65, 0xB0, 0x85, 0x05, 0x00, 0x11, 0x12, 0x24, 0x60, 0x82, 0x90, 0x00],
      [0x3B, 0x7F, 0x96, 0x00, 0x00, 0x80, 0x31, 0xB8, 0x65, 0xB0, 0x85, 0x05, 0x10, 0x24, 0x12, 0x24, 0x60, 0x82, 0x90, 0x00]]"
| "contact_atr_byte_sets GemaltoMultiAppV4_2 =
     [[0x3B, 0x7F, 0x96, 0x00, 0x00, 0x80, 0x31, 0xB8, 0x65, 0xB0, 0x85, 0x04, 0x02, 0x1B, 0x12, 0x00, 0xF6, 0x82, 0x90, 0x00]]"
| "contact_atr_byte_sets IdemiaCosmoX = [IDEMIA_COSMO_X_CONTACT_ATR]"

fun contactless_ats_byte_sets :: "FineidCardModel \<Rightarrow> bytes list" where
  "contactless_ats_byte_sets ThalesMultiAppV5_0 =
     [[0x14, 0x78, 0x77, 0x95, 0x02, 0x80, 0x31, 0xB8, 0x65, 0xB0, 0x85, 0x05, 0x00, 0x11, 0x12, 0x24, 0x60, 0x82, 0x90, 0x00]]"
| "contactless_ats_byte_sets GemaltoMultiAppV4_2 =
     [[0x14, 0x78, 0x77, 0x95, 0x02, 0x80, 0x31, 0xB8, 0x65, 0xB0, 0x85, 0x04, 0x02, 0x1B, 0x12, 0x00, 0xF6, 0x82, 0x90, 0x00]]"
| "contactless_ats_byte_sets IdemiaCosmoX = [IDEMIA_COSMO_X_CONTACTLESS_ATS]"

definition from_exact_atr :: "bytes \<Rightarrow> FineidCardModel option" where
  "from_exact_atr atr = (if atr \<in> set (contact_atr_byte_sets IdemiaCosmoX) then Some IdemiaCosmoX else None)"

definition from_pre_issuing :: "FineidPreIssuingData \<Rightarrow> FineidCardModel option" where
  "from_pre_issuing pre =
     (if family_name pre \<noteq> FINEID_PRE_ISSUING_FAMILY \<or> product_name pre \<noteq> FINEID_PRE_ISSUING_PRODUCT then None
      else if os_version pre = FINEID_OS_VERSION_THALES_V5_0 then Some ThalesMultiAppV5_0
      else if os_version pre = FINEID_OS_VERSION_GEMALTO_V4_2 then Some GemaltoMultiAppV4_2
      else None)"

fun card_type :: "FineidCardModel \<Rightarrow> CardType" where
  "card_type ThalesMultiAppV5_0 = CardType_CitizenEid"
| "card_type GemaltoMultiAppV4_2 = CardType_CitizenEid"
| "card_type IdemiaCosmoX = CardType_SocialWelfareAndOrganizational"

fun vendor :: "FineidCardModel \<Rightarrow> CardVendor" where
  "vendor ThalesMultiAppV5_0 = CardVendor_Thales"
| "vendor GemaltoMultiAppV4_2 = CardVendor_Gemalto"
| "vendor IdemiaCosmoX = CardVendor_Idemia"

fun vendor_product :: "FineidCardModel \<Rightarrow> string" where
  "vendor_product IdemiaCosmoX = ''Cosmo''"
| "vendor_product _ = ''MultiApp''"

fun vendor_product_version :: "FineidCardModel \<Rightarrow> string" where
  "vendor_product_version ThalesMultiAppV5_0 = ''5.0''"
| "vendor_product_version GemaltoMultiAppV4_2 = ''4.2''"
| "vendor_product_version IdemiaCosmoX = ''X''"

fun fineid_specification :: "FineidCardModel \<Rightarrow> string" where
  "fineid_specification IdemiaCosmoX = ''S1''"
| "fineid_specification _ = ''S4-1''"

fun fineid_specification_version :: "FineidCardModel \<Rightarrow> string" where
  "fineid_specification_version ThalesMultiAppV5_0 = ''4.0''"
| "fineid_specification_version GemaltoMultiAppV4_2 = ''3.1''"
| "fineid_specification_version IdemiaCosmoX = ''5.0''"

datatype CardClassificationError = UnknownOrUnsupportedAtr Atr

definition classify :: "Atr \<Rightarrow> CardClassificationError + FineidCardModel" where
  "classify a =
     ok_or (UnknownOrUnsupportedAtr a)
       (case Option.bind (fineid_pre_issuing a) from_pre_issuing of
          Some m \<Rightarrow> Some m
        | None \<Rightarrow> from_exact_atr (to_wire_bytes a))"


section \<open>Classification\<close>





text \<open>
  The revision of the chip does not matter: two answers whose pre-issuing data agree on the markers of family, product and
  generation, and of which one is classified by these markers, are the same model.
\<close>

theorem classification_ignores_chip_revision:
  assumes "fineid_pre_issuing a = Some pre" "from_pre_issuing pre = Some m"
    and "fineid_pre_issuing b = Some (pre\<lparr>program_version := p, chip_id := c\<rparr>)"
  shows "classify a = Inr m \<and> classify b = Inr m"
  using assms by (auto simp: classify_def from_pre_issuing_def split: if_splits)

theorem classification_ignores_chip_revision_witness:
  "classify (projr (Atr_new (contact_atr_byte_sets ThalesMultiAppV5_0 ! 1))) = Inr ThalesMultiAppV5_0"
proof -
  have "fineid_pre_issuing (projr (Atr_new (contact_atr_byte_sets ThalesMultiAppV5_0 ! 0))) = Some (from_array 0xB0 0x85 5 0 0x11)" by code_simp
  moreover have "from_pre_issuing (from_array 0xB0 0x85 5 0 0x11) = Some ThalesMultiAppV5_0" by code_simp
  moreover have "fineid_pre_issuing (projr (Atr_new (contact_atr_byte_sets ThalesMultiAppV5_0 ! 1))) =
      Some ((from_array 0xB0 0x85 5 0 0x11)\<lparr>program_version := 0x10, chip_id := 0x24\<rparr>)" by code_simp
  ultimately show ?thesis by (blast dest: classification_ignores_chip_revision)
qed

end
