(* ===== verification/Base64.thy ===== *)
theory Base64
  imports Prelude
begin

text \<open>
  Base64 as \<open>crates/refineid-doc-sign/src/base64.rs\<close> codes it for manifests and signatures: the padded standard form with its
  strict decoder, and the unpadded form for addresses with a decoder that is not strict. Accumulators that never hold more
  than 24 bits are natural numbers; the one of the lenient decoder, whose 32 bits wrap, keeps its width.

  An input string is the list of its code points, since \<open>str::trim\<close> works on characters; an encoded string is the list of
  its bytes, all of them ASCII.
\<close>

unbundle bit_operations_syntax


section \<open>Definitions\<close>

definition ALPHABET :: bytes where
  "ALPHABET = map (of_nat \<circ> of_char) ''ABCDEFGHIJKLMNOPQRSTUVWXYZabcdefghijklmnopqrstuvwxyz0123456789+/''"

definition ALPHABET_URL :: bytes where
  "ALPHABET_URL = map (of_nat \<circ> of_char) ''ABCDEFGHIJKLMNOPQRSTUVWXYZabcdefghijklmnopqrstuvwxyz0123456789-_''"

definition QUANTUM_IN :: nat where "QUANTUM_IN = 3"
definition QUANTUM_OUT :: nat where "QUANTUM_OUT = 4"
definition BITS_PER_CHARACTER :: nat where "BITS_PER_CHARACTER = 6"
definition CHARACTER_MASK :: nat where "CHARACTER_MASK = 0x3F"
definition BITS_PER_OCTET :: nat where "BITS_PER_OCTET = 8"
definition PAD :: u8 where "PAD = 0x3D"
definition MAX_PADDING :: nat where "MAX_PADDING = 2"

text \<open>The slices of a given size that \<open>chunks\<close> yields, the last one possibly shorter.\<close>

function chunks :: "nat \<Rightarrow> 'a list \<Rightarrow> 'a list list" where
  "chunks n xs = (if xs = [] \<or> n = 0 then [] else take n xs # chunks n (drop n xs))"
  by pat_completeness auto
termination by (relation "measure (length \<circ> snd)") auto

declare chunks.simps [simp del]

definition packed_octets :: "bytes \<Rightarrow> nat" where
  "packed_octets chunk =
     fold (\<lambda>i packed. push_bit BITS_PER_OCTET packed OR (case get_at chunk i of None \<Rightarrow> 0 | Some b \<Rightarrow> unat b)) [0..<QUANTUM_IN] 0"

definition sextet_at :: "nat \<Rightarrow> nat \<Rightarrow> nat" where
  "sextet_at packed i = drop_bit (BITS_PER_CHARACTER * (QUANTUM_OUT - 1 - i)) packed AND CHARACTER_MASK"

definition encode_chunk :: "bytes \<Rightarrow> bytes" where
  "encode_chunk chunk =
     (let packed = packed_octets chunk
      in map (\<lambda>i. if i \<le> length chunk then ALPHABET ! sextet_at packed i else PAD) [0..<QUANTUM_OUT])"

definition encode :: "bytes \<Rightarrow> bytes" where
  "encode input = concat (map encode_chunk (chunks QUANTUM_IN input))"

definition encode_url_chunk :: "bytes \<Rightarrow> bytes" where
  "encode_url_chunk chunk =
     (let packed = packed_octets chunk; out_chars = (if length chunk = 1 then 2 else if length chunk = 2 then 3 else 4)
      in map (\<lambda>i. ALPHABET_URL ! sextet_at packed i) [0..<out_chars])"

definition encode_url_unpadded :: "bytes \<Rightarrow> bytes" where
  "encode_url_unpadded input = concat (map encode_url_chunk (chunks QUANTUM_IN input))"

datatype Base64Error =
    Base64_length
  | Base64_too_much_padding
  | Base64_padding_not_trailing
  | Base64_trailing_bits
  | Base64_character
  | Base64_url_character

definition sextet_value :: "u8 \<Rightarrow> Base64Error + nat" where
  "sextet_value b =
     (if 0x41 \<le> b \<and> b \<le> 0x5A then Inr (unat (b - 0x41))
      else if 0x61 \<le> b \<and> b \<le> 0x7A then Inr (unat (b - 0x61 + 26))
      else if 0x30 \<le> b \<and> b \<le> 0x39 then Inr (unat (b - 0x30 + 52))
      else if b = 0x2B then Inr 62
      else if b = 0x2F then Inr 63
      else Inl Base64_character)"

fun packed_sextets :: "bytes \<Rightarrow> nat \<Rightarrow> Base64Error + nat" where
  "packed_sextets [] packed = Inr packed"
| "packed_sextets (b # bs) packed =
     bindR (sextet_value b) (\<lambda>sextet. packed_sextets bs (push_bit BITS_PER_CHARACTER packed OR sextet))"

definition decode_quad :: "bytes \<Rightarrow> nat \<Rightarrow> Base64Error + bytes" where
  "decode_quad quad padding =
     (let chars = QUANTUM_OUT - min padding QUANTUM_OUT; missing = QUANTUM_OUT - chars
      in bindR (packed_sextets (take chars quad) 0) (\<lambda>packed.
           if packed AND (2 ^ (2 * missing) - 1) \<noteq> 0 then Inl Base64_trailing_bits
           else
             let packed = push_bit (BITS_PER_CHARACTER * missing) packed; octets = QUANTUM_IN - min missing QUANTUM_IN
             in Inr (map (\<lambda>i. of_nat (drop_bit (BITS_PER_OCTET * (QUANTUM_IN - 1 - i)) packed AND 0xFF)) [0..<octets])))"

fun decode_quads :: "bytes list \<Rightarrow> nat \<Rightarrow> Base64Error + bytes" where
  "decode_quads [] padding = Inr []"
| "decode_quads [last_quad] padding = decode_quad last_quad padding"
| "decode_quads (quad # quads) padding =
     bindR (decode_quad quad 0) (\<lambda>out. bindR (decode_quads quads padding) (\<lambda>rest. Inr (out @ rest)))"

definition decode_bytes :: "bytes \<Rightarrow> Base64Error + bytes" where
  "decode_bytes bs =
     (if bs = [] then Inr []
      else if length bs mod QUANTUM_OUT \<noteq> 0 then Inl Base64_length
      else
        let padding = length (takeWhile (\<lambda>b. b = PAD) (rev bs))
        in if padding > MAX_PADDING then Inl Base64_too_much_padding
           else if PAD \<in> set (take (length bs - padding) bs) then Inl Base64_padding_not_trailing
           else decode_quads (chunks QUANTUM_OUT bs) padding)"

text \<open>White space of Unicode and the octets of a character.\<close>

definition is_whitespace :: "nat \<Rightarrow> bool" where
  "is_whitespace c \<longleftrightarrow>
     (9 \<le> c \<and> c \<le> 13) \<or> c = 0x20 \<or> c = 0x85 \<or> c = 0xA0 \<or> c = 0x1680 \<or> (0x2000 \<le> c \<and> c \<le> 0x200A) \<or> c = 0x2028 \<or> c = 0x2029 \<or>
     c = 0x202F \<or> c = 0x205F \<or> c = 0x3000"

definition trim_str :: "nat list \<Rightarrow> nat list" where
  "trim_str s = rev (dropWhile is_whitespace (rev (dropWhile is_whitespace s)))"

definition utf8_of :: "nat \<Rightarrow> bytes" where
  "utf8_of c =
     (if c < 0x80 then [of_nat c]
      else if c < 0x800 then [of_nat (0xC0 + c div 64), of_nat (0x80 + c mod 64)]
      else if c < 0x10000 then [of_nat (0xE0 + c div 4096), of_nat (0x80 + c div 64 mod 64), of_nat (0x80 + c mod 64)]
      else [of_nat (0xF0 + c div 262144), of_nat (0x80 + c div 4096 mod 64), of_nat (0x80 + c div 64 mod 64), of_nat (0x80 + c mod 64)])"

definition decode :: "nat list \<Rightarrow> Base64Error + bytes" where
  "decode input = decode_bytes (concat (map utf8_of (trim_str input)))"

definition url_sextet :: "u8 \<Rightarrow> Base64Error + nat option" where
  "url_sextet b =
     (if 0x41 \<le> b \<and> b \<le> 0x5A then Inr (Some (unat (b - 0x41)))
      else if 0x61 \<le> b \<and> b \<le> 0x7A then Inr (Some (unat (b - 0x61 + 26)))
      else if 0x30 \<le> b \<and> b \<le> 0x39 then Inr (Some (unat (b - 0x30 + 52)))
      else if b = 0x2D then Inr (Some 62)
      else if b = 0x5F then Inr (Some 63)
      else if b = PAD then Inr None
      else Inl Base64_url_character)"

fun decode_url_from :: "bytes \<Rightarrow> u32 \<Rightarrow> nat \<Rightarrow> Base64Error + bytes" where
  "decode_url_from [] buf bits = Inr []"
| "decode_url_from (b # bs) buf bits =
     bindR (url_sextet b) (\<lambda>v.
       case v of
         None \<Rightarrow> decode_url_from bs buf bits
       | Some v \<Rightarrow>
           let buf = push_bit 6 buf OR of_nat v; bits = bits + 6
           in if bits \<ge> 8 then bindR (decode_url_from bs buf (bits - 8)) (\<lambda>rest. Inr (ucast (drop_bit (bits - 8) buf) # rest))
              else decode_url_from bs buf bits)"

definition decode_url_unpadded :: "bytes \<Rightarrow> Base64Error + bytes" where
  "decode_url_unpadded bs = (if bs = [] then Inr [] else decode_url_from bs 0 0)"

lemmas base64_sizes = QUANTUM_IN_def QUANTUM_OUT_def BITS_PER_CHARACTER_def BITS_PER_OCTET_def CHARACTER_MASK_def


section \<open>Characters and quanta\<close>

lemma length_ALPHABET: "length ALPHABET = 64" "length ALPHABET_URL = 64"
  by (code_simp, code_simp)

lemma sextet_of_alphabet: "v < 64 \<Longrightarrow> sextet_value (ALPHABET ! v) = Inr v"
proof -
  have "list_all (\<lambda>v. sextet_value (ALPHABET ! v) = Inr v) [0..<64]" by code_simp
  then show "v < 64 \<Longrightarrow> ?thesis" by (simp add: list_all_iff)
qed

lemma alphabet_ranges:
  "v < 26 \<Longrightarrow> ALPHABET ! v = 0x41 + of_nat v" "v < 26 \<Longrightarrow> ALPHABET ! (26 + v) = 0x61 + of_nat v"
  "v < 10 \<Longrightarrow> ALPHABET ! (52 + v) = 0x30 + of_nat v" "ALPHABET ! 62 = 0x2B" "ALPHABET ! 63 = 0x2F"
proof -
  have "list_all (\<lambda>v. ALPHABET ! v = 0x41 + of_nat v) [0..<26]" "list_all (\<lambda>v. ALPHABET ! (26 + v) = 0x61 + of_nat v) [0..<26]"
      "list_all (\<lambda>v. ALPHABET ! (52 + v) = 0x30 + of_nat v) [0..<10]" by (code_simp, code_simp, code_simp)
  then show "v < 26 \<Longrightarrow> ALPHABET ! v = 0x41 + of_nat v" "v < 26 \<Longrightarrow> ALPHABET ! (26 + v) = 0x61 + of_nat v"
      "v < 10 \<Longrightarrow> ALPHABET ! (52 + v) = 0x30 + of_nat v" by (simp_all add: list_all_iff)
qed (code_simp, code_simp)

lemma unat_range: "l \<le> b \<Longrightarrow> b \<le> (u :: u8) \<Longrightarrow> unat (b - l) \<le> unat (u - l) \<and> l + of_nat (unat (b - l)) = b"
  by (simp add: word_le_nat_alt unat_sub)

lemma unat_shift: "unat x \<le> 25 \<Longrightarrow> unat (x + 26) = 26 + unat x" "unat x \<le> 9 \<Longrightarrow> unat (x + 52) = 52 + unat (x :: u8)"
  by (simp_all add: unat_word_ariths)

lemma sextet_value_Inr: "sextet_value b = Inr v \<longleftrightarrow> v < 64 \<and> b = ALPHABET ! v"
proof
  assume v: "sextet_value b = Inr v"
  consider (upper) "0x41 \<le> b" "b \<le> 0x5A" "v = unat (b - 0x41)" | (lower) "0x61 \<le> b" "b \<le> 0x7A" "v = unat (b - 0x61 + 26)"
    | (digit) "0x30 \<le> b" "b \<le> 0x39" "v = unat (b - 0x30 + 52)" | (plus) "b = 0x2B" "v = 62" | (slash) "b = 0x2F" "v = 63"
    using v by (auto simp: sextet_value_def split: if_splits)
  then show "v < 64 \<and> b = ALPHABET ! v"
  proof cases
    case upper
    then show ?thesis using unat_range [OF upper(1,2)] by (simp add: alphabet_ranges)
  next
    case lower
    have u: "unat (b - 0x61) \<le> 25" using unat_range [OF lower(1,2)] by simp
    then have "v = 26 + unat (b - 0x61)" unfolding lower(3) by (rule unat_shift(1))
    then show ?thesis using u unat_range [OF lower(1,2)] by (simp add: alphabet_ranges)
  next
    case digit
    have u: "unat (b - 0x30) \<le> 9" using unat_range [OF digit(1,2)] by simp
    then have "v = 52 + unat (b - 0x30)" unfolding digit(3) by (rule unat_shift(2))
    then show ?thesis using u unat_range [OF digit(1,2)] by (simp add: alphabet_ranges)
  qed (simp_all add: alphabet_ranges)
qed (auto intro: sextet_of_alphabet)

lemma PAD_no_sextet: "v < 64 \<Longrightarrow> ALPHABET ! v \<noteq> PAD"
  using sextet_of_alphabet [of v] by (auto simp: sextet_value_def PAD_def)

lemma PAD_apart: "v < 64 \<Longrightarrow> PAD \<noteq> ALPHABET ! v"
  using PAD_no_sextet by metis

lemma push_or_add:
  assumes "b < 2 ^ n"
  shows "push_bit n a OR b = a * 2 ^ n + (b :: nat)"
proof -
  have "take_bit n b = b" using assms by (simp add: take_bit_eq_mod)
  then have "push_bit n a AND b = 0"
    by (metis (no_types) bit_and_iff bit_eqI bit_push_bit_iff bit_take_bit_iff bit_0_eq bot_apply bot_bool_def linorder_not_le)
  then have "push_bit n a OR b = push_bit n a + b" by (simp add: disjunctive_add_eq_or)
  then show ?thesis by (simp add: push_bit_eq_mult)
qed

lemma and_low_bits: "n AND 63 = n mod 64" "n AND 255 = n mod 256" "n AND 15 = n mod 16" "n AND 3 = n mod (4 :: nat)"
  using take_bit_eq_mask [of 6 n] take_bit_eq_mask [of 8 n] take_bit_eq_mask [of 4 n] take_bit_eq_mask [of 2 n]
  by (simp_all add: take_bit_eq_mod mask_eq_exp_minus_1)

lemma drop_bits: "drop_bit 6 n = n div 64" "drop_bit 12 n = n div 64 div 64" "drop_bit 18 n = n div 64 div 64 div 64"
    "drop_bit 8 n = n div 256" "drop_bit 16 n = n div 256 div (256 :: nat)"
  by (simp_all add: drop_bit_eq_div flip: div_mult2_eq)

lemma sextets: "sextet_at p 0 = p div 64 div 64 div 64 mod 64" "sextet_at p 1 = p div 64 div 64 mod 64" "sextet_at p 2 = p div 64 mod 64"
    "sextet_at p 3 = p mod 64"
  by (simp_all add: sextet_at_def base64_sizes drop_bits and_low_bits)

lemma sextet_less: "sextet_at p i < 64"
  by (simp add: sextet_at_def base64_sizes and_low_bits)

lemma packed_octets_eq:
  "packed_octets [a, b, c] = (unat a * 256 + unat b) * 256 + unat c"
  "packed_octets [a, b] = (unat a * 256 + unat b) * 256"
  "packed_octets [a] = unat a * 256 * 256"
  by (simp_all add: packed_octets_def base64_sizes upt_rec get_at_def push_or_nat)

lemma four: "[0..<4] = [0, 1, 2, 3 :: nat]" "[0..<3] = [0, 1, 2 :: nat]" "[0..<2] = [0, 1 :: nat]"
  by (simp_all add: upt_rec numeral_eq_Suc)

lemma encode_chunk_eq:
  "encode_chunk [a, b, c] = map (\<lambda>i. ALPHABET ! sextet_at (packed_octets [a, b, c]) i) [0, 1, 2, 3]"
  "encode_chunk [a, b] = map (\<lambda>i. ALPHABET ! sextet_at (packed_octets [a, b]) i) [0, 1, 2] @ [PAD]"
  "encode_chunk [a] = map (\<lambda>i. ALPHABET ! sextet_at (packed_octets [a]) i) [0, 1] @ [PAD, PAD]"
  by (simp_all add: encode_chunk_def QUANTUM_OUT_def four Let_def)

text \<open>Digits and their value, to the base of a character and of an octet.\<close>

lemma base64_value: "p < 16777216 \<Longrightarrow> ((p div 64 div 64 div 64 mod 64 * 64 + p div 64 div 64 mod 64) * 64 + p div 64 mod 64) * 64 + p mod 64 = (p :: nat)"
proof -
  assume "p < 16777216"
  then have "p div 64 div 64 div 64 < 64" by (simp add: less_mult_imp_div_less)
  then have "p div 64 div 64 div 64 mod 64 = p div 64 div 64 div 64" by simp
  then show ?thesis by (metis div_mult_mod_eq)
qed

lemma base64_digits_value:
  "p < 16777216 \<Longrightarrow> ((sextet_at p 0 * 64 + sextet_at p 1) * 64 + sextet_at p 2) * 64 + sextet_at p 3 = p"
  unfolding sextets by (rule base64_value)

lemma base256_value: "p < 16777216 \<Longrightarrow> (p div 256 div 256 mod 256 * 256 + p div 256 mod 256) * 256 + p mod 256 = (p :: nat)"
proof -
  assume "p < 16777216"
  then have "p div 256 div 256 < 256" by (simp add: less_mult_imp_div_less)
  then have "p div 256 div 256 mod 256 = p div 256 div 256" by simp
  then show ?thesis by (metis div_mult_mod_eq)
qed

lemma horner: "s < 64 \<Longrightarrow> (x * 64 + s) div 64 = x" "s < 64 \<Longrightarrow> (x * 64 + s) mod 64 = s"
    "t < 256 \<Longrightarrow> (x * 256 + t) div 256 = x" "t < 256 \<Longrightarrow> (x * 256 + t) mod 256 = (t :: nat)"
  by simp_all

lemma base64_digits:
  assumes "s0 < 64" "s1 < 64" "s2 < 64" "s3 < (64 :: nat)"
  shows "sextet_at (((s0 * 64 + s1) * 64 + s2) * 64 + s3) 0 = s0" "sextet_at (((s0 * 64 + s1) * 64 + s2) * 64 + s3) 1 = s1"
    "sextet_at (((s0 * 64 + s1) * 64 + s2) * 64 + s3) 2 = s2" "sextet_at (((s0 * 64 + s1) * 64 + s2) * 64 + s3) 3 = s3"
  by (simp_all only: sextets horner assms mod_less)

lemma packed_sextets_append: "packed_sextets (xs @ ys) p = bindR (packed_sextets xs p) (packed_sextets ys)"
  by (induction xs p rule: packed_sextets.induct) (auto simp: bindR_def split: sum.splits)

lemma packed_sextets_Cons:
  "packed_sextets (b # bs) p = Inr q \<longleftrightarrow> (\<exists>v < 64. b = ALPHABET ! v \<and> packed_sextets bs (p * 64 + v) = Inr q)"
  by (auto simp: bindR_eq_Inr sextet_value_Inr base64_sizes push_or_add [of _ 6, simplified])

lemma packed_sextets_alphabet: "v < 64 \<Longrightarrow> packed_sextets (ALPHABET ! v # bs) p = packed_sextets bs (p * 64 + v)"
  by (simp add: sextet_of_alphabet base64_sizes push_or_add [of _ 6, simplified])

text \<open>The octets of a 24-bit number, and what a quantum decodes to.\<close>

definition octet_at :: "nat \<Rightarrow> nat \<Rightarrow> u8" where
  "octet_at p i = of_nat (drop_bit (BITS_PER_OCTET * (QUANTUM_IN - 1 - i)) p AND 0xFF)"

lemma octets: "octet_at p 0 = of_nat (p div 256 div 256 mod 256)" "octet_at p 1 = of_nat (p div 256 mod 256)" "octet_at p 2 = of_nat (p mod 256)"
  by (simp_all add: octet_at_def base64_sizes drop_bits and_low_bits)

lemma unat_octet: "unat (of_nat n :: u8) = n mod 256"
  by (simp add: unat_of_nat)

lemma octets_packed:
  "octet_at ((unat a * 256 + unat b) * 256 + unat c) 0 = a" "octet_at ((unat a * 256 + unat b) * 256 + unat c) 1 = b"
  "octet_at ((unat a * 256 + unat b) * 256 + unat c) 2 = c"
  by (simp_all only: octets horner unat_u8_less mod_less) simp_all

lemma octets_of_packed:
  "octet_at (packed_octets [a, b, c]) 0 = a" "octet_at (packed_octets [a, b, c]) (Suc 0) = b" "octet_at (packed_octets [a, b, c]) 2 = c"
  "octet_at (packed_octets [a, b]) 0 = a" "octet_at (packed_octets [a, b]) (Suc 0) = b" "octet_at (packed_octets [a]) 0 = a"
  using octets_packed [of a b c] octets_packed [of a b 0] octets_packed [of a 0 0] by (simp_all add: packed_octets_eq)

lemma packed_of_octets:
  assumes "p < 16777216"
  shows "packed_octets [octet_at p 0, octet_at p 1, octet_at p 2] = p"
    "p mod 256 = 0 \<Longrightarrow> packed_octets [octet_at p 0, octet_at p 1] = p"
    "p mod 256 = 0 \<Longrightarrow> p div 256 mod 256 = 0 \<Longrightarrow> packed_octets [octet_at p 0] = p"
proof -
  have u: "unat (octet_at p 0) = p div 256 div 256 mod 256" "unat (octet_at p 1) = p div 256 mod 256" "unat (octet_at p 2) = p mod 256"
    by (simp_all only: octets unat_octet mod_mod_trivial)
  show "packed_octets [octet_at p 0, octet_at p 1, octet_at p 2] = p"
    unfolding packed_octets_eq u by (rule base256_value [OF assms])
  show "packed_octets [octet_at p 0, octet_at p 1] = p" if "p mod 256 = 0"
    unfolding packed_octets_eq u using base256_value [OF assms] by (simp only: that add_0_right)
  show "packed_octets [octet_at p 0] = p" if "p mod 256 = 0" "p div 256 mod 256 = 0"
    unfolding packed_octets_eq u using base256_value [OF assms] by (simp only: that add_0_right)
qed

lemma decode_quad_eq:
  "decode_quad quad 0 = bindR (packed_sextets (take 4 quad) 0) (\<lambda>p. Inr [octet_at p 0, octet_at p 1, octet_at p 2])"
  "decode_quad quad 1 = bindR (packed_sextets (take 3 quad) 0) (\<lambda>q. if q mod 4 \<noteq> 0 then Inl Base64_trailing_bits else Inr [octet_at (q * 64) 0, octet_at (q * 64) 1])"
  "decode_quad quad 2 = bindR (packed_sextets (take 2 quad) 0) (\<lambda>q. if q mod 16 \<noteq> 0 then Inl Base64_trailing_bits else Inr [octet_at (q * 64 * 64) 0])"
  by (simp_all add: decode_quad_def Let_def four octet_at_def base64_sizes and_low_bits push_bit_eq_mult mult.commute cong: if_cong)

lemma packed_bound: "packed_octets [a, b, c] < 16777216"
proof -
  have "unat a \<le> 255" "unat b \<le> 255" "unat c \<le> 255" using unat_u8_less [of a] unat_u8_less [of b] unat_u8_less [of c] by linarith+
  then show ?thesis unfolding packed_octets_eq by simp
qed

lemma sextets_bound: "s0 < 64 \<Longrightarrow> s1 < 64 \<Longrightarrow> s2 < 64 \<Longrightarrow> s3 < 64 \<Longrightarrow> ((s0 * 64 + s1) * 64 + s2) * 64 + s3 < (16777216 :: nat)"
proof -
  assume "s0 < 64" "s1 < 64" "s2 < 64" "s3 < 64"
  then have "s0 \<le> 63" "s1 \<le> 63" "s2 \<le> 63" "s3 \<le> 63" by simp_all
  then show ?thesis by simp
qed

lemma decode_full_quad:
  "decode_quad [c0, c1, c2, c3] 0 = Inr out \<longleftrightarrow> (\<exists>a b c. out = [a, b, c] \<and> [c0, c1, c2, c3] = encode_chunk [a, b, c])"
proof
  assume "decode_quad [c0, c1, c2, c3] 0 = Inr out"
  then obtain s0 s1 s2 s3 where s: "s0 < 64" "s1 < 64" "s2 < 64" "s3 < 64" "[c0, c1, c2, c3] = map ((!) ALPHABET) [s0, s1, s2, s3]"
      and out: "out = map (octet_at (((s0 * 64 + s1) * 64 + s2) * 64 + s3)) [0, 1, 2]"
    by (auto simp: decode_quad_eq bindR_eq_Inr packed_sextets_Cons simp del: packed_sextets.simps(2))
  let ?p = "((s0 * 64 + s1) * 64 + s2) * 64 + s3"
  have "?p < 16777216" using s(1-4) by (rule sextets_bound)
  from packed_of_octets(1) [OF this] have "[c0, c1, c2, c3] = encode_chunk out"
    unfolding out using s base64_digits [OF s(1-4)] by (simp add: encode_chunk_eq)
  with out show "\<exists>a b c. out = [a, b, c] \<and> [c0, c1, c2, c3] = encode_chunk [a, b, c]" by simp
next
  assume "\<exists>a b c. out = [a, b, c] \<and> [c0, c1, c2, c3] = encode_chunk [a, b, c]"
  then obtain a b c where out: "out = [a, b, c]" and cs: "[c0, c1, c2, c3] = encode_chunk [a, b, c]" by blast
  let ?p = "packed_octets [a, b, c]"
  have "packed_sextets [c0, c1, c2, c3] 0 = Inr (((sextet_at ?p 0 * 64 + sextet_at ?p 1) * 64 + sextet_at ?p 2) * 64 + sextet_at ?p 3)"
    unfolding cs encode_chunk_eq by (simp add: packed_sextets_alphabet sextet_less del: packed_sextets.simps(2))
  then have "packed_sextets [c0, c1, c2, c3] 0 = Inr ?p" by (simp only: base64_digits_value [OF packed_bound])
  then show "decode_quad [c0, c1, c2, c3] 0 = Inr out"
    unfolding out by (simp add: decode_quad_eq octets_of_packed del: packed_sextets.simps(2))
qed

lemma short_chunks:
  "packed_octets [a, b] = packed_octets [a, b, 0]" "packed_octets [a] = packed_octets [a, 0, 0]"
  by (simp_all add: packed_octets_eq)

lemma packed_mod: "packed_octets [a, b] mod 256 = 0" "packed_octets [a] mod 256 = 0" "packed_octets [a] div 256 mod 256 = 0"
  by (simp_all add: packed_octets_eq)

lemma decode_quad_one_pad:
  "decode_quad [c0, c1, c2, x] 1 = Inr out \<longleftrightarrow> (\<exists>a b. out = [a, b] \<and> [c0, c1, c2, PAD] = encode_chunk [a, b])"
proof
  assume "decode_quad [c0, c1, c2, x] 1 = Inr out"
  then obtain s0 s1 s2 where s: "s0 < 64" "s1 < 64" "s2 < 64" "[c0, c1, c2] = map ((!) ALPHABET) [s0, s1, s2]"
      and m: "((s0 * 64 + s1) * 64 + s2) mod 4 = 0" and out: "out = map (octet_at (((s0 * 64 + s1) * 64 + s2) * 64)) [0, 1]"
    unfolding decode_quad_eq
    by (auto simp: bindR_eq_Inr packed_sextets_Cons simp del: packed_sextets.simps(2) split: if_splits)
  let ?p = "((s0 * 64 + s1) * 64 + s2) * 64"
  have "?p < 16777216" using sextets_bound [OF s(1-3), of 0] by simp
  moreover have "?p mod 256 = 0" using m mult_mod_right [of 64 "(s0 * 64 + s1) * 64 + s2" 4] by (simp add: mult.commute)
  ultimately have "packed_octets out = ?p" unfolding out using packed_of_octets(2) by simp
  then have "[c0, c1, c2, PAD] = encode_chunk out"
    using s out base64_digits [OF s(1-3), of 0] by (simp add: encode_chunk_eq)
  with out show "\<exists>a b. out = [a, b] \<and> [c0, c1, c2, PAD] = encode_chunk [a, b]" by simp
next
  assume "\<exists>a b. out = [a, b] \<and> [c0, c1, c2, PAD] = encode_chunk [a, b]"
  then obtain a b where out: "out = [a, b]" and cs: "[c0, c1, c2] = map (\<lambda>i. ALPHABET ! sextet_at (packed_octets [a, b]) i) [0, 1, 2]"
    by (auto simp: encode_chunk_eq)
  let ?p = "packed_octets [a, b]" let ?q = "(sextet_at ?p 0 * 64 + sextet_at ?p 1) * 64 + sextet_at ?p 2"
  have q: "packed_sextets [c0, c1, c2] 0 = Inr ?q"
    unfolding cs by (simp add: packed_sextets_alphabet sextet_less del: packed_sextets.simps(2))
  have "?p mod 64 = 0" using packed_mod(1) [of a b] by presburger
  then have p: "?q * 64 = ?p" using base64_digits_value [of ?p] packed_bound [of a b 0] by (simp add: short_chunks sextets(4))
  then have "?q mod 4 = 0" using packed_mod(1) [of a b] by presburger
  with q p show "decode_quad [c0, c1, c2, x] 1 = Inr out"
    unfolding out decode_quad_eq by (simp add: octets_of_packed del: packed_sextets.simps(2))
qed

lemma decode_quad_two_pad:
  "decode_quad [c0, c1, x, y] 2 = Inr out \<longleftrightarrow> (\<exists>a. out = [a] \<and> [c0, c1, PAD, PAD] = encode_chunk [a])"
proof
  assume "decode_quad [c0, c1, x, y] 2 = Inr out"
  then obtain s0 s1 where s: "s0 < 64" "s1 < 64" "[c0, c1] = map ((!) ALPHABET) [s0, s1]"
      and m: "(s0 * 64 + s1) mod 16 = 0" and out: "out = [octet_at ((s0 * 64 + s1) * 64 * 64) 0]"
    unfolding decode_quad_eq
    by (auto simp: bindR_eq_Inr packed_sextets_Cons simp del: packed_sextets.simps(2) split: if_splits)
  let ?p = "(s0 * 64 + s1) * 64 * 64"
  have "?p < 16777216" using sextets_bound [OF s(1,2), of 0 0] by simp
  moreover obtain k where k: "s0 * 64 + s1 = 16 * k" using m by (metis mod_0_imp_dvd dvdE)
  have "?p mod 256 = 0" "?p div 256 mod 256 = 0" unfolding k by simp_all
  ultimately have "packed_octets out = ?p" unfolding out using packed_of_octets(3) by simp
  then have "[c0, c1, PAD, PAD] = encode_chunk out"
    using s out base64_digits [OF s(1,2), of 0 0] by (simp add: encode_chunk_eq)
  with out show "\<exists>a. out = [a] \<and> [c0, c1, PAD, PAD] = encode_chunk [a]" by simp
next
  assume "\<exists>a. out = [a] \<and> [c0, c1, PAD, PAD] = encode_chunk [a]"
  then obtain a where out: "out = [a]" and cs: "[c0, c1] = map (\<lambda>i. ALPHABET ! sextet_at (packed_octets [a]) i) [0, 1]"
    by (auto simp: encode_chunk_eq)
  let ?p = "packed_octets [a]" let ?q = "sextet_at ?p 0 * 64 + sextet_at ?p 1"
  have q: "packed_sextets [c0, c1] 0 = Inr ?q"
    unfolding cs by (simp add: packed_sextets_alphabet sextet_less del: packed_sextets.simps(2))
  have "?p mod 64 = 0" "?p div 64 mod 64 = 0" by (simp_all add: packed_octets_eq)
  then have p: "?q * 64 * 64 = ?p" using base64_digits_value [of ?p] packed_bound [of a 0 0] by (simp add: short_chunks sextets(3,4))
  then have "?q = unat a * 16" by (simp add: packed_octets_eq)
  then have "?q mod 16 = 0" by simp
  with q p show "decode_quad [c0, c1, x, y] 2 = Inr out"
    unfolding out decode_quad_eq by (simp add: octets_of_packed del: packed_sextets.simps(2))
qed


section \<open>The strict decoder\<close>

lemma quantum_induct [case_names Nil one two more]:
  assumes "P []" "\<And>a. P [a]" "\<And>a b. P [a, b]" "\<And>a b c xs. P xs \<Longrightarrow> P (a # b # c # xs)"
  shows "P xs"
proof (induction xs rule: length_induct)
  case (1 xs)
  consider "xs = []" | a where "xs = [a]" | a b where "xs = [a, b]" | a b c ys where "xs = a # b # c # ys"
    by (metis neq_Nil_conv)
  then show ?case using assms 1 by cases auto
qed

lemma chunks_simps [simp]:
  "chunks n [] = []" "chunks 3 [a] = [[a]]" "chunks 3 [a, b] = [[a, b]]" "chunks 3 (a # b # c # xs) = [a, b, c] # chunks 3 xs"
  "chunks 4 (p # q # r # s # ys) = [p, q, r, s] # chunks 4 ys"
  by (subst chunks.simps, simp)+

lemma encode_simps [simp]:
  "encode [] = []" "encode [a] = encode_chunk [a]" "encode [a, b] = encode_chunk [a, b]"
  "encode (a # b # c # xs) = encode_chunk [a, b, c] @ encode xs"
  by (simp_all add: encode_def QUANTUM_IN_def)

definition padding_of :: "bytes \<Rightarrow> nat" where
  "padding_of xs = (3 - length xs mod 3) mod 3"

lemma encode_shape: "\<exists>body. encode xs = body @ replicate (padding_of xs) PAD \<and> PAD \<notin> set body"
proof (induction xs rule: quantum_induct)
  case (more a b c xs)
  then obtain body where "encode xs = body @ replicate (padding_of xs) PAD" "PAD \<notin> set body" by blast
  moreover have "padding_of (a # b # c # xs) = padding_of xs" by (simp add: padding_of_def mod_Suc)
  ultimately show ?case
    using PAD_apart [OF sextet_less, of "packed_octets [a, b, c]"]
    by (intro exI [of _ "encode_chunk [a, b, c] @ body"]) (auto simp: encode_chunk_eq)
next
  case (one a)
  show ?case using PAD_apart [OF sextet_less, of "packed_octets [a]"]
    by (intro exI [of _ "map (\<lambda>i. ALPHABET ! sextet_at (packed_octets [a]) i) [0, 1]"]) (auto simp: encode_chunk_eq padding_of_def numeral_2_eq_2)
next
  case (two a b)
  show ?case using PAD_apart [OF sextet_less, of "packed_octets [a, b]"]
    by (intro exI [of _ "map (\<lambda>i. ALPHABET ! sextet_at (packed_octets [a, b]) i) [0, 1, 2]"]) (auto simp: encode_chunk_eq padding_of_def)
qed (simp add: padding_of_def)

lemma takeWhile_pads: "PAD \<notin> set body \<Longrightarrow> takeWhile (\<lambda>b. b = PAD) (rev (body @ replicate n PAD)) = replicate n PAD"
  by (cases body rule: rev_cases) (auto simp: takeWhile_append takeWhile_replicate)

lemma decode_quads_encode: "xs \<noteq> [] \<Longrightarrow> decode_quads (chunks 4 (encode xs)) (padding_of xs) = Inr xs"
proof (induction xs rule: quantum_induct)
  case (one a)
  then show ?case using decode_quad_two_pad [of _ _ PAD PAD "[a]"] by (simp add: encode_chunk_eq padding_of_def)
next
  case (two a b)
  then show ?case using decode_quad_one_pad [of _ _ _ PAD "[a, b]"] by (simp add: encode_chunk_eq padding_of_def)
next
  case (more a b c xs)
  obtain q0 q1 q2 q3 where q: "encode_chunk [a, b, c] = [q0, q1, q2, q3]" by (simp add: encode_chunk_eq)
  then have d: "decode_quad [q0, q1, q2, q3] 0 = Inr [a, b, c]" by (simp add: decode_full_quad)
  have p: "padding_of (a # b # c # xs) = padding_of xs" by (simp add: padding_of_def mod_Suc)
  show ?case
  proof (cases "xs = []")
    case True
    then show ?thesis using q d by (simp add: padding_of_def)
  next
    case False
    then have "chunks 4 (encode xs) \<noteq> []" using more.IH by auto
    then show ?thesis using more.IH [OF False] q d p by (cases "chunks 4 (encode xs)") auto
  qed
qed simp

lemma length_encode: "length (encode xs) mod 4 = 0"
  by (induction xs rule: quantum_induct) (simp_all add: encode_chunk_eq)

lemma encode_Nil: "encode xs = [] \<longleftrightarrow> xs = []"
  by (induction xs rule: quantum_induct) (simp_all add: encode_chunk_eq)

lemma decode_encode: "decode_bytes (encode xs) = Inr xs"
proof (cases "xs = []")
  case False
  obtain body where body: "encode xs = body @ replicate (padding_of xs) PAD" "PAD \<notin> set body" using encode_shape by blast
  have "encode xs \<noteq> []" using False by (simp add: encode_Nil)
  moreover have "padding_of xs \<le> 2" unfolding padding_of_def by linarith
  ultimately show ?thesis
    using decode_quads_encode [OF False] length_encode [of xs] body takeWhile_pads [OF body(2), of "padding_of xs"]
    by (auto simp: decode_bytes_def base64_sizes MAX_PADDING_def Let_def)
qed (simp add: decode_bytes_def)

text \<open>A list of quanta decodes only if it is the encoding of the result.\<close>

lemma decode_quads_sound:
  assumes "\<forall>q \<in> set qs. length q = 4" "qs \<noteq> []" "p \<le> 2" "drop (4 - p) (last qs) = replicate p PAD" "decode_quads qs p = Inr xs"
  shows "concat qs = encode xs"
  using assms
proof (induction qs p arbitrary: xs rule: decode_quads.induct)
  case (2 q p)
  then obtain c0 c1 c2 c3 where q: "q = [c0, c1, c2, c3]" by (auto simp: length_Suc_conv numeral_eq_Suc)
  consider "p = 0" | "p = 1" | "p = 2" using 2(3) by linarith
  then show ?case using 2(4,5) unfolding q
    by cases (auto simp: decode_full_quad decode_quad_one_pad [unfolded One_nat_def] decode_quad_two_pad [unfolded numeral_2_eq_2] numeral_2_eq_2)
next
  case (3 q q' qs p)
  then obtain c0 c1 c2 c3 where q: "q = [c0, c1, c2, c3]" by (auto simp: length_Suc_conv numeral_eq_Suc)
  from 3(6) obtain out rest where d: "decode_quad q 0 = Inr out" "decode_quads (q' # qs) p = Inr rest" "xs = out @ rest"
    by (auto simp: bindR_eq_Inr)
  from d(1) obtain a b c where "out = [a, b, c]" "q = encode_chunk [a, b, c]" unfolding q decode_full_quad by blast
  moreover have "concat (q' # qs) = encode rest" using 3 d(1,2) by auto
  ultimately show ?case using d(3) by simp
qed simp

lemma four_induct [consumes 1, case_names Nil more]:
  assumes "length bs mod 4 = 0" "P []" "\<And>p q r s xs. length xs mod 4 = 0 \<Longrightarrow> P xs \<Longrightarrow> P (p # q # r # s # xs)"
  shows "P bs"
  using assms(1)
proof (induction bs rule: length_induct)
  case (1 bs)
  show ?case
  proof (cases "bs = []")
    case False
    then have "4 \<le> length bs" using 1(2) by (metis length_0_conv mod_less not_less)
    then obtain p q r s xs where "bs = p # q # r # s # xs" by (auto simp: Suc_le_length_iff numeral_eq_Suc)
    then show ?thesis using 1 assms(3) by simp
  qed (simp add: assms(2))
qed

lemma chunks_four:
  assumes "length bs mod 4 = 0"
  shows "concat (chunks 4 bs) = bs \<and> (\<forall>q \<in> set (chunks 4 bs). length q = 4) \<and>
     (bs \<noteq> [] \<longrightarrow> chunks 4 bs \<noteq> [] \<and> last (chunks 4 bs) = drop (length bs - 4) bs)"
  using assms
proof (induction bs rule: four_induct)
  case (more p q r s xs)
  show ?case
  proof (cases "xs = []")
    case False
    then have "4 \<le> length xs" using more(1) by (metis length_0_conv mod_less not_less)
    then have "drop (length (p # q # r # s # xs) - 4) (p # q # r # s # xs) = drop (length xs - 4) xs"
      using drop_drop [of "length xs - 4" 4 "p # q # r # s # xs"] by simp
    then show ?thesis using more(2) False unfolding chunks_simps(5) by simp
  qed simp
qed simp

lemma trailing_pads: "drop (length bs - length (takeWhile (\<lambda>b. b = PAD) (rev bs))) bs = replicate (length (takeWhile (\<lambda>b. b = PAD) (rev bs))) PAD"
proof -
  let ?n = "length (takeWhile (\<lambda>b. b = PAD) (rev bs))"
  have "take ?n (rev bs) = replicate ?n PAD"
    unfolding takeWhile_eq_take [symmetric] by (intro replicate_length_same [symmetric]) (auto dest: set_takeWhileD)
  then have "rev (take ?n (rev bs)) = replicate ?n PAD" by simp
  then show ?thesis by (simp add: rev_take)
qed

lemma decode_sound:
  assumes "decode_bytes bs = Inr xs"
  shows "bs = encode xs"
proof (cases "bs = []")
  case False
  let ?p = "length (takeWhile (\<lambda>b. b = PAD) (rev bs))"
  from assms False have a: "length bs mod 4 = 0" "?p \<le> 2" "decode_quads (chunks 4 bs) ?p = Inr xs"
    by (auto simp: decode_bytes_def base64_sizes MAX_PADDING_def Let_def split: if_splits)
  have "4 \<le> length bs" using a(1) False by (cases "length bs < 4") auto
  then have "drop (4 - ?p) (last (chunks 4 bs)) = replicate ?p PAD"
    using chunks_four [OF a(1)] False trailing_pads [of bs] a(2) by (simp add: add.commute)
  then have "concat (chunks 4 bs) = encode xs"
    using chunks_four [OF a(1)] False a by (intro decode_quads_sound [of _ ?p]) auto
  then show ?thesis using chunks_four [OF a(1)] by simp
qed (use assms in \<open>simp add: decode_bytes_def\<close>)

text \<open>
  (C40) The strict decoder is the exact inverse of the encoder: a text decodes to octets if and only if, without the white space
  around it, it is their encoding. No two texts that differ in more than surrounding white space decode to the same octets.
\<close>

theorem base64_decode_iff_encode:
  "decode input = Inr xs \<longleftrightarrow> concat (map utf8_of (trim_str input)) = encode xs"
  unfolding decode_def using decode_sound decode_encode by metis


section \<open>The lenient decoder of addresses\<close>

lemma url_sextet_of_alphabet: "v < 64 \<Longrightarrow> url_sextet (ALPHABET_URL ! v) = Inr (Some v)"
proof -
  have "list_all (\<lambda>v. url_sextet (ALPHABET_URL ! v) = Inr (Some v)) [0..<64]" by code_simp
  then show "v < 64 \<Longrightarrow> ?thesis" by (simp add: list_all_iff)
qed

text \<open>The two characters last read are the low twelve bits of the accumulator, whatever has been shifted out.\<close>

definition shift_in :: "u32 \<Rightarrow> nat \<Rightarrow> u32" where
  "shift_in buf v = push_bit 6 buf OR of_nat v"

lemma unat_shift_in: "v < 64 \<Longrightarrow> unat (shift_in buf v) = (unat buf * 64 + v) mod 4294967296"
proof -
  assume v: "v < 64"
  then have "unat (of_nat v :: u32) = v" by (simp add: unat_of_nat)
  then have "unat (shift_in buf v) = take_bit 32 (push_bit 6 (unat buf)) OR v"
    by (simp add: shift_in_def unsigned_or_eq unsigned_push_bit_eq)
  also have "\<dots> = take_bit 32 (push_bit 6 (unat buf) OR v)"
    using v take_bit_nat_eq_self [of v 32] by (simp only: take_bit_or) simp
  also have "\<dots> = (unat buf * 64 + v) mod 4294967296" using push_or_add [of v 6 "unat buf"] v by (simp add: take_bit_eq_mod)
  finally show ?thesis .
qed

lemma two_shifted_in:
  assumes "u < 64" "v < 64"
  shows "unat (shift_in (shift_in buf u) v) mod 4096 = u * 64 + v"
proof -
  let ?z = "(unat buf * 64 + u) mod 4294967296"
  have "?z mod 64 = (unat buf * 64 + u) mod 64" by (rule mod_mod_cancel) simp
  then have "?z mod 64 = u" using assms(1) by simp
  then obtain q where q: "?z = q * 64 + u" by (metis div_mult_mod_eq)
  have "unat (shift_in (shift_in buf u) v) mod 4096 = (?z * 64 + v) mod 4294967296 mod 4096"
    by (simp only: unat_shift_in assms)
  also have "\<dots> = (?z * 64 + v) mod 4096" by (rule mod_mod_cancel) simp
  also have "\<dots> = (q * 4096 + (u * 64 + v)) mod 4096" unfolding q by (simp add: algebra_simps)
  also have "\<dots> = u * 64 + v" using assms by simp
  finally show ?thesis .
qed

lemma unat_low_octet: "unat (ucast (drop_bit k (w :: u32)) :: u8) = unat w div 2 ^ k mod 256"
proof -
  have "unat w < 2 ^ LENGTH(32)" by (rule unsigned_less)
  then have "unat w mod 4294967296 = unat w" by simp
  then show ?thesis unfolding unsigned_ucast_eq unsigned_drop_bit_eq by (simp add: take_bit_eq_mod drop_bit_eq_div)
qed

lemma low_twelve: "n div 16 mod 256 = n mod 4096 div 16" "n div 4 mod 256 = n mod 4096 div 4 mod 256" "n mod 256 = n mod 4096 mod (256 :: nat)"
proof -
  show "n div 16 mod 256 = n mod 4096 div 16" using mod_mult2_eq [of n 16 256] by simp
  have "n mod 4096 div 4 = n div 4 mod 1024" using mod_mult2_eq [of n 4 1024] by simp
  then show "n div 4 mod 256 = n mod 4096 div 4 mod 256" using mod_mod_cancel [of 256 1024 "n div 4"] by simp
  show "n mod 256 = n mod 4096 mod 256" by (rule mod_mod_cancel [symmetric]) simp
qed

lemma shifted_octet:
  assumes "u < 64" "v < 64"
  shows "ucast (drop_bit 4 (shift_in (shift_in buf u) v)) = (of_nat ((u * 64 + v) div 16) :: u8)"
    "ucast (drop_bit 2 (shift_in (shift_in buf u) v)) = (of_nat ((u * 64 + v) div 4 mod 256) :: u8)"
    "ucast (drop_bit 0 (shift_in (shift_in buf u) v)) = (of_nat ((u * 64 + v) mod 256) :: u8)"
proof -
  let ?w = "shift_in (shift_in buf u) v"
  have "unat ?w div 2 ^ 4 mod 256 = (u * 64 + v) div 16" using low_twelve(1) [of "unat ?w"] two_shifted_in [OF assms] by simp
  moreover have "(u * 64 + v) div 16 < 256" using assms by simp
  ultimately show "ucast (drop_bit 4 ?w) = (of_nat ((u * 64 + v) div 16) :: u8)"
    unfolding word_unat_eq_iff unat_low_octet unat_octet by simp
  have "unat ?w div 2 ^ 2 mod 256 = (u * 64 + v) div 4 mod 256" using low_twelve(2) [of "unat ?w"] two_shifted_in [OF assms] by simp
  then show "ucast (drop_bit 2 ?w) = (of_nat ((u * 64 + v) div 4 mod 256) :: u8)"
    unfolding word_unat_eq_iff unat_low_octet unat_octet by simp
  have "unat ?w div 2 ^ 0 mod 256 = (u * 64 + v) mod 256" using low_twelve(3) [of "unat ?w"] two_shifted_in [OF assms] by simp
  then show "ucast (drop_bit 0 ?w) = (of_nat ((u * 64 + v) mod 256) :: u8)"
    unfolding word_unat_eq_iff unat_low_octet unat_octet by simp
qed

lemma octets_of_sextets:
  assumes "s0 < 64" "s1 < 64" "s2 < 64" "s3 < (64 :: nat)"
  shows "(((s0 * 64 + s1) * 64 + s2) * 64 + s3) div 256 div 256 = (s0 * 64 + s1) div 16"
    "(((s0 * 64 + s1) * 64 + s2) * 64 + s3) div 256 mod 256 = (s1 * 64 + s2) div 4 mod 256"
    "(((s0 * 64 + s1) * 64 + s2) * 64 + s3) mod 256 = (s2 * 64 + s3) mod 256"
proof -
  let ?p = "((s0 * 64 + s1) * 64 + s2) * 64 + s3"
  have "?p div 256 div 256 = ?p div 64 div 64 div 16" by (simp flip: div_mult2_eq)
  then show "?p div 256 div 256 = (s0 * 64 + s1) div 16" by (simp only: horner assms)
  have "?p div 256 = ?p div 64 div 4" by (simp flip: div_mult2_eq)
  also have "\<dots> = ((s0 * 64 + s1) * 64 + s2) div 4" by (simp only: horner assms)
  also have "\<dots> = (s1 * 64 + s2 + s0 * 1024 * 4) div 4" by (simp add: algebra_simps)
  also have "\<dots> = (s1 * 64 + s2) div 4 + s0 * 4 * 256" by (subst div_mult_self1) simp_all
  finally show "?p div 256 mod 256 = (s1 * 64 + s2) div 4 mod 256" by (simp only: mod_mult_self1)
  have "?p = s2 * 64 + s3 + (s0 * 64 + s1) * 16 * 256" by simp
  then show "?p mod 256 = (s2 * 64 + s3) mod 256" by (simp only: mod_mult_self1)
qed

lemma shifted_packed:
  assumes "p < 16777216"
  shows "ucast (drop_bit 4 (shift_in (shift_in buf (sextet_at p 0)) (sextet_at p 1))) = octet_at p 0"
    "ucast (drop_bit 2 (shift_in (shift_in buf (sextet_at p 1)) (sextet_at p 2))) = octet_at p 1"
    "ucast (drop_bit 0 (shift_in (shift_in buf (sextet_at p 2)) (sextet_at p 3))) = octet_at p 2"
proof -
  note * = octets_of_sextets [OF sextet_less sextet_less sextet_less sextet_less, of p 0 p 1 p 2 p 3,
      unfolded base64_digits_value [OF assms]]
  have "p div 256 div 256 < 256" using assms by (simp add: less_mult_imp_div_less)
  then have "p div 256 div 256 mod 256 = p div 256 div 256" by simp
  then show "ucast (drop_bit 4 (shift_in (shift_in buf (sextet_at p 0)) (sextet_at p 1))) = octet_at p 0"
    unfolding octets by (simp only: * shifted_octet sextet_less)
qed (simp_all only: octets octets_of_sextets [OF sextet_less sextet_less sextet_less sextet_less, of p 0 p 1 p 2 p 3,
      unfolded base64_digits_value [OF assms]] shifted_octet sextet_less)

lemma decode_url_Cons:
  "v < 64 \<Longrightarrow> decode_url_from (ALPHABET_URL ! v # bs) buf 0 = decode_url_from bs (shift_in buf v) 6"
  "v < 64 \<Longrightarrow> decode_url_from (ALPHABET_URL ! v # bs) buf 6 =
     bindR (decode_url_from bs (shift_in buf v) 4) (\<lambda>rest. Inr (ucast (drop_bit 4 (shift_in buf v)) # rest))"
  "v < 64 \<Longrightarrow> decode_url_from (ALPHABET_URL ! v # bs) buf 4 =
     bindR (decode_url_from bs (shift_in buf v) 2) (\<lambda>rest. Inr (ucast (drop_bit 2 (shift_in buf v)) # rest))"
  "v < 64 \<Longrightarrow> decode_url_from (ALPHABET_URL ! v # bs) buf 2 =
     bindR (decode_url_from bs (shift_in buf v) 0) (\<lambda>rest. Inr (ucast (drop_bit 0 (shift_in buf v)) # rest))"
  by (simp_all add: url_sextet_of_alphabet shift_in_def Let_def)

lemma encode_url_simps [simp]:
  "encode_url_unpadded [] = []"
  "encode_url_unpadded [a] = map (\<lambda>i. ALPHABET_URL ! sextet_at (packed_octets [a]) i) [0, 1]"
  "encode_url_unpadded [a, b] = map (\<lambda>i. ALPHABET_URL ! sextet_at (packed_octets [a, b]) i) [0, 1, 2]"
  "encode_url_unpadded (a # b # c # xs) = map (\<lambda>i. ALPHABET_URL ! sextet_at (packed_octets [a, b, c]) i) [0, 1, 2, 3] @ encode_url_unpadded xs"
  by (simp_all add: encode_url_unpadded_def encode_url_chunk_def QUANTUM_IN_def Let_def four)

lemma decode_url_encode: "decode_url_from (encode_url_unpadded xs) buf 0 = Inr xs"
proof (induction xs arbitrary: buf rule: quantum_induct)
  case (one a)
  show ?case using shifted_packed(1) [OF packed_bound, of buf a 0 0]
    by (simp add: decode_url_Cons sextet_less octets_of_packed del: decode_url_from.simps(2) flip: short_chunks(2))
next
  case (two a b)
  show ?case using shifted_packed(1,2) [OF packed_bound, of _ a b 0]
    by (simp add: decode_url_Cons sextet_less octets_of_packed del: decode_url_from.simps(2) flip: short_chunks(1))
next
  case (more a b c xs)
  then show ?case using shifted_packed [OF packed_bound, of _ a b c]
    by (simp add: decode_url_Cons sextet_less octets_of_packed del: decode_url_from.simps(2))
qed simp

text \<open>
  What is encoded for an address decodes to the same octets.
\<close>

theorem base64_url_roundtrip: "decode_url_unpadded (encode_url_unpadded xs) = Inr xs"
  using decode_url_encode [of xs 0] by (auto simp: decode_url_unpadded_def)

lemma decode_url_skips: "decode_url_from (filter (\<lambda>b. b \<noteq> PAD) bs) buf bits = decode_url_from bs buf bits"
  by (induction bs buf bits rule: decode_url_from.induct)
    (auto simp: url_sextet_def PAD_def Let_def bindR_def split: sum.splits option.splits)

text \<open>
  The decoder of addresses passes over the padding character wherever it stands, and says nothing of the bits a text leaves
  over, so that texts no encoder writes decode too.
\<close>

theorem base64_url_lenient:
  "decode_url_unpadded (filter (\<lambda>b. b \<noteq> PAD) bs) = decode_url_unpadded bs \<and>
   decode_url_unpadded (map (of_nat \<circ> of_char) ''Z=h'') = decode_url_unpadded (map (of_nat \<circ> of_char) ''Zg'')"
proof -
  have "decode_url_unpadded (map (of_nat \<circ> of_char) ''Z=h'') = decode_url_unpadded (map (of_nat \<circ> of_char) ''Zg'')" by code_simp
  then show ?thesis using decode_url_skips [of bs 0 0] by (auto simp: decode_url_unpadded_def)
qed

end
