(* ===== verification/Spec2Isabelle.thy ===== *)
theory Spec2Isabelle
  imports Secure_Messaging Pin_Flows Pin_Cache Sign_Ops Agent_Wire Pkcs11_Api Rapp_Vault Long_Term Fineid_Card Base64
begin

text \<open>
  A verification library for RefineID for Windows.

  \<^bold>\<open>The program.\<close> RefineID lets a Windows computer use the Finnish identity card: it authenticates and signs with
  the card in a reader, or with a card behind a paired phone. The sources are Rust crates below \<open>src/crates\<close>.
  \<open>refineid-lib-core\<close> speaks to the card: APDUs, BER, PACE and secure messaging, PKCS#15 files, PINs, signatures.
  \<open>refineid-lib-pcsc\<close> is its transport over PC/SC. \<open>refineid-card-manager-core\<close> composes the PIN operations
  into the flows of the user interface. \<open>refineid-pkcs11\<close> offers the card to browsers, and \<open>refineid-minidriver\<close> to
  Windows. \<open>refineid-agent\<close>, reached over the pipe of \<open>refineid-agent-pipe\<close>, and the \<open>refineid-rapp\<close> crates
  reach the phone; \<open>refineid-doc-sign\<close> signs documents.

  What is at stake is the retry counter of the card: a wrong PIN spends a try and the last one locks the card. The
  development therefore follows the path from the octets of one command up to the calls of a PKCS#11 application,
  and asks at every level which commands can reach the card, in which order, and after which answers of the card.

  \<^bold>\<open>How code is modelled.\<close> A struct is a record, an enum a datatype, machine integers keep their width, lengths
  of live slices are natural numbers. A fallible function yields a sum with the error on the left; a function that
  uses the card is a function of the transport and its state (\<open>io\<close> of \<open>Prelude\<close>). The transport is a
  parameter, so that a theorem holds for every card, honest or not. Code outside the repository (\<open>pcsc\<close>, the
  cryptographic crates, \<open>der\<close>, \<open>refineid_pkcs15\<close>, \<open>refineid_rapp\<close>) is a parameter too; where a property needs
  what such code promises, that is a named hypothesis and its witness has a concrete instance.

  \<^bold>\<open>Layers and theories.\<close>
  \<^item> \<open>Prelude\<close>: bytes, results, the monad of card operations, big-endian numbers, slices.
  \<^item> \<open>Ber\<close> (\<open>lib-core/ber.rs\<close>): encoder, parser, child iterator. Round trip whatever follows, confinement of the
    parser to its input, end of the iteration.
  \<^item> \<open>Status_Word\<close>, \<open>Transport\<close>, \<open>Apdu\<close> (\<open>apdu/status_word.rs\<close>, \<open>transport.rs\<close>, \<open>apdu/primitives.rs\<close>,
    \<open>apdu/iso7816.rs\<close>): status words, the transport port, the command builders; the locale \<open>apdu_builder\<close> is the
    contract of a builder and every builder is an interpretation of it.
  \<^item> \<open>T0_Exchange\<close> (\<open>lib-pcsc/lib.rs\<close>): one logical command over T=0. Its two loops are total functions: a
    corrected resend happens once, and a GET RESPONSE chain grows up to 64 KiB. A command that is not marked as
    repeatable is sent once.
  \<^item> \<open>Sm_Crypto\<close>, \<open>Secure_Messaging\<close> (\<open>crypto/symmetric.rs\<close>, \<open>pace.rs\<close>, \<open>secure_messaging.rs\<close>): wrapping and
    unwrapping under the send sequence counter. The channel refines the plain transport, and what is unwrapped was
    authenticated under the current counter.
  \<^item> \<open>Atr\<close>, \<open>Fineid_Card\<close> (\<open>atr.rs\<close>, \<open>fineid_card.rs\<close>): the answer to reset, its historical bytes, and the card
    models recognised by it. Parsing is the inverse of writing, every listed answer is classified as its model, and the
    check character is read but not compared.
  \<^item> \<open>Pkcs15\<close>, \<open>Token_Info\<close> (\<open>pkcs15.rs\<close>, \<open>hex.rs\<close>, \<open>identity.rs\<close>): SELECT, the READ BINARY loops (total: the
    offset grows below a bound), EF.TokenInfo and the serial a session is bound to.
  \<^item> \<open>Pin\<close>, \<open>Pin_Commands\<close>, \<open>Pin_Lengths\<close>, \<open>Retry_Floor\<close>, \<open>Activation\<close>, \<open>Pin_Ops\<close> (\<open>pin.rs\<close>, \<open>auth.rs\<close>,
    \<open>auth/commands.rs\<close>, \<open>auth/pin_lengths.rs\<close>, \<open>pin_retry_risk.rs\<close>, \<open>activation.rs\<close>): secret codes, references,
    the retry floor with the locale \<open>retry_gate\<close>, and every PIN operation with the commands it sends.
    \<open>Command_Journal\<close> is the calculus of \<open>emits\<close>: what an operation can have sent, whatever the card answers.
  \<^item> \<open>Card_Pin\<close>, \<open>Pin_Flows\<close> (\<open>card-manager-core/card_pin.rs\<close>): change, unblock and activation, with the
    evidence that precedes each presentation.
  \<^item> \<open>Pin_Cache\<close> (\<open>pin_cache.rs\<close>): the held PIN 1 and the memory of rejected PINs as a step relation.
  \<^item> \<open>Sign_Commands\<close>, \<open>Sign_Ops\<close> (\<open>sign/commands.rs\<close>, \<open>sign.rs\<close>, \<open>signing_session.rs\<close>): MSE, PSO, signatures.
  \<^item> \<open>Agent_Wire\<close> (\<open>agent-pipe/wire.rs\<close>, \<open>agent-pipe/lib.rs\<close>): messages and names of the agent pipe.
  \<^item> \<open>Pkcs11_Codec\<close> (\<open>pkcs11/ck.rs\<close>, \<open>sign.rs\<close>, \<open>token.rs\<close>): codes, DigestInfo, DER signatures.
  \<^item> \<open>Pkcs11_Card\<close> (\<open>token.rs\<close>): login, signature and PIN change on the card behind the PIN cache.
  \<^item> \<open>Pkcs11_State\<close>, \<open>Pkcs11_Life\<close> (\<open>state.rs\<close>): slots, sessions, logins and events; the step relation
    \<open>module_step\<close> and the invariant of its reachable states.
  \<^item> \<open>Pkcs11_Objects\<close> (\<open>token.rs\<close>): handles, attributes, search and software verification.
  \<^item> \<open>Pkcs11_Api\<close> (\<open>api.rs\<close>): the functions a caller sees. They refine \<open>module_step\<close>, whatever the calls of other
    threads do while the module is released, so the invariants of the module hold at the interface.
  \<^item> \<open>Rapp_View\<close> (\<open>rapp-core/view.rs\<close>): when the computer dials a paired phone without being asked. Redial windows
    are closed lazily; the view refines one that closes them at their time, and a phone that withdrew is left alone
    until it announces itself anew.
  \<^item> \<open>Rapp_Store\<close> (\<open>rapp-core/store.rs\<close>, \<open>presence.rs\<close>): a pairing from its ceremony to its revocation, and the
    store of pairings. The locale \<open>pairing_store\<close> is the contract of the trait \<open>PairingStore\<close>; what is proved in it of
    the free functions (revoke, forget, clean up, sweep, offer) holds of the store in memory by interpretation.
  \<^item> \<open>Rapp_Codec\<close> (\<open>rapp-core/persistence.rs\<close>, \<open>presence.rs\<close>): the blobs a pairing set and a sighting are stored as.
  \<^item> \<open>Rapp_Vault\<close> (\<open>windows-credential-store/pairing.rs\<close>): the store several processes share over one protected file;
    whatever their interleaving, the file holds what the accepted changes make of one store in memory.

  \<^item> \<open>X509\<close> (\<open>lib-core/x509.rs\<close>, \<open>oid.rs\<close>): the fields of a certificate, key usage, the addresses it advertises.
    The readers of the crate \<open>der\<close> are a parameter: a reader is the list of the TLVs still ahead.
  \<^item> \<open>Path_Validation\<close> (\<open>doc-sign/material.rs\<close>, \<open>oids.rs\<close>; its \<open>ber.rs\<close> is the code of \<open>lib-core\<close> again): extensions,
    one link, the search for an issuer, the walk to an approved anchor. A verified path is sound, material is never
    partial. The locale \<open>evidence_provider\<close> is the contract of the trait \<open>EvidenceProvider\<close>.
  \<^item> \<open>Revocation\<close> (\<open>lib-core/crl.rs\<close>, \<open>ocsp.rs\<close>, \<open>revocation.rs\<close>, \<open>doc-sign/material.rs\<close>): revocation lists, OCSP requests
    and responses, verdicts, their cache, and the collection of one status answer. A request echoed by a responder is
    recognised; what is accepted from whom is characterised exactly, including a responder nobody delegated to and a
    list with a corrupt entry, both of which the code trusts further than its comments say.
  \<^item> \<open>Long_Term\<close> (\<open>doc-sign/material.rs\<close>): the provider of production interprets \<open>evidence_provider\<close>, so long-term
    material holds authentic evidence for every link of every path.
  \<^item> \<open>Base64\<close> (\<open>doc-sign/base64.rs\<close>): the strict decoder is the exact inverse of the encoder; the one of addresses
    inverts its encoder too, and accepts more.

  \<^bold>\<open>Bounds and fuel.\<close> No definition of the program has fuel: its loops are total, each with a measure from the
  code's own guards (a certificate path, for one, ends after \<open>MAX_DEPTH\<close> certificates). The only counters with fuel are of specifications: the number of \<open>C_FindObjects\<close> calls of
  \<open>find_all\<close>, for which one more than the number of handles is shown to be enough. Slot numbers and session
  handles are 32 bits wide and saturate as in the code; the step relation of the module asks that they are not used up.

  \<^bold>\<open>Not modelled.\<close> Zeroisation, \<open>Debug\<close> and \<open>Display\<close> texts, and raw-pointer arithmetic. The PACE handshake
  (elliptic-curve points of third-party crates), CMS, time-stamp tokens and the signature formats (PAdES, XAdES,
  CAdES, ASiC) over PDF, XML and ZIP parsers, passports, the protocol engine of the phone (the crate \<open>refineid_rapp\<close> is
  not among the sources: its key record, its expiry rule and its codec are the parameter \<open>engine\<close> of
  \<open>Rapp_Store\<close>), and everything that is a sequence of Windows calls: pipes, minidriver entry points,
  windows, installer, data protection.
\<close>

end
